(* ===== verification/Prelude.thy ===== *)
theory Prelude
  imports Main "HOL-Library.Word" "HOL-Library.List_Lexorder"
begin

text \<open>
  Shared vocabulary of the development: the types that stand for the host language's byte
  arrays and strings, errors as left values of a sum, sequences of checks that stop at the
  first failure, and the generic list and map lemmas the component theories rest on.

  A function of the source that throws returns a value of \<open>'e + 'a\<close>: \<open>Inl e\<close> where the
  source throws \<open>e\<close>, \<open>Inr x\<close> where it returns \<open>x\<close>. A validator is a sequence of checks that
  throws at the first one that fails; it is written as a list of checks under \<open>first_error\<close>.
  A later check may read a field through a total accessor whose value only matters once the
  earlier check has established the field's type.
\<close>

named_theorems check_simps \<open>unfolding of the check combinators\<close>

section \<open>Host types\<close>

type_synonym byte = "8 word"
type_synonym bytes = "byte list"
type_synonym code_unit = "16 word"
type_synonym jstring = "code_unit list"

text \<open>A string literal of the source: every character of it is in the Latin-1 range.\<close>

definition lit :: "string \<Rightarrow> jstring" where
  "lit s = map of_char s"

lemma of_char_less_256: "(of_char c :: nat) < 256"
proof -
  have "(of_char c :: nat) mod 256 = of_char c" by (rule of_char_mod_256)
  moreover have "(of_char c :: nat) mod 256 < 256" by (rule mod_less_divisor) simp
  ultimately show ?thesis by simp
qed

lemma unat_of_char_16: "unat (of_char c :: code_unit) = of_char c"
proof -
  have "(of_char c :: code_unit) = of_nat (of_char c)" by (rule of_nat_of_char [symmetric])
  moreover have "(of_char c :: nat) < 2 ^ LENGTH(16)"
    by (rule order_less_trans [OF of_char_less_256]) simp
  ultimately show ?thesis by (simp only: unat_of_nat mod_less)
qed

lemma of_char_16_inj: "(of_char c :: code_unit) = of_char d \<longleftrightarrow> c = d"
proof
  assume "(of_char c :: code_unit) = of_char d"
  then have "unat (of_char c :: code_unit) = unat (of_char d :: code_unit)" by (rule arg_cong)
  then have "(of_char c :: nat) = of_char d" by (simp only: unat_of_char_16)
  then show "c = d" by (rule of_char_eqI)
qed (rule arg_cong)

lemma lit_eq_iff [simp]: "lit s = lit t \<longleftrightarrow> s = t"
  unfolding lit_def by (rule inj_map_eq_map) (auto intro!: injI simp: of_char_16_inj)

text \<open>Evaluation goes through integers.\<close>

lemma lit_code [code]: "lit s = map (\<lambda>c. word_of_int (of_char c)) s"
proof -
  have "(word_of_int (of_char c) :: code_unit) = of_char c" for c
    by (simp only: of_int_of_char)
  then show ?thesis by (simp add: lit_def)
qed

lemma length_lit [simp]: "length (lit s) = length s"
  by (simp add: lit_def)

lemma lit_Nil [simp]: "lit [] = []"
  by (simp add: lit_def)

lemma lit_append: "lit (s @ t) = lit s @ lit t"
  by (simp add: lit_def)

section \<open>Checks that stop at the first failure\<close>

fun first_error :: "('e + unit) list \<Rightarrow> 'e + unit" where
  "first_error [] = Inr ()"
| "first_error (c # cs) = (case c of Inl e \<Rightarrow> Inl e | Inr _ \<Rightarrow> first_error cs)"

definition fail_if :: "bool \<Rightarrow> 'e \<Rightarrow> 'e + unit" where
  "fail_if b e = (if b then Inl e else Inr ())"

lemma first_error_Inr [simp]: "first_error cs = Inr u \<longleftrightarrow> (\<forall>c \<in> set cs. c = Inr ())"
  by (induction cs) (auto split: sum.splits)

lemma first_error_Inl_elem: "first_error cs = Inl e \<Longrightarrow> Inl e \<in> set cs"
  by (induction cs) (auto split: sum.splits)

lemma first_error_append:
  "first_error (cs @ ds) = (case first_error cs of Inl e \<Rightarrow> Inl e | Inr _ \<Rightarrow> first_error ds)"
proof (induction cs)
  case (Cons c cs)
  then show ?case by (cases c) simp_all
qed simp

lemma fail_if_Inr [simp]: "fail_if b e = Inr u \<longleftrightarrow> \<not> b"
  by (simp add: fail_if_def)

lemma fail_if_Inl [simp]: "fail_if b e = Inl e' \<longleftrightarrow> b \<and> e = e'"
  by (auto simp: fail_if_def)

lemmas first_error_Cons = first_error.simps(2)
declare first_error.simps(2) [simp del]

text \<open>Sequencing of a computation that may throw.\<close>

definition and_then :: "'e + 'a \<Rightarrow> ('a \<Rightarrow> 'e + 'b) \<Rightarrow> 'e + 'b" where
  "and_then m f = (case m of Inl e \<Rightarrow> Inl e | Inr x \<Rightarrow> f x)"

lemma and_then_simps [simp]: "and_then (Inl e) f = Inl e" "and_then (Inr x) f = f x"
  by (simp_all add: and_then_def)

lemma and_then_Inr_iff [simp]: "and_then m f = Inr y \<longleftrightarrow> (\<exists>x. m = Inr x \<and> f x = Inr y)"
  by (cases m) auto

lemma and_then_cong [fundef_cong]:
  "m = m' \<Longrightarrow> (\<And>x. m' = Inr x \<Longrightarrow> f x = f' x) \<Longrightarrow> and_then m f = and_then m' f'"
  by (cases m') auto

text \<open>Replace the value of a computation by its success, and catch every throw.\<close>

definition succeeds :: "'e + 'a \<Rightarrow> bool" where
  "succeeds m \<longleftrightarrow> \<not> isl m"

lemma succeeds_simps [simp]: "succeeds (Inr x)" "\<not> succeeds (Inl e)"
  by (simp_all add: succeeds_def)

lemma succeeds_iff: "succeeds m \<longleftrightarrow> (\<exists>x. m = Inr x)"
  by (cases m) auto

lemmas check_combinators = first_error_Inr fail_if_Inr and_then_Inr_iff
declare check_combinators [check_simps]

section \<open>Numbered traversals\<close>

text \<open>The array traversals of the source pass each element with its index.\<close>

fun each_indexed :: "(nat \<Rightarrow> 'a \<Rightarrow> 'b) \<Rightarrow> nat \<Rightarrow> 'a list \<Rightarrow> 'b list" where
  "each_indexed f i [] = []"
| "each_indexed f i (x # xs) = f i x # each_indexed f (Suc i) xs"

lemma length_each_indexed [simp]: "length (each_indexed f i xs) = length xs"
  by (induction xs arbitrary: i) auto

lemma set_each_indexed: "set (each_indexed f i xs) = {f (i + k) (xs ! k) | k. k < length xs}"
proof (induction xs arbitrary: i)
  case (Cons x xs)
  have "{f (i + k) ((x # xs) ! k) | k. k < length (x # xs)} =
      insert (f i x) {f (Suc i + k) (xs ! k) | k. k < length xs}" (is "?L = ?R")
  proof
    show "?L \<subseteq> ?R"
    proof
      fix y assume "y \<in> ?L"
      then obtain k where k: "k < length (x # xs)" "y = f (i + k) ((x # xs) ! k)" by blast
      then show "y \<in> ?R" by (cases k) auto
    qed
    show "?R \<subseteq> ?L"
    proof
      fix y assume "y \<in> ?R"
      then consider "y = f i x" | k where "k < length xs" "y = f (Suc i + k) (xs ! k)" by blast
      then show "y \<in> ?L"
      proof cases
        case 1 then show ?thesis by (intro CollectI exI [of _ 0]) simp
      next
        case (2 k) then show ?thesis by (intro CollectI exI [of _ "Suc k"]) simp
      qed
    qed
  qed
  with Cons show ?case by simp
qed simp

lemma ball_each_indexed:
  "(\<forall>c \<in> set (each_indexed f i xs). P c) \<longleftrightarrow> (\<forall>k < length xs. P (f (i + k) (xs ! k)))"
  by (auto simp: set_each_indexed)

lemma ball_each_indexed_elem:
  assumes "\<And>i x. P (f i x) \<longleftrightarrow> Q x"
  shows "(\<forall>c \<in> set (each_indexed f i xs). P c) \<longleftrightarrow> (\<forall>x \<in> set xs. Q x)"
  by (induction xs arbitrary: i) (auto simp: assms)

section \<open>Strictly ascending sequences\<close>

text \<open>
  The source keeps the previous element, starting from the empty string, and rejects an
  element that is not greater than it.
\<close>

fun ascending_from :: "jstring \<Rightarrow> jstring list \<Rightarrow> bool" where
  "ascending_from p [] = True"
| "ascending_from p (x # xs) = (p < x \<and> ascending_from x xs)"

lemma ascending_from_sorted:
  "ascending_from p xs \<longleftrightarrow> sorted_wrt (<) xs \<and> (\<forall>x \<in> set xs. p < x)"
proof (induction xs arbitrary: p)
  case (Cons x xs)
  then show ?case by (auto dest: order_less_trans)
qed simp

lemma ascending_from_distinct: "ascending_from p xs \<Longrightarrow> distinct xs"
  by (auto simp: ascending_from_sorted strict_sorted_iff)

section \<open>Splitting a string at a separator\<close>

fun split_on :: "'a \<Rightarrow> 'a list \<Rightarrow> 'a list list" where
  "split_on c [] = [[]]"
| "split_on c (x # xs) =
     (if x = c then [] # split_on c xs
      else (case split_on c xs of [] \<Rightarrow> [[x]] | w # ws \<Rightarrow> (x # w) # ws))"

lemma split_on_not_Nil [simp]: "split_on c xs \<noteq> []"
  by (cases xs) (auto split: list.splits)

lemma split_on_no_sep: "w \<in> set (split_on c xs) \<Longrightarrow> c \<notin> set w"
proof (induction xs arbitrary: w)
  case (Cons x xs)
  then show ?case by (auto split: if_splits list.splits)
qed simp

lemma split_on_without_sep: "c \<notin> set xs \<Longrightarrow> split_on c xs = [xs]"
  by (induction xs) auto

end
