(* ===== verification/Text.thy ===== *)
theory Text
  imports Prelude
begin

text \<open>
  The strings of the host language, as the codec uses them: sequences of 16-bit code units
  compared unit by unit, their code points, \<open>isWellFormed\<close>, the UTF-8 encoder and the strict
  (fatal) UTF-8 decoder, and the character classes and regular expressions that
  \<^verbatim>\<open>packages/hail-codec-ts/src/validation.ts\<close> tests identifiers with.
\<close>

section \<open>Code points\<close>

definition is_high_surrogate :: "code_unit \<Rightarrow> bool" where
  "is_high_surrogate c \<longleftrightarrow> 0xD800 \<le> c \<and> c \<le> 0xDBFF"

definition is_low_surrogate :: "code_unit \<Rightarrow> bool" where
  "is_low_surrogate c \<longleftrightarrow> 0xDC00 \<le> c \<and> c \<le> 0xDFFF"

definition surrogate_point :: "nat \<Rightarrow> bool" where
  "surrogate_point p \<longleftrightarrow> 0xD800 \<le> p \<and> p \<le> 0xDFFF"

definition pair_point :: "code_unit \<Rightarrow> code_unit \<Rightarrow> nat" where
  "pair_point c d = 0x10000 + (unat c - 0xD800) * 0x400 + (unat d - 0xDC00)"

fun code_points :: "jstring \<Rightarrow> nat list" where
  "code_points [] = []"
| "code_points [c] = [unat c]"
| "code_points (c # d # ds) =
     (if is_high_surrogate c \<and> is_low_surrogate d then pair_point c d # code_points ds
      else unat c # code_points (d # ds))"

definition isWellFormed :: "jstring \<Rightarrow> bool" where
  "isWellFormed s \<longleftrightarrow> list_all (\<lambda>p. \<not> surrogate_point p) (code_points s)"

definition units_of :: "nat \<Rightarrow> jstring" where
  "units_of p = (if p < 0x10000 then [of_nat p]
     else [of_nat (0xD800 + (p - 0x10000) div 0x400), of_nat (0xDC00 + (p - 0x10000) mod 0x400)])"

section \<open>UTF-8\<close>

text \<open>\<open>TextEncoder\<close> writes U+FFFD for an unpaired surrogate.\<close>

definition utf8_point :: "nat \<Rightarrow> bytes" where
  "utf8_point p =
     (if surrogate_point p then [0xEF, 0xBF, 0xBD]
      else if p < 0x80 then [of_nat p]
      else if p < 0x800 then [of_nat (0xC0 + p div 0x40), of_nat (0x80 + p mod 0x40)]
      else if p < 0x10000 then
        [of_nat (0xE0 + p div 0x1000), of_nat (0x80 + p div 0x40 mod 0x40), of_nat (0x80 + p mod 0x40)]
      else [of_nat (0xF0 + p div 0x40000), of_nat (0x80 + p div 0x1000 mod 0x40),
        of_nat (0x80 + p div 0x40 mod 0x40), of_nat (0x80 + p mod 0x40)])"

definition utf8_encode :: "jstring \<Rightarrow> bytes" where
  "utf8_encode s = concat (map utf8_point (code_points s))"

definition utf8_length :: "jstring \<Rightarrow> nat" where
  "utf8_length s = length (utf8_encode s)"

definition continuation :: "nat \<Rightarrow> nat \<Rightarrow> byte \<Rightarrow> bool" where
  "continuation lo hi b \<longleftrightarrow> lo \<le> unat b \<and> unat b \<le> hi"

text \<open>
  The decoder with \<open>fatal: true\<close> and \<open>ignoreBOM: true\<close>: the first ill-formed sequence throws
  (overlong forms, surrogates and points above U+10FFFF are ill formed), a byte order mark is
  kept.
\<close>

fun utf8_points :: "bytes \<Rightarrow> nat list option" where
  "utf8_points [] = Some []"
| "utf8_points (b # bs) =
     (if unat b < 0x80 then map_option ((#) (unat b)) (utf8_points bs)
      else if 0xC2 \<le> unat b \<and> unat b \<le> 0xDF then
        (case bs of
           c # bs1 \<Rightarrow>
             if continuation 0x80 0xBF c
             then map_option ((#) ((unat b - 0xC0) * 0x40 + (unat c - 0x80))) (utf8_points bs1)
             else None
         | _ \<Rightarrow> None)
      else if 0xE0 \<le> unat b \<and> unat b \<le> 0xEF then
        (case bs of
           c # d # bs2 \<Rightarrow>
             if continuation (if unat b = 0xE0 then 0xA0 else 0x80) (if unat b = 0xED then 0x9F else 0xBF) c
               \<and> continuation 0x80 0xBF d
             then map_option ((#) ((unat b - 0xE0) * 0x1000 + (unat c - 0x80) * 0x40 + (unat d - 0x80)))
               (utf8_points bs2)
             else None
         | _ \<Rightarrow> None)
      else if 0xF0 \<le> unat b \<and> unat b \<le> 0xF4 then
        (case bs of
           c # d # e # bs3 \<Rightarrow>
             if continuation (if unat b = 0xF0 then 0x90 else 0x80) (if unat b = 0xF4 then 0x8F else 0xBF) c
               \<and> continuation 0x80 0xBF d \<and> continuation 0x80 0xBF e
             then map_option ((#) ((unat b - 0xF0) * 0x40000 + (unat c - 0x80) * 0x1000
                + (unat d - 0x80) * 0x40 + (unat e - 0x80))) (utf8_points bs3)
             else None
         | _ \<Rightarrow> None)
      else None)"

definition utf8_decode :: "bytes \<Rightarrow> jstring option" where
  "utf8_decode bs = map_option (\<lambda>ps. concat (map units_of ps)) (utf8_points bs)"

section \<open>Character classes\<close>

definition in_range :: "char \<Rightarrow> char \<Rightarrow> code_unit \<Rightarrow> bool" where
  "in_range lo hi c \<longleftrightarrow> of_char lo \<le> c \<and> c \<le> of_char hi"

definition one_of :: "string \<Rightarrow> code_unit \<Rightarrow> bool" where
  "one_of s c \<longleftrightarrow> c \<in> set (lit s)"

definition is_lower :: "code_unit \<Rightarrow> bool" where
  "is_lower = in_range CHR ''a'' CHR ''z''"

definition is_upper :: "code_unit \<Rightarrow> bool" where
  "is_upper = in_range CHR ''A'' CHR ''Z''"

definition is_digit :: "code_unit \<Rightarrow> bool" where
  "is_digit = in_range CHR ''0'' CHR ''9''"

definition is_hex :: "code_unit \<Rightarrow> bool" where
  "is_hex c \<longleftrightarrow> is_digit c \<or> in_range CHR ''a'' CHR ''f'' c"

definition is_alnum :: "code_unit \<Rightarrow> bool" where
  "is_alnum c \<longleftrightarrow> is_lower c \<or> is_digit c"

definition is_base64url :: "code_unit \<Rightarrow> bool" where
  "is_base64url c \<longleftrightarrow> is_upper c \<or> is_lower c \<or> is_digit c \<or> one_of ''_-'' c"

section \<open>Regular expressions of the validators\<close>

definition DID_PATTERN :: "jstring \<Rightarrow> bool" where
  "DID_PATTERN s \<longleftrightarrow> length s = 32 \<and> take 8 s = lit ''did:plc:''
     \<and> list_all (\<lambda>c. is_lower c \<or> in_range CHR ''2'' CHR ''7'' c) (drop 8 s)"

definition UUID_V7_PATTERN :: "jstring \<Rightarrow> bool" where
  "UUID_V7_PATTERN s \<longleftrightarrow> length s = 36
     \<and> list_all is_hex (take 8 s) \<and> s ! 8 = of_char CHR ''-''
     \<and> list_all is_hex (take 4 (drop 9 s)) \<and> s ! 13 = of_char CHR ''-''
     \<and> s ! 14 = of_char CHR ''7'' \<and> list_all is_hex (take 3 (drop 15 s)) \<and> s ! 18 = of_char CHR ''-''
     \<and> one_of ''89ab'' (s ! 19) \<and> list_all is_hex (take 3 (drop 20 s)) \<and> s ! 23 = of_char CHR ''-''
     \<and> list_all is_hex (drop 24 s)"

definition CATEGORY_PATTERN :: "jstring \<Rightarrow> bool" where
  "CATEGORY_PATTERN s \<longleftrightarrow> s \<noteq> [] \<and> length s \<le> 64 \<and> is_alnum (hd s)
     \<and> list_all (\<lambda>c. is_alnum c \<or> one_of ''._-'' c) (tl s)"

text \<open>A dot-separated label: alphanumeric at both ends, hyphens inside.\<close>

definition label_pattern :: "jstring \<Rightarrow> bool" where
  "label_pattern s \<longleftrightarrow> s \<noteq> [] \<and> is_alnum (hd s) \<and> is_alnum (last s)
     \<and> list_all (\<lambda>c. is_alnum c \<or> one_of ''-'' c) s"

definition LOCAL_PART_PATTERN :: "jstring \<Rightarrow> bool" where
  "LOCAL_PART_PATTERN s \<longleftrightarrow> list_all label_pattern (split_on (of_char CHR ''.'') s)"

definition DOMAIN_LABEL_PATTERN :: "jstring \<Rightarrow> bool" where
  "DOMAIN_LABEL_PATTERN s \<longleftrightarrow> label_pattern s \<and> length s \<le> 63"

text \<open>
  The class of \<open>CONTROL_OR_FORMAT\<close>: general categories Cc and Cf (Unicode 15.1), tested on
  code points.
\<close>

definition control_or_format_point :: "nat \<Rightarrow> bool" where
  "control_or_format_point p \<longleftrightarrow>
     p \<le> 0x1F \<or> 0x7F \<le> p \<and> p \<le> 0x9F \<or>
     p = 0xAD \<or> 0x600 \<le> p \<and> p \<le> 0x605 \<or> p = 0x61C \<or> p = 0x6DD \<or> p = 0x70F \<or>
     0x890 \<le> p \<and> p \<le> 0x891 \<or> p = 0x8E2 \<or> p = 0x180E \<or> 0x200B \<le> p \<and> p \<le> 0x200F \<or>
     0x202A \<le> p \<and> p \<le> 0x202E \<or> 0x2060 \<le> p \<and> p \<le> 0x2064 \<or> 0x2066 \<le> p \<and> p \<le> 0x206F \<or>
     p = 0xFEFF \<or> 0xFFF9 \<le> p \<and> p \<le> 0xFFFB \<or> p = 0x110BD \<or> p = 0x110CD \<or>
     0x13430 \<le> p \<and> p \<le> 0x1343F \<or> 0x1BCA0 \<le> p \<and> p \<le> 0x1BCA3 \<or>
     0x1D173 \<le> p \<and> p \<le> 0x1D17A \<or> p = 0xE0001 \<or> 0xE0020 \<le> p \<and> p \<le> 0xE007F"

definition CONTROL_OR_FORMAT :: "jstring \<Rightarrow> bool" where
  "CONTROL_OR_FORMAT s \<longleftrightarrow> list_ex control_or_format_point (code_points s)"

text \<open>The ASCII part of \<open>toLowerCase\<close>.\<close>

definition lower_unit :: "code_unit \<Rightarrow> code_unit" where
  "lower_unit c = (if is_upper c then c + 32 else c)"

definition ascii_lower :: "jstring \<Rightarrow> jstring" where
  "ascii_lower s = map lower_unit s"

section \<open>Lemmas\<close>

lemma uint_of_char_16: "uint (of_char c :: code_unit) = of_char c"
proof -
  have "uint (of_char c :: code_unit) = int (unat (of_char c :: code_unit))" by simp
  also have "\<dots> = int (of_char c)" by (simp only: unat_of_char_16)
  finally show ?thesis by (simp only: of_nat_of_char)
qed

lemma in_range_code [code]:
  "in_range lo hi c \<longleftrightarrow> (let i = uint c in of_char lo \<le> i \<and> i \<le> of_char hi)"
  by (simp only: in_range_def word_le_def uint_of_char_16 Let_def)

lemma unat_of_nat_byte [simp]: "n < 256 \<Longrightarrow> unat (of_nat n :: byte) = n"
  by (simp add: unat_of_nat)

lemma unat_of_nat_unit [simp]: "n < 65536 \<Longrightarrow> unat (of_nat n :: code_unit) = n"
  by (simp add: unat_of_nat)

lemma unat_unit_less: "unat (c :: code_unit) < 65536"
  using unsigned_less [of c, where ?'a = nat] by simp

lemma unat_byte_less: "unat (b :: byte) < 256"
  using unsigned_less [of b, where ?'a = nat] by simp

lemma high_surrogate_unat: "is_high_surrogate c \<longleftrightarrow> 0xD800 \<le> unat c \<and> unat c \<le> 0xDBFF"
  by (simp add: is_high_surrogate_def word_le_nat_alt)

lemma low_surrogate_unat: "is_low_surrogate c \<longleftrightarrow> 0xDC00 \<le> unat c \<and> unat c \<le> 0xDFFF"
  by (simp add: is_low_surrogate_def word_le_nat_alt)

lemma code_points_bound: "p \<in> set (code_points s) \<Longrightarrow> p \<le> 0x10FFFF"
proof (induction s rule: code_points.induct)
  case (2 c)
  then show ?case using unat_unit_less [of c] by simp
next
  case (3 c d ds)
  have "pair_point c d \<le> 0x10FFFF" if "is_high_surrogate c" "is_low_surrogate d"
    using that unfolding pair_point_def high_surrogate_unat low_surrogate_unat by linarith
  with 3 show ?case using unat_unit_less [of c] by (auto split: if_splits)
qed simp

lemma units_of_unit [simp]: "units_of (unat c) = [c]"
  using unat_unit_less [of c] by (simp add: units_of_def)

lemma units_of_pair:
  assumes "is_high_surrogate c" and "is_low_surrogate d"
  shows "units_of (pair_point c d) = [c, d]"
proof -
  define m n where "m = unat c - 0xD800" and "n = unat d - 0xDC00"
  have c: "unat c = 0xD800 + m" and d: "unat d = 0xDC00 + n" and n: "n < 0x400"
    using assms by (auto simp: high_surrogate_unat low_surrogate_unat m_def n_def)
  have p: "pair_point c d = 0x10000 + (m * 0x400 + n)"
    by (simp add: pair_point_def m_def n_def)
  have "(m * 0x400 + n) div 0x400 = m" and "(m * 0x400 + n) mod 0x400 = n"
    using n by simp_all
  then have "units_of (pair_point c d) = [of_nat (0xD800 + m), of_nat (0xDC00 + n)]"
    unfolding p units_of_def by simp
  then show ?thesis by (simp only: c [symmetric] d [symmetric] of_nat_unat ucast_id)
qed

lemma units_of_code_points: "concat (map units_of (code_points s)) = s"
  by (induction s rule: code_points.induct) (auto simp: units_of_pair)

lemma utf8_points_2:
  assumes "unat x = 0xC0 + a" "unat y = 0x80 + b" "2 \<le> a" "a < 32" "b < 64"
  shows "utf8_points (x # y # bs) = map_option ((#) (a * 64 + b)) (utf8_points bs)"
  using assms by (simp add: continuation_def)

lemma utf8_points_3:
  assumes "unat x = 0xE0 + a" "unat y = 0x80 + b" "unat z = 0x80 + c" "a < 16" "b < 64" "c < 64"
    and "a = 0 \<Longrightarrow> 32 \<le> b" and "a = 13 \<Longrightarrow> b < 32"
  shows "utf8_points (x # y # z # bs) = map_option ((#) (a * 4096 + b * 64 + c)) (utf8_points bs)"
  using assms by (auto simp: continuation_def)

lemma utf8_points_4:
  assumes "unat w = 0xF0 + a" "unat x = 0x80 + b" "unat y = 0x80 + c" "unat z = 0x80 + d"
    and "a < 5" "b < 64" "c < 64" "d < 64" and "a = 0 \<Longrightarrow> 16 \<le> b" and "a = 4 \<Longrightarrow> b < 16"
  shows "utf8_points (w # x # y # z # bs) =
    map_option ((#) (a * 262144 + b * 4096 + c * 64 + d)) (utf8_points bs)"
  using assms by (auto simp: continuation_def)

lemma utf8_points_step:
  assumes "p \<le> 0x10FFFF" and "\<not> surrogate_point p"
  shows "utf8_points (utf8_point p @ bs) = map_option ((#) p) (utf8_points bs)"
proof -
  consider "p < 0x80" | "0x80 \<le> p" "p < 0x800" | "0x800 \<le> p" "p < 0x10000" | "0x10000 \<le> p"
    by linarith
  then show ?thesis
  proof cases
    case 1
    then show ?thesis using assms by (simp add: utf8_point_def)
  next
    case 2
    define a b where "a = p div 64" and "b = p mod 64"
    have p: "p = a * 64 + b" by (simp add: a_def b_def)
    have b: "b < 64" by (simp add: b_def)
    have a: "2 \<le> a" "a < 32" using p b 2 by linarith+
    have "utf8_point p = [of_nat (0xC0 + a), of_nat (0x80 + b)]"
      using 2 assms(2) by (simp add: utf8_point_def a_def b_def)
    moreover have "utf8_points (of_nat (0xC0 + a) # of_nat (0x80 + b) # bs) =
        map_option ((#) (a * 64 + b)) (utf8_points bs)"
      using a b by (intro utf8_points_2 unat_of_nat_byte) auto
    ultimately show ?thesis by (simp only: p [symmetric] append.simps)
  next
    case 3
    define a b c where "a = p div 4096" and "b = p div 64 mod 64" and "c = p mod 64"
    have "p div 64 = p div 64 div 64 * 64 + b" by (simp add: b_def)
    moreover have "p div 64 div 64 = a" by (simp add: a_def flip: div_mult2_eq)
    moreover have "p = p div 64 * 64 + c" by (simp add: c_def)
    ultimately have p: "p = a * 4096 + b * 64 + c" by linarith
    have bc: "b < 64" "c < 64" by (simp_all add: b_def c_def)
    have a: "a < 16" using p 3 by linarith
    have lo: "a = 0 \<Longrightarrow> 32 \<le> b" using p bc 3 by linarith
    have hi: "a = 13 \<Longrightarrow> b < 32" using p bc assms(2) 3 unfolding surrogate_point_def by linarith
    have "utf8_point p = [of_nat (0xE0 + a), of_nat (0x80 + b), of_nat (0x80 + c)]"
      using 3 assms(2) by (simp add: utf8_point_def a_def b_def c_def)
    moreover have "utf8_points (of_nat (0xE0 + a) # of_nat (0x80 + b) # of_nat (0x80 + c) # bs) =
        map_option ((#) (a * 4096 + b * 64 + c)) (utf8_points bs)"
      using a bc lo hi by (intro utf8_points_3 unat_of_nat_byte) auto
    ultimately show ?thesis by (simp only: p [symmetric] append.simps)
  next
    case 4
    define a b c d where "a = p div 262144" and "b = p div 4096 mod 64" and "c = p div 64 mod 64"
      and "d = p mod 64"
    have "p div 4096 = p div 4096 div 64 * 64 + b" by (simp add: b_def)
    moreover have "p div 4096 div 64 = a" by (simp add: a_def flip: div_mult2_eq)
    moreover have "p div 64 = p div 64 div 64 * 64 + c" by (simp add: c_def)
    moreover have "p div 64 div 64 = p div 4096" by (simp flip: div_mult2_eq)
    moreover have "p = p div 64 * 64 + d" by (simp add: d_def)
    ultimately have p: "p = a * 262144 + b * 4096 + c * 64 + d" by linarith
    have bcd: "b < 64" "c < 64" "d < 64" by (simp_all add: b_def c_def d_def)
    have a: "a < 5" using p assms(1) by linarith
    have lo: "a = 0 \<Longrightarrow> 16 \<le> b" using p bcd 4 by linarith
    have hi: "a = 4 \<Longrightarrow> b < 16" using p bcd assms(1) by linarith
    have "utf8_point p = [of_nat (0xF0 + a), of_nat (0x80 + b), of_nat (0x80 + c), of_nat (0x80 + d)]"
      using 4 assms(2) by (simp add: utf8_point_def a_def b_def c_def d_def)
    moreover have "utf8_points (of_nat (0xF0 + a) # of_nat (0x80 + b) # of_nat (0x80 + c)
          # of_nat (0x80 + d) # bs) =
        map_option ((#) (a * 262144 + b * 4096 + c * 64 + d)) (utf8_points bs)"
      using a bcd lo hi by (intro utf8_points_4 unat_of_nat_byte) auto
    ultimately show ?thesis by (simp only: p [symmetric] append.simps)
  qed
qed

lemma utf8_points_encode:
  assumes "list_all (\<lambda>p. p \<le> 0x10FFFF \<and> \<not> surrogate_point p) ps"
  shows "utf8_points (concat (map utf8_point ps)) = Some ps"
  using assms by (induction ps) (simp_all add: utf8_points_step del: utf8_points.simps(2))

lemma utf8_decode_encode: "isWellFormed s \<Longrightarrow> utf8_decode (utf8_encode s) = Some s"
proof -
  assume "isWellFormed s"
  then have "utf8_points (utf8_encode s) = Some (code_points s)"
    unfolding utf8_encode_def isWellFormed_def
    by (intro utf8_points_encode) (auto simp: list_all_iff code_points_bound)
  then show ?thesis by (simp add: utf8_decode_def units_of_code_points)
qed

lemma utf8_encode_inj:
  "isWellFormed s \<Longrightarrow> isWellFormed t \<Longrightarrow> utf8_encode s = utf8_encode t \<longleftrightarrow> s = t"
  by (metis option.inject utf8_decode_encode)

end
