(* ===== verification/Errors.thy ===== *)
theory Errors
  imports Text
begin

text \<open>
  \<^verbatim>\<open>packages/hail-codec-ts/src/errors.ts\<close>. An error of the codec carries a code and the path
  of the offending member. The path is kept as the list of its steps from the root \<open>$\<close> instead
  of as rendered text; the human-readable message is not modelled.
\<close>

datatype HailCodecErrorCode =
    InvalidValue
  | ResourceLimit
  | MalformedCbor
  | NonDeterministicCbor
  | SchemaViolation
  | InvalidCose
  | UnsupportedAlgorithm
  | WrongContentType
  | WrongKeyRole
  | InvalidSignature
  | InvalidDiagnosticJson

datatype path_step = Member jstring | Index nat

type_synonym path = "path_step list"

datatype HailCodecError = HailCodecError (error_code: HailCodecErrorCode) (error_path: "path option")

type_synonym 'a result = "HailCodecError + 'a"

abbreviation throw :: "HailCodecErrorCode \<Rightarrow> 'a result" where
  "throw c \<equiv> Inl (HailCodecError c None)"

abbreviation throw_at :: "HailCodecErrorCode \<Rightarrow> path \<Rightarrow> 'a result" where
  "throw_at c p \<equiv> Inl (HailCodecError c (Some p))"

text \<open>Child paths, as the template strings \<open>${path}.${key}\<close> and \<open>${path}[${index}]\<close> build them.\<close>

definition sub :: "path \<Rightarrow> jstring \<Rightarrow> path" where
  "sub p k = p @ [Member k]"

definition subi :: "path \<Rightarrow> nat \<Rightarrow> path" where
  "subi p i = p @ [Index i]"

end
