(* ===== verification/HailValue.thy ===== *)
theory HailValue
  imports Errors "HOL-Library.Code_Target_Nat"
begin

text \<open>
  \<^verbatim>\<open>packages/hail-codec-ts/src/types.ts\<close> and the value checks of
  \<^verbatim>\<open>packages/hail-codec-ts/src/cbor.ts\<close>. \<open>jsvalue\<close> is what the host language can hand to
  \<open>assertHailValue\<close>; \<open>hail_value\<close> is the type \<open>HailValue\<close> that the function asserts.
\<close>

section \<open>Host values\<close>

text \<open>
  A number is an integral double (kept as an integer), negative zero, or any other double
  (fractions, infinities, NaN). An array has slots; the flag of \<open>JArray\<close> says whether it has an
  own key that is neither \<open>length\<close> nor a canonical index. An object carries whether its
  prototype is \<open>Object.prototype\<close> or null, whether it has a symbol key, and its own string
  members in enumeration order. A slot or member is a data property with its enumerability, an
  accessor, or (arrays only) a hole. \<open>JTagged\<close> is an instance of the CBOR library's \<open>Tagged\<close>
  class and \<open>JOther\<close> any other primitive or function.
\<close>

datatype jnumber = Integral int | NegativeZero | NotIntegral

datatype jsvalue =
    JUndefined
  | JNull
  | JBoolean bool
  | JNumber jnumber
  | JText jstring
  | JUint8Array bytes
  | JArray bool "jsslot list"
  | JMap "(jsvalue \<times> jsvalue) list"
  | JObject bool bool "(jstring \<times> jsslot) list"
  | JTagged nat jsvalue
  | JOther
and jsslot = Hole | Accessor | Data bool jsvalue

definition HAIL_MAX_INTEGER :: int where
  "HAIL_MAX_INTEGER = 9007199254740991"

definition HAIL_MIN_INTEGER :: int where
  "HAIL_MIN_INTEGER = - HAIL_MAX_INTEGER"

datatype hail_value =
    HNull
  | HBool bool
  | HInt int
  | HText jstring
  | HBytes bytes
  | HArray "hail_value list"
  | HMap "(jstring \<times> hail_value) list"

text \<open>A \<open>HailValue\<close> as a host value, and the host value read as a \<open>HailValue\<close>.\<close>

fun of_hail :: "hail_value \<Rightarrow> jsvalue" where
  "of_hail HNull = JNull"
| "of_hail (HBool b) = JBoolean b"
| "of_hail (HInt i) = JNumber (Integral i)"
| "of_hail (HText s) = JText s"
| "of_hail (HBytes bs) = JUint8Array bs"
| "of_hail (HArray xs) = JArray False (map (\<lambda>x. Data True (of_hail x)) xs)"
| "of_hail (HMap kvs) = JObject True False (map (\<lambda>(k, v). (k, Data True (of_hail v))) kvs)"

fun to_hail :: "jsvalue \<Rightarrow> hail_value" and slot_hail :: "jsslot \<Rightarrow> hail_value" where
  "to_hail (JBoolean b) = HBool b"
| "to_hail (JNumber (Integral i)) = HInt i"
| "to_hail (JText s) = HText s"
| "to_hail (JUint8Array bs) = HBytes bs"
| "to_hail (JArray b xs) = HArray (map slot_hail xs)"
| "to_hail (JObject b c kvs) = HMap (map (\<lambda>(k, s). (k, slot_hail s)) kvs)"
| "to_hail _ = HNull"
| "slot_hail (Data b v) = to_hail v"
| "slot_hail _ = HNull"

lemma to_hail_of_hail [simp]: "to_hail (of_hail h) = h"
  by (induction h) (auto simp: o_def split_beta intro!: map_idI)

section \<open>Resource limits\<close>

record HailResourceLimits =
  maximumBytes :: nat
  maximumDepth :: nat
  maximumItems :: nat
  maximumArrayLength :: nat
  maximumMapEntries :: nat
  maximumTextBytes :: nat
  maximumByteStringLength :: nat

definition DEFAULT_HAIL_RESOURCE_LIMITS :: HailResourceLimits where
  "DEFAULT_HAIL_RESOURCE_LIMITS = \<lparr>
     maximumBytes = 1048576, maximumDepth = 32, maximumItems = 16384,
     maximumArrayLength = 4096, maximumMapEntries = 256,
     maximumTextBytes = 1048576, maximumByteStringLength = 1048576\<rparr>"

section \<open>Size of the encoding\<close>

definition argumentSize :: "nat \<Rightarrow> nat" where
  "argumentSize v =
     (if v < 24 then 1 else if v \<le> 0xff then 2 else if v \<le> 0xffff then 3
      else if v \<le> 0xffffffff then 5 else 9)"

fun encodedSize :: "hail_value \<Rightarrow> nat" where
  "encodedSize HNull = 1"
| "encodedSize (HBool b) = 1"
| "encodedSize (HInt i) = argumentSize (nat (if 0 \<le> i then i else -1 - i))"
| "encodedSize (HText s) = argumentSize (utf8_length s) + utf8_length s"
| "encodedSize (HBytes bs) = argumentSize (length bs) + length bs"
| "encodedSize (HArray xs) = argumentSize (length xs) + sum_list (map encodedSize xs)"
| "encodedSize (HMap kvs) = argumentSize (length kvs)
     + sum_list (map (\<lambda>(k, v). argumentSize (utf8_length k) + utf8_length k + encodedSize v) kvs)"

section \<open>The recursive check\<close>

text \<open>
  \<open>checkValue\<close> threads the counter \<open>count.value\<close> through the traversal: it takes the count so
  far and returns the new one, or throws.
\<close>

definition unsafe_number :: "jnumber \<Rightarrow> bool" where
  "unsafe_number n = (case n of
     Integral i \<Rightarrow> i < HAIL_MIN_INTEGER \<or> HAIL_MAX_INTEGER < i
   | NegativeZero \<Rightarrow> True
   | NotIntegral \<Rightarrow> True)"

function (sequential)
  checkValue :: "HailResourceLimits \<Rightarrow> bool \<Rightarrow> jsvalue \<Rightarrow> path \<Rightarrow> nat \<Rightarrow> nat \<Rightarrow> nat result" and
  checkSlots :: "HailResourceLimits \<Rightarrow> bool \<Rightarrow> jsslot list \<Rightarrow> nat \<Rightarrow> path \<Rightarrow> nat \<Rightarrow> nat \<Rightarrow> nat result" and
  checkEntries :: "HailResourceLimits \<Rightarrow> bool \<Rightarrow> (jsvalue \<times> jsvalue) list \<Rightarrow> path \<Rightarrow> nat \<Rightarrow> nat \<Rightarrow> nat result" and
  checkMembers :: "HailResourceLimits \<Rightarrow> bool \<Rightarrow> (jstring \<times> jsslot) list \<Rightarrow> path \<Rightarrow> nat \<Rightarrow> nat \<Rightarrow> nat result"
where
  "checkValue limits allowMaps value path depth count =
     (let count = count + 1 in
      if maximumItems limits < count then throw_at ResourceLimit path
      else if maximumDepth limits < depth then throw_at ResourceLimit path
      else (case value of
        JNull \<Rightarrow> Inr count
      | JBoolean _ \<Rightarrow> Inr count
      | JNumber n \<Rightarrow> if unsafe_number n then throw_at InvalidValue path else Inr count
      | JText s \<Rightarrow>
          if \<not> isWellFormed s then throw_at InvalidValue path
          else if maximumTextBytes limits < utf8_length s then throw_at ResourceLimit path
          else Inr count
      | JUint8Array bs \<Rightarrow>
          if maximumByteStringLength limits < length bs then throw_at ResourceLimit path
          else Inr count
      | JArray otherKey slots \<Rightarrow>
          if maximumArrayLength limits < length slots then throw_at ResourceLimit path
          else if otherKey then throw_at InvalidValue path
          else checkSlots limits allowMaps slots 0 path depth count
      | JMap entries \<Rightarrow>
          if \<not> allowMaps then throw_at InvalidValue path
          else if maximumMapEntries limits < length entries then throw_at ResourceLimit path
          else checkEntries limits allowMaps entries path depth count
      | JObject plainPrototype symbolKey members \<Rightarrow>
          if \<not> plainPrototype then throw_at InvalidValue path
          else if symbolKey then throw_at InvalidValue path
          else if maximumMapEntries limits < length members then throw_at ResourceLimit path
          else checkMembers limits allowMaps members path depth count
      | JTagged _ _ \<Rightarrow> throw_at InvalidValue path
      | JUndefined \<Rightarrow> throw_at InvalidValue path
      | JOther \<Rightarrow> throw_at InvalidValue path))"
| "checkSlots limits allowMaps [] index path depth count = Inr count"
| "checkSlots limits allowMaps (slot # slots) index path depth count =
     (case slot of
        Hole \<Rightarrow> throw_at InvalidValue (subi path index)
      | Accessor \<Rightarrow> throw_at InvalidValue (subi path index)
      | Data enumerable v \<Rightarrow>
          if \<not> enumerable then throw_at InvalidValue (subi path index)
          else (case checkValue limits allowMaps v (subi path index) (depth + 1) count of
                  Inl e \<Rightarrow> Inl e
                | Inr count \<Rightarrow> checkSlots limits allowMaps slots (Suc index) path depth count))"
| "checkEntries limits allowMaps [] path depth count = Inr count"
| "checkEntries limits allowMaps ((key, v) # entries) path depth count =
     (let count = count + 1 in
      if maximumItems limits < count then throw_at ResourceLimit path
      else (case key of
        JText k \<Rightarrow>
          if \<not> isWellFormed k \<or> maximumTextBytes limits < utf8_length k then throw_at ResourceLimit path
          else (case checkValue limits allowMaps v (sub path k) (depth + 1) count of
                  Inl e \<Rightarrow> Inl e
                | Inr count \<Rightarrow> checkEntries limits allowMaps entries path depth count)
      | _ \<Rightarrow> throw_at InvalidValue path))"
| "checkMembers limits allowMaps [] path depth count = Inr count"
| "checkMembers limits allowMaps ((k, slot) # members) path depth count =
     (let count = count + 1 in
      if maximumItems limits < count then throw_at ResourceLimit path
      else if \<not> isWellFormed k \<or> maximumTextBytes limits < utf8_length k
        then throw_at ResourceLimit (sub path k)
      else (case slot of
              Hole \<Rightarrow> throw_at InvalidValue (sub path k)
            | Accessor \<Rightarrow> throw_at InvalidValue (sub path k)
            | Data enumerable v \<Rightarrow>
                if \<not> enumerable then throw_at InvalidValue (sub path k)
                else (case checkValue limits allowMaps v (sub path k) (depth + 1) count of
                        Inl e \<Rightarrow> Inl e
                      | Inr count \<Rightarrow> checkMembers limits allowMaps members path depth count)))"
  by pat_completeness auto
termination
  by (relation "measure (\<lambda>x. case x of
      Inl (Inl (l, a, v, _)) \<Rightarrow> 2 * size v
    | Inl (Inr (l, a, slots, _)) \<Rightarrow> 2 * size_list size slots + 1
    | Inr (Inl (l, a, entries, _)) \<Rightarrow> 2 * size_list (size_prod size size) entries + 1
    | Inr (Inr (l, a, members, _)) \<Rightarrow> 2 * size_list (size_prod (\<lambda>_. 0) size) members + 1)")
    auto

definition assertHailValue :: "HailResourceLimits \<Rightarrow> jsvalue \<Rightarrow> unit result" where
  "assertHailValue limits value =
     first_error [
       and_then (checkValue limits False value [] 0 0) (\<lambda>_. Inr ()),
       fail_if (maximumBytes limits < encodedSize (to_hail value)) (HailCodecError ResourceLimit (Some []))]"

declare checkValue.simps [simp del]

lemmas checkValue_array = checkValue.simps [of _ _ "JArray b xs" for b xs, unfolded jsvalue.case Let_def]
lemmas checkValue_object = checkValue.simps [of _ _ "JObject b c kvs" for b c kvs, unfolded jsvalue.case Let_def]
lemmas checkValue_map = checkValue.simps [of _ _ "JMap kvs" for kvs, unfolded jsvalue.case Let_def]

section \<open>What the check establishes\<close>

text \<open>
  The number of values a \<open>HailValue\<close> counts for (a map entry counts its key), and the limits
  that are local to each node at its depth.
\<close>

fun items :: "hail_value \<Rightarrow> nat" where
  "items (HArray xs) = Suc (sum_list (map items xs))"
| "items (HMap kvs) = Suc (sum_list (map (\<lambda>(k, v). Suc (items v)) kvs))"
| "items _ = 1"

fun within :: "HailResourceLimits \<Rightarrow> nat \<Rightarrow> hail_value \<Rightarrow> bool" where
  "within l d HNull \<longleftrightarrow> d \<le> maximumDepth l"
| "within l d (HBool b) \<longleftrightarrow> d \<le> maximumDepth l"
| "within l d (HInt i) \<longleftrightarrow> d \<le> maximumDepth l \<and> HAIL_MIN_INTEGER \<le> i \<and> i \<le> HAIL_MAX_INTEGER"
| "within l d (HText s) \<longleftrightarrow> d \<le> maximumDepth l \<and> isWellFormed s \<and> utf8_length s \<le> maximumTextBytes l"
| "within l d (HBytes bs) \<longleftrightarrow> d \<le> maximumDepth l \<and> length bs \<le> maximumByteStringLength l"
| "within l d (HArray xs) \<longleftrightarrow> d \<le> maximumDepth l \<and> length xs \<le> maximumArrayLength l
     \<and> (\<forall>x \<in> set xs. within l (d + 1) x)"
| "within l d (HMap kvs) \<longleftrightarrow> d \<le> maximumDepth l \<and> length kvs \<le> maximumMapEntries l
     \<and> (\<forall>(k, v) \<in> set kvs. isWellFormed k \<and> utf8_length k \<le> maximumTextBytes l \<and> within l (d + 1) v)"

lemma items_pos [simp]: "0 < items h"
  by (cases h) auto

lemma unsafe_Integral [simp]:
  "unsafe_number (Integral i) \<longleftrightarrow> \<not> (HAIL_MIN_INTEGER \<le> i \<and> i \<le> HAIL_MAX_INTEGER)"
  by (auto simp: unsafe_number_def)

text \<open>On a plain value the traversal succeeds exactly within the limits and counts \<open>items\<close>.\<close>

lemma checkSlots_count:
  assumes "\<And>x c p d n. x \<in> set xs \<Longrightarrow> checkValue l a (f x) p d c = Inr n \<longleftrightarrow>
      within l d x \<and> n = c + items x \<and> n \<le> maximumItems l"
    and "c \<le> maximumItems l"
  shows "checkSlots l a (map (\<lambda>x. Data True (f x)) xs) i p d c = Inr n \<longleftrightarrow>
      (\<forall>x \<in> set xs. within l (d + 1) x) \<and> n = c + sum_list (map items xs) \<and> n \<le> maximumItems l"
  using assms
proof (induction xs arbitrary: i c)
  case (Cons x xs)
  have head: "checkValue l a (f x) (subi p i) (d + 1) c = Inr n \<longleftrightarrow>
      within l (d + 1) x \<and> n = c + items x \<and> n \<le> maximumItems l" for n
    using Cons.prems(1) by simp
  show ?case
  proof (cases "checkValue l a (f x) (subi p i) (d + 1) c")
    case (Inl e)
    with head [of "c + items x"] show ?thesis by auto
  next
    case (Inr c')
    with head [of c'] have c': "within l (d + 1) x" "c' = c + items x" "c' \<le> maximumItems l"
      by auto
    have "checkSlots l a (map (\<lambda>x. Data True (f x)) xs) (Suc i) p d c' = Inr n \<longleftrightarrow>
        (\<forall>x \<in> set xs. within l (d + 1) x) \<and> n = c' + sum_list (map items xs) \<and> n \<le> maximumItems l"
      by (rule Cons.IH) (use Cons.prems(1) c'(3) in auto)
    with Inr c' show ?thesis by (simp add: add.assoc)
  qed
qed auto

lemmas checkSlots_of_hail = checkSlots_count [where f = of_hail]

lemma checkMembers_of_hail:
  assumes "\<And>x c p d n. x \<in> snd ` set kvs \<Longrightarrow> checkValue l a (of_hail x) p d c = Inr n \<longleftrightarrow>
      within l d x \<and> n = c + items x \<and> n \<le> maximumItems l"
    and "c \<le> maximumItems l"
  shows "checkMembers l a (map (\<lambda>(k, x). (k, Data True (of_hail x))) kvs) p d c = Inr n \<longleftrightarrow>
      (\<forall>(k, x) \<in> set kvs. isWellFormed k \<and> utf8_length k \<le> maximumTextBytes l \<and> within l (d + 1) x)
      \<and> n = c + sum_list (map (\<lambda>(k, x). Suc (items x)) kvs) \<and> n \<le> maximumItems l"
  using assms
proof (induction kvs arbitrary: c)
  case (Cons kv kvs)
  obtain k x where kv: "kv = (k, x)" by fastforce
  have head: "checkValue l a (of_hail x) (sub p k) (d + 1) (c + 1) = Inr n \<longleftrightarrow>
      within l (d + 1) x \<and> n = c + 1 + items x \<and> n \<le> maximumItems l" for n
    using Cons.prems(1) [of x] kv by simp
  show ?case
  proof (cases "checkValue l a (of_hail x) (sub p k) (d + 1) (c + 1)")
    case (Inl e)
    with head [of "c + 1 + items x"] kv show ?thesis by auto
  next
    case (Inr c')
    with head [of c'] have c': "within l (d + 1) x" "c' = c + 1 + items x" "c' \<le> maximumItems l"
      by auto
    have "checkMembers l a (map (\<lambda>(k, x). (k, Data True (of_hail x))) kvs) p d c' = Inr n \<longleftrightarrow>
        (\<forall>(k, x) \<in> set kvs. isWellFormed k \<and> utf8_length k \<le> maximumTextBytes l \<and> within l (d + 1) x)
        \<and> n = c' + sum_list (map (\<lambda>(k, x). Suc (items x)) kvs) \<and> n \<le> maximumItems l"
      by (rule Cons.IH) (use Cons.prems(1) c'(3) in auto)
    with Inr c' kv show ?thesis by (auto simp: Let_def add.assoc)
  qed
qed auto

lemma checkValue_of_hail:
  "checkValue l a (of_hail h) p d c = Inr n \<longleftrightarrow>
     within l d h \<and> n = c + items h \<and> n \<le> maximumItems l"
proof (induction h arbitrary: p d c n)
  case (HArray xs)
  then show ?case
    by (auto simp: checkValue_array checkSlots_of_hail)
next
  case (HMap kvs)
  then have IH: "checkValue l a (of_hail x) p d c = Inr n \<longleftrightarrow>
      within l d x \<and> n = c + items x \<and> n \<le> maximumItems l" if "x \<in> snd ` set kvs" for x c p d n
    using that by fastforce
  show ?case
    using checkMembers_of_hail [OF IH] by (auto simp: checkValue_object)
qed (auto simp: checkValue.simps Let_def)

text \<open>Without native maps, only plain values pass.\<close>

lemma check_plain:
  "checkValue l a v p d c = Inr n \<Longrightarrow> \<not> a \<Longrightarrow> v = of_hail (to_hail v)"
  "checkSlots l a ss i p d c = Inr n \<Longrightarrow> \<not> a \<Longrightarrow> \<forall>s \<in> set ss. s = Data True (of_hail (slot_hail s))"
  "checkEntries l a es p d c = Inr n \<Longrightarrow> True"
  "checkMembers l a ms p d c = Inr n \<Longrightarrow> \<not> a \<Longrightarrow>
     \<forall>(k, s) \<in> set ms. s = Data True (of_hail (slot_hail s))"
proof (induction l a v p d c and l a ss i p d c and l a es p d c and l a ms p d c
    arbitrary: n and n and n and n
    rule: checkValue_checkSlots_checkEntries_checkMembers.induct)
  case (1 l a v p d c)
  show ?case
  proof (cases v)
    case (JArray b slots)
    with "1.prems" obtain n' where
      "\<not> maximumItems l < c + 1" "\<not> maximumDepth l < d" "\<not> maximumArrayLength l < length slots" "\<not> b"
      "checkSlots l a slots 0 p d (c + 1) = Inr n'"
      by (auto simp: checkValue_array split: if_splits)
    with "1.IH"(1) JArray "1.prems" have "\<forall>s \<in> set slots. s = Data True (of_hail (slot_hail s))"
      by blast
    with JArray \<open>\<not> b\<close> show ?thesis by (auto intro!: map_idI [symmetric])
  next
    case (JObject b e members)
    with "1.prems" obtain n' where
      "\<not> maximumItems l < c + 1" "\<not> maximumDepth l < d" "\<not> maximumMapEntries l < length members" "b" "\<not> e"
      "checkMembers l a members p d (c + 1) = Inr n'"
      by (auto simp: checkValue_object split: if_splits)
    with "1.IH"(3) JObject "1.prems" have "\<forall>(k, s) \<in> set members. s = Data True (of_hail (slot_hail s))"
      by blast
    with JObject \<open>b\<close> \<open>\<not> e\<close> show ?thesis by (auto simp: o_def intro!: map_idI [symmetric])
  next
    case (JNumber m)
    with "1.prems" show ?thesis
      by (cases m) (auto simp: checkValue.simps unsafe_number_def Let_def split: if_splits)
  qed (use "1.prems" in \<open>auto simp: checkValue.simps Let_def split: if_splits\<close>)
next
  case (3 l a slot slots i p d c)
  then show ?case by (auto split: jsslot.splits if_splits sum.splits)
next
  case (7 l a k slot members p d c)
  then show ?case by (auto simp: Let_def split: jsslot.splits if_splits sum.splits)
qed simp_all

lemma assertHailValue_all:
  "assertHailValue l v = Inr () \<longleftrightarrow>
     (\<exists>h. v = of_hail h \<and> within l 0 h \<and> items h \<le> maximumItems l \<and> encodedSize h \<le> maximumBytes l)"
proof -
  have "(\<exists>n. checkValue l False v [] 0 0 = Inr n) \<longleftrightarrow>
      (\<exists>h. v = of_hail h \<and> within l 0 h \<and> items h \<le> maximumItems l)" (is "?L \<longleftrightarrow> ?R")
  proof
    assume ?L
    then obtain n where n: "checkValue l False v [] 0 0 = Inr n" by blast
    then have "v = of_hail (to_hail v)" by (rule check_plain(1)) simp
    with n checkValue_of_hail [of l False "to_hail v" "[]" 0 0 n] show ?R by auto
  qed (auto simp: checkValue_of_hail)
  then show ?thesis by (auto simp: assertHailValue_def)
qed

text \<open>
  C4. \<open>assertHailValue\<close> is a sound and complete type assertion. It returns without throwing if
  and only if the host value is the image of a \<open>HailValue\<close> (no holes, accessors, symbols,
  foreign prototypes, native maps, unsafe numbers or unpaired surrogates) whose values number
  at most \<open>maximumItems\<close>, whose nodes all respect the limits at their depth, and whose encoding
  has at most \<open>maximumBytes\<close> bytes.
\<close>

theorem assertHailValue_iff:
  "assertHailValue l v = Inr () \<longleftrightarrow>
     (\<exists>h. v = of_hail h \<and> within l 0 h \<and> items h \<le> maximumItems l \<and> encodedSize h \<le> maximumBytes l)"
  by (rule assertHailValue_all)

end
