(* ===== verification/CborScan.thy ===== *)
theory CborScan
  imports HailValue
begin

text \<open>
  \<^verbatim>\<open>packages/hail-codec-ts/src/scan.ts\<close>: the allocation-free pass over encoded bytes that
  enforces the resource limits before the CBOR library sees them. The captured variables
  \<open>offset\<close> and \<open>items\<close> are threaded as a pair: the bytes from \<open>offset\<close> on, and the count.
  The recursion ends because every nested call raises the depth and the depth is checked
  against \<open>maximumDepth\<close>.
\<close>

section \<open>Definitions\<close>

type_synonym scan_state = "bytes \<times> nat"

definition MAX_SAFE_INTEGER :: nat where
  "MAX_SAFE_INTEGER = 9007199254740991"

definition argument_bytes :: "nat \<Rightarrow> nat" where
  "argument_bytes additional =
     (if additional = 24 then 1 else if additional = 25 then 2
      else if additional = 26 then 4 else if additional = 27 then 8 else 0)"

definition big_endian :: "bytes \<Rightarrow> nat" where
  "big_endian bs = foldl (\<lambda>n b. n * 256 + unat b) 0 bs"

definition readLength :: "nat \<Rightarrow> bytes \<Rightarrow> (nat \<times> bytes) result" where
  "readLength additional bs =
     (if additional < 24 then Inr (additional, bs)
      else let byteCount = argument_bytes additional in
        if byteCount = 0 then throw MalformedCbor
        else if length bs < byteCount then throw MalformedCbor
        else let v = big_endian (take byteCount bs) in
          if MAX_SAFE_INTEGER < v then throw ResourceLimit
          else Inr (v, drop byteCount bs))"

function (sequential)
  scan :: "HailResourceLimits \<Rightarrow> nat list \<Rightarrow> nat \<Rightarrow> scan_state \<Rightarrow> scan_state result" and
  scan_times :: "HailResourceLimits \<Rightarrow> nat list \<Rightarrow> nat \<Rightarrow> nat \<Rightarrow> scan_state \<Rightarrow> scan_state result"
where
  "scan limits allowedTags depth (bs, count) =
     (let count = count + 1 in
      if maximumItems limits < count then throw ResourceLimit
      else if maximumDepth limits < depth then throw ResourceLimit
      else (case bs of
        [] \<Rightarrow> throw MalformedCbor
      | initial # bs \<Rightarrow>
          let major = unat initial div 32; additional = unat initial mod 32 in
          if major = 0 \<or> major = 1 then
            and_then (readLength additional bs) (\<lambda>(_, bs). Inr (bs, count))
          else if major = 2 \<or> major = 3 then
            and_then (readLength additional bs) (\<lambda>(len, bs).
              if (if major = 2 then maximumByteStringLength limits else maximumTextBytes limits) < len
                then throw ResourceLimit
              else if length bs < len then throw MalformedCbor
              else Inr (drop len bs, count))
          else if major = 4 then
            and_then (readLength additional bs) (\<lambda>(len, bs).
              if maximumArrayLength limits < len then throw ResourceLimit
              else scan_times limits allowedTags (depth + 1) len (bs, count))
          else if major = 5 then
            and_then (readLength additional bs) (\<lambda>(len, bs).
              if maximumMapEntries limits < len then throw ResourceLimit
              else scan_times limits allowedTags (depth + 1) (2 * len) (bs, count))
          else if major = 6 then
            and_then (readLength additional bs) (\<lambda>(tag, bs).
              if tag \<notin> set allowedTags then throw MalformedCbor
              else scan limits allowedTags (depth + 1) (bs, count))
          else
            if additional < 24 then Inr (bs, count)
            else let byteCount = argument_bytes additional in
              if byteCount = 0 \<or> length bs < byteCount then throw MalformedCbor
              else Inr (drop byteCount bs, count)))"
| "scan_times limits allowedTags depth 0 st = Inr st"
| "scan_times limits allowedTags depth (Suc n) st =
     and_then (scan limits allowedTags depth st) (scan_times limits allowedTags depth n)"
  by pat_completeness auto
termination
  by (relation "inv_image (less_than <*lex*> less_than) (\<lambda>x. case x of
      Inl (l, t, d, _) \<Rightarrow> (2 * (Suc (maximumDepth l) - d), 0)
    | Inr (l, t, d, n, _) \<Rightarrow> (2 * (Suc (maximumDepth l) - d) + 1, n))")
    auto

definition assertCborResourceLimits ::
  "bytes \<Rightarrow> HailResourceLimits \<Rightarrow> nat list \<Rightarrow> unit result" where
  "assertCborResourceLimits bs limits allowedTags =
     (if maximumBytes limits < length bs then throw ResourceLimit
      else and_then (scan limits allowedTags 0 (bs, 0)) (\<lambda>(rest, _).
        if rest \<noteq> [] then throw MalformedCbor else Inr ()))"

declare scan.simps [simp del]

section \<open>The grammar the scanner recognises\<close>

text \<open>
  \<open>cbor_argument additional bs n\<close>: the bytes after the initial byte that carry the argument \<open>n\<close>.
  \<open>cbor_item l tags d bs n\<close>: \<open>bs\<close> is one definite-length CBOR item of \<open>n\<close> items in all whose
  parts respect the limits at depth \<open>d\<close>; \<open>cbor_items l tags d k bs n\<close>: \<open>bs\<close> is a sequence of \<open>k\<close>
  of them. The grammar says nothing of the order in which a scanner looks at the bytes.
\<close>

definition cbor_argument :: "nat \<Rightarrow> bytes \<Rightarrow> nat \<Rightarrow> bool" where
  "cbor_argument additional bs n \<longleftrightarrow>
     additional < 24 \<and> bs = [] \<and> n = additional \<or>
     24 \<le> additional \<and> additional \<le> 27 \<and> length bs = 2 ^ (additional - 24) \<and> n = big_endian bs
       \<and> n \<le> MAX_SAFE_INTEGER"

definition head_byte :: "nat \<Rightarrow> nat \<Rightarrow> byte" where
  "head_byte major additional = of_nat (32 * major + additional)"

inductive
  cbor_item :: "HailResourceLimits \<Rightarrow> nat list \<Rightarrow> nat \<Rightarrow> bytes \<Rightarrow> nat \<Rightarrow> bool" and
  cbor_items :: "HailResourceLimits \<Rightarrow> nat list \<Rightarrow> nat \<Rightarrow> nat \<Rightarrow> bytes \<Rightarrow> nat \<Rightarrow> bool"
  for l :: HailResourceLimits and tags :: "nat list"
where
  Integer: "major < 2 \<Longrightarrow> d \<le> maximumDepth l \<Longrightarrow> cbor_argument a arg n \<Longrightarrow>
     cbor_item l tags d (head_byte major a # arg) (Suc 0)"
| ByteString: "d \<le> maximumDepth l \<Longrightarrow> cbor_argument a arg (length payload) \<Longrightarrow>
     length payload \<le> maximumByteStringLength l \<Longrightarrow>
     cbor_item l tags d (head_byte 2 a # arg @ payload) (Suc 0)"
| TextString: "d \<le> maximumDepth l \<Longrightarrow> cbor_argument a arg (length payload) \<Longrightarrow>
     length payload \<le> maximumTextBytes l \<Longrightarrow>
     cbor_item l tags d (head_byte 3 a # arg @ payload) (Suc 0)"
| Array: "d \<le> maximumDepth l \<Longrightarrow> cbor_argument a arg k \<Longrightarrow> k \<le> maximumArrayLength l \<Longrightarrow>
     cbor_items l tags (d + 1) k elements n \<Longrightarrow>
     cbor_item l tags d (head_byte 4 a # arg @ elements) (Suc n)"
| Map: "d \<le> maximumDepth l \<Longrightarrow> cbor_argument a arg k \<Longrightarrow> k \<le> maximumMapEntries l \<Longrightarrow>
     cbor_items l tags (d + 1) (2 * k) elements n \<Longrightarrow>
     cbor_item l tags d (head_byte 5 a # arg @ elements) (Suc n)"
| Tag: "d \<le> maximumDepth l \<Longrightarrow> cbor_argument a arg tag \<Longrightarrow> tag \<in> set tags \<Longrightarrow>
     cbor_item l tags (d + 1) content n \<Longrightarrow>
     cbor_item l tags d (head_byte 6 a # arg @ content) (Suc n)"
| Simple: "d \<le> maximumDepth l \<Longrightarrow> a < 24 \<and> arg = [] \<or> 24 \<le> a \<and> a \<le> 27 \<and> length arg = 2 ^ (a - 24) \<Longrightarrow>
     cbor_item l tags d (head_byte 7 a # arg) (Suc 0)"
| None: "cbor_items l tags d 0 [] 0"
| More: "cbor_item l tags d bs m \<Longrightarrow> cbor_items l tags d k cs n \<Longrightarrow>
     cbor_items l tags d (Suc k) (bs @ cs) (m + n)"

section \<open>The scanner decides the grammar\<close>

lemma argument_bytes_pow: "24 \<le> a \<Longrightarrow> a \<le> 27 \<Longrightarrow> argument_bytes a = 2 ^ (a - 24)"
  by (auto simp: argument_bytes_def eval_nat_numeral le_Suc_eq)

lemma argument_bytes_0: "argument_bytes a = 0 \<longleftrightarrow> a < 24 \<or> 27 < a"
  by (auto simp: argument_bytes_def)

lemma readLength_iff:
  "readLength a bs = Inr (n, rest) \<longleftrightarrow> (\<exists>arg. bs = arg @ rest \<and> cbor_argument a arg n)"
proof (cases "a < 24 \<or> 27 < a")
  case True
  then show ?thesis
    by (auto simp: readLength_def cbor_argument_def argument_bytes_0 Let_def)
next
  case False
  then have a: "24 \<le> a" "a \<le> 27" by auto
  then have b: "argument_bytes a = 2 ^ (a - 24)" "argument_bytes a \<noteq> 0"
    by (simp_all add: argument_bytes_pow)
  show ?thesis
  proof
    assume "readLength a bs = Inr (n, rest)"
    with a b have "bs = take (2 ^ (a - 24)) bs @ rest \<and> cbor_argument a (take (2 ^ (a - 24)) bs) n"
      by (auto simp: readLength_def cbor_argument_def Let_def split: if_splits)
    then show "\<exists>arg. bs = arg @ rest \<and> cbor_argument a arg n" by blast
  next
    assume "\<exists>arg. bs = arg @ rest \<and> cbor_argument a arg n"
    with a b show "readLength a bs = Inr (n, rest)"
      by (auto simp: readLength_def cbor_argument_def Let_def)
  qed
qed

lemma unat_head_byte: "major < 8 \<Longrightarrow> a < 32 \<Longrightarrow> unat (head_byte major a) = 32 * major + a"
  unfolding head_byte_def by (rule unat_of_nat_byte) simp

lemma head_byte_split: "head_byte (unat b div 32) (unat b mod 32) = b"
proof -
  have "32 * (unat b div 32) + unat b mod 32 = unat b" by simp
  then show ?thesis unfolding head_byte_def by (simp only: of_nat_unat ucast_id)
qed

lemma head_byte_parts [simp]:
  "major < 8 \<Longrightarrow> a < 32 \<Longrightarrow> unat (head_byte major a) div 32 = major"
  "major < 8 \<Longrightarrow> a < 32 \<Longrightarrow> unat (head_byte major a) mod 32 = a"
  by (simp_all add: unat_head_byte)

lemma cbor_argument_less: "cbor_argument a arg n \<Longrightarrow> a < 32"
  by (auto simp: cbor_argument_def)


lemma scan_complete:
  "cbor_item l tags d bs n \<Longrightarrow> c + n \<le> maximumItems l \<Longrightarrow>
     scan l tags d (bs @ rest, c) = Inr (rest, c + n)"
  "cbor_items l tags d k bs n \<Longrightarrow> c + n \<le> maximumItems l \<Longrightarrow>
     scan_times l tags d k (bs @ rest, c) = Inr (rest, c + n)"
proof (induction d bs n and d k bs n arbitrary: c rest and c rest rule: cbor_item_cbor_items.inducts)
  case (Integer major d a arg n)
  then have "readLength a (arg @ rest) = Inr (n, rest)" by (auto simp: readLength_iff)
  with Integer show ?case by (auto simp: scan.simps cbor_argument_less less_2_cases_iff)
next
  case (ByteString d a arg payload)
  then have "readLength a (arg @ payload @ rest) = Inr (length payload, payload @ rest)"
    by (auto simp: readLength_iff)
  with ByteString show ?case by (simp add: scan.simps cbor_argument_less)
next
  case (TextString d a arg payload)
  then have "readLength a (arg @ payload @ rest) = Inr (length payload, payload @ rest)"
    by (auto simp: readLength_iff)
  with TextString show ?case by (simp add: scan.simps cbor_argument_less)
next
  case (Array d a arg k elements n)
  then have "readLength a (arg @ elements @ rest) = Inr (k, elements @ rest)"
    by (auto simp: readLength_iff)
  with Array show ?case by (simp add: scan.simps cbor_argument_less)
next
  case (Map d a arg k elements n)
  then have "readLength a (arg @ elements @ rest) = Inr (k, elements @ rest)"
    by (auto simp: readLength_iff)
  with Map show ?case by (simp add: scan.simps cbor_argument_less)
next
  case (Tag d a arg tag content n)
  then have "readLength a (arg @ content @ rest) = Inr (tag, content @ rest)"
    by (auto simp: readLength_iff)
  with Tag show ?case by (simp add: scan.simps cbor_argument_less)
next
  case (Simple d a arg)
  then have "a < 32" by auto
  with Simple show ?case
    by (auto simp: scan.simps argument_bytes_pow Let_def)
qed (simp_all add: add.assoc)

text \<open>Soundness: what a successful scan at one depth gives, lifted to sequences of items.\<close>

definition scan_sound_at :: "HailResourceLimits \<Rightarrow> nat list \<Rightarrow> nat \<Rightarrow> bool" where
  "scan_sound_at l tags d \<longleftrightarrow> (\<forall>bs c rest c'. scan l tags d (bs, c) = Inr (rest, c') \<longrightarrow>
     (\<exists>pre n. bs = pre @ rest \<and> cbor_item l tags d pre n \<and> c' = c + n \<and> c' \<le> maximumItems l))"

lemma scan_sound_atD:
  assumes "scan_sound_at l tags d" and "scan l tags d (bs, c) = Inr (rest, c')"
  obtains pre n where "bs = pre @ rest" "cbor_item l tags d pre n" "c' = c + n" "c' \<le> maximumItems l"
  using assms unfolding scan_sound_at_def by blast

lemma scan_times_sound:
  assumes "scan_sound_at l tags d" and "scan_times l tags d k (bs, c) = Inr (rest, c')"
    and "c \<le> maximumItems l"
  shows "\<exists>pre n. bs = pre @ rest \<and> cbor_items l tags d k pre n \<and> c' = c + n \<and> c' \<le> maximumItems l"
  using assms(2,3)
proof (induction k arbitrary: bs c)
  case 0
  then show ?case by (auto intro: cbor_item_cbor_items.None)
next
  case (Suc k)
  then obtain mid cm where m: "scan l tags d (bs, c) = Inr (mid, cm)"
      and k: "scan_times l tags d k (mid, cm) = Inr (rest, c')" by auto
  from scan_sound_atD [OF assms(1) m] obtain pre n where
    p: "bs = pre @ mid" "cbor_item l tags d pre n" "cm = c + n" "cm \<le> maximumItems l" .
  from Suc.IH [OF k p(4)] obtain pre' n' where
    q: "mid = pre' @ rest" "cbor_items l tags d k pre' n'" "c' = cm + n'" "c' \<le> maximumItems l" by blast
  have "cbor_items l tags d (Suc k) (pre @ pre') (n + n')" by (rule More [OF p(2) q(2)])
  with p q show ?case by (metis add.assoc append.assoc)
qed

lemma prefix_of_length: "k \<le> length bs \<Longrightarrow> \<exists>pre. bs = pre @ drop k bs \<and> length pre = k"
  by (intro exI [of _ "take k bs"]) simp

lemmas scan_unfold = scan.simps [THEN arg_cong [where f = "\<lambda>x. x = r" for r], THEN iffD1]

lemma scan_sound_step:
  assumes next_depth: "d \<le> maximumDepth l \<Longrightarrow> scan_sound_at l tags (d + 1)"
  shows "scan_sound_at l tags d"
  unfolding scan_sound_at_def
proof (intro allI impI)
  fix bs c rest c' assume run: "scan l tags d (bs, c) = Inr (rest, c')"
  then obtain b tl where bs: "bs = b # tl" and c: "c + 1 \<le> maximumItems l"
      and d: "d \<le> maximumDepth l"
    by (auto simp: scan.simps Let_def split: if_splits list.splits)
  define major a where "major = unat b div 32" and "a = unat b mod 32"
  have b: "b = head_byte major a" by (simp add: major_def a_def head_byte_split)
  have bounds: "major < 8" "a < 32" using unat_byte_less [of b] by (simp_all add: major_def a_def)
  note step = run [unfolded bs b, THEN scan_unfold] bounds c d
  let ?goal = "\<exists>pre n. bs = pre @ rest \<and> cbor_item l tags d pre n \<and> c' = c + n \<and> c' \<le> maximumItems l"
  have goalI: "cbor_item l tags d (head_byte major a # pre) n \<Longrightarrow> tl = pre @ rest \<Longrightarrow>
      c' = c + n \<Longrightarrow> c' \<le> maximumItems l \<Longrightarrow> ?goal" for pre n
    unfolding bs b by (intro exI [of _ "head_byte major a # pre"] exI [of _ n]) simp
  consider "major < 2" | "major = 2" | "major = 3" | "major = 4" | "major = 5" | "major = 6" | "major = 7"
    using bounds(1) by linarith
  then show ?goal
  proof cases
    case 1
    with step obtain arg n where "tl = arg @ rest" "cbor_argument a arg n" "c' = c + 1"
      by (auto simp: readLength_iff less_2_cases_iff)
    with 1 c d show ?thesis by (intro goalI [of arg "Suc 0"]) (auto intro: Integer)
  next
    case 2
    with step obtain arg k mid where tl: "tl = arg @ mid" "cbor_argument a arg k" "k \<le> maximumByteStringLength l"
        "k \<le> length mid" "rest = drop k mid" "c' = c + 1"
      by (auto simp: readLength_iff split: if_splits)
    from prefix_of_length [OF tl(4)] obtain payload where "mid = payload @ rest" "length payload = k"
      using tl(5) by blast
    with 2 c d tl(1-3,6) show ?thesis by (intro goalI [of "arg @ payload" "Suc 0"]) (auto intro: ByteString)
  next
    case 3
    with step obtain arg k mid where tl: "tl = arg @ mid" "cbor_argument a arg k" "k \<le> maximumTextBytes l"
        "k \<le> length mid" "rest = drop k mid" "c' = c + 1"
      by (auto simp: readLength_iff split: if_splits)
    from prefix_of_length [OF tl(4)] obtain payload where "mid = payload @ rest" "length payload = k"
      using tl(5) by blast
    with 3 c d tl(1-3,6) show ?thesis by (intro goalI [of "arg @ payload" "Suc 0"]) (auto intro: TextString)
  next
    case 4
    with step obtain arg k mid where tl: "tl = arg @ mid" "cbor_argument a arg k" "k \<le> maximumArrayLength l"
        and run': "scan_times l tags (d + 1) k (mid, c + 1) = Inr (rest, c')"
      by (auto simp: readLength_iff split: if_splits)
    from scan_times_sound [OF next_depth [OF d] run' c] obtain pre n where
      "mid = pre @ rest" "cbor_items l tags (d + 1) k pre n" "c' = c + 1 + n" "c' \<le> maximumItems l" by blast
    with 4 tl d show ?thesis by (intro goalI [of "arg @ pre" "Suc n"]) (auto intro: Array)
  next
    case 5
    with step obtain arg k mid where tl: "tl = arg @ mid" "cbor_argument a arg k" "k \<le> maximumMapEntries l"
        and run': "scan_times l tags (d + 1) (2 * k) (mid, c + 1) = Inr (rest, c')"
      by (auto simp: readLength_iff split: if_splits)
    from scan_times_sound [OF next_depth [OF d] run' c] obtain pre n where
      "mid = pre @ rest" "cbor_items l tags (d + 1) (2 * k) pre n" "c' = c + 1 + n" "c' \<le> maximumItems l"
      by blast
    with 5 tl d show ?thesis by (intro goalI [of "arg @ pre" "Suc n"]) (auto intro: Map)
  next
    case 6
    with step obtain arg k mid where tl: "tl = arg @ mid" "cbor_argument a arg k" "k \<in> set tags"
        and run': "scan l tags (d + 1) (mid, c + 1) = Inr (rest, c')"
      by (auto simp: readLength_iff split: if_splits)
    from scan_sound_atD [OF next_depth [OF d] run'] obtain pre n where
      "mid = pre @ rest" "cbor_item l tags (d + 1) pre n" "c' = c + 1 + n" "c' \<le> maximumItems l" .
    with 6 tl d show ?thesis by (intro goalI [of "arg @ pre" "Suc n"]) (auto intro: Tag)
  next
    case 7
    with step have "c' = c + 1" and "a < 24 \<and> rest = tl \<or>
        24 \<le> a \<and> a \<le> 27 \<and> 2 ^ (a - 24) \<le> length tl \<and> rest = drop (2 ^ (a - 24)) tl"
      by (auto simp: argument_bytes_0 argument_bytes_pow Let_def split: if_splits)
    then obtain arg where "tl = arg @ rest" and
        arg: "(a < 24 \<and> arg = [] \<or> 24 \<le> a \<and> a \<le> 27 \<and> length arg = 2 ^ (a - 24))"
      using prefix_of_length [of "2 ^ (a - 24)" tl] by auto
    with Simple [OF d arg, of tags] 7 c \<open>c' = c + 1\<close> show ?thesis
      by (intro goalI [of arg "Suc 0"]) auto
  qed
qed

lemma scan_sound: "scan_sound_at l tags d"
proof (induction "Suc (maximumDepth l) - d" arbitrary: d rule: less_induct)
  case less
  show ?case by (rule scan_sound_step, rule less) auto
qed

lemma scan_decides:
  "assertCborResourceLimits bs l tags = Inr () \<longleftrightarrow>
     length bs \<le> maximumBytes l \<and> (\<exists>n. cbor_item l tags 0 bs n \<and> n \<le> maximumItems l)"
proof
  assume "assertCborResourceLimits bs l tags = Inr ()"
  then obtain n where "length bs \<le> maximumBytes l" "scan l tags 0 (bs, 0) = Inr ([], n)"
    by (auto simp: assertCborResourceLimits_def split: if_splits)
  with scan_sound_atD [OF scan_sound this(2)]
  show "length bs \<le> maximumBytes l \<and> (\<exists>n. cbor_item l tags 0 bs n \<and> n \<le> maximumItems l)"
    by auto
next
  assume "length bs \<le> maximumBytes l \<and> (\<exists>n. cbor_item l tags 0 bs n \<and> n \<le> maximumItems l)"
  then obtain n where "length bs \<le> maximumBytes l" "cbor_item l tags 0 bs n" "n \<le> maximumItems l" by blast
  with scan_complete(1) [of l tags 0 bs n 0 "[]"]
  show "assertCborResourceLimits bs l tags = Inr ()"
    by (simp add: assertCborResourceLimits_def)
qed

text \<open>
  C3. The scanner is a decision procedure for the grammar: it accepts a byte string if and only
  if the string has at most \<open>maximumBytes\<close> bytes and is exactly one definite-length CBOR item,
  with nothing after it, that has at most \<open>maximumItems\<close> items and respects the depth, length and
  tag limits everywhere. It terminates on every input.
\<close>

theorem assertCborResourceLimits_iff:
  "assertCborResourceLimits bs l tags = Inr () \<longleftrightarrow>
     length bs \<le> maximumBytes l \<and> (\<exists>n. cbor_item l tags 0 bs n \<and> n \<le> maximumItems l)"
  by (rule scan_decides)

end
