(* ===== verification/Rfc8949.thy ===== *)
theory Rfc8949
  imports CborScan
begin

text \<open>
  The data model and the deterministic encoding of RFC 8949 that the source obtains from the
  CBOR library: what \<open>encode\<close> with \<open>rfc8949EncodeOptions\<close> is documented to write, and a
  reference decoder. Nothing here is code of the repository: the theory states what the
  codec's parameter promises and shows that the promise can be kept.
\<close>

section \<open>Data items\<close>

datatype cbor =
    CInt int
  | CBytes bytes
  | CText jstring
  | CArray "cbor list"
  | CMap "(cbor \<times> cbor) list"
  | CTag nat cbor
  | CBool bool
  | CNull

fun of_cbor :: "cbor \<Rightarrow> jsvalue" where
  "of_cbor (CInt i) = JNumber (Integral i)"
| "of_cbor (CBytes bs) = JUint8Array bs"
| "of_cbor (CText s) = JText s"
| "of_cbor (CArray xs) = JArray False (map (\<lambda>x. Data True (of_cbor x)) xs)"
| "of_cbor (CMap kvs) = JMap (map (\<lambda>(k, v). (of_cbor k, of_cbor v)) kvs)"
| "of_cbor (CTag t x) = JTagged t (of_cbor x)"
| "of_cbor (CBool b) = JBoolean b"
| "of_cbor CNull = JNull"

fun to_cbor :: "jsvalue \<Rightarrow> cbor" and slot_cbor :: "jsslot \<Rightarrow> cbor" where
  "to_cbor (JNumber (Integral i)) = CInt i"
| "to_cbor (JUint8Array bs) = CBytes bs"
| "to_cbor (JText s) = CText s"
| "to_cbor (JArray b xs) = CArray (map slot_cbor xs)"
| "to_cbor (JMap kvs) = CMap (map (\<lambda>(k, v). (to_cbor k, to_cbor v)) kvs)"
| "to_cbor (JObject b c kvs) = CMap (map (\<lambda>(k, s). (CText k, slot_cbor s)) kvs)"
| "to_cbor (JTagged t x) = CTag t (to_cbor x)"
| "to_cbor (JBoolean b) = CBool b"
| "to_cbor _ = CNull"
| "slot_cbor (Data b v) = to_cbor v"
| "slot_cbor _ = CNull"

section \<open>Deterministic encoding\<close>

fun be_bytes :: "nat \<Rightarrow> nat \<Rightarrow> bytes" where
  "be_bytes 0 n = []"
| "be_bytes (Suc k) n = be_bytes k (n div 256) @ [of_nat (n mod 256)]"

definition head :: "nat \<Rightarrow> nat \<Rightarrow> bytes" where
  "head major n =
     (if n < 24 then [head_byte major n]
      else if n \<le> 0xff then head_byte major 24 # be_bytes 1 n
      else if n \<le> 0xffff then head_byte major 25 # be_bytes 2 n
      else if n \<le> 0xffffffff then head_byte major 26 # be_bytes 4 n
      else head_byte major 27 # be_bytes 8 n)"

fun enc :: "cbor \<Rightarrow> bytes" where
  "enc (CInt i) = (if 0 \<le> i then head 0 (nat i) else head 1 (nat (-1 - i)))"
| "enc (CBytes bs) = head 2 (length bs) @ bs"
| "enc (CText s) = head 3 (utf8_length s) @ utf8_encode s"
| "enc (CArray xs) = head 4 (length xs) @ concat (map enc xs)"
| "enc (CMap kvs) = head 5 (length kvs) @ concat (map (\<lambda>(k, v). enc k @ enc v) kvs)"
| "enc (CTag t x) = head 6 t @ enc x"
| "enc (CBool b) = [if b then 0xf5 else 0xf4]"
| "enc CNull = [0xf6]"

text \<open>Map keys in bytewise lexicographic order of their encodings (section 4.2.1).\<close>

definition sort_entries :: "(cbor \<times> 'a) list \<Rightarrow> (cbor \<times> 'a) list" where
  "sort_entries = sort_key (\<lambda>kv. enc (fst kv))"

fun order_maps :: "cbor \<Rightarrow> cbor" where
  "order_maps (CArray xs) = CArray (map order_maps xs)"
| "order_maps (CMap kvs) = CMap (sort_entries (map (\<lambda>(k, v). (order_maps k, order_maps v)) kvs))"
| "order_maps (CTag t x) = CTag t (order_maps x)"
| "order_maps c = c"

definition rfc8949 :: "jsvalue \<Rightarrow> bytes" where
  "rfc8949 v = enc (order_maps (to_cbor v))"

section \<open>Items the profile of the codec admits\<close>

text \<open>
  \<open>fits l tags d c\<close>: every part of \<open>c\<close> is representable and respects the limits when \<open>c\<close> stands
  at depth \<open>d\<close>; \<open>item_count\<close> is the number of items the scanner sees; \<open>ordered\<close> says that map keys are
  strictly ascending in the encoding's order.
\<close>

fun fits :: "HailResourceLimits \<Rightarrow> nat list \<Rightarrow> nat \<Rightarrow> cbor \<Rightarrow> bool" where
  "fits l tags d (CInt i) \<longleftrightarrow> d \<le> maximumDepth l \<and> HAIL_MIN_INTEGER \<le> i \<and> i \<le> HAIL_MAX_INTEGER"
| "fits l tags d (CBytes bs) \<longleftrightarrow> d \<le> maximumDepth l \<and> length bs \<le> maximumByteStringLength l
     \<and> length bs \<le> MAX_SAFE_INTEGER"
| "fits l tags d (CText s) \<longleftrightarrow> d \<le> maximumDepth l \<and> isWellFormed s \<and> utf8_length s \<le> maximumTextBytes l
     \<and> utf8_length s \<le> MAX_SAFE_INTEGER"
| "fits l tags d (CArray xs) \<longleftrightarrow> d \<le> maximumDepth l \<and> length xs \<le> maximumArrayLength l
     \<and> length xs \<le> MAX_SAFE_INTEGER \<and> (\<forall>x \<in> set xs. fits l tags (d + 1) x)"
| "fits l tags d (CMap kvs) \<longleftrightarrow> d \<le> maximumDepth l \<and> length kvs \<le> maximumMapEntries l
     \<and> length kvs \<le> MAX_SAFE_INTEGER
     \<and> (\<forall>(k, v) \<in> set kvs. fits l tags (d + 1) k \<and> fits l tags (d + 1) v)"
| "fits l tags d (CTag t x) \<longleftrightarrow> d \<le> maximumDepth l \<and> t \<in> set tags \<and> t \<le> MAX_SAFE_INTEGER
     \<and> fits l tags (d + 1) x"
| "fits l tags d (CBool b) \<longleftrightarrow> d \<le> maximumDepth l"
| "fits l tags d CNull \<longleftrightarrow> d \<le> maximumDepth l"

fun item_count :: "cbor \<Rightarrow> nat" where
  "item_count (CArray xs) = Suc (sum_list (map item_count xs))"
| "item_count (CMap kvs) = Suc (sum_list (map (\<lambda>(k, v). item_count k + item_count v) kvs))"
| "item_count (CTag t x) = Suc (item_count x)"
| "item_count _ = 1"

fun ordered :: "cbor \<Rightarrow> bool" where
  "ordered (CArray xs) \<longleftrightarrow> (\<forall>x \<in> set xs. ordered x)"
| "ordered (CMap kvs) \<longleftrightarrow> sorted_wrt (<) (map (\<lambda>kv. enc (fst kv)) kvs)
     \<and> (\<forall>(k, v) \<in> set kvs. ordered k \<and> ordered v)"
| "ordered (CTag t x) \<longleftrightarrow> ordered x"
| "ordered _ \<longleftrightarrow> True"

section \<open>Reference decoder\<close>

fun pairs :: "'a list \<Rightarrow> ('a \<times> 'a) list" where
  "pairs (x # y # zs) = (x, y) # pairs zs"
| "pairs _ = []"

text \<open>The first argument bounds the nesting: the number of bytes is always enough.\<close>

definition dec_argument :: "nat \<Rightarrow> bytes \<Rightarrow> (nat \<times> bytes) option" where
  "dec_argument a bs = (case readLength a bs of Inl e \<Rightarrow> None | Inr x \<Rightarrow> Some x)"

definition dec_string :: "nat \<Rightarrow> bytes \<Rightarrow> (bytes \<times> bytes) option" where
  "dec_string n bs = (if n \<le> length bs then Some (take n bs, drop n bs) else None)"

function (sequential)
  dec :: "nat list \<Rightarrow> nat \<Rightarrow> bytes \<Rightarrow> (cbor \<times> bytes) option" and
  dec_times :: "nat list \<Rightarrow> nat \<Rightarrow> nat \<Rightarrow> bytes \<Rightarrow> (cbor list \<times> bytes) option"
where
  "dec tags 0 bs = None"
| "dec tags (Suc f) [] = None"
| "dec tags (Suc f) (b # bs) =
     (let major = unat b div 32 in
      if major = 7 then
        (if b = 0xf4 then Some (CBool False, bs) else if b = 0xf5 then Some (CBool True, bs)
         else if b = 0xf6 then Some (CNull, bs) else None)
      else (case dec_argument (unat b mod 32) bs of
        None \<Rightarrow> None
      | Some (n, bs) \<Rightarrow>
          if major = 0 then Some (CInt (int n), bs)
          else if major = 1 then Some (CInt (-1 - int n), bs)
          else if major = 2 then map_option (\<lambda>(s, r). (CBytes s, r)) (dec_string n bs)
          else if major = 3 then
            (case dec_string n bs of
               None \<Rightarrow> None
             | Some (s, r) \<Rightarrow> map_option (\<lambda>t. (CText t, r)) (utf8_decode s))
          else if major = 4 then map_option (\<lambda>(xs, r). (CArray xs, r)) (dec_times tags f n bs)
          else if major = 5 then
            (case dec_times tags f (2 * n) bs of
               None \<Rightarrow> None
             | Some (xs, r) \<Rightarrow> if distinct (map fst (pairs xs)) then Some (CMap (pairs xs), r) else None)
          else if n \<in> set tags then map_option (\<lambda>(x, r). (CTag n x, r)) (dec tags f bs)
          else None))"
| "dec_times tags f 0 bs = Some ([], bs)"
| "dec_times tags f (Suc n) bs =
     (case dec tags f bs of
        None \<Rightarrow> None
      | Some (x, bs) \<Rightarrow> map_option (\<lambda>(xs, r). (x # xs, r)) (dec_times tags f n bs))"
  by pat_completeness auto
termination
  by (relation "inv_image (less_than <*lex*> less_than <*lex*> less_than) (\<lambda>x. case x of
      Inl (t, f, _) \<Rightarrow> (f, 0, 0) | Inr (t, f, n, _) \<Rightarrow> (f, 1, n))") auto

definition rfc8949_decode :: "nat list \<Rightarrow> bytes \<Rightarrow> jsvalue option" where
  "rfc8949_decode tags bs = (case dec tags (length bs) bs of
     Some (c, []) \<Rightarrow> Some (of_cbor c) | _ \<Rightarrow> None)"

lemma dec_code [code]:
  "dec tags f bs = (if f = 0 then None else (case bs of
     [] \<Rightarrow> None
   | b # bs' \<Rightarrow> (let f = f - 1; bs = bs'; major = unat b div 32 in
      if major = 7 then
        (if b = 0xf4 then Some (CBool False, bs) else if b = 0xf5 then Some (CBool True, bs)
         else if b = 0xf6 then Some (CNull, bs) else None)
      else (case dec_argument (unat b mod 32) bs of
        None \<Rightarrow> None
      | Some (n, bs) \<Rightarrow>
          if major = 0 then Some (CInt (int n), bs)
          else if major = 1 then Some (CInt (-1 - int n), bs)
          else if major = 2 then map_option (\<lambda>(s, r). (CBytes s, r)) (dec_string n bs)
          else if major = 3 then
            (case dec_string n bs of
               None \<Rightarrow> None
             | Some (s, r) \<Rightarrow> map_option (\<lambda>t. (CText t, r)) (utf8_decode s))
          else if major = 4 then map_option (\<lambda>(xs, r). (CArray xs, r)) (dec_times tags f n bs)
          else if major = 5 then
            (case dec_times tags f (2 * n) bs of
               None \<Rightarrow> None
             | Some (xs, r) \<Rightarrow> if distinct (map fst (pairs xs)) then Some (CMap (pairs xs), r) else None)
          else if n \<in> set tags then map_option (\<lambda>(x, r). (CTag n x, r)) (dec tags f bs)
          else None))))"
  by (cases f; cases bs) (simp_all add: Let_def)

declare dec.simps(3) [simp del]

section \<open>Heads\<close>

lemma length_be_bytes [simp]: "length (be_bytes k n) = k"
  by (induction k arbitrary: n) auto

lemma big_endian_snoc: "big_endian (bs @ [b]) = big_endian bs * 256 + unat b"
  by (simp add: big_endian_def)

lemma big_endian_be_bytes: "n < 256 ^ k \<Longrightarrow> big_endian (be_bytes k n) = n"
proof (induction k arbitrary: n)
  case 0
  then show ?case by (simp add: big_endian_def)
next
  case (Suc k)
  then have "n div 256 < 256 ^ k" by (simp add: less_mult_imp_div_less mult.commute)
  with Suc.IH have "big_endian (be_bytes k (n div 256)) = n div 256" by blast
  then show ?case
    by (simp add: big_endian_snoc unat_of_nat_byte del: of_nat_mod)
qed

lemma length_head: "length (head major n) = argumentSize n"
  by (simp add: head_def argumentSize_def)

lemma head_shape:
  assumes "n \<le> MAX_SAFE_INTEGER"
  obtains a arg where "head major n = head_byte major a # arg" "cbor_argument a arg n"
proof -
  have bound: "n < 256 ^ 8" using assms by (simp add: MAX_SAFE_INTEGER_def)
  consider "n < 24" | "24 \<le> n" "n \<le> 0xff" | "0xff < n" "n \<le> 0xffff"
    | "0xffff < n" "n \<le> 0xffffffff" | "0xffffffff < n" by linarith
  then show thesis
  proof cases
    case 1
    then show ?thesis by (intro that [of n "[]"]) (simp_all add: head_def cbor_argument_def)
  next
    case 2
    then show ?thesis using assms
      by (intro that [of 24 "be_bytes 1 n"])
        (simp_all add: head_def cbor_argument_def big_endian_be_bytes del: be_bytes.simps)
  next
    case 3
    then show ?thesis using assms
      by (intro that [of 25 "be_bytes 2 n"]) (simp_all add: head_def cbor_argument_def big_endian_be_bytes)
  next
    case 4
    then show ?thesis using assms
      by (intro that [of 26 "be_bytes 4 n"]) (simp_all add: head_def cbor_argument_def big_endian_be_bytes)
  next
    case 5
    then show ?thesis using assms bound
      by (intro that [of 27 "be_bytes 8 n"]) (simp_all add: head_def cbor_argument_def big_endian_be_bytes)
  qed
qed

section \<open>The scanner accepts deterministic encodings\<close>

lemma cbor_items_concat:
  assumes "\<And>x. x \<in> set xs \<Longrightarrow> cbor_item l tags d (f x) (g x)"
  shows "cbor_items l tags d (length xs) (concat (map f xs)) (sum_list (map g xs))"
  using assms by (induction xs) (auto intro: cbor_item_cbor_items.intros)

lemma cbor_items_pairs:
  assumes "\<And>k v. (k, v) \<in> set kvs \<Longrightarrow> cbor_item l tags d (f k) (g k) \<and> cbor_item l tags d (f v) (g v)"
  shows "cbor_items l tags d (2 * length kvs) (concat (map (\<lambda>(k, v). f k @ f v) kvs))
    (sum_list (map (\<lambda>(k, v). g k + g v) kvs))"
  using assms
proof (induction kvs)
  case (Cons kv kvs)
  obtain k v where kv: "kv = (k, v)" by fastforce
  with Cons have "cbor_items l tags d (Suc (Suc (2 * length kvs)))
      (f k @ f v @ concat (map (\<lambda>(k, v). f k @ f v) kvs))
      (g k + (g v + sum_list (map (\<lambda>(k, v). g k + g v) kvs)))"
    by (intro More) auto
  with kv show ?case by (simp add: add.assoc)
qed (auto intro: cbor_item_cbor_items.intros)

lemma head_item_cong: "head major n = head_byte major a # arg \<Longrightarrow>
    cbor_item l tags d (head_byte major a # arg @ r) m \<Longrightarrow> cbor_item l tags d (head major n @ r) m"
  by simp

lemma simple_bytes: "head_byte 7 20 = 0xf4" "head_byte 7 21 = 0xf5" "head_byte 7 22 = 0xf6"
  by (simp_all add: head_byte_def)

lemma fits_cbor_item: "fits l tags d c \<Longrightarrow> cbor_item l tags d (enc c) (item_count c)"
proof (induction c arbitrary: d)
  case (CInt i)
  define major n where "major = (if 0 \<le> i then 0 else 1 :: nat)" and "n = nat (if 0 \<le> i then i else -1 - i)"
  have "n \<le> MAX_SAFE_INTEGER"
    using CInt by (auto simp: n_def MAX_SAFE_INTEGER_def HAIL_MIN_INTEGER_def HAIL_MAX_INTEGER_def)
  then obtain a arg where h: "head major n = head_byte major a # arg" "cbor_argument a arg n"
    by (rule head_shape)
  have "enc (CInt i) = head major n" by (simp add: major_def n_def)
  moreover have "cbor_item l tags d (head_byte major a # arg) (Suc 0)"
    using CInt h by (intro Integer) (auto simp: major_def)
  ultimately show ?case using h by simp
next
  case (CBytes bs)
  obtain a arg where h: "head 2 (length bs) = head_byte 2 a # arg" "cbor_argument a arg (length bs)"
    using CBytes by (auto intro: head_shape)
  with CBytes show ?case by (auto intro!: ByteString)
next
  case (CText s)
  obtain a arg where h: "head 3 (utf8_length s) = head_byte 3 a # arg" "cbor_argument a arg (utf8_length s)"
    using CText by (auto intro: head_shape)
  with CText show ?case by (auto intro!: TextString simp: utf8_length_def)
next
  case (CArray xs)
  obtain a arg where h: "head 4 (length xs) = head_byte 4 a # arg" "cbor_argument a arg (length xs)"
    using CArray.prems by (auto intro: head_shape)
  have "cbor_items l tags (d + 1) (length xs) (concat (map enc xs)) (sum_list (map item_count xs))"
    using CArray by (intro cbor_items_concat) auto
  with h CArray.prems show ?case by (auto intro!: Array)
next
  case (CMap kvs)
  obtain a arg where h: "head 5 (length kvs) = head_byte 5 a # arg" "cbor_argument a arg (length kvs)"
    using CMap.prems by (auto intro: head_shape)
  have "cbor_items l tags (d + 1) (2 * length kvs) (concat (map (\<lambda>(k, v). enc k @ enc v) kvs))
      (sum_list (map (\<lambda>(k, v). item_count k + item_count v) kvs))"
    using CMap by (intro cbor_items_pairs) fastforce
  with h CMap.prems show ?case by (auto intro!: Map)
next
  case (CTag t x)
  obtain a arg where h: "head 6 t = head_byte 6 a # arg" "cbor_argument a arg t"
    using CTag.prems by (auto intro: head_shape)
  with CTag show ?case by (auto intro!: Tag)
next
  case (CBool b)
  then have "cbor_item l tags d [head_byte 7 (if b then 21 else 20)] (Suc 0)" by (intro Simple) auto
  then show ?case by (cases b) (simp_all add: simple_bytes)
next
  case CNull
  then have "cbor_item l tags d [head_byte 7 22] (Suc 0)" by (intro Simple) auto
  then show ?case by (simp add: simple_bytes)
qed

section \<open>The reference decoder inverts the encoding\<close>

fun nesting :: "cbor \<Rightarrow> nat" where
  "nesting (CArray xs) = Suc (sum_list (map nesting xs))"
| "nesting (CMap kvs) = Suc (sum_list (map (\<lambda>(k, v). nesting k + nesting v) kvs))"
| "nesting (CTag t x) = Suc (nesting x)"
| "nesting _ = 1"

lemma Suc_le_head: "n \<le> k \<Longrightarrow> Suc n \<le> length (head major m) + k"
  by (auto simp: head_def)

lemma nesting_le_length: "nesting c \<le> length (enc c)"
proof (induction c)
  case (CArray xs)
  then have "sum_list (map nesting xs) \<le> sum_list (map (length \<circ> enc) xs)"
    by (intro sum_list_mono) auto
  then show ?case by (simp add: length_concat o_def Suc_le_head)
next
  case (CMap kvs)
  then have "sum_list (map (\<lambda>(k, v). nesting k + nesting v) kvs)
      \<le> sum_list (map (\<lambda>(k, v). length (enc k) + length (enc v)) kvs)"
    by (intro sum_list_mono) (fastforce intro: add_mono)
  then show ?case by (simp add: length_concat o_def case_prod_unfold Suc_le_head)
next
  case (CInt i)
  show ?case using Suc_le_head [of 0 0 0 "nat i"] Suc_le_head [of 0 0 1 "nat (-1 - i)"] by simp
qed (simp_all add: Suc_le_head)

lemma dec_head:
  assumes "n \<le> MAX_SAFE_INTEGER" and "major < 7"
  shows "dec tags (Suc f) (head major n @ bs) =
     (if major = 0 then Some (CInt (int n), bs)
      else if major = 1 then Some (CInt (-1 - int n), bs)
      else if major = 2 then map_option (\<lambda>(s, r). (CBytes s, r)) (dec_string n bs)
      else if major = 3 then
        (case dec_string n bs of
           None \<Rightarrow> None
         | Some (s, r) \<Rightarrow> map_option (\<lambda>t. (CText t, r)) (utf8_decode s))
      else if major = 4 then map_option (\<lambda>(xs, r). (CArray xs, r)) (dec_times tags f n bs)
      else if major = 5 then
        (case dec_times tags f (2 * n) bs of
           None \<Rightarrow> None
         | Some (xs, r) \<Rightarrow> if distinct (map fst (pairs xs)) then Some (CMap (pairs xs), r) else None)
      else if n \<in> set tags then map_option (\<lambda>(x, r). (CTag n x, r)) (dec tags f bs)
      else None)"
proof -
  obtain a arg where h: "head major n = head_byte major a # arg" "cbor_argument a arg n"
    using assms(1) by (rule head_shape)
  have "a < 32" using h(2) by (rule cbor_argument_less)
  moreover have "readLength a (arg @ bs) = Inr (n, bs)" using h(2) by (auto simp: readLength_iff)
  ultimately show ?thesis using assms(2)
    by (simp add: h(1) dec.simps(3) dec_argument_def)
qed

lemma dec_string_append [simp]: "dec_string (length s) (s @ r) = Some (s, r)"
  by (simp add: dec_string_def)

lemma dec_times_concat:
  assumes "\<And>x r. x \<in> set xs \<Longrightarrow> dec tags f (enc x @ r) = Some (x, r)"
  shows "dec_times tags f (length xs) (concat (map enc xs) @ r) = Some (xs, r)"
  using assms by (induction xs) auto

fun unpairs :: "('a \<times> 'a) list \<Rightarrow> 'a list" where
  "unpairs [] = []"
| "unpairs ((x, y) # zs) = x # y # unpairs zs"

lemma pairs_unpairs [simp]: "pairs (unpairs kvs) = kvs"
  by (induction kvs rule: unpairs.induct) auto

lemma length_unpairs [simp]: "length (unpairs kvs) = 2 * length kvs"
  by (induction kvs rule: unpairs.induct) auto

lemma set_unpairs: "x \<in> set (unpairs kvs) \<Longrightarrow> \<exists>k v. (k, v) \<in> set kvs \<and> (x = k \<or> x = v)"
  by (induction kvs rule: unpairs.induct) auto

lemma concat_unpairs: "concat (map (\<lambda>(k, v). f k @ f v) kvs) = concat (map f (unpairs kvs))"
  by (induction kvs rule: unpairs.induct) auto

lemma ordered_distinct: "sorted_wrt (<) (map (\<lambda>kv. enc (fst kv)) kvs) \<Longrightarrow> distinct (map fst kvs)"
  using distinct_map [of enc "map fst kvs"] by (simp add: strict_sorted_iff o_def)

lemma sum_list_member_le: "x \<in> set xs \<Longrightarrow> f x \<le> (sum_list (map f xs) :: nat)"
  by (rule member_le_sum_list) auto

lemma nesting_unpairs:
  "x \<in> set (unpairs kvs) \<Longrightarrow> nesting x \<le> sum_list (map (\<lambda>(k, v). nesting k + nesting v) kvs)"
proof -
  assume "x \<in> set (unpairs kvs)"
  then obtain k v where kv: "(k, v) \<in> set kvs" "x = k \<or> x = v" using set_unpairs by fast
  have "(\<lambda>(k, v). nesting k + nesting v) (k, v) \<le> sum_list (map (\<lambda>(k, v). nesting k + nesting v) kvs)"
    using kv(1) by (rule sum_list_member_le)
  with kv(2) show ?thesis by auto
qed

lemma dec_enc:
  "fits l tags d c \<Longrightarrow> ordered c \<Longrightarrow> nesting c \<le> f \<Longrightarrow> dec tags f (enc c @ r) = Some (c, r)"
proof (induction c arbitrary: d f r)
  case (CInt i)
  then obtain f' where "f = Suc f'" by (cases f) auto
  with CInt show ?case
    by (auto simp: dec_head MAX_SAFE_INTEGER_def HAIL_MIN_INTEGER_def HAIL_MAX_INTEGER_def)
next
  case (CBytes bs)
  then obtain f' where "f = Suc f'" by (cases f) auto
  with CBytes show ?case by (simp add: dec_head)
next
  case (CText s)
  then obtain f' where "f = Suc f'" by (cases f) auto
  with CText show ?case by (simp add: dec_head utf8_length_def utf8_decode_encode)
next
  case (CArray xs)
  then obtain f' where f: "f = Suc f'" by (cases f) auto
  have "dec_times tags f' (length xs) (concat (map enc xs) @ r) = Some (xs, r)"
  proof (rule dec_times_concat)
    fix x r assume x: "x \<in> set xs"
    then have "nesting x \<le> f'"
      using CArray.prems(3) f sum_list_member_le [OF x, of nesting] by simp
    with x CArray show "dec tags f' (enc x @ r) = Some (x, r)" by auto
  qed
  with CArray.prems f show ?case by (simp add: dec_head)
next
  case (CMap kvs)
  then obtain f' where f: "f = Suc f'" by (cases f) auto
  have "dec_times tags f' (length (unpairs kvs)) (concat (map enc (unpairs kvs)) @ r) = Some (unpairs kvs, r)"
  proof (rule dec_times_concat)
    fix x r assume x: "x \<in> set (unpairs kvs)"
    then have "nesting x \<le> f'" using CMap.prems(3) f nesting_unpairs [OF x] by simp
    moreover obtain k v where kv: "(k, v) \<in> set kvs" "x = k \<or> x = v" using x set_unpairs by fast
    moreover have "fits l tags (d + 1) x" "ordered x" using kv CMap.prems by auto
    ultimately show "dec tags f' (enc x @ r) = Some (x, r)"
      using CMap.IH by (elim disjE) (auto simp: prod_set_simps)
  qed
  with CMap.prems f show ?case by (simp add: dec_head concat_unpairs ordered_distinct)
next
  case (CTag t x)
  then obtain f' where "f = Suc f'" by (cases f) auto
  with CTag show ?case by (auto simp: dec_head)
next
  case (CBool b)
  then obtain f' where "f = Suc f'" by (cases f) auto
  then show ?case by (cases b) (simp_all add: dec.simps(3))
next
  case CNull
  then obtain f' where "f = Suc f'" by (cases f) auto
  then show ?case by (simp add: dec.simps(3))
qed

lemma rfc8949_decode_enc:
  "fits l tags d c \<Longrightarrow> ordered c \<Longrightarrow> rfc8949_decode tags (enc c) = Some (of_cbor c)"
  using dec_enc [of l tags d c "length (enc c)" "[]"] nesting_le_length [of c]
  by (simp add: rfc8949_decode_def)

end
