(* ===== verification/CborCodec.thy ===== *)
theory CborCodec
  imports Rfc8949 "HOL-Library.Multiset"
begin

text \<open>
  \<^verbatim>\<open>packages/hail-codec-ts/src/cbor.ts\<close>: \<open>encodeDeterministic\<close>, \<open>mapsToObjects\<close> and
  \<open>decodeDeterministic\<close>. The CBOR library is the parameter \<open>cborg\<close>; the locale \<open>cbor_library\<close>
  states its documented behaviour and is interpreted on the reference codec.
\<close>

section \<open>Definitions\<close>

text \<open>
  \<open>decodeCbor\<close> takes the tags that are preserved (all others throw) and returns \<open>None\<close> where
  the library throws.
\<close>

record cborg =
  encodeCbor :: "jsvalue \<Rightarrow> bytes"
  decodeCbor :: "nat list \<Rightarrow> bytes \<Rightarrow> jsvalue option"

definition encodeDeterministic :: "cborg \<Rightarrow> HailResourceLimits \<Rightarrow> jsvalue \<Rightarrow> bytes result" where
  "encodeDeterministic lib limits v =
     and_then (assertHailValue limits v) (\<lambda>_.
       let encoded = encodeCbor lib v in
       if maximumBytes limits < length encoded then throw ResourceLimit else Inr encoded)"

text \<open>
  The own properties of an object enumerate array indices in ascending order before the other
  keys in the order of their creation; defining a key that exists replaces its value.
\<close>

definition array_index :: "jstring \<Rightarrow> nat option" where
  "array_index s =
     (if s \<noteq> [] \<and> list_all is_digit s \<and> (hd s = of_char CHR ''0'' \<longrightarrow> length s = 1)
      then let n = foldl (\<lambda>n c. n * 10 + (unat c - 48)) 0 s
           in if n < 2 ^ 32 - 1 then Some n else None
      else None)"

definition own_property_order :: "(jstring \<times> 'a) list \<Rightarrow> (jstring \<times> 'a) list" where
  "own_property_order ps =
     sort_key (\<lambda>p. the (array_index (fst p))) (filter (\<lambda>p. array_index (fst p) \<noteq> None) ps)
     @ filter (\<lambda>p. array_index (fst p) = None) ps"

fun defineProperty :: "(jstring \<times> 'a) list \<Rightarrow> jstring \<Rightarrow> 'a \<Rightarrow> (jstring \<times> 'a) list" where
  "defineProperty [] k v = [(k, v)]"
| "defineProperty ((k', v') # ps) k v =
     (if k' = k then (k, v) # ps else (k', v') # defineProperty ps k v)"

fun mapsToObjects :: "jsvalue \<Rightarrow> hail_value result" and
    slotToObject :: "jsslot \<Rightarrow> hail_value result" and
    slotsToObjects :: "jsslot list \<Rightarrow> hail_value list result" and
    defineEntries :: "(jsvalue \<times> jsvalue) list \<Rightarrow> (jstring \<times> hail_value) list \<Rightarrow>
      (jstring \<times> hail_value) list result"
where
  "mapsToObjects (JArray b slots) = and_then (slotsToObjects slots) (\<lambda>xs. Inr (HArray xs))"
| "mapsToObjects (JMap entries) =
     and_then (defineEntries entries []) (\<lambda>ps. Inr (HMap (own_property_order ps)))"
| "mapsToObjects v = Inr (to_hail v)"
| "slotToObject (Data e v) = mapsToObjects v"
| "slotToObject s = Inr HNull"
| "slotsToObjects [] = Inr []"
| "slotsToObjects (s # ss) =
     and_then (slotToObject s) (\<lambda>x. and_then (slotsToObjects ss) (\<lambda>xs. Inr (x # xs)))"
| "defineEntries [] output = Inr output"
| "defineEntries ((key, entry) # entries) output =
     (case key of
        JText k \<Rightarrow> and_then (mapsToObjects entry) (\<lambda>x. defineEntries entries (defineProperty output k x))
      | _ \<Rightarrow> throw InvalidValue)"

definition decodeDeterministic :: "cborg \<Rightarrow> HailResourceLimits \<Rightarrow> bytes \<Rightarrow> hail_value result" where
  "decodeDeterministic lib limits bs =
     and_then (assertCborResourceLimits bs limits []) (\<lambda>_.
       case decodeCbor lib [] bs of
         None \<Rightarrow> throw MalformedCbor
       | Some decoded \<Rightarrow>
           and_then (checkValue limits True decoded [] 0 0) (\<lambda>_.
             if bs \<noteq> encodeCbor lib decoded then throw NonDeterministicCbor
             else mapsToObjects decoded))"

section \<open>What the library promises\<close>

text \<open>
  \<open>encodable\<close>: the values handed to the encoder. Maps have pairwise distinct text or integer
  keys. \<open>decoded\<close>: what the decoder returns with \<open>useMaps\<close> and \<open>rejectDuplicateMapKeys\<close>, never
  a plain object, and no text key twice in a map.
\<close>

fun map_key :: "jsvalue \<Rightarrow> bool" where
  "map_key (JText s) = isWellFormed s"
| "map_key (JNumber n) = (\<not> unsafe_number n)"
| "map_key _ = False"

fun encodable :: "jsvalue \<Rightarrow> bool" and slot_encodable :: "jsslot \<Rightarrow> bool" where
  "encodable JNull \<longleftrightarrow> True"
| "encodable (JBoolean b) \<longleftrightarrow> True"
| "encodable (JNumber n) \<longleftrightarrow> \<not> unsafe_number n"
| "encodable (JText s) \<longleftrightarrow> isWellFormed s"
| "encodable (JUint8Array bs) \<longleftrightarrow> True"
| "encodable (JArray b xs) \<longleftrightarrow> \<not> b \<and> (\<forall>s \<in> set xs. slot_encodable s)"
| "encodable (JMap kvs) \<longleftrightarrow> distinct (map fst kvs) \<and> (\<forall>(k, v) \<in> set kvs. map_key k \<and> encodable v)"
| "encodable (JObject p c ms) \<longleftrightarrow> p \<and> \<not> c \<and> distinct (map fst ms)
     \<and> (\<forall>(k, s) \<in> set ms. isWellFormed k \<and> slot_encodable s)"
| "encodable (JTagged t v) \<longleftrightarrow> encodable v"
| "encodable _ \<longleftrightarrow> False"
| "slot_encodable (Data e v) \<longleftrightarrow> e \<and> encodable v"
| "slot_encodable _ \<longleftrightarrow> False"

fun text_keys :: "(jsvalue \<times> 'a) list \<Rightarrow> jstring list" where
  "text_keys [] = []"
| "text_keys ((JText k, v) # kvs) = k # text_keys kvs"
| "text_keys (kv # kvs) = text_keys kvs"

fun decoded :: "jsvalue \<Rightarrow> bool" and slot_decoded :: "jsslot \<Rightarrow> bool" where
  "decoded (JObject p c ms) \<longleftrightarrow> False"
| "decoded (JArray b xs) \<longleftrightarrow> \<not> b \<and> (\<forall>s \<in> set xs. slot_decoded s)"
| "decoded (JMap kvs) \<longleftrightarrow> distinct (text_keys kvs) \<and> (\<forall>(k, v) \<in> set kvs. decoded v)"
| "decoded (JTagged t v) \<longleftrightarrow> decoded v"
| "decoded _ \<longleftrightarrow> True"
| "slot_decoded (Data e v) \<longleftrightarrow> e \<and> decoded v"
| "slot_decoded _ \<longleftrightarrow> False"

locale cbor_library =
  fixes lib :: cborg
  assumes encode_rfc8949: "encodable v \<Longrightarrow> encodeCbor lib v = rfc8949 v"
    and decode_rfc8949: "fits l tags d c \<Longrightarrow> ordered c \<Longrightarrow> decodeCbor lib tags (enc c) = Some (of_cbor c)"
    and decode_decoded: "decodeCbor lib tags bs = Some v \<Longrightarrow> decoded v"

section \<open>Hail values as data items\<close>

fun hail_cbor :: "hail_value \<Rightarrow> cbor" where
  "hail_cbor HNull = CNull"
| "hail_cbor (HBool b) = CBool b"
| "hail_cbor (HInt i) = CInt i"
| "hail_cbor (HText s) = CText s"
| "hail_cbor (HBytes bs) = CBytes bs"
| "hail_cbor (HArray xs) = CArray (map hail_cbor xs)"
| "hail_cbor (HMap kvs) = CMap (map (\<lambda>(k, v). (CText k, hail_cbor v)) kvs)"

fun unique_keys :: "hail_value \<Rightarrow> bool" where
  "unique_keys (HArray xs) \<longleftrightarrow> (\<forall>x \<in> set xs. unique_keys x)"
| "unique_keys (HMap kvs) \<longleftrightarrow> distinct (map fst kvs) \<and> (\<forall>(k, v) \<in> set kvs. unique_keys v)"
| "unique_keys _ \<longleftrightarrow> True"

definition key_bytes :: "jstring \<times> 'a \<Rightarrow> bytes" where
  "key_bytes kv = enc (CText (fst kv))"

text \<open>Members in the order of the encoding, and in the order of a decoded object.\<close>

fun sort_members :: "hail_value \<Rightarrow> hail_value" where
  "sort_members (HArray xs) = HArray (map sort_members xs)"
| "sort_members (HMap kvs) =
     HMap (sort_key key_bytes (map (\<lambda>(k, v). (k, sort_members v)) kvs))"
| "sort_members h = h"

fun enumerate_members :: "hail_value \<Rightarrow> hail_value" where
  "enumerate_members (HArray xs) = HArray (map enumerate_members xs)"
| "enumerate_members (HMap kvs) = HMap (own_property_order (map (\<lambda>(k, v). (k, enumerate_members v)) kvs))"
| "enumerate_members h = h"

definition canonical :: "hail_value \<Rightarrow> hail_value" where
  "canonical h = enumerate_members (sort_members h)"

text \<open>Two values are the same if they differ in the order of object members only.\<close>

definition same_value :: "hail_value \<Rightarrow> hail_value \<Rightarrow> bool" where
  "same_value h h' \<longleftrightarrow> sort_members h = sort_members h'"

lemma to_cbor_of_hail [simp]: "to_cbor (of_hail h) = hail_cbor h"
  by (induction h) (auto simp: o_def)

lemma to_cbor_of_cbor [simp]: "to_cbor (of_cbor c) = c"
  by (induction c) (auto simp: o_def intro!: map_idI)

lemma map_fst_members [simp]: "map fst (map (\<lambda>(k, v). (k, f v)) kvs) = map fst kvs"
  by (induction kvs) auto

lemma insort_key_map: "insort_key f (g x) (map g xs) = map g (insort_key (\<lambda>x. f (g x)) x xs)"
  by (induction xs) auto

lemma sort_key_map: "sort_key f (map g xs) = map g (sort_key (\<lambda>x. f (g x)) xs)"
  by (induction xs) (simp_all add: insort_key_map)

text \<open>Reordering the members changes none of what the limits and the sizes depend on.\<close>

lemma sum_list_sort_key [simp]: "sum_list (map f (sort_key g xs)) = (sum_list (map f xs) :: nat)"
  by (simp flip: sum_mset_sum_list)

lemma mset_own_property_order [simp]: "mset (own_property_order ps) = mset ps"
proof -
  have "mset ps = mset (filter (\<lambda>p. array_index (fst p) \<noteq> None) ps)
      + mset (filter (\<lambda>p. array_index (fst p) = None) ps)"
    using multiset_partition [of "mset ps" "\<lambda>p. array_index (fst p) \<noteq> None"] by simp
  then show ?thesis by (simp add: own_property_order_def)
qed

lemma set_own_property_order [simp]: "set (own_property_order ps) = set ps"
  by (metis mset_own_property_order set_mset_mset)

lemma length_own_property_order [simp]: "length (own_property_order ps) = length ps"
  by (metis mset_own_property_order size_mset)

lemma sum_list_own_property_order [simp]:
  "sum_list (map f (own_property_order ps)) = (sum_list (map f ps) :: nat)"
  by (simp flip: sum_mset_sum_list)

lemma order_maps_hail: "order_maps (hail_cbor h) = hail_cbor (sort_members h)"
proof (induction h)
  case (HMap kvs)
  then have "map (\<lambda>(k, v). (order_maps k, order_maps v)) (map (\<lambda>(k, v). (CText k, hail_cbor v)) kvs)
      = map (\<lambda>(k, v). (CText k, hail_cbor v)) (map (\<lambda>(k, v). (k, sort_members v)) kvs)"
    by auto
  then show ?case by (simp add: sort_entries_def sort_key_map key_bytes_def case_prod_unfold o_def)
qed auto

lemma rfc8949_of_hail: "rfc8949 (of_hail h) = enc (hail_cbor (sort_members h))"
  by (simp add: rfc8949_def order_maps_hail)

lemma rfc8949_of_cbor_hail: "rfc8949 (of_cbor (hail_cbor h)) = enc (hail_cbor (sort_members h))"
  by (simp add: rfc8949_def order_maps_hail)

lemma length_enc_hail: "length (enc (hail_cbor h)) = encodedSize h"
proof (induction h)
  case (HArray xs)
  then show ?case by (simp add: length_concat length_head o_def cong: map_cong)
next
  case (HMap kvs)
  then have "\<forall>kv \<in> set kvs. length (enc (hail_cbor (snd kv))) = encodedSize (snd kv)" by fastforce
  then show ?case
    by (simp add: length_concat length_head o_def case_prod_unfold utf8_length_def add.assoc cong: map_cong)
qed (simp_all add: length_head utf8_length_def)

lemma encodedSize_sort_members [simp]: "encodedSize (sort_members h) = encodedSize h"
proof (induction h)
  case (HMap kvs)
  then have "\<forall>kv \<in> set kvs. encodedSize (sort_members (snd kv)) = encodedSize (snd kv)" by fastforce
  then show ?case by (simp add: o_def case_prod_unfold cong: map_cong)
qed (simp_all add: o_def cong: map_cong)

lemma within_sort_members [simp]: "within l d (sort_members h) = within l d h"
  by (induction h arbitrary: d) (auto simp: case_prod_unfold)

lemma items_sort_members [simp]: "items (sort_members h) = items h"
proof (induction h)
  case (HMap kvs)
  then have "\<forall>kv \<in> set kvs. items (sort_members (snd kv)) = items (snd kv)" by fastforce
  then show ?case by (simp add: o_def case_prod_unfold cong: map_cong)
qed (simp_all add: o_def cong: map_cong)

lemma distinct_mset_cong: "mset xs = mset ys \<Longrightarrow> distinct (map f xs) = distinct (map f ys)"
  by (metis mset_eq_imp_distinct_iff mset_map)

lemmas distinct_sort_key = distinct_mset_cong [OF mset_sort]

lemma unique_keys_sort_members [simp]: "unique_keys (sort_members h) = unique_keys h"
  by (induction h) (auto simp: distinct_sort_key case_prod_unfold o_def)

lemma within_enumerate_members [simp]: "within l d (enumerate_members h) = within l d h"
  by (induction h arbitrary: d) (auto simp: case_prod_unfold)

lemma items_enumerate_members [simp]: "items (enumerate_members h) = items h"
proof (induction h)
  case (HMap kvs)
  then have "\<forall>kv \<in> set kvs. items (enumerate_members (snd kv)) = items (snd kv)" by fastforce
  then show ?case by (simp add: o_def case_prod_unfold cong: map_cong)
qed (simp_all add: o_def cong: map_cong)

lemma encodedSize_enumerate_members [simp]: "encodedSize (enumerate_members h) = encodedSize h"
proof (induction h)
  case (HMap kvs)
  then have "\<forall>kv \<in> set kvs. encodedSize (enumerate_members (snd kv)) = encodedSize (snd kv)" by fastforce
  then show ?case by (simp add: o_def case_prod_unfold cong: map_cong)
qed (simp_all add: o_def cong: map_cong)

lemmas distinct_own_property_order = distinct_mset_cong [OF mset_own_property_order]

lemma unique_keys_enumerate_members [simp]: "unique_keys (enumerate_members h) = unique_keys h"
  by (induction h) (auto simp: distinct_own_property_order case_prod_unfold o_def)

section \<open>The order of map keys\<close>

lemma argumentSize_mono: "m \<le> n \<Longrightarrow> argumentSize m \<le> argumentSize n"
  by (auto simp: argumentSize_def)

lemma argumentSize_plus_inj: "argumentSize m + m = argumentSize n + n \<Longrightarrow> m = n"
  using argumentSize_mono [of m n] argumentSize_mono [of n m] by linarith

lemma enc_text_inj:
  assumes "isWellFormed s" "isWellFormed t" "enc (CText s) = enc (CText t)"
  shows "s = t"
proof -
  have "length (enc (CText s)) = length (enc (CText t))" using assms(3) by (rule arg_cong)
  then have "utf8_length s = utf8_length t"
    by (simp add: length_head flip: utf8_length_def) (rule argumentSize_plus_inj)
  with assms show ?thesis by (simp add: utf8_encode_inj)
qed

lemma inj_key_bytes:
  assumes "\<forall>kv \<in> set kvs. isWellFormed (fst kv)" and "distinct (map fst kvs)"
  shows "inj_on key_bytes (set kvs)"
proof (rule inj_onI)
  fix a b assume ab: "a \<in> set kvs" "b \<in> set kvs" "key_bytes a = key_bytes b"
  then have "fst a = fst b"
    using assms(1) enc_text_inj [of "fst a" "fst b"] by (auto simp: key_bytes_def)
  with ab(1,2) assms(2) show "a = b" by (auto simp: distinct_map inj_on_def)
qed

lemma sort_key_perm:
  assumes "mset xs = mset ys" and "inj_on f (set ys)"
  shows "sort_key f xs = sort_key f ys"
  by (rule sort_key_inj_key_eq) (use assms in \<open>auto dest: mset_eq_setD\<close>)

lemma sort_enumerate_members:
  "within l d h \<Longrightarrow> unique_keys h \<Longrightarrow> sort_members (enumerate_members h) = sort_members h"
proof (induction h arbitrary: d)
  case (HMap kvs)
  let ?kvs = "map (\<lambda>(k, v). (k, sort_members v)) kvs"
  have IH: "map (\<lambda>(k, v). (k, sort_members (enumerate_members v))) kvs = ?kvs"
    using HMap by fastforce
  have "mset (map (\<lambda>(k, v). (k, sort_members v)) (own_property_order (map (\<lambda>(k, v). (k, enumerate_members v)) kvs)))
      = mset (map (\<lambda>(k, v). (k, sort_members (enumerate_members v))) kvs)"
    by (simp add: image_mset.compositionality o_def case_prod_unfold)
  then have "sort_key key_bytes (map (\<lambda>(k, v). (k, sort_members v))
      (own_property_order (map (\<lambda>(k, v). (k, enumerate_members v)) kvs))) = sort_key key_bytes ?kvs"
    unfolding IH using HMap.prems
    by (intro sort_key_perm inj_key_bytes) (auto simp: case_prod_unfold o_def)
  then show ?case by simp
qed auto

lemma sort_members_idem [simp]: "sort_members (sort_members h) = sort_members h"
proof (induction h)
  case (HMap kvs)
  then have "map (\<lambda>(k, v). (k, sort_members v)) (sort_key key_bytes (map (\<lambda>(k, v). (k, sort_members v)) kvs))
      = sort_key key_bytes (map (\<lambda>(k, v). (k, sort_members v)) kvs)"
    by (intro map_idI) fastforce
  then show ?case by (simp add: sort_key_id_if_sorted)
qed auto

lemma same_value_canonical: "within l d h \<Longrightarrow> unique_keys h \<Longrightarrow> same_value h (canonical h)"
  using sort_enumerate_members [of l d "sort_members h"] by (simp add: same_value_def canonical_def)

section \<open>Encodings of Hail values\<close>

lemma encodedSize_pos: "1 \<le> encodedSize h"
  by (cases h) (auto simp: argumentSize_def)

lemma length_le_sum_list: "(\<And>x. x \<in> set xs \<Longrightarrow> 1 \<le> f x) \<Longrightarrow> length xs \<le> (sum_list (map f xs) :: nat)"
proof (induction xs)
  case (Cons a xs)
  then have "1 \<le> f a" "length xs \<le> sum_list (map f xs)" by simp_all
  then show ?case by simp
qed simp

lemma within_depth: "within l d h \<Longrightarrow> d \<le> maximumDepth l"
  by (cases h) auto

lemma fits_hail:
  "within l d h \<Longrightarrow> encodedSize h \<le> MAX_SAFE_INTEGER \<Longrightarrow> fits l tags d (hail_cbor h)"
proof (induction h arbitrary: d)
  case (HArray xs)
  have size: "encodedSize x \<le> sum_list (map encodedSize xs)" if "x \<in> set xs" for x
    using that by (rule sum_list_member_le)
  have "length xs \<le> sum_list (map encodedSize xs)"
    by (rule length_le_sum_list) (rule encodedSize_pos)
  moreover have "fits l tags (d + 1) (hail_cbor x)" if "x \<in> set xs" for x
    using that size [OF that] HArray.prems by (intro HArray.IH) auto
  ultimately show ?case using HArray.prems by auto
next
  case (HMap kvs)
  let ?f = "\<lambda>(k, v). argumentSize (utf8_length k) + utf8_length k + encodedSize v"
  have size: "?f kv \<le> sum_list (map ?f kvs)" if "kv \<in> set kvs" for kv
    using that by (rule sum_list_member_le)
  have len: "length kvs \<le> sum_list (map ?f kvs)"
    by (rule length_le_sum_list) (use encodedSize_pos in \<open>auto simp: trans_le_add2\<close>)
  have part: "utf8_length k \<le> MAX_SAFE_INTEGER \<and> encodedSize v \<le> MAX_SAFE_INTEGER"
    if "(k, v) \<in> set kvs" for k v
    using size [OF that] HMap.prems(2) by simp
  have "fits l tags (d + 1) (hail_cbor v)" if "(k, v) \<in> set kvs" for k v
    using that HMap.prems(1) part [OF that] by (intro HMap.IH [of "(k, v)"]) auto
  with HMap.prems len part show ?case by (auto dest!: bspec dest: within_depth)
qed auto

lemma count_hail [simp]: "item_count (hail_cbor h) = items h"
proof (induction h)
  case (HMap kvs)
  then have "\<forall>kv \<in> set kvs. item_count (hail_cbor (snd kv)) = items (snd kv)" by fastforce
  then show ?case by (simp add: o_def case_prod_unfold cong: map_cong)
qed (simp_all add: o_def cong: map_cong)

lemma ordered_hail: "within l d h \<Longrightarrow> unique_keys h \<Longrightarrow> ordered (hail_cbor (sort_members h))"
proof (induction h arbitrary: d)
  case (HMap kvs)
  let ?kvs = "map (\<lambda>(k, v). (k, sort_members v)) kvs"
  have "inj_on key_bytes (set ?kvs)"
    using HMap.prems by (intro inj_key_bytes) (auto simp: case_prod_unfold o_def)
  moreover have "distinct (map fst ?kvs)" using HMap.prems unfolding map_fst_members by simp
  then have "distinct ?kvs" unfolding distinct_map [of fst] by (rule conjunct1)
  ultimately have "distinct (map key_bytes (sort_key key_bytes ?kvs))"
    by (simp add: distinct_map)
  then have "sorted_wrt (<) (map key_bytes (sort_key key_bytes ?kvs))"
    by (simp add: strict_sorted_iff)
  moreover have "map (\<lambda>kv. enc (fst kv)) (map (\<lambda>(k, v). (CText k, hail_cbor v)) zs) = map key_bytes zs"
    for zs by (auto simp: key_bytes_def)
  ultimately have "sorted_wrt (<) (map (\<lambda>kv. enc (fst kv))
      (map (\<lambda>(k, v). (CText k, hail_cbor v)) (sort_key key_bytes ?kvs)))"
    by (simp only:)
  with HMap show ?case by fastforce
qed auto

lemma map_key_text [simp]: "map_key (JText k) = isWellFormed k"
  by simp

lemma encodable_of_hail: "within l d h \<Longrightarrow> unique_keys h \<Longrightarrow> encodable (of_hail h)"
  by (induction h arbitrary: d) (fastforce simp: o_def case_prod_unfold)+

lemma encodable_maps: "within l d h \<Longrightarrow> unique_keys h \<Longrightarrow> encodable (of_cbor (hail_cbor h))"
proof (induction h arbitrary: d)
  case (HMap kvs)
  have "distinct (map (JText \<circ> fst) kvs)"
    using HMap.prems by (simp add: distinct_map inj_on_def flip: map_map)
  with HMap show ?case by (fastforce simp: o_def case_prod_unfold)
qed fastforce+

text \<open>The value check on what the decoder returns: maps instead of objects.\<close>

lemma checkEntries_of_hail:
  assumes "\<And>x c p d n. x \<in> snd ` set kvs \<Longrightarrow> checkValue l True (of_cbor (hail_cbor x)) p d c = Inr n \<longleftrightarrow>
      within l d x \<and> n = c + items x \<and> n \<le> maximumItems l"
    and "c \<le> maximumItems l"
  shows "checkEntries l True (map (\<lambda>(k, x). (JText k, of_cbor (hail_cbor x))) kvs) p d c = Inr n \<longleftrightarrow>
      (\<forall>(k, x) \<in> set kvs. isWellFormed k \<and> utf8_length k \<le> maximumTextBytes l \<and> within l (d + 1) x)
      \<and> n = c + sum_list (map (\<lambda>(k, x). Suc (items x)) kvs) \<and> n \<le> maximumItems l"
  using assms
proof (induction kvs arbitrary: c)
  case (Cons kv kvs)
  obtain k x where kv: "kv = (k, x)" by fastforce
  have head: "checkValue l True (of_cbor (hail_cbor x)) (sub p k) (d + 1) (c + 1) = Inr n \<longleftrightarrow>
      within l (d + 1) x \<and> n = c + 1 + items x \<and> n \<le> maximumItems l" for n
    using Cons.prems(1) [of x] kv by simp
  show ?case
  proof (cases "checkValue l True (of_cbor (hail_cbor x)) (sub p k) (d + 1) (c + 1)")
    case (Inl e)
    with head [of "c + 1 + items x"] kv show ?thesis by auto
  next
    case (Inr c')
    with head [of c'] have c': "within l (d + 1) x" "c' = c + 1 + items x" "c' \<le> maximumItems l"
      by auto
    have "checkEntries l True (map (\<lambda>(k, x). (JText k, of_cbor (hail_cbor x))) kvs) p d c' = Inr n \<longleftrightarrow>
        (\<forall>(k, x) \<in> set kvs. isWellFormed k \<and> utf8_length k \<le> maximumTextBytes l \<and> within l (d + 1) x)
        \<and> n = c' + sum_list (map (\<lambda>(k, x). Suc (items x)) kvs) \<and> n \<le> maximumItems l"
      by (rule Cons.IH) (use Cons.prems(1) c'(3) in auto)
    with Inr c' kv show ?thesis by (auto simp: Let_def add.assoc)
  qed
qed auto

lemma checkSlots_maps:
  assumes "\<And>x c p d n. x \<in> set xs \<Longrightarrow> checkValue l True (of_cbor (hail_cbor x)) p d c = Inr n \<longleftrightarrow>
      within l d x \<and> n = c + items x \<and> n \<le> maximumItems l"
    and "c \<le> maximumItems l"
  shows "checkSlots l True (map (\<lambda>x. Data True (of_cbor (hail_cbor x))) xs) i p d c = Inr n \<longleftrightarrow>
      (\<forall>x \<in> set xs. within l (d + 1) x) \<and> n = c + sum_list (map items xs) \<and> n \<le> maximumItems l"
  by (rule checkSlots_count [of xs l True "\<lambda>x. of_cbor (hail_cbor x)"]) (use assms in auto)

lemma of_cbor_hail_map:
  "of_cbor (hail_cbor (HMap kvs)) = JMap (map (\<lambda>(k, x). (JText k, of_cbor (hail_cbor x))) kvs)"
  by auto

lemma checkValue_maps:
  "checkValue l True (of_cbor (hail_cbor h)) p d c = Inr n \<longleftrightarrow>
     within l d h \<and> n = c + items h \<and> n \<le> maximumItems l"
proof (induction h arbitrary: p d c n)
  case (HArray xs)
  then show ?case by (auto simp: checkValue_array checkSlots_maps o_def)
next
  case (HMap kvs)
  then have IH: "checkValue l True (of_cbor (hail_cbor x)) p d c = Inr n \<longleftrightarrow>
      within l d x \<and> n = c + items x \<and> n \<le> maximumItems l" if "x \<in> snd ` set kvs" for x c p d n
    using that by fastforce
  show ?case
    unfolding of_cbor_hail_map using checkEntries_of_hail [OF IH] by (auto simp: checkValue_map)
qed (auto simp: checkValue.simps Let_def)

text \<open>From maps back to objects.\<close>

lemma defineProperty_new: "k \<notin> fst ` set ps \<Longrightarrow> defineProperty ps k v = ps @ [(k, v)]"
  by (induction ps k v rule: defineProperty.induct) auto

lemma defineEntries_hail:
  assumes "\<And>x. x \<in> snd ` set kvs \<Longrightarrow> mapsToObjects (of_cbor (hail_cbor x)) = Inr (f x)"
    and "distinct (map fst ps @ map fst kvs)"
  shows "defineEntries (map (\<lambda>(k, x). (JText k, of_cbor (hail_cbor x))) kvs) ps
    = Inr (ps @ map (\<lambda>(k, x). (k, f x)) kvs)"
  using assms
proof (induction kvs arbitrary: ps)
  case (Cons kv kvs)
  then show ?case by (cases kv) (force simp: defineProperty_new)
qed simp

lemma slotsToObjects_hail:
  assumes "\<And>x. x \<in> set xs \<Longrightarrow> mapsToObjects (of_cbor (hail_cbor x)) = Inr (f x)"
  shows "slotsToObjects (map (\<lambda>x. Data True (of_cbor (hail_cbor x))) xs) = Inr (map f xs)"
  using assms by (induction xs) auto

lemma mapsToObjects_hail:
  "unique_keys h \<Longrightarrow> mapsToObjects (of_cbor (hail_cbor h)) = Inr (enumerate_members h)"
proof (induction h)
  case (HArray xs)
  then show ?case using slotsToObjects_hail [of xs enumerate_members] by (simp add: o_def)
next
  case (HMap kvs)
  have "defineEntries (map (\<lambda>(k, x). (JText k, of_cbor (hail_cbor x))) kvs) []
      = Inr ([] @ map (\<lambda>(k, x). (k, enumerate_members x)) kvs)"
    by (rule defineEntries_hail) (use HMap in fastforce)+
  then show ?case by (simp add: of_cbor_hail_map del: hail_cbor.simps of_cbor.simps)
qed auto

text \<open>What the decoder returns and the check accepts is such a value.\<close>

fun text_value :: "jsvalue \<Rightarrow> bool" and slot_text :: "jsslot \<Rightarrow> bool" where
  "text_value (JMap kvs) \<longleftrightarrow> (\<forall>(k, v) \<in> set kvs. (\<exists>s. k = JText s) \<and> text_value v)"
| "text_value (JArray b xs) \<longleftrightarrow> (\<forall>s \<in> set xs. slot_text s)"
| "text_value (JObject p c ms) \<longleftrightarrow> False"
| "text_value (JNumber n) \<longleftrightarrow> (\<exists>i. n = Integral i)"
| "text_value (JTagged t v) \<longleftrightarrow> False"
| "text_value JUndefined \<longleftrightarrow> False"
| "text_value JOther \<longleftrightarrow> False"
| "text_value _ \<longleftrightarrow> True"
| "slot_text (Data e v) \<longleftrightarrow> text_value v"
| "slot_text _ \<longleftrightarrow> False"

fun map_hail :: "jsvalue \<Rightarrow> hail_value" and slot_map_hail :: "jsslot \<Rightarrow> hail_value" where
  "map_hail (JMap kvs) = HMap (map (\<lambda>(k, v). (case k of JText s \<Rightarrow> s | _ \<Rightarrow> [], map_hail v)) kvs)"
| "map_hail (JArray b xs) = HArray (map slot_map_hail xs)"
| "map_hail v = to_hail v"
| "slot_map_hail (Data e v) = map_hail v"
| "slot_map_hail _ = HNull"

lemma check_text_value:
  "checkValue l a v p d c = Inr n \<Longrightarrow> decoded v \<Longrightarrow> text_value v"
  "checkSlots l a ss i p d c = Inr n \<Longrightarrow> (\<forall>s \<in> set ss. slot_decoded s) \<Longrightarrow> (\<forall>s \<in> set ss. slot_text s)"
  "checkEntries l a es p d c = Inr n \<Longrightarrow> (\<forall>(k, v) \<in> set es. decoded v) \<Longrightarrow>
     (\<forall>(k, v) \<in> set es. (\<exists>s. k = JText s) \<and> text_value v)"
  "checkMembers l a ms p d c = Inr n \<Longrightarrow> True"
proof (induction l a v p d c and l a ss i p d c and l a es p d c and l a ms p d c
    arbitrary: n and n and n and n
    rule: checkValue_checkSlots_checkEntries_checkMembers.induct)
  case (1 l a v p d c)
  show ?case
  proof (cases v)
    case (JArray b slots)
    with "1.prems"(1) obtain n' where
      "\<not> maximumItems l < c + 1" "\<not> maximumDepth l < d" "\<not> maximumArrayLength l < length slots" "\<not> b"
      "checkSlots l a slots 0 p d (c + 1) = Inr n'"
      by (auto simp: checkValue_array split: if_splits)
    with "1.IH"(1) JArray "1.prems"(2) show ?thesis by auto
  next
    case (JMap entries)
    with "1.prems"(1) obtain n' where
      "\<not> maximumItems l < c + 1" "\<not> maximumDepth l < d" "a" "\<not> maximumMapEntries l < length entries"
      "checkEntries l a entries p d (c + 1) = Inr n'"
      by (auto simp: checkValue_map split: if_splits)
    with "1.IH"(2) JMap "1.prems"(2) show ?thesis by simp
  next
    case (JNumber m)
    with "1.prems" show ?thesis
      by (cases m) (auto simp: checkValue.simps unsafe_number_def Let_def split: if_splits)
  qed (use "1.prems" in \<open>auto simp: checkValue.simps Let_def split: if_splits\<close>)
next
  case (3 l a slot slots i p d c)
  then show ?case by (auto split: jsslot.splits if_splits sum.splits)
next
  case (5 l a key v entries p d c)
  then show ?case by (auto simp: Let_def split: jsvalue.splits if_splits sum.splits)
qed simp_all

lemma text_keys_map: "\<forall>(k, v) \<in> set kvs. \<exists>s. k = JText s \<Longrightarrow>
    text_keys kvs = map (\<lambda>(k, v). case k of JText s \<Rightarrow> s | _ \<Rightarrow> []) kvs"
  by (induction kvs rule: text_keys.induct) auto

lemma text_value_hail:
  "text_value v \<Longrightarrow> decoded v \<Longrightarrow> v = of_cbor (hail_cbor (map_hail v)) \<and> unique_keys (map_hail v)"
  "slot_text s \<Longrightarrow> slot_decoded s \<Longrightarrow>
     s = Data True (of_cbor (hail_cbor (slot_map_hail s))) \<and> unique_keys (slot_map_hail s)"
proof (induction v and s)
  case (JMap kvs)
  have keys: "\<forall>(k, v) \<in> set kvs. \<exists>s. k = JText s" using JMap.prems(1) by auto
  have "map (\<lambda>(k, v). (of_cbor k, of_cbor v)) (map (\<lambda>(k, v). (CText k, hail_cbor v))
      (map (\<lambda>(k, v). (case k of JText s \<Rightarrow> s | _ \<Rightarrow> [], map_hail v)) kvs)) = kvs"
    using JMap by (auto intro!: map_idI) force+
  moreover have "distinct (map (\<lambda>(k, v). case k of JText s \<Rightarrow> s | _ \<Rightarrow> []) kvs)"
    using JMap.prems(2) text_keys_map [OF keys] by simp
  moreover have "\<forall>(k, v) \<in> set kvs. unique_keys (map_hail v)" using JMap by fastforce
  ultimately show ?case by (auto simp: o_def case_prod_unfold)
next
  case (JArray b xs)
  have "map (\<lambda>x. Data True (of_cbor x)) (map hail_cbor (map slot_map_hail xs)) = xs"
    using JArray by (auto simp: o_def intro!: map_idI)
  with JArray show ?case by auto
qed auto

section \<open>Round trips\<close>

context cbor_library begin

lemma decode_sorted:
  assumes "within l d h" "unique_keys h" "encodedSize h \<le> MAX_SAFE_INTEGER"
  shows "decodeCbor lib [] (enc (hail_cbor (sort_members h))) = Some (of_cbor (hail_cbor (sort_members h)))"
  using assms by (intro decode_rfc8949 [of l "[]" d] fits_hail [of l d] ordered_hail [of l d]) auto

lemma encode_object:
  "within l d h \<Longrightarrow> unique_keys h \<Longrightarrow> encodeCbor lib (of_hail h) = enc (hail_cbor (sort_members h))"
  using encode_rfc8949 encodable_of_hail rfc8949_of_hail by metis

lemma encode_maps:
  "within l d h \<Longrightarrow> unique_keys h \<Longrightarrow>
     encodeCbor lib (of_cbor (hail_cbor h)) = enc (hail_cbor (sort_members h))"
  using encode_rfc8949 encodable_maps rfc8949_of_cbor_hail by metis

lemma encodeDeterministic_iff:
  assumes "unique_keys h"
  shows "encodeDeterministic lib l (of_hail h) = Inr bs \<longleftrightarrow>
    within l 0 h \<and> items h \<le> maximumItems l \<and> encodedSize h \<le> maximumBytes l
    \<and> bs = enc (hail_cbor (sort_members h))"
proof -
  have "of_hail h = of_hail g \<Longrightarrow> g = h" for g by (metis to_hail_of_hail)
  then show ?thesis
    using assms encode_object [of l 0 h] length_enc_hail [of "sort_members h"]
    by (auto simp: encodeDeterministic_def assertHailValue_all Let_def split: if_splits)
qed

lemma scan_encoded:
  assumes "within l 0 h" "items h \<le> maximumItems l" "encodedSize h \<le> maximumBytes l"
    and "maximumBytes l \<le> MAX_SAFE_INTEGER"
  shows "assertCborResourceLimits (enc (hail_cbor (sort_members h))) l [] = Inr ()"
proof -
  have "cbor_item l [] 0 (enc (hail_cbor (sort_members h))) (items h)"
    using fits_cbor_item [OF fits_hail [of l 0 "sort_members h" "[]"]] assms by simp
  with assms show ?thesis by (auto simp: scan_decides length_enc_hail)
qed

theorem decode_of_encode:
  assumes "unique_keys h" and "maximumBytes l \<le> MAX_SAFE_INTEGER"
    and "encodeDeterministic lib l (of_hail h) = Inr bs"
  shows "decodeDeterministic lib l bs = Inr (canonical h) \<and> same_value h (canonical h)"
proof -
  have w: "within l 0 h" "items h \<le> maximumItems l" "encodedSize h \<le> maximumBytes l"
    and bs: "bs = enc (hail_cbor (sort_members h))"
    using assms(3) encodeDeterministic_iff [OF assms(1)] by auto
  have "decodeCbor lib [] bs = Some (of_cbor (hail_cbor (sort_members h)))"
    unfolding bs using w assms by (intro decode_sorted [of l 0]) auto
  moreover have "checkValue l True (of_cbor (hail_cbor (sort_members h))) [] 0 0 = Inr (items h)"
    using w by (simp add: checkValue_maps)
  moreover have "encodeCbor lib (of_cbor (hail_cbor (sort_members h))) = bs"
    unfolding bs using encode_maps [of l 0 "sort_members h"] w assms(1) by simp
  moreover have "mapsToObjects (of_cbor (hail_cbor (sort_members h))) = Inr (canonical h)"
    using assms(1) by (simp add: mapsToObjects_hail canonical_def)
  ultimately show ?thesis
    using scan_encoded [OF w assms(2)] same_value_canonical [OF w(1) assms(1)]
    by (simp add: decodeDeterministic_def bs)
qed

theorem encode_of_decode:
  assumes "decodeDeterministic lib l bs = Inr h"
  shows "encodeDeterministic lib l (of_hail h) = Inr bs \<and> unique_keys h"
proof -
  obtain v n where scan: "assertCborResourceLimits bs l [] = Inr ()"
    and dec: "decodeCbor lib [] bs = Some v" and chk: "checkValue l True v [] 0 0 = Inr n"
    and enc: "encodeCbor lib v = bs" and obj: "mapsToObjects v = Inr h"
    using assms by (auto simp: decodeDeterministic_def split: option.splits if_splits)
  define g where "g = map_hail v"
  have v: "v = of_cbor (hail_cbor g)" and u: "unique_keys g"
    using text_value_hail(1) [OF check_text_value(1) [OF chk]] decode_decoded [OF dec]
    by (auto simp: g_def)
  have w: "within l 0 g" "items g \<le> maximumItems l"
    using chk unfolding v checkValue_maps by auto
  have h: "h = enumerate_members g" using obj u unfolding v by (simp add: mapsToObjects_hail)
  have bs: "bs = enc (hail_cbor (sort_members g))" using enc encode_maps [OF w(1) u] v by simp
  then have "encodedSize g \<le> maximumBytes l"
    using scan by (simp add: scan_decides length_enc_hail)
  with w u bs show ?thesis
    unfolding h by (simp add: encodeDeterministic_iff sort_enumerate_members [OF w(1) u])
qed

end

section \<open>The reference codec keeps the promise\<close>

definition reference_cborg :: cborg where
  "reference_cborg = \<lparr>encodeCbor = rfc8949, decodeCbor = rfc8949_decode\<rparr>"

fun distinct_maps :: "cbor \<Rightarrow> bool" where
  "distinct_maps (CArray xs) \<longleftrightarrow> (\<forall>x \<in> set xs. distinct_maps x)"
| "distinct_maps (CMap kvs) \<longleftrightarrow> distinct (map fst kvs) \<and> (\<forall>(k, v) \<in> set kvs. distinct_maps v)"
| "distinct_maps (CTag t x) \<longleftrightarrow> distinct_maps x"
| "distinct_maps _ \<longleftrightarrow> True"

lemma set_pairs: "(k, v) \<in> set (pairs xs) \<Longrightarrow> k \<in> set xs \<and> v \<in> set xs"
  by (induction xs rule: pairs.induct) auto

lemma dec_distinct_maps:
  "dec tags f bs = Some (c, r) \<Longrightarrow> distinct_maps c"
  "dec_times tags f n bs = Some (xs, r) \<Longrightarrow> \<forall>x \<in> set xs. distinct_maps x"
proof (induction tags f bs and tags f n bs arbitrary: c r and xs r rule: dec_dec_times.induct)
  case (3 tags f b bs)
  note IH = "3.IH" [OF refl]
  show ?case
  proof (cases "unat b div 32 = 7")
    case True
    with "3.prems" show ?thesis by (auto simp: dec.simps(3) split: if_splits)
  next
    case False
    with "3.prems" obtain n ds where arg: "dec_argument (unat b mod 32) bs = Some (n, ds)"
      by (auto simp: dec.simps(3) Let_def split: option.splits)
    consider "unat b div 32 < 4" | "unat b div 32 = 4" | "unat b div 32 = 5" | "5 < unat b div 32" by linarith
    then show ?thesis
    proof cases
      case 1
      with "3.prems" False arg show ?thesis
        by (auto simp: dec.simps(3) Let_def split: if_splits option.splits)
    next
      case 2
      with "3.prems" arg obtain xs where "c = CArray xs" "dec_times tags f n ds = Some (xs, r)"
        by (auto simp: dec.simps(3))
      with IH(1) [OF _ arg] 2 show ?thesis by auto
    next
      case 3
      with "3.prems" arg obtain xs where "c = CMap (pairs xs)" "distinct (map fst (pairs xs))"
          "dec_times tags f (2 * n) ds = Some (xs, r)"
        by (auto simp: dec.simps(3) split: option.splits if_splits)
      with IH(2) [OF _ arg] 3 show ?thesis by (auto dest: set_pairs)
    next
      case 4
      with False "3.prems" arg obtain x where "c = CTag n x" "n \<in> set tags" "dec tags f ds = Some (x, r)"
        by (auto simp: dec.simps(3) split: if_splits)
      with IH(3) [OF _ arg] 4 False show ?thesis by auto
    qed
  qed
next
  case (5 tags f n bs)
  then show ?case by (fastforce split: option.splits)
qed auto

lemma text_keys_subset:
  "s \<in> set (text_keys (map (\<lambda>(k, v). (of_cbor k, of_cbor v)) kvs)) \<Longrightarrow> CText s \<in> fst ` set kvs"
proof (induction kvs)
  case (Cons kv kvs)
  then show ?case by (cases kv; cases "fst kv") auto
qed simp

lemma text_keys_of_cbor:
  "distinct (map fst kvs) \<Longrightarrow> distinct (text_keys (map (\<lambda>(k, v). (of_cbor k, of_cbor v)) kvs))"
proof (induction kvs)
  case (Cons kv kvs)
  with text_keys_subset show ?case by (cases kv; cases "fst kv") auto
qed simp

lemma distinct_maps_decoded: "distinct_maps c \<Longrightarrow> decoded (of_cbor c)"
proof (induction c)
  case (CMap kvs)
  then show ?case using text_keys_of_cbor by fastforce
qed auto

interpretation reference: cbor_library reference_cborg
proof
  show "encodeCbor reference_cborg v = rfc8949 v" for v
    by (simp add: reference_cborg_def)
  show "decodeCbor reference_cborg tags (enc c) = Some (of_cbor c)"
    if "fits l tags d c" "ordered c" for l tags d c
    using rfc8949_decode_enc [OF that] by (simp add: reference_cborg_def)
  show "decoded v" if "decodeCbor reference_cborg tags bs = Some v" for tags bs v
    using that by (auto simp: reference_cborg_def rfc8949_decode_def
        intro!: distinct_maps_decoded intro: dec_distinct_maps(1) split: option.splits list.splits)
qed

text \<open>
  C1. Decoding inverts deterministic encoding: whatever the CBOR library, if it behaves as
  documented, then for every Hail value with distinct member names that
  \<open>encodeDeterministic\<close> encodes under some limits, \<open>decodeDeterministic\<close> under the same limits
  passes the resource scan, the value check and the re-encoding comparison and returns the same
  value. Only the enumeration order of object members may differ.
\<close>

theorem decode_encode_deterministic:
  assumes "cbor_library lib" and "unique_keys h" and "maximumBytes l \<le> MAX_SAFE_INTEGER"
    and "encodeDeterministic lib l (of_hail h) = Inr bs"
  shows "decodeDeterministic lib l bs = Inr (canonical h) \<and> same_value h (canonical h)"
  using assms by (rule cbor_library.decode_of_encode)

definition example_value :: hail_value where
  "example_value = HMap [(lit ''type'', HText (lit ''hail.grant'')), (lit ''7'', HArray [HInt (-300), HNull]),
     (lit ''a'', HBytes [1, 2, 255])]"

theorem decode_encode_deterministic_witness:
  "decodeDeterministic reference_cborg DEFAULT_HAIL_RESOURCE_LIMITS
     (rfc8949 (of_hail example_value)) = Inr (canonical example_value)"
proof -
  have "unique_keys example_value" by code_simp
  moreover have "maximumBytes DEFAULT_HAIL_RESOURCE_LIMITS \<le> MAX_SAFE_INTEGER" by code_simp
  moreover have "encodeDeterministic reference_cborg DEFAULT_HAIL_RESOURCE_LIMITS (of_hail example_value)
      = Inr (rfc8949 (of_hail example_value))" by code_simp
  ultimately show ?thesis
    using decode_encode_deterministic [OF reference.cbor_library_axioms] by blast
qed

text \<open>
  C2. The decoder is strict: if \<open>decodeDeterministic\<close> returns a value, then the input is exactly
  the deterministic encoding of that value, under the same limits. So a value has a unique
  accepted representation, and a digest of the bytes is a digest of the value.
\<close>

theorem decodeDeterministic_strict:
  assumes "cbor_library lib" and "decodeDeterministic lib l bs = Inr h"
  shows "encodeDeterministic lib l (of_hail h) = Inr bs \<and> unique_keys h"
  using assms by (rule cbor_library.encode_of_decode)

theorem decodeDeterministic_strict_witness:
  "encodeDeterministic reference_cborg DEFAULT_HAIL_RESOURCE_LIMITS
     (of_hail (HMap [(lit ''a'', HInt 1)])) = Inr [0xa1, 0x61, 0x61, 0x01]"
proof -
  have "decodeDeterministic reference_cborg DEFAULT_HAIL_RESOURCE_LIMITS [0xa1, 0x61, 0x61, 0x01]
      = Inr (HMap [(lit ''a'', HInt 1)])" by code_simp
  then show ?thesis
    using decodeDeterministic_strict [OF reference.cbor_library_axioms] by blast
qed

end
