(* ===== verification/Schema.thy ===== *)
theory Schema
  imports CborCodec
begin

text \<open>
  The helpers of \<^verbatim>\<open>packages/hail-codec-ts/src/validation.ts\<close> that every validator is built
  from. A member that may be absent is an optional value: \<open>None\<close> is \<open>undefined\<close>. Where the source
  binds the result of a check (\<open>const signer = did(payload.did, "$.did")\<close>) the model checks first
  and then reads the value with a total accessor (\<open>text_of\<close>, \<open>int_of\<close>, ...).

  Third-party and platform services are the fields of \<open>validation_env\<close>: SHA-256, IDNA processing
  (tr46), the public suffix list (tldts), Unicode normalisation and URL parsing.
\<close>

section \<open>Services\<close>

record parsed_domain =
  pd_domain :: "jstring option"
  isIcann :: bool
  isPrivate :: bool

record parsed_url =
  url_protocol :: jstring
  url_username :: jstring
  url_password :: jstring

record validation_env =
  sha256 :: "bytes \<Rightarrow> bytes"
  toUnicode_error :: "jstring \<Rightarrow> bool"
  toASCII :: "jstring \<Rightarrow> jstring option"
  parseDomain :: "jstring \<Rightarrow> parsed_domain"
  normalizeNFC :: "jstring \<Rightarrow> jstring"
  parseURL :: "jstring \<Rightarrow> parsed_url option"

section \<open>Reading members\<close>

fun members :: "hail_value \<Rightarrow> (jstring \<times> hail_value) list" where
  "members (HMap kvs) = kvs"
| "members _ = []"

definition get :: "hail_value \<Rightarrow> string \<Rightarrow> hail_value option" where
  "get h k = map_of (members h) (lit k)"

definition getf :: "hail_value option \<Rightarrow> string \<Rightarrow> hail_value option" where
  "getf v k = (case v of None \<Rightarrow> None | Some h \<Rightarrow> get h k)"

fun text_of :: "hail_value option \<Rightarrow> jstring" where
  "text_of (Some (HText s)) = s"
| "text_of _ = []"

fun int_of :: "hail_value option \<Rightarrow> int" where
  "int_of (Some (HInt i)) = i"
| "int_of _ = 0"

fun bytes_of :: "hail_value option \<Rightarrow> bytes" where
  "bytes_of (Some (HBytes bs)) = bs"
| "bytes_of _ = []"

fun bool_of :: "hail_value option \<Rightarrow> bool" where
  "bool_of (Some (HBool b)) = b"
| "bool_of _ = False"

fun list_of :: "hail_value option \<Rightarrow> hail_value list" where
  "list_of (Some (HArray xs)) = xs"
| "list_of _ = []"

abbreviation txt_lit :: "string \<Rightarrow> hail_value option" where
  "txt_lit s \<equiv> Some (HText (lit s))"

abbreviation int_lit :: "int \<Rightarrow> hail_value option" where
  "int_lit i \<equiv> Some (HInt i)"

section \<open>Checks\<close>

abbreviation schema :: "path \<Rightarrow> HailCodecError" where
  "schema p \<equiv> HailCodecError SchemaViolation (Some p)"

definition fail_when :: "bool \<Rightarrow> path \<Rightarrow> unit result" where
  "fail_when b p = fail_if b (schema p)"

definition at :: "string \<Rightarrow> path" where
  "at k = [Member (lit k)]"

definition sub_lit :: "path \<Rightarrow> string \<Rightarrow> path" where
  "sub_lit p k = sub p (lit k)"

definition is_map :: "hail_value option \<Rightarrow> bool" where
  "is_map v \<longleftrightarrow> (case v of Some (HMap _) \<Rightarrow> True | _ \<Rightarrow> False)"

definition check_record :: "hail_value option \<Rightarrow> path \<Rightarrow> unit result" where
  "check_record v p = fail_when (\<not> is_map v) p"

definition exactKeys :: "hail_value option \<Rightarrow> string list \<Rightarrow> string list \<Rightarrow> path \<Rightarrow> unit result" where
  "exactKeys v required optional p =
     (let own = map fst (case v of None \<Rightarrow> [] | Some h \<Rightarrow> members h) in
      first_error (
        map (\<lambda>key. fail_when (key \<notin> set (map lit (required @ optional))) (sub p key)) own @
        map (\<lambda>key. fail_when (lit key \<notin> set own) (sub_lit p key)) required))"

definition check_text :: "hail_value option \<Rightarrow> path \<Rightarrow> unit result" where
  "check_text v p = fail_when (case v of Some (HText _) \<Rightarrow> False | _ \<Rightarrow> True) p"

definition check_integer :: "hail_value option \<Rightarrow> path \<Rightarrow> int \<Rightarrow> unit result" where
  "check_integer v p minimum = fail_when (case v of
     Some (HInt i) \<Rightarrow> i < HAIL_MIN_INTEGER \<or> HAIL_MAX_INTEGER < i \<or> i < minimum | _ \<Rightarrow> True) p"

definition check_boolean :: "hail_value option \<Rightarrow> path \<Rightarrow> unit result" where
  "check_boolean v p = fail_when (case v of Some (HBool _) \<Rightarrow> False | _ \<Rightarrow> True) p"

definition check_bytes :: "hail_value option \<Rightarrow> nat \<Rightarrow> path \<Rightarrow> unit result" where
  "check_bytes v len p = fail_when (case v of Some (HBytes bs) \<Rightarrow> length bs \<noteq> len | _ \<Rightarrow> True) p"

definition check_array :: "hail_value option \<Rightarrow> path \<Rightarrow> unit result" where
  "check_array v p = fail_when (case v of Some (HArray _) \<Rightarrow> False | _ \<Rightarrow> True) p"

definition check_pattern :: "(jstring \<Rightarrow> bool) \<Rightarrow> hail_value option \<Rightarrow> path \<Rightarrow> unit result" where
  "check_pattern pat v p = first_error [check_text v p, fail_when (\<not> pat (text_of v)) p]"

definition check_did :: "hail_value option \<Rightarrow> path \<Rightarrow> unit result" where
  "check_did = check_pattern DID_PATTERN"

definition check_uuid :: "hail_value option \<Rightarrow> path \<Rightarrow> unit result" where
  "check_uuid = check_pattern UUID_V7_PATTERN"

definition check_category :: "hail_value option \<Rightarrow> path \<Rightarrow> unit result" where
  "check_category = check_pattern CATEGORY_PATTERN"

text \<open>
  \<open>lastIndexOf("@")\<close> is -1 when there is none; \<open>slice(0, -1)\<close> then drops the last code unit and
  \<open>slice(0)\<close> is the whole string.
\<close>

definition last_at :: "jstring \<Rightarrow> nat option" where
  "last_at s = (let r = dropWhile (\<lambda>c. c \<noteq> of_char CHR ''@'') (rev s) in
     if r = [] then None else Some (length r - 1))"

definition address_parts :: "jstring \<Rightarrow> jstring \<times> jstring" where
  "address_parts s = (case last_at s of
     None \<Rightarrow> (butlast s, s)
   | Some i \<Rightarrow> (take i s, drop (i + 1) s))"

definition hailAddress :: "validation_env \<Rightarrow> hail_value option \<Rightarrow> path \<Rightarrow> unit result" where
  "hailAddress env v p =
     (let address = text_of v; (local, domain) = address_parts address in
      first_error [
        check_text v p,
        fail_when (254 < length address \<or> 63 < length local \<or> \<not> LOCAL_PART_PATTERN local
          \<or> domain = [] \<or> 253 < length domain \<or> of_char CHR ''.'' \<notin> set domain
          \<or> domain \<noteq> ascii_lower domain
          \<or> \<not> list_all DOMAIN_LABEL_PATTERN (split_on (of_char CHR ''.'') domain)) p,
        fail_when (toUnicode_error env domain \<or> toASCII env domain = None) p,
        fail_when (toASCII env domain \<noteq> Some domain) p,
        fail_when (pd_domain (parseDomain env domain) = None
          \<or> \<not> isIcann (parseDomain env domain) \<and> \<not> isPrivate (parseDomain env domain)) p])"

definition profileText :: "validation_env \<Rightarrow> hail_value option \<Rightarrow> nat \<Rightarrow> nat \<Rightarrow> path \<Rightarrow> unit result" where
  "profileText env v minimum maximum p =
     (let result = text_of v; size = utf8_length result in
      first_error [
        check_text v p,
        fail_when (size < minimum \<or> maximum < size \<or> normalizeNFC env result \<noteq> result
          \<or> CONTROL_OR_FORMAT result) p])"

definition check_digest :: "hail_value option \<Rightarrow> path \<Rightarrow> unit result" where
  "check_digest v p = first_error [
     check_record v p,
     exactKeys v [''algorithm'', ''value''] [] p,
     check_text (getf v ''algorithm'') (sub_lit p ''algorithm''),
     fail_when (getf v ''algorithm'' \<noteq> txt_lit ''sha-256'') (sub_lit p ''algorithm''),
     check_bytes (getf v ''value'') 32 (sub_lit p ''value'')]"

text \<open>Run a check only when a condition holds, and over the elements of an array.\<close>

definition only_if :: "bool \<Rightarrow> unit result \<Rightarrow> unit result" where
  "only_if b c = (if b then c else Inr ())"

definition for_each :: "hail_value option \<Rightarrow> (nat \<Rightarrow> hail_value \<Rightarrow> unit result) \<Rightarrow> unit result" where
  "for_each v f = first_error (each_indexed f 0 (list_of v))"

text \<open>Ascending traversal: each element passes \<open>f\<close> and its key is above the previous one.\<close>

fun ascending_check :: "(nat \<Rightarrow> hail_value \<Rightarrow> unit result) \<Rightarrow> (hail_value \<Rightarrow> jstring) \<Rightarrow> (nat \<Rightarrow> path) \<Rightarrow>
    (nat \<Rightarrow> hail_value \<Rightarrow> unit result) \<Rightarrow> nat \<Rightarrow> jstring \<Rightarrow> hail_value list \<Rightarrow> unit result" where
  "ascending_check f key p g i previous [] = Inr ()"
| "ascending_check f key p g i previous (x # xs) =
     first_error [
       f i x,
       fail_when (\<not> previous < key x) (p i),
       g i x,
       ascending_check f key p g (Suc i) (key x) xs]"

section \<open>Lemmas\<close>

lemma fail_when_Inr [simp, check_simps]: "fail_when b p = Inr u \<longleftrightarrow> \<not> b"
  by (simp add: fail_when_def)

lemma only_if_Inr [simp, check_simps]: "only_if b c = Inr u \<longleftrightarrow> (b \<longrightarrow> c = Inr ())"
  by (simp add: only_if_def)

lemma check_record_Inr [simp, check_simps]: "check_record v p = Inr u \<longleftrightarrow> (\<exists>kvs. v = Some (HMap kvs))"
  by (auto simp: check_record_def is_map_def split: option.splits hail_value.splits)

lemma check_text_Inr [simp, check_simps]: "check_text v p = Inr u \<longleftrightarrow> (\<exists>s. v = Some (HText s))"
  by (auto simp: check_text_def split: option.splits hail_value.splits)

lemma check_integer_Inr [simp, check_simps]: "check_integer v p m = Inr u \<longleftrightarrow>
    (\<exists>i. v = Some (HInt i) \<and> HAIL_MIN_INTEGER \<le> i \<and> i \<le> HAIL_MAX_INTEGER \<and> m \<le> i)"
  by (auto simp: check_integer_def split: option.splits hail_value.splits)

lemma check_boolean_Inr [simp, check_simps]: "check_boolean v p = Inr u \<longleftrightarrow> (\<exists>b. v = Some (HBool b))"
  by (auto simp: check_boolean_def split: option.splits hail_value.splits)

lemma check_bytes_Inr [simp, check_simps]:
  "check_bytes v n p = Inr u \<longleftrightarrow> (\<exists>bs. v = Some (HBytes bs) \<and> length bs = n)"
  by (auto simp: check_bytes_def split: option.splits hail_value.splits)

lemma check_array_Inr [simp, check_simps]: "check_array v p = Inr u \<longleftrightarrow> (\<exists>xs. v = Some (HArray xs))"
  by (auto simp: check_array_def split: option.splits hail_value.splits)

lemma check_pattern_Inr [simp, check_simps]:
  "check_pattern pat v p = Inr u \<longleftrightarrow> (\<exists>s. v = Some (HText s) \<and> pat s)"
  by (auto simp: check_pattern_def)

lemma check_did_Inr [simp, check_simps]: "check_did v p = Inr u \<longleftrightarrow> (\<exists>s. v = Some (HText s) \<and> DID_PATTERN s)"
  by (simp add: check_did_def)

lemma check_uuid_Inr [simp, check_simps]:
  "check_uuid v p = Inr u \<longleftrightarrow> (\<exists>s. v = Some (HText s) \<and> UUID_V7_PATTERN s)"
  by (simp add: check_uuid_def)

lemma check_category_Inr [simp, check_simps]:
  "check_category v p = Inr u \<longleftrightarrow> (\<exists>s. v = Some (HText s) \<and> CATEGORY_PATTERN s)"
  by (simp add: check_category_def)

lemma getf_Some [simp]: "getf (Some h) k = get h k" "getf None k = None"
  by (simp_all add: getf_def)

lemma get_HMap: "get (HMap kvs) k = map_of kvs (lit k)"
  by (simp add: get_def)

lemma exactKeys_Inr [simp, check_simps]:
  "exactKeys (Some (HMap kvs)) req opt p = Inr u \<longleftrightarrow>
     fst ` set kvs \<subseteq> lit ` set (req @ opt) \<and> lit ` set req \<subseteq> fst ` set kvs"
  by (simp add: exactKeys_def Let_def ball_Un image_subset_iff o_def) blast

end
