(* ===== verification/Assets.thy ===== *)
theory Assets
  imports Schema
begin

text \<open>
  The image checks of \<^verbatim>\<open>packages/hail-codec-ts/src/validation.ts\<close>: \<open>validatePngStructure\<close>
  walks the chunks of a PNG file with a CRC-32 per chunk, \<open>validateAssetManifest\<close> checks a list
  of bundled images against it.
\<close>

unbundle bit_operations_syntax

section \<open>PNG structure\<close>

definition png_signature :: bytes where
  "png_signature = [137, 80, 78, 71, 13, 10, 26, 10]"

definition crc_step :: "32 word \<Rightarrow> 32 word" where
  "crc_step crc = drop_bit 1 crc XOR (if crc AND 1 \<noteq> 0 then 0xedb88320 else 0)"

definition crc_byte :: "32 word \<Rightarrow> byte \<Rightarrow> 32 word" where
  "crc_byte crc b = (crc_step ^^ 8) (crc XOR ucast b)"

definition crc32 :: "bytes \<Rightarrow> 32 word" where
  "crc32 bs = foldl crc_byte 0xffffffff bs XOR 0xffffffff"

definition getUint32 :: "bytes \<Rightarrow> nat \<Rightarrow> nat" where
  "getUint32 data offset = big_endian (take 4 (drop offset data))"

record png_state =
  width :: nat
  height :: nat
  sawHeader :: bool
  sawData :: bool
  sawEnd :: bool
  sawPalette :: bool
  dataEnded :: bool

definition png_start :: png_state where
  "png_start = \<lparr>width = 0, height = 0, sawHeader = False, sawData = False, sawEnd = False,
     sawPalette = False, dataEnded = False\<rparr>"

definition ascii_bytes :: "string \<Rightarrow> bytes" where
  "ascii_bytes s = map of_char s"

definition valid_depths :: "byte \<Rightarrow> byte list" where
  "valid_depths color =
     (if color = 0 then [1, 2, 4, 8, 16] else if color = 2 then [8, 16]
      else if color = 3 then [1, 2, 4, 8] else if color = 4 then [8, 16]
      else if color = 6 then [8, 16] else [])"

text \<open>
  One chunk of \<open>len\<close> data bytes at \<open>offset\<close>: the new state, and whether the loop ends. The size of
  the chunk has been checked against the data.
\<close>

definition png_chunk :: "bytes \<Rightarrow> path \<Rightarrow> png_state \<Rightarrow> nat \<Rightarrow> nat \<Rightarrow> (png_state \<times> bool) result" where
  "png_chunk data p st offset len =
     (let finish = offset + 12 + len; ty = take 4 (drop (offset + 4) data) in
      if word_of_nat (getUint32 data (offset + 8 + len)) \<noteq> crc32 (take (4 + len) (drop (offset + 4) data))
        then Inl (schema p)
      else if \<not> sawHeader st \<and> ty \<noteq> ascii_bytes ''IHDR'' then Inl (schema p)
      else if ty = ascii_bytes ''IHDR'' then
        if sawHeader st \<or> len \<noteq> 13 then Inl (schema p)
        else if data ! (offset + 16) \<notin> set (valid_depths (data ! (offset + 17)))
            \<or> data ! (offset + 18) \<noteq> 0 \<or> data ! (offset + 19) \<noteq> 0 \<or> data ! (offset + 20) \<notin> {0, 1}
          then Inl (schema p)
        else Inr (st\<lparr>sawHeader := True, width := getUint32 data (offset + 8),
          height := getUint32 data (offset + 12)\<rparr>, False)
      else if ty = ascii_bytes ''acTL'' then Inl (schema p)
      else if ty = ascii_bytes ''PLTE'' then
        if sawData st \<or> sawPalette st \<or> len = 0 \<or> len mod 3 \<noteq> 0 \<or> 768 < len then Inl (schema p)
        else Inr (st\<lparr>sawPalette := True\<rparr>, False)
      else if ty = ascii_bytes ''IDAT'' then
        if dataEnded st then Inl (schema p) else Inr (st\<lparr>sawData := True\<rparr>, False)
      else if ty = ascii_bytes ''IEND'' then
        if len \<noteq> 0 \<or> finish \<noteq> length data then Inl (schema p) else Inr (st\<lparr>sawEnd := True\<rparr>, True)
      else
        let st = (if sawData st then st\<lparr>dataEnded := True\<rparr> else st) in
        if 65 \<le> ty ! 0 \<and> ty ! 0 \<le> 90 then Inl (schema p) else Inr (st, False))"

function png_loop :: "bytes \<Rightarrow> path \<Rightarrow> png_state \<Rightarrow> nat \<Rightarrow> png_state result" where
  "png_loop data p st offset =
     (if offset + 12 \<le> length data then
        let len = getUint32 data offset; finish = offset + 12 + len in
        if length data < finish then Inl (schema p)
        else and_then (png_chunk data p st offset len) (\<lambda>(st, stop).
          if stop then Inr st else png_loop data p st finish)
      else Inr st)"
  by pat_completeness auto
termination
  by (relation "measure (\<lambda>(data, p, st, offset). length data - offset)") auto

declare png_loop.simps [simp del]

definition validatePngStructure :: "bytes \<Rightarrow> path \<Rightarrow> (nat \<times> nat) result" where
  "validatePngStructure data p =
     (if length data < 45 \<or> take 8 data \<noteq> png_signature then Inl (schema p)
      else and_then (png_loop data p png_start 8) (\<lambda>st.
        let color = data ! 25 in
        if \<not> sawHeader st \<or> \<not> sawData st \<or> \<not> sawEnd st \<or> width st = 0 \<or> height st = 0
          \<or> color = 3 \<and> \<not> sawPalette st \<or> color \<in> {0, 4} \<and> sawPalette st
        then Inl (schema p)
        else Inr (width st, height st)))"

section \<open>Asset manifests\<close>

definition asset_id_pattern :: "jstring \<Rightarrow> bool" where
  "asset_id_pattern s \<longleftrightarrow> s \<noteq> [] \<and> length s \<le> 64 \<and> is_lower (hd s)
     \<and> list_all (\<lambda>c. is_alnum c \<or> one_of ''-'' c) (tl s)"

text \<open>\<open>actual.every((byte, index) => byte === expected[index])\<close>\<close>

definition every_byte_equal :: "bytes \<Rightarrow> bytes \<Rightarrow> bool" where
  "every_byte_equal actual expected \<longleftrightarrow>
     length actual \<le> length expected \<and> take (length actual) expected = actual"

record asset_bounds =
  max_bytes :: int
  max_width :: int
  max_height :: int
  max_pixels :: int

definition asset_maximum :: "jstring \<Rightarrow> asset_bounds" where
  "asset_maximum role =
     (if role = lit ''avatar''
      then \<lparr>max_bytes = 32768, max_width = 512, max_height = 512, max_pixels = 262144\<rparr>
      else \<lparr>max_bytes = 196608, max_width = 2400,
        max_height = (if role = lit ''image'' then 2400 else 1200), max_pixels = 2000000\<rparr>)"

definition asset_keys :: "string list" where
  "asset_keys = [''id'', ''role'', ''media_type'', ''loading'', ''size'', ''digest'', ''width'', ''height'', ''data'']"

definition check_asset ::
  "validation_env \<Rightarrow> jstring list \<Rightarrow> jstring list \<Rightarrow> path \<Rightarrow> hail_value \<Rightarrow> unit result" where
  "check_asset env ids roles p asset =
     (let id = text_of (get asset ''id''); role = text_of (get asset ''role'');
          data = bytes_of (get asset ''data''); maximum = asset_maximum role;
          size = int_of (get asset ''size'');
          w = int_of (get asset ''width''); h = int_of (get asset ''height'') in
      first_error [
        check_record (Some asset) p,
        exactKeys (Some asset) asset_keys [] p,
        check_text (get asset ''id'') (sub_lit p ''id''),
        check_text (get asset ''role'') (sub_lit p ''role''),
        fail_when (\<not> asset_id_pattern id \<or> id \<in> set ids) (sub_lit p ''id''),
        fail_when (role \<notin> set (map lit [''avatar'', ''header'', ''image''])
          \<or> role \<noteq> lit ''image'' \<and> role \<in> set roles) (sub_lit p ''role''),
        fail_when (get asset ''media_type'' \<noteq> txt_lit ''image/png'') (sub_lit p ''media_type''),
        fail_when (get asset ''loading'' \<noteq> txt_lit ''bundled'') (sub_lit p ''loading''),
        fail_when (case get asset ''data'' of Some (HBytes _) \<Rightarrow> False | _ \<Rightarrow> True) (sub_lit p ''data''),
        check_integer (get asset ''size'') (sub_lit p ''size'') 1,
        fail_when (size \<noteq> int (length data) \<or> max_bytes maximum < size) (sub_lit p ''size''),
        check_digest (get asset ''digest'') (sub_lit p ''digest''),
        fail_when (\<not> every_byte_equal (sha256 env data) (bytes_of (getf (get asset ''digest'') ''value'')))
          (sub_lit (sub_lit p ''digest'') ''value''),
        and_then (validatePngStructure data (sub_lit p ''data'')) (\<lambda>(pw, ph).
          first_error [
            check_integer (get asset ''width'') (sub_lit p ''width'') 1,
            check_integer (get asset ''height'') (sub_lit p ''height'') 1,
            fail_when (w \<noteq> int pw \<or> h \<noteq> int ph \<or> max_width maximum < w \<or> max_height maximum < h
              \<or> max_pixels maximum < w * h) (sub_lit p ''width'')])])"

fun check_assets ::
  "validation_env \<Rightarrow> jstring list \<Rightarrow> jstring list \<Rightarrow> nat \<Rightarrow> hail_value list \<Rightarrow> unit result" where
  "check_assets env ids roles index [] = Inr ()"
| "check_assets env ids roles index (asset # assets) =
     and_then (check_asset env ids roles (subi (at ''assets'') index) asset) (\<lambda>_.
       check_assets env (text_of (get asset ''id'') # ids) (text_of (get asset ''role'') # roles)
         (Suc index) assets)"

definition assert_field :: "hail_value option \<Rightarrow> unit result" where
  "assert_field v = (case v of
     None \<Rightarrow> throw_at InvalidValue []
   | Some h \<Rightarrow> assertHailValue DEFAULT_HAIL_RESOURCE_LIMITS (of_hail h))"

definition validateAssetManifest :: "validation_env \<Rightarrow> hail_value option \<Rightarrow> unit result" where
  "validateAssetManifest env v =
     first_error [
       assert_field v,
       check_record v [],
       exactKeys v [''version'', ''assets''] [] [],
       fail_when (getf v ''version'' \<noteq> int_lit 1) (at ''version''),
       check_array (getf v ''assets'') (at ''assets''),
       fail_when (list_of (getf v ''assets'') = [] \<or> 8 < length (list_of (getf v ''assets''))) (at ''assets''),
       check_assets env [] [] 0 (list_of (getf v ''assets''))]"

end
