(* ===== verification/Bodies.thy ===== *)
theory Bodies
  imports Assets
begin

text \<open>
  Message bodies in \<^verbatim>\<open>packages/hail-codec-ts/src/validation.ts\<close>: the attachment list and the
  three text profiles \<open>spt-1\<close>, \<open>spt-2\<close> and \<open>spt-3\<close>.
\<close>

section \<open>Attachments\<close>

definition ends_with :: "string \<Rightarrow> jstring \<Rightarrow> bool" where
  "ends_with suffix s \<longleftrightarrow> length suffix \<le> length s
     \<and> ascii_lower (drop (length s - length suffix) s) = lit suffix"

definition line_terminator :: "code_unit \<Rightarrow> bool" where
  "line_terminator c \<longleftrightarrow> c = 10 \<or> c = 13 \<or> c = 0x2028 \<or> c = 0x2029"

definition forbidden_filename_unit :: "code_unit \<Rightarrow> bool" where
  "forbidden_filename_unit c \<longleftrightarrow> c = 92 \<or> c = 47 \<or> c \<le> 0x1f \<or> c = 0x7f"

definition attachment_suffixes :: "string list" where
  "attachment_suffixes = [''.pdf'', ''.txt'', ''.log'', ''.png'', ''.jpg'', ''.jpeg'', ''.webp'']"

text \<open>\<open>/^[^.].*\.(pdf|txt|log|png|jpg|jpeg|webp)$/i\<close>\<close>

definition filename_pattern :: "jstring \<Rightarrow> bool" where
  "filename_pattern s \<longleftrightarrow> list_ex (\<lambda>suffix. ends_with suffix s \<and>
     (let stem = take (length s - length suffix) s in
      stem \<noteq> [] \<and> hd stem \<noteq> of_char CHR ''.'' \<and> list_all (\<lambda>c. \<not> line_terminator c) (tl stem)))
     attachment_suffixes"

definition attachment_media_type :: "jstring \<Rightarrow> string" where
  "attachment_media_type name =
     (if ends_with ''.pdf'' name then ''application/pdf''
      else if ends_with ''.png'' name then ''image/png''
      else if ends_with ''.jpg'' name \<or> ends_with ''.jpeg'' name then ''image/jpeg''
      else if ends_with ''.webp'' name then ''image/webp''
      else ''text/plain'')"

definition check_attachment :: "validation_env \<Rightarrow> nat \<Rightarrow> hail_value \<Rightarrow> unit result" where
  "check_attachment env i a =
     (let p = subi (at ''attachments'') i; name = text_of (get a ''filename'') in
      first_error [
        check_record (Some a) p,
        exactKeys (Some a) [''filename'', ''media_type'', ''size'', ''digest''] [] p,
        check_text (get a ''filename'') (sub_lit p ''filename''),
        fail_when (normalizeNFC env name \<noteq> name \<or> 255 < utf8_length name
          \<or> list_ex forbidden_filename_unit name \<or> \<not> filename_pattern name) p,
        fail_when (get a ''media_type'' \<noteq> txt_lit (attachment_media_type name)) p,
        check_integer (get a ''size'') (sub_lit p ''size'') 1,
        check_record (get a ''digest'') (sub_lit p ''digest''),
        exactKeys (get a ''digest'') [''algorithm'', ''value''] [] (sub_lit p ''digest''),
        fail_when (getf (get a ''digest'') ''algorithm'' \<noteq> txt_lit ''sha-256''
          \<or> (case getf (get a ''digest'') ''value'' of Some (HBytes bs) \<Rightarrow> length bs \<noteq> 32 | _ \<Rightarrow> True)) p])"

definition attachments_total :: "hail_value option \<Rightarrow> int" where
  "attachments_total v = sum_list (map (\<lambda>a. int_of (get a ''size'')) (list_of v))"

definition validateAttachments :: "validation_env \<Rightarrow> hail_value option \<Rightarrow> unit result" where
  "validateAttachments env v = first_error [
     check_array v (at ''attachments''),
     fail_when (list_of v = [] \<or> 20 < length (list_of v)) (at ''attachments''),
     for_each v (check_attachment env),
     fail_when (25 * 1024 * 1024 < attachments_total v) (at ''attachments'')]"

section \<open>Profile spt-1\<close>

definition check_spt1_span :: "path \<Rightarrow> nat \<Rightarrow> hail_value \<Rightarrow> unit result" where
  "check_spt1_span p i span =
     (let p = subi (sub_lit p ''children'') i in first_error [
        check_record (Some span) p,
        exactKeys (Some span) [''_type'', ''text'', ''marks''] [] p,
        fail_when (get span ''_type'' \<noteq> txt_lit ''span'') (sub_lit p ''_type''),
        check_text (get span ''text'') (sub_lit p ''text''),
        check_array (get span ''marks'') (sub_lit p ''marks''),
        fail_when (list_of (get span ''marks'') \<noteq> []) (sub_lit p ''marks'')])"

definition check_spt1_block :: "nat \<Rightarrow> hail_value \<Rightarrow> unit result" where
  "check_spt1_block i block =
     (let p = subi (at ''blocks'') i in first_error [
        check_record (Some block) p,
        exactKeys (Some block) [''_type'', ''style'', ''children'', ''markDefs''] [] p,
        fail_when (get block ''_type'' \<noteq> txt_lit ''block'' \<or> get block ''style'' \<noteq> txt_lit ''normal'') p,
        check_array (get block ''markDefs'') (sub_lit p ''markDefs''),
        fail_when (list_of (get block ''markDefs'') \<noteq> []) (sub_lit p ''markDefs''),
        check_array (get block ''children'') (sub_lit p ''children''),
        fail_when (list_of (get block ''children'') = []) (sub_lit p ''children''),
        for_each (get block ''children'') (check_spt1_span p)])"

definition validateSpt1Body :: "validation_env \<Rightarrow> hail_value \<Rightarrow> unit result" where
  "validateSpt1Body env payload = first_error [
     exactKeys (Some payload) [''version'', ''profile'', ''blocks''] [''attachments''] [],
     only_if (get payload ''attachments'' \<noteq> None) (validateAttachments env (get payload ''attachments'')),
     fail_when (get payload ''version'' \<noteq> int_lit 1) (at ''version''),
     fail_when (get payload ''profile'' \<noteq> txt_lit ''spt-1'') (at ''profile''),
     check_array (get payload ''blocks'') (at ''blocks''),
     for_each (get payload ''blocks'') check_spt1_block]"

section \<open>Profile spt-2\<close>

definition text_in :: "hail_value option \<Rightarrow> string list \<Rightarrow> bool" where
  "text_in v options \<longleftrightarrow> v \<in> set (map (\<lambda>s. txt_lit s) options)"

definition decorators :: "jstring list" where
  "decorators = map lit [''strong'', ''em'', ''code'']"

definition mark_key_pattern :: "jstring \<Rightarrow> bool" where
  "mark_key_pattern s \<longleftrightarrow> s \<noteq> [] \<and> length s \<le> 64 \<and> list_all is_base64url s"

definition starts_with :: "string \<Rightarrow> jstring \<Rightarrow> bool" where
  "starts_with prefix s \<longleftrightarrow> take (length prefix) s = lit prefix"

definition check_mark_def :: "validation_env \<Rightarrow> jstring list \<Rightarrow> path \<Rightarrow> hail_value \<Rightarrow> unit result" where
  "check_mark_def env definitionKeys p df =
     (let key = text_of (get df ''_key''); href = text_of (get df ''href'') in
      first_error [
        check_record (Some df) p,
        exactKeys (Some df) [''_key'', ''_type'', ''href''] [''title''] p,
        check_text (get df ''_key'') (sub_lit p ''_key''),
        fail_when (\<not> mark_key_pattern key \<or> key \<in> set decorators \<or> key \<in> set definitionKeys) (sub_lit p ''_key''),
        fail_when (get df ''_type'' \<noteq> txt_lit ''spt.link'') (sub_lit p ''_type''),
        check_text (get df ''href'') (sub_lit p ''href''),
        (case parseURL env href of
           None \<Rightarrow> Inl (schema (sub_lit p ''href''))
         | Some url \<Rightarrow> fail_when (\<not> starts_with ''https://'' href \<or> url_protocol url \<noteq> lit ''https:''
             \<or> url_username url \<noteq> [] \<or> url_password url \<noteq> []) (sub_lit p ''href'')),
        only_if (get df ''title'' \<noteq> None) (check_text (get df ''title'') (sub_lit p ''title''))])"

fun check_mark_defs ::
  "validation_env \<Rightarrow> jstring list \<Rightarrow> path \<Rightarrow> nat \<Rightarrow> hail_value list \<Rightarrow> unit result" where
  "check_mark_defs env definitionKeys p i [] = Inr ()"
| "check_mark_defs env definitionKeys p i (df # defs) =
     and_then (check_mark_def env definitionKeys (subi p i) df) (\<lambda>_.
       check_mark_defs env (text_of (get df ''_key'') # definitionKeys) p (Suc i) defs)"

definition mark_keys :: "hail_value option \<Rightarrow> jstring list" where
  "mark_keys v = map (\<lambda>df. text_of (get df ''_key'')) (list_of v)"

definition check_span :: "jstring list \<Rightarrow> path \<Rightarrow> nat \<Rightarrow> hail_value \<Rightarrow> unit result" where
  "check_span definitionKeys p i span =
     (let p = subi (sub_lit p ''children'') i;
          marks = map (\<lambda>m. text_of (Some m)) (list_of (get span ''marks'')) in
      first_error [
        check_record (Some span) p,
        exactKeys (Some span) [''_type'', ''text'', ''marks''] [] p,
        fail_when (get span ''_type'' \<noteq> txt_lit ''span'') (sub_lit p ''_type''),
        check_text (get span ''text'') (sub_lit p ''text''),
        check_array (get span ''marks'') (sub_lit p ''marks''),
        for_each (get span ''marks'') (\<lambda>j m. check_text (Some m) (subi (sub_lit p ''marks'') j)),
        fail_when (\<not> distinct marks
          \<or> list_ex (\<lambda>m. m \<notin> set decorators \<and> m \<notin> set definitionKeys) marks
          \<or> 1 < length (filter (\<lambda>m. m \<in> set definitionKeys) marks)) (sub_lit p ''marks'')])"

definition cta_blank :: "code_unit \<Rightarrow> bool" where
  "cta_blank c \<longleftrightarrow> c = 32 \<or> c = 9 \<or> c = 13 \<or> c = 10"

definition check_cta :: "path \<Rightarrow> hail_value \<Rightarrow> unit result" where
  "check_cta p block =
     (let defs = list_of (get block ''markDefs''); children = list_of (get block ''children'');
          key = get (hd defs) ''_key'';
          label = concat (map (\<lambda>c. text_of (get c ''text'')) children) in
      first_error [
        fail_when (get block ''listItem'' \<noteq> None \<or> get block ''level'' \<noteq> None \<or> length defs \<noteq> 1) p,
        fail_when (filter (\<lambda>c. \<not> cta_blank c) label = [] \<or> list_ex (\<lambda>c. c = 13 \<or> c = 10) label
          \<or> 128 < utf8_length label) p,
        fail_when (list_ex (\<lambda>c. map Some (list_of (get c ''marks'')) \<noteq> [key]) children) p,
        fail_when (2048 < utf8_length (text_of (get (hd defs) ''href''))) p])"

definition check_block :: "validation_env \<Rightarrow> nat \<Rightarrow> hail_value \<Rightarrow> unit result" where
  "check_block env i block =
     (let p = subi (at ''blocks'') i in first_error [
        check_record (Some block) p,
        exactKeys (Some block) [''_type'', ''style'', ''children'', ''markDefs'']
          [''listItem'', ''level'', ''alignment''] p,
        fail_when (get block ''_type'' \<noteq> txt_lit ''block'' \<or> \<not> text_in (get block ''style'')
          [''normal'', ''h1'', ''h2'', ''h3'', ''blockquote'', ''caption'', ''cta'']) p,
        fail_when (get block ''alignment'' \<noteq> None
          \<and> \<not> text_in (get block ''alignment'') [''left'', ''center'', ''right'']) (sub_lit p ''alignment''),
        fail_when (get block ''listItem'' \<noteq> None
          \<and> \<not> text_in (get block ''listItem'') [''bullet'', ''number'']) (sub_lit p ''listItem''),
        only_if (get block ''level'' \<noteq> None) (first_error [
          fail_when (get block ''listItem'' = None) (sub_lit p ''level''),
          check_integer (get block ''level'') (sub_lit p ''level'') 1,
          fail_when (int_of (get block ''level'') \<notin> {1, 2, 3}) (sub_lit p ''level'')]),
        check_array (get block ''markDefs'') (sub_lit p ''markDefs''),
        check_mark_defs env [] (sub_lit p ''markDefs'') 0 (list_of (get block ''markDefs'')),
        check_array (get block ''children'') (sub_lit p ''children''),
        fail_when (list_of (get block ''children'') = []) (sub_lit p ''children''),
        for_each (get block ''children'') (check_span (mark_keys (get block ''markDefs'')) p),
        only_if (get block ''style'' = txt_lit ''cta'') (check_cta p block)])"

definition validateSpt2Body :: "validation_env \<Rightarrow> hail_value \<Rightarrow> unit result" where
  "validateSpt2Body env payload = first_error [
     exactKeys (Some payload) [''version'', ''profile'', ''blocks''] [''attachments''] [],
     only_if (get payload ''attachments'' \<noteq> None) (validateAttachments env (get payload ''attachments'')),
     fail_when (get payload ''version'' \<noteq> int_lit 1) (at ''version''),
     fail_when (get payload ''profile'' \<noteq> txt_lit ''spt-2'') (at ''profile''),
     check_array (get payload ''blocks'') (at ''blocks''),
     for_each (get payload ''blocks'') (check_block env)]"

section \<open>Profile spt-3\<close>

definition is_image_block :: "hail_value \<Rightarrow> bool" where
  "is_image_block block \<longleftrightarrow> get block ''_type'' = txt_lit ''spt.image''"

definition find_asset :: "hail_value list \<Rightarrow> jstring \<Rightarrow> hail_value option" where
  "find_asset assets aid = find (\<lambda>a. get a ''id'' = Some (HText aid)) assets"

record image_count =
  imageCount :: nat
  used :: "jstring list"
  pixels :: int
  textBlocks :: "hail_value list"

definition check_image_block ::
  "validation_env \<Rightarrow> hail_value list \<Rightarrow> nat \<Rightarrow> hail_value \<Rightarrow> unit result" where
  "check_image_block env assets i block =
     (let p = subi (at ''blocks'') i; aid = text_of (get block ''asset'') in first_error [
        exactKeys (Some block) [''_type'', ''asset'', ''alt''] [''caption''] p,
        check_text (get block ''asset'') (sub_lit p ''asset''),
        (case find_asset assets aid of
           None \<Rightarrow> Inl (schema (sub_lit p ''asset''))
         | Some asset \<Rightarrow> fail_when (get asset ''role'' = txt_lit ''header'' \<and> i \<noteq> 0) (sub_lit p ''asset'')),
        profileText env (get block ''alt'') 1 1024 (sub_lit p ''alt''),
        only_if (get block ''caption'' \<noteq> None)
          (profileText env (get block ''caption'') 1 1024 (sub_lit p ''caption''))])"

fun scan_images ::
  "validation_env \<Rightarrow> hail_value list \<Rightarrow> nat \<Rightarrow> image_count \<Rightarrow> hail_value list \<Rightarrow> image_count result" where
  "scan_images env assets i st [] = Inr st"
| "scan_images env assets i st (block # blocks) =
     (let p = subi (at ''blocks'') i in
      if \<not> is_map (Some block) then Inl (schema p)
      else if \<not> is_image_block block
        then scan_images env assets (Suc i) (st\<lparr>textBlocks := textBlocks st @ [block]\<rparr>) blocks
      else if 8 < imageCount st + 1 then Inl (schema p)
      else and_then (check_image_block env assets i block) (\<lambda>_.
        let aid = text_of (get block ''asset''); asset = the (find_asset assets aid) in
        scan_images env assets (Suc i)
          (st\<lparr>imageCount := imageCount st + 1, used := List.insert aid (used st),
             pixels := pixels st + int_of (get asset ''width'') * int_of (get asset ''height'')\<rparr>) blocks))"

definition validateSpt3Body :: "validation_env \<Rightarrow> hail_value \<Rightarrow> unit result" where
  "validateSpt3Body env payload =
     (let assets = list_of (getf (get payload ''assets'') ''assets'') in
      first_error [
        exactKeys (Some payload) [''version'', ''profile'', ''assets'', ''blocks''] [''attachments''] [],
        only_if (get payload ''attachments'' \<noteq> None) (validateAttachments env (get payload ''attachments'')),
        fail_when (get payload ''version'' \<noteq> int_lit 1) (at ''version''),
        fail_when (get payload ''profile'' \<noteq> txt_lit ''spt-3'') (at ''profile''),
        validateAssetManifest env (get payload ''assets''),
        fail_when (list_ex (\<lambda>a. \<not> text_in (get a ''role'') [''header'', ''image'']) assets) (at ''assets''),
        check_array (get payload ''blocks'') (at ''blocks''),
        and_then (scan_images env assets 0
            \<lparr>imageCount = 0, used = [], pixels = 0, textBlocks = []\<rparr> (list_of (get payload ''blocks'')))
          (\<lambda>st. first_error [
             fail_when (imageCount st = 0 \<or> length (used st) \<noteq> length assets) (at ''assets''),
             fail_when (8000000 < pixels st) (at ''blocks''),
             validateSpt2Body env (HMap [(lit ''version'', HInt 1), (lit ''profile'', HText (lit ''spt-2'')),
               (lit ''blocks'', HArray (textBlocks st))])])])"

end
