(* ===== verification/Profiles.thy ===== *)
theory Profiles
  imports Errors
begin

text \<open>
  The payload types of \<^verbatim>\<open>packages/hail-codec-ts/src/types.ts\<close> and the signing profiles of
  \<^verbatim>\<open>packages/hail-codec-ts/src/profiles.ts\<close>.
\<close>

datatype HailPayloadType =
    AddressBinding
  | SenderProfile
  | Grant
  | ConnectionInvitation
  | ConnectionConfirmation
  | ConnectionGrant
  | ConnectionControl
  | Conversation
  | ConversationRevival
  | Envelope
  | DeliveryStatus
  | BodySpt1
  | BodySpt2
  | BodySpt3

fun type_name :: "HailPayloadType \<Rightarrow> string" where
  "type_name AddressBinding = ''hail.address-binding''"
| "type_name SenderProfile = ''hail.sender-profile''"
| "type_name Grant = ''hail.grant''"
| "type_name ConnectionInvitation = ''hail.connection-invitation''"
| "type_name ConnectionConfirmation = ''hail.connection-confirmation''"
| "type_name ConnectionGrant = ''hail.connection-grant''"
| "type_name ConnectionControl = ''hail.connection-control''"
| "type_name Conversation = ''hail.conversation''"
| "type_name ConversationRevival = ''hail.conversation-revival''"
| "type_name Envelope = ''hail.envelope''"
| "type_name DeliveryStatus = ''hail.delivery-status''"
| "type_name BodySpt1 = ''hail.body.spt-1''"
| "type_name BodySpt2 = ''hail.body.spt-2''"
| "type_name BodySpt3 = ''hail.body.spt-3''"

definition signed_types :: "HailPayloadType list" where
  "signed_types = [AddressBinding, SenderProfile, Grant, ConnectionInvitation, ConnectionConfirmation,
     Envelope, ConnectionGrant, ConnectionControl, DeliveryStatus, Conversation, ConversationRevival]"

datatype HailKeyRole = HailIdentity | HailMessaging

fun role_name :: "HailKeyRole \<Rightarrow> string" where
  "role_name HailIdentity = ''hail-identity''"
| "role_name HailMessaging = ''hail-messaging''"

record HailSignedProfile =
  contentType :: string
  signerField :: string
  keyRole :: HailKeyRole
  maximumRepresentationBytes :: nat

definition COSE_SIGN1_TAG :: nat where "COSE_SIGN1_TAG = 18"
definition COSE_ALGORITHM_HEADER :: int where "COSE_ALGORITHM_HEADER = 1"
definition COSE_CONTENT_TYPE_HEADER :: int where "COSE_CONTENT_TYPE_HEADER = 3"
definition COSE_KEY_ID_HEADER :: int where "COSE_KEY_ID_HEADER = 4"
definition COSE_ED25519_ALGORITHM :: int where "COSE_ED25519_ALGORITHM = -19"

definition profile :: "string \<Rightarrow> string \<Rightarrow> HailKeyRole \<Rightarrow> nat \<Rightarrow> HailSignedProfile" where
  "profile c s r m = \<lparr>contentType = c, signerField = s, keyRole = r, maximumRepresentationBytes = m\<rparr>"

text \<open>\<open>None\<close> for the three body profiles, which are not signed.\<close>

fun SIGNED_PROFILES :: "HailPayloadType \<Rightarrow> HailSignedProfile option" where
  "SIGNED_PROFILES AddressBinding =
     Some (profile ''application/hail-address-binding+cbor'' ''did'' HailIdentity 16384)"
| "SIGNED_PROFILES SenderProfile =
     Some (profile ''application/hail-sender-profile+cbor'' ''did'' HailMessaging 65536)"
| "SIGNED_PROFILES Grant =
     Some (profile ''application/hail-grant+cbor'' ''grantor'' HailIdentity 262144)"
| "SIGNED_PROFILES ConnectionInvitation =
     Some (profile ''application/hail-connection-invitation+cbor'' ''from'' HailIdentity 16384)"
| "SIGNED_PROFILES ConnectionConfirmation =
     Some (profile ''application/hail-connection-confirmation+cbor'' ''from'' HailIdentity 16384)"
| "SIGNED_PROFILES Envelope =
     Some (profile ''application/hail-envelope+cbor'' ''from'' HailMessaging 16384)"
| "SIGNED_PROFILES ConnectionGrant =
     Some (profile ''application/hail-connection-grant+cbor'' ''grantor'' HailIdentity 16384)"
| "SIGNED_PROFILES ConnectionControl =
     Some (profile ''application/hail-connection-control+cbor'' ''from'' HailMessaging 16384)"
| "SIGNED_PROFILES DeliveryStatus =
     Some (profile ''application/hail-delivery-status+cbor'' ''from'' HailMessaging 16384)"
| "SIGNED_PROFILES Conversation =
     Some (profile ''application/hail-conversation+cbor'' ''from'' HailMessaging 16384)"
| "SIGNED_PROFILES ConversationRevival =
     Some (profile ''application/hail-conversation-revival+cbor'' ''from'' HailMessaging 16384)"
| "SIGNED_PROFILES _ = None"

definition isSignedPayloadType :: "jstring \<Rightarrow> bool" where
  "isSignedPayloadType s \<longleftrightarrow> s \<in> set (map (\<lambda>t. lit (type_name t)) signed_types)"

lemma type_name_inj [simp]: "type_name s = type_name t \<longleftrightarrow> s = t"
  by (cases s; cases t) simp_all

lemma profile_sel [simp]:
  "contentType (profile c s r m) = c" "signerField (profile c s r m) = s"
  "keyRole (profile c s r m) = r" "maximumRepresentationBytes (profile c s r m) = m"
  by (simp_all add: profile_def)

text \<open>Every signed type has its own content type, so a signature binds the payload type.\<close>

lemma contentType_inj:
  "SIGNED_PROFILES s = Some p \<Longrightarrow> SIGNED_PROFILES t = Some q \<Longrightarrow> contentType p = contentType q \<Longrightarrow> s = t"
  by (cases s; cases t) auto

end
