(* ===== verification/Validation.thy ===== *)
theory Validation
  imports Bodies Profiles
begin

text \<open>
  The validators of the signed payload types and \<open>validatePayload\<close> itself, from
  \<^verbatim>\<open>packages/hail-codec-ts/src/validation.ts\<close>.
\<close>

section \<open>Vocabulary\<close>

definition MESSAGE_TYPES :: "string list" where
  "MESSAGE_TYPES = [''personal'', ''newsletter'', ''promotion'', ''receipt'', ''invoice'', ''ticket'',
     ''boarding-pass'', ''account-alert'', ''security-alert'', ''package-update'', ''calendar-event'']"

definition DELIVERY_STATES :: "string list" where
  "DELIVERY_STATES = [''accepted'', ''on-hold'', ''delivered'', ''failed'', ''cancelled'']"

definition HOLD_REASONS :: "string list" where
  "HOLD_REASONS = [''sender-unreachable'', ''body-temporarily-unavailable'', ''body-transfer-interrupted'',
     ''sender-rate-limited'', ''receiver-resource-constrained'']"

definition FAILURE_REASONS :: "string list" where
  "FAILURE_REASONS = [''body-authorization-failed'', ''body-integrity-failed'', ''body-invalid'',
     ''body-unsupported'', ''delivery-expired'', ''receiver-policy-rejected'']"

definition CANCELLATION_REASONS :: "string list" where
  "CANCELLATION_REASONS = [''recipient-cancelled'', ''receiver-administrative-cancellation'']"

definition key_id_of :: "jstring \<Rightarrow> HailKeyRole \<Rightarrow> jstring" where
  "key_id_of signer role = signer @ lit ''#'' @ lit (role_name role)"

definition check_keyId :: "hail_value option \<Rightarrow> jstring \<Rightarrow> HailKeyRole \<Rightarrow> path \<Rightarrow> unit result" where
  "check_keyId v signer role p =
     first_error [check_text v p, fail_when (text_of v \<noteq> key_id_of signer role) p]"

section \<open>Addresses, profiles, grants\<close>

definition validateAddressBinding :: "validation_env \<Rightarrow> hail_value \<Rightarrow> unit result" where
  "validateAddressBinding env payload = first_error [
     exactKeys (Some payload) [''version'', ''type'', ''address'', ''did'', ''issued_at'', ''key_id''] [] [],
     check_did (get payload ''did'') (at ''did''),
     hailAddress env (get payload ''address'') (at ''address''),
     fail_when (get payload ''version'' \<noteq> int_lit 2) (at ''version''),
     check_integer (get payload ''issued_at'') (at ''issued_at'') 0,
     check_keyId (get payload ''key_id'') (text_of (get payload ''did'')) HailIdentity (at ''key_id'')]"

definition check_sender_category :: "nat \<Rightarrow> hail_value \<Rightarrow> unit result" where
  "check_sender_category i item =
     (let p = subi (at ''categories'') i in first_error [
        check_record (Some item) p,
        exactKeys (Some item) [''id'', ''label''] [''description''] p,
        check_category (get item ''id'') (sub_lit p ''id'')])"

definition check_category_texts :: "validation_env \<Rightarrow> nat \<Rightarrow> hail_value \<Rightarrow> unit result" where
  "check_category_texts env i item =
     (let p = subi (at ''categories'') i in first_error [
        profileText env (get item ''label'') 1 128 (sub_lit p ''label''),
        only_if (get item ''description'' \<noteq> None)
          (profileText env (get item ''description'') 1 1024 (sub_lit p ''description''))])"

definition validateSenderProfile :: "validation_env \<Rightarrow> hail_value \<Rightarrow> unit result" where
  "validateSenderProfile env payload =
     (let version = int_of (get payload ''version'');
          assets = list_of (getf (get payload ''assets'') ''assets'') in
      first_error [
        check_integer (get payload ''version'') (at ''version'') 1,
        fail_when (version \<noteq> 1 \<and> version \<noteq> 2) (at ''version''),
        exactKeys (Some payload)
          [''type'', ''version'', ''did'', ''revision'', ''display_name'', ''categories'', ''updated_at'', ''key_id'']
          (if version = 1 then [''description''] else [''description'', ''assets'']) [],
        check_did (get payload ''did'') (at ''did''),
        check_integer (get payload ''revision'') (at ''revision'') 1,
        profileText env (get payload ''display_name'') 1 128 (at ''display_name''),
        only_if (get payload ''description'' \<noteq> None)
          (profileText env (get payload ''description'') 1 1024 (at ''description'')),
        check_array (get payload ''categories'') (at ''categories''),
        fail_when (100 < length (list_of (get payload ''categories''))) (at ''categories''),
        ascending_check check_sender_category (\<lambda>item. text_of (get item ''id''))
          (\<lambda>i. sub_lit (subi (at ''categories'') i) ''id'') (check_category_texts env) 0 []
          (list_of (get payload ''categories'')),
        only_if (version = 2 \<and> get payload ''assets'' \<noteq> None) (first_error [
          validateAssetManifest env (get payload ''assets''),
          check_record (get payload ''assets'') (at ''assets''),
          fail_when (length assets \<noteq> 1 \<or> get (hd assets) ''role'' \<noteq> txt_lit ''avatar'') (at ''assets'')]),
        check_integer (get payload ''updated_at'') (at ''updated_at'') 0,
        check_keyId (get payload ''key_id'') (text_of (get payload ''did'')) HailMessaging (at ''key_id'')])"

definition grant_keys :: "string list" where
  "grant_keys = [''type'', ''version'', ''grant_id'', ''revision'', ''previous'', ''grantor'', ''grantee'',
     ''scope'', ''status'', ''issued_at'', ''updated_at'', ''expires_at'', ''consent_context'', ''key_id'']"

definition check_scope :: "hail_value option \<Rightarrow> unit result" where
  "check_scope v =
     (let p = subi (at ''scope'') 0; selector = hd (list_of v) in first_error [
        check_array v (at ''scope''),
        fail_when (length (list_of v) \<noteq> 1) (at ''scope''),
        check_record (Some selector) p,
        check_text (get selector ''type'') (sub_lit p ''type''),
        fail_when (get selector ''type'' \<noteq> txt_lit ''categories'') (sub_lit p ''type''),
        exactKeys (Some selector) [''type'', ''values''] [] p,
        check_array (get selector ''values'') (sub_lit p ''values''),
        fail_when (list_of (get selector ''values'') = []) (sub_lit p ''values''),
        ascending_check (\<lambda>i entry. check_category (Some entry) (subi (sub_lit p ''values'') i))
          (\<lambda>entry. text_of (Some entry)) (subi (sub_lit p ''values'')) (\<lambda>_ _. Inr ()) 0 []
          (list_of (get selector ''values''))])"

definition check_consent_context :: "validation_env \<Rightarrow> string list \<Rightarrow> hail_value option \<Rightarrow> unit result" where
  "check_consent_context env hashes v =
     (let p = at ''consent_context'' in first_error ([
        check_record v p,
        exactKeys v (''grantee_address'' # hashes) [] p,
        hailAddress env (getf v ''grantee_address'') (sub_lit p ''grantee_address'')]
        @ map (\<lambda>k. check_digest (getf v k) (sub_lit p k)) hashes))"

definition validateGrant :: "validation_env \<Rightarrow> hail_value \<Rightarrow> unit result" where
  "validateGrant env payload =
     (let revision = int_of (get payload ''revision''); previous = get payload ''previous'' in
      first_error [
        exactKeys (Some payload) grant_keys [] [],
        check_uuid (get payload ''grant_id'') (at ''grant_id''),
        check_integer (get payload ''revision'') (at ''revision'') 1,
        fail_when (if revision = 1 then previous \<noteq> Some HNull
          else (case previous of Some (HBytes _) \<Rightarrow> False | _ \<Rightarrow> True)) (at ''previous''),
        only_if (1 < revision) (check_bytes previous 32 (at ''previous'')),
        check_did (get payload ''grantor'') (at ''grantor''),
        check_did (get payload ''grantee'') (at ''grantee''),
        check_scope (get payload ''scope''),
        check_text (get payload ''status'') (at ''status''),
        fail_when (\<not> text_in (get payload ''status'') [''active'', ''revoked'']) (at ''status''),
        check_integer (get payload ''issued_at'') (at ''issued_at'') 0,
        check_integer (get payload ''updated_at'') (at ''updated_at'') 0,
        fail_when (int_of (get payload ''updated_at'') < int_of (get payload ''issued_at'')) (at ''updated_at''),
        only_if (get payload ''expires_at'' \<noteq> Some HNull)
          (check_integer (get payload ''expires_at'') (at ''expires_at'') 0),
        check_consent_context env [''address_binding_hash'', ''sender_profile_hash'']
          (get payload ''consent_context''),
        check_keyId (get payload ''key_id'') (text_of (get payload ''grantor'')) HailIdentity (at ''key_id'')])"

section \<open>Connections and conversations\<close>

definition connectionExpiry :: "hail_value \<Rightarrow> bool \<Rightarrow> unit result" where
  "connectionExpiry payload confirmation =
     (let issued = int_of (get payload ''issued_at''); until = int_of (get payload ''expires_at'') in
      first_error [
        check_integer (get payload ''issued_at'') (at ''issued_at'') 0,
        (if get payload ''expires_at'' \<noteq> Some HNull then first_error [
           check_integer (get payload ''expires_at'') (at ''expires_at'') 0,
           fail_when (until \<le> issued \<or> confirmation \<and> 300 < until - issued) (at ''expires_at'')]
         else fail_when confirmation (at ''expires_at''))])"

definition validateConnectionInvitation :: "hail_value \<Rightarrow> unit result" where
  "validateConnectionInvitation payload = first_error [
     exactKeys (Some payload) [''type'', ''version'', ''invitation_id'', ''from'', ''token_hash'', ''issued_at'',
       ''expires_at'', ''key_id''] [] [],
     check_uuid (get payload ''invitation_id'') (at ''invitation_id''),
     check_did (get payload ''from'') (at ''from''),
     check_digest (get payload ''token_hash'') (at ''token_hash''),
     connectionExpiry payload False,
     check_keyId (get payload ''key_id'') (text_of (get payload ''from'')) HailIdentity (at ''key_id'')]"

definition validateConnectionConfirmation :: "hail_value \<Rightarrow> unit result" where
  "validateConnectionConfirmation payload = first_error [
     exactKeys (Some payload) [''type'', ''version'', ''confirmation_id'', ''from'', ''to'', ''invitation_id'',
       ''invitation_hash'', ''issued_at'', ''expires_at'', ''key_id''] [] [],
     check_uuid (get payload ''confirmation_id'') (at ''confirmation_id''),
     check_uuid (get payload ''invitation_id'') (at ''invitation_id''),
     check_did (get payload ''from'') (at ''from''),
     check_did (get payload ''to'') (at ''to''),
     fail_when (get payload ''from'' = get payload ''to'') (at ''to''),
     check_digest (get payload ''invitation_hash'') (at ''invitation_hash''),
     connectionExpiry payload True,
     check_keyId (get payload ''key_id'') (text_of (get payload ''from'')) HailIdentity (at ''key_id'')]"

definition validateConversation :: "hail_value \<Rightarrow> unit result" where
  "validateConversation payload =
     (let created = int_of (get payload ''created_at''); until = int_of (get payload ''admission_until'');
          participants = list_of (get payload ''participants'') in
      first_error [
        exactKeys (Some payload) [''type'', ''version'', ''conversation_id'', ''from'', ''membership_revision'',
          ''participants'', ''created_at'', ''admission_until''] [] [],
        check_uuid (get payload ''conversation_id'') (at ''conversation_id''),
        check_did (get payload ''from'') (at ''from''),
        fail_when (get payload ''membership_revision'' \<noteq> int_lit 1) (at ''membership_revision''),
        check_array (get payload ''participants'') (at ''participants''),
        fail_when (length participants < 3 \<or> 101 < length participants) (at ''participants''),
        ascending_check (\<lambda>i entry. check_did (Some entry) (subi (at ''participants'') i))
          (\<lambda>entry. text_of (Some entry)) (\<lambda>_. at ''participants'') (\<lambda>_ _. Inr ()) 0 [] participants,
        fail_when (the (get payload ''from'') \<notin> set participants) (at ''participants''),
        check_integer (get payload ''created_at'') (at ''created_at'') 0,
        check_integer (get payload ''admission_until'') (at ''admission_until'') 0,
        fail_when (until \<le> created \<or> 604800 < until - created) (at ''admission_until'')])"

definition validateConversationRevival :: "hail_value \<Rightarrow> unit result" where
  "validateConversationRevival payload =
     (let issued = int_of (get payload ''issued_at''); expires = int_of (get payload ''expires_at'') in
      first_error [
        exactKeys (Some payload) [''type'', ''version'', ''conversation_id'', ''descriptor_hash'', ''from'', ''to'',
          ''request_id'', ''issued_at'', ''expires_at''] [] [],
        check_uuid (get payload ''conversation_id'') (at ''conversation_id''),
        check_uuid (get payload ''request_id'') (at ''request_id''),
        check_digest (get payload ''descriptor_hash'') (at ''descriptor_hash''),
        check_did (get payload ''from'') (at ''from''),
        check_did (get payload ''to'') (at ''to''),
        fail_when (get payload ''from'' = get payload ''to'') (at ''to''),
        check_integer (get payload ''issued_at'') (at ''issued_at'') 0,
        check_integer (get payload ''expires_at'') (at ''expires_at'') 0,
        fail_when (expires \<le> issued \<or> 86400 < expires - issued) (at ''expires_at'')])"

text \<open>
  \<open>String(value)\<close>. An array converts to its elements joined by commas, with the empty string for
  null elements, so a one-element array converts to the string of its element. A nested map with
  no prototype makes \<open>String\<close> throw; here it converts to the text of an ordinary object, which no
  caller accepts either.
\<close>

definition join_with :: "jstring \<Rightarrow> jstring list \<Rightarrow> jstring" where
  "join_with sep ws = (case ws of [] \<Rightarrow> [] | w # ws \<Rightarrow> w @ concat (map (\<lambda>v. sep @ v) ws))"

fun digits :: "nat \<Rightarrow> jstring" where
  "digits n = (if n < 10 then [of_nat (48 + n)] else digits (n div 10) @ [of_nat (48 + n mod 10)])"

definition decimal :: "int \<Rightarrow> jstring" where
  "decimal i = (if i < 0 then of_char CHR ''-'' # digits (nat (- i)) else digits (nat i))"

fun js_string :: "hail_value \<Rightarrow> jstring" where
  "js_string HNull = lit ''null''"
| "js_string (HBool b) = (if b then lit ''true'' else lit ''false'')"
| "js_string (HInt i) = decimal i"
| "js_string (HText s) = s"
| "js_string (HBytes bs) = join_with (lit '','') (map (\<lambda>b. digits (unat b)) bs)"
| "js_string (HArray xs) = join_with (lit '','') (map (\<lambda>x. case x of HNull \<Rightarrow> [] | _ \<Rightarrow> js_string x) xs)"
| "js_string (HMap kvs) = lit ''[object Object]''"

definition string_in :: "hail_value option \<Rightarrow> string list \<Rightarrow> bool" where
  "string_in v options \<longleftrightarrow>
     (case v of None \<Rightarrow> lit ''undefined'' | Some h \<Rightarrow> js_string h) \<in> set (map lit options)"

definition validateConnectionControl :: "hail_value \<Rightarrow> unit result" where
  "validateConnectionControl payload = first_error [
     exactKeys (Some payload) [''type'', ''version'', ''operation'', ''from'', ''to'', ''request_id'',
       ''connection_id'', ''epoch'', ''state'', ''proof_hash'', ''issued_at'', ''expires_at'', ''key_id''] [] [],
     check_did (get payload ''from'') (at ''from''),
     check_did (get payload ''to'') (at ''to''),
     fail_when (get payload ''from'' = get payload ''to'') (at ''to''),
     check_uuid (get payload ''request_id'') (at ''request_id''),
     check_integer (get payload ''epoch'') (at ''epoch'') 0,
     fail_when (\<not> string_in (get payload ''operation'')
       [''probe'', ''offer'', ''connect'', ''disconnect'', ''snapshot'', ''admission'', ''ack'']) (at ''operation''),
     fail_when (\<not> string_in (get payload ''state'') [''empty'', ''active'', ''disconnected'']) (at ''state''),
     (if get payload ''state'' = txt_lit ''empty''
      then fail_when (get payload ''connection_id'' \<noteq> Some HNull \<or> get payload ''epoch'' \<noteq> int_lit 0)
        (at ''connection_id'')
      else first_error [
        check_uuid (get payload ''connection_id'') (at ''connection_id''),
        check_integer (get payload ''epoch'') (at ''epoch'') 1]),
     check_digest (get payload ''proof_hash'') (at ''proof_hash''),
     check_integer (get payload ''issued_at'') (at ''issued_at'') 0,
     (if string_in (get payload ''operation'') [''snapshot'', ''admission'', ''ack'']
      then fail_when (get payload ''expires_at'' \<noteq> Some HNull) (at ''expires_at'')
      else connectionExpiry payload True),
     check_keyId (get payload ''key_id'') (text_of (get payload ''from'')) HailMessaging (at ''key_id'')]"

definition validateConnectionGrant :: "validation_env \<Rightarrow> hail_value \<Rightarrow> unit result" where
  "validateConnectionGrant env payload = first_error [
     exactKeys (Some payload) [''type'', ''version'', ''grant_id'', ''connection_id'', ''revision'', ''previous'',
       ''grantor'', ''grantee'', ''status'', ''issued_at'', ''updated_at'', ''expires_at'', ''consent_context'',
       ''key_id''] [] [],
     check_uuid (get payload ''grant_id'') (at ''grant_id''),
     check_uuid (get payload ''connection_id'') (at ''connection_id''),
     check_integer (get payload ''revision'') (at ''revision'') 1,
     (if get payload ''revision'' = int_lit 1
      then fail_when (get payload ''previous'' \<noteq> Some HNull) (at ''previous'')
      else check_bytes (get payload ''previous'') 32 (at ''previous'')),
     check_did (get payload ''grantor'') (at ''grantor''),
     check_did (get payload ''grantee'') (at ''grantee''),
     fail_when (get payload ''grantor'' = get payload ''grantee'') (at ''grantee''),
     fail_when (\<not> text_in (get payload ''status'') [''active'', ''revoked'']) (at ''status''),
     connectionExpiry payload False,
     check_integer (get payload ''updated_at'') (at ''updated_at'') 0,
     fail_when (int_of (get payload ''updated_at'') < int_of (get payload ''issued_at'')) (at ''updated_at''),
     check_consent_context env [''address_binding_hash'', ''invitation_hash'', ''confirmation_hash'']
       (get payload ''consent_context''),
     check_keyId (get payload ''key_id'') (text_of (get payload ''grantor'')) HailIdentity (at ''key_id'')]"

section \<open>Envelopes\<close>

definition envelope_keys :: "string list" where
  "envelope_keys = [''type'', ''version'', ''message_id'', ''from'', ''to'', ''authorization'', ''created_at'',
     ''expires_at'', ''body'', ''reply'']"

definition envelope_optional :: "hail_value option \<Rightarrow> string list" where
  "envelope_optional version =
     (if version = int_lit 4 then [''message_type'', ''in_reply_to'', ''conversation_message_id'', ''conversation_introduction'']
      else if version = int_lit 3 then [''category'', ''message_type'', ''in_reply_to'']
      else [''category'', ''message_type''])"

definition check_introduction :: "validation_env \<Rightarrow> hail_value \<Rightarrow> unit result" where
  "check_introduction env payload =
     (let intro = get payload ''conversation_introduction''; p = at ''conversation_introduction'';
          authorization = get payload ''authorization'' in
      first_error [
        check_record intro p,
        exactKeys intro [''descriptor'', ''connection_id'', ''epoch''] [] p,
        check_uuid (getf intro ''connection_id'') (sub_lit p ''connection_id''),
        check_integer (getf intro ''epoch'') (sub_lit p ''epoch'') 1,
        fail_when (case getf intro ''descriptor'' of
          Some (HBytes bs) \<Rightarrow> length bs < 1 \<or> 16384 < length bs | _ \<Rightarrow> True) (sub_lit p ''descriptor''),
        fail_when (get payload ''from'' \<noteq> getf authorization ''creator'' \<or> get payload ''in_reply_to'' \<noteq> None
          \<or> get payload ''conversation_message_id'' \<noteq> getf authorization ''conversation_id'') p,
        check_record (getf authorization ''descriptor_hash'') (sub_lit (at ''authorization'') ''descriptor_hash''),
        fail_when (\<not> every_byte_equal (sha256 env (bytes_of (getf intro ''descriptor'')))
            (bytes_of (getf (getf authorization ''descriptor_hash'') ''value'')))
          (sub_lit (at ''authorization'') ''descriptor_hash'')])"

definition check_authorization :: "validation_env \<Rightarrow> hail_value \<Rightarrow> unit result" where
  "check_authorization env payload =
     (let authorization = get payload ''authorization''; p = at ''authorization'';
          ty = getf authorization ''type''; version = get payload ''version'' in
      first_error [
        check_record authorization p,
        check_text ty (sub_lit p ''type''),
        (if ty = txt_lit ''grant'' then first_error [
           fail_when (version \<noteq> int_lit 1) (at ''version''),
           exactKeys authorization [''type'', ''grant_id''] [] p,
           check_uuid (getf authorization ''grant_id'') (sub_lit p ''grant_id''),
           check_category (get payload ''category'') (at ''category'')]
         else if ty = txt_lit ''reply'' then first_error [
           fail_when (version \<noteq> int_lit 1 \<and> version \<noteq> int_lit 3) (at ''version''),
           exactKeys authorization [''type'', ''reply_to''] [] p,
           check_uuid (getf authorization ''reply_to'') (sub_lit p ''reply_to''),
           fail_when (get payload ''category'' \<noteq> None) (at ''category'')]
         else if ty = txt_lit ''connection'' then first_error [
           fail_when (version \<noteq> int_lit 2 \<and> version \<noteq> int_lit 3) (at ''version''),
           exactKeys authorization [''type'', ''connection_id'', ''epoch''] [] p,
           check_uuid (getf authorization ''connection_id'') (sub_lit p ''connection_id''),
           check_integer (getf authorization ''epoch'') (sub_lit p ''epoch'') 1,
           fail_when (get payload ''category'' \<noteq> None) (at ''category'')]
         else if ty = txt_lit ''conversation'' then first_error [
           fail_when (version \<noteq> int_lit 4) (at ''version''),
           exactKeys authorization [''type'', ''creator'', ''conversation_id'', ''membership_revision'', ''descriptor_hash''] [] p,
           check_did (getf authorization ''creator'') (sub_lit p ''creator''),
           check_uuid (getf authorization ''conversation_id'') (sub_lit p ''conversation_id''),
           fail_when (getf authorization ''membership_revision'' \<noteq> int_lit 1) (sub_lit p ''membership_revision''),
           check_digest (getf authorization ''descriptor_hash'') (sub_lit p ''descriptor_hash''),
           check_uuid (get payload ''conversation_message_id'') (at ''conversation_message_id''),
           fail_when (get payload ''from'' = get payload ''to'') (at ''to''),
           only_if (get payload ''conversation_introduction'' \<noteq> None) (check_introduction env payload)]
         else Inl (schema (sub_lit p ''type'')))])"

definition check_reference :: "hail_value option \<Rightarrow> unit result" where
  "check_reference parent =
     (let p = at ''in_reply_to'' in first_error [
        check_record parent p,
        exactKeys parent [''sender'', ''message_id''] [] p,
        check_did (getf parent ''sender'') (sub_lit p ''sender''),
        check_uuid (getf parent ''message_id'') (sub_lit p ''message_id'')])"

definition check_parents :: "hail_value \<Rightarrow> unit result" where
  "check_parents payload =
     (let parent = get payload ''in_reply_to''; p = at ''in_reply_to'';
          authorization = get payload ''authorization'' in
      first_error [
        only_if (get payload ''version'' = int_lit 4 \<and> parent \<noteq> None) (first_error [
          check_reference parent,
          fail_when (getf parent ''sender'' = get payload ''from''
            \<and> getf parent ''message_id'' = get payload ''conversation_message_id'') p]),
        only_if (get payload ''version'' = int_lit 3) (first_error [
          check_reference parent,
          fail_when (getf parent ''sender'' \<noteq> get payload ''to'' \<or> get payload ''from'' = get payload ''to'')
            (sub_lit p ''sender''),
          fail_when (getf authorization ''type'' = txt_lit ''reply''
            \<and> getf parent ''message_id'' \<noteq> getf authorization ''reply_to'') (sub_lit p ''message_id'')])])"

definition check_body_descriptor :: "hail_value \<Rightarrow> unit result" where
  "check_body_descriptor payload =
     (let body = get payload ''body''; p = at ''body'';
          createdAt = int_of (get payload ''created_at''); expiresAt = int_of (get payload ''expires_at'');
          availableUntil = int_of (getf body ''available_until''); access = getf body ''access'';
          q = sub_lit p ''access'' in
      first_error [
        check_record body p,
        exactKeys body [''digest'', ''size'', ''media_type'', ''profile'', ''available_until'', ''access''] [] p,
        check_digest (getf body ''digest'') (sub_lit p ''digest''),
        check_integer (getf body ''size'') (sub_lit p ''size'') 1,
        fail_when (1048576 < int_of (getf body ''size'')) (sub_lit p ''size''),
        check_text (getf body ''media_type'') (sub_lit p ''media_type''),
        fail_when (getf body ''media_type'' \<noteq> txt_lit ''application/hail-body+cbor'') (sub_lit p ''media_type''),
        check_text (getf body ''profile'') (sub_lit p ''profile''),
        fail_when (\<not> text_in (getf body ''profile'') [''spt-1'', ''spt-2'', ''spt-3'']) (sub_lit p ''profile''),
        check_integer (getf body ''available_until'') (sub_lit p ''available_until'') 0,
        fail_when (availableUntil < createdAt + 2592000 \<or> availableUntil < expiresAt + 300
          \<or> 2678400 < availableUntil - createdAt) (sub_lit p ''available_until''),
        check_record access q,
        exactKeys access [''type'', ''token'', ''expires_at''] [] q,
        check_text (getf access ''type'') (sub_lit q ''type''),
        fail_when (getf access ''type'' \<noteq> txt_lit ''bearer'') (sub_lit q ''type''),
        check_bytes (getf access ''token'') 32 (sub_lit q ''token''),
        check_integer (getf access ''expires_at'') (sub_lit q ''expires_at'') 0,
        fail_when (int_of (getf access ''expires_at'') < availableUntil
          \<or> 2678400 < int_of (getf access ''expires_at'') - createdAt) (sub_lit q ''expires_at'')])"

definition check_reply :: "hail_value \<Rightarrow> unit result" where
  "check_reply payload =
     (let reply = get payload ''reply''; p = at ''reply''; allowed = bool_of (getf reply ''allowed'');
          ty = getf (get payload ''authorization'') ''type'' in
      first_error [
        check_record reply p,
        check_boolean (getf reply ''allowed'') (sub_lit p ''allowed''),
        fail_when ((ty = txt_lit ''connection'' \<or> ty = txt_lit ''conversation'') \<and> allowed) (sub_lit p ''allowed''),
        exactKeys reply (''allowed'' # (if allowed then [''until''] else [])) [] p,
        only_if allowed (first_error [
          check_integer (getf reply ''until'') (sub_lit p ''until'') 0,
          fail_when (int_of (getf reply ''until'') \<le> int_of (get payload ''created_at'')) (sub_lit p ''until'')])])"

definition validateEnvelope :: "validation_env \<Rightarrow> hail_value \<Rightarrow> unit result" where
  "validateEnvelope env payload =
     (let createdAt = int_of (get payload ''created_at''); expiresAt = int_of (get payload ''expires_at'') in
      first_error [
        exactKeys (Some payload) envelope_keys (envelope_optional (get payload ''version'')) [],
        check_uuid (get payload ''message_id'') (at ''message_id''),
        check_did (get payload ''from'') (at ''from''),
        check_did (get payload ''to'') (at ''to''),
        check_authorization env payload,
        check_parents payload,
        only_if (get payload ''category'' \<noteq> None) (check_category (get payload ''category'') (at ''category'')),
        only_if (get payload ''message_type'' \<noteq> None) (first_error [
          check_text (get payload ''message_type'') (at ''message_type''),
          fail_when (\<not> text_in (get payload ''message_type'') MESSAGE_TYPES) (at ''message_type'')]),
        check_integer (get payload ''created_at'') (at ''created_at'') 0,
        check_integer (get payload ''expires_at'') (at ''expires_at'') 0,
        fail_when (expiresAt \<le> createdAt \<or> 604800 < expiresAt - createdAt) (at ''expires_at''),
        check_body_descriptor payload,
        check_reply payload])"

section \<open>Delivery statuses\<close>

definition validateDeliveryStatus :: "hail_value \<Rightarrow> unit result" where
  "validateDeliveryStatus payload =
     (let revision = int_of (get payload ''revision''); state = get payload ''state'';
          reason = get payload ''reason''; retry = get payload ''retry_at'';
          needsReason = text_in state [''on-hold'', ''failed'', ''cancelled''] in
      first_error [
        exactKeys (Some payload) [''type'', ''version'', ''message_id'', ''envelope_digest'', ''from'', ''to'',
          ''revision'', ''state'', ''occurred_at''] [''reason'', ''retry_at''] [],
        check_uuid (get payload ''message_id'') (at ''message_id''),
        check_digest (get payload ''envelope_digest'') (at ''envelope_digest''),
        check_did (get payload ''from'') (at ''from''),
        check_did (get payload ''to'') (at ''to''),
        check_integer (get payload ''revision'') (at ''revision'') 1,
        check_text state (at ''state''),
        fail_when (\<not> text_in state DELIVERY_STATES) (at ''state''),
        fail_when ((revision = 1) \<noteq> (state = txt_lit ''accepted'')) (at ''state''),
        fail_when (needsReason \<noteq> (reason \<noteq> None)) (at ''reason''),
        only_if (reason \<noteq> None) (first_error [
          check_text reason (at ''reason''),
          fail_when (\<not> text_in reason (if state = txt_lit ''on-hold'' then HOLD_REASONS
            else if state = txt_lit ''failed'' then FAILURE_REASONS else CANCELLATION_REASONS)) (at ''reason'')]),
        check_integer (get payload ''occurred_at'') (at ''occurred_at'') 0,
        (if state = txt_lit ''on-hold'' then first_error [
           fail_when (retry = None) (at ''retry_at''),
           check_integer retry (at ''retry_at'') 0,
           fail_when (int_of retry < int_of (get payload ''occurred_at'')) (at ''retry_at'')]
         else fail_when (retry \<noteq> None) (at ''retry_at''))])"

section \<open>Dispatch\<close>

definition version_exempt :: "HailPayloadType \<Rightarrow> hail_value option \<Rightarrow> bool" where
  "version_exempt t version \<longleftrightarrow> t = AddressBinding \<or> t = SenderProfile
     \<or> t = Envelope \<and> version \<in> {int_lit 2, int_lit 3, int_lit 4}"

definition validate_by_type :: "validation_env \<Rightarrow> HailPayloadType \<Rightarrow> hail_value \<Rightarrow> unit result" where
  "validate_by_type env t payload = (case t of
     AddressBinding \<Rightarrow> validateAddressBinding env payload
   | SenderProfile \<Rightarrow> validateSenderProfile env payload
   | Grant \<Rightarrow> validateGrant env payload
   | ConnectionInvitation \<Rightarrow> validateConnectionInvitation payload
   | ConnectionConfirmation \<Rightarrow> validateConnectionConfirmation payload
   | ConnectionGrant \<Rightarrow> validateConnectionGrant env payload
   | ConnectionControl \<Rightarrow> validateConnectionControl payload
   | Conversation \<Rightarrow> validateConversation payload
   | ConversationRevival \<Rightarrow> validateConversationRevival payload
   | Envelope \<Rightarrow> validateEnvelope env payload
   | DeliveryStatus \<Rightarrow> validateDeliveryStatus payload
   | BodySpt1 \<Rightarrow> validateSpt1Body env payload
   | BodySpt2 \<Rightarrow> validateSpt2Body env payload
   | BodySpt3 \<Rightarrow> validateSpt3Body env payload)"

definition validatePayload :: "validation_env \<Rightarrow> HailPayloadType \<Rightarrow> jsvalue \<Rightarrow> unit result" where
  "validatePayload env t v =
     and_then (assertHailValue DEFAULT_HAIL_RESOURCE_LIMITS v) (\<lambda>_.
       let payload = to_hail v in first_error [
         check_record (Some payload) [],
         only_if (t \<in> set signed_types) (first_error [
           fail_when (get payload ''type'' \<noteq> txt_lit (type_name t)) (at ''type''),
           fail_when (\<not> version_exempt t (get payload ''version'') \<and> get payload ''version'' \<noteq> int_lit 1)
             (at ''version'')]),
         validate_by_type env t payload])"

definition expectedKeyId :: "HailPayloadType \<Rightarrow> hail_value \<Rightarrow> jstring result" where
  "expectedKeyId t payload =
     (let p = the (SIGNED_PROFILES t) in
      and_then (first_error [
        check_record (Some payload) [],
        check_did (get payload (signerField p)) (at (signerField p))])
      (\<lambda>_. Inr (key_id_of (text_of (get payload (signerField p))) (keyRole p))))"

end
