(* ===== verification/Models.thy ===== *)
theory Models
  imports Validation
begin

text \<open>
  The payload interfaces of \<^verbatim>\<open>packages/hail-codec-ts/src/models.ts\<close> that the server works with,
  as records, and what \<open>validatePayload\<close> asserts about them. A member whose TypeScript type is a
  single literal (\<open>version: 1\<close>, \<open>algorithm: "sha-256"\<close>) carries no information and is written
  back by the \<open>..._value\<close> functions, which render a record as the object it stands for.
\<close>

section \<open>Interfaces\<close>

record HailDigest =
  digest_value :: bytes

definition digest_object :: "HailDigest \<Rightarrow> hail_value" where
  "digest_object d = HMap [(lit ''algorithm'', HText (lit ''sha-256'')), (lit ''value'', HBytes (digest_value d))]"

definition read_digest :: "hail_value option \<Rightarrow> HailDigest" where
  "read_digest v = \<lparr>digest_value = bytes_of (getf v ''value'')\<rparr>"

datatype HailEnvelopeAuthorization =
    GrantAuthorization (auth_grant_id: jstring)
  | ReplyAuthorization (auth_reply_to: jstring)
  | ConnectionAuthorization (auth_connection_id: jstring) (auth_epoch: int)
  | ConversationAuthorization (auth_creator: jstring) (auth_conversation_id: jstring)
      (auth_descriptor_hash: HailDigest)

datatype body_profile = Spt1 | Spt2 | Spt3

fun profile_name :: "body_profile \<Rightarrow> string" where
  "profile_name Spt1 = ''spt-1''"
| "profile_name Spt2 = ''spt-2''"
| "profile_name Spt3 = ''spt-3''"

record HailBodyDescriptor =
  body_digest :: HailDigest
  body_size :: int
  body_profile_of :: body_profile
  available_until :: int
  access_token :: bytes
  access_expires_at :: int

datatype HailReplyPermission = NoReply | ReplyUntil int

record HailMessageReference =
  ref_sender :: jstring
  ref_message_id :: jstring

record HailIntroduction =
  intro_descriptor :: bytes
  intro_connection_id :: jstring
  intro_epoch :: int

record HailEnvelope =
  env_version :: int
  env_conversation_message_id :: "jstring option"
  env_introduction :: "HailIntroduction option"
  env_in_reply_to :: "HailMessageReference option"
  env_message_id :: jstring
  env_from :: jstring
  env_to :: jstring
  env_authorization :: HailEnvelopeAuthorization
  env_category :: "jstring option"
  env_message_type :: "jstring option"
  env_created_at :: int
  env_expires_at :: int
  env_body :: HailBodyDescriptor
  env_reply :: HailReplyPermission

datatype HailDeliveryState = Accepted | OnHold | Delivered | Failed | Cancelled

fun state_name :: "HailDeliveryState \<Rightarrow> string" where
  "state_name Accepted = ''accepted''"
| "state_name OnHold = ''on-hold''"
| "state_name Delivered = ''delivered''"
| "state_name Failed = ''failed''"
| "state_name Cancelled = ''cancelled''"

record HailDeliveryStatus =
  st_message_id :: jstring
  st_envelope_digest :: HailDigest
  st_from :: jstring
  st_to :: jstring
  st_revision :: int
  st_state :: HailDeliveryState
  st_reason :: "jstring option"
  st_occurred_at :: int
  st_retry_at :: "int option"

datatype grant_status = Active | Revoked

record HailGrant =
  grant_id :: jstring
  grant_revision :: int
  grant_previous :: "bytes option"
  grantor :: jstring
  grantee :: jstring
  grant_scope :: "jstring list"
  grant_status_of :: grant_status
  grant_issued_at :: int
  grant_updated_at :: int
  grant_expires_at :: "int option"
  consent_address :: jstring
  consent_binding_hash :: HailDigest
  consent_profile_hash :: HailDigest

section \<open>Records as objects\<close>

definition present :: "string \<Rightarrow> ('a \<Rightarrow> hail_value) \<Rightarrow> 'a option \<Rightarrow> (jstring \<times> hail_value) list" where
  "present k f x = (case x of None \<Rightarrow> [] | Some y \<Rightarrow> [(lit k, f y)])"

definition nullable :: "('a \<Rightarrow> hail_value) \<Rightarrow> 'a option \<Rightarrow> hail_value" where
  "nullable f x = (case x of None \<Rightarrow> HNull | Some y \<Rightarrow> f y)"

fun authorization_object :: "HailEnvelopeAuthorization \<Rightarrow> hail_value" where
  "authorization_object (GrantAuthorization g) =
     HMap [(lit ''type'', HText (lit ''grant'')), (lit ''grant_id'', HText g)]"
| "authorization_object (ReplyAuthorization r) =
     HMap [(lit ''type'', HText (lit ''reply'')), (lit ''reply_to'', HText r)]"
| "authorization_object (ConnectionAuthorization c e) =
     HMap [(lit ''type'', HText (lit ''connection'')), (lit ''connection_id'', HText c), (lit ''epoch'', HInt e)]"
| "authorization_object (ConversationAuthorization creator c d) =
     HMap [(lit ''type'', HText (lit ''conversation'')), (lit ''creator'', HText creator),
       (lit ''conversation_id'', HText c), (lit ''membership_revision'', HInt 1),
       (lit ''descriptor_hash'', digest_object d)]"

definition body_object :: "HailBodyDescriptor \<Rightarrow> hail_value" where
  "body_object b = HMap [(lit ''digest'', digest_object (body_digest b)), (lit ''size'', HInt (body_size b)),
     (lit ''media_type'', HText (lit ''application/hail-body+cbor'')),
     (lit ''profile'', HText (lit (profile_name (body_profile_of b)))),
     (lit ''available_until'', HInt (available_until b)),
     (lit ''access'', HMap [(lit ''type'', HText (lit ''bearer'')), (lit ''token'', HBytes (access_token b)),
       (lit ''expires_at'', HInt (access_expires_at b))])]"

fun reply_object :: "HailReplyPermission \<Rightarrow> hail_value" where
  "reply_object NoReply = HMap [(lit ''allowed'', HBool False)]"
| "reply_object (ReplyUntil t) = HMap [(lit ''allowed'', HBool True), (lit ''until'', HInt t)]"

definition reference_object :: "HailMessageReference \<Rightarrow> hail_value" where
  "reference_object r = HMap [(lit ''sender'', HText (ref_sender r)), (lit ''message_id'', HText (ref_message_id r))]"

definition introduction_object :: "HailIntroduction \<Rightarrow> hail_value" where
  "introduction_object i = HMap [(lit ''descriptor'', HBytes (intro_descriptor i)),
     (lit ''connection_id'', HText (intro_connection_id i)), (lit ''epoch'', HInt (intro_epoch i))]"

definition envelope_object :: "HailEnvelope \<Rightarrow> hail_value" where
  "envelope_object e = HMap ([(lit ''type'', HText (lit ''hail.envelope'')), (lit ''version'', HInt (env_version e)),
       (lit ''message_id'', HText (env_message_id e)), (lit ''from'', HText (env_from e)),
       (lit ''to'', HText (env_to e)), (lit ''authorization'', authorization_object (env_authorization e)),
       (lit ''created_at'', HInt (env_created_at e)), (lit ''expires_at'', HInt (env_expires_at e)),
       (lit ''body'', body_object (env_body e)), (lit ''reply'', reply_object (env_reply e))]
     @ present ''category'' HText (env_category e)
     @ present ''message_type'' HText (env_message_type e)
     @ present ''in_reply_to'' reference_object (env_in_reply_to e)
     @ present ''conversation_message_id'' HText (env_conversation_message_id e)
     @ present ''conversation_introduction'' introduction_object (env_introduction e))"

definition status_object :: "HailDeliveryStatus \<Rightarrow> hail_value" where
  "status_object s = HMap ([(lit ''type'', HText (lit ''hail.delivery-status'')), (lit ''version'', HInt 1),
       (lit ''message_id'', HText (st_message_id s)), (lit ''envelope_digest'', digest_object (st_envelope_digest s)),
       (lit ''from'', HText (st_from s)), (lit ''to'', HText (st_to s)), (lit ''revision'', HInt (st_revision s)),
       (lit ''state'', HText (lit (state_name (st_state s)))), (lit ''occurred_at'', HInt (st_occurred_at s))]
     @ present ''reason'' HText (st_reason s) @ present ''retry_at'' HInt (st_retry_at s))"

definition status_text :: "grant_status \<Rightarrow> string" where
  "status_text s = (case s of Active \<Rightarrow> ''active'' | Revoked \<Rightarrow> ''revoked'')"

definition grant_object :: "HailGrant \<Rightarrow> hail_value" where
  "grant_object g = HMap [(lit ''type'', HText (lit ''hail.grant'')), (lit ''version'', HInt 1),
     (lit ''grant_id'', HText (grant_id g)), (lit ''revision'', HInt (grant_revision g)),
     (lit ''previous'', nullable HBytes (grant_previous g)), (lit ''grantor'', HText (grantor g)),
     (lit ''grantee'', HText (grantee g)),
     (lit ''scope'', HArray [HMap [(lit ''type'', HText (lit ''categories'')),
        (lit ''values'', HArray (map HText (grant_scope g)))]]),
     (lit ''status'', HText (lit (status_text (grant_status_of g)))),
     (lit ''issued_at'', HInt (grant_issued_at g)), (lit ''updated_at'', HInt (grant_updated_at g)),
     (lit ''expires_at'', nullable HInt (grant_expires_at g)),
     (lit ''consent_context'', HMap [(lit ''grantee_address'', HText (consent_address g)),
        (lit ''address_binding_hash'', digest_object (consent_binding_hash g)),
        (lit ''sender_profile_hash'', digest_object (consent_profile_hash g))]),
     (lit ''key_id'', HText (key_id_of (grantor g) HailIdentity))]"

section \<open>Equality of objects up to member order\<close>

lemma isWellFormed_small: "list_all (\<lambda>c. unat c < 0xD800) s \<Longrightarrow> isWellFormed s"
proof (induction s rule: code_points.induct)
  case (3 c d ds)
  then show ?case by (simp add: isWellFormed_def high_surrogate_unat surrogate_point_def)
qed (simp_all add: isWellFormed_def surrogate_point_def)

lemma isWellFormed_lit [simp]: "isWellFormed (lit s)"
proof (rule isWellFormed_small)
  have "(of_char c :: nat) < 55296" for c using of_char_less_256 [of c] by linarith
  then show "list_all (\<lambda>c. unat c < 0xD800) (lit s)"
    by (simp add: lit_def list_all_iff unat_of_char_16)
qed

lemma map_of_map_snd: "map_of (map (\<lambda>(k, v). (k, f v)) kvs) k = map_option f (map_of kvs k)"
  by (induction kvs) auto

lemma same_value_HMapI:
  assumes "distinct (map fst kvs)" "distinct (map fst kvs')"
    and "\<forall>kv \<in> set kvs'. isWellFormed (fst kv)"
    and "\<And>k. rel_option same_value (map_of kvs k) (map_of kvs' k)"
  shows "same_value (HMap kvs) (HMap kvs')"
proof -
  let ?s = "\<lambda>kvs. map (\<lambda>(k, v). (k, sort_members v)) kvs"
  have "map_of (?s kvs) = map_of (?s kvs')"
  proof
    fix k show "map_of (?s kvs) k = map_of (?s kvs') k"
      using assms(4) [of k] by (auto simp: map_of_map_snd same_value_def option_rel_Some1 elim: option.rel_cases)
  qed
  moreover have d: "distinct (map fst (?s kvs))" "distinct (map fst (?s kvs'))"
    unfolding map_fst_members using assms by simp_all
  ultimately have "set (?s kvs) = set (?s kvs')" by (simp add: map_of_inject_set)
  moreover have "distinct (?s kvs)" "distinct (?s kvs')"
    using d unfolding distinct_map [of fst] by blast+
  ultimately have "mset (?s kvs) = mset (?s kvs')"
    by (simp only: set_eq_iff_mset_eq_distinct)
  then have "sort_key key_bytes (?s kvs) = sort_key key_bytes (?s kvs')"
    using assms(3) d(2) by (intro sort_key_perm inj_key_bytes) (auto simp: case_prod_unfold)
  then show ?thesis by (simp add: same_value_def)
qed

text \<open>Two objects with members among \<open>ks\<close> are the same if the members agree.\<close>

lemma same_value_objectsI:
  assumes "unique_keys (HMap kvs)" "distinct (map fst kvs')"
    and "fst ` set kvs \<subseteq> lit ` set ks" "fst ` set kvs' \<subseteq> lit ` set ks"
    and "\<And>k. k \<in> set ks \<Longrightarrow> rel_option same_value (get (HMap kvs) k) (get (HMap kvs') k)"
  shows "same_value (HMap kvs) (HMap kvs')"
proof (rule same_value_HMapI)
  show "rel_option same_value (map_of kvs k) (map_of kvs' k)" for k
  proof (cases "k \<in> lit ` set ks")
    case True
    then show ?thesis using assms(5) by (auto simp: get_HMap)
  next
    case False
    then have "map_of kvs k = None" "map_of kvs' k = None"
      using assms(3,4) by (auto simp: map_of_eq_None_iff)
    then show ?thesis by simp
  qed
qed (use assms in auto)

lemma same_value_refl [simp]: "same_value h h"
  by (simp add: same_value_def)

lemma get_unique_keys: "unique_keys h \<Longrightarrow> get h k = Some v \<Longrightarrow> unique_keys v"
  by (cases h) (auto simp: get_def dest: map_of_SomeD)

lemma getf_present [simp]:
  "map_of (present k f x) (lit k') = (if k = k' then map_option f x else None)"
  by (auto simp: present_def split: option.splits)

lemma fst_present: "fst ` set (present k f x) = (if x = None then {} else {lit k})"
  by (auto simp: present_def split: option.splits)

lemma map_fst_present: "map fst (present k f x) = (if x = None then [] else [lit k])"
  by (auto simp: present_def split: option.splits)

section \<open>Values that are small enough for every limit\<close>

text \<open>
  \<open>bulk\<close> bounds the size of an encoding by counting three bytes per code unit and nine per head;
  \<open>plain n h\<close> checks \<open>h\<close> with at most \<open>n\<close> levels of nesting. Both evaluate without encoding a text.
\<close>

fun bulk :: "hail_value \<Rightarrow> nat" where
  "bulk (HText s) = 9 + 3 * length s"
| "bulk (HBytes bs) = 9 + length bs"
| "bulk (HArray xs) = 9 + sum_list (map bulk xs)"
| "bulk (HMap kvs) = 9 + sum_list (map (\<lambda>(k, v). 9 + 3 * length k + bulk v) kvs)"
| "bulk _ = 9"

fun plain :: "nat \<Rightarrow> hail_value \<Rightarrow> bool" where
  "plain n (HInt i) \<longleftrightarrow> 0 < n \<and> HAIL_MIN_INTEGER \<le> i \<and> i \<le> HAIL_MAX_INTEGER"
| "plain n (HText s) \<longleftrightarrow> 0 < n \<and> isWellFormed s"
| "plain n (HArray xs) \<longleftrightarrow> 0 < n \<and> (\<forall>x \<in> set xs. plain (n - 1) x)"
| "plain n (HMap kvs) \<longleftrightarrow> 0 < n \<and> length kvs \<le> 256 \<and> (\<forall>(k, v) \<in> set kvs. isWellFormed k \<and> plain (n - 1) v)"
| "plain n _ \<longleftrightarrow> 0 < n"

lemma utf8_length_le: "utf8_length s \<le> 3 * length s"
proof -
  have point: "length (utf8_point p) \<le> 4" "p < 65536 \<Longrightarrow> length (utf8_point p) \<le> 3" for p
    by (simp_all add: utf8_point_def)
  show ?thesis
  proof (induction s rule: code_points.induct)
    case (2 c)
    show ?case using point(2) [OF unat_unit_less, of c] by (simp add: utf8_length_def utf8_encode_def)
  next
    case (3 c d ds)
    then show ?case
      using point(1) [of "pair_point c d"] point(2) [OF unat_unit_less, of c]
      by (auto simp: utf8_length_def utf8_encode_def)
  qed (simp add: utf8_length_def utf8_encode_def)
qed

lemma argumentSize_le: "argumentSize n \<le> 9"
  by (simp add: argumentSize_def)

lemma encodedSize_le_bulk: "encodedSize h \<le> bulk h"
proof (induction h)
  case (HArray xs)
  then have "sum_list (map encodedSize xs) \<le> sum_list (map bulk xs)" by (intro sum_list_mono) auto
  with argumentSize_le [of "length xs"] show ?case by simp
next
  case (HMap kvs)
  have "sum_list (map (\<lambda>(k, v). argumentSize (utf8_length k) + utf8_length k + encodedSize v) kvs)
      \<le> sum_list (map (\<lambda>(k, v). 9 + 3 * length k + bulk v) kvs)"
  proof (rule sum_list_mono, clarify)
    fix k v assume "(k, v) \<in> set kvs"
    with HMap have "encodedSize v \<le> bulk v" by fastforce
    then show "argumentSize (utf8_length k) + utf8_length k + encodedSize v \<le> 9 + 3 * length k + bulk v"
      using argumentSize_le utf8_length_le by (intro add_mono) auto
  qed
  with argumentSize_le [of "length kvs"] show ?case by simp
next
  case (HText s)
  show ?case using argumentSize_le utf8_length_le by (auto intro: add_mono)
next
  case (HBytes bs)
  show ?case using argumentSize_le by (auto intro: add_mono)
next
  case (HInt i)
  show ?case using argumentSize_le by auto
qed auto

lemma items_le_bulk: "items h \<le> bulk h"
proof (induction h)
  case (HArray xs)
  then have "sum_list (map items xs) \<le> sum_list (map bulk xs)" by (intro sum_list_mono) auto
  then show ?case by simp
next
  case (HMap kvs)
  have "sum_list (map (\<lambda>(k, v). Suc (items v)) kvs) \<le> sum_list (map (\<lambda>(k, v). 9 + 3 * length k + bulk v) kvs)"
    by (rule sum_list_mono) (use HMap in fastforce)
  then show ?case by simp
qed auto

lemma length_le_bulk: "length xs \<le> sum_list (map bulk xs)"
proof (rule length_le_sum_list)
  show "1 \<le> bulk x" for x by (cases x) auto
qed

lemma within_plain:
  assumes "bulk h \<le> 4096" "plain n h" "d + n \<le> 33"
  shows "within DEFAULT_HAIL_RESOURCE_LIMITS d h"
  using assms
proof (induction h arbitrary: d n)
  case (HText s)
  then show ?case using utf8_length_le [of s] by (simp add: DEFAULT_HAIL_RESOURCE_LIMITS_def)
next
  case (HArray xs)
  have "length xs \<le> 4096" using length_le_bulk [of xs] HArray.prems(1) by simp
  moreover have "within DEFAULT_HAIL_RESOURCE_LIMITS (d + 1) x" if "x \<in> set xs" for x
    using that HArray.prems sum_list_member_le [OF that, of bulk]
    by (intro HArray.IH [of x "n - 1"]) auto
  ultimately show ?case using HArray.prems by (auto simp: DEFAULT_HAIL_RESOURCE_LIMITS_def)
next
  case (HMap kvs)
  have part: "9 + 3 * length k + bulk v \<le> 4096" if "(k, v) \<in> set kvs" for k v
    using HMap.prems(1) sum_list_member_le [OF that, of "\<lambda>(k, v). 9 + 3 * length k + bulk v"] by simp
  have "within DEFAULT_HAIL_RESOURCE_LIMITS (d + 1) v" if "(k, v) \<in> set kvs" for k v
    using that HMap.prems part [OF that] by (intro HMap.IH [of "(k, v)" v "n - 1"]) auto
  moreover have "utf8_length k \<le> 1048576" if "(k, v) \<in> set kvs" for k v
    using part [OF that] utf8_length_le [of k] by linarith
  ultimately show ?case using HMap.prems by (fastforce simp: DEFAULT_HAIL_RESOURCE_LIMITS_def)
qed (auto simp: DEFAULT_HAIL_RESOURCE_LIMITS_def)

lemma assertHailValue_plain:
  assumes "bulk h \<le> 4096" "plain 33 h"
  shows "assertHailValue DEFAULT_HAIL_RESOURCE_LIMITS (of_hail h) = Inr ()"
proof -
  have "items h \<le> 16384" "encodedSize h \<le> 1048576"
    using assms(1) items_le_bulk [of h] encodedSize_le_bulk [of h] by linarith+
  then show ?thesis
    unfolding assertHailValue_all using within_plain [OF assms, of 0]
    by (auto simp: DEFAULT_HAIL_RESOURCE_LIMITS_def)
qed

section \<open>Delivery statuses\<close>

definition read_state :: "jstring \<Rightarrow> HailDeliveryState" where
  "read_state s = (if s = lit ''accepted'' then Accepted else if s = lit ''on-hold'' then OnHold
     else if s = lit ''delivered'' then Delivered else if s = lit ''failed'' then Failed else Cancelled)"

definition read_status :: "hail_value \<Rightarrow> HailDeliveryStatus" where
  "read_status v = \<lparr>st_message_id = text_of (get v ''message_id''),
     st_envelope_digest = read_digest (get v ''envelope_digest''),
     st_from = text_of (get v ''from''), st_to = text_of (get v ''to''),
     st_revision = int_of (get v ''revision''), st_state = read_state (text_of (get v ''state'')),
     st_reason = map_option (\<lambda>x. text_of (Some x)) (get v ''reason''),
     st_occurred_at = int_of (get v ''occurred_at''),
     st_retry_at = map_option (\<lambda>x. int_of (Some x)) (get v ''retry_at'')\<rparr>"

definition safe_nat :: "int \<Rightarrow> bool" where
  "safe_nat i \<longleftrightarrow> 0 \<le> i \<and> i \<le> HAIL_MAX_INTEGER"

definition state_reasons :: "HailDeliveryState \<Rightarrow> string list" where
  "state_reasons s = (case s of OnHold \<Rightarrow> HOLD_REASONS | Failed \<Rightarrow> FAILURE_REASONS
     | Cancelled \<Rightarrow> CANCELLATION_REASONS | _ \<Rightarrow> [])"

text \<open>The union type \<open>HailDeliveryStatus\<close>: revision 1 is exactly \<open>accepted\<close>, each state has its reasons.\<close>

definition wf_status :: "HailDeliveryStatus \<Rightarrow> bool" where
  "wf_status s \<longleftrightarrow> UUID_V7_PATTERN (st_message_id s) \<and> length (digest_value (st_envelope_digest s)) = 32
     \<and> DID_PATTERN (st_from s) \<and> DID_PATTERN (st_to s)
     \<and> safe_nat (st_revision s) \<and> 1 \<le> st_revision s \<and> (st_revision s = 1 \<longleftrightarrow> st_state s = Accepted)
     \<and> safe_nat (st_occurred_at s)
     \<and> (case st_reason s of None \<Rightarrow> state_reasons (st_state s) = []
          | Some r \<Rightarrow> r \<in> lit ` set (state_reasons (st_state s)))
     \<and> (case st_retry_at s of None \<Rightarrow> st_state s \<noteq> OnHold
          | Some t \<Rightarrow> st_state s = OnHold \<and> safe_nat t \<and> st_occurred_at s \<le> t)"

lemma check_digest_Inr:
  "check_digest v p = Inr u \<longleftrightarrow> (\<exists>kvs bs. v = Some (HMap kvs) \<and> length bs = 32
     \<and> fst ` set kvs = {lit ''algorithm'', lit ''value''}
     \<and> get (HMap kvs) ''algorithm'' = Some (HText (lit ''sha-256'')) \<and> get (HMap kvs) ''value'' = Some (HBytes bs))"
  by (auto simp: check_digest_def)

lemma digest_same_value:
  assumes "check_digest v p = Inr ()" "\<forall>h. v = Some h \<longrightarrow> unique_keys h"
  shows "rel_option same_value v (Some (digest_object (read_digest v)))
    \<and> length (digest_value (read_digest v)) = 32"
proof -
  obtain kvs bs where v: "v = Some (HMap kvs)" "length bs = 32" "fst ` set kvs = {lit ''algorithm'', lit ''value''}"
    "get (HMap kvs) ''algorithm'' = Some (HText (lit ''sha-256''))" "get (HMap kvs) ''value'' = Some (HBytes bs)"
    using assms(1) by (auto simp: check_digest_Inr)
  have "same_value (HMap kvs) (HMap [(lit ''algorithm'', HText (lit ''sha-256'')), (lit ''value'', HBytes bs)])"
    by (rule same_value_objectsI [where ks = "[''algorithm'', ''value'']"])
      (use assms(2) v in \<open>auto simp: get_HMap\<close>)
  with v show ?thesis by (simp add: digest_object_def read_digest_def)
qed

lemma reasons_nonempty [simp]: "HOLD_REASONS \<noteq> []" "FAILURE_REASONS \<noteq> []" "CANCELLATION_REASONS \<noteq> []"
  by (simp_all add: HOLD_REASONS_def FAILURE_REASONS_def CANCELLATION_REASONS_def)

lemma text_in_iff: "text_in v options \<longleftrightarrow> (\<exists>s \<in> set options. v = txt_lit s)"
  by (auto simp: text_in_def)

lemma read_state_name: "s \<in> lit ` set DELIVERY_STATES \<Longrightarrow> lit (state_name (read_state s)) = s"
  by (auto simp: DELIVERY_STATES_def read_state_def)

lemma read_state_lit [simp]: "read_state (lit (state_name s)) = s"
  by (cases s) (simp_all add: read_state_def)

lemmas safe_bounds = safe_nat_def HAIL_MIN_INTEGER_def HAIL_MAX_INTEGER_def

definition status_keys :: "string list" where
  "status_keys = [''type'', ''version'', ''message_id'', ''envelope_digest'', ''from'', ''to'', ''revision'',
     ''state'', ''occurred_at'', ''reason'', ''retry_at'']"

lemma validateDeliveryStatus_facts:
  assumes "validateDeliveryStatus (HMap kvs) = Inr ()"
  defines "v \<equiv> HMap kvs"
  obtains mid frm to rev st occ
  where "get v ''message_id'' = Some (HText mid)" "UUID_V7_PATTERN mid"
    "get v ''from'' = Some (HText frm)" "DID_PATTERN frm" "get v ''to'' = Some (HText to)" "DID_PATTERN to"
    "get v ''revision'' = Some (HInt rev)" "safe_nat rev" "1 \<le> rev" "get v ''state'' = Some (HText (lit (state_name st)))"
    "rev = 1 \<longleftrightarrow> st = Accepted" "get v ''occurred_at'' = Some (HInt occ)" "safe_nat occ"
    "check_digest (get v ''envelope_digest'') (at ''envelope_digest'') = Inr ()"
    "case get v ''reason'' of None \<Rightarrow> state_reasons st = []
       | Some r \<Rightarrow> \<exists>s \<in> set (state_reasons st). r = HText (lit s)"
    "case get v ''retry_at'' of None \<Rightarrow> st \<noteq> OnHold
       | Some r \<Rightarrow> \<exists>t. r = HInt t \<and> st = OnHold \<and> safe_nat t \<and> occ \<le> t"
    "fst ` set kvs \<subseteq> lit ` set status_keys"
proof -
  note c = assms(1) [folded v_def, unfolded validateDeliveryStatus_def Let_def check_simps list.set ball_simps]
  obtain st where st: "get v ''state'' = Some (HText (lit (state_name st)))"
  proof -
    have "text_in (get v ''state'') DELIVERY_STATES" using c by simp
    then show thesis
      by (auto simp: text_in_iff DELIVERY_STATES_def intro: that [of Accepted] that [of OnHold]
          that [of Delivered] that [of Failed] that [of Cancelled])
  qed
  obtain mid frm to rev occ where b: "get v ''message_id'' = Some (HText mid)" "UUID_V7_PATTERN mid"
    "get v ''from'' = Some (HText frm)" "DID_PATTERN frm" "get v ''to'' = Some (HText to)" "DID_PATTERN to"
    "get v ''revision'' = Some (HInt rev)" "safe_nat rev" "1 \<le> rev"
    "get v ''occurred_at'' = Some (HInt occ)" "safe_nat occ"
    "check_digest (get v ''envelope_digest'') (at ''envelope_digest'') = Inr ()"
    using c by (auto simp: safe_bounds check_digest_Inr simp del: exactKeys_Inr)
  have "rev = 1 \<longleftrightarrow> st = Accepted" using c st b by (cases st) auto
  moreover have "case get v ''reason'' of None \<Rightarrow> state_reasons st = []
      | Some r \<Rightarrow> \<exists>s \<in> set (state_reasons st). r = HText (lit s)"
    using c st by (cases st) (auto simp: text_in_iff state_reasons_def split: option.splits)
  moreover have "case get v ''retry_at'' of None \<Rightarrow> st \<noteq> OnHold
       | Some r \<Rightarrow> \<exists>t. r = HInt t \<and> st = OnHold \<and> safe_nat t \<and> occ \<le> t"
    using c st b by (cases st) (auto simp: safe_bounds split: option.splits)
  moreover have "fst ` set kvs \<subseteq> lit ` set status_keys"
    using c by (simp add: v_def status_keys_def)
  ultimately show thesis using that b st by blast
qed

lemma validateDeliveryStatus_sound:
  assumes "validateDeliveryStatus (HMap kvs) = Inr ()" "unique_keys (HMap kvs)"
    and "get (HMap kvs) ''type'' = txt_lit ''hail.delivery-status''" "get (HMap kvs) ''version'' = int_lit 1"
  shows "wf_status (read_status (HMap kvs)) \<and> same_value (HMap kvs) (status_object (read_status (HMap kvs)))"
proof -
  let ?v = "HMap kvs" and ?s = "read_status (HMap kvs)"
  obtain mid frm to rev st occ where f: "get ?v ''message_id'' = Some (HText mid)" "UUID_V7_PATTERN mid"
    "get ?v ''from'' = Some (HText frm)" "DID_PATTERN frm" "get ?v ''to'' = Some (HText to)" "DID_PATTERN to"
    "get ?v ''revision'' = Some (HInt rev)" "safe_nat rev" "1 \<le> rev"
    "get ?v ''state'' = Some (HText (lit (state_name st)))"
    "rev = 1 \<longleftrightarrow> st = Accepted" "get ?v ''occurred_at'' = Some (HInt occ)" "safe_nat occ"
    and d: "check_digest (get ?v ''envelope_digest'') (at ''envelope_digest'') = Inr ()"
    and r: "case get ?v ''reason'' of None \<Rightarrow> state_reasons st = []
       | Some r \<Rightarrow> \<exists>s \<in> set (state_reasons st). r = HText (lit s)"
    "case get ?v ''retry_at'' of None \<Rightarrow> st \<noteq> OnHold
       | Some r \<Rightarrow> \<exists>t. r = HInt t \<and> st = OnHold \<and> safe_nat t \<and> occ \<le> t"
    and k: "fst ` set kvs \<subseteq> lit ` set status_keys"
    by (rule validateDeliveryStatus_facts [OF assms(1)])
  have dg: "rel_option same_value (get ?v ''envelope_digest'') (Some (digest_object (st_envelope_digest ?s)))"
    "length (digest_value (st_envelope_digest ?s)) = 32"
    using digest_same_value [OF d] get_unique_keys [OF assms(2)] by (simp_all add: read_status_def)
  have opt: "get ?v ''reason'' = map_option HText (st_reason ?s)"
    "get ?v ''retry_at'' = map_option HInt (st_retry_at ?s)"
    using r by (auto simp: read_status_def split: option.splits)
  have "wf_status ?s"
    using f r dg(2) by (auto simp: wf_status_def read_status_def split: option.splits)
  moreover have "same_value ?v (status_object ?s)"
    unfolding status_object_def
  proof (rule same_value_objectsI [where ks = status_keys])
    fix key assume "key \<in> set status_keys"
    then show "rel_option same_value (get ?v key) (get (HMap ([(lit ''type'', HText (lit ''hail.delivery-status'')),
        (lit ''version'', HInt 1), (lit ''message_id'', HText (st_message_id ?s)),
        (lit ''envelope_digest'', digest_object (st_envelope_digest ?s)),
        (lit ''from'', HText (st_from ?s)), (lit ''to'', HText (st_to ?s)), (lit ''revision'', HInt (st_revision ?s)),
        (lit ''state'', HText (lit (state_name (st_state ?s)))), (lit ''occurred_at'', HInt (st_occurred_at ?s))]
        @ present ''reason'' HText (st_reason ?s) @ present ''retry_at'' HInt (st_retry_at ?s))) key)"
      unfolding status_keys_def list.set
      by (elim insertE emptyE)
        (use f dg(1) opt assms(3,4) in \<open>simp_all add: get_HMap map_add_def read_status_def option.rel_refl split: option.split\<close>)
  qed (use assms(2) k in \<open>auto simp: status_keys_def map_fst_present fst_present image_Un\<close>)
  ultimately show ?thesis by blast
qed

lemma get_status_object:
  "get (status_object s) ''type'' = txt_lit ''hail.delivery-status''"
  "get (status_object s) ''version'' = int_lit 1"
  "get (status_object s) ''message_id'' = Some (HText (st_message_id s))"
  "get (status_object s) ''envelope_digest'' = Some (digest_object (st_envelope_digest s))"
  "get (status_object s) ''from'' = Some (HText (st_from s))"
  "get (status_object s) ''to'' = Some (HText (st_to s))"
  "get (status_object s) ''revision'' = Some (HInt (st_revision s))"
  "get (status_object s) ''state'' = Some (HText (lit (state_name (st_state s))))"
  "get (status_object s) ''occurred_at'' = Some (HInt (st_occurred_at s))"
  "get (status_object s) ''reason'' = map_option HText (st_reason s)"
  "get (status_object s) ''retry_at'' = map_option HInt (st_retry_at s)"
  by (simp_all add: status_object_def get_HMap map_add_def split: option.split)

lemma check_digest_object [simp]: "check_digest (Some (digest_object d)) p = Inr () \<longleftrightarrow> length (digest_value d) = 32"
  by (auto simp: digest_object_def get_HMap check_digest_def)

lemma read_digest_object [simp]: "read_digest (Some (digest_object d)) = d"
  by (simp add: read_digest_def digest_object_def get_HMap)

lemma status_object_map: "\<exists>kvs. status_object s = HMap kvs"
  by (simp add: status_object_def)

lemma read_status_object: "read_status (status_object s) = s"
  by (cases s) (simp add: read_status_def get_status_object option.map_comp o_def option.map_ident)

lemma validateDeliveryStatus_complete:
  assumes "wf_status s"
  shows "validateDeliveryStatus (status_object s) = Inr ()"
proof -
  have "exactKeys (Some (status_object s)) (take 9 status_keys) (drop 9 status_keys) [] = Inr ()"
    by (simp add: status_object_def status_keys_def image_Un fst_present)
  then show ?thesis
    using assms
    by (cases "st_state s")
      (auto simp: validateDeliveryStatus_def get_status_object wf_status_def status_keys_def safe_bounds text_in_iff
        DELIVERY_STATES_def state_reasons_def simp del: exactKeys_Inr split: option.splits)
qed

lemma unique_digest_object [simp]: "unique_keys (digest_object d)"
  by (simp add: digest_object_def)

lemma unique_status_object: "unique_keys (status_object s)"
  by (simp add: status_object_def map_fst_present image_Un fst_present) (auto simp: present_def split: option.splits)

text \<open>What \<open>validatePayload\<close> has established when it returns for a signed type.\<close>

lemma validatePayload_signed:
  assumes "validatePayload env t (of_hail h) = Inr ()" and "t \<in> set signed_types"
  obtains kvs where "h = HMap kvs" "get h ''type'' = txt_lit (type_name t)" "validate_by_type env t h = Inr ()"
    "version_exempt t (get h ''version'') \<or> get h ''version'' = int_lit 1" "within DEFAULT_HAIL_RESOURCE_LIMITS 0 h"
proof -
  have "assertHailValue DEFAULT_HAIL_RESOURCE_LIMITS (of_hail h) = Inr ()"
    using assms(1) by (simp add: validatePayload_def)
  then have "within DEFAULT_HAIL_RESOURCE_LIMITS 0 h"
    unfolding assertHailValue_all by (metis to_hail_of_hail)
  with assms that show thesis by (auto simp: validatePayload_def Let_def)
qed

text \<open>
  The type assertion for delivery statuses is sound: a value that \<open>validatePayload\<close> accepts
  as a delivery status is, up to the order of its members, the object of a record of the union
  type \<open>HailDeliveryStatus\<close>. In particular \<open>accepted\<close> occurs exactly at revision 1, a hold, failure or
  cancellation carries one of its own reasons and no other state carries any, and a retry time is
  present exactly for a hold and not before the event.
\<close>

theorem delivery_status_sound:
  assumes "validatePayload env DeliveryStatus (of_hail h) = Inr ()" and "unique_keys h"
  shows "wf_status (read_status h) \<and> same_value h (status_object (read_status h))"
proof -
  obtain kvs where h: "h = HMap kvs" "get h ''type'' = txt_lit (type_name DeliveryStatus)"
      "validate_by_type env DeliveryStatus h = Inr ()"
      "version_exempt DeliveryStatus (get h ''version'') \<or> get h ''version'' = int_lit 1"
    using validatePayload_signed [OF assms(1)] by (auto simp: signed_types_def)
  with assms(2) show ?thesis
    using validateDeliveryStatus_sound [of kvs] by (simp add: validate_by_type_def version_exempt_def)
qed

definition alice :: jstring where "alice = lit ''did:plc:aaaaaaaaaaaaaaaaaaaaaaaa''"
definition bob :: jstring where "bob = lit ''did:plc:bbbbbbbbbbbbbbbbbbbbbbbb''"
definition message_1 :: jstring where "message_1 = lit ''01890a5d-ac96-774b-bcce-b302099a8057''"
definition message_2 :: jstring where "message_2 = lit ''01890a5d-ac96-774b-bcce-b302099a8058''"

lemma example_ids: "DID_PATTERN alice" "DID_PATTERN bob" "UUID_V7_PATTERN message_1" "UUID_V7_PATTERN message_2"
  unfolding alice_def bob_def message_1_def message_2_def by code_simp+

definition example_status :: HailDeliveryStatus where
  "example_status = \<lparr>st_message_id = message_1, st_envelope_digest = \<lparr>digest_value = replicate 32 7\<rparr>,
     st_from = alice, st_to = bob, st_revision = 2, st_state = OnHold,
     st_reason = Some (lit ''sender-unreachable''), st_occurred_at = 1000, st_retry_at = Some 1060\<rparr>"

lemma wf_example_status: "wf_status example_status"
  by (simp add: wf_status_def example_status_def example_ids safe_bounds state_reasons_def HOLD_REASONS_def)

lemma example_lengths [simp]: "length alice = 32" "length bob = 32" "length message_1 = 36" "length message_2 = 36"
  "isWellFormed alice" "isWellFormed bob" "isWellFormed message_1" "isWellFormed message_2"
  by (simp_all add: alice_def bob_def message_1_def message_2_def)

lemma example_plain: "bulk (status_object example_status) \<le> 4096" "plain 33 (status_object example_status)"
  by (simp_all add: status_object_def example_status_def present_def digest_object_def
      HAIL_MIN_INTEGER_def HAIL_MAX_INTEGER_def)

lemma validatePayload_signedI:
  assumes "bulk h \<le> 4096" "plain 33 h" "\<exists>kvs. h = HMap kvs" "t \<in> set signed_types"
    "get h ''type'' = txt_lit (type_name t)" "version_exempt t (get h ''version'') \<or> get h ''version'' = int_lit 1"
    "validate_by_type env t h = Inr ()"
  shows "validatePayload env t (of_hail h) = Inr ()"
  using assms(3-) assertHailValue_plain [OF assms(1,2)] by (simp add: validatePayload_def)

text \<open>Services for concrete evaluations: every domain is canonical and public.\<close>

definition example_env :: validation_env where
  "example_env = \<lparr>sha256 = (\<lambda>_. replicate 32 7), toUnicode_error = (\<lambda>_. False), toASCII = Some,
     parseDomain = (\<lambda>d. \<lparr>pd_domain = Some d, isIcann = True, isPrivate = False\<rparr>), normalizeNFC = (\<lambda>s. s),
     parseURL = (\<lambda>_. None)\<rparr>"

theorem delivery_status_sound_witness:
  "same_value (status_object example_status) (status_object (read_status (status_object example_status)))"
proof -
  have "validatePayload example_env DeliveryStatus (of_hail (status_object example_status)) = Inr ()"
    by (rule validatePayload_signedI)
      (simp_all add: validate_by_type_def validateDeliveryStatus_complete wf_example_status version_exempt_def
        get_status_object signed_types_def example_plain status_object_map)
  then show ?thesis
    using delivery_status_sound [OF _ unique_status_object] by blast
qed

text \<open>
  The type assertion for delivery statuses is complete: the object of a record passes the
  validator if and only if the record satisfies the conditions of the union type.
\<close>

theorem delivery_status_exact:
  "validateDeliveryStatus (status_object s) = Inr () \<longleftrightarrow> wf_status s"
proof
  assume "validateDeliveryStatus (status_object s) = Inr ()"
  moreover obtain kvs where "status_object s = HMap kvs" using status_object_map by blast
  ultimately show "wf_status s"
    using validateDeliveryStatus_sound [of kvs] unique_status_object [of s] get_status_object [of s]
      read_status_object [of s] by simp
qed (rule validateDeliveryStatus_complete)

end
