(* ===== verification/ValidationOrder.thy ===== *)
theory ValidationOrder
  imports Models
begin

text \<open>
  Validation does not depend on the order in which an object enumerates its members: a value and
  its rearrangement are accepted alike. This is what makes the value that a signer validates and
  the value that a verifier decodes interchangeable.
\<close>

named_theorems reorder \<open>reading a value whose members have been sorted\<close>

lemma map_of_filter_key:
  "(\<And>v. P (k, v)) \<Longrightarrow> map_of (filter P xs) k = map_of xs k"
  by (induction xs) auto

lemma map_of_sort_key_bytes: "map_of (sort_key key_bytes xs) k = map_of xs k"
proof -
  let ?P = "\<lambda>x. key_bytes x = enc (CText k)"
  have "map_of (sort_key key_bytes xs) k = map_of (filter ?P (sort_key key_bytes xs)) k"
    by (rule map_of_filter_key [symmetric]) (simp add: key_bytes_def)
  also have "filter ?P (sort_key key_bytes xs) = filter ?P xs" by (rule sort_key_stable)
  also have "map_of (filter ?P xs) k = map_of xs k"
    by (rule map_of_filter_key) (simp add: key_bytes_def)
  finally show ?thesis .
qed

abbreviation sorted_field :: "hail_value option \<Rightarrow> hail_value option" where
  "sorted_field \<equiv> map_option sort_members"

lemma members_sort:
  "members (sort_members h) = sort_key key_bytes (map (\<lambda>(k, v). (k, sort_members v)) (members h))"
  by (cases h) auto

lemma get_sort [reorder]: "get (sort_members h) k = sorted_field (get h k)"
  by (simp add: get_def members_sort map_of_sort_key_bytes map_of_map_snd)

lemma getf_sort [reorder]: "getf (sorted_field v) k = sorted_field (getf v k)"
  by (cases v) (simp_all add: get_sort)

lemma read_sort [reorder]:
  "text_of (sorted_field v) = text_of v" "int_of (sorted_field v) = int_of v"
  "bytes_of (sorted_field v) = bytes_of v" "bool_of (sorted_field v) = bool_of v"
  "list_of (sorted_field v) = map sort_members (list_of v)"
  by (cases v; (cases "the v")?; simp)+

lemma sort_scalar [simp]:
  "sort_members x = HNull \<longleftrightarrow> x = HNull" "sort_members x = HBool b \<longleftrightarrow> x = HBool b"
  "sort_members x = HInt i \<longleftrightarrow> x = HInt i" "sort_members x = HText s \<longleftrightarrow> x = HText s"
  "sort_members x = HBytes bs \<longleftrightarrow> x = HBytes bs"
  by (cases x; simp)+

lemma sorted_scalar [reorder]:
  "sorted_field v = None \<longleftrightarrow> v = None" "sorted_field v = Some HNull \<longleftrightarrow> v = Some HNull"
  "sorted_field v = Some (HInt i) \<longleftrightarrow> v = Some (HInt i)" "sorted_field v = Some (HText s) \<longleftrightarrow> v = Some (HText s)"
  "sorted_field v = Some (HBytes bs) \<longleftrightarrow> v = Some (HBytes bs)" "sorted_field v = Some (HBool b) \<longleftrightarrow> v = Some (HBool b)"
  by auto

lemma sorted_scalar_flipped: "Some (HText s) = sorted_field v \<longleftrightarrow> v = Some (HText s)"
  using sorted_scalar(4) by metis

lemma is_map_sort [reorder]: "is_map (sorted_field v) = is_map v"
  by (cases v; (cases "the v")?; simp add: is_map_def)

lemma check_sort [reorder]:
  "check_record (sorted_field v) p = check_record v p" "check_text (sorted_field v) p = check_text v p"
  "check_integer (sorted_field v) p m = check_integer v p m" "check_boolean (sorted_field v) p = check_boolean v p"
  "check_bytes (sorted_field v) n p = check_bytes v n p" "check_array (sorted_field v) p = check_array v p"
  by (simp add: check_record_def is_map_sort)
    (cases v; (cases "the v")?; simp add: check_text_def check_integer_def check_boolean_def check_bytes_def check_array_def)+

lemma check_pattern_sort [reorder]:
  "check_pattern pat (sorted_field v) p = check_pattern pat v p" "check_did (sorted_field v) p = check_did v p"
  "check_uuid (sorted_field v) p = check_uuid v p" "check_category (sorted_field v) p = check_category v p"
  "check_keyId (sorted_field v) signer role p = check_keyId v signer role p"
  "hailAddress env (sorted_field v) p = hailAddress env v p"
  "profileText env (sorted_field v) lo hi p = profileText env v lo hi p"
  by (simp_all add: check_pattern_def check_did_def check_uuid_def check_category_def check_keyId_def hailAddress_def
      profileText_def check_sort read_sort)

lemma text_in_sort [reorder]: "text_in (sorted_field v) options = text_in v options"
  by (auto simp: text_in_iff sorted_scalar)

lemma fst_members_sort: "fst ` set (members (sort_members h)) = fst ` set (members h)"
  by (force simp: members_sort)

lemma exactKeys_iff: "exactKeys v req opt p = Inr u \<longleftrightarrow>
    (let own = fst ` set (case v of None \<Rightarrow> [] | Some h \<Rightarrow> members h) in
     own \<subseteq> lit ` set (req @ opt) \<and> lit ` set req \<subseteq> own)"
  by (simp add: exactKeys_def Let_def ball_Un image_subset_iff o_def) blast

lemma exactKeys_sort [reorder]: "exactKeys (sorted_field v) req opt p = Inr u \<longleftrightarrow> exactKeys v req opt p = Inr u"
  by (cases v) (simp_all add: exactKeys_iff fst_members_sort)

lemma check_digest_sort [reorder]: "check_digest (sorted_field v) p = Inr u \<longleftrightarrow> check_digest v p = Inr u"
  by (simp add: check_digest_def reorder)

lemma Some_sort: "Some (sort_members h) = sorted_field (Some h)"
  by simp

lemma distinct_fields_sort:
  "check_did a p = Inr () \<Longrightarrow> check_did b q = Inr () \<Longrightarrow> sorted_field a = sorted_field b \<longleftrightarrow> a = b"
  by auto

section \<open>Traversals\<close>

lemma ascending_check_sort:
  assumes "\<And>i x. f i (sort_members x) = Inr () \<longleftrightarrow> f i x = Inr ()" "\<And>x. key (sort_members x) = key x"
    and "\<And>i x. g i (sort_members x) = Inr () \<longleftrightarrow> g i x = Inr ()"
  shows "ascending_check f key p g i previous (map sort_members xs) = Inr u \<longleftrightarrow>
    ascending_check f key p g i previous xs = Inr u"
  by (induction xs arbitrary: i previous) (simp_all add: assms)

lemma check_category_Some [reorder]: "check_category (Some (sort_members x)) p = check_category (Some x) p"
  "check_did (Some (sort_members x)) p = check_did (Some x) p" "text_of (Some (sort_members x)) = text_of (Some x)"
  "check_record (Some (sort_members x)) p = check_record (Some x) p"
  "exactKeys (Some (sort_members x)) req opt p = Inr u \<longleftrightarrow> exactKeys (Some x) req opt p = Inr u"
  unfolding Some_sort by (simp_all only: reorder)

lemma check_scope_sort [reorder]: "check_scope (sorted_field v) = Inr u \<longleftrightarrow> check_scope v = Inr u"
proof (cases "length (list_of v) = 1")
  case True
  then obtain x where x: "list_of v = [x]" by (cases "list_of v") auto
  show ?thesis
    by (simp add: check_scope_def Let_def reorder x ascending_check_sort)
qed (simp add: check_scope_def Let_def reorder)

lemma check_consent_sort [reorder]:
  "check_consent_context env hashes (sorted_field v) = Inr u \<longleftrightarrow> check_consent_context env hashes v = Inr u"
  by (auto simp: check_consent_context_def Let_def reorder)

lemma check_asset_sort [reorder]:
  "check_asset env ids roles p (sort_members a) = Inr u \<longleftrightarrow> check_asset env ids roles p a = Inr u"
proof -
  have "(case sorted_field v of Some (HBytes _) \<Rightarrow> False | _ \<Rightarrow> True) = (case v of Some (HBytes _) \<Rightarrow> False | _ \<Rightarrow> True)" for v
    by (cases v; (cases "the v")?; simp)
  then show ?thesis by (auto simp: check_asset_def Let_def reorder)
qed

lemma check_assets_sort [reorder]:
  "check_assets env ids roles i (map sort_members assets) = Inr u \<longleftrightarrow> check_assets env ids roles i assets = Inr u"
  by (induction assets arbitrary: ids roles i) (simp_all add: reorder)

lemma within_assert_sort [reorder]:
  "assertHailValue l (of_hail (sort_members h)) = Inr u \<longleftrightarrow> assertHailValue l (of_hail h) = Inr u"
proof -
  have "of_hail x = of_hail y \<longleftrightarrow> x = y" for x y by (metis to_hail_of_hail)
  then show ?thesis using assertHailValue_all [of l] by auto
qed

lemma assert_field_sort [reorder]: "assert_field (sorted_field v) = Inr u \<longleftrightarrow> assert_field v = Inr u"
  by (cases v) (simp_all add: assert_field_def reorder)

lemma validateAssetManifest_sort [reorder]:
  "validateAssetManifest env (sorted_field v) = Inr u \<longleftrightarrow> validateAssetManifest env v = Inr u"
  by (auto simp: validateAssetManifest_def reorder)

section \<open>Signed payloads\<close>

lemma validate_address_sort: "validateAddressBinding env (sort_members h) = Inr u \<longleftrightarrow> validateAddressBinding env h = Inr u"
  by (simp add: validateAddressBinding_def reorder)

lemma validate_profile_sort: "validateSenderProfile env (sort_members h) = Inr u \<longleftrightarrow> validateSenderProfile env h = Inr u"
proof -
  have c: "ascending_check check_sender_category (\<lambda>item. text_of (get item ''id'')) p (check_category_texts env) 0 []
      (map sort_members xs) = Inr () \<longleftrightarrow>
    ascending_check check_sender_category (\<lambda>item. text_of (get item ''id'')) p (check_category_texts env) 0 [] xs = Inr ()" for p xs
    by (rule ascending_check_sort) (simp_all add: check_sender_category_def check_category_texts_def Let_def reorder)
  show ?thesis
    unfolding validateSenderProfile_def Let_def
    by (cases "list_of (getf (get h ''assets'') ''assets'')") (simp_all add: reorder c del: One_nat_def)
qed

lemma validate_grant_sort: "validateGrant env (sort_members h) = Inr u \<longleftrightarrow> validateGrant env h = Inr u"
proof -
  have "(case sorted_field v of Some (HBytes _) \<Rightarrow> False | _ \<Rightarrow> True) = (case v of Some (HBytes _) \<Rightarrow> False | _ \<Rightarrow> True)" for v
    by (cases v; (cases "the v")?; simp)
  then show ?thesis by (simp add: validateGrant_def Let_def reorder)
qed

lemma connectionExpiry_sort [reorder]:
  "connectionExpiry (sort_members h) c = connectionExpiry h c"
  by (simp add: connectionExpiry_def Let_def reorder)

lemma validate_connection_sort:
  "validateConnectionInvitation (sort_members h) = Inr u \<longleftrightarrow> validateConnectionInvitation h = Inr u"
  "validateConnectionConfirmation (sort_members h) = Inr u \<longleftrightarrow> validateConnectionConfirmation h = Inr u"
  "validateConnectionGrant env (sort_members h) = Inr u \<longleftrightarrow> validateConnectionGrant env h = Inr u"
  "validateConversationRevival (sort_members h) = Inr u \<longleftrightarrow> validateConversationRevival h = Inr u"
  using distinct_fields_sort [of "get h ''from''" _ "get h ''to''"] distinct_fields_sort [of "get h ''grantor''" _ "get h ''grantee''"]
  by (auto simp: validateConnectionInvitation_def validateConnectionConfirmation_def validateConnectionGrant_def
      validateConversationRevival_def Let_def reorder)

lemma js_string_sort: "js_string (sort_members x) = js_string x"
proof (induction x)
  case (HArray xs)
  have "(case sort_members x of HNull \<Rightarrow> [] | _ \<Rightarrow> js_string (sort_members x)) = (case x of HNull \<Rightarrow> [] | _ \<Rightarrow> js_string x)"
    if "x \<in> set xs" for x
    using HArray [OF that] by (cases x) auto
  then have "map (\<lambda>x. case sort_members x of HNull \<Rightarrow> [] | _ \<Rightarrow> js_string (sort_members x)) xs
      = map (\<lambda>x. case x of HNull \<Rightarrow> [] | _ \<Rightarrow> js_string x) xs" by (rule map_cong [OF refl])
  then show ?case unfolding sort_members.simps js_string.simps map_map o_def by (rule arg_cong)
qed simp_all

lemma string_in_sort [reorder]: "string_in (sorted_field v) options = string_in v options"
  by (cases v) (simp_all add: string_in_def js_string_sort)

lemma validate_control_sort: "validateConnectionControl (sort_members h) = Inr u \<longleftrightarrow> validateConnectionControl h = Inr u"
  using distinct_fields_sort [of "get h ''from''" _ "get h ''to''"]
  by (auto simp: validateConnectionControl_def Let_def reorder)

lemma validate_conversation_sort: "validateConversation (sort_members h) = Inr u \<longleftrightarrow> validateConversation h = Inr u"
proof -
  have "the (sorted_field v) \<in> set (map sort_members xs) \<longleftrightarrow> the v \<in> set xs" if d: "check_did v p = Inr ()" for v xs and p :: path
  proof -
    obtain s where v: "v = Some (HText s)" using d by auto
    have "HText s = sort_members x \<longleftrightarrow> x = HText s" for x by (metis sort_scalar(4))
    then have "HText s \<in> sort_members ` set xs \<longleftrightarrow> HText s \<in> set xs" by (simp add: image_iff)
    then show ?thesis by (simp add: v)
  qed
  from this [of "get h ''from''"] show ?thesis
    by (auto simp: validateConversation_def Let_def reorder ascending_check_sort)
qed

lemma validate_status_sort: "validateDeliveryStatus (sort_members h) = Inr u \<longleftrightarrow> validateDeliveryStatus h = Inr u"
  by (simp add: validateDeliveryStatus_def Let_def reorder)

lemma envelope_parts_sort [reorder]:
  "check_body_descriptor (sort_members h) = Inr u \<longleftrightarrow> check_body_descriptor h = Inr u"
  "check_reply (sort_members h) = Inr u \<longleftrightarrow> check_reply h = Inr u"
  by (simp_all add: check_body_descriptor_def check_reply_def Let_def reorder)

lemma check_reference_sort [reorder]: "check_reference (sorted_field v) = Inr u \<longleftrightarrow> check_reference v = Inr u"
  by (simp add: check_reference_def Let_def reorder)

lemma check_introduction_sort:
  assumes "check_did (get h ''from'') p = Inr ()" "check_uuid (get h ''conversation_message_id'') q = Inr ()"
  shows "check_introduction env (sort_members h) = Inr u \<longleftrightarrow> check_introduction env h = Inr u"
proof -
  have "(case sorted_field v of Some (HBytes bs) \<Rightarrow> length bs < 1 \<or> 16384 < length bs | _ \<Rightarrow> True) =
      (case v of Some (HBytes bs) \<Rightarrow> length bs < 1 \<or> 16384 < length bs | _ \<Rightarrow> True)" for v
    by (cases v; (cases "the v")?; simp)
  moreover obtain f m where "get h ''from'' = Some (HText f)" "get h ''conversation_message_id'' = Some (HText m)"
    using assms by auto
  ultimately show ?thesis
    by (simp add: check_introduction_def Let_def reorder sorted_scalar_flipped eq_commute [of "Some (HText f)"]
        eq_commute [of "Some (HText m)"])
qed

lemma check_authorization_sort:
  assumes "check_did (get h ''from'') p = Inr ()" "check_did (get h ''to'') q = Inr ()"
  shows "check_authorization env (sort_members h) = Inr u \<longleftrightarrow> check_authorization env h = Inr u"
  using assms check_introduction_sort [OF assms(1)] distinct_fields_sort [OF assms]
  by (auto simp: check_authorization_def Let_def reorder)

lemma check_parents_sort:
  assumes "check_did (get h ''from'') p = Inr ()" "check_did (get h ''to'') q = Inr ()"
    and "check_authorization env h = Inr ()"
  shows "check_parents (sort_members h) = Inr u \<longleftrightarrow> check_parents h = Inr u"
proof -
  obtain f t where ft: "get h ''from'' = Some (HText f)" "get h ''to'' = Some (HText t)" using assms by auto
  have r: "check_reference v = Inr () \<Longrightarrow> \<exists>s m. getf v ''sender'' = Some (HText s) \<and> getf v ''message_id'' = Some (HText m)" for v
    by (auto simp: check_reference_def Let_def)
  from ft r [of "get h ''in_reply_to''"] show ?thesis
    by (auto simp: check_parents_def Let_def reorder sorted_scalar_flipped)
qed

lemma validate_envelope_sort: "validateEnvelope env (sort_members h) = Inr u \<longleftrightarrow> validateEnvelope env h = Inr u"
proof (cases "check_did (get h ''from'') (at ''from'') = Inr () \<and> check_did (get h ''to'') (at ''to'') = Inr ()
    \<and> check_authorization env h = Inr ()")
  case True
  moreover have "exactKeys (Some (sort_members h)) envelope_keys (envelope_optional (sorted_field (get h ''version''))) [] = Inr ()
      \<longleftrightarrow> exactKeys (Some h) envelope_keys (envelope_optional (get h ''version'')) [] = Inr ()"
    by (simp add: reorder envelope_optional_def)
  ultimately show ?thesis
    using check_authorization_sort [of h "at ''from''" "at ''to''" env] check_parents_sort [of h "at ''from''" "at ''to''" env]
    unfolding validateEnvelope_def Let_def by (simp only: reorder check_simps list.set ball_simps)
next
  case False
  then show ?thesis
    using check_authorization_sort [of h "at ''from''" "at ''to''" env]
    by (auto simp: validateEnvelope_def Let_def get_sort check_pattern_sort)
qed

lemma validate_by_type_sort:
  assumes "t \<in> set signed_types"
  shows "validate_by_type env t (sort_members h) = Inr u \<longleftrightarrow> validate_by_type env t h = Inr u"
  by (insert assms, cases t rule: HailPayloadType.exhaust)
    (simp_all add: validate_by_type_def validate_address_sort validate_profile_sort validate_grant_sort
      validate_connection_sort validate_control_sort validate_conversation_sort validate_envelope_sort
      validate_status_sort signed_types_def)

lemma validatePayload_sort:
  assumes "t \<in> set signed_types"
  shows "validatePayload env t (of_hail (sort_members h)) = Inr u \<longleftrightarrow> validatePayload env t (of_hail h) = Inr u"
  using assms
  by (simp add: validatePayload_def Let_def reorder validate_by_type_sort version_exempt_def)

end
