(* ===== verification/Cose.thy ===== *)
theory Cose
  imports ValidationOrder
begin

text \<open>
  \<^verbatim>\<open>packages/hail-codec-ts/src\<close>: \<open>payload.ts\<close>, \<open>cose.ts\<close>, \<open>webcrypto.ts\<close> and \<open>conversations.ts\<close>.
  A payload is validated, encoded deterministically and wrapped in a COSE_Sign1 structure whose
  protected header names the algorithm, the content type of the payload type and the signer's
  key; a verifier takes the structure apart again and checks the signature over the
  \<open>Signature1\<close> structure of RFC 9052.

  The signer and the verifier are callbacks. An \<open>Inl\<close> that one of them returns stands for its
  rejection, which the codec passes on unchanged.
\<close>

section \<open>Payloads\<close>

definition encodePayload ::
  "cborg \<Rightarrow> validation_env \<Rightarrow> HailPayloadType \<Rightarrow> jsvalue \<Rightarrow> HailResourceLimits \<Rightarrow> bytes result" where
  "encodePayload lib env t payload limits =
     and_then (validatePayload env t payload) (\<lambda>_. encodeDeterministic lib limits payload)"

definition decodePayload ::
  "cborg \<Rightarrow> validation_env \<Rightarrow> HailPayloadType \<Rightarrow> bytes \<Rightarrow> HailResourceLimits \<Rightarrow> hail_value result" where
  "decodePayload lib env t bs limits =
     and_then (decodeDeterministic lib limits bs) (\<lambda>payload.
       and_then (validatePayload env t (of_hail payload)) (\<lambda>_. Inr payload))"

section \<open>Signers, verifiers and results\<close>

record HailSigner =
  signer_keyId :: jstring
  sign :: "bytes \<Rightarrow> jsvalue result"

record HailVerifier =
  verify :: "bytes \<Rightarrow> bytes \<Rightarrow> jstring \<Rightarrow> bool result"

record InspectedHailObject =
  object_type :: HailPayloadType
  object_keyId :: jstring
  object_payload :: hail_value
  object_payloadBytes :: bytes
  object_representationBytes :: bytes

record ParsedCose =
  parsed_keyId :: jstring
  parsed_payload :: hail_value
  parsed_payloadBytes :: bytes
  parsed_protectedBytes :: bytes
  parsed_representationBytes :: bytes
  parsed_signature :: bytes

definition coseLimits :: "nat \<Rightarrow> HailResourceLimits" where
  "coseLimits m = \<lparr>maximumBytes = m, maximumDepth = 8, maximumItems = 256, maximumArrayLength = 8,
     maximumMapEntries = 8, maximumTextBytes = 1024, maximumByteStringLength = m\<rparr>"

definition payloadLimits :: "nat \<Rightarrow> HailResourceLimits" where
  "payloadLimits m = \<lparr>maximumBytes = m, maximumDepth = 32, maximumItems = 16384, maximumArrayLength = 4096,
     maximumMapEntries = 256, maximumTextBytes = 1048576, maximumByteStringLength = 1048576\<rparr>"

text \<open>Reading an element of a destructured array and an entry of a native map.\<close>

fun slot_value :: "jsslot \<Rightarrow> jsvalue" where
  "slot_value (Data e v) = v"
| "slot_value _ = JUndefined"

definition map_get :: "(jsvalue \<times> jsvalue) list \<Rightarrow> int \<Rightarrow> jsvalue option" where
  "map_get entries k = map_of entries (JNumber (Integral k))"

section \<open>Parsing\<close>

text \<open>
  \<open>parseCose\<close> in the order of the source: the tagged structure, the four elements, the protected
  header, the payload, and the agreement of the key identifiers.
\<close>

definition parse_elements :: "cborg \<Rightarrow> nat \<Rightarrow> bytes \<Rightarrow> (bytes \<times> bytes \<times> bytes) result" where
  "parse_elements lib m representation =
     (if m < length representation then throw ResourceLimit
      else and_then (assertCborResourceLimits representation (coseLimits m) [COSE_SIGN1_TAG]) (\<lambda>_.
        case decodeCbor lib [COSE_SIGN1_TAG] representation of
          None \<Rightarrow> throw InvalidCose
        | Some (JTagged tag v) \<Rightarrow>
            if tag \<noteq> COSE_SIGN1_TAG then throw InvalidCose
            else if encodeCbor lib (JTagged tag v) \<noteq> representation then throw NonDeterministicCbor
            else (case v of
              JArray b [s1, s2, s3, s4] \<Rightarrow>
                (case slot_value s1 of
                  JUint8Array protectedBytes \<Rightarrow>
                    if slot_value s2 \<noteq> JMap [] then throw InvalidCose
                    else (case slot_value s3 of
                      JUint8Array payloadBytes \<Rightarrow>
                        (case slot_value s4 of
                          JUint8Array signature \<Rightarrow>
                            if length signature \<noteq> 64 then throw InvalidCose
                            else Inr (protectedBytes, payloadBytes, signature)
                        | _ \<Rightarrow> throw InvalidCose)
                    | _ \<Rightarrow> throw InvalidCose)
                | _ \<Rightarrow> throw InvalidCose)
            | _ \<Rightarrow> throw InvalidCose)
        | Some _ \<Rightarrow> throw InvalidCose))"

definition parse_header :: "cborg \<Rightarrow> string \<Rightarrow> bytes \<Rightarrow> jstring result" where
  "parse_header lib content protectedBytes =
     and_then (assertCborResourceLimits protectedBytes (coseLimits 1024) []) (\<lambda>_.
       case decodeCbor lib [] protectedBytes of
         Some (JMap entries) \<Rightarrow>
           if length entries \<noteq> 3 then throw InvalidCose
           else if encodeCbor lib (JMap entries) \<noteq> protectedBytes then throw NonDeterministicCbor
           else if map_get entries COSE_ALGORITHM_HEADER \<noteq> Some (JNumber (Integral COSE_ED25519_ALGORITHM))
             then throw UnsupportedAlgorithm
           else if map_get entries COSE_CONTENT_TYPE_HEADER \<noteq> Some (JText (lit content))
             then throw WrongContentType
           else (case map_get entries COSE_KEY_ID_HEADER of
             Some (JUint8Array kid) \<Rightarrow>
               (case utf8_decode kid of None \<Rightarrow> throw InvalidCose | Some keyId \<Rightarrow> Inr keyId)
           | _ \<Rightarrow> throw InvalidCose)
       | _ \<Rightarrow> throw InvalidCose)"

definition parseCose :: "cborg \<Rightarrow> validation_env \<Rightarrow> HailPayloadType \<Rightarrow> bytes \<Rightarrow> ParsedCose result" where
  "parseCose lib env t representation =
     (let p = the (SIGNED_PROFILES t) in
      and_then (parse_elements lib (maximumRepresentationBytes p) representation)
        (\<lambda>(protectedBytes, payloadBytes, signature).
      and_then (parse_header lib (contentType p) protectedBytes) (\<lambda>keyId.
      and_then (decodeDeterministic lib (payloadLimits (maximumRepresentationBytes p)) payloadBytes) (\<lambda>payload.
      and_then (validatePayload env t (of_hail payload)) (\<lambda>_.
      and_then (expectedKeyId t payload) (\<lambda>expected.
        if keyId \<noteq> expected then throw WrongKeyRole
        else if get payload ''key_id'' \<noteq> None \<and> get payload ''key_id'' \<noteq> Some (HText keyId)
          then throw WrongKeyRole
        else Inr \<lparr>parsed_keyId = keyId, parsed_payload = payload, parsed_payloadBytes = payloadBytes,
          parsed_protectedBytes = protectedBytes, parsed_representationBytes = representation,
          parsed_signature = signature\<rparr>))))))"

definition inspectedResult :: "HailPayloadType \<Rightarrow> ParsedCose \<Rightarrow> InspectedHailObject" where
  "inspectedResult t parsed = \<lparr>object_type = t, object_keyId = parsed_keyId parsed,
     object_payload = parsed_payload parsed, object_payloadBytes = parsed_payloadBytes parsed,
     object_representationBytes = parsed_representationBytes parsed\<rparr>"

section \<open>Signing and verifying\<close>

definition signatureStructure :: "cborg \<Rightarrow> bytes \<Rightarrow> bytes \<Rightarrow> bytes" where
  "signatureStructure lib protectedBytes payloadBytes =
     encodeCbor lib (JArray False [Data True (JText (lit ''Signature1'')), Data True (JUint8Array protectedBytes),
       Data True (JUint8Array []), Data True (JUint8Array payloadBytes)])"

definition protectedHeader :: "string \<Rightarrow> jstring \<Rightarrow> jsvalue" where
  "protectedHeader content keyId = JMap [
     (JNumber (Integral COSE_ALGORITHM_HEADER), JNumber (Integral COSE_ED25519_ALGORITHM)),
     (JNumber (Integral COSE_CONTENT_TYPE_HEADER), JText (lit content)),
     (JNumber (Integral COSE_KEY_ID_HEADER), JUint8Array (utf8_encode keyId))]"

definition coseSign1 :: "bytes \<Rightarrow> bytes \<Rightarrow> bytes \<Rightarrow> jsvalue" where
  "coseSign1 protectedBytes payloadBytes signature =
     JTagged COSE_SIGN1_TAG (JArray False [Data True (JUint8Array protectedBytes), Data True (JMap []),
       Data True (JUint8Array payloadBytes), Data True (JUint8Array signature)])"

definition signPayload ::
  "cborg \<Rightarrow> validation_env \<Rightarrow> HailPayloadType \<Rightarrow> jsvalue \<Rightarrow> HailSigner \<Rightarrow> bytes result" where
  "signPayload lib env t payload signer =
     and_then (validatePayload env t payload) (\<lambda>_.
     and_then (expectedKeyId t (to_hail payload)) (\<lambda>expected.
       if signer_keyId signer \<noteq> expected then throw WrongKeyRole
       else (let p = the (SIGNED_PROFILES t) in
         and_then (encodePayload lib env t payload DEFAULT_HAIL_RESOURCE_LIMITS) (\<lambda>payloadBytes.
           let protectedBytes = encodeCbor lib (protectedHeader (contentType p) (signer_keyId signer)) in
           and_then (sign signer (signatureStructure lib protectedBytes payloadBytes)) (\<lambda>signature.
             case signature of
               JUint8Array signatureBytes \<Rightarrow>
                 if length signatureBytes \<noteq> 64 then throw InvalidCose
                 else (let representation = encodeCbor lib (coseSign1 protectedBytes payloadBytes signatureBytes) in
                   if maximumRepresentationBytes p < length representation then throw ResourceLimit
                   else Inr representation)
             | _ \<Rightarrow> throw InvalidCose)))))"

definition inspectSignedPayload ::
  "cborg \<Rightarrow> validation_env \<Rightarrow> HailPayloadType \<Rightarrow> bytes \<Rightarrow> InspectedHailObject result" where
  "inspectSignedPayload lib env t representation =
     and_then (parseCose lib env t representation) (\<lambda>parsed. Inr (inspectedResult t parsed))"

definition verifySignedPayload ::
  "cborg \<Rightarrow> validation_env \<Rightarrow> HailPayloadType \<Rightarrow> bytes \<Rightarrow> HailVerifier \<Rightarrow> InspectedHailObject result" where
  "verifySignedPayload lib env t representation verifier =
     and_then (parseCose lib env t representation) (\<lambda>parsed.
     and_then (verify verifier (signatureStructure lib (parsed_protectedBytes parsed) (parsed_payloadBytes parsed))
         (parsed_signature parsed) (parsed_keyId parsed)) (\<lambda>valid.
       if \<not> valid then throw InvalidSignature else Inr (inspectedResult t parsed)))"

section \<open>Web Crypto keys\<close>

record CryptoKey =
  algorithm_name :: string
  usages :: "string list"
  key_material :: bytes

record SubtleCrypto =
  subtle_sign :: "CryptoKey \<Rightarrow> bytes \<Rightarrow> bytes result"
  subtle_verify :: "CryptoKey \<Rightarrow> bytes \<Rightarrow> bytes \<Rightarrow> bool result"

definition requireEd25519Key :: "CryptoKey \<Rightarrow> string \<Rightarrow> unit result" where
  "requireEd25519Key key usage =
     (if algorithm_name key \<noteq> ''Ed25519'' \<or> usage \<notin> set (usages key) then throw WrongKeyRole else Inr ())"

definition createWebCryptoSigner :: "jstring \<Rightarrow> CryptoKey \<Rightarrow> SubtleCrypto \<Rightarrow> HailSigner result" where
  "createWebCryptoSigner keyId privateKey subtle =
     and_then (requireEd25519Key privateKey ''sign'') (\<lambda>_.
       Inr \<lparr>signer_keyId = keyId,
         sign = (\<lambda>data. and_then (subtle_sign subtle privateKey data) (\<lambda>s. Inr (JUint8Array s)))\<rparr>)"

definition createWebCryptoVerifier :: "(jstring \<Rightarrow> CryptoKey result) \<Rightarrow> SubtleCrypto \<Rightarrow> HailVerifier" where
  "createWebCryptoVerifier resolve subtle =
     \<lparr>verify = (\<lambda>data signature keyId.
       and_then (resolve keyId) (\<lambda>publicKey.
       and_then (requireEd25519Key publicKey ''verify'') (\<lambda>_.
         subtle_verify subtle publicKey signature data)))\<rparr>"

section \<open>Conversation revival\<close>

definition validateConversationRevivalBinding ::
  "validation_env \<Rightarrow> InspectedHailObject \<Rightarrow> InspectedHailObject \<Rightarrow> unit result" where
  "validateConversationRevivalBinding env descriptor request =
     (let conversation = object_payload descriptor; revival = object_payload request;
          hash = sha256 env (object_representationBytes descriptor);
          bound = bytes_of (getf (get revival ''descriptor_hash'') ''value'') in
      if object_type descriptor \<noteq> Conversation \<or> object_type request \<noteq> ConversationRevival
        \<or> get revival ''from'' \<noteq> get conversation ''from''
        \<or> get revival ''conversation_id'' \<noteq> get conversation ''conversation_id''
        \<or> the (get revival ''to'') \<notin> set (list_of (get conversation ''participants''))
        \<or> int_of (get revival ''issued_at'') < int_of (get conversation ''created_at'')
        \<or> length bound \<noteq> length hash \<or> bound \<noteq> hash
      then throw_at SchemaViolation [] else Inr ())"

end
