(* ===== verification/EnvelopeModel.thy ===== *)
theory EnvelopeModel
  imports Models
begin

text \<open>
  What \<open>validateEnvelope\<close> (\<^verbatim>\<open>packages/hail-codec-ts/src/validation.ts\<close>) asserts: the accepted
  objects are those of the records \<open>HailEnvelope\<close> that satisfy \<open>wf_envelope\<close>.
\<close>

section \<open>Reading an envelope\<close>

definition read_authorization :: "hail_value option \<Rightarrow> HailEnvelopeAuthorization" where
  "read_authorization a =
     (if getf a ''type'' = txt_lit ''grant'' then GrantAuthorization (text_of (getf a ''grant_id''))
      else if getf a ''type'' = txt_lit ''reply'' then ReplyAuthorization (text_of (getf a ''reply_to''))
      else if getf a ''type'' = txt_lit ''connection''
        then ConnectionAuthorization (text_of (getf a ''connection_id'')) (int_of (getf a ''epoch''))
      else ConversationAuthorization (text_of (getf a ''creator'')) (text_of (getf a ''conversation_id''))
        (read_digest (getf a ''descriptor_hash'')))"

definition read_profile :: "jstring \<Rightarrow> body_profile" where
  "read_profile s = (if s = lit ''spt-1'' then Spt1 else if s = lit ''spt-2'' then Spt2 else Spt3)"

definition read_body :: "hail_value option \<Rightarrow> HailBodyDescriptor" where
  "read_body b = \<lparr>body_digest = read_digest (getf b ''digest''), body_size = int_of (getf b ''size''),
     body_profile_of = read_profile (text_of (getf b ''profile'')),
     available_until = int_of (getf b ''available_until''),
     access_token = bytes_of (getf (getf b ''access'') ''token''),
     access_expires_at = int_of (getf (getf b ''access'') ''expires_at'')\<rparr>"

definition read_reply :: "hail_value option \<Rightarrow> HailReplyPermission" where
  "read_reply r = (if bool_of (getf r ''allowed'') then ReplyUntil (int_of (getf r ''until'')) else NoReply)"

definition read_reference :: "hail_value \<Rightarrow> HailMessageReference" where
  "read_reference r = \<lparr>ref_sender = text_of (get r ''sender''), ref_message_id = text_of (get r ''message_id'')\<rparr>"

definition read_introduction :: "hail_value \<Rightarrow> HailIntroduction" where
  "read_introduction i = \<lparr>intro_descriptor = bytes_of (get i ''descriptor''),
     intro_connection_id = text_of (get i ''connection_id''), intro_epoch = int_of (get i ''epoch'')\<rparr>"

definition read_envelope :: "hail_value \<Rightarrow> HailEnvelope" where
  "read_envelope v = \<lparr>env_version = int_of (get v ''version''),
     env_conversation_message_id = map_option (\<lambda>x. text_of (Some x)) (get v ''conversation_message_id''),
     env_introduction = map_option read_introduction (get v ''conversation_introduction''),
     env_in_reply_to = map_option read_reference (get v ''in_reply_to''),
     env_message_id = text_of (get v ''message_id''), env_from = text_of (get v ''from''),
     env_to = text_of (get v ''to''), env_authorization = read_authorization (get v ''authorization''),
     env_category = map_option (\<lambda>x. text_of (Some x)) (get v ''category''),
     env_message_type = map_option (\<lambda>x. text_of (Some x)) (get v ''message_type''),
     env_created_at = int_of (get v ''created_at''), env_expires_at = int_of (get v ''expires_at''),
     env_body = read_body (get v ''body''), env_reply = read_reply (get v ''reply'')\<rparr>"

section \<open>Well-formed envelopes\<close>

definition wf_reference :: "HailMessageReference \<Rightarrow> bool" where
  "wf_reference r \<longleftrightarrow> DID_PATTERN (ref_sender r) \<and> UUID_V7_PATTERN (ref_message_id r)"

definition wf_introduction :: "HailIntroduction \<Rightarrow> bool" where
  "wf_introduction i \<longleftrightarrow> UUID_V7_PATTERN (intro_connection_id i) \<and> safe_nat (intro_epoch i) \<and> 1 \<le> intro_epoch i
     \<and> intro_descriptor i \<noteq> [] \<and> length (intro_descriptor i) \<le> 16384"

text \<open>Which authorization goes with which version, category, parent and introduction.\<close>

fun wf_authorization :: "validation_env \<Rightarrow> HailEnvelope \<Rightarrow> HailEnvelopeAuthorization \<Rightarrow> bool" where
  "wf_authorization env e (GrantAuthorization g) \<longleftrightarrow>
     env_version e = 1 \<and> UUID_V7_PATTERN g \<and> env_category e \<noteq> None"
| "wf_authorization env e (ReplyAuthorization r) \<longleftrightarrow>
     (env_version e = 1 \<or> env_version e = 3) \<and> UUID_V7_PATTERN r \<and> env_category e = None
     \<and> (case env_in_reply_to e of None \<Rightarrow> True | Some parent \<Rightarrow> ref_message_id parent = r)"
| "wf_authorization env e (ConnectionAuthorization c epoch) \<longleftrightarrow>
     (env_version e = 2 \<or> env_version e = 3) \<and> UUID_V7_PATTERN c \<and> safe_nat epoch \<and> 1 \<le> epoch
     \<and> env_category e = None \<and> env_reply e = NoReply"
| "wf_authorization env e (ConversationAuthorization creator c d) \<longleftrightarrow>
     env_version e = 4 \<and> DID_PATTERN creator \<and> UUID_V7_PATTERN c \<and> length (digest_value d) = 32
     \<and> env_category e = None
     \<and> env_conversation_message_id e \<noteq> None \<and> env_from e \<noteq> env_to e \<and> env_reply e = NoReply
     \<and> (case env_introduction e of None \<Rightarrow> True | Some i \<Rightarrow>
          env_from e = creator \<and> env_in_reply_to e = None \<and> env_conversation_message_id e = Some c
          \<and> every_byte_equal (sha256 env (intro_descriptor i)) (digest_value d))"

definition wf_body :: "HailEnvelope \<Rightarrow> HailBodyDescriptor \<Rightarrow> bool" where
  "wf_body e b \<longleftrightarrow> length (digest_value (body_digest b)) = 32 \<and> 1 \<le> body_size b \<and> body_size b \<le> 1048576
     \<and> safe_nat (available_until b)
     \<and> env_created_at e + 30 * 86400 \<le> available_until b \<and> env_expires_at e + 300 \<le> available_until b
     \<and> available_until b \<le> env_created_at e + 31 * 86400
     \<and> length (access_token b) = 32 \<and> safe_nat (access_expires_at b)
     \<and> available_until b \<le> access_expires_at b \<and> access_expires_at b \<le> env_created_at e + 31 * 86400"

definition wf_envelope :: "validation_env \<Rightarrow> HailEnvelope \<Rightarrow> bool" where
  "wf_envelope env e \<longleftrightarrow>
     UUID_V7_PATTERN (env_message_id e) \<and> DID_PATTERN (env_from e) \<and> DID_PATTERN (env_to e)
     \<and> wf_authorization env e (env_authorization e)
     \<and> safe_nat (env_created_at e) \<and> safe_nat (env_expires_at e)
     \<and> env_created_at e < env_expires_at e \<and> env_expires_at e \<le> env_created_at e + 7 * 86400
     \<and> wf_body e (env_body e)
     \<and> (case env_reply e of NoReply \<Rightarrow> True | ReplyUntil t \<Rightarrow> safe_nat t \<and> env_created_at e < t)
     \<and> pred_option CATEGORY_PATTERN (env_category e)
     \<and> pred_option (\<lambda>t. t \<in> lit ` set MESSAGE_TYPES) (env_message_type e)
     \<and> pred_option wf_reference (env_in_reply_to e)
     \<and> pred_option wf_introduction (env_introduction e)
     \<and> pred_option UUID_V7_PATTERN (env_conversation_message_id e)
     \<and> (env_version e < 4 \<longrightarrow> env_conversation_message_id e = None \<and> env_introduction e = None)
     \<and> (env_version e < 3 \<longrightarrow> env_in_reply_to e = None)
     \<and> (env_version e = 3 \<longrightarrow> env_from e \<noteq> env_to e
          \<and> (\<exists>parent. env_in_reply_to e = Some parent \<and> ref_sender parent = env_to e))
     \<and> (env_version e = 4 \<longrightarrow> (\<forall>parent. env_in_reply_to e = Some parent \<longrightarrow>
          \<not> (ref_sender parent = env_from e \<and> Some (ref_message_id parent) = env_conversation_message_id e)))"

section \<open>The parts of an accepted envelope\<close>

definition all_envelope_keys :: "string list" where
  "all_envelope_keys = envelope_keys @ [''category'', ''message_type'', ''in_reply_to'',
     ''conversation_message_id'', ''conversation_introduction'']"

lemma authorization_same_value:
  assumes "check_authorization env v = Inr ()" "unique_keys v"
  shows "rel_option same_value (get v ''authorization'')
    (Some (authorization_object (read_authorization (get v ''authorization''))))"
proof -
  obtain kvs ty where a: "get v ''authorization'' = Some (HMap kvs)" "get (HMap kvs) ''type'' = Some (HText ty)"
    using assms(1) by (auto simp: check_authorization_def Let_def)
  have u: "unique_keys (HMap kvs)" using get_unique_keys [OF assms(2) a(1)] .
  note c = assms(1) [unfolded check_authorization_def Let_def a getf_Some check_simps list.set ball_simps]
  consider "ty = lit ''grant''" | "ty = lit ''reply''" | "ty = lit ''connection''" | "ty = lit ''conversation''"
    using c by (auto split: if_splits)
  then have "same_value (HMap kvs) (authorization_object (read_authorization (Some (HMap kvs))))"
  proof cases
    case 1
    with c a obtain g where "get (HMap kvs) ''grant_id'' = Some (HText g)"
        "fst ` set kvs \<subseteq> lit ` set [''type'', ''grant_id'']" by auto
    with 1 u a show ?thesis
      by (auto simp: read_authorization_def get_HMap
          intro!: same_value_objectsI [where ks = "[''type'', ''grant_id'']"])
  next
    case 2
    with c a obtain g where "get (HMap kvs) ''reply_to'' = Some (HText g)"
        "fst ` set kvs \<subseteq> lit ` set [''type'', ''reply_to'']" by auto
    with 2 u a show ?thesis
      by (auto simp: read_authorization_def get_HMap
          intro!: same_value_objectsI [where ks = "[''type'', ''reply_to'']"])
  next
    case 3
    with c a obtain g i where "get (HMap kvs) ''connection_id'' = Some (HText g)" "get (HMap kvs) ''epoch'' = Some (HInt i)"
        "fst ` set kvs \<subseteq> lit ` set [''type'', ''connection_id'', ''epoch'']" by auto
    with 3 u a show ?thesis
      by (auto simp: read_authorization_def get_HMap
          intro!: same_value_objectsI [where ks = "[''type'', ''connection_id'', ''epoch'']"])
  next
    case 4
    let ?ks = "[''type'', ''creator'', ''conversation_id'', ''membership_revision'', ''descriptor_hash'']"
    from 4 c a obtain g i where f: "get (HMap kvs) ''creator'' = Some (HText g)"
        "get (HMap kvs) ''conversation_id'' = Some (HText i)" "get (HMap kvs) ''membership_revision'' = int_lit 1"
        "check_digest (get (HMap kvs) ''descriptor_hash'') (sub_lit (at ''authorization'') ''descriptor_hash'') = Inr ()"
        "fst ` set kvs \<subseteq> lit ` set ?ks" by auto
    have "rel_option same_value (get (HMap kvs) ''descriptor_hash'')
        (Some (digest_object (read_digest (get (HMap kvs) ''descriptor_hash''))))"
      using digest_same_value [OF f(4)] get_unique_keys [OF u] by blast
    with 4 u a f show ?thesis
      by (auto simp: read_authorization_def get_HMap
          intro!: same_value_objectsI [where ks = ?ks])
  qed
  with a show ?thesis by simp
qed

lemma read_profile_name: "text_in (Some (HText s)) [''spt-1'', ''spt-2'', ''spt-3''] \<Longrightarrow>
    lit (profile_name (read_profile s)) = s"
  by (auto simp: text_in_iff read_profile_def)

lemma body_facts:
  assumes "check_body_descriptor v = Inr ()" "unique_keys v"
  shows "rel_option same_value (get v ''body'') (Some (body_object (read_body (get v ''body''))))"
    and "get v ''created_at'' = Some (HInt (env_created_at e)) \<Longrightarrow> get v ''expires_at'' = Some (HInt (env_expires_at e)) \<Longrightarrow>
      wf_body e (read_body (get v ''body''))"
proof -
  let ?ks = "[''digest'', ''size'', ''media_type'', ''profile'', ''available_until'', ''access'']"
  let ?as = "[''type'', ''token'', ''expires_at'']"
  obtain kvs where b: "get v ''body'' = Some (HMap kvs)"
    using assms(1) by (auto simp: check_body_descriptor_def Let_def)
  note c = assms(1) [unfolded check_body_descriptor_def Let_def b getf_Some check_simps list.set ball_simps]
  have u: "unique_keys (HMap kvs)" using get_unique_keys [OF assms(2) b] .
  obtain avs tok exp where a: "get (HMap kvs) ''access'' = Some (HMap avs)"
      "get (HMap avs) ''type'' = txt_lit ''bearer''" "get (HMap avs) ''token'' = Some (HBytes tok)" "length tok = 32"
      "get (HMap avs) ''expires_at'' = Some (HInt exp)" "safe_nat exp"
      "fst ` set avs \<subseteq> lit ` set ?as"
    using c by (auto simp: safe_bounds)
  have "same_value (HMap avs) (HMap [(lit ''type'', HText (lit ''bearer'')), (lit ''token'', HBytes tok),
      (lit ''expires_at'', HInt exp)])"
    by (rule same_value_objectsI [where ks = ?as])
      (use a get_unique_keys [OF u a(1)] in \<open>auto simp: get_HMap\<close>)
  moreover have d: "check_digest (get (HMap kvs) ''digest'') (sub_lit (at ''body'') ''digest'') = Inr ()"
    using c by blast
  note dg = digest_same_value [OF d]
  obtain sz pr av where f: "get (HMap kvs) ''size'' = Some (HInt sz)" "1 \<le> sz" "sz \<le> 1048576"
      "get (HMap kvs) ''media_type'' = txt_lit ''application/hail-body+cbor''"
      "get (HMap kvs) ''profile'' = Some (HText pr)" "text_in (Some (HText pr)) [''spt-1'', ''spt-2'', ''spt-3'']"
      "get (HMap kvs) ''available_until'' = Some (HInt av)" "safe_nat av" "fst ` set kvs \<subseteq> lit ` set ?ks"
    using c by (auto simp: safe_bounds)
  ultimately have "same_value (HMap kvs) (body_object (read_body (Some (HMap kvs))))"
    unfolding body_object_def
    by (intro same_value_objectsI [where ks = ?ks])
      (use u a(1,3,5) f dg get_unique_keys [OF u] read_profile_name [OF f(6)] in
        \<open>auto simp: get_HMap read_body_def\<close>)
  with b show "rel_option same_value (get v ''body'') (Some (body_object (read_body (get v ''body''))))" by simp
  assume "get v ''created_at'' = Some (HInt (env_created_at e))" "get v ''expires_at'' = Some (HInt (env_expires_at e))"
  with c a f dg get_unique_keys [OF u] show "wf_body e (read_body (get v ''body''))"
    by (auto simp: wf_body_def read_body_def b)
qed

lemma reply_facts:
  assumes "check_reply v = Inr ()" "unique_keys v"
  shows "rel_option same_value (get v ''reply'') (Some (reply_object (read_reply (get v ''reply''))))"
    and "get v ''created_at'' = Some (HInt t) \<Longrightarrow>
      (case read_reply (get v ''reply'') of NoReply \<Rightarrow> True | ReplyUntil u \<Rightarrow> safe_nat u \<and> t < u)"
    and "getf (get v ''authorization'') ''type'' \<in> {txt_lit ''connection'', txt_lit ''conversation''} \<Longrightarrow>
      read_reply (get v ''reply'') = NoReply"
proof -
  obtain kvs allowed where r: "get v ''reply'' = Some (HMap kvs)" "get (HMap kvs) ''allowed'' = Some (HBool allowed)"
    using assms(1) by (auto simp: check_reply_def Let_def)
  note c = assms(1) [unfolded check_reply_def Let_def r getf_Some bool_of.simps check_simps list.set ball_simps]
  have u: "unique_keys (HMap kvs)" using get_unique_keys [OF assms(2) r(1)] .
  have "same_value (HMap kvs) (reply_object (read_reply (Some (HMap kvs))))"
  proof (cases allowed)
    case True
    with c obtain i where "get (HMap kvs) ''until'' = Some (HInt i)" "fst ` set kvs \<subseteq> lit ` set [''allowed'', ''until'']"
      by auto
    with True u r show ?thesis
      by (auto simp: read_reply_def get_HMap intro!: same_value_objectsI [where ks = "[''allowed'', ''until'']"])
  next
    case False
    with c have "fst ` set kvs \<subseteq> lit ` set [''allowed'']" by auto
    with False u r show ?thesis
      by (auto simp: read_reply_def get_HMap intro!: same_value_objectsI [where ks = "[''allowed'']"])
  qed
  with r show "rel_option same_value (get v ''reply'') (Some (reply_object (read_reply (get v ''reply''))))" by simp
  show "case read_reply (get v ''reply'') of NoReply \<Rightarrow> True | ReplyUntil u \<Rightarrow> safe_nat u \<and> t < u"
    if "get v ''created_at'' = Some (HInt t)"
    using c r that by (auto simp: read_reply_def safe_bounds)
  show "read_reply (get v ''reply'') = NoReply"
    if "getf (get v ''authorization'') ''type'' \<in> {txt_lit ''connection'', txt_lit ''conversation''}"
    using c r that by (auto simp: read_reply_def)
qed

lemma check_reference_facts:
  assumes "check_reference (Some x) = Inr ()" "unique_keys x"
  shows "same_value x (reference_object (read_reference x))" "wf_reference (read_reference x)"
    "get x ''sender'' = Some (HText (ref_sender (read_reference x)))"
    "get x ''message_id'' = Some (HText (ref_message_id (read_reference x)))"
proof -
  obtain kvs s m where x: "x = HMap kvs" "get x ''sender'' = Some (HText s)" "DID_PATTERN s"
      "get x ''message_id'' = Some (HText m)" "UUID_V7_PATTERN m" "fst ` set kvs \<subseteq> lit ` set [''sender'', ''message_id'']"
    using assms(1) by (auto simp: check_reference_def Let_def)
  then show "same_value x (reference_object (read_reference x))"
    using assms(2)
    by (auto simp: reference_object_def read_reference_def get_HMap
        intro!: same_value_objectsI [where ks = "[''sender'', ''message_id'']"])
  show "wf_reference (read_reference x)" "get x ''sender'' = Some (HText (ref_sender (read_reference x)))"
    "get x ''message_id'' = Some (HText (ref_message_id (read_reference x)))"
    using x by (auto simp: wf_reference_def read_reference_def)
qed

lemma check_introduction_facts:
  assumes "check_introduction env v = Inr ()" "unique_keys v"
  obtains x where "get v ''conversation_introduction'' = Some x" "same_value x (introduction_object (read_introduction x))"
    "wf_introduction (read_introduction x)" "get v ''from'' = getf (get v ''authorization'') ''creator''"
    "get v ''in_reply_to'' = None" "get v ''conversation_message_id'' = getf (get v ''authorization'') ''conversation_id''"
    "every_byte_equal (sha256 env (intro_descriptor (read_introduction x)))
      (bytes_of (getf (getf (get v ''authorization'') ''descriptor_hash'') ''value''))"
proof -
  obtain kvs where i: "get v ''conversation_introduction'' = Some (HMap kvs)"
    using assms(1) by (auto simp: check_introduction_def Let_def)
  note c = assms(1) [unfolded check_introduction_def Let_def i getf_Some check_simps list.set ball_simps]
  have u: "unique_keys (HMap kvs)" using get_unique_keys [OF assms(2) i] .
  obtain bs cid ep where f: "get (HMap kvs) ''descriptor'' = Some (HBytes bs)" "bs \<noteq> []" "length bs \<le> 16384"
      "get (HMap kvs) ''connection_id'' = Some (HText cid)" "UUID_V7_PATTERN cid"
      "get (HMap kvs) ''epoch'' = Some (HInt ep)" "safe_nat ep" "1 \<le> ep"
      "fst ` set kvs \<subseteq> lit ` set [''descriptor'', ''connection_id'', ''epoch'']"
    using c by (auto simp: safe_bounds split: option.splits hail_value.splits)
  have "same_value (HMap kvs) (introduction_object (read_introduction (HMap kvs)))"
    unfolding introduction_object_def
    by (rule same_value_objectsI [where ks = "[''descriptor'', ''connection_id'', ''epoch'']"])
      (use f u in \<open>auto simp: read_introduction_def get_HMap\<close>)
  moreover have "wf_introduction (read_introduction (HMap kvs))"
    using f by (auto simp: wf_introduction_def read_introduction_def)
  ultimately show thesis
    using that [OF i] c f(1) by (auto simp: read_introduction_def)
qed

section \<open>Soundness of the assertion\<close>

definition scalar_facts :: "hail_value \<Rightarrow> HailEnvelope \<Rightarrow> bool" where
  "scalar_facts v e \<longleftrightarrow>
     get v ''message_id'' = Some (HText (env_message_id e)) \<and> UUID_V7_PATTERN (env_message_id e)
     \<and> get v ''from'' = Some (HText (env_from e)) \<and> DID_PATTERN (env_from e)
     \<and> get v ''to'' = Some (HText (env_to e)) \<and> DID_PATTERN (env_to e)
     \<and> get v ''created_at'' = Some (HInt (env_created_at e)) \<and> safe_nat (env_created_at e)
     \<and> get v ''expires_at'' = Some (HInt (env_expires_at e)) \<and> safe_nat (env_expires_at e)
     \<and> env_created_at e < env_expires_at e \<and> env_expires_at e \<le> env_created_at e + 7 * 86400
     \<and> get v ''category'' = map_option HText (env_category e) \<and> pred_option CATEGORY_PATTERN (env_category e)
     \<and> get v ''message_type'' = map_option HText (env_message_type e)
     \<and> pred_option (\<lambda>t. t \<in> lit ` set MESSAGE_TYPES) (env_message_type e)
     \<and> get v ''version'' = Some (HInt (env_version e)) \<and> env_version e \<in> {1, 2, 3, 4}"

lemma authorization_version: "check_authorization env v = Inr () \<Longrightarrow>
    \<exists>i \<in> {1, 2, 3, 4}. get v ''version'' = int_lit i"
  by (auto simp: check_authorization_def Let_def split: if_splits)

lemma envelope_scalars:
  assumes "validateEnvelope env v = Inr ()"
  shows "scalar_facts v (read_envelope v)"
proof -
  note c = assms [unfolded validateEnvelope_def Let_def check_simps list.set ball_simps]
  have "check_authorization env v = Inr ()" using c by blast
  from authorization_version [OF this] obtain i where i: "i \<in> {1, 2, 3, 4}" "get v ''version'' = int_lit i" by blast
  obtain mid frm to where ids: "get v ''message_id'' = Some (HText mid)" "UUID_V7_PATTERN mid"
      "get v ''from'' = Some (HText frm)" "DID_PATTERN frm" "get v ''to'' = Some (HText to)" "DID_PATTERN to"
    using c by blast
  obtain x y where times: "get v ''created_at'' = Some (HInt x)" "safe_nat x" "get v ''expires_at'' = Some (HInt y)"
      "safe_nat y" "x < y" "y \<le> x + 7 * 86400"
    using c by (auto simp: safe_bounds)
  have cat: "get v ''category'' = map_option HText (env_category (read_envelope v))
      \<and> pred_option CATEGORY_PATTERN (env_category (read_envelope v))"
  proof (cases "get v ''category''")
    case (Some x)
    have "\<exists>s. get v ''category'' = Some (HText s) \<and> CATEGORY_PATTERN s" using c Some by blast
    with Some obtain s where "x = HText s" "CATEGORY_PATTERN s" by auto
    with Some show ?thesis by (simp add: read_envelope_def)
  qed (simp add: read_envelope_def)
  have mt: "get v ''message_type'' = map_option HText (env_message_type (read_envelope v))
      \<and> pred_option (\<lambda>t. t \<in> lit ` set MESSAGE_TYPES) (env_message_type (read_envelope v))"
  proof (cases "get v ''message_type''")
    case (Some x)
    have "text_in (get v ''message_type'') MESSAGE_TYPES" using c Some by blast
    with Some obtain s where "x = HText (lit s)" "s \<in> set MESSAGE_TYPES" by (auto simp: text_in_iff)
    with Some show ?thesis by (simp add: read_envelope_def)
  qed (simp add: read_envelope_def)
  have "env_message_id (read_envelope v) = mid" "env_from (read_envelope v) = frm" "env_to (read_envelope v) = to"
    "env_created_at (read_envelope v) = x" "env_expires_at (read_envelope v) = y" "env_version (read_envelope v) = i"
    using i ids times by (simp_all add: read_envelope_def)
  with i ids times cat mt show ?thesis unfolding scalar_facts_def by simp
qed

lemma envelope_keys_facts:
  assumes "validateEnvelope env (HMap kvs) = Inr ()"
  shows "fst ` set kvs \<subseteq> lit ` set all_envelope_keys"
    and "get (HMap kvs) ''version'' \<noteq> int_lit 4 \<Longrightarrow> get (HMap kvs) ''conversation_message_id'' = None
      \<and> get (HMap kvs) ''conversation_introduction'' = None"
    and "get (HMap kvs) ''version'' \<notin> {int_lit 3, int_lit 4} \<Longrightarrow> get (HMap kvs) ''in_reply_to'' = None"
    and "get (HMap kvs) ''version'' = int_lit 4 \<Longrightarrow> get (HMap kvs) ''category'' = None"
proof -
  have k: "fst ` set kvs \<subseteq> lit ` set (envelope_keys @ envelope_optional (get (HMap kvs) ''version''))"
    using assms by (simp add: validateEnvelope_def Let_def)
  moreover have "lit ` set (envelope_keys @ envelope_optional (get (HMap kvs) ''version'')) \<subseteq> lit ` set all_envelope_keys"
    by (auto simp: all_envelope_keys_def envelope_optional_def)
  ultimately show "fst ` set kvs \<subseteq> lit ` set all_envelope_keys" by (rule order_trans)
  show "get (HMap kvs) ''version'' \<noteq> int_lit 4 \<Longrightarrow> get (HMap kvs) ''conversation_message_id'' = None
      \<and> get (HMap kvs) ''conversation_introduction'' = None"
    using k by (auto simp: get_HMap map_of_eq_None_iff envelope_optional_def envelope_keys_def split: if_splits)
  show "get (HMap kvs) ''version'' = int_lit 4 \<Longrightarrow> get (HMap kvs) ''category'' = None"
    using k by (auto simp: get_HMap map_of_eq_None_iff envelope_optional_def envelope_keys_def split: if_splits)
  show "get (HMap kvs) ''version'' \<notin> {int_lit 3, int_lit 4} \<Longrightarrow> get (HMap kvs) ''in_reply_to'' = None"
    using k by (auto simp: get_HMap map_of_eq_None_iff envelope_optional_def envelope_keys_def split: if_splits)
qed

lemma envelope_parents:
  assumes "validateEnvelope env (HMap kvs) = Inr ()" "unique_keys (HMap kvs)"
  defines "v \<equiv> HMap kvs" and "e \<equiv> read_envelope (HMap kvs)"
  shows "rel_option same_value (get v ''in_reply_to'') (map_option reference_object (env_in_reply_to e))"
    and "pred_option wf_reference (env_in_reply_to e)"
    and "env_version e = 3 \<Longrightarrow> env_from e \<noteq> env_to e
      \<and> (\<exists>parent. env_in_reply_to e = Some parent \<and> ref_sender parent = env_to e)"
    and "env_version e = 3 \<Longrightarrow> getf (get v ''authorization'') ''type'' = txt_lit ''reply'' \<Longrightarrow>
      getf (get v ''authorization'') ''reply_to'' = map_option (\<lambda>r. HText (ref_message_id r)) (env_in_reply_to e)"
    and "env_version e = 4 \<Longrightarrow> env_in_reply_to e = Some parent \<Longrightarrow>
      \<not> (ref_sender parent = env_from e \<and> Some (HText (ref_message_id parent)) = get v ''conversation_message_id'')"
proof -
  have sc: "scalar_facts v e" unfolding v_def e_def by (rule envelope_scalars [OF assms(1)])
  have c: "check_parents v = Inr ()"
    using assms(1) by (simp add: validateEnvelope_def Let_def v_def)
  have ver: "get v ''version'' = Some (HInt (env_version e))" "env_version e \<in> {1, 2, 3, 4}"
    using sc by (simp_all add: scalar_facts_def)
  have r: "env_in_reply_to e = map_option read_reference (get v ''in_reply_to'')"
    by (simp add: e_def v_def read_envelope_def)
  have ref: "check_reference (Some x) = Inr ()" if "get v ''in_reply_to'' = Some x" for x
    using c that ver envelope_keys_facts(3) [OF assms(1)]
    by (auto simp: check_parents_def Let_def v_def)
  note facts = check_reference_facts [OF ref get_unique_keys [OF assms(2) [folded v_def]]]
  show "rel_option same_value (get v ''in_reply_to'') (map_option reference_object (env_in_reply_to e))"
    "pred_option wf_reference (env_in_reply_to e)"
    using facts(1,2) by (auto simp: r) (cases "get v ''in_reply_to''"; auto)+
  have ids: "get v ''from'' = Some (HText (env_from e))" "get v ''to'' = Some (HText (env_to e))"
    using sc by (simp_all add: scalar_facts_def)
  show "env_version e = 3 \<Longrightarrow> env_from e \<noteq> env_to e
      \<and> (\<exists>parent. env_in_reply_to e = Some parent \<and> ref_sender parent = env_to e)"
  proof -
    assume "env_version e = 3"
    with c ver obtain x where x: "get v ''in_reply_to'' = Some x" "get x ''sender'' = get v ''to''"
        "get v ''from'' \<noteq> get v ''to''"
      by (cases "get v ''in_reply_to''") (auto simp: check_parents_def check_reference_def Let_def)
    with facts(3) [OF x(1) x(1)] ids r show ?thesis by auto
  qed
  show "getf (get v ''authorization'') ''reply_to'' = map_option (\<lambda>r. HText (ref_message_id r)) (env_in_reply_to e)"
    if "env_version e = 3" "getf (get v ''authorization'') ''type'' = txt_lit ''reply''"
  proof -
    from that c ver obtain x where x: "get v ''in_reply_to'' = Some x"
        "get x ''message_id'' = getf (get v ''authorization'') ''reply_to''"
      by (cases "get v ''in_reply_to''") (auto simp: check_parents_def check_reference_def Let_def)
    with facts(4) [OF x(1) x(1)] r show ?thesis by simp
  qed
  show "\<not> (ref_sender parent = env_from e \<and> Some (HText (ref_message_id parent)) = get v ''conversation_message_id'')"
    if "env_version e = 4" "env_in_reply_to e = Some parent"
  proof -
    from that(2) r obtain x where x: "get v ''in_reply_to'' = Some x" "parent = read_reference x" by auto
    with that(1) c ver have "\<not> (get x ''sender'' = get v ''from'' \<and> get x ''message_id'' = get v ''conversation_message_id'')"
      by (auto simp: check_parents_def Let_def)
    with facts(3,4) [OF x(1) x(1)] x(2) ids show ?thesis by auto
  qed
qed

lemma authorization_cases:
  assumes "check_authorization env v = Inr ()"
  obtains (grant) g where "getf (get v ''authorization'') ''type'' = txt_lit ''grant''" "get v ''version'' = int_lit 1"
      "getf (get v ''authorization'') ''grant_id'' = Some (HText g)" "UUID_V7_PATTERN g" "get v ''category'' \<noteq> None"
    | (reply) r where "getf (get v ''authorization'') ''type'' = txt_lit ''reply''"
      "get v ''version'' = int_lit 1 \<or> get v ''version'' = int_lit 3"
      "getf (get v ''authorization'') ''reply_to'' = Some (HText r)" "UUID_V7_PATTERN r" "get v ''category'' = None"
    | (connection) c i where "getf (get v ''authorization'') ''type'' = txt_lit ''connection''"
      "get v ''version'' = int_lit 2 \<or> get v ''version'' = int_lit 3"
      "getf (get v ''authorization'') ''connection_id'' = Some (HText c)" "UUID_V7_PATTERN c"
      "getf (get v ''authorization'') ''epoch'' = Some (HInt i)" "safe_nat i" "1 \<le> i" "get v ''category'' = None"
    | (conversation) d c m where "getf (get v ''authorization'') ''type'' = txt_lit ''conversation''" "get v ''version'' = int_lit 4"
      "getf (get v ''authorization'') ''creator'' = Some (HText d)" "DID_PATTERN d"
      "getf (get v ''authorization'') ''conversation_id'' = Some (HText c)" "UUID_V7_PATTERN c"
      "check_digest (getf (get v ''authorization'') ''descriptor_hash'')
         (sub_lit (at ''authorization'') ''descriptor_hash'') = Inr ()"
      "get v ''conversation_message_id'' = Some (HText m)" "UUID_V7_PATTERN m" "get v ''from'' \<noteq> get v ''to''"
      "get v ''conversation_introduction'' \<noteq> None \<Longrightarrow> check_introduction env v = Inr ()"
proof -
  note c = assms [unfolded check_authorization_def Let_def check_simps list.set ball_simps]
  consider "getf (get v ''authorization'') ''type'' = txt_lit ''grant''"
    | "getf (get v ''authorization'') ''type'' = txt_lit ''reply''"
    | "getf (get v ''authorization'') ''type'' = txt_lit ''connection''"
    | "getf (get v ''authorization'') ''type'' = txt_lit ''conversation''"
    using c by (auto split: if_splits)
  then show thesis
  proof cases
    case 1 with c show ?thesis by (auto intro: grant)
  next
    case 2 with c show ?thesis by (auto intro: reply)
  next
    case 3 with c show ?thesis by (auto intro!: connection simp: safe_bounds)
  next
    case 4 with c show ?thesis by (auto intro!: conversation)
  qed
qed

lemma envelope_authorization:
  assumes "validateEnvelope env (HMap kvs) = Inr ()" "unique_keys (HMap kvs)"
  shows "wf_authorization env (read_envelope (HMap kvs)) (env_authorization (read_envelope (HMap kvs)))"
proof -
  let ?v = "HMap kvs" and ?e = "read_envelope (HMap kvs)"
  have c: "check_authorization env ?v = Inr ()" "check_reply ?v = Inr ()"
    using assms(1) by (simp_all add: validateEnvelope_def Let_def)
  have sc: "scalar_facts ?v ?e" by (rule envelope_scalars [OF assms(1)])
  have e: "env_authorization ?e = read_authorization (get ?v ''authorization'')"
    "env_reply ?e = read_reply (get ?v ''reply'')"
    "env_in_reply_to ?e = map_option read_reference (get ?v ''in_reply_to'')"
    "env_introduction ?e = map_option read_introduction (get ?v ''conversation_introduction'')"
    by (simp_all add: read_envelope_def)
  from c(1) show ?thesis
  proof (cases rule: authorization_cases)
    case (grant g)
    with sc e show ?thesis by (auto simp: read_authorization_def scalar_facts_def)
  next
    case (reply r)
    have "env_version ?e = 1 \<or> env_version ?e = 3" using reply(2) sc by (auto simp: scalar_facts_def)
    moreover have "env_version ?e = 1 \<Longrightarrow> env_in_reply_to ?e = None"
      using envelope_keys_facts(3) [OF assms(1)] sc by (auto simp: scalar_facts_def e)
    moreover have "env_version ?e = 3 \<Longrightarrow> env_in_reply_to ?e = Some parent \<Longrightarrow> ref_message_id parent = r" for parent
      using envelope_parents(4) [OF assms] reply by auto
    ultimately show ?thesis
      using reply sc e(1) by (auto simp: read_authorization_def scalar_facts_def split: option.split)
  next
    case (connection cid i)
    moreover have "env_reply ?e = NoReply"
      using reply_facts(3) [OF c(2) assms(2)] connection(1) e(2) by simp
    ultimately show ?thesis using sc e by (auto simp: read_authorization_def scalar_facts_def)
  next
    case (conversation d cid m)
    have "env_reply ?e = NoReply"
      using reply_facts(3) [OF c(2) assms(2)] conversation(1) e(2) by simp
    moreover have "length (digest_value (read_digest (getf (get ?v ''authorization'') ''descriptor_hash''))) = 32"
      using conversation(7) by (auto simp: check_digest_Inr read_digest_def)
    moreover have "env_conversation_message_id ?e = Some m" using conversation(8) by (simp add: read_envelope_def)
    moreover have "case env_introduction ?e of None \<Rightarrow> True | Some i \<Rightarrow>
          env_from ?e = d \<and> env_in_reply_to ?e = None \<and> env_conversation_message_id ?e = Some cid
          \<and> every_byte_equal (sha256 env (intro_descriptor i))
              (digest_value (read_digest (getf (get ?v ''authorization'') ''descriptor_hash'')))"
    proof (cases "get ?v ''conversation_introduction''")
      case (Some x)
      with conversation(11) have "check_introduction env ?v = Inr ()" by simp
      from check_introduction_facts [OF this assms(2)] obtain x where
        x: "get ?v ''conversation_introduction'' = Some x" "get ?v ''from'' = getf (get ?v ''authorization'') ''creator''"
        "get ?v ''in_reply_to'' = None" "get ?v ''conversation_message_id'' = getf (get ?v ''authorization'') ''conversation_id''"
        "every_byte_equal (sha256 env (intro_descriptor (read_introduction x)))
          (bytes_of (getf (getf (get ?v ''authorization'') ''descriptor_hash'') ''value''))"
        by blast
      with conversation(3,5,8) sc e show ?thesis
        by (auto simp: scalar_facts_def read_digest_def read_envelope_def)
    qed (simp add: e)
    moreover have "env_category ?e = None"
      using envelope_keys_facts(4) [OF assms(1)] conversation(2) by (simp add: read_envelope_def)
    ultimately show ?thesis
      using conversation sc e(1) by (auto simp: read_authorization_def scalar_facts_def)
  qed
qed

lemma envelope_object_get:
  "get (envelope_object e) ''type'' = txt_lit ''hail.envelope''"
  "get (envelope_object e) ''version'' = Some (HInt (env_version e))"
  "get (envelope_object e) ''message_id'' = Some (HText (env_message_id e))"
  "get (envelope_object e) ''from'' = Some (HText (env_from e))"
  "get (envelope_object e) ''to'' = Some (HText (env_to e))"
  "get (envelope_object e) ''authorization'' = Some (authorization_object (env_authorization e))"
  "get (envelope_object e) ''created_at'' = Some (HInt (env_created_at e))"
  "get (envelope_object e) ''expires_at'' = Some (HInt (env_expires_at e))"
  "get (envelope_object e) ''body'' = Some (body_object (env_body e))"
  "get (envelope_object e) ''reply'' = Some (reply_object (env_reply e))"
  "get (envelope_object e) ''category'' = map_option HText (env_category e)"
  "get (envelope_object e) ''message_type'' = map_option HText (env_message_type e)"
  "get (envelope_object e) ''in_reply_to'' = map_option reference_object (env_in_reply_to e)"
  "get (envelope_object e) ''conversation_message_id'' = map_option HText (env_conversation_message_id e)"
  "get (envelope_object e) ''conversation_introduction'' = map_option introduction_object (env_introduction e)"
  by (simp_all add: envelope_object_def get_HMap map_add_def split: option.split)

lemma envelope_object_map: "\<exists>kvs. envelope_object e = HMap kvs"
  by (simp add: envelope_object_def)

lemma envelope_object_keys:
  assumes "envelope_object e = HMap kvs"
  shows "distinct (map fst kvs)" "fst ` set kvs \<subseteq> lit ` set all_envelope_keys"
proof -
  have kvs: "kvs = members (envelope_object e)" using assms by simp
  show "distinct (map fst kvs)"
    unfolding kvs by (auto simp: envelope_object_def map_fst_present)
  show "fst ` set kvs \<subseteq> lit ` set all_envelope_keys"
    unfolding kvs by (auto simp: envelope_object_def image_Un fst_present all_envelope_keys_def envelope_keys_def)
qed

lemma envelope_optionals:
  assumes "validateEnvelope env (HMap kvs) = Inr ()" "unique_keys (HMap kvs)"
  defines "v \<equiv> HMap kvs" and "e \<equiv> read_envelope (HMap kvs)"
  shows "get v ''conversation_message_id'' = map_option HText (env_conversation_message_id e)
      \<and> pred_option UUID_V7_PATTERN (env_conversation_message_id e)"
    and "rel_option same_value (get v ''conversation_introduction'') (map_option introduction_object (env_introduction e))
      \<and> pred_option wf_introduction (env_introduction e)"
    and "env_version e < 4 \<longrightarrow> env_conversation_message_id e = None \<and> env_introduction e = None"
    and "env_version e < 3 \<longrightarrow> env_in_reply_to e = None"
proof -
  have c: "check_authorization env v = Inr ()"
    using assms(1) by (simp add: validateEnvelope_def Let_def v_def)
  have sc: "scalar_facts v e" unfolding v_def e_def by (rule envelope_scalars [OF assms(1)])
  have e: "env_conversation_message_id e = map_option (\<lambda>x. text_of (Some x)) (get v ''conversation_message_id'')"
    "env_introduction e = map_option read_introduction (get v ''conversation_introduction'')"
    "env_in_reply_to e = map_option read_reference (get v ''in_reply_to'')"
    by (simp_all add: e_def v_def read_envelope_def)
  have n4: "get v ''conversation_message_id'' = None \<and> get v ''conversation_introduction'' = None"
    if "get v ''version'' \<noteq> int_lit 4"
    using envelope_keys_facts(2) [OF assms(1)] that by (simp add: v_def)
  show "env_version e < 4 \<longrightarrow> env_conversation_message_id e = None \<and> env_introduction e = None"
    using n4 sc by (auto simp: e scalar_facts_def)
  show "env_version e < 3 \<longrightarrow> env_in_reply_to e = None"
    using envelope_keys_facts(3) [OF assms(1)] sc by (auto simp: e scalar_facts_def v_def)
  from c show "get v ''conversation_message_id'' = map_option HText (env_conversation_message_id e)
      \<and> pred_option UUID_V7_PATTERN (env_conversation_message_id e)"
  proof (cases rule: authorization_cases)
    case conversation then show ?thesis by (simp add: e)
  qed (use n4 e in auto)
  from c show "rel_option same_value (get v ''conversation_introduction'') (map_option introduction_object (env_introduction e))
      \<and> pred_option wf_introduction (env_introduction e)"
  proof (cases rule: authorization_cases)
    case conversation
    then show ?thesis
      using check_introduction_facts [OF _ assms(2), of env]
      by (cases "get v ''conversation_introduction''") (auto simp: e v_def)
  qed (use n4 e in auto)
qed

lemma validateEnvelope_sound:
  assumes "validateEnvelope env (HMap kvs) = Inr ()" "unique_keys (HMap kvs)"
    and "get (HMap kvs) ''type'' = txt_lit ''hail.envelope''"
  shows "wf_envelope env (read_envelope (HMap kvs)) \<and> same_value (HMap kvs) (envelope_object (read_envelope (HMap kvs)))"
proof
  let ?v = "HMap kvs" and ?e = "read_envelope (HMap kvs)"
  have c: "check_authorization env ?v = Inr ()" "check_body_descriptor ?v = Inr ()" "check_reply ?v = Inr ()"
    using assms(1) by (simp_all add: validateEnvelope_def Let_def)
  have sc: "scalar_facts ?v ?e" by (rule envelope_scalars [OF assms(1)])
  have e: "env_authorization ?e = read_authorization (get ?v ''authorization'')"
    "env_reply ?e = read_reply (get ?v ''reply'')" "env_body ?e = read_body (get ?v ''body'')"
    by (simp_all add: read_envelope_def)
  note opt = envelope_optionals [OF assms(1,2)] and par = envelope_parents [OF assms(1,2)]
  have "wf_body ?e (env_body ?e)"
    unfolding e by (rule body_facts(2) [OF c(2) assms(2)]) (use sc in \<open>simp_all add: scalar_facts_def\<close>)
  moreover have "case env_reply ?e of NoReply \<Rightarrow> True | ReplyUntil t \<Rightarrow> safe_nat t \<and> env_created_at ?e < t"
    unfolding e by (rule reply_facts(2) [OF c(3) assms(2)]) (use sc in \<open>simp add: scalar_facts_def\<close>)
  moreover have "env_version ?e = 4 \<longrightarrow> (\<forall>parent. env_in_reply_to ?e = Some parent \<longrightarrow>
      \<not> (ref_sender parent = env_from ?e \<and> Some (ref_message_id parent) = env_conversation_message_id ?e))"
    using par(5) opt(1) by (metis option.simps(9))
  ultimately show "wf_envelope env ?e"
    using envelope_authorization [OF assms(1,2)] sc opt par(2,3)
    unfolding wf_envelope_def scalar_facts_def by blast
  obtain kvs' where obj: "envelope_object ?e = HMap kvs'" using envelope_object_map by blast
  show "same_value ?v (envelope_object ?e)"
    unfolding obj
  proof (rule same_value_objectsI [where ks = all_envelope_keys])
    have parts: "rel_option same_value (get ?v ''authorization'') (Some (authorization_object (env_authorization ?e)))"
      "rel_option same_value (get ?v ''body'') (Some (body_object (env_body ?e)))"
      "rel_option same_value (get ?v ''reply'') (Some (reply_object (env_reply ?e)))"
      unfolding e using authorization_same_value [OF c(1) assms(2)] body_facts(1) [OF c(2) assms(2)]
        reply_facts(1) [OF c(3) assms(2)] by blast+
    fix key assume "key \<in> set all_envelope_keys"
    then show "rel_option same_value (get ?v key) (get (HMap kvs') key)"
      unfolding obj [symmetric] all_envelope_keys_def envelope_keys_def append.simps list.set
      by (elim insertE emptyE)
        (use parts assms(3) sc opt(1,2) par(1) in
          \<open>simp_all add: envelope_object_get scalar_facts_def option.rel_refl\<close>)
  qed (use assms(2) envelope_keys_facts(1) [OF assms(1)] envelope_object_keys [OF obj] in auto)
qed

section \<open>Completeness of the assertion\<close>

lemma object_gets:
  "get (body_object b) ''digest'' = Some (digest_object (body_digest b))"
  "get (body_object b) ''size'' = Some (HInt (body_size b))"
  "get (body_object b) ''media_type'' = txt_lit ''application/hail-body+cbor''"
  "get (body_object b) ''profile'' = txt_lit (profile_name (body_profile_of b))"
  "get (body_object b) ''available_until'' = Some (HInt (available_until b))"
  "getf (get (body_object b) ''access'') ''type'' = txt_lit ''bearer''"
  "getf (get (body_object b) ''access'') ''token'' = Some (HBytes (access_token b))"
  "getf (get (body_object b) ''access'') ''expires_at'' = Some (HInt (access_expires_at b))"
  "get (reference_object r) ''sender'' = Some (HText (ref_sender r))"
  "get (reference_object r) ''message_id'' = Some (HText (ref_message_id r))"
  "get (introduction_object i) ''descriptor'' = Some (HBytes (intro_descriptor i))"
  "get (introduction_object i) ''connection_id'' = Some (HText (intro_connection_id i))"
  "get (introduction_object i) ''epoch'' = Some (HInt (intro_epoch i))"
  by (simp_all add: body_object_def reference_object_def introduction_object_def get_HMap)

lemma read_parts [simp]:
  "read_reference (reference_object r) = r" "read_introduction (introduction_object i) = i"
  "read_body (Some (body_object b)) = b" "read_reply (Some (reply_object p)) = p"
  "read_authorization (Some (authorization_object a)) = a"
proof -
  show "read_reference (reference_object r) = r" "read_introduction (introduction_object i) = i"
    by (simp_all add: read_reference_def read_introduction_def object_gets)
  have "read_profile (lit (profile_name x)) = x" for x by (cases x) (simp_all add: read_profile_def)
  then show "read_body (Some (body_object b)) = b"
    by (simp add: read_body_def object_gets)
  show "read_reply (Some (reply_object p)) = p" by (cases p) (simp_all add: read_reply_def get_HMap)
  show "read_authorization (Some (authorization_object a)) = a"
    by (cases a) (simp_all add: read_authorization_def get_HMap)
qed

lemma read_envelope_object: "read_envelope (envelope_object e) = e"
  by (cases e) (simp add: read_envelope_def envelope_object_get option.map_comp o_def option.map_ident)

lemma unique_objects [simp]:
  "unique_keys (authorization_object a)" "unique_keys (body_object b)" "unique_keys (reply_object p)"
  "unique_keys (reference_object r)" "unique_keys (introduction_object i)"
  by (cases a; cases p; simp add: body_object_def reference_object_def introduction_object_def)+

lemma unique_envelope_object: "unique_keys (envelope_object e)"
proof -
  obtain kvs where k: "envelope_object e = HMap kvs" using envelope_object_map by blast
  have "\<forall>(k, x) \<in> set (members (envelope_object e)). unique_keys x"
    by (auto simp: envelope_object_def present_def split: option.splits)
  with k envelope_object_keys [OF k] show ?thesis by simp
qed

lemma complete_parts:
  assumes "wf_envelope env e"
  shows "check_body_descriptor (envelope_object e) = Inr ()" "check_reply (envelope_object e) = Inr ()"
    "check_parents (envelope_object e) = Inr ()"
proof -
  show "check_body_descriptor (envelope_object e) = Inr ()"
    using assms unfolding wf_envelope_def wf_body_def
    by (cases "body_profile_of (env_body e)")
      (auto simp: check_body_descriptor_def Let_def envelope_object_get object_gets body_object_def [THEN arg_cong, of "\<lambda>x. exactKeys (Some x)"]
        safe_bounds text_in_iff get_HMap body_object_def)
  show "check_reply (envelope_object e) = Inr ()"
    using assms by (cases "env_reply e"; cases "env_authorization e")
      (auto simp: check_reply_def Let_def envelope_object_get get_HMap wf_envelope_def safe_bounds)
  have ref: "check_reference (Some (reference_object r)) = Inr ()" if "wf_reference r" for r
    using that by (auto simp: check_reference_def Let_def reference_object_def get_HMap wf_reference_def)
  show "check_parents (envelope_object e) = Inr ()"
    using assms ref
    by (cases "env_in_reply_to e"; cases "env_authorization e")
      (auto simp: check_parents_def Let_def envelope_object_get object_gets wf_envelope_def get_HMap)
qed

lemma complete_authorization:
  assumes "wf_envelope env e"
  shows "check_authorization env (envelope_object e) = Inr ()"
proof -
  have intro: "check_introduction env (envelope_object e) = Inr ()"
    if "env_introduction e = Some i" "env_authorization e = ConversationAuthorization creator c d" for i creator c d
    using assms that
    by (auto simp: check_introduction_def Let_def envelope_object_get object_gets introduction_object_def get_HMap
        wf_envelope_def wf_introduction_def safe_bounds digest_object_def)
  show ?thesis
  proof (cases "env_authorization e")
    case (ConversationAuthorization creator c d)
    with intro assms show ?thesis
      by (cases "env_introduction e")
        (auto simp: check_authorization_def Let_def envelope_object_get get_HMap wf_envelope_def)
  qed (use assms in \<open>auto simp: check_authorization_def Let_def envelope_object_get get_HMap wf_envelope_def safe_bounds\<close>)
qed

lemma wf_envelope_versions:
  assumes "wf_envelope env e"
  shows "env_version e \<in> {1, 2, 3, 4}" "env_version e = 4 \<Longrightarrow> env_category e = None"
    "env_version e \<noteq> 4 \<Longrightarrow> env_conversation_message_id e = None \<and> env_introduction e = None"
    "env_version e \<noteq> 3 \<Longrightarrow> env_version e \<noteq> 4 \<Longrightarrow> env_in_reply_to e = None"
proof -
  show v: "env_version e \<in> {1, 2, 3, 4}" and "env_version e = 4 \<Longrightarrow> env_category e = None"
    using assms by (cases "env_authorization e"; simp add: wf_envelope_def; blast)+
  show "env_version e \<noteq> 4 \<Longrightarrow> env_conversation_message_id e = None \<and> env_introduction e = None"
    "env_version e \<noteq> 3 \<Longrightarrow> env_version e \<noteq> 4 \<Longrightarrow> env_in_reply_to e = None"
    using v assms unfolding wf_envelope_def by auto
qed

lemma present_subset: "x = None \<or> k \<in> set ks \<Longrightarrow> fst ` set (present k f x) \<subseteq> lit ` set ks"
  by (auto simp: fst_present)

lemma exactKeys_envelope_object:
  assumes "wf_envelope env e"
  shows "exactKeys (Some (envelope_object e)) envelope_keys (envelope_optional (int_lit (env_version e))) [] = Inr ()"
proof -
  have eq: "fst ` set (members (envelope_object e)) = lit ` set envelope_keys
      \<union> (fst ` set (present ''category'' HText (env_category e))
      \<union> (fst ` set (present ''message_type'' HText (env_message_type e))
      \<union> (fst ` set (present ''in_reply_to'' reference_object (env_in_reply_to e))
      \<union> (fst ` set (present ''conversation_message_id'' HText (env_conversation_message_id e))
      \<union> fst ` set (present ''conversation_introduction'' introduction_object (env_introduction e))))))"
    by (simp add: envelope_object_def envelope_keys_def image_Un insert_commute)
  have "fst ` set (members (envelope_object e))
      \<subseteq> lit ` set (envelope_keys @ envelope_optional (int_lit (env_version e)))"
    unfolding eq
    by (intro Un_least present_subset image_mono)
      (use wf_envelope_versions [OF assms] in \<open>auto simp: envelope_optional_def\<close>)
  moreover have "lit ` set envelope_keys \<subseteq> fst ` set (members (envelope_object e))" unfolding eq by blast
  moreover obtain kvs where "envelope_object e = HMap kvs" using envelope_object_map by blast
  ultimately show ?thesis by simp
qed

lemma validateEnvelope_complete:
  assumes "wf_envelope env e"
  shows "validateEnvelope env (envelope_object e) = Inr ()"
proof -
  have "only_if (get (envelope_object e) ''category'' \<noteq> None)
      (check_category (get (envelope_object e) ''category'') (at ''category'')) = Inr ()"
    using assms by (cases "env_category e") (auto simp: envelope_object_get wf_envelope_def)
  moreover have "get (envelope_object e) ''message_type'' \<noteq> None \<longrightarrow>
      text_in (get (envelope_object e) ''message_type'') MESSAGE_TYPES"
    using assms by (cases "env_message_type e") (auto simp: envelope_object_get wf_envelope_def text_in_iff)
  moreover have "UUID_V7_PATTERN (env_message_id e)" "DID_PATTERN (env_from e)" "DID_PATTERN (env_to e)"
      "safe_nat (env_created_at e)" "safe_nat (env_expires_at e)" "env_created_at e < env_expires_at e"
      "env_expires_at e \<le> env_created_at e + 7 * 86400"
    using assms unfolding wf_envelope_def by blast+
  ultimately show ?thesis
    using complete_parts [OF assms] complete_authorization [OF assms] exactKeys_envelope_object [OF assms]
    by (auto simp: validateEnvelope_def Let_def envelope_object_get safe_bounds simp del: exactKeys_Inr)
qed

section \<open>Properties\<close>

text \<open>
  C6. The type assertion for envelopes is sound: a value that \<open>validatePayload\<close> accepts as an
  envelope is, up to the order of its members, the object of a \<open>HailEnvelope\<close> record that
  satisfies the protocol's conditions: the delivery window is positive and at most seven days, the
  body stays available for 30 to 31 days from creation and at least five minutes past the
  delivery window, the bearer token lives at least as long, the authorization type fixes the
  version and the presence of category, parent and introduction, and connection and conversation
  messages issue no reply capability.
\<close>

theorem envelope_sound:
  assumes "validatePayload env Envelope (of_hail h) = Inr ()" and "unique_keys h"
  shows "wf_envelope env (read_envelope h) \<and> same_value h (envelope_object (read_envelope h))"
proof -
  obtain kvs where h: "h = HMap kvs" "get h ''type'' = txt_lit (type_name Envelope)"
      "validate_by_type env Envelope h = Inr ()"
    using validatePayload_signed [OF assms(1)] by (auto simp: signed_types_def)
  with assms(2) show ?thesis
    using validateEnvelope_sound [of env kvs] by (simp add: validate_by_type_def)
qed

definition example_envelope :: HailEnvelope where
  "example_envelope = \<lparr>env_version = 1, env_conversation_message_id = None, env_introduction = None,
     env_in_reply_to = None, env_message_id = message_1, env_from = alice, env_to = bob,
     env_authorization = GrantAuthorization message_2, env_category = Some (lit ''news''), env_message_type = None,
     env_created_at = 1000, env_expires_at = 5000,
     env_body = \<lparr>body_digest = \<lparr>digest_value = replicate 32 7\<rparr>, body_size = 10, body_profile_of = Spt1,
       available_until = 2593000, access_token = replicate 32 1, access_expires_at = 2593000\<rparr>,
     env_reply = ReplyUntil 2000\<rparr>"

lemma news_category: "CATEGORY_PATTERN (lit ''news'')"
  by code_simp

lemma wf_example_envelope: "wf_envelope env example_envelope"
  by (simp add: wf_envelope_def wf_body_def example_envelope_def example_ids safe_bounds news_category)

lemma plain_example_envelope: "bulk (envelope_object example_envelope) \<le> 4096" "plain 33 (envelope_object example_envelope)"
  by (simp_all add: envelope_object_def example_envelope_def present_def digest_object_def body_object_def
      HAIL_MIN_INTEGER_def HAIL_MAX_INTEGER_def)

lemma validate_example_envelope: "validatePayload env Envelope (of_hail (envelope_object example_envelope)) = Inr ()"
proof (rule validatePayload_signedI)
  show "version_exempt Envelope (get (envelope_object example_envelope) ''version'')
      \<or> get (envelope_object example_envelope) ''version'' = int_lit 1"
    by (simp add: envelope_object_get example_envelope_def)
qed (simp_all add: validate_by_type_def validateEnvelope_complete wf_example_envelope
    envelope_object_get signed_types_def plain_example_envelope envelope_object_map)

theorem envelope_sound_witness:
  "wf_envelope example_env (read_envelope (envelope_object example_envelope))"
  using envelope_sound [OF validate_example_envelope unique_envelope_object] by blast

text \<open>
  C7. The type assertion for envelopes is complete: the object of a record passes the validator
  if and only if the record is well formed. So \<open>validateEnvelope\<close> neither rejects an envelope the
  protocol allows nor accepts one it forbids, for each of the four authorization types.
\<close>

theorem envelope_exact:
  "validateEnvelope env (envelope_object e) = Inr () \<longleftrightarrow> wf_envelope env e"
proof
  assume "validateEnvelope env (envelope_object e) = Inr ()"
  moreover obtain kvs where "envelope_object e = HMap kvs" using envelope_object_map by blast
  ultimately show "wf_envelope env e"
    using validateEnvelope_sound [of env kvs] unique_envelope_object [of e] envelope_object_get(1) [of e]
      read_envelope_object [of e] by simp
qed (rule validateEnvelope_complete)

end
