(* ===== verification/GrantModel.thy ===== *)
theory GrantModel
  imports Models
begin

text \<open>
  What \<open>validateGrant\<close> (\<^verbatim>\<open>packages/hail-codec-ts/src/validation.ts\<close>) asserts of a
  \<open>HailGrant\<close>.
\<close>

definition read_grant :: "hail_value \<Rightarrow> HailGrant" where
  "read_grant v =
     \<lparr>grant_id = text_of (get v ''grant_id''), grant_revision = int_of (get v ''revision''),
       grant_previous = (case get v ''previous'' of Some (HBytes bs) \<Rightarrow> Some bs | _ \<Rightarrow> None),
       grantor = text_of (get v ''grantor''), grantee = text_of (get v ''grantee''),
       grant_scope = map (\<lambda>x. text_of (Some x)) (list_of (get (hd (list_of (get v ''scope''))) ''values'')),
       grant_status_of = (if get v ''status'' = txt_lit ''active'' then Active else Revoked),
       grant_issued_at = int_of (get v ''issued_at''), grant_updated_at = int_of (get v ''updated_at''),
       grant_expires_at = (case get v ''expires_at'' of Some (HInt i) \<Rightarrow> Some i | _ \<Rightarrow> None),
       consent_address = text_of (getf (get v ''consent_context'') ''grantee_address''),
       consent_binding_hash = read_digest (getf (get v ''consent_context'') ''address_binding_hash''),
       consent_profile_hash = read_digest (getf (get v ''consent_context'') ''sender_profile_hash'')\<rparr>"

definition wf_grant :: "validation_env \<Rightarrow> HailGrant \<Rightarrow> bool" where
  "wf_grant env g \<longleftrightarrow>
     UUID_V7_PATTERN (grant_id g) \<and> safe_nat (grant_revision g) \<and> 1 \<le> grant_revision g
     \<and> (case grant_previous g of None \<Rightarrow> grant_revision g = 1 | Some d \<Rightarrow> 1 < grant_revision g \<and> length d = 32)
     \<and> DID_PATTERN (grantor g) \<and> DID_PATTERN (grantee g)
     \<and> grant_scope g \<noteq> [] \<and> sorted_wrt (<) (grant_scope g) \<and> (\<forall>c \<in> set (grant_scope g). CATEGORY_PATTERN c)
     \<and> safe_nat (grant_issued_at g) \<and> safe_nat (grant_updated_at g) \<and> grant_issued_at g \<le> grant_updated_at g
     \<and> pred_option safe_nat (grant_expires_at g)
     \<and> hailAddress env (Some (HText (consent_address g))) [] = Inr ()
     \<and> length (digest_value (consent_binding_hash g)) = 32 \<and> length (digest_value (consent_profile_hash g)) = 32"

text \<open>An ascending traversal accepts exactly the strictly sorted sequences of accepted keys.\<close>

lemma ascending_check_Inr:
  "ascending_check f key p h i previous xs = Inr u \<longleftrightarrow>
     ascending_from previous (map key xs) \<and> (\<forall>k < length xs. f (i + k) (xs ! k) = Inr () \<and> h (i + k) (xs ! k) = Inr ())"
proof (induction xs arbitrary: i previous)
  case (Cons x xs)
  have "(\<forall>k < length (x # xs). P (i + k) ((x # xs) ! k)) \<longleftrightarrow> P i x \<and> (\<forall>k < length xs. P (Suc i + k) (xs ! k))" for P
    by (auto simp: less_Suc_eq_0_disj nth_Cons')
  from this [of "\<lambda>k x. f k x = Inr () \<and> h k x = Inr ()"] Cons show ?case by auto
qed simp

lemma ascending_categories:
  "ascending_check (\<lambda>i entry. check_category (Some entry) (q i)) (\<lambda>entry. text_of (Some entry)) p (\<lambda>_ _. Inr ()) 0 [] xs
     = Inr u \<longleftrightarrow> (\<exists>cs. xs = map HText cs \<and> sorted_wrt (<) cs \<and> (\<forall>c \<in> set cs. CATEGORY_PATTERN c))"
proof
  assume "ascending_check (\<lambda>i entry. check_category (Some entry) (q i)) (\<lambda>entry. text_of (Some entry)) p (\<lambda>_ _. Inr ()) 0 [] xs = Inr u"
  then have s: "sorted_wrt (<) (map (\<lambda>entry. text_of (Some entry)) xs)"
    and c: "\<forall>x \<in> set xs. \<exists>s. x = HText s \<and> CATEGORY_PATTERN s"
    by (auto simp: ascending_check_Inr ascending_from_sorted in_set_conv_nth)
  have "xs = map HText (map (\<lambda>entry. text_of (Some entry)) xs)"
    using c by (auto simp: o_def intro!: map_idI [symmetric])
  with s c show "\<exists>cs. xs = map HText cs \<and> sorted_wrt (<) cs \<and> (\<forall>c \<in> set cs. CATEGORY_PATTERN c)"
    by (intro exI [of _ "map (\<lambda>entry. text_of (Some entry)) xs"]) auto
next
  assume "\<exists>cs. xs = map HText cs \<and> sorted_wrt (<) cs \<and> (\<forall>c \<in> set cs. CATEGORY_PATTERN c)"
  then obtain cs where cs: "xs = map HText cs" "sorted_wrt (<) cs" "\<forall>c \<in> set cs. CATEGORY_PATTERN c" by blast
  moreover have "[] < c" if "c \<in> set cs" for c using cs(3) that by (auto simp: CATEGORY_PATTERN_def neq_Nil_conv)
  ultimately show "ascending_check (\<lambda>i entry. check_category (Some entry) (q i)) (\<lambda>entry. text_of (Some entry)) p
      (\<lambda>_ _. Inr ()) 0 [] xs = Inr u"
    by (auto simp: ascending_check_Inr ascending_from_sorted o_def)
qed

lemma check_scope_Inr:
  "check_scope v = Inr u \<longleftrightarrow> (\<exists>kvs cs. v = Some (HArray [HMap kvs]) \<and> fst ` set kvs = {lit ''type'', lit ''values''}
     \<and> get (HMap kvs) ''type'' = txt_lit ''categories'' \<and> get (HMap kvs) ''values'' = Some (HArray (map HText cs))
     \<and> cs \<noteq> [] \<and> sorted_wrt (<) cs \<and> (\<forall>c \<in> set cs. CATEGORY_PATTERN c))"
proof -
  have one: "length xs = Suc 0 \<longleftrightarrow> (\<exists>x. xs = [x])" for xs :: "hail_value list" by (cases xs) auto
  show ?thesis
    by (auto simp: check_scope_def Let_def one ascending_categories)
qed

lemma hailAddress_path: "hailAddress env v p = Inr () \<longleftrightarrow> hailAddress env v [] = Inr ()"
  by (simp add: hailAddress_def Let_def split: prod.splits)

lemma check_keyId_Inr [simp, check_simps]:
  "check_keyId v signer role p = Inr u \<longleftrightarrow> v = Some (HText (key_id_of signer role))"
  by (cases v) (auto simp: check_keyId_def)

lemma hailAddress_text: "hailAddress env v p = Inr () \<Longrightarrow> \<exists>s. v = Some (HText s)"
  by (simp add: hailAddress_def Let_def split: prod.splits)

lemma consent_facts:
  assumes "check_consent_context env [''address_binding_hash'', ''sender_profile_hash''] v = Inr ()"
    "\<forall>h. v = Some h \<longrightarrow> unique_keys h"
  obtains kvs a where "v = Some (HMap kvs)" "get (HMap kvs) ''grantee_address'' = Some (HText a)"
    "hailAddress env (Some (HText a)) [] = Inr ()"
    "length (digest_value (read_digest (get (HMap kvs) ''address_binding_hash''))) = 32"
    "length (digest_value (read_digest (get (HMap kvs) ''sender_profile_hash''))) = 32"
    "same_value (HMap kvs) (HMap [(lit ''grantee_address'', HText a),
        (lit ''address_binding_hash'', digest_object (read_digest (get (HMap kvs) ''address_binding_hash''))),
        (lit ''sender_profile_hash'', digest_object (read_digest (get (HMap kvs) ''sender_profile_hash'')))])"
proof -
  let ?ks = "[''grantee_address'', ''address_binding_hash'', ''sender_profile_hash'']"
  note c = assms(1) [unfolded check_consent_context_def Let_def list.map append.simps check_simps list.set ball_simps]
  obtain kvs where v: "v = Some (HMap kvs)" using c by auto
  have u: "unique_keys (HMap kvs)" using assms(2) v by blast
  have addr: "hailAddress env (get (HMap kvs) ''grantee_address'') [] = Inr ()"
    using c v hailAddress_path [of env "get (HMap kvs) ''grantee_address''"] by auto
  then obtain a where a: "get (HMap kvs) ''grantee_address'' = Some (HText a)" using hailAddress_text by blast
  have d: "check_digest (get (HMap kvs) ''address_binding_hash'') (sub_lit (at ''consent_context'') ''address_binding_hash'') = Inr ()"
      "check_digest (get (HMap kvs) ''sender_profile_hash'') (sub_lit (at ''consent_context'') ''sender_profile_hash'') = Inr ()"
    using c v by auto
  note dg = digest_same_value [OF d(1)] digest_same_value [OF d(2)]
  have "same_value (HMap kvs) (HMap [(lit ''grantee_address'', HText a),
        (lit ''address_binding_hash'', digest_object (read_digest (get (HMap kvs) ''address_binding_hash''))),
        (lit ''sender_profile_hash'', digest_object (read_digest (get (HMap kvs) ''sender_profile_hash'')))])"
    by (rule same_value_objectsI [where ks = ?ks])
      (use c v u a dg get_unique_keys [OF u] in \<open>auto simp: get_HMap\<close>)
  with that v a addr dg get_unique_keys [OF u] show thesis by auto
qed

lemma scope_same_value:
  assumes "check_scope v = Inr ()" "\<forall>h. v = Some h \<longrightarrow> unique_keys h"
  obtains cs where "map (\<lambda>x. text_of (Some x)) (list_of (get (hd (list_of v)) ''values'')) = cs"
    "cs \<noteq> []" "sorted_wrt (<) cs" "\<forall>c \<in> set cs. CATEGORY_PATTERN c"
    "rel_option same_value v (Some (HArray [HMap [(lit ''type'', HText (lit ''categories'')),
        (lit ''values'', HArray (map HText cs))]]))"
proof -
  obtain kvs cs where f: "v = Some (HArray [HMap kvs])" "fst ` set kvs = {lit ''type'', lit ''values''}"
      "get (HMap kvs) ''type'' = txt_lit ''categories''" "get (HMap kvs) ''values'' = Some (HArray (map HText cs))"
      "cs \<noteq> []" "sorted_wrt (<) cs" "\<forall>c \<in> set cs. CATEGORY_PATTERN c"
    using assms(1) by (auto simp: check_scope_Inr)
  have "same_value (HMap kvs) (HMap [(lit ''type'', HText (lit ''categories'')), (lit ''values'', HArray (map HText cs))])"
    by (rule same_value_objectsI [where ks = "[''type'', ''values'']"]) (use f assms(2) in \<open>auto simp: get_HMap\<close>)
  with f that show thesis by (simp add: same_value_def o_def)
qed

lemma get_grant_object:
  "get (grant_object g) ''type'' = txt_lit ''hail.grant''" "get (grant_object g) ''version'' = int_lit 1"
  "get (grant_object g) ''grant_id'' = Some (HText (grant_id g))"
  "get (grant_object g) ''revision'' = Some (HInt (grant_revision g))"
  "get (grant_object g) ''previous'' = Some (nullable HBytes (grant_previous g))"
  "get (grant_object g) ''grantor'' = Some (HText (grantor g))"
  "get (grant_object g) ''grantee'' = Some (HText (grantee g))"
  "get (grant_object g) ''scope'' = Some (HArray [HMap [(lit ''type'', HText (lit ''categories'')),
        (lit ''values'', HArray (map HText (grant_scope g)))]])"
  "get (grant_object g) ''status'' = txt_lit (status_text (grant_status_of g))"
  "get (grant_object g) ''issued_at'' = Some (HInt (grant_issued_at g))"
  "get (grant_object g) ''updated_at'' = Some (HInt (grant_updated_at g))"
  "get (grant_object g) ''expires_at'' = Some (nullable HInt (grant_expires_at g))"
  "get (grant_object g) ''consent_context'' = Some (HMap [(lit ''grantee_address'', HText (consent_address g)),
        (lit ''address_binding_hash'', digest_object (consent_binding_hash g)),
        (lit ''sender_profile_hash'', digest_object (consent_profile_hash g))])"
  "get (grant_object g) ''key_id'' = Some (HText (key_id_of (grantor g) HailIdentity))"
  by (simp_all add: grant_object_def get_HMap)

lemma grant_object_map: "\<exists>kvs. grant_object g = HMap kvs \<and> distinct (map fst kvs) \<and> fst ` set kvs = lit ` set grant_keys"
  by (simp add: grant_object_def grant_keys_def)

lemma read_grant_object: "read_grant (grant_object g) = g"
  by (cases g; cases "grant_previous g"; cases "grant_expires_at g"; cases "grant_status_of g")
    (simp_all add: read_grant_def get_grant_object nullable_def status_text_def get_HMap o_def)

lemma unique_grant_object: "unique_keys (grant_object g)"
  by (simp add: grant_object_def nullable_def split: option.split)

lemma validateGrant_sound:
  assumes "validateGrant env (HMap kvs) = Inr ()" "unique_keys (HMap kvs)"
    and "get (HMap kvs) ''type'' = txt_lit ''hail.grant''" "get (HMap kvs) ''version'' = int_lit 1"
  shows "wf_grant env (read_grant (HMap kvs)) \<and> same_value (HMap kvs) (grant_object (read_grant (HMap kvs)))"
proof -
  let ?v = "HMap kvs" and ?g = "read_grant (HMap kvs)"
  note c = assms(1) [unfolded validateGrant_def Let_def check_simps list.set ball_simps]
  have sub: "check_scope (get ?v ''scope'') = Inr ()"
      "check_consent_context env [''address_binding_hash'', ''sender_profile_hash''] (get ?v ''consent_context'') = Inr ()"
    using c by blast+
  obtain cs where cs: "map (\<lambda>x. text_of (Some x)) (list_of (get (hd (list_of (get ?v ''scope''))) ''values'')) = cs"
    "cs \<noteq> []" "sorted_wrt (<) cs" "\<forall>c \<in> set cs. CATEGORY_PATTERN c"
    "rel_option same_value (get ?v ''scope'') (Some (HArray [HMap [(lit ''type'', HText (lit ''categories'')),
        (lit ''values'', HArray (map HText cs))]]))"
    using scope_same_value [OF sub(1)] get_unique_keys [OF assms(2)] by blast
  obtain ccs a where con: "get ?v ''consent_context'' = Some (HMap ccs)" "get (HMap ccs) ''grantee_address'' = Some (HText a)"
    "hailAddress env (Some (HText a)) [] = Inr ()"
    "length (digest_value (read_digest (get (HMap ccs) ''address_binding_hash''))) = 32"
    "length (digest_value (read_digest (get (HMap ccs) ''sender_profile_hash''))) = 32"
    "same_value (HMap ccs) (HMap [(lit ''grantee_address'', HText a),
        (lit ''address_binding_hash'', digest_object (read_digest (get (HMap ccs) ''address_binding_hash''))),
        (lit ''sender_profile_hash'', digest_object (read_digest (get (HMap ccs) ''sender_profile_hash'')))])"
    using consent_facts [OF sub(2)] get_unique_keys [OF assms(2)] by blast
  obtain gid gr ge where ids: "get ?v ''grant_id'' = Some (HText gid)" "UUID_V7_PATTERN gid"
      "get ?v ''grantor'' = Some (HText gr)" "DID_PATTERN gr" "get ?v ''grantee'' = Some (HText ge)" "DID_PATTERN ge"
    using c by blast
  obtain rev where rev: "get ?v ''revision'' = Some (HInt rev)" "safe_nat rev" "1 \<le> rev"
    using c unfolding safe_nat_def by force
  obtain iss upd where times: "get ?v ''issued_at'' = Some (HInt iss)" "safe_nat iss"
      "get ?v ''updated_at'' = Some (HInt upd)" "safe_nat upd" "iss \<le> upd"
    using c unfolding safe_nat_def by force
  have "get ?v ''key_id'' = Some (HText (key_id_of gr HailIdentity))" using c ids(3) by simp
  note f = ids rev times this
  have prev: "get ?v ''previous'' = Some (nullable HBytes (grant_previous ?g))
      \<and> (case grant_previous ?g of None \<Rightarrow> rev = 1 | Some d \<Rightarrow> 1 < rev \<and> length d = 32)"
  proof (cases "rev = 1")
    case True
    then have "get ?v ''previous'' = Some HNull" using c rev(1) by simp
    with True show ?thesis by (simp add: read_grant_def nullable_def)
  next
    case False
    with rev(3) have "1 < rev" by simp
    then obtain bs where "get ?v ''previous'' = Some (HBytes bs)" "length bs = 32" using c rev(1) by auto
    with \<open>1 < rev\<close> show ?thesis by (simp add: read_grant_def nullable_def)
  qed
  have exp: "get ?v ''expires_at'' = Some (nullable HInt (grant_expires_at ?g)) \<and> pred_option safe_nat (grant_expires_at ?g)"
  proof (cases "get ?v ''expires_at'' = Some HNull")
    case True
    then show ?thesis by (simp add: read_grant_def nullable_def)
  next
    case False
    then obtain i where "get ?v ''expires_at'' = Some (HInt i)" "safe_nat i" using c unfolding safe_nat_def by blast
    then show ?thesis by (simp add: read_grant_def nullable_def)
  qed
  have "text_in (get ?v ''status'') [''active'', ''revoked'']" using c by blast
  then have stat: "get ?v ''status'' = txt_lit (status_text (grant_status_of ?g))"
    by (auto simp: text_in_iff read_grant_def status_text_def)
  have sel: "grant_id ?g = gid" "grant_revision ?g = rev" "grantor ?g = gr" "grantee ?g = ge" "grant_scope ?g = cs"
      "grant_issued_at ?g = iss" "grant_updated_at ?g = upd" "consent_address ?g = a"
      "consent_binding_hash ?g = read_digest (get (HMap ccs) ''address_binding_hash'')"
      "consent_profile_hash ?g = read_digest (get (HMap ccs) ''sender_profile_hash'')"
    using f cs(1) con by (simp_all add: read_grant_def Let_def)
  have "wf_grant env ?g"
    unfolding wf_grant_def sel using f cs con prev exp by blast
  moreover obtain kvs' where obj: "grant_object ?g = HMap kvs'" "distinct (map fst kvs')" "fst ` set kvs' = lit ` set grant_keys"
    using grant_object_map by blast
  have "same_value ?v (grant_object ?g)"
    unfolding obj(1)
  proof (rule same_value_objectsI [where ks = grant_keys])
    fix key assume "key \<in> set grant_keys"
    then show "rel_option same_value (get ?v key) (get (HMap kvs') key)"
      unfolding obj(1) [symmetric] grant_keys_def list.set
      by (elim insertE emptyE)
        (use assms(3,4) f prev exp stat cs(5) con(1,6) in \<open>simp_all add: get_grant_object sel\<close>)
  qed (use assms(2) obj c in \<open>auto simp: grant_keys_def\<close>)
  ultimately show ?thesis by blast
qed

lemma validateGrant_complete:
  assumes "wf_grant env g"
  shows "validateGrant env (grant_object g) = Inr ()"
proof -
  obtain kvs where k: "grant_object g = HMap kvs" "fst ` set kvs = lit ` set grant_keys" using grant_object_map by blast
  then have "exactKeys (Some (grant_object g)) grant_keys [] [] = Inr ()" by simp
  moreover have "check_scope (get (grant_object g) ''scope'') = Inr ()"
    using assms by (auto simp: get_grant_object check_scope_Inr get_HMap wf_grant_def)
  moreover have "check_consent_context env [''address_binding_hash'', ''sender_profile_hash'']
      (get (grant_object g) ''consent_context'') = Inr ()"
    using assms hailAddress_path [of env "Some (HText (consent_address g))"]
    by (auto simp: get_grant_object check_consent_context_def Let_def get_HMap wf_grant_def)
  ultimately show ?thesis
    using assms
    by (cases "grant_previous g"; cases "grant_expires_at g"; cases "grant_status_of g")
      (auto simp: validateGrant_def Let_def get_grant_object nullable_def wf_grant_def safe_bounds status_text_def
        text_in_iff simp del: exactKeys_Inr)
qed

end
