(* ===== verification/ValidationProperties.thy ===== *)
theory ValidationProperties
  imports EnvelopeModel GrantModel
begin

text \<open>
  Properties of the validators of \<^verbatim>\<open>packages/hail-codec-ts/src/validation.ts\<close> that are not
  type assertions for a single interface, and two places where the validators accept what the
  specification excludes.
\<close>

section \<open>Grants\<close>

text \<open>
  The type assertion for grants is sound: an accepted value is, up to member order, the
  object of a \<open>HailGrant\<close> whose first revision has no predecessor and whose later revisions name a
  32-byte predecessor digest, whose categories are strictly ascending, and whose update time does
  not precede its issue time.
\<close>

theorem grant_sound:
  assumes "validatePayload env Grant (of_hail h) = Inr ()" and "unique_keys h"
  shows "wf_grant env (read_grant h) \<and> same_value h (grant_object (read_grant h))"
proof -
  obtain kvs where h: "h = HMap kvs" "get h ''type'' = txt_lit (type_name Grant)"
      "validate_by_type env Grant h = Inr ()"
      "version_exempt Grant (get h ''version'') \<or> get h ''version'' = int_lit 1"
    using validatePayload_signed [OF assms(1)] by (auto simp: signed_types_def)
  with assms(2) show ?thesis
    using validateGrant_sound [of env kvs] by (simp add: validate_by_type_def version_exempt_def)
qed

definition address_1 :: jstring where "address_1 = lit ''alice@example.com''"

definition example_grant :: HailGrant where
  "example_grant = \<lparr>grant_id = message_1, grant_revision = 2, grant_previous = Some (replicate 32 3),
     grantor = alice, grantee = bob, grant_scope = [lit ''news''], grant_status_of = Active,
     grant_issued_at = 100, grant_updated_at = 200, grant_expires_at = None, consent_address = address_1,
     consent_binding_hash = \<lparr>digest_value = replicate 32 1\<rparr>, consent_profile_hash = \<lparr>digest_value = replicate 32 2\<rparr>\<rparr>"

lemma example_address: "hailAddress example_env (Some (HText address_1)) [] = Inr ()"
  unfolding address_1_def by code_simp

lemma wf_example_grant: "wf_grant example_env example_grant"
  by (simp add: wf_grant_def example_grant_def example_ids safe_bounds news_category example_address)

lemma plain_example_grant: "bulk (grant_object example_grant) \<le> 4096" "plain 33 (grant_object example_grant)"
  by (simp_all add: grant_object_def example_grant_def nullable_def digest_object_def address_1_def status_text_def
      HAIL_MIN_INTEGER_def HAIL_MAX_INTEGER_def key_id_of_def alice_def lit_append [symmetric])

lemma validate_example_grant: "validatePayload example_env Grant (of_hail (grant_object example_grant)) = Inr ()"
proof (rule validatePayload_signedI)
  show "\<exists>kvs. grant_object example_grant = HMap kvs" using grant_object_map by blast
qed (simp_all add: validate_by_type_def validateGrant_complete wf_example_grant get_grant_object signed_types_def
    plain_example_grant)

theorem grant_sound_witness: "wf_grant example_env (read_grant (grant_object example_grant))"
  using grant_sound [OF validate_example_grant unique_grant_object] by blast

text \<open>
  C8. The type assertion for grants is complete: the object of a record passes the validator if
  and only if the record is well formed.
\<close>

theorem grant_exact: "validateGrant env (grant_object g) = Inr () \<longleftrightarrow> wf_grant env g"
proof
  assume "validateGrant env (grant_object g) = Inr ()"
  moreover obtain kvs where "grant_object g = HMap kvs" using grant_object_map by blast
  ultimately show "wf_grant env g"
    using validateGrant_sound [of env kvs] unique_grant_object [of g] get_grant_object(1,2) [of g]
      read_grant_object [of g] by simp
qed (rule validateGrant_complete)

section \<open>Conversations\<close>

lemma ascending_dids:
  "ascending_check (\<lambda>i entry. check_did (Some entry) (q i)) (\<lambda>entry. text_of (Some entry)) p (\<lambda>_ _. Inr ()) 0 [] xs
     = Inr u \<Longrightarrow> (\<exists>ds. xs = map HText ds \<and> sorted_wrt (<) ds \<and> (\<forall>d \<in> set ds. DID_PATTERN d))"
proof -
  assume "ascending_check (\<lambda>i entry. check_did (Some entry) (q i)) (\<lambda>entry. text_of (Some entry)) p (\<lambda>_ _. Inr ()) 0 [] xs = Inr u"
  then have s: "sorted_wrt (<) (map (\<lambda>entry. text_of (Some entry)) xs)"
    and c: "\<forall>x \<in> set xs. \<exists>s. x = HText s \<and> DID_PATTERN s"
    by (auto simp: ascending_check_Inr ascending_from_sorted in_set_conv_nth)
  have "xs = map HText (map (\<lambda>entry. text_of (Some entry)) xs)"
    using c by (auto simp: o_def intro!: map_idI [symmetric])
  with s c show ?thesis
    by (intro exI [of _ "map (\<lambda>entry. text_of (Some entry)) xs"]) auto
qed

text \<open>
  A conversation descriptor that the validator accepts names a fixed roster of 3 to 101
  distinct identities in ascending order, its creator is one of them, and its admission window is
  positive and at most seven days.
\<close>

theorem conversation_roster:
  assumes "validateConversation payload = Inr ()"
  shows "\<exists>roster creator. get payload ''participants'' = Some (HArray (map HText roster))
     \<and> get payload ''from'' = Some (HText creator) \<and> creator \<in> set roster
     \<and> 3 \<le> length roster \<and> length roster \<le> 101 \<and> distinct roster \<and> sorted_wrt (<) roster
     \<and> (\<forall>d \<in> set roster. DID_PATTERN d)
     \<and> int_of (get payload ''created_at'') < int_of (get payload ''admission_until'')
     \<and> int_of (get payload ''admission_until'') \<le> int_of (get payload ''created_at'') + 7 * 86400"
proof -
  note c = assms [unfolded validateConversation_def Let_def check_simps list.set ball_simps]
  obtain xs creator where x: "get payload ''participants'' = Some (HArray xs)" "get payload ''from'' = Some (HText creator)"
    using c by blast
  have "\<exists>ds. xs = map HText ds \<and> sorted_wrt (<) ds \<and> (\<forall>d \<in> set ds. DID_PATTERN d)"
    by (rule ascending_dids [of "subi (at ''participants'')" "\<lambda>_. at ''participants''"]) (use c x(1) in simp)
  then obtain ds where ds: "xs = map HText ds" "sorted_wrt (<) ds" "\<forall>d \<in> set ds. DID_PATTERN d" by blast
  moreover have "creator \<in> set ds" "3 \<le> length ds" "length ds \<le> 101" using c x ds(1) by auto
  moreover have "distinct ds" using ds(2) by (simp add: strict_sorted_iff)
  ultimately show ?thesis using c x by auto
qed

definition example_conversation :: hail_value where
  "example_conversation = HMap [(lit ''type'', HText (lit ''hail.conversation'')), (lit ''version'', HInt 1),
     (lit ''conversation_id'', HText message_1), (lit ''from'', HText bob), (lit ''membership_revision'', HInt 1),
     (lit ''participants'', HArray [HText alice, HText bob, HText (lit ''did:plc:cccccccccccccccccccccccc'')]),
     (lit ''created_at'', HInt 10), (lit ''admission_until'', HInt 20)]"

theorem conversation_roster_witness:
  "\<exists>roster. get example_conversation ''participants'' = Some (HArray (map HText roster)) \<and> bob \<in> set roster"
proof -
  have "validateConversation example_conversation = Inr ()"
    unfolding example_conversation_def alice_def bob_def message_1_def by code_simp
  from conversation_roster [OF this] obtain roster creator where
      "get example_conversation ''participants'' = Some (HArray (map HText roster))"
      "get example_conversation ''from'' = Some (HText creator)" "creator \<in> set roster" by blast
  then show ?thesis by (auto simp: example_conversation_def get_HMap)
qed

section \<open>An address without an at sign\<close>

text \<open>
  C9. \<open>hailAddress\<close> never checks that \<open>lastIndexOf("@")\<close> found a separator. With none, the local
  part is the address without its last character and the domain is the whole address, so every
  canonical public domain name whose prefix is a valid local part is accepted as an address,
  although an address has one local part, one at sign and one domain.
\<close>

theorem address_without_separator:
  assumes "of_char CHR ''@'' \<notin> set d" and "LOCAL_PART_PATTERN (butlast d)" and "length d \<le> 64"
    and "of_char CHR ''.'' \<in> set d" and "d = ascii_lower d"
    and "list_all DOMAIN_LABEL_PATTERN (split_on (of_char CHR ''.'') d)"
    and "\<not> toUnicode_error env d" and "toASCII env d = Some d"
    and "pd_domain (parseDomain env d) \<noteq> None" and "isIcann (parseDomain env d)"
  shows "hailAddress env (Some (HText d)) p = Inr ()"
proof -
  have "dropWhile (\<lambda>c. c \<noteq> of_char CHR ''@'') (rev d) = []" using assms(1) by (auto simp: dropWhile_eq_Nil_conv)
  then have "address_parts d = (butlast d, d)" by (simp add: address_parts_def last_at_def)
  with assms show ?thesis by (auto simp: hailAddress_def)
qed

theorem address_without_separator_witness:
  "hailAddress example_env (Some (HText (lit ''mail.example.com''))) [] = Inr ()"
proof (rule address_without_separator)
  show "of_char CHR ''@'' \<notin> set (lit ''mail.example.com'')" by code_simp
  show "LOCAL_PART_PATTERN (butlast (lit ''mail.example.com''))" by code_simp
  show "of_char CHR ''.'' \<in> set (lit ''mail.example.com'')" by code_simp
  show "lit ''mail.example.com'' = ascii_lower (lit ''mail.example.com'')" by code_simp
  show "list_all DOMAIN_LABEL_PATTERN (split_on (of_char CHR ''.'') (lit ''mail.example.com''))" by code_simp
qed (simp_all add: example_env_def)

section \<open>A control message whose operation is not text\<close>

definition control_with :: "hail_value \<Rightarrow> hail_value" where
  "control_with operation = HMap [(lit ''type'', HText (lit ''hail.connection-control'')), (lit ''version'', HInt 1),
     (lit ''operation'', operation), (lit ''from'', HText alice), (lit ''to'', HText bob),
     (lit ''request_id'', HText message_1), (lit ''connection_id'', HText message_2), (lit ''epoch'', HInt 1),
     (lit ''state'', HText (lit ''active'')),
     (lit ''proof_hash'', HMap [(lit ''algorithm'', HText (lit ''sha-256'')), (lit ''value'', HBytes (replicate 32 0))]),
     (lit ''issued_at'', HInt 100), (lit ''expires_at'', HInt 200), (lit ''key_id'', HText (key_id_of alice HailMessaging))]"

text \<open>
  The type assertion for connection controls is not sound. The validator tests
  \<open>String(payload.operation)\<close> and \<open>String\<close> of a one-element array is the string of its element, so
  a control whose operation is the array \<open>["probe"]\<close> passes, and the value then has the asserted
  type \<open>HailConnectionControl\<close> with an operation that is not a string.
\<close>

theorem control_operation_array:
  "validatePayload env ConnectionControl (of_hail (control_with (HArray [HText (lit ''probe'')]))) = Inr ()"
proof (rule validatePayload_signedI)
  have "alice \<noteq> bob" by (simp add: alice_def bob_def)
  then show "validate_by_type env ConnectionControl (control_with (HArray [HText (lit ''probe'')])) = Inr ()"
    by (auto simp: validate_by_type_def validateConnectionControl_def control_with_def get_HMap example_ids
        string_in_def join_with_def connectionExpiry_def check_digest_def HAIL_MIN_INTEGER_def HAIL_MAX_INTEGER_def)
qed (auto simp: control_with_def get_HMap signed_types_def HAIL_MIN_INTEGER_def HAIL_MAX_INTEGER_def
    key_id_of_def alice_def lit_append [symmetric])

end
