(* ===== verification/CoseProperties.thy ===== *)
theory CoseProperties
  imports Cose ValidationProperties
begin

text \<open>
  Signing and verifying are inverse to each other: what a signer produces every matching verifier
  accepts with the same payload, and what a verifier accepts is byte for byte what a signer with
  that key identifier produces. Both hold for every CBOR library that behaves as documented
  (\<open>cbor_library\<close>) and every pair of a signer and a verifier that belong together
  (\<open>signature_scheme\<close>), which the Web Crypto adapters are.
\<close>

section \<open>ASCII text\<close>

definition ascii_text :: "jstring \<Rightarrow> bool" where
  "ascii_text s \<longleftrightarrow> list_all (\<lambda>c. unat c < 0x80) s"

lemma ascii_text_simps [simp]:
  "ascii_text []" "ascii_text (c # s) \<longleftrightarrow> unat c < 0x80 \<and> ascii_text s"
  "ascii_text (s @ t) \<longleftrightarrow> ascii_text s \<and> ascii_text t"
  by (simp_all add: ascii_text_def)

lemma ascii_well_formed: "ascii_text s \<Longrightarrow> isWellFormed s"
  by (rule isWellFormed_small) (auto simp: ascii_text_def list_all_iff)

lemma ascii_code_points: "ascii_text s \<Longrightarrow> code_points s = map unat s"
  by (induction s rule: code_points.induct) (auto simp: high_surrogate_unat)

lemma ascii_utf8: "ascii_text s \<Longrightarrow> utf8_encode s = map (\<lambda>c. of_nat (unat c)) s"
  by (induction s) (auto simp: utf8_encode_def ascii_code_points utf8_point_def surrogate_point_def)

lemma utf8_multibyte:
  assumes "utf8_points (b # bs) = Some ps" and "0x80 \<le> unat b"
  shows "\<exists>p qs. ps = p # qs \<and> 0x80 \<le> p"
proof -
  consider "0xC2 \<le> unat b" "unat b \<le> 0xDF" | "0xE0 \<le> unat b" "unat b \<le> 0xEF" | "0xF0 \<le> unat b" "unat b \<le> 0xF4"
    using assms by (fastforce split: if_splits)
  then show ?thesis
  proof cases
    case 1
    with assms show ?thesis by (cases bs) (auto split: if_splits)
  next
    case 2
    with assms(1) obtain c d ds where "bs = c # d # ds" by (auto split: list.splits if_splits)
    moreover from this assms(1) 2
    have "continuation (if unat b = 0xE0 then 0xA0 else 0x80) (if unat b = 0xED then 0x9F else 0xBF) c"
      by (auto simp del: utf8_points.simps(2) simp: utf8_points.simps(2) [of b] split: if_splits)
    then have "0x80 \<le> (unat b - 0xE0) * 0x1000 + (unat c - 0x80) * 0x40"
      using 2 by (auto simp: continuation_def split: if_splits)
    ultimately show ?thesis
      using assms(1) 2 by (auto simp del: utf8_points.simps(2) simp: utf8_points.simps(2) [of b] split: if_splits)
  next
    case 3
    with assms(1) obtain c d e ds where "bs = c # d # e # ds" by (auto split: list.splits if_splits)
    moreover from this assms(1) 3
    have "continuation (if unat b = 0xF0 then 0x90 else 0x80) (if unat b = 0xF4 then 0x8F else 0xBF) c"
      by (auto simp del: utf8_points.simps(2) simp: utf8_points.simps(2) [of b] split: if_splits)
    then have "0x80 \<le> (unat b - 0xF0) * 0x40000 + (unat c - 0x80) * 0x1000"
      using 3 by (auto simp: continuation_def split: if_splits)
    ultimately show ?thesis
      using assms(1) 3 by (auto simp del: utf8_points.simps(2) simp: utf8_points.simps(2) [of b] split: if_splits)
  qed
qed

lemma utf8_points_ascii:
  "utf8_points bs = Some ps \<Longrightarrow> list_all (\<lambda>p. p < 0x80) ps \<Longrightarrow> bs = map of_nat ps"
proof (induction bs arbitrary: ps rule: utf8_points.induct)
  case (2 b bs)
  show ?case
  proof (cases "unat b < 0x80")
    case True
    with "2.prems" obtain qs where "ps = unat b # qs" "utf8_points bs = Some qs" by auto
    with "2.IH"(1) [OF True] "2.prems"(2) show ?thesis by simp
  next
    case False
    with "2.prems" show ?thesis using utf8_multibyte [of b bs ps] by auto
  qed
qed simp

lemma utf8_decode_ascii:
  assumes "utf8_decode bs = Some s" and "ascii_text s"
  shows "bs = utf8_encode s"
proof -
  obtain ps where ps: "utf8_points bs = Some ps" "s = concat (map units_of ps)"
    using assms(1) by (auto simp: utf8_decode_def)
  have unit: "p < 0x80 \<and> units_of p = [of_nat p]" if "ascii_text (units_of p)" for p
  proof (cases "p < 0x10000")
    case True
    with that show ?thesis by (simp add: units_of_def)
  next
    case False
    then have h: "units_of p = [of_nat (0xD800 + (p - 0x10000) div 0x400), of_nat (0xDC00 + (p - 0x10000) mod 0x400)]"
      by (simp add: units_of_def)
    have "(p - 0x10000) mod 0x400 < 0x400" by simp
    then have "unat (of_nat (0xDC00 + (p - 0x10000) mod 0x400) :: code_unit) = 0xDC00 + (p - 0x10000) mod 0x400"
      by (intro unat_of_nat_unit) linarith
    with that h show ?thesis by simp
  qed
  have "list_all (\<lambda>p. p < 0x80) ps \<and> s = map of_nat ps"
    using assms(2) ps(2)
  proof (induction ps arbitrary: s)
    case (Cons p ps)
    then show ?case using unit [of p] by simp
  qed simp
  moreover have "(of_nat p :: byte) = ucast (of_nat p :: code_unit)" if p: "p < 0x80" for p
  proof -
    have "(of_nat p :: byte) = of_nat (unat (of_nat p :: code_unit))" using p by (simp only: unat_of_nat_unit)
    then show ?thesis by simp
  qed
  ultimately show ?thesis
    using utf8_points_ascii [OF ps(1)] assms(2) by (simp add: ascii_utf8 list_all_iff)
qed

lemma ascii_lit_of_char: "unat (of_char c :: code_unit) < 0x80 \<longleftrightarrow> (of_char c :: nat) < 0x80"
  by (simp only: unat_of_char_16)

lemma in_range_ascii: "in_range lo hi c \<Longrightarrow> (of_char hi :: nat) < 0x80 \<Longrightarrow> unat c < 0x80"
  unfolding in_range_def word_le_nat_alt unat_of_char_16 by linarith

lemma did_ascii: "DID_PATTERN s \<Longrightarrow> ascii_text s"
proof -
  assume d: "DID_PATTERN s"
  have "ascii_text (lit ''did:plc:'')" by code_simp
  moreover have "ascii_text (drop 8 s)"
    using d in_range_ascii [of "CHR ''a''" "CHR ''z''"] in_range_ascii [of "CHR ''2''" "CHR ''7''"]
    by (auto simp: DID_PATTERN_def ascii_text_def is_lower_def list_all_iff)
  ultimately have "ascii_text (take 8 s @ drop 8 s)"
    unfolding ascii_text_simps using d by (simp add: DID_PATTERN_def)
  then show ?thesis by simp
qed

lemma key_id_ascii: "DID_PATTERN s \<Longrightarrow> ascii_text (key_id_of s role) \<and> length (key_id_of s role) \<le> 47"
proof -
  assume d: "DID_PATTERN s"
  have "ascii_text (lit ''#'')" by code_simp
  moreover have "ascii_text (lit (role_name role))" by (cases role; simp only: role_name.simps) code_simp+
  ultimately show ?thesis
    using did_ascii [OF d] d by (cases role) (auto simp: key_id_of_def DID_PATTERN_def lit_append)
qed


section \<open>The two structures as data items\<close>

definition header_item :: "string \<Rightarrow> bytes \<Rightarrow> cbor" where
  "header_item content kid = CMap [(CInt COSE_ALGORITHM_HEADER, CInt COSE_ED25519_ALGORITHM),
     (CInt COSE_CONTENT_TYPE_HEADER, CText (lit content)), (CInt COSE_KEY_ID_HEADER, CBytes kid)]"

definition sign1_item :: "bytes \<Rightarrow> bytes \<Rightarrow> bytes \<Rightarrow> cbor" where
  "sign1_item protectedBytes payloadBytes signature = CTag COSE_SIGN1_TAG
     (CArray [CBytes protectedBytes, CMap [], CBytes payloadBytes, CBytes signature])"

lemmas cose_constants = COSE_ALGORITHM_HEADER_def COSE_ED25519_ALGORITHM_def COSE_CONTENT_TYPE_HEADER_def
  COSE_KEY_ID_HEADER_def COSE_SIGN1_TAG_def

lemma header_keys: "head 0 (Suc 0) = [1]" "head 0 3 = [3]" "head 0 4 = [4]"
  by (simp_all add: head_def head_byte_def)

lemma of_cbor_header: "of_cbor (header_item content (utf8_encode k)) = protectedHeader content k"
  by (simp add: header_item_def protectedHeader_def)

lemma of_cbor_sign1: "of_cbor (sign1_item p b s) = coseSign1 p b s"
  by (simp add: sign1_item_def coseSign1_def)

lemma ordered_header: "ordered (header_item content kid)"
  by (simp add: header_item_def cose_constants header_keys)

lemma ordered_sign1: "ordered (sign1_item p b s)"
  by (simp add: sign1_item_def)

lemma order_maps_header: "order_maps (header_item content kid) = header_item content kid"
  by (simp add: header_item_def sort_entries_def cose_constants header_keys)

lemma order_maps_sign1: "order_maps (sign1_item p b s) = sign1_item p b s"
  by (simp add: sign1_item_def sort_entries_def)

lemma fits_header:
  assumes "length content \<le> 340" and "length kid \<le> 1024"
  shows "fits (coseLimits 1024) [] 0 (header_item content kid)"
proof -
  have "utf8_length (lit content) \<le> 1024" using utf8_length_le [of "lit content"] assms(1) by simp
  with assms(2) show ?thesis
    by (simp add: header_item_def coseLimits_def cose_constants HAIL_MIN_INTEGER_def HAIL_MAX_INTEGER_def
        MAX_SAFE_INTEGER_def)
qed

lemma length_sign1: "length p + length b + length s \<le> length (enc (sign1_item p b s))"
  by (simp add: sign1_item_def)

lemma fits_sign1:
  assumes "length (enc (sign1_item p b s)) \<le> m" and "m \<le> MAX_SAFE_INTEGER"
  shows "fits (coseLimits m) [COSE_SIGN1_TAG] 0 (sign1_item p b s)"
  using assms length_sign1 [of p b s]
  by (simp add: sign1_item_def coseLimits_def COSE_SIGN1_TAG_def MAX_SAFE_INTEGER_def)

lemma scan_fits:
  assumes "fits l tags 0 c" and "length (enc c) \<le> maximumBytes l" and "item_count c \<le> maximumItems l"
  shows "assertCborResourceLimits (enc c) l tags = Inr ()"
  using assms fits_cbor_item [OF assms(1)] by (auto simp: scan_decides)

lemma if_throw_Inr: "(if b then Inl e else m) = Inr r \<longleftrightarrow> \<not> b \<and> m = Inr r"
  by simp

lemma case_bytes_Inr:
  "(case x of JUint8Array bs \<Rightarrow> f bs | _ \<Rightarrow> Inl e) = Inr r \<longleftrightarrow> (\<exists>bs. x = JUint8Array bs \<and> f bs = Inr r)"
  by (cases x) auto

section \<open>Facts of the signing profiles\<close>

lemma signed_profile:
  assumes "t \<in> set signed_types"
  obtains p where "SIGNED_PROFILES t = Some p" "length (contentType p) \<le> 60"
    "maximumRepresentationBytes p \<le> 262144"
proof -
  have "\<exists>p. SIGNED_PROFILES t = Some p \<and> length (contentType p) \<le> 60 \<and> maximumRepresentationBytes p \<le> 262144"
    by (insert assms, cases t rule: HailPayloadType.exhaust) (simp_all add: signed_types_def)
  with that show thesis by blast
qed

lemma expectedKeyId_Inr: "expectedKeyId t h = Inr k \<longleftrightarrow> (\<exists>kvs s. h = HMap kvs
    \<and> get h (signerField (the (SIGNED_PROFILES t))) = Some (HText s) \<and> DID_PATTERN s
    \<and> k = key_id_of s (keyRole (the (SIGNED_PROFILES t))))"
  by (auto simp: expectedKeyId_def Let_def)

lemma expectedKeyId_sort: "expectedKeyId t (sort_members h) = Inr k \<longleftrightarrow> expectedKeyId t h = Inr k"
proof -
  have "(\<exists>kvs. sort_members h = HMap kvs) \<longleftrightarrow> (\<exists>kvs. h = HMap kvs)" by (cases h) auto
  then show ?thesis by (simp add: expectedKeyId_Inr get_sort sorted_scalar)
qed

text \<open>
  The validators fix the \<open>key_id\<close> member to the signer's key of the right role, so the second
  test of \<open>parseCose\<close> on it never fails.
\<close>

lemma exactKeys_absent:
  assumes "exactKeys (Some h) req opt p = Inr u" "k \<notin> set (req @ opt)"
  shows "get h k = None"
  using assms by (cases h) (auto simp: get_def map_of_eq_None_iff)

lemma key_id_absent:
  "validateConversation h = Inr u \<Longrightarrow> get h ''key_id'' = None"
  "validateConversationRevival h = Inr u \<Longrightarrow> get h ''key_id'' = None"
  "validateEnvelope env h = Inr u \<Longrightarrow> get h ''key_id'' = None"
  "validateDeliveryStatus h = Inr u \<Longrightarrow> get h ''key_id'' = None"
  by (auto simp: validateConversation_def validateConversationRevival_def validateEnvelope_def
      validateDeliveryStatus_def Let_def envelope_keys_def envelope_optional_def simp del: exactKeys_Inr
      elim!: exactKeys_absent split: if_splits)

lemma check_keyId_text: "check_keyId v signer role p = Inr u \<longleftrightarrow> v = Some (HText (key_id_of signer role))"
  by (cases v) (auto simp: check_keyId_def)

lemma key_id_fixed:
  "validateAddressBinding env h = Inr u \<Longrightarrow> get h ''key_id'' = Some (HText (key_id_of (text_of (get h ''did'')) HailIdentity))"
  "validateSenderProfile env h = Inr u \<Longrightarrow> get h ''key_id'' = Some (HText (key_id_of (text_of (get h ''did'')) HailMessaging))"
  "validateGrant env h = Inr u \<Longrightarrow> get h ''key_id'' = Some (HText (key_id_of (text_of (get h ''grantor'')) HailIdentity))"
  "validateConnectionInvitation h = Inr u \<Longrightarrow> get h ''key_id'' = Some (HText (key_id_of (text_of (get h ''from'')) HailIdentity))"
  "validateConnectionConfirmation h = Inr u \<Longrightarrow> get h ''key_id'' = Some (HText (key_id_of (text_of (get h ''from'')) HailIdentity))"
  "validateConnectionGrant env h = Inr u \<Longrightarrow> get h ''key_id'' = Some (HText (key_id_of (text_of (get h ''grantor'')) HailIdentity))"
  "validateConnectionControl h = Inr u \<Longrightarrow> get h ''key_id'' = Some (HText (key_id_of (text_of (get h ''from'')) HailMessaging))"
  by (simp_all add: validateAddressBinding_def validateSenderProfile_def validateGrant_def
      validateConnectionInvitation_def validateConnectionConfirmation_def validateConnectionGrant_def
      validateConnectionControl_def Let_def check_keyId_text)

lemma key_id_expected:
  assumes "t \<in> set signed_types" "validate_by_type env t h = Inr ()" "expectedKeyId t h = Inr k"
  shows "get h ''key_id'' = None \<or> get h ''key_id'' = Some (HText k)"
  using key_id_absent(1,2,4) [of h "()"] key_id_absent(3) [of env h "()"] key_id_fixed(1,2,3,6) [of env h "()"]
    key_id_fixed(4,5,7) [of h "()"]
  by (insert assms, cases t rule: HailPayloadType.exhaust)
    (auto simp: validate_by_type_def signed_types_def expectedKeyId_Inr)


section \<open>Round trips\<close>

lemma within_payloadLimits: "within (payloadLimits m) d h \<longleftrightarrow> within DEFAULT_HAIL_RESOURCE_LIMITS d h"
  by (induction h arbitrary: d)
    (auto simp: payloadLimits_def DEFAULT_HAIL_RESOURCE_LIMITS_def case_prod_unfold)

lemma payloadLimits_simps [simp]: "maximumBytes (payloadLimits m) = m" "maximumItems (payloadLimits m) = 16384"
  by (simp_all add: payloadLimits_def)

lemma default_limits: "maximumBytes DEFAULT_HAIL_RESOURCE_LIMITS = 1048576" "maximumItems DEFAULT_HAIL_RESOURCE_LIMITS = 16384"
  by (simp_all add: DEFAULT_HAIL_RESOURCE_LIMITS_def)

lemma coseLimits_simps [simp]: "maximumBytes (coseLimits m) = m" "maximumItems (coseLimits m) = 256"
  by (simp_all add: coseLimits_def)

lemma header_permutation:
  assumes "length entries = 3" and "map_get entries COSE_ALGORITHM_HEADER = Some a"
    and "map_get entries COSE_CONTENT_TYPE_HEADER = Some c" and "map_get entries COSE_KEY_ID_HEADER = Some k"
  shows "mset entries = mset [(JNumber (Integral COSE_ALGORITHM_HEADER), a),
     (JNumber (Integral COSE_CONTENT_TYPE_HEADER), c), (JNumber (Integral COSE_KEY_ID_HEADER), k)]"
    (is "_ = mset ?three")
proof -
  have sub: "set ?three \<subseteq> set entries"
    using assms(2-4) by (auto simp: map_get_def dest: map_of_SomeD)
  moreover have d: "distinct ?three" by (simp add: cose_constants)
  ultimately have c: "3 \<le> card (set entries)" using card_mono [OF _ sub] by (simp add: distinct_card)
  then have "card (set entries) = length entries" using assms(1) card_length [of entries] by simp
  then have "distinct entries" by (rule card_distinct)
  moreover have "set ?three = set entries"
    using sub d assms(1) card_length [of entries] by (intro card_seteq) (simp_all add: distinct_card del: set_simps)
  ultimately show ?thesis using d by (metis set_eq_iff_mset_eq_distinct)
qed

context cbor_library begin

lemma encode_header:
  "isWellFormed (lit content) \<Longrightarrow> encodeCbor lib (protectedHeader content k) = enc (header_item content (utf8_encode k))"
  using encode_rfc8949 [of "protectedHeader content k"]
  by (simp add: protectedHeader_def rfc8949_def unsafe_number_def cose_constants HAIL_MIN_INTEGER_def HAIL_MAX_INTEGER_def
      header_item_def sort_entries_def header_keys)

lemma encode_sign1: "encodeCbor lib (coseSign1 p b s) = enc (sign1_item p b s)"
  using encode_rfc8949 [of "coseSign1 p b s"]
  by (simp add: coseSign1_def rfc8949_def sign1_item_def sort_entries_def)

lemma parse_sign1:
  assumes "length (enc (sign1_item p b s)) \<le> m" and "m \<le> MAX_SAFE_INTEGER" and "length s = 64"
  shows "parse_elements lib m (enc (sign1_item p b s)) = Inr (p, b, s)"
proof -
  have "assertCborResourceLimits (enc (sign1_item p b s)) (coseLimits m) [COSE_SIGN1_TAG] = Inr ()"
    using assms by (intro scan_fits fits_sign1) (simp_all add: sign1_item_def)
  moreover have "decodeCbor lib [COSE_SIGN1_TAG] (enc (sign1_item p b s)) = Some (coseSign1 p b s)"
    using decode_rfc8949 [OF fits_sign1 [OF assms(1,2)] ordered_sign1] by (simp add: of_cbor_sign1)
  moreover have "encodeCbor lib (coseSign1 p b s) = enc (sign1_item p b s)" by (rule encode_sign1)
  ultimately show ?thesis
    using assms by (simp add: parse_elements_def coseSign1_def split: sum.splits)
qed

lemma parse_elements_strict:
  assumes "parse_elements lib m rep = Inr (p, b, s)"
  shows "rep = enc (sign1_item p b s) \<and> length rep \<le> m \<and> length s = 64"
proof -
  obtain x s1 s2 s3 s4 where dec: "decodeCbor lib [COSE_SIGN1_TAG] rep = Some (JTagged COSE_SIGN1_TAG (JArray x [s1, s2, s3, s4]))"
    and enc: "encodeCbor lib (JTagged COSE_SIGN1_TAG (JArray x [s1, s2, s3, s4])) = rep"
    and slots: "slot_value s1 = JUint8Array p" "slot_value s2 = JMap []" "slot_value s3 = JUint8Array b"
      "slot_value s4 = JUint8Array s"
    and len: "length rep \<le> m" "length s = 64"
    using assms by (auto simp: parse_elements_def split: if_splits option.splits jsvalue.splits list.splits)
  have "\<not> x" "\<forall>s \<in> set [s1, s2, s3, s4]. slot_decoded s" using decode_decoded [OF dec] by simp_all
  then have "JTagged COSE_SIGN1_TAG (JArray x [s1, s2, s3, s4]) = coseSign1 p b s"
    using slots by (cases s1; cases s2; cases s3; cases s4) (simp_all add: coseSign1_def)
  with enc len show ?thesis by (simp add: encode_sign1)
qed

lemma parse_header_ok:
  assumes "ascii_text k" and "length k \<le> 47" and "length content \<le> 60"
  shows "parse_header lib content (enc (header_item content (utf8_encode k))) = Inr k"
proof -
  let ?h = "header_item content (utf8_encode k)"
  have k: "length (utf8_encode k) = length k" using assms(1) by (simp add: ascii_utf8)
  have f: "fits (coseLimits 1024) [] 0 ?h" using assms k by (intro fits_header) simp_all
  have "utf8_length (lit content) \<le> 180" using utf8_length_le [of "lit content"] assms(3) by simp
  then have "length (enc ?h) \<le> 1024"
    using k assms(2) argumentSize_le [of "utf8_length (lit content)"] argumentSize_le [of "length k"]
    by (simp add: header_item_def cose_constants head_def length_head argumentSize_def flip: utf8_length_def)
  then have "assertCborResourceLimits (enc ?h) (coseLimits 1024) [] = Inr ()"
    using f by (intro scan_fits) (simp_all add: header_item_def)
  moreover have "decodeCbor lib [] (enc ?h) = Some (protectedHeader content k)"
    using decode_rfc8949 [OF f ordered_header] by (simp add: of_cbor_header)
  moreover have "utf8_decode (utf8_encode k) = Some k"
    using assms(1) by (intro utf8_decode_encode ascii_well_formed)
  ultimately show ?thesis
    using encode_header [of content k]
    by (simp add: parse_header_def protectedHeader_def map_get_def cose_constants)
qed

lemma encode_header_permutation:
  assumes "mset entries = mset [(JNumber (Integral COSE_ALGORITHM_HEADER), JNumber (Integral COSE_ED25519_ALGORITHM)),
     (JNumber (Integral COSE_CONTENT_TYPE_HEADER), JText (lit content)), (JNumber (Integral COSE_KEY_ID_HEADER), JUint8Array kid)]"
      (is "_ = mset ?three")
  shows "encodeCbor lib (JMap entries) = enc (header_item content kid)"
proof -
  let ?item = "\<lambda>(k, v). (order_maps (to_cbor k), order_maps (to_cbor v))"
  have "set entries = set ?three" using assms by (rule mset_eq_setD)
  moreover have "distinct (map fst entries)"
    using distinct_mset_cong [OF assms, of fst] by (simp add: cose_constants)
  ultimately have "encodable (JMap entries)"
    by (simp add: cose_constants HAIL_MIN_INTEGER_def HAIL_MAX_INTEGER_def)
  moreover have "sort_entries (map ?item entries) = sort_entries (map ?item ?three)"
    unfolding sort_entries_def
  proof (rule sort_key_perm)
    show "mset (map ?item entries) = mset (map ?item ?three)" by (simp only: mset_map assms)
    show "inj_on (\<lambda>kv. enc (fst kv)) (set (map ?item ?three))"
      by (auto simp: inj_on_def cose_constants header_keys)
  qed
  moreover have "sort_entries (map ?item ?three) = (case header_item content kid of CMap kvs \<Rightarrow> kvs)"
    by (simp add: sort_entries_def cose_constants header_keys header_item_def)
  ultimately show ?thesis
    using encode_rfc8949 [of "JMap entries"]
    by (simp add: rfc8949_def o_def case_prod_unfold header_item_def)
qed

lemma parse_header_strict:
  assumes "parse_header lib content bs = Inr k" and "ascii_text k"
  shows "bs = enc (header_item content (utf8_encode k))"
proof -
  obtain entries kid where "encodeCbor lib (JMap entries) = bs" and l: "length entries = 3"
    and g: "map_get entries COSE_ALGORITHM_HEADER = Some (JNumber (Integral COSE_ED25519_ALGORITHM))"
      "map_get entries COSE_CONTENT_TYPE_HEADER = Some (JText (lit content))"
      "map_get entries COSE_KEY_ID_HEADER = Some (JUint8Array kid)" and kid: "utf8_decode kid = Some k"
    using assms(1) by (auto simp: parse_header_def split: if_splits option.splits jsvalue.splits)
  then show ?thesis
    using encode_header_permutation [OF header_permutation [OF l g]] utf8_decode_ascii [OF kid assms(2)] by simp
qed

lemma encodePayload_iff:
  assumes "unique_keys h"
  shows "encodePayload lib env t (of_hail h) DEFAULT_HAIL_RESOURCE_LIMITS = Inr bs \<longleftrightarrow>
    validatePayload env t (of_hail h) = Inr () \<and> bs = enc (hail_cbor (sort_members h))"
proof -
  have "of_hail h = of_hail g \<Longrightarrow> g = h" for g by (metis to_hail_of_hail)
  then have "assertHailValue DEFAULT_HAIL_RESOURCE_LIMITS (of_hail h) = Inr () \<Longrightarrow>
      encodeDeterministic lib DEFAULT_HAIL_RESOURCE_LIMITS (of_hail h) = Inr (enc (hail_cbor (sort_members h)))"
    using assms by (auto simp: encodeDeterministic_iff assertHailValue_all)
  moreover have "validatePayload env t (of_hail h) = Inr () \<Longrightarrow>
      assertHailValue DEFAULT_HAIL_RESOURCE_LIMITS (of_hail h) = Inr ()" by (simp add: validatePayload_def)
  ultimately show ?thesis by (auto simp: encodePayload_def)
qed

lemma decode_payload:
  assumes "t \<in> set signed_types" "unique_keys h" "validatePayload env t (of_hail h) = Inr ()"
    and "encodedSize h \<le> m" "m \<le> MAX_SAFE_INTEGER"
  shows "decodeDeterministic lib (payloadLimits m) (enc (hail_cbor (sort_members h))) = Inr (canonical h)"
    and "same_value h (canonical h)" and "validatePayload env t (of_hail (canonical h)) = Inr ()"
    and "expectedKeyId t (canonical h) = Inr k \<longleftrightarrow> expectedKeyId t h = Inr k"
proof -
  have a: "assertHailValue DEFAULT_HAIL_RESOURCE_LIMITS (of_hail h) = Inr ()"
    using assms(3) by (simp add: validatePayload_def)
  have "of_hail h = of_hail g \<Longrightarrow> g = h" for g by (metis to_hail_of_hail)
  with a have w: "within DEFAULT_HAIL_RESOURCE_LIMITS 0 h" "items h \<le> 16384"
    by (auto simp: assertHailValue_all default_limits)
  then have "encodeDeterministic lib (payloadLimits m) (of_hail h) = Inr (enc (hail_cbor (sort_members h)))"
    using assms(2,4) by (simp add: encodeDeterministic_iff within_payloadLimits)
  then show "decodeDeterministic lib (payloadLimits m) (enc (hail_cbor (sort_members h))) = Inr (canonical h)"
      and sv: "same_value h (canonical h)"
    using decode_of_encode [OF assms(2), of "payloadLimits m"] assms(5) by simp_all
  then have so: "sort_members (canonical h) = sort_members h" by (simp add: same_value_def)
  show "validatePayload env t (of_hail (canonical h)) = Inr ()"
    using validatePayload_sort [OF assms(1), of env "canonical h"] validatePayload_sort [OF assms(1), of env h] assms(3) so
    by simp
  show "expectedKeyId t (canonical h) = Inr k \<longleftrightarrow> expectedKeyId t h = Inr k"
    using expectedKeyId_sort [of t "canonical h" k] expectedKeyId_sort [of t h k] so by simp
qed

text \<open>What \<open>signPayload\<close> returns, and that \<open>parseCose\<close> takes it apart again.\<close>

lemma signPayload_iff:
  assumes "t \<in> set signed_types" "unique_keys h" "SIGNED_PROFILES t = Some p"
  shows "signPayload lib env t (of_hail h) signer = Inr rep \<longleftrightarrow>
    (\<exists>signature.
      let protectedBytes = enc (header_item (contentType p) (utf8_encode (signer_keyId signer)));
          payloadBytes = enc (hail_cbor (sort_members h)) in
      validatePayload env t (of_hail h) = Inr () \<and> expectedKeyId t h = Inr (signer_keyId signer)
      \<and> sign signer (signatureStructure lib protectedBytes payloadBytes) = Inr (JUint8Array signature)
      \<and> length signature = 64 \<and> rep = enc (sign1_item protectedBytes payloadBytes signature)
      \<and> length rep \<le> maximumRepresentationBytes p)"
  using encode_header [of "contentType p" "signer_keyId signer"]
  by (auto simp: signPayload_def Let_def assms(3) encodePayload_iff [OF assms(2)] encode_sign1
      case_bytes_Inr if_throw_Inr simp del: if_split)

lemma parse_signed:
  assumes "t \<in> set signed_types" "unique_keys h" "SIGNED_PROFILES t = Some p"
    and "validatePayload env t (of_hail h) = Inr ()" "expectedKeyId t h = Inr k" "length signature = 64"
    and "protectedBytes = enc (header_item (contentType p) (utf8_encode k))"
    and "payloadBytes = enc (hail_cbor (sort_members h))"
    and "rep = enc (sign1_item protectedBytes payloadBytes signature)" "length rep \<le> maximumRepresentationBytes p"
  shows "parseCose lib env t rep = Inr \<lparr>parsed_keyId = k, parsed_payload = canonical h,
    parsed_payloadBytes = payloadBytes, parsed_protectedBytes = protectedBytes, parsed_representationBytes = rep,
    parsed_signature = signature\<rparr>"
proof -
  have p: "length (contentType p) \<le> 60" "maximumRepresentationBytes p \<le> MAX_SAFE_INTEGER"
  proof -
    obtain q where "SIGNED_PROFILES t = Some q" "length (contentType q) \<le> 60" "maximumRepresentationBytes q \<le> 262144"
      by (rule signed_profile [OF assms(1)])
    with assms(3) show "length (contentType p) \<le> 60" "maximumRepresentationBytes p \<le> MAX_SAFE_INTEGER"
      by (simp_all add: MAX_SAFE_INTEGER_def)
  qed
  obtain s where k: "DID_PATTERN s" "k = key_id_of s (keyRole p)"
    using assms(3,5) by (auto simp: expectedKeyId_Inr)
  have size: "encodedSize h \<le> maximumRepresentationBytes p"
    using assms(8-10) length_sign1 [of protectedBytes payloadBytes signature] by (simp add: length_enc_hail)
  note d = decode_payload [OF assms(1,2,4) size p(2)]
  have e: "expectedKeyId t (canonical h) = Inr k" using d(4) assms(5) by simp
  have "validate_by_type env t (canonical h) = Inr ()" by (rule validatePayload_signed [OF d(3) assms(1)])
  then have "\<not> (get (canonical h) ''key_id'' \<noteq> None \<and> get (canonical h) ''key_id'' \<noteq> Some (HText k))"
    using key_id_expected [OF assms(1) _ e] by metis
  moreover have "parse_elements lib (maximumRepresentationBytes p) rep = Inr (protectedBytes, payloadBytes, signature)"
    unfolding assms(9) by (rule parse_sign1) (use assms p in auto)
  moreover have "parse_header lib (contentType p) protectedBytes = Inr k"
    unfolding assms(7) using key_id_ascii [OF k(1)] k(2) p(1) by (intro parse_header_ok) auto
  ultimately show ?thesis
    using d(1,3) e unfolding parseCose_def Let_def assms(3,8) option.sel
    by (simp only: and_then_simps prod.case not_True_eq_False if_False HOL.simp_thms)
qed

lemma parseCose_strict:
  assumes "t \<in> set signed_types" "SIGNED_PROFILES t = Some p" "parseCose lib env t rep = Inr c"
  shows "expectedKeyId t (parsed_payload c) = Inr (parsed_keyId c)" "unique_keys (parsed_payload c)"
    "validatePayload env t (of_hail (parsed_payload c)) = Inr ()" "length (parsed_signature c) = 64"
    "parsed_protectedBytes c = enc (header_item (contentType p) (utf8_encode (parsed_keyId c)))"
    "parsed_payloadBytes c = enc (hail_cbor (sort_members (parsed_payload c)))"
    "rep = enc (sign1_item (parsed_protectedBytes c) (parsed_payloadBytes c) (parsed_signature c))"
    "length rep \<le> maximumRepresentationBytes p" "parsed_representationBytes c = rep"
proof -
  let ?m = "maximumRepresentationBytes p"
  have e: "parse_elements lib ?m rep = Inr (parsed_protectedBytes c, parsed_payloadBytes c, parsed_signature c)"
    and h: "parse_header lib (contentType p) (parsed_protectedBytes c) = Inr (parsed_keyId c)"
    and d: "decodeDeterministic lib (payloadLimits ?m) (parsed_payloadBytes c) = Inr (parsed_payload c)"
    and v: "validatePayload env t (of_hail (parsed_payload c)) = Inr ()"
    and k: "expectedKeyId t (parsed_payload c) = Inr (parsed_keyId c)"
    and r: "parsed_representationBytes c = rep"
    using assms(3) by (auto simp: parseCose_def Let_def assms(2) if_throw_Inr simp del: if_split)
  from d have enc: "encodeDeterministic lib (payloadLimits ?m) (of_hail (parsed_payload c)) = Inr (parsed_payloadBytes c)"
    and u: "unique_keys (parsed_payload c)" using encode_of_decode by blast+
  from k have "ascii_text (parsed_keyId c)" using key_id_ascii by (auto simp: expectedKeyId_Inr)
  with h show "parsed_protectedBytes c = enc (header_item (contentType p) (utf8_encode (parsed_keyId c)))"
    by (rule parse_header_strict)
  from parse_elements_strict [OF e]
  show "length (parsed_signature c) = 64" "length rep \<le> ?m"
    "rep = enc (sign1_item (parsed_protectedBytes c) (parsed_payloadBytes c) (parsed_signature c))" by blast+
  show "parsed_payloadBytes c = enc (hail_cbor (sort_members (parsed_payload c)))"
    using enc u by (simp add: encodeDeterministic_iff)
  show "expectedKeyId t (parsed_payload c) = Inr (parsed_keyId c)" "unique_keys (parsed_payload c)"
    "validatePayload env t (of_hail (parsed_payload c)) = Inr ()" "parsed_representationBytes c = rep"
    by (rule k u v r)+
qed

lemma verify_sign:
  assumes "t \<in> set signed_types" "verifySignedPayload lib env t rep verifier = Inr object"
  shows "\<exists>signature. verify verifier (signatureStructure lib
        (encodeCbor lib (protectedHeader (contentType (the (SIGNED_PROFILES t))) (object_keyId object)))
        (object_payloadBytes object)) signature (object_keyId object) = Inr True
    \<and> signPayload lib env t (of_hail (object_payload object))
        \<lparr>signer_keyId = object_keyId object, sign = \<lambda>_. Inr (JUint8Array signature)\<rparr> = Inr rep
    \<and> object_type object = t \<and> object_representationBytes object = rep \<and> unique_keys (object_payload object)
    \<and> encodePayload lib env t (of_hail (object_payload object)) DEFAULT_HAIL_RESOURCE_LIMITS = Inr (object_payloadBytes object)"
proof -
  obtain p where p: "SIGNED_PROFILES t = Some p" by (rule signed_profile [OF assms(1)])
  obtain c where c: "parseCose lib env t rep = Inr c" "object = inspectedResult t c"
    and v: "verify verifier (signatureStructure lib (parsed_protectedBytes c) (parsed_payloadBytes c))
      (parsed_signature c) (parsed_keyId c) = Inr True"
    using assms(2) by (auto simp: verifySignedPayload_def if_throw_Inr simp del: if_split)
  note s = parseCose_strict [OF assms(1) p c(1)]
  have o: "object_payload object = parsed_payload c" "object_keyId object = parsed_keyId c" "object_type object = t"
    "object_payloadBytes object = parsed_payloadBytes c" "object_representationBytes object = rep"
    using c(2) s(9) by (simp_all add: inspectedResult_def)
  let ?signer = "\<lparr>signer_keyId = parsed_keyId c, sign = \<lambda>_. Inr (JUint8Array (parsed_signature c))\<rparr>"
  have "signPayload lib env t (of_hail (parsed_payload c)) ?signer = Inr rep"
    using s(1-8) by (subst signPayload_iff [OF assms(1) s(2) p]) (simp add: Let_def)
  moreover have "encodePayload lib env t (of_hail (parsed_payload c)) DEFAULT_HAIL_RESOURCE_LIMITS = Inr (parsed_payloadBytes c)"
    using s(3,6) by (simp add: encodePayload_iff [OF s(2)])
  moreover have "encodeCbor lib (protectedHeader (contentType (the (SIGNED_PROFILES t))) (parsed_keyId c)) = parsed_protectedBytes c"
    using s(5) by (simp add: p encode_header)
  ultimately show ?thesis
    using v s(2) unfolding o by metis
qed

text \<open>A representation that was signed inspects as what was signed, whatever the key.\<close>

lemma inspect_of_sign:
  assumes "t \<in> set signed_types" "unique_keys h" "signPayload lib env t (of_hail h) signer = Inr rep"
  shows "\<exists>object. inspectSignedPayload lib env t rep = Inr object \<and> same_value h (object_payload object)
    \<and> encodePayload lib env t (of_hail h) DEFAULT_HAIL_RESOURCE_LIMITS = Inr (object_payloadBytes object)
    \<and> validatePayload env t (of_hail (object_payload object)) = Inr () \<and> unique_keys (object_payload object)"
proof -
  obtain p where p: "SIGNED_PROFILES t = Some p" by (rule signed_profile [OF assms(1)])
  define prot pay where "prot = enc (header_item (contentType p) (utf8_encode (signer_keyId signer)))"
    and "pay = enc (hail_cbor (sort_members h))"
  obtain s where s: "validatePayload env t (of_hail h) = Inr ()" "expectedKeyId t h = Inr (signer_keyId signer)"
      "length s = 64" "rep = enc (sign1_item prot pay s)" "length rep \<le> maximumRepresentationBytes p"
    using assms(3) unfolding signPayload_iff [OF assms(1,2) p] Let_def prot_def [symmetric] pay_def [symmetric] by blast
  have w: "within DEFAULT_HAIL_RESOURCE_LIMITS 0 h" by (rule validatePayload_signed [OF s(1) assms(1)])
  note parse = parse_signed [OF assms(1,2) p s(1,2,3) prot_def pay_def s(4,5)]
  from parseCose_strict(2,3) [OF assms(1) p parse] parse same_value_canonical [OF w assms(2)] encodePayload_iff [OF assms(2), of env t pay] s(1)
  show ?thesis by (simp add: inspectSignedPayload_def inspectedResult_def pay_def)
qed

end

section \<open>Signers and verifiers that belong together\<close>

locale signature_scheme =
  fixes signer :: HailSigner and verifier :: HailVerifier
  assumes signed_bytes: "sign signer data = Inr x \<Longrightarrow> \<exists>s. x = JUint8Array s \<and> length s = 64"
    and accepts_signed: "sign signer data = Inr (JUint8Array s) \<Longrightarrow> verify verifier data s (signer_keyId signer) = Inr True"

locale signed_transport = cbor_library lib + signature_scheme signer verifier
  for lib :: cborg and signer :: HailSigner and verifier :: HailVerifier
begin

theorem verify_of_sign:
  assumes "t \<in> set signed_types" "unique_keys h" "signPayload lib env t (of_hail h) signer = Inr rep"
  shows "\<exists>object. verifySignedPayload lib env t rep verifier = Inr object
    \<and> object_type object = t \<and> object_keyId object = signer_keyId signer
    \<and> object_payload object = canonical h \<and> same_value h (object_payload object)
    \<and> encodePayload lib env t (of_hail h) DEFAULT_HAIL_RESOURCE_LIMITS = Inr (object_payloadBytes object)
    \<and> object_representationBytes object = rep"
proof -
  obtain p where p: "SIGNED_PROFILES t = Some p" by (rule signed_profile [OF assms(1)])
  define prot pay where "prot = enc (header_item (contentType p) (utf8_encode (signer_keyId signer)))"
    and "pay = enc (hail_cbor (sort_members h))"
  obtain s where s: "validatePayload env t (of_hail h) = Inr ()" "expectedKeyId t h = Inr (signer_keyId signer)"
      "sign signer (signatureStructure lib prot pay) = Inr (JUint8Array s)" "length s = 64"
      "rep = enc (sign1_item prot pay s)" "length rep \<le> maximumRepresentationBytes p"
    using assms(3) unfolding signPayload_iff [OF assms(1,2) p] Let_def prot_def [symmetric] pay_def [symmetric] by blast
  have w: "within DEFAULT_HAIL_RESOURCE_LIMITS 0 h" by (rule validatePayload_signed [OF s(1) assms(1)])
  show ?thesis
    using parse_signed [OF assms(1,2) p s(1,2,4) prot_def pay_def s(5,6)] accepts_signed [OF s(3)]
      same_value_canonical [OF w assms(2)] encodePayload_iff [OF assms(2), of env t pay] s(1)
    by (simp add: verifySignedPayload_def inspectedResult_def pay_def)
qed

end

section \<open>The Web Crypto adapters\<close>

text \<open>
  What the codec expects of Ed25519 keys: signatures have 64 bytes, and the public key accepts
  what the private key signs.
\<close>

locale web_crypto =
  fixes subtle :: SubtleCrypto and resolve :: "jstring \<Rightarrow> CryptoKey result"
    and keyId :: jstring and privateKey publicKey :: CryptoKey and signer :: HailSigner
  assumes created: "createWebCryptoSigner keyId privateKey subtle = Inr signer"
    and resolved: "resolve keyId = Inr publicKey"
    and verification_key: "requireEd25519Key publicKey ''verify'' = Inr ()"
    and signature_size: "subtle_sign subtle privateKey data = Inr s \<Longrightarrow> length s = 64"
    and key_pair: "subtle_sign subtle privateKey data = Inr s \<Longrightarrow> subtle_verify subtle publicKey s data = Inr True"
begin

lemma signer_fields: "signer_keyId signer = keyId"
    "sign signer data = and_then (subtle_sign subtle privateKey data) (\<lambda>s. Inr (JUint8Array s))"
  using created by (auto simp: createWebCryptoSigner_def)

end

sublocale web_crypto \<subseteq> adapter: signature_scheme signer "createWebCryptoVerifier resolve subtle"
proof
  show "\<exists>s. x = JUint8Array s \<and> length s = 64" if "sign signer data = Inr x" for data x
    using that signature_size by (auto simp: signer_fields)
  show "verify (createWebCryptoVerifier resolve subtle) data s (signer_keyId signer) = Inr True"
    if "sign signer data = Inr (JUint8Array s)" for data s
    using that key_pair resolved verification_key by (auto simp: signer_fields createWebCryptoVerifier_def)
qed

context web_crypto begin

lemma adapters_belong_together: "signature_scheme signer (createWebCryptoVerifier resolve subtle)"
  by (rule adapter.signature_scheme_axioms)

end

text \<open>A keyed function in the place of Ed25519, to evaluate the adapters.\<close>

definition keyed_tag :: "CryptoKey \<Rightarrow> bytes \<Rightarrow> bytes" where
  "keyed_tag key data = take 64 (key_material key @ data @ replicate 64 0)"

lemma length_keyed_tag [simp]: "length (keyed_tag key data) = 64"
  by (simp add: keyed_tag_def)

definition example_subtle :: SubtleCrypto where
  "example_subtle = \<lparr>subtle_sign = (\<lambda>key data. Inr (keyed_tag key data)),
     subtle_verify = (\<lambda>key s data. Inr (s = keyed_tag key data))\<rparr>"

definition example_key :: CryptoKey where
  "example_key = \<lparr>algorithm_name = ''Ed25519'', usages = [''sign'', ''verify''], key_material = [3, 1, 4]\<rparr>"

definition alice_key_id :: jstring where
  "alice_key_id = key_id_of alice HailIdentity"

definition alice_signer :: HailSigner where
  "alice_signer = \<lparr>signer_keyId = alice_key_id, sign = (\<lambda>data. Inr (JUint8Array (keyed_tag example_key data)))\<rparr>"

interpretation alice: web_crypto example_subtle "\<lambda>_. Inr example_key" alice_key_id example_key example_key alice_signer
  by unfold_locales
    (auto simp: example_subtle_def example_key_def alice_signer_def createWebCryptoSigner_def requireEd25519Key_def
      keyed_tag_def fun_eq_iff)

interpretation alice_transport: signed_transport reference_cborg alice_signer
    "createWebCryptoVerifier (\<lambda>_. Inr example_key) example_subtle"
  by unfold_locales

section \<open>Properties\<close>

text \<open>
  C10. Sign, then verify. A payload that \<open>signPayload\<close> signs with a Web Crypto key is accepted by
  \<open>verifySignedPayload\<close> with the resolved public key, which returns the signer's key identifier, the
  payload that was signed (up to the order of its members), its deterministic encoding and the
  representation itself. The CBOR library and the key pair enter through their documented
  behaviour.
\<close>

theorem sign_then_verify:
  assumes "cbor_library lib" and "web_crypto subtle resolve keyId privateKey publicKey signer"
    and "t \<in> set signed_types" and "unique_keys h" and "signPayload lib env t (of_hail h) signer = Inr rep"
  shows "\<exists>object. verifySignedPayload lib env t rep (createWebCryptoVerifier resolve subtle) = Inr object
    \<and> object_type object = t \<and> object_keyId object = keyId
    \<and> object_payload object = canonical h \<and> same_value h (object_payload object)
    \<and> encodePayload lib env t (of_hail h) DEFAULT_HAIL_RESOURCE_LIMITS = Inr (object_payloadBytes object)
    \<and> object_representationBytes object = rep"
proof -
  have "signed_transport lib signer (createWebCryptoVerifier resolve subtle)"
    using assms(1) web_crypto.adapters_belong_together [OF assms(2)] by (rule signed_transport.intro)
  from signed_transport.verify_of_sign [OF this assms(3-5)] show ?thesis
    by (simp add: web_crypto.signer_fields(1) [OF assms(2)])
qed

lemma length_header_le: "length (enc (header_item content kid)) \<le> 40 + 3 * length content + length kid"
  using argumentSize_le [of 18] utf8_length_le [of "lit content"] argumentSize_le [of "utf8_length (lit content)"] argumentSize_le [of "length kid"]
  by (simp add: header_item_def cose_constants header_keys length_head head_def [of 1] head_def [of 5] flip: utf8_length_def)

lemma length_sign1_le: "length (enc (sign1_item p b s)) \<le> 30 + length p + length b + length s"
  using argumentSize_le [of "length p"] argumentSize_le [of "length b"] argumentSize_le [of "length s"]
  by (simp add: sign1_item_def COSE_SIGN1_TAG_def length_head head_def [of 6] head_def [of 4] head_def [of 5])

lemma alice_key_id: "expectedKeyId Grant (grant_object example_grant) = Inr alice_key_id"
  "ascii_text alice_key_id" "length alice_key_id \<le> 47"
proof -
  have "\<exists>kvs. grant_object example_grant = HMap kvs" using grant_object_map by blast
  then show "expectedKeyId Grant (grant_object example_grant) = Inr alice_key_id"
    by (simp add: expectedKeyId_Inr get_grant_object example_ids alice_key_id_def) (simp add: example_grant_def example_ids)
  show "ascii_text alice_key_id" "length alice_key_id \<le> 47"
    using key_id_ascii [OF example_ids(1)] by (simp_all add: alice_key_id_def)
qed

lemma sign_example_grant:
  "\<exists>rep. signPayload reference_cborg example_env Grant (of_hail (grant_object example_grant)) alice_signer = Inr rep"
proof -
  let ?c = "''application/hail-grant+cbor''"
  let ?pay = "enc (hail_cbor (sort_members (grant_object example_grant)))"
  let ?prot = "enc (header_item ?c (utf8_encode alice_key_id))"
  let ?s = "keyed_tag example_key (signatureStructure reference_cborg ?prot ?pay)"
  have "length ?pay \<le> 4096"
    using encodedSize_le_bulk [of "grant_object example_grant"] plain_example_grant(1) by (simp add: length_enc_hail)
  moreover have "length ?prot \<le> 40 + 3 * 27 + 47"
    using length_header_le [of ?c "utf8_encode alice_key_id"] alice_key_id(2,3) by (simp add: ascii_utf8)
  moreover have "length ?s = 64" by simp
  ultimately have "length (enc (sign1_item ?prot ?pay ?s)) \<le> 262144"
    using length_sign1_le [of ?prot ?pay ?s] by linarith
  then have "signPayload reference_cborg example_env Grant (of_hail (grant_object example_grant)) alice_signer
      = Inr (enc (sign1_item ?prot ?pay ?s))"
    using validate_example_grant alice_key_id(1)
    by (subst reference.signPayload_iff [OF _ unique_grant_object SIGNED_PROFILES.simps(3)])
      (simp_all add: signed_types_def alice_signer_def Let_def)
  then show ?thesis by blast
qed

theorem sign_then_verify_witness:
  "\<exists>rep object. verifySignedPayload reference_cborg example_env Grant rep
      (createWebCryptoVerifier (\<lambda>_. Inr example_key) example_subtle) = Inr object
    \<and> object_keyId object = alice_key_id \<and> same_value (grant_object example_grant) (object_payload object)"
proof -
  have "Grant \<in> set signed_types" by (simp add: signed_types_def)
  moreover obtain rep where "signPayload reference_cborg example_env Grant (of_hail (grant_object example_grant)) alice_signer = Inr rep"
    using sign_example_grant by blast
  ultimately show ?thesis
    using sign_then_verify [OF reference.cbor_library_axioms alice.web_crypto_axioms _ unique_grant_object] by blast
qed

text \<open>
  C11. Verification is strict. If \<open>verifySignedPayload\<close> returns an object, then the verifier accepted
  a signature over the \<open>Signature1\<close> structure of exactly that protected header (the Ed25519
  algorithm, the content type of the payload type, the returned key identifier) and exactly the
  returned payload bytes, and the representation is byte for byte what \<open>signPayload\<close> produces from
  the returned payload, key identifier and that signature. No part of an accepted representation
  is outside the signature except the signature itself.
\<close>

theorem verified_is_signed:
  assumes "cbor_library lib" and "t \<in> set signed_types" and "verifySignedPayload lib env t rep verifier = Inr object"
  shows "\<exists>signature. verify verifier (signatureStructure lib
        (encodeCbor lib (protectedHeader (contentType (the (SIGNED_PROFILES t))) (object_keyId object)))
        (object_payloadBytes object)) signature (object_keyId object) = Inr True
    \<and> signPayload lib env t (of_hail (object_payload object))
        \<lparr>signer_keyId = object_keyId object, sign = \<lambda>_. Inr (JUint8Array signature)\<rparr> = Inr rep
    \<and> object_type object = t \<and> object_representationBytes object = rep \<and> unique_keys (object_payload object)
    \<and> encodePayload lib env t (of_hail (object_payload object)) DEFAULT_HAIL_RESOURCE_LIMITS = Inr (object_payloadBytes object)"
  using assms by (rule cbor_library.verify_sign)

lemma verify_example_grant:
  "\<exists>rep object. verifySignedPayload reference_cborg example_env Grant rep
      (createWebCryptoVerifier (\<lambda>_. Inr example_key) example_subtle) = Inr object"
proof -
  have "Grant \<in> set signed_types" by (simp add: signed_types_def)
  with alice_transport.verify_of_sign [OF _ unique_grant_object] sign_example_grant show ?thesis by blast
qed

theorem verified_is_signed_witness:
  "\<exists>rep object signer. verifySignedPayload reference_cborg example_env Grant rep
      (createWebCryptoVerifier (\<lambda>_. Inr example_key) example_subtle) = Inr object
    \<and> signPayload reference_cborg example_env Grant (of_hail (object_payload object)) signer = Inr rep"
proof -
  have "Grant \<in> set signed_types" by (simp add: signed_types_def)
  moreover obtain rep object where "verifySignedPayload reference_cborg example_env Grant rep
      (createWebCryptoVerifier (\<lambda>_. Inr example_key) example_subtle) = Inr object"
    using verify_example_grant by blast
  ultimately show ?thesis using verified_is_signed [OF reference.cbor_library_axioms] by blast
qed

lemma parse_elements_unique:
  "parse_elements lib m rep = Inr x \<Longrightarrow> parse_elements lib m' rep = Inr y \<Longrightarrow> x = y"
  by (auto simp: parse_elements_def split: if_splits option.splits jsvalue.splits list.splits)

lemma parse_header_content: "parse_header lib c h = Inr k \<Longrightarrow> parse_header lib c' h = Inr k' \<Longrightarrow> c = c'"
  by (auto simp: parse_header_def split: if_splits option.splits jsvalue.splits)

lemma inspect_parts:
  assumes "inspectSignedPayload lib env t rep = Inr object" and "SIGNED_PROFILES t = Some p"
  obtains h b s k where "parse_elements lib (maximumRepresentationBytes p) rep = Inr (h, b, s)"
    "parse_header lib (contentType p) h = Inr k"
  using assms by (auto simp: inspectSignedPayload_def parseCose_def Let_def if_throw_Inr simp del: if_split)

text \<open>The protected header names one content type, so a representation inspects as one type.\<close>

lemma inspected_content:
  assumes "inspectSignedPayload lib env t rep = Inr object" and "SIGNED_PROFILES t = Some p"
    and "inspectSignedPayload lib env' t' rep = Inr object'" and "SIGNED_PROFILES t' = Some p'"
  shows "contentType p = contentType p'"
proof -
  obtain h b s k where e: "parse_elements lib (maximumRepresentationBytes p) rep = Inr (h, b, s)"
    and k: "parse_header lib (contentType p) h = Inr k" by (rule inspect_parts [OF assms(1,2)])
  obtain h' b' s' k' where e': "parse_elements lib (maximumRepresentationBytes p') rep = Inr (h', b', s')"
    and k': "parse_header lib (contentType p') h' = Inr k'" by (rule inspect_parts [OF assms(3,4)])
  have "h' = h" using parse_elements_unique [OF e e'] by simp
  with k k' show ?thesis by (auto intro: parse_header_content)
qed

text \<open>
  Signatures are not interchangeable between payload types: a representation that inspects as
  one payload type inspects as no other, with whatever CBOR library.
\<close>

theorem signed_type_unique:
  assumes "t \<in> set signed_types" and "t' \<in> set signed_types"
    and "inspectSignedPayload lib env t rep = Inr object" and "inspectSignedPayload lib env t' rep = Inr object'"
  shows "t = t'"
proof -
  obtain p where p: "SIGNED_PROFILES t = Some p" by (rule signed_profile [OF assms(1)])
  obtain p' where p': "SIGNED_PROFILES t' = Some p'" by (rule signed_profile [OF assms(2)])
  from inspected_content [OF assms(3) p assms(4) p'] show ?thesis by (rule contentType_inj [OF p p'])
qed

theorem signed_type_unique_witness:
  "\<exists>rep. succeeds (inspectSignedPayload reference_cborg example_env Grant rep)
    \<and> \<not> succeeds (inspectSignedPayload reference_cborg example_env Envelope rep)"
proof -
  obtain rep object where "inspectSignedPayload reference_cborg example_env Grant rep = Inr object"
    using verify_example_grant by (auto simp: verifySignedPayload_def inspectSignedPayload_def)
  moreover have "Grant \<in> set signed_types" "Envelope \<in> set signed_types" by (simp_all add: signed_types_def)
  ultimately show ?thesis using signed_type_unique by (metis succeeds_iff HailPayloadType.distinct)
qed

end
