(* ===== verification/ServerBase.thy ===== *)
theory ServerBase
  imports CoseProperties EnvelopeModel "HOL-Library.AList" "HOL-Library.Product_Lexorder" "HOL-Library.Option_ord"
begin

text \<open>
  What the components of \<^verbatim>\<open>apps/server/src\<close> share: errors, the codec they call, and database
  tables. A table is an association list from its primary key to its row; \<open>AList.update\<close> inserts or
  replaces a row. A transaction maps a database to a result and the next database; if it throws,
  the database is rolled back. Times of the database are counted in microseconds, those of
  \<open>Date\<close> in milliseconds and the instants of the protocol in seconds.
\<close>

section \<open>Errors and the codec\<close>

text \<open>
  \<open>Thrown\<close> is an \<open>Error\<close> with its message, \<open>GrantConflict\<close> the subclass \<open>GrantConflictError\<close>, \<open>Codec\<close> an
  error of the codec, \<open>Rejected\<close> the rejection of a callback, of another service or of the database.
\<close>

datatype server_error = Thrown string | GrantConflict string | Codec HailCodecError | Rejected

type_synonym 'a outcome = "server_error + 'a"

abbreviation fail_with :: "string \<Rightarrow> 'a outcome" where
  "fail_with message \<equiv> Inl (Thrown message)"

definition codec_result :: "'a result \<Rightarrow> 'a outcome" where
  "codec_result r = (case r of Inl e \<Rightarrow> Inl (Codec e) | Inr x \<Rightarrow> Inr x)"

lemma codec_result_Inr [simp]: "codec_result r = Inr x \<longleftrightarrow> r = Inr x"
  by (auto simp: codec_result_def split: sum.splits)

definition guard :: "bool \<Rightarrow> string \<Rightarrow> unit outcome" where
  "guard ok message = (if ok then Inr () else fail_with message)"

lemma guard_Inr [simp]: "guard ok message = Inr u \<longleftrightarrow> ok"
  by (simp add: guard_def)

text \<open>Reading a successful run backwards: which guards held and which rows were found.\<close>

lemma needs_row_Inr [simp]:
  "(case x of None \<Rightarrow> Inl e | Some y \<Rightarrow> f y) = Inr z \<longleftrightarrow> (\<exists>y. x = Some y \<and> f y = Inr z)"
  by (cases x) auto

lemma refuses_if_Inr [simp]:
  "(if b then Inl e else r) = Inr z \<longleftrightarrow> \<not> b \<and> r = Inr z"
  "(if b then r else Inl e) = Inr z \<longleftrightarrow> b \<and> r = Inr z"
  by auto

text \<open>The codec package with the libraries it rests on.\<close>

record codec =
  codec_lib :: cborg
  codec_env :: validation_env

definition inspectEnvelope :: "codec \<Rightarrow> bytes \<Rightarrow> HailEnvelope outcome" where
  "inspectEnvelope c cose =
     and_then (codec_result (inspectSignedPayload (codec_lib c) (codec_env c) Envelope cose)) (\<lambda>object.
       Inr (read_envelope (object_payload object)))"

text \<open>The payload of an inspected envelope satisfies the conditions of the protocol.\<close>

lemma inspected_envelope:
  assumes "cbor_library (codec_lib c)" and "inspectEnvelope c cose = Inr e"
  shows "wf_envelope (codec_env c) e"
proof -
  obtain object p where o: "inspectSignedPayload (codec_lib c) (codec_env c) Envelope cose = Inr object"
      "e = read_envelope (object_payload object)" and p: "parseCose (codec_lib c) (codec_env c) Envelope cose = Inr p"
      "object = inspectedResult Envelope p"
    using assms(2) by (auto simp: inspectEnvelope_def inspectSignedPayload_def)
  have t: "Envelope \<in> set signed_types" by (simp add: signed_types_def)
  note strict = cbor_library.parseCose_strict [OF assms(1) t SIGNED_PROFILES.simps(6) p(1)]
  obtain kvs where h: "parsed_payload p = HMap kvs" "get (parsed_payload p) ''type'' = txt_lit (type_name Envelope)"
      "validate_by_type (codec_env c) Envelope (parsed_payload p) = Inr ()"
    by (rule validatePayload_signed [OF strict(3) t])
  then show ?thesis
    using validateEnvelope_sound [of "codec_env c" kvs] strict(2)
    by (simp add: o(2) p(2) inspectedResult_def validate_by_type_def)
qed

section \<open>Tables and transactions\<close>

type_synonym ('k, 'v) table = "('k \<times> 'v) list"

definition keyed :: "('k, 'v) table \<Rightarrow> bool" where
  "keyed t \<longleftrightarrow> distinct (map fst t)"

lemma keyed_update [simp]: "keyed t \<Longrightarrow> keyed (AList.update k v t)"
  by (simp add: keyed_def distinct_update)

lemma keyed_Nil [simp]: "keyed []"
  by (simp add: keyed_def)

definition transaction :: "('db \<Rightarrow> ('a \<times> 'db) outcome) \<Rightarrow> 'db \<Rightarrow> 'a outcome \<times> 'db" where
  "transaction body db = (case body db of Inl e \<Rightarrow> (Inl e, db) | Inr (x, db') \<Rightarrow> (Inr x, db'))"

lemma transaction_rollback: "body db = Inl e \<Longrightarrow> transaction body db = (Inl e, db)"
  by (simp add: transaction_def)

lemma transaction_commit: "body db = Inr (x, db') \<Longrightarrow> transaction body db = (Inr x, db')"
  by (simp add: transaction_def)

end
