(* ===== verification/Database.thy ===== *)
theory Database
  imports ServerBase
begin

text \<open>
  The tables of the server's database that the modelled components read and write, one association
  list per table keyed by its primary key, and the statements they share. Columns that only repeat
  a part of the signed envelope are held as that part (the authorization columns as the
  \<open>HailEnvelopeAuthorization\<close>). What the SQL functions and triggers of \<^verbatim>\<open>migrations\<close> decide
  (connection permissions, handover barriers, migration fences and serving generations) enters as
  the record \<open>sql_functions\<close>: a trigger, a column type or a check constraint can refuse a write, which
  rolls the transaction back.

  Instants are microseconds, as \<open>timestamptz\<close> stores them. A transaction reads the clock several
  times: its \<open>clock\<close> gives the readings, the one at index 0 is \<open>now()\<close>, the time at which the transaction
  started; the later ones are those of \<open>clock_timestamp()\<close> in the order of the calls.
\<close>

section \<open>Rows\<close>

type_synonym instant = int
type_synonym clock = "nat \<Rightarrow> instant"
type_synonym message_key = "jstring \<times> jstring"

text \<open>\<open>Number(extract(epoch from t)) > s\<close>, for whole seconds \<open>s\<close>.\<close>

definition past :: "instant \<Rightarrow> int \<Rightarrow> bool" where
  "past t s \<longleftrightarrow> s * 1000000 < t"

text \<open>A JavaScript \<open>Date\<close> read from the database keeps milliseconds.\<close>

definition js_time :: "instant \<Rightarrow> int" where
  "js_time t = t div 1000"

text \<open>
  The JSON texts of the evidence, as \<open>jsonb\<close> renders them; the log is an array, given by the texts of
  its entries.
\<close>

record PlcResolutionEvidence =
  evidence_document :: jstring
  evidence_data :: jstring
  evidence_log :: "jstring list"

fun array_text :: "jstring list \<Rightarrow> jstring" where
  "array_text [] = lit ''[]''"
| "array_text [x] = lit ''['' @ x @ lit '']''"
| "array_text (x # y # xs) = lit ''['' @ x @ lit '', '' @ drop 1 (array_text (y # xs))"

datatype received_outcome = WasAccepted | WasUnauthorized | WasExpired

record received_row =
  rcv_recipient :: jstring
  rcv_account :: jstring
  rcv_grant_id :: "jstring option"
  rcv_reply_to :: "jstring option"
  rcv_authorization :: HailEnvelopeAuthorization
  rcv_cose :: bytes
  rcv_envelope_digest :: bytes
  rcv_payload_digest :: bytes
  rcv_signing_key :: jstring
  rcv_evidence :: PlcResolutionEvidence
  rcv_outcome :: received_outcome
  rcv_accepted_at :: "instant option"
  rcv_parent :: "HailMessageReference option"
  rcv_conversation_message_id :: "jstring option"
  rcv_admission_bytes :: nat

record sent_row =
  sent_recipient :: jstring
  sent_authorization :: HailEnvelopeAuthorization
  sent_cose :: bytes
  sent_envelope_digest :: bytes
  sent_body_digest :: bytes
  sent_account :: jstring
  sent_parent :: "HailMessageReference option"
  sent_conversation_message_id :: "jstring option"

record work_row =
  work_state :: HailDeliveryState
  work_reason :: "string option"
  status_revision :: nat
  attempt_count :: nat
  next_attempt_at :: instant
  lease_token :: "jstring option"
  lease_expires_at :: "instant option"
  transitioned_at :: instant

datatype capability_state = Available | Claimed | Consumed

record capability_row =
  cap_recipient :: jstring
  cap_until :: int
  cap_state :: capability_state
  cap_claimed :: "message_key option"
  cap_updated_at :: instant

datatype publication_state = Pending | Retry | Acknowledged | Blocked

record publication_row =
  pub_state :: publication_state
  pub_attempts :: nat
  pub_next_attempt_at :: instant
  pub_lease :: "jstring option"
  pub_lease_expires_at :: "instant option"
  pub_http_status :: "nat option"
  pub_error :: "string option"
  pub_acknowledged_at :: "instant option"
  pub_updated_at :: instant

record delivered_row =
  dlv_recipient :: jstring
  dlv_envelope_digest :: bytes
  dlv_body_digest :: bytes
  dlv_profile :: body_profile
  dlv_trashed_at :: "instant option"

record account_row =
  acc_did :: "jstring option"
  acc_onboarding_state :: string
  acc_verification_mode :: "string option"
  acc_closed_at :: "instant option"

record body_row =
  stored_bytes :: bytes
  stored_until :: "int option"

record body_authorization_row =
  auth_body_digest :: bytes
  auth_account :: jstring
  auth_recipient :: jstring
  auth_message_id :: jstring
  auth_expires_at :: int
  auth_available_until :: int

record sent_status_row =
  ss_recipient :: jstring
  ss_revision :: int
  ss_state :: HailDeliveryState
  ss_payload :: bytes
  ss_cose :: bytes
  ss_signing_key :: jstring
  ss_evidence :: PlcResolutionEvidence
  ss_gap :: int
  ss_received_at :: instant

datatype grant_role = Grantor | Grantee

record lineage_row =
  lin_account :: jstring
  lin_role :: grant_role
  lin_grantor :: jstring
  lin_grantee :: jstring
  lin_revision :: int
  lin_digest :: bytes
  lin_status :: grant_status

record revision_row =
  rev_status :: grant_status
  rev_issued_at :: int
  rev_updated_at :: int
  rev_expires_at :: "int option"
  rev_previous :: "bytes option"
  rev_scope :: "jstring list"
  rev_binding_hash :: bytes
  rev_profile_hash :: bytes
  rev_cose :: bytes
  rev_digest :: bytes
  rev_signing_key :: jstring
  rev_evidence :: PlcResolutionEvidence
  rev_received_at :: instant

record consent_row =
  con_address :: jstring
  con_binding_cose :: bytes
  con_binding_digest :: bytes
  con_binding_evidence :: PlcResolutionEvidence
  con_binding_verified_at :: instant
  con_profile_revision :: int
  con_profile_cose :: bytes
  con_profile_digest :: bytes
  con_profile_evidence :: PlcResolutionEvidence
  con_profile_verified_at :: instant

record grant_publication_row =
  gp_destination :: jstring
  gp_state :: publication_state
  gp_attempts :: nat
  gp_next_attempt_at :: instant
  gp_lease :: "jstring option"
  gp_lease_expires_at :: "instant option"
  gp_http_status :: "nat option"
  gp_error :: "string option"
  gp_etag :: "jstring option"
  gp_acknowledged_at :: "instant option"
  gp_created_at :: instant
  gp_updated_at :: instant

record descriptor_row =
  desc_hash :: bytes
  desc_cose :: bytes
  desc_participants :: "jstring list"
  desc_created_at :: int
  desc_admission_until :: int
  desc_signing_key :: jstring
  desc_evidence :: PlcResolutionEvidence

datatype membership_state = MembershipActive | MembershipLeft

record membership_row =
  mem_state :: membership_state
  mem_expires_at :: instant
  mem_left_at :: "instant option"
  mem_last_activity_at :: "instant option"

record receipt_row =
  rcpt_conversation :: jstring
  rcpt_hash :: bytes
  rcpt_outcome :: string
  rcpt_expires_at :: int

datatype schedule_scope = SenderScope | RecipientScope

text \<open>The keys of a verified body: recipient, sender, digest and profile; the media type is constant.\<close>

type_synonym provenance_key = "jstring \<times> jstring \<times> bytes \<times> body_profile"

record db =
  provider_accounts :: "(jstring, account_row) table"
  provider_migration_fences :: "(jstring, jstring) table"
  received_envelopes :: "(message_key, received_row) table"
  sent_envelopes :: "(message_key, sent_row) table"
  delivery_work :: "(message_key, work_row) table"
  delivery_scheduling :: "(schedule_scope \<times> jstring, instant) table"
  reply_capabilities :: "(message_key, capability_row) table"
  terminal_status_publications :: "(message_key, publication_row) table"
  delivered_messages :: "(message_key, delivered_row) table"
  verified_body_provenance :: "provenance_key list"
  shared_content_blobs :: "(bytes, bytes) table"
  attachment_blobs :: "(bytes, bytes) table"
  received_attachment_refs :: "(provenance_key \<times> bytes) list"
  detached_bodies :: "(bytes \<times> jstring, body_row) table"
  body_authorizations :: "(bytes, body_authorization_row) table"
  delivery_status_payloads :: "(message_key \<times> nat, bytes) table"
  delivery_status_wrappers :: "((message_key \<times> nat) \<times> jstring, bytes \<times> PlcResolutionEvidence) table"
  sent_delivery_status :: "(message_key, sent_status_row) table"
  grant_lineages :: "(jstring, lineage_row) table"
  grant_revisions :: "(jstring \<times> int, revision_row) table"
  grant_consent_evidence :: "(jstring \<times> int, consent_row) table"
  grant_publications :: "(jstring \<times> int, grant_publication_row) table"
  collocated_grant_receivers :: "(jstring, jstring) table"
  conversation_descriptors :: "(jstring \<times> jstring, descriptor_row) table"
  conversation_memberships :: "(jstring \<times> jstring \<times> jstring, membership_row) table"
  conversation_revival_receipts :: "(jstring \<times> jstring \<times> jstring, receipt_row) table"
  account_conversation_preferences :: "(jstring, bool) table"
  connection_conversation_preferences :: "(jstring \<times> jstring \<times> int, bool) table"

definition empty_db :: db where
  "empty_db = \<lparr>provider_accounts = [], provider_migration_fences = [], received_envelopes = [], sent_envelopes = [],
     delivery_work = [], delivery_scheduling = [], reply_capabilities = [], terminal_status_publications = [],
     delivered_messages = [], verified_body_provenance = [], shared_content_blobs = [], attachment_blobs = [],
     received_attachment_refs = [], detached_bodies = [], body_authorizations = [], delivery_status_payloads = [],
     delivery_status_wrappers = [], sent_delivery_status = [], grant_lineages = [], grant_revisions = [],
     grant_consent_evidence = [], grant_publications = [], collocated_grant_receivers = [], conversation_descriptors = [],
     conversation_memberships = [], conversation_revival_receipts = [],
     account_conversation_preferences = [], connection_conversation_preferences = []\<rparr>"

section \<open>Database functions and triggers\<close>

text \<open>
  The readings of the clock after the first \<open>k\<close> of a transaction that is under way.
\<close>

definition later :: "nat \<Rightarrow> clock \<Rightarrow> clock" where
  "later k clk = (\<lambda>i. if i = 0 then clk 0 else clk (i + k))"

text \<open>
  The writes a trigger can refuse, with the key of the row, or the owner's DID for the tables keyed
  by content.
\<close>

datatype statement =
    WriteWork message_key | WritePublication message_key | WriteCapability message_key
  | WriteDelivered message_key | WriteProvenance provenance_key | WriteAttachmentRef provenance_key
  | WriteReceived message_key | WriteSent message_key | WriteBody "bytes \<times> jstring"
  | WriteBodyAuthorization jstring | WriteStatusPayload message_key | WriteStatusWrapper message_key
  | WriteSentStatus message_key | WriteLineage jstring | WriteRevision "jstring \<times> int"
  | WriteGrantPublication "jstring \<times> int" | WriteCollocated jstring | WriteConsent "jstring \<times> int" | WriteDescriptor "jstring \<times> jstring"
  | WriteMembership "jstring \<times> jstring \<times> jstring" | WriteReceipt "jstring \<times> jstring \<times> jstring"

record sql_functions =
  refuses :: "statement \<Rightarrow> db \<Rightarrow> bool"
  connection_message_permission :: "db \<Rightarrow> jstring \<Rightarrow> jstring \<Rightarrow> jstring \<Rightarrow> int \<Rightarrow> bool"
  connection_handover_blocked :: "db \<Rightarrow> jstring \<Rightarrow> jstring \<Rightarrow> bool"
  plus_24_months :: "instant \<Rightarrow> instant"

definition open_functions :: sql_functions where
  "open_functions = \<lparr>refuses = (\<lambda>_ _. False), connection_message_permission = (\<lambda>_ _ _ _ _. False),
     connection_handover_blocked = (\<lambda>_ _ _. False), plus_24_months = (\<lambda>t. t + 730 * 86400000000)\<rparr>"

text \<open>A write throws if a trigger refuses it; an insert also if the primary key is taken.\<close>

definition perform :: "sql_functions \<Rightarrow> statement \<Rightarrow> (db \<Rightarrow> db) \<Rightarrow> db \<Rightarrow> db outcome" where
  "perform fx s f d = (if refuses fx s d then Inl Rejected else Inr (f d))"

lemma perform_Inr [simp]: "perform fx s f d = Inr d' \<longleftrightarrow> \<not> refuses fx s d \<and> d' = f d"
  by (auto simp: perform_def)

definition insert_new :: "sql_functions \<Rightarrow> statement \<Rightarrow> bool \<Rightarrow> (db \<Rightarrow> db) \<Rightarrow> db \<Rightarrow> db outcome" where
  "insert_new fx s taken f d =
     (if refuses fx s d then Inl Rejected
      else if taken then fail_with ''duplicate key value violates unique constraint''
      else Inr (f d))"

lemma insert_new_Inr [simp]: "insert_new fx s taken f d = Inr d' \<longleftrightarrow> \<not> refuses fx s d \<and> \<not> taken \<and> d' = f d"
  by (auto simp: insert_new_def)

definition has_row :: "('k, 'v) table \<Rightarrow> 'k \<Rightarrow> bool" where
  "has_row t k \<longleftrightarrow> map_of t k \<noteq> None"

text \<open>\<open>hail_assert_unfenced_account\<close>: raises if the account's DID is fenced for a migration.\<close>

definition fenced_did :: "db \<Rightarrow> jstring \<Rightarrow> bool" where
  "fenced_did d did \<longleftrightarrow> has_row (provider_migration_fences d) did"

definition fenced_account :: "db \<Rightarrow> jstring \<Rightarrow> bool" where
  "fenced_account d account \<longleftrightarrow> account \<in> set (map snd (provider_migration_fences d))"

definition assert_unfenced_account :: "db \<Rightarrow> jstring \<Rightarrow> unit outcome" where
  "assert_unfenced_account d account = (case map_of (provider_accounts d) account of
     Some row \<Rightarrow> (case acc_did row of
       Some did \<Rightarrow> guard (\<not> fenced_did d did) ''Hail DID is migration-fenced''
     | None \<Rightarrow> Inr ())
   | None \<Rightarrow> Inr ())"

section \<open>Tables as maps\<close>

text \<open>
  Every operation updates rows by key; over the maps of the tables that is function update.
\<close>

lemmas map_of_update [simp] = update_conv'

lemma has_row_update [simp]: "has_row (AList.update k v t) k' \<longleftrightarrow> k' = k \<or> has_row t k'"
  by (auto simp: has_row_def)

definition publicly_active :: "account_row \<Rightarrow> bool" where
  "publicly_active row \<longleftrightarrow> acc_onboarding_state row = ''active'' \<and> acc_verification_mode row = Some ''public''"

definition account_with_did :: "db \<Rightarrow> jstring \<Rightarrow> (jstring \<times> account_row) option" where
  "account_with_did d did = find (\<lambda>(_, row). acc_did row = Some did \<and> acc_closed_at row = None) (provider_accounts d)"

end
