(* ===== verification/ImageFiles.thy ===== *)
theory ImageFiles
  imports Assets
begin

text \<open>
  \<^verbatim>\<open>apps/server/src/bodies/image-attachments.ts\<close>: the container checks of JPEG and WebP
  attachments. A check that fails throws; here a check returns whether the file is accepted. Both
  loops advance their offset in every round, so they end on every input.
\<close>

unbundle bit_operations_syntax

section \<open>JPEG\<close>

definition getUint16 :: "bytes \<Rightarrow> nat \<Rightarrow> nat" where
  "getUint16 data offset = big_endian (take 2 (drop offset data))"

record jpeg_state =
  inScan :: bool
  sawScan :: bool
  sawScanData :: bool
  components :: "byte list option"

definition jpeg_start :: jpeg_state where
  "jpeg_start = \<lparr>inScan = False, sawScan = False, sawScanData = False, components = None\<rparr>"

definition high_nibble :: "byte \<Rightarrow> nat" where
  "high_nibble b = unat b div 16"

definition low_nibble :: "byte \<Rightarrow> nat" where
  "low_nibble b = unat b mod 16"

text \<open>The component table of a frame header: identifiers are distinct, sampling factors 1 to 4.\<close>

fun frame_components :: "bytes \<Rightarrow> nat \<Rightarrow> nat \<Rightarrow> byte list \<Rightarrow> byte list option" where
  "frame_components data offset 0 seen = Some seen"
| "frame_components data offset (Suc n) seen =
     (let i = data ! offset; sampling = data ! (offset + 1) in
      if i \<in> set seen \<or> high_nibble sampling < 1 \<or> 4 < high_nibble sampling \<or> low_nibble sampling < 1
        \<or> 4 < low_nibble sampling \<or> 3 < data ! (offset + 2) then None
      else frame_components data (offset + 3) n (i # seen))"

definition jpeg_frame :: "bytes \<Rightarrow> nat \<Rightarrow> nat \<Rightarrow> jpeg_state \<Rightarrow> jpeg_state option" where
  "jpeg_frame data start len st =
     (if components st \<noteq> None \<or> len < 11 \<or> data ! start \<noteq> 8 \<or> getUint16 data (start + 1) = 0
        \<or> getUint16 data (start + 3) = 0 then None
      else let n = unat (data ! (start + 5)) in
        if n < 1 \<or> 4 < n \<or> len \<noteq> 8 + 3 * n then None
        else map_option (\<lambda>ids. st\<lparr>components := Some ids\<rparr>) (frame_components data (start + 6) n []))"

text \<open>The component selectors of a scan header: known, distinct, table numbers at most 3.\<close>

fun scan_components :: "bytes \<Rightarrow> nat \<Rightarrow> nat \<Rightarrow> byte list \<Rightarrow> byte list \<Rightarrow> bool" where
  "scan_components data offset 0 known selected \<longleftrightarrow> True"
| "scan_components data offset (Suc n) known selected \<longleftrightarrow>
     (let i = data ! offset; tables = data ! (offset + 1) in
      i \<in> set known \<and> i \<notin> set selected \<and> high_nibble tables \<le> 3 \<and> low_nibble tables \<le> 3
      \<and> scan_components data (offset + 2) n known (i # selected))"

definition jpeg_scan :: "bytes \<Rightarrow> nat \<Rightarrow> nat \<Rightarrow> nat \<Rightarrow> jpeg_state \<Rightarrow> jpeg_state option" where
  "jpeg_scan data start len finish st =
     (case components st of
        None \<Rightarrow> None
      | Some known \<Rightarrow>
          if len < 8 then None
          else let n = unat (data ! start) in
            if n < 1 \<or> length known < n \<or> len \<noteq> 6 + 2 * n then None
            else if \<not> scan_components data (start + 1) n known [] then None
            else if 63 < data ! (finish - 3) \<or> 63 < data ! (finish - 2) then None
            else Some (st\<lparr>sawScan := True, inScan := True\<rparr>))"

definition frame_markers :: "byte list" where
  "frame_markers = [0xc0, 0xc1, 0xc2]"

definition known_markers :: "byte list" where
  "known_markers = [0xc0, 0xc1, 0xc2, 0xc4, 0xdb, 0xdd, 0xda, 0xfe]"

text \<open>The fill bytes before a marker code.\<close>

definition skip_fill :: "bytes \<Rightarrow> nat \<Rightarrow> nat" where
  "skip_fill data offset = offset + length (takeWhile (\<lambda>b. b = 0xff) (drop offset data))"

text \<open>
  A marker segment with code \<open>marker\<close> whose length field stands at \<open>offset\<close>: the offset after it
  and the new state.
\<close>

definition jpeg_segment :: "bytes \<Rightarrow> byte \<Rightarrow> nat \<Rightarrow> jpeg_state \<Rightarrow> (nat \<times> jpeg_state) option" where
  "jpeg_segment data marker offset st =
     (if marker \<notin> set known_markers \<and> \<not> (0xe0 \<le> marker \<and> marker \<le> 0xef) then None
      else if length data < offset + 2 then None
      else let len = getUint16 data offset; start = offset + 2; finish = offset + len in
        if len < 2 \<or> length data < finish then None
        else if marker \<in> set frame_markers then map_option (Pair finish) (jpeg_frame data start len st)
        else if marker = 0xda then map_option (Pair finish) (jpeg_scan data start len finish st)
        else if marker = 0xdd \<and> len \<noteq> 4 then None
        else Some (finish, st))"

lemma jpeg_segment_advances: "jpeg_segment data marker offset st = Some (finish, st') \<Longrightarrow> offset < finish"
  by (auto simp: jpeg_segment_def Let_def split: if_splits)

lemma skip_fill_le: "offset \<le> skip_fill data offset"
  by (simp add: skip_fill_def)

function jpeg_loop :: "bytes \<Rightarrow> nat \<Rightarrow> jpeg_state \<Rightarrow> bool" where
  "jpeg_loop data offset st =
     (if length data \<le> offset then False
      else if inScan st \<and> data ! offset \<noteq> 0xff then jpeg_loop data (offset + 1) (st\<lparr>sawScanData := True\<rparr>)
      else if data ! offset \<noteq> 0xff then False
      else let at_marker = skip_fill data (offset + 1) in
        if length data \<le> at_marker then False
        else let marker = data ! at_marker; next_offset = at_marker + 1 in
          if inScan st \<and> (marker = 0 \<or> 0xd0 \<le> marker \<and> marker \<le> 0xd7) then
            jpeg_loop data next_offset (if marker = 0 then st\<lparr>sawScanData := True\<rparr> else st)
          else if marker = 0xd9 then
            components st \<noteq> None \<and> sawScan st \<and> sawScanData st \<and> next_offset = length data
          else (case jpeg_segment data marker next_offset (st\<lparr>inScan := False\<rparr>) of
            None \<Rightarrow> False
          | Some (finish, st') \<Rightarrow> jpeg_loop data finish st'))"
  by pat_completeness auto
termination
proof (relation "measure (\<lambda>(data, offset, st). length data - offset)", goal_cases)
  case (3 data offset st at_marker marker next_offset)
  then show ?case using skip_fill_le [of "offset + 1" data] by simp
next
  case (4 data offset st at_marker marker next_offset x finish st')
  then show ?case using skip_fill_le [of "offset + 1" data] jpeg_segment_advances [of data marker next_offset]
    by fastforce
qed auto

declare jpeg_loop.simps [simp del]

definition validateJpegStructure :: "bytes \<Rightarrow> bool" where
  "validateJpegStructure data \<longleftrightarrow>
     4 \<le> length data \<and> data ! 0 = 0xff \<and> data ! 1 = 0xd8 \<and> jpeg_loop data 2 jpeg_start"

section \<open>WebP\<close>

definition little_endian :: "bytes \<Rightarrow> nat" where
  "little_endian bs = foldr (\<lambda>b n. unat b + 256 * n) bs 0"

definition uint_le :: "bytes \<Rightarrow> nat \<Rightarrow> nat \<Rightarrow> nat" where
  "uint_le data offset k = little_endian (take k (drop offset data))"

record webp_state =
  webp_width :: nat
  webp_height :: nat
  canvasWidth :: nat
  canvasHeight :: nat
  flags :: byte
  extended :: bool
  image :: bool
  alpha :: bool
  icc :: bool
  exif :: bool
  xmp :: bool
  losslessAlpha :: bool

definition webp_start :: webp_state where
  "webp_start = \<lparr>webp_width = 0, webp_height = 0, canvasWidth = 0, canvasHeight = 0, flags = 0,
     extended = False, image = False, alpha = False, icc = False, exif = False, xmp = False, losslessAlpha = False\<rparr>"

definition fourcc :: "bytes \<Rightarrow> nat \<Rightarrow> bytes" where
  "fourcc data offset = take 4 (drop offset data)"

definition webp_image :: "bytes \<Rightarrow> nat \<Rightarrow> nat \<Rightarrow> bool \<Rightarrow> webp_state \<Rightarrow> webp_state option" where
  "webp_image data start len lossless st =
     (if lossless then
        if alpha st \<or> len \<le> 5 \<or> data ! start \<noteq> 0x2f then None
        else let bits = uint_le data (start + 1) 4 in
          if bits div 2 ^ 29 \<noteq> 0 then None
          else Some (st\<lparr>webp_width := bits mod 0x4000 + 1, webp_height := bits div 2 ^ 14 mod 0x4000 + 1,
            losslessAlpha := bits div 2 ^ 28 mod 2 = 1\<rparr>)
      else if len \<le> 10 \<or> data ! start AND 1 \<noteq> 0 \<or> 3 < unat (data ! start) div 2 mod 8 \<or> data ! start AND 16 = 0
          \<or> data ! (start + 3) \<noteq> 0x9d \<or> data ! (start + 4) \<noteq> 1 \<or> data ! (start + 5) \<noteq> 0x2a then None
      else Some (st\<lparr>webp_width := uint_le data (start + 6) 2 mod 0x4000,
        webp_height := uint_le data (start + 8) 2 mod 0x4000\<rparr>))"

text \<open>One chunk of \<open>len\<close> bytes with its data at \<open>offset + 8\<close>; its bounds have been checked.\<close>

definition webp_chunk :: "bytes \<Rightarrow> nat \<Rightarrow> nat \<Rightarrow> webp_state \<Rightarrow> webp_state option" where
  "webp_chunk data offset len st =
     (let ty = fourcc data offset; start = offset + 8 in
      if ty = ascii_bytes ''VP8X'' then
        if offset \<noteq> 12 \<or> len \<noteq> 10 then None
        else let f = data ! start; w = uint_le data (start + 4) 3 + 1; h = uint_le data (start + 7) 3 + 1 in
          if f AND 0xc3 \<noteq> 0 \<or> uint_le data (start + 1) 3 \<noteq> 0 \<or> 0xffffffff < w * h then None
          else Some (st\<lparr>flags := f, canvasWidth := w, canvasHeight := h, extended := True\<rparr>)
      else if ty = ascii_bytes ''ANIM'' \<or> ty = ascii_bytes ''ANMF'' then None
      else if ty = ascii_bytes ''VP8 '' \<or> ty = ascii_bytes ''VP8L'' then
        if image st \<or> \<not> extended st \<and> offset \<noteq> 12 then None
        else (case webp_image data start len (ty = ascii_bytes ''VP8L'') st of
          None \<Rightarrow> None
        | Some st' \<Rightarrow>
            if webp_width st' = 0 \<or> webp_height st' = 0
              \<or> extended st' \<and> (webp_width st' \<noteq> canvasWidth st' \<or> webp_height st' \<noteq> canvasHeight st') then None
            else Some (st'\<lparr>image := True\<rparr>))
      else if ty = ascii_bytes ''ALPH'' then
        if \<not> extended st \<or> image st \<or> alpha st \<or> len < 2 \<or> data ! start AND 0xc0 \<noteq> 0
          \<or> 1 < unat (data ! start) mod 4 \<or> 1 < unat (data ! start) div 16 mod 4 then None
        else if unat (data ! start) mod 4 = 0 \<and> len \<noteq> 1 + canvasWidth st * canvasHeight st then None
        else Some (st\<lparr>alpha := True\<rparr>)
      else if ty = ascii_bytes ''ICCP'' then
        if \<not> extended st \<or> image st \<or> alpha st \<or> icc st \<or> len = 0 then None else Some (st\<lparr>icc := True\<rparr>)
      else if ty = ascii_bytes ''EXIF'' then
        if \<not> extended st \<or> \<not> image st \<or> len = 0 \<or> exif st then None else Some (st\<lparr>exif := True\<rparr>)
      else if ty = ascii_bytes ''XMP '' then
        if \<not> extended st \<or> \<not> image st \<or> len = 0 \<or> xmp st then None else Some (st\<lparr>xmp := True\<rparr>)
      else Some st)"

function webp_loop :: "bytes \<Rightarrow> nat \<Rightarrow> webp_state \<Rightarrow> webp_state option" where
  "webp_loop data offset st =
     (if length data \<le> offset then Some st
      else if length data < offset + 8 then None
      else let len = uint_le data (offset + 4) 4; finish = offset + 8 + len; padded = finish + len mod 2 in
        if length data < padded \<or> len mod 2 \<noteq> 0 \<and> data ! finish \<noteq> 0 then None
        else (case webp_chunk data offset len st of
          None \<Rightarrow> None
        | Some st' \<Rightarrow> webp_loop data padded st'))"
  by pat_completeness auto
termination
  by (relation "measure (\<lambda>(data, offset, st). length data - offset)") auto

declare webp_loop.simps [simp del]

definition validateWebpStructure :: "bytes \<Rightarrow> bool" where
  "validateWebpStructure data \<longleftrightarrow>
     20 \<le> length data \<and> fourcc data 0 = ascii_bytes ''RIFF'' \<and> fourcc data 8 = ascii_bytes ''WEBP''
     \<and> uint_le data 4 4 + 8 = length data
     \<and> (case webp_loop data 12 webp_start of
          None \<Rightarrow> False
        | Some st \<Rightarrow> image st \<and> (extended st \<longrightarrow>
            (flags st AND 0x20 \<noteq> 0) = icc st \<and> (flags st AND 0x08 \<noteq> 0) = exif st \<and> (flags st AND 0x04 \<noteq> 0) = xmp st
            \<and> (flags st AND 0x10 \<noteq> 0) = (alpha st \<or> losslessAlpha st)))"

section \<open>What acceptance means\<close>

lemma before_marker:
  assumes "data ! offset = 0xff" "skip_fill data (offset + 1) < length data"
  shows "data ! (skip_fill data (offset + 1) - 1) = 0xff"
proof (cases "takeWhile (\<lambda>b. b = 0xff) (drop (offset + 1) data)" rule: rev_exhaust)
  case Nil
  with assms(1) show ?thesis by (simp add: skip_fill_def)
next
  case (snoc fill b)
  let ?w = "takeWhile (\<lambda>b. b = 0xff) (drop (offset + 1) data)"
  have n: "length ?w \<le> length (drop (offset + 1) data)" by (rule length_takeWhile_le)
  have "?w ! length fill = drop (offset + 1) data ! length fill"
    using snoc by (intro takeWhile_nth) simp
  moreover have "?w ! length fill \<in> set ?w" using snoc by (intro nth_mem) simp
  ultimately have "data ! (offset + 1 + length fill) = 0xff"
    using n snoc set_takeWhileD [of _ "\<lambda>b. b = 0xff"] by fastforce
  with snoc show ?thesis by (simp add: skip_fill_def)
qed

lemma jpeg_loop_ends:
  "jpeg_loop data offset st \<Longrightarrow> data ! (length data - 1) = 0xd9 \<and> data ! (length data - 2) = 0xff
     \<and> offset + 2 \<le> length data"
proof (induction data offset st rule: jpeg_loop.induct)
  case (1 data offset st)
  let ?m = "skip_fill data (offset + 1)"
  note unfold = jpeg_loop.simps [of data offset st] Let_def
  have le: "offset + 1 \<le> ?m" by (rule skip_fill_le)
  show ?case
  proof (cases "inScan st \<and> data ! offset \<noteq> 0xff")
    case True
    with "1.IH"(1) "1.prems" show ?thesis by (auto simp: unfold split: if_splits)
  next
    case no_data: False
    with "1.prems" have ff: "offset < length data" "data ! offset = 0xff" "?m < length data"
      by (auto simp: unfold split: if_splits)
    consider "inScan st" "data ! ?m = 0 \<or> 0xd0 \<le> data ! ?m \<and> data ! ?m \<le> 0xd7"
      | "\<not> (inScan st \<and> (data ! ?m = 0 \<or> 0xd0 \<le> data ! ?m \<and> data ! ?m \<le> 0xd7))" "data ! ?m = 0xd9"
      | "\<not> (inScan st \<and> (data ! ?m = 0 \<or> 0xd0 \<le> data ! ?m \<and> data ! ?m \<le> 0xd7))" "data ! ?m \<noteq> 0xd9" by blast
    then show ?thesis
    proof cases
      case 1
      with "1.prems" no_data ff have "jpeg_loop data (?m + 1) (if data ! ?m = 0 then st\<lparr>sawScanData := True\<rparr> else st)"
        by (simp add: unfold)
      with "1.IH"(2) [OF _ no_data _ refl _ refl refl] 1 ff le show ?thesis by (simp add: not_le)
    next
      case 2
      with "1.prems" no_data ff have "?m + 1 = length data" by (simp add: unfold)
      then have "length data - 1 = ?m" "length data - 2 = ?m - 1" by simp_all
      with 2 before_marker [OF ff(2,3)] le ff(3) show ?thesis by simp
    next
      case 3
      with "1.prems" no_data ff obtain finish st' where seg: "jpeg_segment data (data ! ?m) (?m + 1) (st\<lparr>inScan := False\<rparr>) = Some (finish, st')"
        "jpeg_loop data finish st'" by (auto simp: unfold split: option.splits)
      with "1.IH"(3) [OF _ no_data _ refl _ refl refl] 3 ff le jpeg_segment_advances [OF seg(1)] show ?thesis
        by (simp add: not_le)
    qed
  qed
qed

text \<open>
  An accepted JPEG attachment is delimited: it begins with the start-of-image marker, its last
  two bytes are the end-of-image marker, and nothing follows it. The marker loop ends on every
  input.
\<close>

theorem jpeg_delimited:
  assumes "validateJpegStructure data"
  shows "take 2 data = [0xff, 0xd8] \<and> drop (length data - 2) data = [0xff, 0xd9] \<and> 4 \<le> length data"
proof -
  from assms have l: "4 \<le> length data" "data ! 0 = 0xff" "data ! 1 = 0xd8" "jpeg_loop data 2 jpeg_start"
    by (simp_all add: validateJpegStructure_def)
  from l(1) have "take 2 data = [data ! 0, data ! 1]"
    by (cases data; cases "tl data") (simp_all add: numeral_2_eq_2)
  moreover have "drop (length data - 2) data = [data ! (length data - 2), data ! (length data - 1)]"
    using l(1) Cons_nth_drop_Suc [of "length data - 2" data] Cons_nth_drop_Suc [of "length data - 1" data]
    by (simp add: Suc_diff_Suc numeral_2_eq_2)
  ultimately show ?thesis using l jpeg_loop_ends [OF l(4)] by simp
qed

definition example_jpeg :: bytes where
  "example_jpeg = [0xff, 0xd8, 0xff, 0xc0, 0, 11, 8, 0, 1, 0, 1, 1, 1, 0x11, 0, 0xff, 0xda, 0, 8, 1, 1, 0, 0, 63, 0,
     0x2a, 0xff, 0xd9]"

theorem jpeg_delimited_witness: "drop (length example_jpeg - 2) example_jpeg = [0xff, 0xd9]"
proof -
  have "validateJpegStructure example_jpeg" by code_simp
  then show ?thesis using jpeg_delimited by blast
qed

text \<open>A RIFF chunk: a four-byte type, the little-endian size of the data, the data, a zero pad byte if the size is odd.\<close>

definition riff_chunk :: "bytes \<Rightarrow> bool" where
  "riff_chunk c \<longleftrightarrow> (\<exists>ty n p. c = ty @ n @ p @ (if even (length p) then [] else [0])
     \<and> length ty = 4 \<and> length n = 4 \<and> little_endian n = length p)"

lemma webp_loop_tiles:
  "webp_loop data offset st = Some st' \<Longrightarrow> offset \<le> length data \<Longrightarrow>
     \<exists>cs. drop offset data = concat cs \<and> (\<forall>c \<in> set cs. riff_chunk c)"
proof (induction data offset st rule: webp_loop.induct)
  case (1 data offset st)
  show ?case
  proof (cases "length data \<le> offset")
    case True
    then show ?thesis by (intro exI [of _ "[]"]) simp
  next
    case False
    define n where "n = uint_le data (offset + 4) 4"
    let ?fin = "offset + 8 + n"
    let ?rest = "drop (?fin + n mod 2) data"
    note unfold = webp_loop.simps [of data offset st] Let_def n_def [symmetric]
    from "1.prems"(1) False have b: "offset + 8 \<le> length data" "?fin + n mod 2 \<le> length data"
      "odd n \<Longrightarrow> data ! ?fin = 0"
      by (auto simp: unfold not_less split: if_splits)
    from "1.prems"(1) False obtain st2 where c: "webp_chunk data offset n st = Some st2"
      "webp_loop data (?fin + n mod 2) st2 = Some st'"
      by (auto simp: unfold split: if_splits option.splits)
    from b have "\<not> length data < offset + 8" "\<not> (length data < ?fin + n mod 2 \<or> n mod 2 \<noteq> 0 \<and> data ! ?fin \<noteq> 0)"
      by (auto, presburger)
    from "1.IH" [OF False this(1) n_def refl refl _ c(1)] this(2) c(2) b(2)
    obtain cs where cs: "?rest = concat cs" "\<forall>c \<in> set cs. riff_chunk c" by blast
    let ?ty = "take 4 (drop offset data)" and ?n = "take 4 (drop (offset + 4) data)" and ?p = "take n (drop (offset + 8) data)"
    let ?pad = "if even n then [] else [0 :: byte]"
    have pad: "drop ?fin data = ?pad @ ?rest"
    proof (cases "even n")
      case True
      then show ?thesis by (simp add: even_iff_mod_2_eq_zero)
    next
      case odd: False
      then have m: "n mod 2 = 1" by presburger
      then have "?fin < length data" using b(2) by simp
      then show ?thesis
        using Cons_nth_drop_Suc [of ?fin data] m b(3) [OF odd] odd by simp
    qed
    have p: "length ?p = n" using b(2) by simp
    have "drop offset data = ?ty @ ?n @ ?p @ drop ?fin data"
      using append_take_drop_id [of 4 "drop offset data"] append_take_drop_id [of 4 "drop (offset + 4) data"]
        append_take_drop_id [of n "drop (offset + 8) data"]
      by (simp add: add.commute add.left_commute)
    then have "drop offset data = (?ty @ ?n @ ?p @ ?pad) @ ?rest" unfolding pad by simp
    moreover have "riff_chunk (?ty @ ?n @ ?p @ ?pad)"
      unfolding riff_chunk_def using b(1) p
      by (intro exI [of _ ?ty] exI [of _ ?n] exI [of _ ?p]) (simp add: uint_le_def n_def)
    ultimately show ?thesis
      using cs by (intro exI [of _ "(?ty @ ?n @ ?p @ ?pad) # cs"]) simp
  qed
qed

text \<open>
  An accepted WebP attachment is a RIFF container that its chunks tile exactly: after the
  twelve-byte header the file is a sequence of padded chunks whose declared sizes are their real
  sizes, and the size in the header is the size of the file. No byte lies outside a chunk.
\<close>

theorem webp_tiled:
  assumes "validateWebpStructure data"
  shows "\<exists>n cs. data = ascii_bytes ''RIFF'' @ n @ ascii_bytes ''WEBP'' @ concat cs
    \<and> length n = 4 \<and> little_endian n + 8 = length data \<and> (\<forall>c \<in> set cs. riff_chunk c)"
proof -
  from assms have h: "20 \<le> length data" "take 4 data = ascii_bytes ''RIFF''" "take 4 (drop 8 data) = ascii_bytes ''WEBP''"
    "little_endian (take 4 (drop 4 data)) + 8 = length data"
    by (simp_all add: validateWebpStructure_def fourcc_def uint_le_def)
  from assms obtain st where "webp_loop data 12 webp_start = Some st"
    by (auto simp: validateWebpStructure_def split: option.splits)
  with h(1) obtain cs where cs: "drop 12 data = concat cs" "\<forall>c \<in> set cs. riff_chunk c"
    using webp_loop_tiles [of data 12 webp_start st] by auto
  have "data = take 4 data @ take 4 (drop 4 data) @ take 4 (drop 8 data) @ drop 12 data"
    using append_take_drop_id [of 4 data] append_take_drop_id [of 4 "drop 4 data"] append_take_drop_id [of 4 "drop 8 data"]
    by simp
  with h cs show ?thesis
    by (intro exI [of _ "take 4 (drop 4 data)"] exI [of _ cs]) simp
qed

definition example_webp :: bytes where
  "example_webp = ascii_bytes ''RIFF'' @ [20, 0, 0, 0] @ ascii_bytes ''WEBPVP8L'' @ [7, 0, 0, 0] @
     [0x2f, 0, 0, 0, 0, 1, 2] @ [0]"

theorem webp_tiled_witness: "\<exists>n rest. example_webp = ascii_bytes ''RIFF'' @ n @ ascii_bytes ''WEBP'' @ rest \<and> length n = 4"
proof -
  have "validateWebpStructure example_webp" by code_simp
  then show ?thesis using webp_tiled by blast
qed

end
