(* ===== verification/BodyService.thy ===== *)
theory BodyService
  imports ServerBase ImageFiles
begin

text \<open>
  \<^verbatim>\<open>apps/server/src/bodies\<close>: \<open>service.ts\<close> (which bytes are a message body, and of which profile)
  and \<open>attachments.ts\<close> (the files a body refers to and the checks on their content).
\<close>

unbundle bit_operations_syntax

section \<open>Bodies\<close>

definition BODY_MAX_BYTES :: nat where
  "BODY_MAX_BYTES = 1048576"

definition bodyDigest :: "codec \<Rightarrow> bytes \<Rightarrow> bytes" where
  "bodyDigest c bs = sha256 (codec_env c) bs"

fun body_type :: "body_profile \<Rightarrow> HailPayloadType" where
  "body_type Spt1 = BodySpt1"
| "body_type Spt2 = BodySpt2"
| "body_type Spt3 = BodySpt3"

definition decodeBody :: "codec \<Rightarrow> body_profile \<Rightarrow> bytes \<Rightarrow> hail_value result" where
  "decodeBody c p bs = decodePayload (codec_lib c) (codec_env c) (body_type p) bs DEFAULT_HAIL_RESOURCE_LIMITS"

definition encodeBody :: "codec \<Rightarrow> body_profile \<Rightarrow> hail_value \<Rightarrow> bytes result" where
  "encodeBody c p d = encodePayload (codec_lib c) (codec_env c) (body_type p) (of_hail d) DEFAULT_HAIL_RESOURCE_LIMITS"

definition recode :: "codec \<Rightarrow> body_profile \<Rightarrow> bytes \<Rightarrow> (body_profile \<times> bytes) result" where
  "recode c p bs = and_then (decodeBody c p bs) (\<lambda>document. and_then (encodeBody c p document) (\<lambda>encoded. Inr (p, encoded)))"

text \<open>The nested \<open>try\<close> blocks attempt the profiles in order; the last attempt is not guarded.\<close>

definition first_profile :: "codec \<Rightarrow> bytes \<Rightarrow> (body_profile \<times> bytes) result" where
  "first_profile c bs = (case recode c Spt1 bs of
     Inr r \<Rightarrow> Inr r
   | Inl _ \<Rightarrow> (case recode c Spt2 bs of Inr r \<Rightarrow> Inr r | Inl _ \<Rightarrow> recode c Spt3 bs))"

definition validateBodyBytes :: "codec \<Rightarrow> bytes \<Rightarrow> body_profile option \<Rightarrow> body_profile outcome" where
  "validateBodyBytes c bs expected =
     (if length bs < 1 \<or> BODY_MAX_BYTES < length bs then fail_with ''Body exceeds the 1 MiB limit''
      else and_then (codec_result (first_profile c bs)) (\<lambda>(profile, encoded).
        if expected \<noteq> None \<and> expected \<noteq> Some profile then fail_with ''Body profile does not match its envelope''
        else if encoded \<noteq> bs then fail_with ''Body bytes are not deterministic CBOR''
        else Inr profile))"

definition text_document :: "jstring \<Rightarrow> hail_value" where
  "text_document s = HMap [(lit ''version'', HInt 1), (lit ''profile'', HText (lit ''spt-1'')),
     (lit ''blocks'', HArray [HMap [(lit ''_type'', HText (lit ''block'')), (lit ''style'', HText (lit ''normal'')),
       (lit ''children'', HArray [HMap [(lit ''_type'', HText (lit ''span'')), (lit ''text'', HText s),
         (lit ''marks'', HArray [])]]),
       (lit ''markDefs'', HArray [])]])]"

definition bodyFromText :: "codec \<Rightarrow> jstring \<Rightarrow> bytes outcome" where
  "bodyFromText c s =
     and_then (codec_result (encodeBody c Spt1 (text_document s))) (\<lambda>bs.
     and_then (validateBodyBytes c bs None) (\<lambda>_. Inr bs))"

definition bodyFromDocument :: "codec \<Rightarrow> hail_value \<Rightarrow> bytes outcome" where
  "bodyFromDocument c document =
     and_then (codec_result (if get document ''profile'' = txt_lit ''spt-2'' then encodeBody c Spt2 document
       else encodeBody c Spt3 document)) (\<lambda>bs.
     and_then (validateBodyBytes c bs None) (\<lambda>_. Inr bs))"

section \<open>Authorizations to fetch a body\<close>

record BodyAuthorizationInput =
  ba_senderDid :: jstring
  ba_recipientDid :: jstring
  ba_messageId :: jstring
  ba_digest :: bytes
  ba_token :: bytes
  ba_availableUntil :: int
  ba_expiresAt :: int

definition safe_integer :: "int \<Rightarrow> bool" where
  "safe_integer i \<longleftrightarrow> - int MAX_SAFE_INTEGER \<le> i \<and> i \<le> int MAX_SAFE_INTEGER"

definition checkAuthorization :: "BodyAuthorizationInput \<Rightarrow> int \<Rightarrow> unit outcome" where
  "checkAuthorization input now =
     (if \<not> DID_PATTERN (ba_senderDid input) \<or> \<not> DID_PATTERN (ba_recipientDid input)
        \<or> ba_senderDid input = ba_recipientDid input \<or> \<not> UUID_V7_PATTERN (ba_messageId input)
        then fail_with ''Invalid body authorization parties or message ID''
      else if length (ba_digest input) \<noteq> 32 \<or> length (ba_token input) \<noteq> 32
        \<or> \<not> safe_integer (ba_availableUntil input) \<or> \<not> safe_integer (ba_expiresAt input)
        \<or> ba_availableUntil input < now + 30 * 86400 \<or> ba_expiresAt input < ba_availableUntil input
        then fail_with ''Invalid body authorization digest, token, or availability window''
      else Inr ())"

section \<open>Attachments\<close>

record HailAttachment =
  at_filename :: jstring
  at_media_type :: jstring
  at_size :: int
  at_digest :: bytes

definition read_attachment :: "hail_value \<Rightarrow> HailAttachment" where
  "read_attachment a = \<lparr>at_filename = text_of (get a ''filename''), at_media_type = text_of (get a ''media_type''),
     at_size = int_of (get a ''size''), at_digest = bytes_of (getf (get a ''digest'') ''value'')\<rparr>"

definition bodyAttachments :: "codec \<Rightarrow> bytes \<Rightarrow> HailAttachment list outcome" where
  "bodyAttachments c bs =
     and_then (validateBodyBytes c bs None) (\<lambda>profile.
     and_then (codec_result (decodeBody c profile bs)) (\<lambda>document.
       Inr (map read_attachment (list_of (get document ''attachments'')))))"

text \<open>
  The ASCII decoding of the first five bytes drops the high bit of each; the text decoder throws on
  ill-formed UTF-8.
\<close>

definition validateAttachmentBytes :: "codec \<Rightarrow> HailAttachment \<Rightarrow> bytes \<Rightarrow> unit outcome" where
  "validateAttachmentBytes c file bs =
     (if int (length bs) \<noteq> at_size file \<or> sha256 (codec_env c) bs \<noteq> at_digest file
        then fail_with ''Attachment integrity failure''
      else if at_media_type file = lit ''application/pdf'' then
        guard (map (\<lambda>b. b AND 0x7f) (take 5 bs) = ascii_bytes ''%PDF-'') ''Invalid PDF''
      else if at_media_type file = lit ''image/png'' then
        and_then (codec_result (validatePngStructure bs [])) (\<lambda>(width, height).
          guard (width \<le> 0x7fffffff \<and> height \<le> 0x7fffffff) ''Invalid PNG dimensions'')
      else if at_media_type file = lit ''image/jpeg'' then
        guard (validateJpegStructure bs) ''Invalid or unsupported JPEG structure''
      else if at_media_type file = lit ''image/webp'' then
        guard (validateWebpStructure bs) ''Invalid or unsupported WebP structure''
      else (case utf8_decode bs of
        None \<Rightarrow> Inl Rejected
      | Some s \<Rightarrow> guard (0 \<notin> set s) ''Text attachments must be UTF-8 without NUL''))"

section \<open>The profile of a body\<close>

lemma decodeBody_profile:
  assumes "decodeBody c p bs = Inr d"
  shows "get d ''profile'' = txt_lit (profile_name p)"
  using assms
  by (cases p) (auto simp: decodeBody_def decodePayload_def validatePayload_def Let_def validate_by_type_def
      validateSpt1Body_def validateSpt2Body_def validateSpt3Body_def signed_types_def)

lemma recode_same:
  assumes "cbor_library (codec_lib c)"
  shows "recode c p bs = Inr r \<longleftrightarrow> (\<exists>d. decodeBody c p bs = Inr d \<and> r = (p, bs))"
proof -
  have "encodeBody c p d = Inr bs" if "decodeBody c p bs = Inr d" for d
  proof -
    from that have "decodeDeterministic (codec_lib c) DEFAULT_HAIL_RESOURCE_LIMITS bs = Inr d"
      "validatePayload (codec_env c) (body_type p) (of_hail d) = Inr ()"
      by (auto simp: decodeBody_def decodePayload_def)
    with cbor_library.encode_of_decode [OF assms] show ?thesis
      by (auto simp: encodeBody_def encodePayload_def)
  qed
  then show ?thesis by (auto simp: recode_def)
qed

lemma decodeBody_unique: "decodeBody c p bs = Inr d \<Longrightarrow> decodeBody c q bs = Inr d' \<Longrightarrow> p = q"
proof -
  assume d: "decodeBody c p bs = Inr d" and d': "decodeBody c q bs = Inr d'"
  then have "d = d'" by (auto simp: decodeBody_def decodePayload_def)
  with decodeBody_profile [OF d] decodeBody_profile [OF d'] show "p = q" by (cases p; cases q) auto
qed

lemma first_profile_iff:
  assumes "cbor_library (codec_lib c)"
  shows "first_profile c bs = Inr (p, encoded) \<longleftrightarrow> succeeds (decodeBody c p bs) \<and> encoded = bs"
proof -
  have hit: "recode c q bs = Inr (q, bs)" if "succeeds (decodeBody c q bs)" for q
    using recode_same [OF assms] that by (auto simp: succeeds_iff)
  have miss: "\<exists>e. recode c q bs = Inl e" if "\<not> succeeds (decodeBody c q bs)" for q
    using recode_same [OF assms, of q bs] that by (cases "recode c q bs") (auto simp: succeeds_iff)
  have uniq: "succeeds (decodeBody c q bs) \<Longrightarrow> succeeds (decodeBody c r bs) \<Longrightarrow> q = r" for q r
    using decodeBody_unique by (auto simp: succeeds_iff)
  consider q where "succeeds (decodeBody c q bs)" | "\<forall>q. \<not> succeeds (decodeBody c q bs)" by blast
  then show ?thesis
  proof cases
    case 1
    then have m: "r = q \<or> (\<exists>e. recode c r bs = Inl e)" for r using uniq [OF 1] miss by blast
    have "first_profile c bs = Inr (q, bs)"
    proof (cases q)
      case Spt1
      then show ?thesis using hit [OF 1] by (simp add: first_profile_def)
    next
      case Spt2
      then obtain e where "recode c Spt1 bs = Inl e" using m [of Spt1] by auto
      then show ?thesis using hit [OF 1] Spt2 by (simp add: first_profile_def)
    next
      case Spt3
      then obtain e e' where "recode c Spt1 bs = Inl e" "recode c Spt2 bs = Inl e'" using m [of Spt1] m [of Spt2] by auto
      then show ?thesis using hit [OF 1] Spt3 by (simp add: first_profile_def)
    qed
    with 1 uniq [OF 1, of p] show ?thesis by (cases "p = q") auto
  next
    case 2
    then obtain e1 e2 e3 where "recode c Spt1 bs = Inl e1" "recode c Spt2 bs = Inl e2" "recode c Spt3 bs = Inl e3"
      using miss by meson
    with 2 show ?thesis by (simp add: first_profile_def)
  qed
qed

lemma validateBodyBytes_exact:
  assumes "cbor_library (codec_lib c)"
  shows "validateBodyBytes c bs expected = Inr p \<longleftrightarrow>
    1 \<le> length bs \<and> length bs \<le> BODY_MAX_BYTES \<and> succeeds (decodeBody c p bs) \<and> (expected = None \<or> expected = Some p)"
  using first_profile_iff [OF assms]
  by (fastforce simp: validateBodyBytes_def not_less Suc_le_eq split: if_splits)

text \<open>
  The body check decides the profile: for every CBOR library that behaves as documented, bytes
  are accepted with profile \<open>p\<close> if and only if they are within the size limit, decode and validate
  as a document of profile \<open>p\<close>, and \<open>p\<close> is the profile the envelope announces, if any. The order in
  which the three profiles are tried does not matter, and the final comparison with the
  re-encoded document never fails.
\<close>

theorem body_profile_exact:
  assumes "cbor_library (codec_lib c)"
  shows "validateBodyBytes c bs expected = Inr p \<longleftrightarrow>
    1 \<le> length bs \<and> length bs \<le> BODY_MAX_BYTES \<and> succeeds (decodeBody c p bs) \<and> (expected = None \<or> expected = Some p)"
  using assms by (rule validateBodyBytes_exact)

definition example_codec :: codec where
  "example_codec = \<lparr>codec_lib = reference_cborg, codec_env = example_env\<rparr>"

lemma example_library: "cbor_library (codec_lib example_codec)"
  using reference.cbor_library_axioms by (simp add: example_codec_def)

definition empty_document :: hail_value where
  "empty_document = HMap [(lit ''blocks'', HArray []), (lit ''profile'', HText (lit ''spt-1'')), (lit ''version'', HInt 1)]"

definition empty_body :: bytes where
  "empty_body = rfc8949 (of_hail empty_document)"

lemma validate_empty_document: "validatePayload example_env BodySpt1 (of_hail empty_document) = Inr ()"
proof -
  have "assertHailValue DEFAULT_HAIL_RESOURCE_LIMITS (of_hail empty_document) = Inr ()"
    by (rule assertHailValue_plain) (simp_all add: empty_document_def HAIL_MIN_INTEGER_def HAIL_MAX_INTEGER_def)
  then show ?thesis
    by (simp add: validatePayload_def validate_by_type_def validateSpt1Body_def signed_types_def)
      (simp add: empty_document_def get_HMap for_each_def)
qed

lemma empty_body_decodes: "decodeBody example_codec Spt1 empty_body = Inr empty_document"
proof -
  have u: "unique_keys empty_document" by (simp add: empty_document_def)
  have b: "empty_body = enc (hail_cbor (sort_members empty_document))" by (simp add: empty_body_def rfc8949_of_hail)
  have "encodePayload reference_cborg example_env BodySpt1 (of_hail empty_document) DEFAULT_HAIL_RESOURCE_LIMITS = Inr empty_body"
    unfolding reference.encodePayload_iff [OF u] b using validate_empty_document by simp
  then have "encodeDeterministic reference_cborg DEFAULT_HAIL_RESOURCE_LIMITS (of_hail empty_document) = Inr empty_body"
    by (simp add: encodePayload_def)
  moreover have "canonical empty_document = empty_document" by code_simp
  ultimately have "decodeDeterministic reference_cborg DEFAULT_HAIL_RESOURCE_LIMITS empty_body = Inr empty_document"
    using reference.decode_of_encode [OF u, of DEFAULT_HAIL_RESOURCE_LIMITS] by (simp add: default_limits MAX_SAFE_INTEGER_def)
  with validate_empty_document show ?thesis
    by (simp add: decodeBody_def decodePayload_def example_codec_def)
qed

lemma length_empty_body: "1 \<le> length empty_body" "length empty_body \<le> 1000"
proof -
  have l: "length empty_body = encodedSize empty_document"
    by (simp add: empty_body_def rfc8949_of_hail length_enc_hail)
  moreover have "bulk empty_document \<le> 1000" by (simp add: empty_document_def)
  ultimately show "length empty_body \<le> 1000" using encodedSize_le_bulk [of empty_document] by linarith
  show "1 \<le> length empty_body" unfolding l by (simp add: empty_document_def argumentSize_def)
qed

theorem body_profile_exact_witness: "validateBodyBytes example_codec empty_body (Some Spt1) = Inr Spt1"
  using empty_body_decodes length_empty_body
  by (simp add: body_profile_exact [OF example_library] BODY_MAX_BYTES_def)

end
