(* ===== verification/Conversations.thy ===== *)
theory Conversations
  imports Database BodyService
begin

text \<open>
  Who may send to whom: \<^verbatim>\<open>accounts/connection-authorization.ts\<close> (messages under a connection) and
  \<^verbatim>\<open>accounts/conversation-memberships.ts\<close> (admission to a conversation, leaving, rejoining and
  revival), with the preference lookup of \<^verbatim>\<open>accounts/conversation-preferences.ts\<close>.
\<close>

section \<open>Connections\<close>

definition connectionMessageAllowed ::
  "sql_functions \<Rightarrow> db \<Rightarrow> jstring \<Rightarrow> jstring \<Rightarrow> jstring \<Rightarrow> int \<Rightarrow> bool \<Rightarrow> bool outcome" where
  "connectionMessageAllowed fx d owner peer connection epoch acceptWhilePaused =
     (if \<not> connection_message_permission fx d owner peer connection epoch then Inr False
      else if \<not> acceptWhilePaused \<and> connection_handover_blocked fx d owner peer
        then fail_with ''Connection authorization is paused for account handover''
      else Inr True)"

text \<open>
  \<open>live\<close> asks the coordinator between two checks; the database may have changed from \<open>d\<close> to \<open>d'\<close>
  meanwhile. The coordinator is a parameter and may be absent.
\<close>

type_synonym message_state = "jstring \<Rightarrow> jstring \<Rightarrow> jstring \<Rightarrow> int \<Rightarrow> bool outcome"

definition live ::
  "sql_functions \<Rightarrow> message_state option \<Rightarrow> db \<Rightarrow> db \<Rightarrow> jstring \<Rightarrow> jstring \<Rightarrow> jstring \<Rightarrow> int \<Rightarrow> bool outcome" where
  "live fx federation d d' owner peer connection epoch =
     and_then (connectionMessageAllowed fx d owner peer connection epoch False) (\<lambda>allowed.
       if \<not> allowed then Inr False
       else (case federation of
         None \<Rightarrow> fail_with ''Connection coordinator verification is unavailable''
       | Some messageState \<Rightarrow> and_then (messageState owner peer connection epoch) (\<lambda>current.
           if \<not> current then Inr False
           else connectionMessageAllowed fx d' owner peer connection epoch False)))"

section \<open>Conversations\<close>

record HailConversation =
  conv_id :: jstring
  conv_from :: jstring
  conv_participants :: "jstring list"
  conv_created_at :: int
  conv_admission_until :: int

definition read_conversation :: "hail_value \<Rightarrow> HailConversation" where
  "read_conversation v = \<lparr>conv_id = text_of (get v ''conversation_id''), conv_from = text_of (get v ''from''),
     conv_participants = map (\<lambda>p. text_of (Some p)) (list_of (get v ''participants'')),
     conv_created_at = int_of (get v ''created_at''), conv_admission_until = int_of (get v ''admission_until'')\<rparr>"

record HailConversationRevival =
  revival_conversation :: jstring
  revival_hash :: HailDigest
  revival_from :: jstring
  revival_to :: jstring
  revival_request_id :: jstring
  revival_issued_at :: int
  revival_expires_at :: int

definition read_revival :: "hail_value \<Rightarrow> HailConversationRevival" where
  "read_revival v = \<lparr>revival_conversation = text_of (get v ''conversation_id''),
     revival_hash = read_digest (get v ''descriptor_hash''), revival_from = text_of (get v ''from''),
     revival_to = text_of (get v ''to''), revival_request_id = text_of (get v ''request_id''),
     revival_issued_at = int_of (get v ''issued_at''), revival_expires_at = int_of (get v ''expires_at'')\<rparr>"

record Owner =
  owner_account :: jstring
  owner_did :: jstring

definition lockOwner :: "db \<Rightarrow> Owner \<Rightarrow> unit outcome" where
  "lockOwner d owner = (case map_of (provider_accounts d) (owner_account owner) of
     Some row \<Rightarrow>
       if acc_did row = Some (owner_did owner) \<and> publicly_active row \<and> acc_closed_at row = None
       then assert_unfenced_account d (owner_account owner)
       else fail_with ''Current account is unavailable.''
   | None \<Rightarrow> fail_with ''Current account is unavailable.'')"

datatype conversation_status = StateActive | StateExpired | StateLeft

record ConversationState =
  cs_state :: conversation_status
  cs_expires_at :: instant
  cs_participants :: "jstring list"
  cs_can_revive :: bool
  cs_descriptor_hash :: bytes

definition membership_status :: "instant \<Rightarrow> membership_row \<Rightarrow> conversation_status" where
  "membership_status t m = (if mem_state m = MembershipLeft then StateLeft
     else if mem_expires_at m \<le> t then StateExpired else StateActive)"

definition conversationState :: "db \<Rightarrow> instant \<Rightarrow> Owner \<Rightarrow> jstring \<Rightarrow> jstring \<Rightarrow> ConversationState option" where
  "conversationState d t owner creator conversation =
     (case map_of (conversation_memberships d) (owner_account owner, creator, conversation) of
        None \<Rightarrow> None
      | Some m \<Rightarrow> (case map_of (conversation_descriptors d) (creator, conversation) of
          None \<Rightarrow> None
        | Some s \<Rightarrow> Some \<lparr>cs_state = membership_status t m, cs_expires_at = mem_expires_at m,
            cs_participants = desc_participants s, cs_can_revive = (creator = owner_did owner),
            cs_descriptor_hash = desc_hash s\<rparr>))"

definition serving_account :: "db \<Rightarrow> jstring \<Rightarrow> (jstring \<times> account_row) option" where
  "serving_account d did =
     find (\<lambda>(_, row). acc_did row = Some did \<and> publicly_active row \<and> acc_closed_at row = None) (provider_accounts d)"

definition conversationMessageAllowed ::
  "db \<Rightarrow> instant \<Rightarrow> jstring \<Rightarrow> jstring \<Rightarrow> jstring \<Rightarrow> jstring \<Rightarrow> bytes \<Rightarrow> bool \<Rightarrow> bool outcome" where
  "conversationMessageAllowed d t ownerDid senderDid creator conversation descriptorHash lock =
     (case serving_account d ownerDid of
        None \<Rightarrow> Inr False
      | Some (account, _) \<Rightarrow>
          if ownerDid = senderDid then Inr False
          else and_then (if lock then lockOwner d \<lparr>owner_account = account, owner_did = ownerDid\<rparr> else Inr ()) (\<lambda>_.
            Inr (case map_of (conversation_memberships d) (account, creator, conversation) of
                None \<Rightarrow> False
              | Some m \<Rightarrow> (case map_of (conversation_descriptors d) (creator, conversation) of
                  None \<Rightarrow> False
                | Some s \<Rightarrow> desc_hash s = descriptorHash \<and> senderDid \<in> set (desc_participants s)
                    \<and> ownerDid \<in> set (desc_participants s) \<and> mem_state m = MembershipActive \<and> t < mem_expires_at m
                    \<and> \<not> fenced_account d account))))"

definition conversationIntroductionAllowed :: "db \<Rightarrow> jstring \<Rightarrow> jstring \<Rightarrow> int \<Rightarrow> bool" where
  "conversationIntroductionAllowed d account connection epoch =
     (case map_of (connection_conversation_preferences d) (account, connection, epoch) of
        Some allow \<Rightarrow> allow
      | None \<Rightarrow> (case map_of (account_conversation_preferences d) account of Some allow \<Rightarrow> allow | None \<Rightarrow> True))"

record AdmissionProof =
  proof_signingKey :: jstring
  proof_evidence :: PlcResolutionEvidence
  proof_connection :: "(jstring \<times> int) option"

definition new_membership :: "sql_functions \<Rightarrow> instant \<Rightarrow> membership_row" where
  "new_membership fx t = \<lparr>mem_state = MembershipActive, mem_expires_at = plus_24_months fx t, mem_left_at = None,
     mem_last_activity_at = None\<rparr>"

text \<open>The introduction must come over a connection the owner has and allows introductions from.\<close>

definition introduction_permitted ::
  "sql_functions \<Rightarrow> db \<Rightarrow> Owner \<Rightarrow> HailConversation \<Rightarrow> AdmissionProof \<Rightarrow> bool outcome" where
  "introduction_permitted fx d owner c p =
     (if owner_did owner = conv_from c then Inr True
      else (case proof_connection p of
        None \<Rightarrow> Inr False
      | Some (connection, epoch) \<Rightarrow>
          and_then (connectionMessageAllowed fx d (owner_did owner) (conv_from c) connection epoch False) (\<lambda>allowed.
            Inr (allowed \<and> conversationIntroductionAllowed d (owner_account owner) connection epoch))))"

definition retain_descriptor ::
  "sql_functions \<Rightarrow> HailConversation \<Rightarrow> bytes \<Rightarrow> bytes \<Rightarrow> AdmissionProof \<Rightarrow> db \<Rightarrow> db outcome" where
  "retain_descriptor fx c digest representation p d =
     (if has_row (conversation_descriptors d) (conv_from c, conv_id c) then Inr d
      else perform fx (WriteDescriptor (conv_from c, conv_id c)) (\<lambda>d. d\<lparr>conversation_descriptors :=
        AList.update (conv_from c, conv_id c)
          \<lparr>desc_hash = digest, desc_cose = representation, desc_participants = conv_participants c,
           desc_created_at = conv_created_at c, desc_admission_until = conv_admission_until c,
           desc_signing_key = proof_signingKey p, desc_evidence = proof_evidence p\<rparr> (conversation_descriptors d)\<rparr>) d)"

definition add_membership :: "sql_functions \<Rightarrow> instant \<Rightarrow> jstring \<times> jstring \<times> jstring \<Rightarrow> db \<Rightarrow> db outcome" where
  "add_membership fx t k d =
     (if has_row (conversation_memberships d) k then (if refuses fx (WriteMembership k) d then Inl Rejected else Inr d)
      else perform fx (WriteMembership k) (\<lambda>d. d\<lparr>conversation_memberships :=
        AList.update k (new_membership fx t) (conversation_memberships d)\<rparr>) d)"

definition admitConversation ::
  "codec \<Rightarrow> sql_functions \<Rightarrow> clock \<Rightarrow> Owner \<Rightarrow> InspectedHailObject \<Rightarrow> AdmissionProof \<Rightarrow> db \<Rightarrow> (bool \<times> db) outcome" where
  "admitConversation codec fx clk owner descriptor p d =
     (let c = read_conversation (object_payload descriptor);
          digest = sha256 (codec_env codec) (object_representationBytes descriptor) in
      if object_type descriptor \<noteq> Conversation \<or> owner_did owner \<notin> set (conv_participants c) then Inr (False, d)
      else and_then (introduction_permitted fx d owner c p) (\<lambda>permitted.
        if \<not> permitted then Inr (False, d)
        else and_then (lockOwner d owner) (\<lambda>_.
          if (case map_of (conversation_descriptors d) (conv_from c, conv_id c) of
                Some s \<Rightarrow> desc_hash s \<noteq> digest | None \<Rightarrow> False)
            then fail_with ''Conversation descriptor conflicts with its original roster.''
          else if js_time (clk 1) < (conv_created_at c - 300) * 1000 \<or> (conv_admission_until c + 300) * 1000 < js_time (clk 1)
            then Inr (False, d)
          else and_then (retain_descriptor fx c digest (object_representationBytes descriptor) p d) (\<lambda>d.
              and_then (add_membership fx (clk 2) (owner_account owner, conv_from c, conv_id c) d) (\<lambda>d.
                Inr (case conversationState d (clk 3) owner (conv_from c) (conv_id c) of
                    Some s \<Rightarrow> cs_state s = StateActive | None \<Rightarrow> False, d))))))"

datatype membership_action = Open | Leave | Rejoin | Revive

definition renew_membership :: "sql_functions \<Rightarrow> instant \<Rightarrow> membership_row \<Rightarrow> membership_row" where
  "renew_membership fx t m = m\<lparr>mem_state := MembershipActive, mem_left_at := None, mem_last_activity_at := Some t,
     mem_expires_at := plus_24_months fx t\<rparr>"

definition leave_membership :: "instant \<Rightarrow> membership_row \<Rightarrow> membership_row" where
  "leave_membership t m = m\<lparr>mem_state := MembershipLeft, mem_left_at := (case mem_left_at m of None \<Rightarrow> Some t | Some u \<Rightarrow> Some u)\<rparr>"

text \<open>\<open>last_activity_at < clock_timestamp() - interval '1 hour'\<close>, or no activity yet.\<close>

definition idle_hour :: "instant \<Rightarrow> membership_row \<Rightarrow> bool" where
  "idle_hour t m \<longleftrightarrow> (case mem_last_activity_at m of None \<Rightarrow> True | Some u \<Rightarrow> u < t - 3600000000)"

definition update_membership ::
  "sql_functions \<Rightarrow> jstring \<times> jstring \<times> jstring \<Rightarrow> (membership_row \<Rightarrow> bool) \<Rightarrow> (membership_row \<Rightarrow> membership_row) \<Rightarrow> db \<Rightarrow> db outcome" where
  "update_membership fx k where_clause f d = (case map_of (conversation_memberships d) k of
     Some m \<Rightarrow> if where_clause m then perform fx (WriteMembership k) (\<lambda>d. d\<lparr>conversation_memberships :=
         AList.update k (f m) (conversation_memberships d)\<rparr>) d else Inr d
   | None \<Rightarrow> Inr d)"

definition changeConversationMembership ::
  "sql_functions \<Rightarrow> clock \<Rightarrow> Owner \<Rightarrow> jstring \<Rightarrow> jstring \<Rightarrow> membership_action \<Rightarrow> db \<Rightarrow> (ConversationState option \<times> db) outcome" where
  "changeConversationMembership fx clk owner creator conversation action d =
     and_then (lockOwner d owner) (\<lambda>_.
       (case conversationState d (clk 1) owner creator conversation of
          None \<Rightarrow> fail_with ''Conversation unavailable.''
        | Some current \<Rightarrow>
            let k = (owner_account owner, creator, conversation) in
            if action = Rejoin \<and> cs_state current \<noteq> StateLeft
              then fail_with ''Only a conversation you left can be rejoined. Expired participation requires creator revival.''
            else if action = Revive \<and> (owner_did owner \<noteq> creator \<or> cs_state current \<noteq> StateExpired)
              then fail_with ''Only the creator can revive expired participation.''
            else and_then
              (if action = Leave then update_membership fx k (\<lambda>_. True) (leave_membership (clk 2)) d
               else if action = Rejoin \<or> action = Revive \<or> cs_state current = StateActive
                 then update_membership fx k (\<lambda>m. action = Rejoin \<or> action = Revive \<or> idle_hour (clk 3) m)
                   (renew_membership fx (clk 2)) d
               else Inr d) (\<lambda>d.
              Inr (conversationState d (clk 4) owner creator conversation, d))))"

text \<open>The signing key of a descriptor was stored as a \<open>did:key\<close>; reading it is a parameter.\<close>

record crypto =
  subtle :: SubtleCrypto
  ed25519PublicKeyFromDidKey :: "jstring \<Rightarrow> CryptoKey result"

definition revival_outcome :: "conversation_status \<Rightarrow> bool \<Rightarrow> string" where
  "revival_outcome state permitted =
     (if state = StateLeft then ''left'' else if state = StateActive then ''active''
      else if permitted then ''renewed'' else ''denied'')"

definition record_revival ::
  "sql_functions \<Rightarrow> instant \<Rightarrow> jstring \<Rightarrow> HailConversationRevival \<Rightarrow> bytes \<Rightarrow> string \<Rightarrow> db \<Rightarrow> (string \<times> db) outcome" where
  "record_revival fx t account r digest result d =
     and_then
       (if result = ''renewed''
        then update_membership fx (account, revival_from r, revival_conversation r) (\<lambda>_. True)
          (\<lambda>m. m\<lparr>mem_expires_at := plus_24_months fx t, mem_last_activity_at := None\<rparr>) d
        else Inr d) (\<lambda>d.
     and_then (insert_new fx (WriteReceipt (account, revival_from r, revival_request_id r))
         (has_row (conversation_revival_receipts d) (account, revival_from r, revival_request_id r))
         (\<lambda>d. d\<lparr>conversation_revival_receipts := AList.update (account, revival_from r, revival_request_id r)
            \<lparr>rcpt_conversation = revival_conversation r, rcpt_hash = digest, rcpt_outcome = result,
             rcpt_expires_at = revival_expires_at r + 300\<rparr> (conversation_revival_receipts d)\<rparr>) d) (\<lambda>d.
       Inr (result, d)))"

definition verify_descriptor :: "codec \<Rightarrow> crypto \<Rightarrow> descriptor_row \<Rightarrow> InspectedHailObject \<Rightarrow> unit outcome" where
  "verify_descriptor codec crypto s request =
     codec_result (and_then (verifySignedPayload (codec_lib codec) (codec_env codec) Conversation (desc_cose s)
         (createWebCryptoVerifier (\<lambda>_. ed25519PublicKeyFromDidKey crypto (desc_signing_key s)) (subtle crypto))) (\<lambda>verified.
       validateConversationRevivalBinding (codec_env codec) verified request))"

definition reviveConversation ::
  "codec \<Rightarrow> crypto \<Rightarrow> sql_functions \<Rightarrow> clock \<Rightarrow> Owner \<Rightarrow> InspectedHailObject \<Rightarrow> jstring \<Rightarrow> int \<Rightarrow> db \<Rightarrow> (string \<times> db) outcome" where
  "reviveConversation codec crypto fx clk owner request connection epoch d =
     (let r = read_revival (object_payload request);
          k = (owner_account owner, revival_from r, revival_conversation r);
          digest = sha256 (codec_env codec) (object_representationBytes request);
          now = js_time (clk 1) in
      if object_type request \<noteq> ConversationRevival \<or> revival_to r \<noteq> owner_did owner then fail_with ''Connection not changed. Check the original approval before retrying.''
      else and_then (connectionMessageAllowed fx d (owner_did owner) (revival_from r) connection epoch False) (\<lambda>connected.
        and_then (lockOwner d owner) (\<lambda>_.
          (case map_of (conversation_descriptors d) (revival_from r, revival_conversation r) of
             None \<Rightarrow> fail_with ''Unknown conversation cannot be revived.''
           | Some s \<Rightarrow> (case conversationState d (clk 2) owner (revival_from r) (revival_conversation r) of
             None \<Rightarrow> fail_with ''Unknown conversation cannot be revived.''
           | Some state \<Rightarrow>
               and_then (verify_descriptor codec crypto s request) (\<lambda>_.
                 (case map_of (conversation_revival_receipts d) (owner_account owner, revival_from r, revival_request_id r) of
                    Some prior \<Rightarrow> if rcpt_hash prior \<noteq> digest then fail_with ''Revival request ID conflict.''
                      else Inr (rcpt_outcome prior, d)
                  | None \<Rightarrow>
                      if now < (revival_issued_at r - 300) * 1000 \<or> (revival_expires_at r + 300) * 1000 < now
                        then fail_with ''Revival request expired or is not yet valid.''
                      else record_revival fx (clk 3) (owner_account owner) r digest
                        (revival_outcome (cs_state state)
                          (connected \<and> conversationIntroductionAllowed d (owner_account owner) connection epoch)) d)))))))"

section \<open>Leaving is final for remote requests\<close>

lemma retain_descriptor_frame:
  "retain_descriptor fx c h r p d = Inr d' \<Longrightarrow> conversation_memberships d' = conversation_memberships d"
  by (auto simp: retain_descriptor_def split: if_splits)

lemma add_membership_keeps:
  assumes "add_membership fx t k d = Inr d'" and "map_of (conversation_memberships d) k' = Some m"
  shows "map_of (conversation_memberships d') k' = Some m"
  using assms by (auto simp: add_membership_def has_row_def split: if_splits)

lemma admitConversation_keeps:
  assumes "admitConversation codec fx clk owner descriptor p d = Inr (r, d')"
    and "map_of (conversation_memberships d) k = Some m"
  shows "map_of (conversation_memberships d') k = Some m"
proof (cases "d' = d")
  case False
  then obtain c h e dm t k' where "retain_descriptor fx c h e p d = Inr dm" "add_membership fx t k' dm = Inr d'"
    using assms(1) by (fastforce simp: admitConversation_def Let_def split: if_splits)
  then show ?thesis using add_membership_keeps retain_descriptor_frame assms(2) by metis
qed (use assms(2) in auto)

lemma record_revival_keeps:
  assumes "record_revival fx t account r h (revival_outcome (cs_state s) ok) d = Inr (result, d')"
    and "conversationState d u \<lparr>owner_account = account, owner_did = did\<rparr> (revival_from r) (revival_conversation r) = Some s"
    and "map_of (conversation_memberships d) k = Some m" and "mem_state m = MembershipLeft"
  shows "map_of (conversation_memberships d') k = Some m"
proof -
  let ?k = "(account, revival_from r, revival_conversation r)"
  obtain dm where dm: "(if revival_outcome (cs_state s) ok = ''renewed''
        then update_membership fx ?k (\<lambda>_. True) (\<lambda>m. m\<lparr>mem_expires_at := plus_24_months fx t, mem_last_activity_at := None\<rparr>) d
        else Inr d) = Inr dm" and same: "conversation_memberships d' = conversation_memberships dm"
    using assms(1) by (auto simp: record_revival_def)
  have "k \<noteq> ?k" if "cs_state s \<noteq> StateLeft"
    using that assms(2-4) by (auto simp: conversationState_def membership_status_def split: option.splits if_splits)
  with dm assms(3) have "map_of (conversation_memberships dm) k = Some m"
    by (auto simp: revival_outcome_def update_membership_def split: if_splits option.splits)
  then show ?thesis by (simp add: same)
qed

lemma reviveConversation_cases:
  assumes "reviveConversation codec crypto fx clk owner request connection epoch d = Inr (result, d')"
  obtains (replay) prior r where "r = read_revival (object_payload request)"
      "map_of (conversation_revival_receipts d) (owner_account owner, revival_from r, revival_request_id r) = Some prior"
      "rcpt_hash prior = sha256 (codec_env codec) (object_representationBytes request)"
      "result = rcpt_outcome prior" "d' = d"
    | (fresh) r s ok where "r = read_revival (object_payload request)"
      "conversationState d (clk 2) owner (revival_from r) (revival_conversation r) = Some s"
      "record_revival fx (clk 3) (owner_account owner) r (sha256 (codec_env codec) (object_representationBytes request))
         (revival_outcome (cs_state s) ok) d = Inr (result, d')"
  using assms by (auto simp: reviveConversation_def Let_def split: option.splits)

lemma reviveConversation_keeps:
  assumes "reviveConversation codec crypto fx clk owner request connection epoch d = Inr (result, d')"
    and "map_of (conversation_memberships d) k = Some m" and "mem_state m = MembershipLeft"
  shows "map_of (conversation_memberships d') k = Some m"
  using assms(1)
proof (cases rule: reviveConversation_cases)
  case (fresh r s ok)
  from fresh(2) have "conversationState d (clk 2) \<lparr>owner_account = owner_account owner, owner_did = owner_did owner\<rparr>
      (revival_from r) (revival_conversation r) = Some s"
    by (auto simp: conversationState_def split: option.splits)
  from record_revival_keeps [OF fresh(3) this assms(2,3)] show ?thesis .
qed (use assms(2) in simp)

text \<open>What other providers can ask for: admissions and revivals, in any order.\<close>

inductive remote_request :: "codec \<Rightarrow> crypto \<Rightarrow> sql_functions \<Rightarrow> db \<Rightarrow> db \<Rightarrow> bool"
  for codec crypto fx where
  admission: "admitConversation codec fx clk owner descriptor p d = Inr (r, d') \<Longrightarrow> remote_request codec crypto fx d d'"
| revival: "reviveConversation codec crypto fx clk owner request connection epoch d = Inr (result, d') \<Longrightarrow>
    remote_request codec crypto fx d d'"

lemma remote_request_keeps:
  assumes "remote_request codec crypto fx d d'" and "map_of (conversation_memberships d) k = Some m"
    and "mem_state m = MembershipLeft"
  shows "map_of (conversation_memberships d') k = Some m"
  using assms by cases (auto dest: admitConversation_keeps reviveConversation_keeps)

lemma left_blocks_messages:
  assumes "map_of (conversation_memberships d) (account, creator, conversation) = Some m" and "mem_state m = MembershipLeft"
    and "serving_account d did = Some (account, row)"
  shows "conversationMessageAllowed d t did sender creator conversation h lock \<noteq> Inr True"
  using assms by (auto simp: conversationMessageAllowed_def split: if_splits option.splits)

lemma remote_requests_keep:
  assumes "(remote_request codec crypto fx)\<^sup>*\<^sup>* d d'" and "map_of (conversation_memberships d) k = Some m"
    and "mem_state m = MembershipLeft"
  shows "map_of (conversation_memberships d') k = Some m"
  using assms by (induction rule: rtranclp_induct) (auto dest: remote_request_keeps)

text \<open>
  C12. Leaving a conversation is final until the member rejoins: whatever admissions and revivals
  other providers request, in any number and order and at any time, the row of a member who left
  stays as it is, and no message of the conversation is permitted to that member.
\<close>

theorem departure_is_final:
  assumes "(remote_request codec crypto fx)\<^sup>*\<^sup>* d d'"
    and "map_of (conversation_memberships d) (account, creator, conversation) = Some m" and "mem_state m = MembershipLeft"
    and "serving_account d' did = Some (account, row)"
  shows "map_of (conversation_memberships d') (account, creator, conversation) = Some m
    \<and> conversationMessageAllowed d' t did sender creator conversation h lock \<noteq> Inr True"
  using remote_requests_keep [OF assms(1-3)] left_blocks_messages [OF _ assms(3,4)] assms(3) by blast

lemma revival_repeated:
  assumes "reviveConversation codec crypto fx clk owner request connection epoch d = Inr (result, d')"
    and "reviveConversation codec crypto fx' clk' owner request connection' epoch' d' = Inr (result', d'')"
  shows "result' = result \<and> d'' = d'"
proof -
  let ?r = "read_revival (object_payload request)"
  have "\<exists>prior. map_of (conversation_revival_receipts d') (owner_account owner, revival_from ?r, revival_request_id ?r) = Some prior
    \<and> rcpt_outcome prior = result"
    using assms(1)
    by (cases rule: reviveConversation_cases) (auto simp: record_revival_def update_membership_def split: if_splits option.splits)
  then obtain prior where p: "map_of (conversation_revival_receipts d') (owner_account owner, revival_from ?r, revival_request_id ?r) = Some prior"
    "rcpt_outcome prior = result" by blast
  from assms(2) show ?thesis
    by (cases rule: reviveConversation_cases) (use p in \<open>auto simp: record_revival_def has_row_def update_membership_def split: if_splits option.splits\<close>)
qed

text \<open>
  A revival request takes effect at most once: after a request was answered, the same request
  is answered the same way again or refused, at any time and over any connection, and changes nothing.
\<close>

theorem revival_once:
  "case reviveConversation codec crypto fx clk owner request connection epoch d of
     Inl _ \<Rightarrow> True
   | Inr (result, d') \<Rightarrow>
       (case reviveConversation codec crypto fx' clk' owner request connection' epoch' d' of
          Inl _ \<Rightarrow> True
        | Inr (result', d'') \<Rightarrow> result' = result \<and> d'' = d')"
  by (auto split: sum.split dest: revival_repeated)

section \<open>Examples\<close>

definition no_evidence :: PlcResolutionEvidence where
  "no_evidence = \<lparr>evidence_document = lit ''{}'', evidence_data = lit ''{}'', evidence_log = []\<rparr>"

definition alice_account :: account_row where
  "alice_account = \<lparr>acc_did = Some alice, acc_onboarding_state = ''active'', acc_verification_mode = Some ''public'', acc_closed_at = None\<rparr>"

definition roster :: hail_value where
  "roster = HMap [(lit ''conversation_id'', HText message_1), (lit ''from'', HText alice), (lit ''created_at'', HInt 1000),
     (lit ''admission_until'', HInt 2000), (lit ''participants'', HArray [HText alice, HText bob])]"

definition roster_object :: InspectedHailObject where
  "roster_object = \<lparr>object_type = Conversation, object_keyId = lit '''', object_payload = roster,
     object_payloadBytes = [], object_representationBytes = []\<rparr>"

definition left_row :: membership_row where
  "left_row = \<lparr>mem_state = MembershipLeft, mem_expires_at = 5000000000, mem_left_at = Some 1, mem_last_activity_at = None\<rparr>"

definition left_db :: db where
  "left_db = empty_db\<lparr>provider_accounts := [(lit ''a'', alice_account)],
     conversation_memberships := [((lit ''a'', alice, message_1), left_row)]\<rparr>"

definition admitted_db :: db where
  "admitted_db = left_db\<lparr>conversation_descriptors := [((alice, message_1),
     \<lparr>desc_hash = sha256 example_env [], desc_cose = [], desc_participants = [alice, bob], desc_created_at = 1000,
      desc_admission_until = 2000, desc_signing_key = lit ''k'', desc_evidence = no_evidence\<rparr>)]\<rparr>"

definition alice_owner :: Owner where
  "alice_owner = \<lparr>owner_account = lit ''a'', owner_did = alice\<rparr>"

lemma roster_admission:
  "admitConversation example_codec open_functions (\<lambda>_. 1500000000) alice_owner roster_object
     \<lparr>proof_signingKey = lit ''k'', proof_evidence = no_evidence, proof_connection = None\<rparr> left_db = Inr (False, admitted_db)"
  by (simp add: admitConversation_def Let_def roster_object_def roster_def read_conversation_def get_HMap
      alice_owner_def introduction_permitted_def lockOwner_def left_db_def empty_db_def alice_account_def publicly_active_def
      assert_unfenced_account_def fenced_did_def has_row_def js_time_def retain_descriptor_def perform_def open_functions_def
      add_membership_def conversationState_def membership_status_def left_row_def admitted_db_def example_codec_def)

theorem departure_is_final_witness:
  "conversationMessageAllowed admitted_db 1600000000 alice bob alice message_1 (sha256 example_env []) True \<noteq> Inr True"
proof -
  have "remote_request example_codec undefined open_functions left_db admitted_db"
    by (rule admission [OF roster_admission])
  then have "(remote_request example_codec undefined open_functions)\<^sup>*\<^sup>* left_db admitted_db" by blast
  moreover have "map_of (conversation_memberships left_db) (lit ''a'', alice, message_1) = Some left_row"
    and "serving_account admitted_db alice = Some (lit ''a'', alice_account)" and "mem_state left_row = MembershipLeft"
    by (simp_all add: left_db_def admitted_db_def serving_account_def alice_account_def publicly_active_def left_row_def)
  ultimately show ?thesis using departure_is_final by blast
qed

end
