(* ===== verification/Delivery.thy ===== *)
theory Delivery
  imports Complex_Main Conversations
begin

text \<open>
  \<^verbatim>\<open>apps/server/src/delivery/repository.ts\<close> and \<open>worker.ts\<close>: the queue of accepted envelopes whose
  bodies have to be fetched, leases on its entries, and the transactions that end or postpone a
  delivery. Each operation is a transaction on the database: it returns its result with the next
  database, or throws, and then the database stays as it was.
\<close>

section \<open>Claims\<close>

record DeliveryClaim =
  claim_sender :: jstring
  claim_message :: jstring
  claim_lease :: jstring
  claim_attempts :: nat
  claim_envelope :: HailEnvelope

definition claim_key :: "DeliveryClaim \<Rightarrow> message_key" where
  "claim_key c = (claim_sender c, claim_message c)"

definition deliveryDeadline :: "HailEnvelope \<Rightarrow> int" where
  "deliveryDeadline e = min (env_expires_at e + 300)
     (min (available_until (env_body e)) (access_expires_at (env_body e)))"

definition open_state :: "HailDeliveryState \<Rightarrow> bool" where
  "open_state s \<longleftrightarrow> s = Accepted \<or> s = OnHold"

definition running :: "instant \<Rightarrow> work_row \<Rightarrow> bool" where
  "running now w \<longleftrightarrow> open_state (work_state w) \<and> (case lease_expires_at w of None \<Rightarrow> False | Some t \<Rightarrow> now < t)"

definition due :: "instant \<Rightarrow> work_row \<Rightarrow> bool" where
  "due now w \<longleftrightarrow> open_state (work_state w) \<and> next_attempt_at w \<le> now
     \<and> (case lease_expires_at w of None \<Rightarrow> True | Some t \<Rightarrow> t \<le> now)"

definition recipient_of :: "db \<Rightarrow> message_key \<Rightarrow> jstring option" where
  "recipient_of d k = map_option rcv_recipient (map_of (received_envelopes d) k)"

definition running_of_sender :: "db \<Rightarrow> instant \<Rightarrow> jstring \<Rightarrow> (message_key \<times> work_row) list" where
  "running_of_sender d now sender = filter (\<lambda>(k, w). fst k = sender \<and> running now w) (delivery_work d)"

definition running_to_recipient :: "db \<Rightarrow> instant \<Rightarrow> jstring \<Rightarrow> (message_key \<times> work_row) list" where
  "running_to_recipient d now recipient =
     filter (\<lambda>(k, w). recipient_of d k = Some recipient \<and> running now w) (delivery_work d)"

text \<open>The \<open>WHERE\<close> clause of the claim: due, not fenced, and within the limits of one running attempt
  per sender and two per recipient. A row another transaction holds is skipped (\<open>locked\<close>).\<close>

definition claimable :: "db \<Rightarrow> instant \<Rightarrow> (message_key \<Rightarrow> bool) \<Rightarrow> message_key \<times> work_row \<Rightarrow> bool" where
  "claimable d now locked = (\<lambda>(k, w).
     (case map_of (received_envelopes d) k of
        None \<Rightarrow> False
      | Some r \<Rightarrow> due now w \<and> \<not> locked k \<and> \<not> fenced_did d (rcv_recipient r)
          \<and> running_of_sender d now (fst k) = []
          \<and> length (running_to_recipient d now (rcv_recipient r)) < 2))"

text \<open>The \<open>ORDER BY\<close> clause: least recently served recipient, then sender, then the due time.
  \<open>None\<close> is the least element of an option, as \<open>NULLS FIRST\<close> asks.\<close>

definition claim_order :: "db \<Rightarrow> message_key \<times> work_row \<Rightarrow> instant option \<times> instant option \<times> instant \<times> jstring" where
  "claim_order d = (\<lambda>(k, w).
     (map_of (delivery_scheduling d) (RecipientScope, case recipient_of d k of None \<Rightarrow> [] | Some r \<Rightarrow> r),
      map_of (delivery_scheduling d) (SenderScope, fst k), next_attempt_at w, snd k))"

fun first_by :: "('a \<Rightarrow> 'b::linorder) \<Rightarrow> 'a list \<Rightarrow> 'a option" where
  "first_by f [] = None"
| "first_by f (x # xs) = (case first_by f xs of None \<Rightarrow> Some x | Some y \<Rightarrow> if f y < f x then Some y else Some x)"

lemma first_by_mem: "first_by f xs = Some x \<Longrightarrow> x \<in> set xs"
  by (induction xs arbitrary: x) (auto split: option.splits if_splits)

definition update_work :: "message_key \<Rightarrow> (work_row \<Rightarrow> work_row) \<Rightarrow> db \<Rightarrow> db" where
  "update_work k f d = (case map_of (delivery_work d) k of
     None \<Rightarrow> d
   | Some w \<Rightarrow> d\<lparr>delivery_work := AList.update k (f w) (delivery_work d)\<rparr>)"

definition claimDue ::
  "codec \<Rightarrow> sql_functions \<Rightarrow> clock \<Rightarrow> (message_key \<Rightarrow> bool) \<Rightarrow> jstring \<Rightarrow> int \<Rightarrow> db \<Rightarrow> (DeliveryClaim option \<times> db) outcome" where
  "claimDue codec fx clk locked leaseToken leaseSeconds d =
     (case first_by (claim_order d) (filter (claimable d (clk 0) locked) (delivery_work d)) of
        None \<Rightarrow> Inr (None, d)
      | Some (k, w) \<Rightarrow> (case map_of (received_envelopes d) k of
          None \<Rightarrow> Inr (None, d)
        | Some r \<Rightarrow>
            and_then (inspectEnvelope codec (rcv_cose r)) (\<lambda>envelope.
              if env_from envelope \<noteq> fst k \<or> env_message_id envelope \<noteq> snd k
                then fail_with ''Persisted envelope does not match delivery work''
              else and_then (perform fx (WriteWork k) (update_work k (\<lambda>w. w\<lparr>lease_token := Some leaseToken,
                  lease_expires_at := Some (clk 0 + leaseSeconds * 1000000), attempt_count := attempt_count w + 1\<rparr>)) d) (\<lambda>d.
                Inr (Some \<lparr>claim_sender = fst k, claim_message = snd k, claim_lease = leaseToken,
                      claim_attempts = attempt_count w + 1, claim_envelope = envelope\<rparr>,
                  d\<lparr>delivery_scheduling := AList.update (RecipientScope, rcv_recipient r) (clk 1)
                      (AList.update (SenderScope, fst k) (clk 1) (delivery_scheduling d))\<rparr>)))))"

section \<open>Ending and postponing a delivery\<close>

definition lockClaim :: "db \<Rightarrow> DeliveryClaim \<Rightarrow> bool" where
  "lockClaim d c = (case map_of (delivery_work d) (claim_key c) of
     None \<Rightarrow> False
   | Some w \<Rightarrow> lease_token w = Some (claim_lease c) \<and> open_state (work_state w))"

definition settle_capability :: "sql_functions \<Rightarrow> instant \<Rightarrow> DeliveryClaim \<Rightarrow> HailDeliveryState \<Rightarrow> db \<Rightarrow> db outcome" where
  "settle_capability fx t c state d = (case env_authorization (claim_envelope c) of
     ReplyAuthorization replyTo \<Rightarrow>
       let k = (env_to (claim_envelope c), replyTo) in
       (case map_of (reply_capabilities d) k of
          None \<Rightarrow> fail_with ''Delivery claim does not own the reply capability''
        | Some cap \<Rightarrow>
            if cap_state cap \<noteq> Claimed \<or> cap_claimed cap \<noteq> Some (claim_key c)
              then fail_with ''Delivery claim does not own the reply capability''
            else perform fx (WriteCapability k) (\<lambda>d. d\<lparr>reply_capabilities := AList.update k
              (if state = Delivered then cap\<lparr>cap_state := Consumed, cap_updated_at := t\<rparr>
               else cap\<lparr>cap_state := Available, cap_claimed := None, cap_updated_at := t\<rparr>) (reply_capabilities d)\<rparr>) d)
   | _ \<Rightarrow> Inr d)"

definition new_publication :: "instant \<Rightarrow> publication_row" where
  "new_publication now = \<lparr>pub_state = Pending, pub_attempts = 0, pub_next_attempt_at = now, pub_lease = None,
     pub_lease_expires_at = None, pub_http_status = None, pub_error = None, pub_acknowledged_at = None, pub_updated_at = now\<rparr>"

definition finish ::
  "sql_functions \<Rightarrow> clock \<Rightarrow> DeliveryClaim \<Rightarrow> HailDeliveryState \<Rightarrow> string option \<Rightarrow> db \<Rightarrow> db outcome" where
  "finish fx clk c state reason d =
     and_then (settle_capability fx (clk 1) c state d) (\<lambda>d.
     and_then (perform fx (WriteWork (claim_key c)) (update_work (claim_key c) (\<lambda>w. w\<lparr>work_state := state,
         work_reason := reason, status_revision := status_revision w + 1, lease_token := None,
         lease_expires_at := None, transitioned_at := clk 2\<rparr>)) d) (\<lambda>d.
       insert_new fx (WritePublication (claim_key c)) (has_row (terminal_status_publications d) (claim_key c))
         (\<lambda>d. d\<lparr>terminal_status_publications :=
            AList.update (claim_key c) (new_publication (clk 0)) (terminal_status_publications d)\<rparr>) d))"

definition fail_delivery :: "sql_functions \<Rightarrow> clock \<Rightarrow> DeliveryClaim \<Rightarrow> string \<Rightarrow> db \<Rightarrow> (unit \<times> db) outcome" where
  "fail_delivery fx clk c reason d =
     (if \<not> lockClaim d c then Inr ((), d)
      else and_then (finish fx (later 1 clk) c Failed
          (Some (if past (clk 1) (deliveryDeadline (claim_envelope c)) then ''delivery-expired'' else reason)) d) (\<lambda>d.
        Inr ((), d)))"

definition cancel :: "sql_functions \<Rightarrow> clock \<Rightarrow> DeliveryClaim \<Rightarrow> string \<Rightarrow> db \<Rightarrow> (unit \<times> db) outcome" where
  "cancel fx clk c reason d =
     (if \<not> lockClaim d c then Inr ((), d)
      else and_then (finish fx clk c Cancelled (Some reason) d) (\<lambda>d. Inr ((), d)))"

definition hold :: "sql_functions \<Rightarrow> clock \<Rightarrow> DeliveryClaim \<Rightarrow> string \<Rightarrow> int \<Rightarrow> db \<Rightarrow> (unit \<times> db) outcome" where
  "hold fx clk c reason retryAt d =
     (if \<not> lockClaim d c then Inr ((), d)
      else if past (clk 1) (deliveryDeadline (claim_envelope c)) then
        and_then (finish fx (later 1 clk) c Failed (Some ''delivery-expired'') d) (\<lambda>d. Inr ((), d))
      else and_then (perform fx (WriteWork (claim_key c)) (update_work (claim_key c) (\<lambda>w. w\<lparr>work_state := OnHold,
          work_reason := Some reason, status_revision := status_revision w + 1, next_attempt_at := retryAt * 1000,
          lease_token := None, lease_expires_at := None, transitioned_at := clk 2\<rparr>)) d) (\<lambda>d. Inr ((), d)))"

section \<open>Delivering\<close>

text \<open>
  Storing a verified body: the row that says from whom the recipient obtained it, and its bytes,
  shared between rows by digest (the trigger \<open>hail_store_received_body\<close>).
\<close>

definition store_body :: "codec \<Rightarrow> sql_functions \<Rightarrow> provenance_key \<Rightarrow> bytes \<Rightarrow> db \<Rightarrow> db outcome" where
  "store_body codec fx p bs d =
     (let digest = fst (snd (snd p)) in
      if refuses fx (WriteProvenance p) d then Inl Rejected
      else if length bs < 1 \<or> BODY_MAX_BYTES < length bs \<or> bodyDigest codec bs \<noteq> digest
        then fail_with ''Verified body size or digest mismatch''
      else if (case map_of (shared_content_blobs d) digest of None \<Rightarrow> False | Some old \<Rightarrow> old \<noteq> bs)
        then fail_with ''Shared body conflicts with exact bytes''
      else Inr (d\<lparr>shared_content_blobs := AList.update digest bs (shared_content_blobs d),
        verified_body_provenance := List.insert p (verified_body_provenance d)\<rparr>))"

definition storeAttachment :: "bytes \<Rightarrow> bytes \<Rightarrow> db \<Rightarrow> db outcome" where
  "storeAttachment digest bs d =
     (if (case map_of (attachment_blobs d) digest of None \<Rightarrow> False | Some old \<Rightarrow> old \<noteq> bs)
        then fail_with ''Attachment digest collision''
      else Inr (d\<lparr>attachment_blobs := AList.update digest bs (attachment_blobs d)\<rparr>))"

fun store_files :: "sql_functions \<Rightarrow> provenance_key \<Rightarrow> (HailAttachment \<times> bytes) list \<Rightarrow> db \<Rightarrow> db outcome" where
  "store_files fx p [] d = Inr d"
| "store_files fx p ((file, bs) # rest) d =
     and_then (storeAttachment (at_digest file) bs d) (\<lambda>d.
     and_then (perform fx (WriteAttachmentRef p) (\<lambda>d. d\<lparr>received_attachment_refs :=
         List.insert (p, at_digest file) (received_attachment_refs d)\<rparr>) d) (\<lambda>d.
       store_files fx p rest d))"

fun check_files :: "codec \<Rightarrow> (HailAttachment \<times> bytes) list \<Rightarrow> unit outcome" where
  "check_files codec [] = Inr ()"
| "check_files codec ((file, bs) # rest) = and_then (validateAttachmentBytes codec file bs) (\<lambda>_. check_files codec rest)"

definition authorizeConnection ::
  "sql_functions \<Rightarrow> message_state option option \<Rightarrow> instant \<Rightarrow> db \<Rightarrow> db \<Rightarrow> DeliveryClaim \<Rightarrow> bool outcome" where
  "authorizeConnection fx connections t d d' c =
     (let e = claim_envelope c in
      case env_authorization e of
        ConversationAuthorization creator conversation h \<Rightarrow>
          conversationMessageAllowed d t (env_to e) (env_from e) creator conversation (digest_value h) False
      | ConnectionAuthorization connection epoch \<Rightarrow> (case connections of
          None \<Rightarrow> fail_with ''Connection authorization is unavailable''
        | Some federation \<Rightarrow> live fx federation d d' (env_to e) (env_from e) connection epoch)
      | _ \<Rightarrow> Inr True)"

datatype deliver_result = DeliverDelivered | DeliverExpired | DeliverLostLease | DeliverUnauthorized

text \<open>The permission is asked once more inside the transaction.\<close>

definition still_authorized :: "sql_functions \<Rightarrow> instant \<Rightarrow> db \<Rightarrow> HailEnvelope \<Rightarrow> bool \<Rightarrow> bool outcome" where
  "still_authorized fx t d e authorized = (case env_authorization e of
     ConnectionAuthorization connection epoch \<Rightarrow>
       if \<not> authorized then Inr False
       else connectionMessageAllowed fx d (env_to e) (env_from e) connection epoch False
   | ConversationAuthorization creator conversation h \<Rightarrow>
       if \<not> authorized then Inr False
       else conversationMessageAllowed d t (env_to e) (env_from e) creator conversation (digest_value h) True
   | _ \<Rightarrow> Inr True)"

definition body_key :: "HailEnvelope \<Rightarrow> provenance_key" where
  "body_key e = (env_to e, env_from e, digest_value (body_digest (env_body e)), body_profile_of (env_body e))"

definition insert_delivered :: "sql_functions \<Rightarrow> HailEnvelope \<Rightarrow> db \<Rightarrow> db outcome" where
  "insert_delivered fx e d =
     (let k = (env_from e, env_message_id e) in
      case map_of (received_envelopes d) k of
        None \<Rightarrow> Inr d
      | Some r \<Rightarrow> insert_new fx (WriteDelivered k) (has_row (delivered_messages d) k) (\<lambda>d. d\<lparr>delivered_messages :=
          AList.update k \<lparr>dlv_recipient = env_to e, dlv_envelope_digest = rcv_envelope_digest r,
            dlv_body_digest = digest_value (body_digest (env_body e)), dlv_profile = body_profile_of (env_body e),
            dlv_trashed_at = None\<rparr> (delivered_messages d)\<rparr>) d)"

definition deliver_body ::
  "codec \<Rightarrow> sql_functions \<Rightarrow> clock \<Rightarrow> DeliveryClaim \<Rightarrow> bytes \<Rightarrow> (HailAttachment \<times> bytes) list \<Rightarrow> db \<Rightarrow> (deliver_result \<times> db) outcome" where
  "deliver_body codec fx clk c bs files d =
     (let e = claim_envelope c in
      and_then (store_body codec fx (body_key e) bs d) (\<lambda>d.
      and_then (store_files fx (body_key e) files d) (\<lambda>d.
        if body_key e \<notin> set (verified_body_provenance d)
            \<or> map_of (shared_content_blobs d) (digest_value (body_digest (env_body e))) \<noteq> Some bs
          then fail_with ''Verified-body provenance conflicts with exact bytes''
        else if past (clk 3) (deliveryDeadline e) then
          and_then (finish fx (later 3 clk) c Failed (Some ''delivery-expired'') d) (\<lambda>d. Inr (DeliverExpired, d))
        else and_then (insert_delivered fx e d) (\<lambda>d.
          and_then (finish fx (later 3 clk) c Delivered None d) (\<lambda>d. Inr (DeliverDelivered, d))))))"

definition deliver_transaction ::
  "codec \<Rightarrow> sql_functions \<Rightarrow> clock \<Rightarrow> DeliveryClaim \<Rightarrow> bytes \<Rightarrow> (HailAttachment \<times> bytes) list \<Rightarrow> bool \<Rightarrow> db \<Rightarrow> (deliver_result \<times> db) outcome" where
  "deliver_transaction codec fx clk c bs files authorized d =
     (let e = claim_envelope c in
      if \<not> lockClaim d c then Inr (DeliverLostLease, d)
      else if past (clk 1) (deliveryDeadline e) then
        and_then (finish fx (later 1 clk) c Failed (Some ''delivery-expired'') d) (\<lambda>d. Inr (DeliverExpired, d))
      else and_then (still_authorized fx (clk 2) d e authorized) (\<lambda>ok.
        if \<not> ok then
          and_then (finish fx (later 2 clk) c Failed (Some ''receiver-policy-rejected'') d) (\<lambda>d. Inr (DeliverUnauthorized, d))
        else deliver_body codec fx clk c bs files d))"

text \<open>The checks on the fetched bytes come before the transaction, and so does the permission, which
  is asked in the database states \<open>before\<close> and \<open>between\<close> the coordinator's answer.\<close>

definition deliver ::
  "codec \<Rightarrow> sql_functions \<Rightarrow> message_state option option \<Rightarrow> clock \<Rightarrow> instant \<Rightarrow> db \<Rightarrow> db \<Rightarrow> DeliveryClaim \<Rightarrow> bytes \<Rightarrow> bytes list \<Rightarrow>
     db \<Rightarrow> (deliver_result \<times> db) outcome" where
  "deliver codec fx connections clk t before between c bs attachments d =
     (let e = claim_envelope c in
      if int (length bs) \<noteq> body_size (env_body e) \<or> bodyDigest codec bs \<noteq> digest_value (body_digest (env_body e))
        then fail_with ''Body does not match the accepted envelope''
      else and_then (validateBodyBytes codec bs (Some (body_profile_of (env_body e)))) (\<lambda>_.
        and_then (bodyAttachments codec bs) (\<lambda>files.
          if length files \<noteq> length attachments then fail_with ''Required attachments missing''
          else and_then (check_files codec (zip files attachments)) (\<lambda>_.
            and_then (authorizeConnection fx connections t before between c) (\<lambda>authorized.
              deliver_transaction codec fx clk c bs (zip files attachments) authorized d)))))"

section \<open>The worker\<close>

datatype RetrievalResult =
    RetrievalSuccess bytes "bytes list"
  | RetrievalFail string
  | RetrievalRetry string "int option"

definition js_round :: "rat \<Rightarrow> int" where
  "js_round x = \<lfloor>x + 1 / 2\<rfloor>"

text \<open>Times of the worker are milliseconds of its own clock.\<close>

definition nextAttempt :: "int \<Rightarrow> rat \<Rightarrow> DeliveryClaim \<Rightarrow> int option \<Rightarrow> int" where
  "nextAttempt now random c retryAfter =
     (let base = min 3600000 (10000 * 2 ^ min (claim_attempts c - 1) 9) :: int;
          local = now + js_round (of_int base * (3 / 4 + random * (1 / 2)));
          deadline = deliveryDeadline (claim_envelope c) * 1000 in
      min (deadline + 1000) (max local (case retryAfter of None \<Rightarrow> 0 | Some t \<Rightarrow> t)))"

text \<open>
  What the worker meets on one run: the transactions' clocks, the token of its lease, what the
  retriever returns or that it throws, its own clock and random number, and what other processes do
  to the database at the points where the worker waits.
\<close>

record worker_run =
  run_clock :: "nat \<Rightarrow> clock"
  run_locked :: "message_key \<Rightarrow> bool"
  run_lease :: jstring
  run_retrieve :: "HailEnvelope \<Rightarrow> RetrievalResult outcome"
  run_now :: "nat \<Rightarrow> int"
  run_random :: rat
  run_meanwhile :: "nat \<Rightarrow> db \<Rightarrow> db"

datatype process_result = Idle | ProcessDelivered | ProcessFailed | ProcessOnHold

definition settle :: "process_result \<Rightarrow> (unit \<times> db) outcome \<Rightarrow> db \<Rightarrow> process_result outcome \<times> db" where
  "settle result r d = (case r of Inl e \<Rightarrow> (Inl e, d) | Inr (_, d') \<Rightarrow> (Inr result, d'))"

definition fail_or_hold ::
  "sql_functions \<Rightarrow> worker_run \<Rightarrow> DeliveryClaim \<Rightarrow> RetrievalResult \<Rightarrow> db \<Rightarrow> process_result outcome \<times> db" where
  "fail_or_hold fx run c result d = (case result of
     RetrievalFail reason \<Rightarrow> settle ProcessFailed (fail_delivery fx (run_clock run 2) c reason d) d
   | RetrievalRetry reason retryAfter \<Rightarrow> settle ProcessOnHold
       (hold fx (run_clock run 2) c reason (nextAttempt (run_now run 1) (run_random run) c retryAfter) d) d
   | RetrievalSuccess _ _ \<Rightarrow> (Inr ProcessFailed, d))"

abbreviation constrained :: RetrievalResult where
  "constrained \<equiv> RetrievalRetry ''receiver-resource-constrained'' None"

definition retrieve_and_deliver ::
  "codec \<Rightarrow> sql_functions \<Rightarrow> message_state option option \<Rightarrow> worker_run \<Rightarrow> DeliveryClaim \<Rightarrow> db \<Rightarrow> process_result outcome \<times> db" where
  "retrieve_and_deliver codec fx connections run c d =
     (let result = (case run_retrieve run (claim_envelope c) of Inl _ \<Rightarrow> constrained | Inr r \<Rightarrow> r);
          d1 = run_meanwhile run 2 d in
      case result of
        RetrievalSuccess bs attachments \<Rightarrow>
          (let d2 = run_meanwhile run 3 d1; d3 = run_meanwhile run 4 d2 in
           case deliver codec fx connections (run_clock run 1) (run_clock run 1 0) d1 d2 c bs attachments d3 of
             Inl _ \<Rightarrow> fail_or_hold fx run c constrained d3
           | Inr (r, d') \<Rightarrow> (Inr (if r = DeliverDelivered then ProcessDelivered else ProcessFailed), d'))
      | _ \<Rightarrow> fail_or_hold fx run c result d1)"

definition needs_permission :: "HailEnvelope \<Rightarrow> bool" where
  "needs_permission e = (case env_authorization e of
     ConnectionAuthorization _ _ \<Rightarrow> True | ConversationAuthorization _ _ _ \<Rightarrow> True | _ \<Rightarrow> False)"

definition processOne ::
  "codec \<Rightarrow> sql_functions \<Rightarrow> message_state option option \<Rightarrow> worker_run \<Rightarrow> db \<Rightarrow> process_result outcome \<times> db" where
  "processOne codec fx connections run d =
     (case claimDue codec fx (run_clock run 0) (run_locked run) (run_lease run) 180 d of
        Inl e \<Rightarrow> (Inl e, d)
      | Inr (None, d') \<Rightarrow> (Inr Idle, d')
      | Inr (Some c, d') \<Rightarrow>
          let d1 = run_meanwhile run 0 d' in
          if deliveryDeadline (claim_envelope c) * 1000 < run_now run 0
            then settle ProcessFailed (fail_delivery fx (run_clock run 2) c ''delivery-expired'' d1) d1
          else if needs_permission (claim_envelope c) then
            (let d2 = run_meanwhile run 1 d1 in
             case authorizeConnection fx connections (run_clock run 3 0) d1 d2 c of
               Inl _ \<Rightarrow> fail_or_hold fx run c constrained d2
             | Inr False \<Rightarrow> (case fail_delivery fx (run_clock run 4) c ''receiver-policy-rejected'' d2 of
                 Inl _ \<Rightarrow> fail_or_hold fx run c constrained d2
               | Inr (_, d') \<Rightarrow> (Inr ProcessFailed, d'))
             | Inr True \<Rightarrow> retrieve_and_deliver codec fx connections run c d2)
          else retrieve_and_deliver codec fx connections run c d1)"

end
