(* ===== verification/EnvelopeStore.thy ===== *)
theory EnvelopeStore
  imports Delivery
begin

text \<open>
  \<^verbatim>\<open>apps/server/src/envelopes\<close>: \<open>admission.ts\<close> (the provider's budgets), \<open>repository.ts\<close> (sent and
  received envelopes, reply capabilities, acceptance) and \<open>receiver.ts\<close> (authentication of an
  envelope before it is accepted). The PLC component, which retains the evidence of an accepted envelope's
  authority and may refuse to, is a parameter.
\<close>

section \<open>Decisions and budgets\<close>

record EnvelopeDecision =
  dec_payload :: HailEnvelope
  dec_representation :: bytes
  dec_payloadDigest :: bytes
  dec_envelopeDigest :: bytes
  dec_account :: jstring
  dec_signingKey :: jstring
  dec_evidence :: PlcResolutionEvidence
  dec_descriptor :: "InspectedHailObject option"

record acceptance_services =
  retainAuthority :: "EnvelopeDecision \<Rightarrow> db \<Rightarrow> unit outcome"
  retainPublicEnvelopeAuthority :: "EnvelopeDecision \<Rightarrow> instant \<Rightarrow> db \<Rightarrow> unit outcome"
  aborted :: "nat \<Rightarrow> bool"

definition throwIfAborted :: "acceptance_services \<Rightarrow> nat \<Rightarrow> unit outcome" where
  "throwIfAborted sv i = guard (\<not> aborted sv i) ''AbortError''"

record EnvelopeAdmissionLimits =
  pendingSender :: nat
  pendingRecipient :: nat
  pendingProvider :: nat
  rejectedSender :: nat
  rejectedProvider :: nat
  rejectedSenderBytes :: nat
  rejectedProviderBytes :: nat

definition ENVELOPE_ADMISSION :: EnvelopeAdmissionLimits where
  "ENVELOPE_ADMISSION = \<lparr>pendingSender = 16, pendingRecipient = 64, pendingProvider = 256, rejectedSender = 64,
     rejectedProvider = 4096, rejectedSenderBytes = 1048576, rejectedProviderBytes = 67108864\<rparr>"

definition message_of :: "HailEnvelope \<Rightarrow> message_key" where
  "message_of e = (env_from e, env_message_id e)"

text \<open>The outstanding deliveries: open work joined with its envelope.\<close>

definition pending :: "db \<Rightarrow> (message_key \<times> work_row) list" where
  "pending d = filter (\<lambda>(k, w). has_row (received_envelopes d) k \<and> open_state (work_state w)) (delivery_work d)"

definition pending_of :: "db \<Rightarrow> jstring \<Rightarrow> (message_key \<times> work_row) list" where
  "pending_of d sender = filter (\<lambda>(k, w). fst k = sender) (pending d)"

definition pending_to :: "db \<Rightarrow> jstring \<Rightarrow> (message_key \<times> work_row) list" where
  "pending_to d recipient = filter (\<lambda>(k, w). recipient_of d k = Some recipient) (pending d)"

definition rejected :: "db \<Rightarrow> (message_key \<times> received_row) list" where
  "rejected d = filter (\<lambda>(k, r). rcv_outcome r \<noteq> WasAccepted) (received_envelopes d)"

definition rejected_of :: "db \<Rightarrow> jstring \<Rightarrow> (message_key \<times> received_row) list" where
  "rejected_of d sender = filter (\<lambda>(k, r). fst k = sender) (rejected d)"

definition admission_total :: "(message_key \<times> received_row) list \<Rightarrow> nat" where
  "admission_total rows = sum_list (map (\<lambda>(k, r). rcv_admission_bytes r) rows)"

definition evidence_bytes :: "PlcResolutionEvidence \<Rightarrow> nat" where
  "evidence_bytes ev = utf8_length (evidence_document ev) + utf8_length (evidence_data ev) + utf8_length (array_text (evidence_log ev))"

definition admission_bytes :: "EnvelopeDecision \<Rightarrow> nat" where
  "admission_bytes input = length (dec_representation input) + evidence_bytes (dec_evidence input)"

definition admitEnvelope :: "EnvelopeAdmissionLimits \<Rightarrow> EnvelopeDecision \<Rightarrow> bool \<Rightarrow> db \<Rightarrow> unit outcome" where
  "admitEnvelope limits input accepted d =
     (let p = dec_payload input; size = admission_bytes input in
      if has_row (received_envelopes d) (message_of p) then Inr ()
      else if accepted then
        guard (\<not> (pendingProvider limits \<le> length (pending d)
            \<or> pendingSender limits \<le> length (pending_of d (env_from p))
            \<or> pendingRecipient limits \<le> length (pending_to d (env_to p))))
          ''Outstanding delivery budget exhausted''
      else
        guard (\<not> (rejectedProvider limits \<le> length (rejected d)
            \<or> rejectedSender limits \<le> length (rejected_of d (env_from p))
            \<or> rejectedProviderBytes limits < admission_total (rejected d) + size
            \<or> rejectedSenderBytes limits < admission_total (rejected_of d (env_from p)) + size))
          ''Rejected replay budget exhausted'')"

definition capacity_error :: "server_error \<Rightarrow> bool" where
  "capacity_error e \<longleftrightarrow> e = Thrown ''Outstanding delivery budget exhausted'' \<or> e = Thrown ''Rejected replay budget exhausted''"

section \<open>Acceptance\<close>

datatype EnvelopeOutcome =
    OutcomeAccepted | OutcomeDuplicate | OutcomeConflict | OutcomeUnauthorized | OutcomeExpired | OutcomeRateLimited

fun stored_as :: "received_outcome \<Rightarrow> EnvelopeOutcome" where
  "stored_as WasAccepted = OutcomeAccepted"
| "stored_as WasUnauthorized = OutcomeUnauthorized"
| "stored_as WasExpired = OutcomeExpired"

definition previousOutcome :: "db \<Rightarrow> HailEnvelope \<Rightarrow> bytes \<Rightarrow> EnvelopeOutcome option" where
  "previousOutcome d payload digest = (case map_of (received_envelopes d) (message_of payload) of
     None \<Rightarrow> None
   | Some r \<Rightarrow> Some (if rcv_payload_digest r = digest then OutcomeDuplicate else OutcomeConflict))"

definition new_work :: "instant \<Rightarrow> work_row" where
  "new_work now = \<lparr>work_state = Accepted, work_reason = None, status_revision = 1, attempt_count = 0,
     next_attempt_at = now, lease_token = None, lease_expires_at = None, transitioned_at = now\<rparr>"

definition received_of ::
  "EnvelopeDecision \<Rightarrow> jstring option \<Rightarrow> jstring option \<Rightarrow> received_outcome \<Rightarrow> instant \<Rightarrow> received_row" where
  "received_of input grantId replyTo result now =
     (let p = dec_payload input in
      \<lparr>rcv_recipient = env_to p, rcv_account = dec_account input, rcv_grant_id = grantId, rcv_reply_to = replyTo,
       rcv_authorization = env_authorization p, rcv_cose = dec_representation input,
       rcv_envelope_digest = dec_envelopeDigest input, rcv_payload_digest = dec_payloadDigest input,
       rcv_signing_key = dec_signingKey input, rcv_evidence = dec_evidence input, rcv_outcome = result,
       rcv_accepted_at = (if result = WasAccepted then Some (js_time now * 1000) else None),
       rcv_parent = env_in_reply_to p, rcv_conversation_message_id = env_conversation_message_id p,
       rcv_admission_bytes = admission_bytes input\<rparr>)"

text \<open>\<open>clk 0\<close> is the start of the transaction, \<open>now\<close> the reading of the clock the decision rests on.\<close>

definition insertReceived ::
  "acceptance_services \<Rightarrow> sql_functions \<Rightarrow> EnvelopeAdmissionLimits \<Rightarrow> clock \<Rightarrow> EnvelopeDecision \<Rightarrow> jstring option \<Rightarrow> jstring option \<Rightarrow>
     received_outcome \<Rightarrow> instant \<Rightarrow> bool \<Rightarrow> db \<Rightarrow> (bool \<times> db) outcome" where
  "insertReceived sv fx limits clk input grantId replyTo result now authorityRetained d =
     (let k = message_of (dec_payload input) in
      and_then (admitEnvelope limits input (result = WasAccepted) d) (\<lambda>_.
      and_then (if result = WasAccepted \<and> \<not> authorityRetained then retainAuthority sv input d else Inr ()) (\<lambda>_.
        if refuses fx (WriteReceived k) d then Inl Rejected
        else if has_row (received_envelopes d) k then Inr (False, d)
        else
          let d1 = d\<lparr>received_envelopes := AList.update k (received_of input grantId replyTo result now) (received_envelopes d)\<rparr> in
          if result \<noteq> WasAccepted then Inr (True, d1)
          else and_then (retainPublicEnvelopeAuthority sv input now d1) (\<lambda>_.
            and_then (insert_new fx (WriteWork k) (has_row (delivery_work d1) k)
                (\<lambda>d. d\<lparr>delivery_work := AList.update k (new_work (clk 0)) (delivery_work d)\<rparr>) d1) (\<lambda>d2.
              Inr (True, d2))))))"

definition outcome_after :: "db \<Rightarrow> EnvelopeDecision \<Rightarrow> received_outcome \<Rightarrow> bool \<Rightarrow> EnvelopeOutcome" where
  "outcome_after d input result inserted =
     (if inserted then stored_as result
      else (case previousOutcome d (dec_payload input) (dec_payloadDigest input) of None \<Rightarrow> OutcomeConflict | Some o' \<Rightarrow> o'))"

definition decided :: "HailEnvelope \<Rightarrow> instant \<Rightarrow> bool \<Rightarrow> received_outcome" where
  "decided p now permitted =
     (if past now (deliveryDeadline p) then WasExpired else if permitted then WasAccepted else WasUnauthorized)"

definition owns_did :: "db \<Rightarrow> jstring \<Rightarrow> jstring \<Rightarrow> bool" where
  "owns_did d account did = (case map_of (provider_accounts d) account of None \<Rightarrow> False | Some row \<Rightarrow> acc_did row = Some did)"

subsection \<open>Conversations\<close>

text \<open>An introduction carries its descriptor; the recipient is admitted before the permission is checked.\<close>

definition introduce ::
  "codec \<Rightarrow> acceptance_services \<Rightarrow> sql_functions \<Rightarrow> EnvelopeAdmissionLimits \<Rightarrow> clock \<Rightarrow> EnvelopeDecision \<Rightarrow> db \<Rightarrow> (bool \<times> db) outcome" where
  "introduce codec sv fx limits clk input d =
     (let p = dec_payload input in
      case env_introduction p of
        None \<Rightarrow> Inr (False, d)
      | Some intro \<Rightarrow> (case dec_descriptor input of
          None \<Rightarrow> Inr (False, d)
        | Some descriptor \<Rightarrow>
            and_then (admitEnvelope limits input True d) (\<lambda>_.
            and_then (retainAuthority sv input d) (\<lambda>_.
            and_then (admitConversation codec fx clk \<lparr>owner_account = dec_account input, owner_did = env_to p\<rparr> descriptor
                \<lparr>proof_signingKey = dec_signingKey input, proof_evidence = dec_evidence input,
                 proof_connection = Some (intro_connection_id intro, intro_epoch intro)\<rparr> d) (\<lambda>(_, d').
              Inr (True, d'))))))"

definition acceptConversation ::
  "codec \<Rightarrow> acceptance_services \<Rightarrow> sql_functions \<Rightarrow> EnvelopeAdmissionLimits \<Rightarrow> clock \<Rightarrow> EnvelopeDecision \<Rightarrow> jstring \<Rightarrow> jstring \<Rightarrow> bytes \<Rightarrow>
     db \<Rightarrow> (EnvelopeOutcome \<times> db) outcome" where
  "acceptConversation codec sv fx limits clk input creator conversation h d =
     (let p = dec_payload input in
      and_then (throwIfAborted sv 0) (\<lambda>_.
        if \<not> owns_did d (dec_account input) (env_to p) then Inr (OutcomeUnauthorized, d)
        else (case previousOutcome d p (dec_payloadDigest input) of
          Some previous \<Rightarrow> Inr (previous, d)
        | None \<Rightarrow>
            and_then (introduce codec sv fx limits clk input d) (\<lambda>(retained, d1).
            and_then (conversationMessageAllowed d1 (clk 4) (env_to p) (env_from p) creator conversation h True) (\<lambda>permitted.
              if \<not> permitted then Inr (OutcomeUnauthorized, d1)
              else
                let result = decided p (clk 5) True in
                and_then (insertReceived sv fx limits clk input None None result (clk 5) retained d1) (\<lambda>(inserted, d2).
                  Inr (outcome_after d2 input result inserted, d2)))))))"

subsection \<open>Connections\<close>

definition acceptConnection ::
  "acceptance_services \<Rightarrow> sql_functions \<Rightarrow> EnvelopeAdmissionLimits \<Rightarrow> clock \<Rightarrow> EnvelopeDecision \<Rightarrow> jstring \<Rightarrow> int \<Rightarrow>
     db \<Rightarrow> (EnvelopeOutcome \<times> db) outcome" where
  "acceptConnection sv fx limits clk input connection epoch d =
     (let p = dec_payload input in
      and_then (throwIfAborted sv 0) (\<lambda>_.
        if \<not> owns_did d (dec_account input) (env_to p) then Inr (OutcomeUnauthorized, d)
        else and_then (connectionMessageAllowed fx d (env_to p) (env_from p) connection epoch True) (\<lambda>permitted.
          (case previousOutcome d p (dec_payloadDigest input) of
             Some previous \<Rightarrow> Inr (previous, d)
           | None \<Rightarrow>
               let result = decided p (clk 1) permitted in
               and_then (insertReceived sv fx limits clk input None None result (clk 1) False d) (\<lambda>(inserted, d2).
                 Inr (outcome_after d2 input result inserted, d2))))))"

subsection \<open>Replies\<close>

definition reply_permitted :: "HailEnvelope \<Rightarrow> capability_row \<Rightarrow> instant \<Rightarrow> bool" where
  "reply_permitted original cap now = (case env_reply original of
     NoReply \<Rightarrow> False
   | ReplyUntil until \<Rightarrow> cap_state cap = Available \<and> \<not> past now (until + 300))"

definition reply_matches :: "HailEnvelope \<Rightarrow> HailEnvelope \<Rightarrow> capability_row \<Rightarrow> bool" where
  "reply_matches original p cap \<longleftrightarrow> env_reply original = ReplyUntil (cap_until cap)
     \<and> env_from original = env_to p \<and> env_to original = env_from p"

definition claim_capability :: "sql_functions \<Rightarrow> instant \<Rightarrow> HailEnvelope \<Rightarrow> jstring \<Rightarrow> capability_row \<Rightarrow> db \<Rightarrow> db outcome" where
  "claim_capability fx t p replyTo cap d =
     perform fx (WriteCapability (env_to p, replyTo)) (\<lambda>d. d\<lparr>reply_capabilities := AList.update (env_to p, replyTo)
       (cap\<lparr>cap_state := Claimed, cap_claimed := Some (message_of p), cap_updated_at := t\<rparr>) (reply_capabilities d)\<rparr>) d"

definition record_reply ::
  "acceptance_services \<Rightarrow> sql_functions \<Rightarrow> EnvelopeAdmissionLimits \<Rightarrow> clock \<Rightarrow> EnvelopeDecision \<Rightarrow> jstring \<Rightarrow> HailEnvelope \<Rightarrow>
     capability_row \<Rightarrow> db \<Rightarrow> (EnvelopeOutcome \<times> db) outcome" where
  "record_reply sv fx limits clk input replyTo original cap d =
     (let p = dec_payload input; result = decided p (clk 1) (reply_permitted original cap (clk 1)) in
      and_then (insertReceived sv fx limits clk input None (Some replyTo) result (clk 1) False d) (\<lambda>(inserted, d2).
      and_then (if inserted \<and> result = WasAccepted then claim_capability fx (clk 2) p replyTo cap d2 else Inr d2) (\<lambda>d3.
        Inr (outcome_after d3 input result inserted, d3))))"

definition acceptReply ::
  "codec \<Rightarrow> acceptance_services \<Rightarrow> sql_functions \<Rightarrow> EnvelopeAdmissionLimits \<Rightarrow> clock \<Rightarrow> EnvelopeDecision \<Rightarrow> jstring \<Rightarrow>
     db \<Rightarrow> (EnvelopeOutcome \<times> db) outcome" where
  "acceptReply codec sv fx limits clk input replyTo d =
     (let p = dec_payload input in
      and_then (throwIfAborted sv 0) (\<lambda>_.
      and_then (throwIfAborted sv 1) (\<lambda>_.
        (case map_of (reply_capabilities d) (env_to p, replyTo) of
           None \<Rightarrow> Inr (OutcomeUnauthorized, d)
         | Some cap \<Rightarrow> (case map_of (sent_envelopes d) (env_to p, replyTo) of
             None \<Rightarrow> Inr (OutcomeUnauthorized, d)
           | Some sent \<Rightarrow>
               if cap_recipient cap \<noteq> env_from p \<or> sent_account sent \<noteq> dec_account input then Inr (OutcomeUnauthorized, d)
               else and_then (inspectEnvelope codec (sent_cose sent)) (\<lambda>original.
                 if \<not> reply_matches original p cap then Inr (OutcomeUnauthorized, d)
                 else (case previousOutcome d p (dec_payloadDigest input) of
                   Some previous \<Rightarrow> Inr (previous, d)
                 | None \<Rightarrow>
                     and_then (throwIfAborted sv 2) (\<lambda>_.
                       record_reply sv fx limits clk input replyTo original cap d))))))))"

subsection \<open>Grants\<close>

definition grant_permits :: "lineage_row \<Rightarrow> revision_row \<Rightarrow> HailEnvelope \<Rightarrow> instant \<Rightarrow> bool" where
  "grant_permits lineage revision p now \<longleftrightarrow> lin_status lineage = Active
     \<and> (case rev_expires_at revision of None \<Rightarrow> True | Some t \<Rightarrow> \<not> past now t)
     \<and> (case env_category p of None \<Rightarrow> False | Some c \<Rightarrow> c \<in> set (rev_scope revision))"

definition acceptGrant ::
  "acceptance_services \<Rightarrow> sql_functions \<Rightarrow> EnvelopeAdmissionLimits \<Rightarrow> clock \<Rightarrow> EnvelopeDecision \<Rightarrow> jstring \<Rightarrow>
     db \<Rightarrow> (EnvelopeOutcome \<times> db) outcome" where
  "acceptGrant sv fx limits clk input grantId d =
     (let p = dec_payload input in
      and_then (throwIfAborted sv 0) (\<lambda>_.
      and_then (throwIfAborted sv 1) (\<lambda>_.
        (case map_of (grant_lineages d) grantId of
           None \<Rightarrow> Inr (OutcomeUnauthorized, d)
         | Some lineage \<Rightarrow> (case map_of (grant_revisions d) (grantId, lin_revision lineage) of
             None \<Rightarrow> Inr (OutcomeUnauthorized, d)
           | Some revision \<Rightarrow>
               if lin_grantor lineage \<noteq> env_to p \<or> lin_grantee lineage \<noteq> env_from p \<or> lin_role lineage \<noteq> Grantor
                   \<or> lin_account lineage \<noteq> dec_account input then Inr (OutcomeUnauthorized, d)
               else (case previousOutcome d p (dec_payloadDigest input) of
                 Some previous \<Rightarrow> Inr (previous, d)
               | None \<Rightarrow>
                   and_then (throwIfAborted sv 2) (\<lambda>_.
                     let result = decided p (clk 1) (grant_permits lineage revision p (clk 1)) in
                     and_then (insertReceived sv fx limits clk input (Some grantId) None result (clk 1) False d) (\<lambda>(inserted, d2).
                       Inr (outcome_after d2 input result inserted, d2)))))))))"

definition acceptWithinBudget ::
  "codec \<Rightarrow> acceptance_services \<Rightarrow> sql_functions \<Rightarrow> EnvelopeAdmissionLimits \<Rightarrow> clock \<Rightarrow> EnvelopeDecision \<Rightarrow>
     db \<Rightarrow> (EnvelopeOutcome \<times> db) outcome" where
  "acceptWithinBudget codec sv fx limits clk input = (case env_authorization (dec_payload input) of
     ConversationAuthorization creator conversation h \<Rightarrow> acceptConversation codec sv fx limits clk input creator conversation (digest_value h)
   | ConnectionAuthorization connection epoch \<Rightarrow> acceptConnection sv fx limits clk input connection epoch
   | ReplyAuthorization replyTo \<Rightarrow> acceptReply codec sv fx limits clk input replyTo
   | GrantAuthorization grantId \<Rightarrow> acceptGrant sv fx limits clk input grantId)"

definition accept ::
  "codec \<Rightarrow> acceptance_services \<Rightarrow> sql_functions \<Rightarrow> EnvelopeAdmissionLimits \<Rightarrow> clock \<Rightarrow> EnvelopeDecision \<Rightarrow>
     db \<Rightarrow> EnvelopeOutcome outcome \<times> db" where
  "accept codec sv fx limits clk input d = (case acceptWithinBudget codec sv fx limits clk input d of
     Inl e \<Rightarrow> (if capacity_error e then Inr OutcomeRateLimited else Inl e, d)
   | Inr (o', d') \<Rightarrow> (Inr o', d'))"

section \<open>Sent envelopes\<close>

definition sent :: "db \<Rightarrow> jstring \<Rightarrow> jstring \<Rightarrow> bytes option" where
  "sent d senderDid messageId = map_option sent_cose (map_of (sent_envelopes d) (senderDid, messageId))"

definition publishedBody :: "codec \<Rightarrow> db \<Rightarrow> jstring \<Rightarrow> bytes \<Rightarrow> (nat \<times> jstring \<times> body_profile) option outcome" where
  "publishedBody codec d senderDid digest =
     (case find (\<lambda>((h, account), row). h = digest \<and> (case map_of (provider_accounts d) account of
           None \<Rightarrow> False | Some a \<Rightarrow> acc_did a = Some senderDid \<and> publicly_active a)) (detached_bodies d) of
        None \<Rightarrow> Inr None
      | Some ((_, account), row) \<Rightarrow> and_then (validateBodyBytes codec (stored_bytes row) None) (\<lambda>profile.
          Inr (Some (length (stored_bytes row), account, profile))))"

definition receivedReplyOpportunity ::
  "codec \<Rightarrow> db \<Rightarrow> jstring \<Rightarrow> jstring \<Rightarrow> jstring option \<Rightarrow> HailEnvelope option outcome" where
  "receivedReplyOpportunity codec d recipientDid messageId senderDid =
     (case filter (\<lambda>(k, r). rcv_recipient r = recipientDid \<and> snd k = messageId \<and> rcv_outcome r = WasAccepted
          \<and> (case senderDid of None \<Rightarrow> True | Some s \<Rightarrow> fst k = s \<and> (case map_of (delivered_messages d) k of
               None \<Rightarrow> False | Some dlv \<Rightarrow> dlv_recipient dlv = recipientDid \<and> dlv_trashed_at dlv = None)))
        (received_envelopes d) of
        [(_, r)] \<Rightarrow> and_then (inspectEnvelope codec (rcv_cose r)) (\<lambda>payload.
          Inr (if env_to payload = recipientDid \<and> env_message_id payload = messageId then Some payload else None))
      | _ \<Rightarrow> Inr None)"

definition sent_of :: "HailEnvelope \<Rightarrow> bytes \<Rightarrow> bytes \<Rightarrow> jstring \<Rightarrow> sent_row" where
  "sent_of p cose digest accountId =
     \<lparr>sent_recipient = env_to p, sent_authorization = env_authorization p, sent_cose = cose,
      sent_envelope_digest = digest, sent_body_digest = digest_value (body_digest (env_body p)), sent_account = accountId,
      sent_parent = env_in_reply_to p, sent_conversation_message_id = env_conversation_message_id p\<rparr>"

text \<open>The signed representation must carry exactly the payload that is stored beside it.\<close>

definition signed_digest :: "codec \<Rightarrow> HailEnvelope \<Rightarrow> bytes \<Rightarrow> bytes outcome" where
  "signed_digest codec p cose =
     and_then (codec_result (inspectSignedPayload (codec_lib codec) (codec_env codec) Envelope cose)) (\<lambda>inspected.
     and_then (codec_result (encodePayload (codec_lib codec) (codec_env codec) Envelope (of_hail (envelope_object p))
         DEFAULT_HAIL_RESOURCE_LIMITS)) (\<lambda>encoded.
       if object_payloadBytes inspected \<noteq> encoded \<or> 16384 < length cose then fail_with ''Invalid signed envelope''
       else Inr (sha256 (codec_env codec) (object_payloadBytes inspected))))"

definition send_permitted :: "sql_functions \<Rightarrow> instant \<Rightarrow> HailEnvelope \<Rightarrow> db \<Rightarrow> unit outcome" where
  "send_permitted fx t p d = (case env_authorization p of
     ConnectionAuthorization connection epoch \<Rightarrow>
       and_then (connectionMessageAllowed fx d (env_from p) (env_to p) connection epoch False) (\<lambda>allowed.
         guard allowed ''Connection ended before envelope persistence'')
   | ConversationAuthorization creator conversation h \<Rightarrow>
       and_then (conversationMessageAllowed d t (env_from p) (env_to p) creator conversation (digest_value h) True) (\<lambda>allowed.
         guard allowed ''Conversation participation ended before envelope persistence'')
   | _ \<Rightarrow> Inr ())"

definition insert_sent :: "sql_functions \<Rightarrow> HailEnvelope \<Rightarrow> bytes \<Rightarrow> bytes \<Rightarrow> jstring \<Rightarrow> db \<Rightarrow> db outcome" where
  "insert_sent fx p cose digest accountId d =
     insert_new fx (WriteSent (message_of p)) (has_row (sent_envelopes d) (message_of p))
       (\<lambda>d. d\<lparr>sent_envelopes := AList.update (message_of p) (sent_of p cose digest accountId) (sent_envelopes d)\<rparr>) d"

definition open_capability :: "sql_functions \<Rightarrow> instant \<Rightarrow> HailEnvelope \<Rightarrow> db \<Rightarrow> db outcome" where
  "open_capability fx now p d = (case env_reply p of
     NoReply \<Rightarrow> Inr d
   | ReplyUntil until \<Rightarrow>
       insert_new fx (WriteCapability (message_of p)) (has_row (reply_capabilities d) (message_of p))
         (\<lambda>d. d\<lparr>reply_capabilities := AList.update (message_of p) \<lparr>cap_recipient = env_to p, cap_until = until,
            cap_state = Available, cap_claimed = None, cap_updated_at = now\<rparr> (reply_capabilities d)\<rparr>) d)"

definition authorize_body :: "codec \<Rightarrow> sql_functions \<Rightarrow> HailEnvelope \<Rightarrow> jstring \<Rightarrow> db \<Rightarrow> db outcome" where
  "authorize_body codec fx p accountId d =
     (let h = sha256 (codec_env codec) (access_token (env_body p)) in
      insert_new fx (WriteBodyAuthorization accountId) (has_row (body_authorizations d) h)
        (\<lambda>d. d\<lparr>body_authorizations := AList.update h \<lparr>auth_body_digest = digest_value (body_digest (env_body p)),
           auth_account = accountId, auth_recipient = env_to p, auth_message_id = env_message_id p,
           auth_expires_at = access_expires_at (env_body p), auth_available_until = available_until (env_body p)\<rparr>
           (body_authorizations d)\<rparr>) d)"

definition extend_availability :: "sql_functions \<Rightarrow> HailEnvelope \<Rightarrow> bytes \<times> jstring \<Rightarrow> body_row \<Rightarrow> db \<Rightarrow> db outcome" where
  "extend_availability fx p k row d =
     (if (case stored_until row of None \<Rightarrow> True | Some t \<Rightarrow> t < available_until (env_body p))
      then perform fx (WriteBody k) (\<lambda>d. d\<lparr>detached_bodies := AList.update k
        (row\<lparr>stored_until := Some (available_until (env_body p))\<rparr>) (detached_bodies d)\<rparr>) d
      else Inr d)"

definition persist_sent ::
  "codec \<Rightarrow> sql_functions \<Rightarrow> clock \<Rightarrow> HailEnvelope \<Rightarrow> bytes \<Rightarrow> bytes \<Rightarrow> jstring \<Rightarrow> bytes \<times> jstring \<Rightarrow> body_row \<Rightarrow>
     db \<Rightarrow> (unit \<times> db) outcome" where
  "persist_sent codec fx clk p cose digest accountId k row d =
     and_then (insert_sent fx p cose digest accountId d) (\<lambda>d.
     and_then (open_capability fx (clk 0) p d) (\<lambda>d.
     and_then (authorize_body codec fx p accountId d) (\<lambda>d.
     and_then (extend_availability fx p k row d) (\<lambda>d. Inr ((), d)))))"

definition createSent ::
  "codec \<Rightarrow> sql_functions \<Rightarrow> clock \<Rightarrow> HailEnvelope \<Rightarrow> bytes \<Rightarrow> jstring \<Rightarrow> db \<Rightarrow> (unit \<times> db) outcome" where
  "createSent codec fx clk p cose accountId d =
     and_then (signed_digest codec p cose) (\<lambda>digest.
     and_then (send_permitted fx (clk 1) p d) (\<lambda>_.
       (case map_of (provider_accounts d) accountId of
          None \<Rightarrow> fail_with ''Sender is not publicly active''
        | Some account \<Rightarrow>
            if acc_did account \<noteq> Some (env_from p) \<or> \<not> publicly_active account then fail_with ''Sender is not publicly active''
            else
              let k = (digest_value (body_digest (env_body p)), accountId) in
              (case map_of (detached_bodies d) k of
                 None \<Rightarrow> fail_with ''Signed body is not published''
               | Some row \<Rightarrow>
                   if int (length (stored_bytes row)) \<noteq> body_size (env_body p) then fail_with ''Signed body is not published''
                   else persist_sent codec fx clk p cose digest accountId k row d))))"

section \<open>Receiving\<close>

definition candidate :: "sql_functions \<Rightarrow> db \<Rightarrow> instant \<Rightarrow> HailEnvelope \<Rightarrow> bool outcome" where
  "candidate fx d t p = (case env_authorization p of
     ConversationAuthorization creator conversation h \<Rightarrow>
       and_then (conversationMessageAllowed d t (env_to p) (env_from p) creator conversation (digest_value h) False) (\<lambda>allowed.
         if allowed then Inr True
         else (case env_introduction p of
           None \<Rightarrow> Inr False
         | Some intro \<Rightarrow> if env_from p \<noteq> creator then Inr False
             else connectionMessageAllowed fx d (env_to p) (env_from p) (intro_connection_id intro) (intro_epoch intro) True))
   | ConnectionAuthorization connection epoch \<Rightarrow> connectionMessageAllowed fx d (env_to p) (env_from p) connection epoch True
   | ReplyAuthorization replyTo \<Rightarrow> Inr (case map_of (reply_capabilities d) (env_to p, replyTo) of
       None \<Rightarrow> False | Some cap \<Rightarrow> cap_recipient cap = env_from p)
   | GrantAuthorization grantId \<Rightarrow> Inr (case map_of (grant_lineages d) grantId of
       None \<Rightarrow> False | Some l \<Rightarrow> lin_grantor l = env_to p \<and> lin_grantee l = env_from p \<and> lin_role l = Grantor))"

record HailDidDocument =
  messagingDidKey :: jstring
  identityDidKey :: jstring
  serviceBase :: jstring
  document_evidence :: PlcResolutionEvidence

record receiver =
  rx_codec :: codec
  rx_crypto :: crypto
  rx_services :: acceptance_services
  rx_functions :: sql_functions
  rx_limits :: EnvelopeAdmissionLimits
  rx_resolve :: "jstring \<Rightarrow> HailDidDocument outcome"
  rx_serviceBase :: jstring
  rx_connections :: "message_state option option"
  rx_now :: int

definition messaging_key_id :: "jstring \<Rightarrow> jstring" where
  "messaging_key_id did = did @ lit ''#hail-messaging''"

definition messaging_verifier :: "crypto \<Rightarrow> jstring \<Rightarrow> jstring \<Rightarrow> HailVerifier" where
  "messaging_verifier cr did key = createWebCryptoVerifier (\<lambda>keyId.
     if keyId \<noteq> messaging_key_id did then throw InvalidSignature
     else ed25519PublicKeyFromDidKey cr key) (subtle cr)"

definition introduction_valid :: "receiver \<Rightarrow> HailDidDocument \<Rightarrow> HailEnvelope \<Rightarrow> db \<Rightarrow> db \<Rightarrow> (bool \<times> InspectedHailObject option) outcome" where
  "introduction_valid rx sender p d d' = (case env_authorization p of
     ConversationAuthorization creator conversation h \<Rightarrow> (case env_introduction p of
       None \<Rightarrow> Inr (True, None)
     | Some intro \<Rightarrow>
         and_then (codec_result (verifySignedPayload (codec_lib (rx_codec rx)) (codec_env (rx_codec rx)) Conversation
             (intro_descriptor intro) (messaging_verifier (rx_crypto rx) (env_from p) (messagingDidKey sender)))) (\<lambda>descriptor.
           let c = read_conversation (object_payload descriptor) in
           if conv_from c \<noteq> creator \<or> conv_id c \<noteq> conversation \<or> env_to p \<notin> set (conv_participants c)
               \<or> env_created_at p + 300 < conv_created_at c then Inr (False, None)
           else (case rx_connections rx of
             None \<Rightarrow> Inr (False, None)
           | Some federation \<Rightarrow>
               and_then (live (rx_functions rx) federation d d' (env_to p) (env_from p) (intro_connection_id intro) (intro_epoch intro))
                 (\<lambda>ok. Inr (ok, Some descriptor)))))
   | _ \<Rightarrow> Inr (True, None))"

text \<open>
  The decision on an authenticated envelope, or the reason to ignore it. The database is read several
  times before the transaction: \<open>seen i\<close> is what it holds at the i-th reading.
\<close>

definition authenticate :: "receiver \<Rightarrow> (nat \<Rightarrow> db) \<Rightarrow> instant \<Rightarrow> bytes \<Rightarrow> EnvelopeDecision option outcome" where
  "authenticate rx seen t cose =
     (let c = rx_codec rx in
      and_then (throwIfAborted (rx_services rx) 3) (\<lambda>_.
      and_then (inspectEnvelope c cose) (\<lambda>p.
        if env_from p = env_to p \<or> rx_now rx + 300 < env_created_at p \<or> 16384 < length cose then Inr None
        else and_then (rx_resolve rx (env_from p)) (\<lambda>sender.
          and_then (codec_result (verifySignedPayload (codec_lib c) (codec_env c) Envelope cose
              (messaging_verifier (rx_crypto rx) (env_from p) (messagingDidKey sender)))) (\<lambda>verified.
          and_then (candidate (rx_functions rx) (seen 0) t p) (\<lambda>known.
            if \<not> known then Inr None
            else and_then (introduction_valid rx sender p (seen 1) (seen 2)) (\<lambda>(ok, descriptor).
              if \<not> ok then Inr None
              else and_then (rx_resolve rx (env_to p)) (\<lambda>recipient.
                if serviceBase recipient \<noteq> rx_serviceBase rx then Inr None
                else (case account_with_did (seen 3) (env_to p) of
                  None \<Rightarrow> Inr None
                | Some (account, row) \<Rightarrow>
                    if \<not> publicly_active row then Inr None
                    else Inr (Some \<lparr>dec_payload = p, dec_representation = cose,
                      dec_payloadDigest = sha256 (codec_env c) (object_payloadBytes verified),
                      dec_envelopeDigest = sha256 (codec_env c) (object_payloadBytes verified),
                      dec_account = account, dec_signingKey = messagingDidKey sender,
                      dec_evidence = document_evidence sender, dec_descriptor = descriptor\<rparr>))))))))))"

text \<open>The result is \<open>None\<close> where the code answers \<open>"ignored"\<close>: every error ends there.\<close>

definition receive :: "receiver \<Rightarrow> (nat \<Rightarrow> db) \<Rightarrow> clock \<Rightarrow> bytes \<Rightarrow> db \<Rightarrow> EnvelopeOutcome option \<times> db" where
  "receive rx seen clk cose d = (case authenticate rx seen (clk 0) cose of
     Inl _ \<Rightarrow> (None, d)
   | Inr None \<Rightarrow> (None, d)
   | Inr (Some input) \<Rightarrow>
       (case accept (rx_codec rx) (rx_services rx) (rx_functions rx) (rx_limits rx) clk input d of
          (Inl _, d') \<Rightarrow> (None, d')
        | (Inr result, d') \<Rightarrow> (Some result, d')))"

end
