(* ===== verification/DeliverySystem.thy ===== *)
theory DeliverySystem
  imports EnvelopeStore
begin

text \<open>
  The life of a received message across the operations of \<^verbatim>\<open>delivery/repository.ts\<close> and
  \<^verbatim>\<open>envelopes/repository.ts\<close>, run in any order by any number of workers: what is invariant of the tables,
  and that each message follows the abstract life cycle received, leased, waiting, ended.
\<close>

section \<open>What the operations do to the tables\<close>

abbreviation work :: "db \<Rightarrow> message_key \<rightharpoonup> work_row" where "work d \<equiv> map_of (delivery_work d)"
abbreviation received :: "db \<Rightarrow> message_key \<rightharpoonup> received_row" where "received d \<equiv> map_of (received_envelopes d)"
abbreviation publications :: "db \<Rightarrow> message_key \<rightharpoonup> publication_row" where "publications d \<equiv> map_of (terminal_status_publications d)"
abbreviation delivered :: "db \<Rightarrow> message_key \<rightharpoonup> delivered_row" where "delivered d \<equiv> map_of (delivered_messages d)"
abbreviation capabilities :: "db \<Rightarrow> message_key \<rightharpoonup> capability_row" where "capabilities d \<equiv> map_of (reply_capabilities d)"

text \<open>The tables the life of a message is kept in.\<close>

definition same_messages :: "db \<Rightarrow> db \<Rightarrow> bool" where
  "same_messages d d' \<longleftrightarrow> delivery_work d' = delivery_work d \<and> received_envelopes d' = received_envelopes d
     \<and> terminal_status_publications d' = terminal_status_publications d \<and> delivered_messages d' = delivered_messages d
     \<and> reply_capabilities d' = reply_capabilities d"

lemma same_messages_refl [simp]: "same_messages d d"
  by (simp add: same_messages_def)

lemma same_messages_trans [trans]: "same_messages d e \<Longrightarrow> same_messages e f \<Longrightarrow> same_messages d f"
  by (simp add: same_messages_def)

lemma store_body_frame: "store_body codec fx p bs d = Inr d' \<Longrightarrow> same_messages d d'"
  by (auto simp: store_body_def Let_def same_messages_def)

lemma store_files_frame: "store_files fx p files d = Inr d' \<Longrightarrow> same_messages d d'"
proof (induction files arbitrary: d)
  case (Cons f files)
  then show ?case by (cases f) (fastforce simp: storeAttachment_def same_messages_def)
qed simp

definition ended :: "HailDeliveryState \<Rightarrow> string option \<Rightarrow> instant \<Rightarrow> work_row \<Rightarrow> work_row" where
  "ended s reason t w = w\<lparr>work_state := s, work_reason := reason, status_revision := status_revision w + 1,
     lease_token := None, lease_expires_at := None, transitioned_at := t\<rparr>"

definition settled :: "HailDeliveryState \<Rightarrow> instant \<Rightarrow> capability_row \<Rightarrow> capability_row" where
  "settled s t cap = (if s = Delivered then cap\<lparr>cap_state := Consumed, cap_updated_at := t\<rparr>
     else cap\<lparr>cap_state := Available, cap_claimed := None, cap_updated_at := t\<rparr>)"

text \<open>The reply capability a delivery holds, if its envelope is a reply.\<close>

definition reply_key :: "jstring \<Rightarrow> HailEnvelopeAuthorization \<Rightarrow> message_key option" where
  "reply_key recipient a = (case a of ReplyAuthorization x \<Rightarrow> Some (recipient, x) | _ \<Rightarrow> None)"

definition settles :: "db \<Rightarrow> db \<Rightarrow> DeliveryClaim \<Rightarrow> HailDeliveryState \<Rightarrow> bool" where
  "settles d d' c s = (case reply_key (env_to (claim_envelope c)) (env_authorization (claim_envelope c)) of
     None \<Rightarrow> reply_capabilities d' = reply_capabilities d
   | Some k \<Rightarrow> (\<exists>cap t. capabilities d k = Some cap \<and> cap_state cap = Claimed \<and> cap_claimed cap = Some (claim_key c)
       \<and> reply_capabilities d' = AList.update k (settled s t cap) (reply_capabilities d)))"

definition finishes :: "db \<Rightarrow> db \<Rightarrow> DeliveryClaim \<Rightarrow> HailDeliveryState \<Rightarrow> string option \<Rightarrow> bool" where
  "finishes d d' c s reason \<longleftrightarrow>
     (\<exists>w t t'. work d (claim_key c) = Some w
       \<and> delivery_work d' = AList.update (claim_key c) (ended s reason t w) (delivery_work d)
       \<and> publications d (claim_key c) = None
       \<and> terminal_status_publications d' = AList.update (claim_key c) (new_publication t') (terminal_status_publications d))
     \<and> received_envelopes d' = received_envelopes d \<and> delivered_messages d' = delivered_messages d \<and> settles d d' c s"

lemma settle_capability_effect:
  assumes "settle_capability fx t c s d = Inr d'"
  shows "settles d d' c s" "delivery_work d' = delivery_work d"
    "terminal_status_publications d' = terminal_status_publications d"
    "received_envelopes d' = received_envelopes d" "delivered_messages d' = delivered_messages d"
  using assms
  by (auto simp: settle_capability_def settles_def reply_key_def settled_def Let_def
      split: HailEnvelopeAuthorization.splits)

lemma finish_effect:
  assumes "finish fx clk c s reason d = Inr d'" and "lockClaim d c"
  shows "finishes d d' c s reason"
proof -
  obtain d1 where d1: "settle_capability fx (clk 1) c s d = Inr d1"
      and rest: "\<not> has_row (terminal_status_publications (update_work (claim_key c) (ended s reason (clk 2)) d1)) (claim_key c)"
        "d' = (update_work (claim_key c) (ended s reason (clk 2)) d1)\<lparr>terminal_status_publications :=
          AList.update (claim_key c) (new_publication (clk 0))
            (terminal_status_publications (update_work (claim_key c) (ended s reason (clk 2)) d1))\<rparr>"
    using assms(1) by (auto simp: finish_def ended_def [abs_def])
  note e = settle_capability_effect [OF d1]
  obtain w where w: "work d (claim_key c) = Some w"
    using assms(2) by (auto simp: lockClaim_def split: option.splits)
  show ?thesis
    using rest e w by (auto simp: finishes_def update_work_def has_row_def settles_def split: option.splits)
qed

definition held :: "string \<Rightarrow> int \<Rightarrow> instant \<Rightarrow> work_row \<Rightarrow> work_row" where
  "held reason retryAt t w = w\<lparr>work_state := OnHold, work_reason := Some reason, status_revision := status_revision w + 1,
     next_attempt_at := retryAt * 1000, lease_token := None, lease_expires_at := None, transitioned_at := t\<rparr>"

definition holds_back :: "db \<Rightarrow> db \<Rightarrow> DeliveryClaim \<Rightarrow> bool" where
  "holds_back d d' c \<longleftrightarrow> (\<exists>w reason retryAt t. work d (claim_key c) = Some w
     \<and> d' = d\<lparr>delivery_work := AList.update (claim_key c) (held reason retryAt t w) (delivery_work d)\<rparr>)"

text \<open>Each transaction on a claim loses the lease, ends the delivery, or holds it back.\<close>

lemma fail_delivery_effect:
  "fail_delivery fx clk c reason d = Inr (u, d') \<Longrightarrow>
     \<not> lockClaim d c \<and> d' = d \<or> lockClaim d c \<and> (\<exists>r. finishes d d' c Failed (Some r))"
  by (auto simp: fail_delivery_def dest: finish_effect split: if_splits)

lemma cancel_effect:
  "cancel fx clk c reason d = Inr (u, d') \<Longrightarrow>
     \<not> lockClaim d c \<and> d' = d \<or> lockClaim d c \<and> finishes d d' c Cancelled (Some reason)"
  by (auto simp: cancel_def dest: finish_effect split: if_splits)

lemma hold_effect:
  "hold fx clk c reason retryAt d = Inr (u, d') \<Longrightarrow>
     \<not> lockClaim d c \<and> d' = d
     \<or> lockClaim d c \<and> (holds_back d d' c \<or> finishes d d' c Failed (Some ''delivery-expired''))"
  by (cases "lockClaim d c")
    (auto simp: hold_def update_work_def holds_back_def held_def [abs_def] lockClaim_def dest: finish_effect
      split: if_splits option.splits)

definition hands_over :: "db \<Rightarrow> db \<Rightarrow> HailEnvelope \<Rightarrow> bool" where
  "hands_over d d' e \<longleftrightarrow> (\<exists>row. delivered_messages d' = AList.update (message_of e) row (delivered_messages d))
     \<and> delivered d (message_of e) = None
     \<and> delivery_work d' = delivery_work d \<and> received_envelopes d' = received_envelopes d
     \<and> terminal_status_publications d' = terminal_status_publications d \<and> reply_capabilities d' = reply_capabilities d"

lemma insert_delivered_effect:
  assumes "insert_delivered fx e d = Inr d'" and "received d (message_of e) = Some r"
  shows "hands_over d d' e"
  using assms by (auto simp: insert_delivered_def Let_def hands_over_def has_row_def message_of_def)

lemma lockClaim_same: "same_messages d d' \<Longrightarrow> lockClaim d' c = lockClaim d c"
  by (simp add: same_messages_def lockClaim_def)

lemma lockClaim_hands_over: "hands_over d d' e \<Longrightarrow> lockClaim d' c = lockClaim d c"
  by (simp add: hands_over_def lockClaim_def)

lemma deliver_body_effect:
  assumes "deliver_body codec fx clk c bs files d = Inr (result, d')" and "lockClaim d c"
    and "received d (message_of (claim_envelope c)) = Some r"
  shows "\<exists>d1. same_messages d d1 \<and>
    (result = DeliverExpired \<and> finishes d1 d' c Failed (Some ''delivery-expired'')
     \<or> result = DeliverDelivered \<and> \<not> past (clk 3) (deliveryDeadline (claim_envelope c))
       \<and> map_of (shared_content_blobs d1) (digest_value (body_digest (env_body (claim_envelope c)))) = Some bs
       \<and> (\<exists>d2. hands_over d1 d2 (claim_envelope c) \<and> finishes d2 d' c Delivered None))"
proof -
  let ?e = "claim_envelope c"
  obtain d0 d1 where d1: "store_body codec fx (body_key ?e) bs d = Inr d0" "store_files fx (body_key ?e) files d0 = Inr d1"
      "map_of (shared_content_blobs d1) (digest_value (body_digest (env_body ?e))) = Some bs"
    and rest: "(if past (clk 3) (deliveryDeadline ?e) then
          and_then (finish fx (later 3 clk) c Failed (Some ''delivery-expired'') d1) (\<lambda>d. Inr (DeliverExpired, d))
        else and_then (insert_delivered fx ?e d1) (\<lambda>d.
          and_then (finish fx (later 3 clk) c Delivered None d) (\<lambda>d. Inr (DeliverDelivered, d)))) = Inr (result, d')"
    using assms(1) by (auto simp: deliver_body_def Let_def)
  have same: "same_messages d d1" using d1 store_body_frame store_files_frame same_messages_trans by blast
  with assms(2,3) have l: "lockClaim d1 c" "received d1 (message_of ?e) = Some r"
    by (simp_all add: lockClaim_same) (simp add: same_messages_def)
  show ?thesis
  proof (cases "past (clk 3) (deliveryDeadline ?e)")
    case True
    with rest l(1) have "result = DeliverExpired" "finishes d1 d' c Failed (Some ''delivery-expired'')"
      by (auto dest: finish_effect)
    with same show ?thesis by blast
  next
    case False
    with rest obtain d2 where d2: "insert_delivered fx ?e d1 = Inr d2" "finish fx (later 3 clk) c Delivered None d2 = Inr d'"
        "result = DeliverDelivered" by auto
    then have h: "hands_over d1 d2 ?e" using insert_delivered_effect l(2) by blast
    with d2(2) l(1) have "finishes d2 d' c Delivered None" using finish_effect lockClaim_hands_over by blast
    with same h d2(3) False d1(3) show ?thesis by blast
  qed
qed

lemma deliver_effect:
  assumes "deliver codec fx connections clk t before between c bs attachments d = Inr (result, d')"
    and "received d (message_of (claim_envelope c)) = Some r"
  shows "\<not> lockClaim d c \<and> result = DeliverLostLease \<and> d' = d
    \<or> lockClaim d c \<and> (\<exists>d1. same_messages d d1 \<and>
        (result \<noteq> DeliverDelivered \<and> (\<exists>reason. finishes d1 d' c Failed (Some reason))
         \<or> result = DeliverDelivered \<and> (\<exists>d2. hands_over d1 d2 (claim_envelope c) \<and> finishes d2 d' c Delivered None)))"
proof -
  obtain files authorized where "deliver_transaction codec fx clk c bs files authorized d = Inr (result, d')"
    using assms(1) by (auto simp: deliver_def Let_def)
  then consider "\<not> lockClaim d c" "result = DeliverLostLease" "d' = d"
    | clk' reason where "lockClaim d c" "finish fx clk' c Failed (Some reason) d = Inr d'" "result \<noteq> DeliverDelivered"
    | "lockClaim d c" "deliver_body codec fx clk c bs files d = Inr (result, d')"
    by (fastforce simp: deliver_transaction_def Let_def split: if_splits)
  then show ?thesis
  proof cases
    case 2
    then show ?thesis using finish_effect same_messages_refl by blast
  next
    case 3
    from deliver_body_effect [OF 3(2,1) assms(2)] 3(1) show ?thesis by blast
  qed simp
qed

section \<open>What acceptance does to the tables\<close>

definition records_envelope :: "db \<Rightarrow> db \<Rightarrow> EnvelopeDecision \<Rightarrow> received_outcome \<Rightarrow> bool" where
  "records_envelope d d' input result \<longleftrightarrow>
     (let k = message_of (dec_payload input) in
      received d k = None
      \<and> (\<exists>grantId replyTo now. received_envelopes d' = AList.update k (received_of input grantId replyTo result now) (received_envelopes d))
      \<and> (if result = WasAccepted then work d k = None \<and> (\<exists>t. delivery_work d' = AList.update k (new_work t) (delivery_work d))
         else delivery_work d' = delivery_work d))
     \<and> terminal_status_publications d' = terminal_status_publications d \<and> delivered_messages d' = delivered_messages d"

definition claims_reply :: "db \<Rightarrow> db \<Rightarrow> HailEnvelope \<Rightarrow> bool" where
  "claims_reply d d' p = (case reply_key (env_to p) (env_authorization p) of
     None \<Rightarrow> reply_capabilities d' = reply_capabilities d
   | Some k \<Rightarrow> (\<exists>cap t. capabilities d k = Some cap \<and> cap_state cap = Available
       \<and> reply_capabilities d' = AList.update k
           (cap\<lparr>cap_state := Claimed, cap_claimed := Some (message_of p), cap_updated_at := t\<rparr>) (reply_capabilities d)))"

definition takes_in :: "db \<Rightarrow> db \<Rightarrow> EnvelopeDecision \<Rightarrow> bool" where
  "takes_in d d' input \<longleftrightarrow> same_messages d d'
     \<or> records_envelope d d' input WasAccepted \<and> claims_reply d d' (dec_payload input)
     \<or> (\<exists>result. result \<noteq> WasAccepted \<and> records_envelope d d' input result \<and> reply_capabilities d' = reply_capabilities d)"

lemma insertReceived_effect:
  assumes "insertReceived sv fx limits clk input grantId replyTo result now retained d = Inr (inserted, d')"
  shows "\<not> inserted \<and> d' = d
    \<or> inserted \<and> records_envelope d d' input result \<and> reply_capabilities d' = reply_capabilities d"
  using assms
  by (auto simp: insertReceived_def Let_def records_envelope_def has_row_def split: if_splits) blast+

lemma takes_in_inserted:
  assumes "insertReceived sv fx limits clk input grantId replyTo result now retained d = Inr (inserted, d')"
    and "reply_key (env_to (dec_payload input)) (env_authorization (dec_payload input)) = None"
  shows "takes_in d d' input"
  using insertReceived_effect [OF assms(1)] assms(2)
  by (cases "result = WasAccepted") (auto simp: takes_in_def claims_reply_def)

lemma admitConversation_frame:
  assumes "admitConversation codec fx clk owner descriptor p d = Inr (r, d')"
  shows "same_messages d d'"
proof (cases "d' = d")
  case False
  then obtain c h e dm t k' where "retain_descriptor fx c h e p d = Inr dm" "add_membership fx t k' dm = Inr d'"
    using assms by (fastforce simp: admitConversation_def Let_def split: if_splits)
  then show ?thesis by (auto simp: retain_descriptor_def add_membership_def same_messages_def split: if_splits)
qed simp

lemma introduce_frame: "introduce codec sv fx limits clk input d = Inr (b, d') \<Longrightarrow> same_messages d d'"
  by (auto simp: introduce_def Let_def dest: admitConversation_frame split: option.splits)

lemma takes_in_same: "same_messages d d1 \<Longrightarrow> takes_in d1 d' input \<Longrightarrow> takes_in d d' input"
  by (auto simp: takes_in_def same_messages_def records_envelope_def claims_reply_def split: option.splits)

lemma acceptConversation_takes_in:
  assumes "acceptConversation codec sv fx limits clk input creator conversation h d = Inr (r, d')"
    and "reply_key (env_to (dec_payload input)) (env_authorization (dec_payload input)) = None"
  shows "takes_in d d' input"
proof -
  consider "d' = d" | b d1 where "introduce codec sv fx limits clk input d = Inr (b, d1)" "d' = d1"
    | b d1 inserted result where "introduce codec sv fx limits clk input d = Inr (b, d1)"
      "insertReceived sv fx limits clk input None None result (clk 5) b d1 = Inr (inserted, d')"
    using assms(1) by (fastforce simp: acceptConversation_def Let_def split: if_splits option.splits)
  then show ?thesis
  proof cases
    case 3
    then show ?thesis using takes_in_inserted [OF 3(2) assms(2)] introduce_frame takes_in_same by blast
  qed (auto simp: takes_in_def dest: introduce_frame)
qed

lemma acceptConnection_takes_in:
  assumes "acceptConnection sv fx limits clk input connection epoch d = Inr (r, d')"
    and "reply_key (env_to (dec_payload input)) (env_authorization (dec_payload input)) = None"
  shows "takes_in d d' input"
proof -
  consider "d' = d" | inserted result where
      "insertReceived sv fx limits clk input None None result (clk 1) False d = Inr (inserted, d')"
    using assms(1) by (fastforce simp: acceptConnection_def Let_def split: if_splits option.splits)
  then show ?thesis by cases (auto simp: takes_in_def [of d d] intro: takes_in_inserted assms(2))
qed

lemma acceptGrant_takes_in:
  assumes "acceptGrant sv fx limits clk input grantId d = Inr (r, d')"
    and "reply_key (env_to (dec_payload input)) (env_authorization (dec_payload input)) = None"
  shows "takes_in d d' input"
proof -
  consider "d' = d" | inserted result where
      "insertReceived sv fx limits clk input (Some grantId) None result (clk 1) False d = Inr (inserted, d')"
    using assms(1) by (fastforce simp: acceptGrant_def Let_def split: if_splits option.splits)
  then show ?thesis by cases (auto simp: takes_in_def [of d d] intro: takes_in_inserted assms(2))
qed

lemma decided_accepted: "decided p t ok = WasAccepted \<longleftrightarrow> \<not> past t (deliveryDeadline p) \<and> ok"
  by (simp add: decided_def)

lemma record_reply_takes_in:
  assumes "record_reply sv fx limits clk input replyTo original cap d = Inr (r, d')"
    and "env_authorization (dec_payload input) = ReplyAuthorization replyTo"
    and "capabilities d (env_to (dec_payload input), replyTo) = Some cap"
  shows "takes_in d d' input"
proof -
  let ?p = "dec_payload input"
  let ?r = "decided ?p (clk 1) (reply_permitted original cap (clk 1))"
  obtain inserted d2 where d2: "insertReceived sv fx limits clk input None (Some replyTo) ?r (clk 1) False d = Inr (inserted, d2)"
    and d': "(if inserted \<and> ?r = WasAccepted then claim_capability fx (clk 2) ?p replyTo cap d2 else Inr d2) = Inr d'"
    using assms(1) by (auto simp: record_reply_def Let_def simp del: if_split)
  from insertReceived_effect [OF d2] consider "\<not> inserted" "d2 = d"
    | "inserted" "records_envelope d d2 input ?r" "reply_capabilities d2 = reply_capabilities d" by blast
  then show ?thesis
  proof cases
    case 2
    show ?thesis
    proof (cases "?r = WasAccepted")
      case True
      then have "cap_state cap = Available"
        by (auto simp: decided_accepted reply_permitted_def split: HailReplyPermission.splits)
      with True 2 d' assms(3) show ?thesis
        by (auto simp: takes_in_def claims_reply_def reply_key_def assms(2) claim_capability_def records_envelope_def Let_def)
    next
      case False
      with 2 d' show ?thesis by (auto simp: takes_in_def)
    qed
  qed (use d' in \<open>simp add: takes_in_def\<close>)
qed

lemma acceptReply_takes_in:
  assumes "acceptReply codec sv fx limits clk input replyTo d = Inr (r, d')"
    and "env_authorization (dec_payload input) = ReplyAuthorization replyTo"
  shows "takes_in d d' input"
proof -
  consider "d' = d" | cap original where "capabilities d (env_to (dec_payload input), replyTo) = Some cap"
      "record_reply sv fx limits clk input replyTo original cap d = Inr (r, d')"
    using assms(1) by (fastforce simp: acceptReply_def Let_def split: if_splits option.splits)
  then show ?thesis by cases (auto simp: takes_in_def [of d d] intro: record_reply_takes_in assms(2))
qed

lemma accept_takes_in:
  assumes "accept codec sv fx limits clk input d = (r, d')"
  shows "takes_in d d' input"
proof (cases "acceptWithinBudget codec sv fx limits clk input d")
  case (Inl e)
  with assms show ?thesis by (simp add: accept_def takes_in_def split: if_splits)
next
  case (Inr b)
  then obtain result where "acceptWithinBudget codec sv fx limits clk input d = Inr (result, d')"
    using assms by (cases b) (auto simp: accept_def)
  then show ?thesis
    by (cases "env_authorization (dec_payload input)")
      (auto simp: acceptWithinBudget_def reply_key_def
        intro: acceptGrant_takes_in acceptReply_takes_in acceptConnection_takes_in acceptConversation_takes_in)
qed

lemma authenticate_decision:
  assumes "authenticate rx seen t cose = Inr (Some input)"
  obtains sender verified where "inspectEnvelope (rx_codec rx) cose = Inr (dec_payload input)" "dec_representation input = cose"
    "rx_resolve rx (env_from (dec_payload input)) = Inr sender"
    "verifySignedPayload (codec_lib (rx_codec rx)) (codec_env (rx_codec rx)) Envelope cose
       (messaging_verifier (rx_crypto rx) (env_from (dec_payload input)) (messagingDidKey sender)) = Inr verified"
    "dec_payloadDigest input = sha256 (codec_env (rx_codec rx)) (object_payloadBytes verified)"
    "dec_signingKey input = messagingDidKey sender" "env_from (dec_payload input) \<noteq> env_to (dec_payload input)"
  using assms by (auto simp: authenticate_def Let_def split: if_splits option.splits)

lemma receive_effect:
  assumes "receive rx seen clk cose d = (r, d')"
  shows "d' = d \<or> (\<exists>input. takes_in d d' input \<and> inspectEnvelope (rx_codec rx) (dec_representation input) = Inr (dec_payload input))"
proof -
  consider "d' = d" | input b where "authenticate rx seen (clk 0) cose = Inr (Some input)"
      "accept (rx_codec rx) (rx_services rx) (rx_functions rx) (rx_limits rx) clk input d = (b, d')"
    using assms by (auto simp: receive_def split: sum.splits option.splits prod.splits)
  then show ?thesis
  proof cases
    case 2
    from 2(1) have "inspectEnvelope (rx_codec rx) (dec_representation input) = Inr (dec_payload input)"
      by (auto elim!: authenticate_decision)
    with accept_takes_in [OF 2(2)] show ?thesis by blast
  qed simp
qed

definition opens_reply :: "db \<Rightarrow> db \<Rightarrow> bool" where
  "opens_reply d d' \<longleftrightarrow> delivery_work d' = delivery_work d \<and> received_envelopes d' = received_envelopes d
     \<and> terminal_status_publications d' = terminal_status_publications d \<and> delivered_messages d' = delivered_messages d
     \<and> (reply_capabilities d' = reply_capabilities d
        \<or> (\<exists>k row. capabilities d k = None \<and> reply_capabilities d' = AList.update k row (reply_capabilities d)))"

lemma insert_sent_frame: "insert_sent fx p cose digest account d = Inr d' \<Longrightarrow> same_messages d d'"
  by (auto simp: insert_sent_def same_messages_def)

lemma authorize_body_frame: "authorize_body codec fx p account d = Inr d' \<Longrightarrow> same_messages d d'"
  by (auto simp: authorize_body_def Let_def same_messages_def)

lemma extend_availability_frame: "extend_availability fx p k row d = Inr d' \<Longrightarrow> same_messages d d'"
  by (auto simp: extend_availability_def same_messages_def split: if_splits)

lemma open_capability_effect: "open_capability fx now p d = Inr d' \<Longrightarrow> opens_reply d d'"
  by (auto simp: open_capability_def opens_reply_def has_row_def message_of_def split: HailReplyPermission.splits)

lemma persist_sent_effect:
  assumes "persist_sent codec fx clk p cose digest account k row d = Inr (u, d')"
  shows "opens_reply d d'"
proof -
  from assms obtain d1 d2 d3 where "insert_sent fx p cose digest account d = Inr d1" "open_capability fx (clk 0) p d1 = Inr d2"
      "authorize_body codec fx p account d2 = Inr d3" "extend_availability fx p k row d3 = Inr d'"
    by (auto simp: persist_sent_def)
  then have "same_messages d d1" "opens_reply d1 d2" "same_messages d2 d3" "same_messages d3 d'"
    by (simp_all add: insert_sent_frame open_capability_effect authorize_body_frame extend_availability_frame)
  then show ?thesis unfolding opens_reply_def same_messages_def by metis
qed

lemma createSent_effect: "createSent codec fx clk p cose account d = Inr (u, d') \<Longrightarrow> opens_reply d d'"
  by (auto simp: createSent_def Let_def dest: persist_sent_effect)

definition leases :: "codec \<Rightarrow> db \<Rightarrow> db \<Rightarrow> instant \<Rightarrow> DeliveryClaim \<Rightarrow> bool" where
  "leases codec d d' now c \<longleftrightarrow>
     (\<exists>w r expires. work d (claim_key c) = Some w \<and> open_state (work_state w)
       \<and> received d (claim_key c) = Some r \<and> inspectEnvelope codec (rcv_cose r) = Inr (claim_envelope c)
       \<and> message_of (claim_envelope c) = claim_key c
       \<and> running_of_sender d now (claim_sender c) = []
       \<and> length (running_to_recipient d now (rcv_recipient r)) < 2
       \<and> delivery_work d' = AList.update (claim_key c) (w\<lparr>lease_token := Some (claim_lease c), lease_expires_at := Some expires,
            attempt_count := attempt_count w + 1\<rparr>) (delivery_work d))
     \<and> received_envelopes d' = received_envelopes d \<and> terminal_status_publications d' = terminal_status_publications d
     \<and> delivered_messages d' = delivered_messages d \<and> reply_capabilities d' = reply_capabilities d"

lemma claimDue_effect:
  assumes "claimDue codec fx clk locked token seconds d = Inr (Some c, d')" and "keyed (delivery_work d)"
  shows "leases codec d d' (clk 0) c"
proof -
  obtain k w where kw: "first_by (claim_order d) (filter (claimable d (clk 0) locked) (delivery_work d)) = Some (k, w)"
    using assms(1) by (auto simp: claimDue_def split: option.splits)
  then have m: "(k, w) \<in> set (delivery_work d)" and cl: "claimable d (clk 0) locked (k, w)"
    using first_by_mem by fastforce+
  then have w: "work d k = Some w" using assms(2) by (simp add: keyed_def)
  from assms(1) kw obtain r e where "received d k = Some r" "inspectEnvelope codec (rcv_cose r) = Inr e"
      "env_from e = fst k" "env_message_id e = snd k"
      "c = \<lparr>claim_sender = fst k, claim_message = snd k, claim_lease = token, claim_attempts = attempt_count w + 1, claim_envelope = e\<rparr>"
      "received_envelopes d' = received_envelopes d" "terminal_status_publications d' = terminal_status_publications d"
      "delivered_messages d' = delivered_messages d" "reply_capabilities d' = reply_capabilities d"
      "delivery_work d' = AList.update k (w\<lparr>lease_token := Some token, lease_expires_at := Some (clk 0 + seconds * 1000000),
         attempt_count := attempt_count w + 1\<rparr>) (delivery_work d)"
    by (auto simp: claimDue_def update_work_def w split: option.splits)
  with cl w show ?thesis
    by (auto simp: leases_def claim_key_def message_of_def claimable_def due_def)
qed

end
