(* ===== verification/Base64Url.thy ===== *)
theory Base64Url
  imports Errors
begin

text \<open>
  \<^verbatim>\<open>packages/hail-codec-ts/src/base64url.ts\<close>: unpadded base64url. The encoder packs three
  bytes into a 24-bit number and reads it as four digits; the decoder shifts digits into a
  32-bit accumulator that overflows on long inputs and takes the byte above the pending bits.
\<close>

unbundle bit_operations_syntax

section \<open>Definitions\<close>

definition ALPHABET :: jstring where
  "ALPHABET = lit ''ABCDEFGHIJKLMNOPQRSTUVWXYZabcdefghijklmnopqrstuvwxyz0123456789-_''"

definition digit_char :: "32 word \<Rightarrow> code_unit" where
  "digit_char d = ALPHABET ! unat d"

text \<open>The four digits of \<open>combined\<close>, and how many of them the group writes.\<close>

definition combine :: "byte \<Rightarrow> byte \<Rightarrow> byte \<Rightarrow> 32 word" where
  "combine first second third = push_bit 16 (ucast first) OR push_bit 8 (ucast second) OR ucast third"

fun encodeBase64Url :: "bytes \<Rightarrow> jstring" where
  "encodeBase64Url [] = []"
| "encodeBase64Url [a] =
     (let combined = combine a 0 0
      in [digit_char (drop_bit 18 combined AND 63), digit_char (drop_bit 12 combined AND 63)])"
| "encodeBase64Url [a, b] =
     (let combined = combine a b 0
      in [digit_char (drop_bit 18 combined AND 63), digit_char (drop_bit 12 combined AND 63),
          digit_char (drop_bit 6 combined AND 63)])"
| "encodeBase64Url (a # b # c # rest) =
     (let combined = combine a b c
      in [digit_char (drop_bit 18 combined AND 63), digit_char (drop_bit 12 combined AND 63),
          digit_char (drop_bit 6 combined AND 63), digit_char (combined AND 63)])
       @ encodeBase64Url rest"

text \<open>\<open>ALPHABET.indexOf(character)\<close>: the position of the first occurrence, -1 if there is none.\<close>

fun index_from :: "nat \<Rightarrow> code_unit list \<Rightarrow> code_unit \<Rightarrow> int" where
  "index_from i [] c = -1"
| "index_from i (x # xs) c = (if x = c then int i else index_from (Suc i) xs c)"

definition alphabet_index :: "code_unit \<Rightarrow> 32 word" where
  "alphabet_index c = word_of_int (index_from 0 ALPHABET c)"

text \<open>The decoding loop: accumulator, pending bits, bytes written so far.\<close>

definition shift_in :: "32 word \<Rightarrow> 32 word \<Rightarrow> 32 word" where
  "shift_in accumulator digit = push_bit 6 accumulator OR digit"

definition take_byte :: "nat \<Rightarrow> 32 word \<Rightarrow> byte" where
  "take_byte bits accumulator = ucast (drop_bit bits accumulator AND 255)"

definition low_bits :: "nat \<Rightarrow> 32 word \<Rightarrow> 32 word" where
  "low_bits bits accumulator = accumulator AND (push_bit bits 1 - 1)"

fun decode_loop :: "jstring \<Rightarrow> 32 word \<Rightarrow> nat \<Rightarrow> bytes \<times> 32 word \<times> nat" where
  "decode_loop [] accumulator bits = ([], accumulator, bits)"
| "decode_loop (c # cs) accumulator bits =
     (let accumulator = shift_in accumulator (alphabet_index c); bits = bits + 6
      in if 8 \<le> bits
         then let bits = bits - 8;
                  byte = take_byte bits accumulator;
                  (out, fin) = decode_loop cs accumulator bits
              in (byte # out, fin)
         else decode_loop cs accumulator bits)"

definition decodeBase64Url :: "jstring \<Rightarrow> nat option \<Rightarrow> bytes result" where
  "decodeBase64Url value expectedLength =
     (if \<not> list_all is_base64url value \<or> length value mod 4 = 1 then throw InvalidDiagnosticJson
      else let (output, accumulator, bits) = decode_loop value 0 0
           in if 0 < bits \<and> low_bits bits accumulator \<noteq> 0 then throw InvalidDiagnosticJson
              else if encodeBase64Url output \<noteq> value then throw InvalidDiagnosticJson
              else if expectedLength \<noteq> None \<and> length output \<noteq> the expectedLength
                then throw InvalidDiagnosticJson
              else Inr output)"

section \<open>The alphabet\<close>

lemma index_from_nth:
  "distinct xs \<Longrightarrow> k < length xs \<Longrightarrow> index_from i xs (xs ! k) = int (i + k)"
proof (induction xs arbitrary: i k)
  case (Cons x xs)
  then show ?case by (cases k) (auto simp: nth_eq_iff_index_eq)
qed simp

lemma distinct_ALPHABET: "distinct ALPHABET"
  by code_simp

lemma length_ALPHABET [simp]: "length ALPHABET = 64"
  by (simp add: ALPHABET_def)

lemma alphabet_base64url: "list_all is_base64url ALPHABET"
  by code_simp

lemma alphabet_index_digit: "unat d < 64 \<Longrightarrow> alphabet_index (digit_char d) = d"
  by (simp add: alphabet_index_def digit_char_def index_from_nth distinct_ALPHABET)

lemma digit_is_base64url: "unat d < 64 \<Longrightarrow> is_base64url (digit_char d)"
  using alphabet_base64url by (simp add: digit_char_def list_all_length)

lemma and_63: "x AND 63 = take_bit 6 (x :: 32 word)"
  by (simp add: take_bit_eq_mask mask_eq_exp_minus_1)

lemma and_255: "x AND 255 = take_bit 8 (x :: 32 word)"
  by (simp add: take_bit_eq_mask mask_eq_exp_minus_1)

lemma and_63_less: "unat (x AND 63 :: 32 word) < 64"
proof -
  have "unat (take_bit 6 x) < 2 ^ 6" by (simp only: unsigned_take_bit_eq take_bit_nat_less_exp)
  then show ?thesis by (simp add: and_63)
qed

lemma alphabet_index_and_63 [simp]: "alphabet_index (digit_char (x AND 63)) = x AND 63"
  by (simp add: alphabet_index_digit and_63_less)

section \<open>Round trip\<close>

lemma encode_base64url_chars: "list_all is_base64url (encodeBase64Url bs)"
  by (induction bs rule: encodeBase64Url.induct) (simp_all add: Let_def digit_is_base64url and_63_less)

lemma length_encode_mod_4: "length (encodeBase64Url bs) mod 4 \<noteq> Suc 0"
  by (induction bs rule: encodeBase64Url.induct) (simp_all add: Let_def)

text \<open>
  The bytes the decoder takes out after the second, third and fourth digit of a group do not
  depend on what the accumulator held before.
\<close>

definition group_digit :: "nat \<Rightarrow> 32 word \<Rightarrow> 32 word" where
  "group_digit k w = drop_bit k w AND 63"

lemmas group_bits = and_63 and_255 combine_def group_digit_def shift_in_def take_byte_def bit_simps

lemma bit_byte_bound: "\<not> bit (a :: byte) n" if "8 \<le> n"
  using that bit_imp_le_length [of a n] by fastforce

lemma byte_index_cases: "n < LENGTH(8) \<Longrightarrow> n \<in> {0, 1, 2, 3, 4, 5, 6, 7}"
  by auto

lemma group_byte_1:
  "take_byte 4 (shift_in (shift_in acc (group_digit 18 (combine a b c))) (group_digit 12 (combine a b c))) = a"
  by (rule bit_word_eqI, drule byte_index_cases, elim insertE emptyE)
    (simp_all add: group_bits bit_byte_bound)

lemma group_byte_2:
  "take_byte 2 (shift_in (shift_in acc (group_digit 12 (combine a b c))) (group_digit 6 (combine a b c))) = b"
  by (rule bit_word_eqI, drule byte_index_cases, elim insertE emptyE)
    (simp_all add: group_bits bit_byte_bound)

lemma group_byte_3:
  "take_byte 0 (shift_in (shift_in acc (group_digit 6 (combine a b c))) (group_digit 0 (combine a b c))) = c"
  by (rule bit_word_eqI, drule byte_index_cases, elim insertE emptyE)
    (simp_all add: group_bits bit_byte_bound)

text \<open>The bits left over after an incomplete group are zero.\<close>

lemma bit_low_bits: "bit (low_bits n w) k \<longleftrightarrow> k < n \<and> bit w k"
proof -
  have "low_bits n w = w AND mask n"
    by (simp add: low_bits_def mask_eq_exp_minus_1 push_bit_eq_mult)
  then show ?thesis using bit_imp_le_length [of w k] by (auto simp: bit_simps)
qed

lemma tail_1: "low_bits 4 (shift_in acc (group_digit 12 (combine a 0 0))) = 0"
proof (rule bit_word_eqI)
  fix n assume "n < LENGTH(32)"
  consider "n \<in> {0, 1, 2, 3}" | "4 \<le> n" by force
  then show "bit (low_bits 4 (shift_in acc (group_digit 12 (combine a 0 0)))) n = bit 0 n"
    by cases (auto simp: bit_low_bits group_bits)
qed

lemma tail_2: "low_bits 2 (shift_in acc (group_digit 6 (combine a b 0))) = 0"
proof (rule bit_word_eqI)
  fix n assume "n < LENGTH(32)"
  consider "n \<in> {0, 1}" | "2 \<le> n" by force
  then show "bit (low_bits 2 (shift_in acc (group_digit 6 (combine a b 0)))) n = bit 0 n"
    by cases (auto simp: bit_low_bits group_bits)
qed

lemma encode_group_digits:
  "encodeBase64Url [a] = map digit_char [group_digit 18 (combine a 0 0), group_digit 12 (combine a 0 0)]"
  "encodeBase64Url [a, b] = map digit_char
     [group_digit 18 (combine a b 0), group_digit 12 (combine a b 0), group_digit 6 (combine a b 0)]"
  "encodeBase64Url (a # b # c # rest) = map digit_char
     [group_digit 18 (combine a b c), group_digit 12 (combine a b c),
      group_digit 6 (combine a b c), group_digit 0 (combine a b c)] @ encodeBase64Url rest"
  by (simp_all add: Let_def group_digit_def)

lemma alphabet_index_group [simp]: "alphabet_index (digit_char (group_digit k w)) = group_digit k w"
  by (simp only: group_digit_def alphabet_index_and_63)

lemma decode_loop_encode:
  "\<exists>accumulator bits. decode_loop (encodeBase64Url bs) acc 0 = (bs, accumulator, bits)
     \<and> (0 < bits \<longrightarrow> low_bits bits accumulator = 0)"
proof (induction bs arbitrary: acc rule: encodeBase64Url.induct)
  case (2 a)
  show ?case by (simp add: encode_group_digits(1) group_byte_1 tail_1 del: encodeBase64Url.simps(2))
next
  case (3 a b)
  show ?case
    by (simp add: encode_group_digits(2) group_byte_1 group_byte_2 tail_2 del: encodeBase64Url.simps(3))
next
  case (4 a b c rest)
  let ?w = "combine a b c"
  let ?acc = "shift_in (shift_in (shift_in (shift_in acc (group_digit 18 ?w)) (group_digit 12 ?w))
    (group_digit 6 ?w)) (group_digit 0 ?w)"
  obtain accumulator bits where
    "decode_loop (encodeBase64Url rest) ?acc 0 = (rest, accumulator, bits)"
    "0 < bits \<longrightarrow> low_bits bits accumulator = 0"
    using 4 [of ?acc] by blast
  then show ?case
    by (simp add: encode_group_digits(3) group_byte_1 group_byte_2 group_byte_3
        del: encodeBase64Url.simps(4))
qed simp

lemma decode_encode: "decodeBase64Url (encodeBase64Url bs) None = Inr bs"
  using decode_loop_encode [of bs 0]
  by (auto simp: decodeBase64Url_def encode_base64url_chars length_encode_mod_4)

lemma encode_injective: "encodeBase64Url bs = encodeBase64Url cs \<longleftrightarrow> bs = cs"
  by (metis decode_encode sum.inject(2))

lemma decode_Inr_encode: "decodeBase64Url value n = Inr bs \<Longrightarrow> encodeBase64Url bs = value"
  by (auto simp: decodeBase64Url_def split: if_splits prod.splits)

text \<open>
  C5. The base64url decoder accepts exactly the output of the encoder: with an expected length
  it returns bytes \<open>bs\<close> on \<open>value\<close> if and only if \<open>value\<close> is the encoding of \<open>bs\<close> and \<open>bs\<close> has
  that length, although its 32-bit accumulator overflows on every input of more than five
  digits. Every other input is refused.
\<close>

theorem decodeBase64Url_exact:
  "decodeBase64Url value expectedLength = Inr bs \<longleftrightarrow>
     value = encodeBase64Url bs \<and> (case expectedLength of None \<Rightarrow> True | Some n \<Rightarrow> length bs = n)"
proof
  assume h: "decodeBase64Url value expectedLength = Inr bs"
  moreover have "case expectedLength of None \<Rightarrow> True | Some n \<Rightarrow> length bs = n"
    using h by (auto simp: decodeBase64Url_def split: if_splits prod.splits option.splits)
  ultimately show "value = encodeBase64Url bs \<and>
      (case expectedLength of None \<Rightarrow> True | Some n \<Rightarrow> length bs = n)"
    using decode_Inr_encode by blast
next
  assume "value = encodeBase64Url bs \<and> (case expectedLength of None \<Rightarrow> True | Some n \<Rightarrow> length bs = n)"
  then show "decodeBase64Url value expectedLength = Inr bs"
    using decode_loop_encode [of bs 0]
    by (auto simp: decodeBase64Url_def encode_base64url_chars length_encode_mod_4 split: option.splits)
qed

end
