(* ===== verification/Status.thy ===== *)
theory Status
  imports EnvelopeStore Base64Url
begin

text \<open>
  \<^verbatim>\<open>apps/server/src/delivery/status.ts\<close>, \<open>status-publisher.ts\<close> and \<open>status-receiver.ts\<close>: the recipient's
  provider signs the current state of a delivery and pushes the final one to the sender's provider,
  which records what it was told. Keys, PLC resolution, HTTP and the parser of HTTP dates are
  parameters. Times of a process are milliseconds, instants of the database microseconds.
\<close>

declare split_paired_All [simp del] split_paired_Ex [simp del]

section \<open>Signing the current status\<close>

record AccountKeyRecord =
  key_algorithm :: string
  key_publicKey :: jstring

record status_services =
  sx_codec :: codec
  sx_crypto :: crypto
  sx_functions :: sql_functions
  sx_getKey :: "jstring \<Rightarrow> AccountKeyRecord outcome"
  sx_privateKey :: "jstring \<Rightarrow> AccountKeyRecord \<Rightarrow> CryptoKey outcome"
  sx_resolve :: "jstring \<Rightarrow> HailDidDocument outcome"
  sx_serviceBase :: jstring
  retainPublicSigningAuthority :: "jstring \<Rightarrow> jstring \<Rightarrow> jstring \<Rightarrow> bytes \<Rightarrow> PlcResolutionEvidence \<Rightarrow> db \<Rightarrow> unit outcome"

definition js_seconds :: "instant \<Rightarrow> int" where
  "js_seconds t = js_time t div 1000"

definition js_ceil_seconds :: "instant \<Rightarrow> int" where
  "js_ceil_seconds t = - ((- js_time t) div 1000)"

text \<open>The payload for a delivery: the row of the envelope joined with its queue entry.\<close>

definition retry_time :: "codec \<Rightarrow> received_row \<Rightarrow> work_row \<Rightarrow> int \<Rightarrow> int outcome" where
  "retry_time c r w occurredAt =
     and_then (inspectEnvelope c (rcv_cose r)) (\<lambda>e.
       Inr (max occurredAt (min (deliveryDeadline e) (js_ceil_seconds (next_attempt_at w)))))"

definition status_payload :: "codec \<Rightarrow> message_key \<Rightarrow> received_row \<Rightarrow> work_row \<Rightarrow> instant \<Rightarrow> HailDeliveryStatus outcome" where
  "status_payload c k r w accepted =
     (let occurredAt = js_seconds (if status_revision w = 1 then accepted else transitioned_at w);
          base = \<lparr>st_message_id = snd k, st_envelope_digest = \<lparr>digest_value = rcv_envelope_digest r\<rparr>,
            st_from = rcv_recipient r, st_to = fst k, st_revision = int (status_revision w), st_state = work_state w,
            st_reason = None, st_occurred_at = occurredAt, st_retry_at = None\<rparr> in
      case work_state w of
        Accepted \<Rightarrow> Inr (base\<lparr>st_revision := 1\<rparr>)
      | OnHold \<Rightarrow> and_then (retry_time c r w occurredAt) (\<lambda>t.
          Inr (base\<lparr>st_reason := map_option lit (work_reason w), st_retry_at := Some t\<rparr>))
      | Delivered \<Rightarrow> Inr base
      | _ \<Rightarrow> Inr (base\<lparr>st_reason := map_option lit (work_reason w)\<rparr>))"

definition encodeStatus :: "codec \<Rightarrow> HailDeliveryStatus \<Rightarrow> bytes outcome" where
  "encodeStatus c s = codec_result (encodePayload (codec_lib c) (codec_env c) DeliveryStatus
     (of_hail (status_object s)) DEFAULT_HAIL_RESOURCE_LIMITS)"

definition sign_status :: "status_services \<Rightarrow> received_row \<Rightarrow> AccountKeyRecord \<Rightarrow> HailDeliveryStatus \<Rightarrow> bytes outcome" where
  "sign_status sx r key payload =
     (let c = sx_codec sx; cr = sx_crypto sx; did = rcv_recipient r in
      and_then (sx_privateKey sx (rcv_account r) key) (\<lambda>secret.
      and_then (codec_result (createWebCryptoSigner (messaging_key_id did) secret (subtle cr))) (\<lambda>signer.
      and_then (codec_result (signPayload (codec_lib c) (codec_env c) DeliveryStatus (of_hail (status_object payload)) signer)) (\<lambda>cose.
      and_then (codec_result (verifySignedPayload (codec_lib c) (codec_env c) DeliveryStatus cose
          (messaging_verifier cr did (key_publicKey key)))) (\<lambda>_.
        if 16384 < length cose then fail_with ''Signed status exceeds 16 KiB'' else Inr cose)))))"

definition persist_payload :: "sql_functions \<Rightarrow> message_key \<Rightarrow> int \<Rightarrow> bytes \<Rightarrow> db \<Rightarrow> db outcome" where
  "persist_payload fx k revision bs d =
     (let key = (k, nat revision) in
      if refuses fx (WriteStatusPayload k) d then Inl Rejected
      else (case map_of (delivery_status_payloads d) key of
        None \<Rightarrow> Inr (d\<lparr>delivery_status_payloads := AList.update key bs (delivery_status_payloads d)\<rparr>)
      | Some old \<Rightarrow> if old \<noteq> bs then fail_with ''Status revision conflicts with persisted payload'' else Inr d))"

definition persist_wrapper ::
  "sql_functions \<Rightarrow> message_key \<Rightarrow> int \<Rightarrow> jstring \<Rightarrow> bytes \<Rightarrow> PlcResolutionEvidence \<Rightarrow> db \<Rightarrow> db outcome" where
  "persist_wrapper fx k revision key cose evidence d =
     perform fx (WriteStatusWrapper k) (\<lambda>d.
       if has_row (delivery_status_wrappers d) ((k, nat revision), key) then d
       else d\<lparr>delivery_status_wrappers :=
         AList.update ((k, nat revision), key) (cose, evidence) (delivery_status_wrappers d)\<rparr>) d"

definition status_signable :: "status_services \<Rightarrow> received_row \<Rightarrow> db \<Rightarrow> bool" where
  "status_signable sx r d = (case map_of (provider_accounts d) (rcv_account r) of
     None \<Rightarrow> False | Some a \<Rightarrow> acc_did a = Some (rcv_recipient r) \<and> publicly_active a)"

text \<open>The delivery is read in the state \<open>seen 0\<close>, the account in \<open>seen 1\<close>, and the result stored in \<open>d\<close>.\<close>

definition sign_and_store ::
  "status_services \<Rightarrow> (nat \<Rightarrow> db) \<Rightarrow> message_key \<Rightarrow> received_row \<Rightarrow> HailDeliveryStatus \<Rightarrow> db \<Rightarrow> (bytes option \<times> db) outcome" where
  "sign_and_store sx seen k r payload d =
     (let fx = sx_functions sx in
      and_then (encodeStatus (sx_codec sx) payload) (\<lambda>payloadBytes.
        if \<not> status_signable sx r (seen 1) then fail_with ''Status signer is not publicly active''
        else
          and_then (sx_getKey sx (rcv_account r)) (\<lambda>key.
          and_then (sx_resolve sx (rcv_recipient r)) (\<lambda>resolved.
            if key_algorithm key \<noteq> ''ed25519'' \<or> key_publicKey key \<noteq> messagingDidKey resolved
                \<or> serviceBase resolved \<noteq> sx_serviceBase sx
              then fail_with ''Current PLC does not authorize status signing''
            else
              and_then (sign_status sx r key payload) (\<lambda>cose.
              and_then (persist_payload fx k (st_revision payload) payloadBytes d) (\<lambda>d.
              and_then (persist_wrapper fx k (st_revision payload) (key_publicKey key) cose (document_evidence resolved) d) (\<lambda>d.
              and_then (retainPublicSigningAuthority sx (rcv_account r) (rcv_recipient r) (key_publicKey key) cose
                  (document_evidence resolved) d) (\<lambda>_. Inr (Some cose, d)))))))))"

definition signCurrent ::
  "status_services \<Rightarrow> (nat \<Rightarrow> db) \<Rightarrow> message_key \<Rightarrow> db \<Rightarrow> (bytes option \<times> db) outcome" where
  "signCurrent sx seen k d =
     (case (map_of (received_envelopes (seen 0)) k, map_of (delivery_work (seen 0)) k) of
        (Some r, Some w) \<Rightarrow> (case rcv_accepted_at r of
          None \<Rightarrow> Inr (None, d)
        | Some accepted \<Rightarrow>
            if rcv_outcome r \<noteq> WasAccepted then Inr (None, d)
            else and_then (status_payload (sx_codec sx) k r w accepted) (\<lambda>payload.
              sign_and_store sx seen k r payload d))
      | _ \<Rightarrow> Inr (None, d))"

section \<open>Publishing the final status\<close>

record status_claim =
  sc_sender :: jstring
  sc_message :: jstring
  sc_token :: jstring
  sc_attempt :: nat
  sc_retryUntil :: int

definition terminal :: "HailDeliveryState \<Rightarrow> bool" where
  "terminal s \<longleftrightarrow> s = Delivered \<or> s = Failed \<or> s = Cancelled"

definition open_status :: "publication_state \<Rightarrow> bool" where
  "open_status s \<longleftrightarrow> s = Pending \<or> s = Retry"

definition status_due :: "db \<Rightarrow> instant \<Rightarrow> (message_key \<Rightarrow> bool) \<Rightarrow> message_key \<times> publication_row \<Rightarrow> bool" where
  "status_due d now locked = (\<lambda>(k, row).
     (case map_of (received_envelopes d) k of
        None \<Rightarrow> False
      | Some r \<Rightarrow> has_row (delivery_work d) k \<and> open_status (pub_state row) \<and> pub_next_attempt_at row \<le> now
          \<and> (case pub_lease_expires_at row of None \<Rightarrow> True | Some t \<Rightarrow> t \<le> now)
          \<and> \<not> fenced_did d (rcv_recipient r) \<and> \<not> locked k))"

definition retry_until :: "HailEnvelope \<Rightarrow> work_row \<Rightarrow> int" where
  "retry_until e w =
     (let replay = max (env_expires_at e) (available_until (env_body e)) + 300 in
      max (replay * 1000) (js_time (transitioned_at w) + 2592000000))"

definition claim_status ::
  "status_services \<Rightarrow> clock \<Rightarrow> (message_key \<Rightarrow> bool) \<Rightarrow> jstring \<Rightarrow> db \<Rightarrow> (status_claim option \<times> db) outcome" where
  "claim_status sx clk locked token d =
     (case first_by (\<lambda>(k, row). (pub_next_attempt_at row, snd k))
          (filter (status_due d (clk 0) locked) (terminal_status_publications d)) of
        None \<Rightarrow> Inr (None, d)
      | Some (k, row) \<Rightarrow> (case (map_of (received_envelopes d) k, map_of (delivery_work d) k) of
          (Some r, Some w) \<Rightarrow>
            and_then (inspectEnvelope (sx_codec sx) (rcv_cose r)) (\<lambda>envelope.
            and_then (perform (sx_functions sx) (WritePublication k) (\<lambda>d. d\<lparr>terminal_status_publications :=
                AList.update k (row\<lparr>pub_lease := Some token, pub_lease_expires_at := Some (clk 0 + 60000000),
                  pub_attempts := pub_attempts row + 1, pub_updated_at := clk 0\<rparr>) (terminal_status_publications d)\<rparr>) d) (\<lambda>d.
              Inr (Some \<lparr>sc_sender = fst k, sc_message = snd k, sc_token = token, sc_attempt = pub_attempts row + 1,
                sc_retryUntil = retry_until envelope w\<rparr>, d)))
        | _ \<Rightarrow> Inr (None, d)))"

definition finish_status ::
  "sql_functions \<Rightarrow> clock \<Rightarrow> status_claim \<Rightarrow> publication_state \<Rightarrow> nat option \<Rightarrow> int option \<Rightarrow> string option \<Rightarrow> db \<Rightarrow> db outcome" where
  "finish_status fx clk c state status nxt err d =
     (let k = (sc_sender c, sc_message c) in
      case map_of (terminal_status_publications d) k of
        None \<Rightarrow> Inr d
      | Some row \<Rightarrow>
          if pub_lease row \<noteq> Some (sc_token c) \<or> \<not> open_status (pub_state row) then Inr d
          else perform fx (WritePublication k) (\<lambda>d. d\<lparr>terminal_status_publications := AList.update k
            (row\<lparr>pub_state := state, pub_http_status := status, pub_error := err,
              pub_next_attempt_at := (case nxt of None \<Rightarrow> pub_next_attempt_at row | Some t \<Rightarrow> t * 1000),
              pub_acknowledged_at := (if state = Acknowledged then Some (clk 0) else pub_acknowledged_at row),
              pub_lease := None, pub_lease_expires_at := None, pub_updated_at := clk 0\<rparr>)
            (terminal_status_publications d)\<rparr>) d)"

definition status_interval :: "nat \<Rightarrow> int" where
  "status_interval attempt =
     (if 5 < attempt then 86400 else [30, 120, 600, 3600, 21600] ! min (attempt - 1) 4)"

definition nextStatusAttempt :: "int \<Rightarrow> rat \<Rightarrow> nat \<Rightarrow> int option \<Rightarrow> int" where
  "nextStatusAttempt now random attempt remote =
     (let seconds = status_interval attempt;
          low = \<lceil>of_int seconds * (4 / 5) :: rat\<rceil>;
          high = \<lfloor>of_int seconds * (6 / 5) :: rat\<rfloor>;
          local = now + (low + \<lfloor>random * of_int (high - low + 1)\<rfloor>) * 1000 in
      max local (case remote of None \<Rightarrow> 0 | Some t \<Rightarrow> t))"

definition is_digit :: "char \<Rightarrow> bool" where
  "is_digit c \<longleftrightarrow> c \<in> set ''0123456789''"

definition digits_value :: "string \<Rightarrow> int" where
  "digits_value s = foldl (\<lambda>n c. n * 10 + (int (of_char c) - 48)) 0 s"

definition parseRetryAfter :: "(string \<Rightarrow> int option) \<Rightarrow> string option \<Rightarrow> int \<Rightarrow> int option" where
  "parseRetryAfter dateParse v now = (case v of
     None \<Rightarrow> None
   | Some s \<Rightarrow>
       if s = [] then None
       else
         let limit = now + 86400000 in
         if list_all is_digit s then Some (min limit (now + digits_value s * 1000))
         else (case dateParse s of
           None \<Rightarrow> None
         | Some parsed \<Rightarrow> if now < parsed then Some (min parsed limit) else None))"

record http_response =
  http_status :: nat
  http_has_body :: bool
  http_content_encoding :: "string option"
  http_retry_after :: "string option"

text \<open>
  What the publisher meets on one run. \<open>push\<close> is the request to the sender's provider, from resolving
  the sender to the response; it fails if resolving, the check of the target or the request does.
\<close>

record publisher_run =
  pr_clock :: "nat \<Rightarrow> clock"
  pr_locked :: "message_key \<Rightarrow> bool"
  pr_token :: jstring
  pr_seen :: "nat \<Rightarrow> db"
  pr_push :: "jstring \<Rightarrow> HailDeliveryStatus \<Rightarrow> bytes \<Rightarrow> http_response outcome"
  pr_now :: "nat \<Rightarrow> int"
  pr_random :: rat
  pr_dateParse :: "string \<Rightarrow> int option"
  pr_meanwhile :: "nat \<Rightarrow> db \<Rightarrow> db"

datatype publish_result = PublishIdle | PublishAcknowledged | PublishRetry | PublishBlocked

definition inspectStatus :: "codec \<Rightarrow> bytes \<Rightarrow> (HailDeliveryStatus \<times> bytes) outcome" where
  "inspectStatus c cose =
     and_then (codec_result (inspectSignedPayload (codec_lib c) (codec_env c) DeliveryStatus cose)) (\<lambda>object.
       Inr (read_status (object_payload object), object_payloadBytes object))"

definition terminal_response :: "status_services \<Rightarrow> publisher_run \<Rightarrow> status_claim \<Rightarrow> bytes option \<Rightarrow> http_response outcome" where
  "terminal_response sx run c result = (case result of
     None \<Rightarrow> fail_with ''Terminal delivery status is unavailable''
   | Some cose \<Rightarrow> and_then (inspectStatus (sx_codec sx) cose) (\<lambda>(status, _).
       if \<not> terminal (st_state status) then fail_with ''Terminal publication has a nonterminal snapshot''
       else pr_push run (sc_sender c) status cose))"

definition push_again ::
  "sql_functions \<Rightarrow> publisher_run \<Rightarrow> status_claim \<Rightarrow> nat option \<Rightarrow> int option \<Rightarrow> db \<Rightarrow> publish_result outcome \<times> db" where
  "push_again fx run c responseStatus retryAfter d =
     (if sc_retryUntil c \<le> pr_now run 1 then
        (case finish_status fx (pr_clock run 2) c Blocked responseStatus None
              (Some ''Minimum terminal status retry deadline passed'') d of
           Inl e \<Rightarrow> (Inl e, d) | Inr d' \<Rightarrow> (Inr PublishBlocked, d'))
      else
        let nxt = min (sc_retryUntil c) (nextStatusAttempt (pr_now run 2) (pr_random run) (sc_attempt c) retryAfter) in
        (case finish_status fx (pr_clock run 2) c Retry responseStatus (Some nxt)
              (Some ''Status delivery is not yet acknowledged'') d of
           Inl e \<Rightarrow> (Inl e, d) | Inr d' \<Rightarrow> (Inr PublishRetry, d')))"

fun decimal :: "nat \<Rightarrow> string" where
  "decimal n = (if n < 10 then [char_of (48 + n)] else decimal (n div 10) @ [char_of (48 + n mod 10)])"

definition handle_response ::
  "sql_functions \<Rightarrow> publisher_run \<Rightarrow> status_claim \<Rightarrow> http_response \<Rightarrow> db \<Rightarrow> publish_result outcome \<times> db" where
  "handle_response fx run c response d =
     (let status = Some (http_status response) in
      if http_status response = 204 \<and> \<not> http_has_body response \<and> http_content_encoding response = None then
        (case finish_status fx (pr_clock run 1) c Acknowledged status None None d of
           Inl _ \<Rightarrow> push_again fx run c status None d | Inr d' \<Rightarrow> (Inr PublishAcknowledged, d'))
      else if http_status response \<in> {400, 409, 405, 413, 415} then
        (case finish_status fx (pr_clock run 1) c Blocked status None (Some (''Status was rejected with HTTP '' @ decimal (http_status response))) d of
           Inl _ \<Rightarrow> push_again fx run c status None d | Inr d' \<Rightarrow> (Inr PublishBlocked, d'))
      else push_again fx run c status
        (if http_status response \<in> {429, 503} then parseRetryAfter (pr_dateParse run) (http_retry_after response) (pr_now run 0)
         else None) d)"

definition publishOne :: "status_services \<Rightarrow> publisher_run \<Rightarrow> db \<Rightarrow> publish_result outcome \<times> db" where
  "publishOne sx run d =
     (case claim_status sx (pr_clock run 0) (pr_locked run) (pr_token run) d of
        Inl e \<Rightarrow> (Inl e, d)
      | Inr (None, d1) \<Rightarrow> (Inr PublishIdle, d1)
      | Inr (Some c, d1) \<Rightarrow>
          let d2 = pr_meanwhile run 0 d1; k = (sc_sender c, sc_message c);
              (result, d3) = (case signCurrent sx (pr_seen run) k d2 of Inl e \<Rightarrow> (Inl e, d2) | Inr (s, d') \<Rightarrow> (Inr s, d'));
              d4 = pr_meanwhile run 1 d3 in
          case and_then result (terminal_response sx run c) of
            Inl _ \<Rightarrow> push_again (sx_functions sx) run c None None d4
          | Inr response \<Rightarrow> handle_response (sx_functions sx) run c response d4)"

section \<open>Receiving a status\<close>

datatype StatusOutcome = StatusAcknowledged | StatusUnknown | StatusConflict | StatusBadRequest

record status_receiver =
  sr_codec :: codec
  sr_crypto :: crypto
  sr_functions :: sql_functions
  sr_resolve :: "jstring \<Rightarrow> HailDidDocument outcome"
  sr_serviceBase :: jstring
  sr_aborted :: "nat \<Rightarrow> bool"

definition check_abort :: "status_receiver \<Rightarrow> nat \<Rightarrow> unit outcome" where
  "check_abort sr i = guard (\<not> sr_aborted sr i) ''AbortError''"

definition record_status ::
  "instant \<Rightarrow> HailDeliveryStatus \<Rightarrow> bytes \<Rightarrow> bytes \<Rightarrow> jstring \<Rightarrow> PlcResolutionEvidence \<Rightarrow> int \<Rightarrow> db \<Rightarrow> db" where
  "record_status now p bs cose key evidence gap d =
     (let k = (st_to p, st_message_id p);
          row = (case map_of (sent_delivery_status d) k of
            None \<Rightarrow> \<lparr>ss_recipient = st_from p, ss_revision = st_revision p, ss_state = st_state p, ss_payload = bs, ss_cose = cose,
              ss_signing_key = key, ss_evidence = evidence, ss_gap = gap, ss_received_at = now\<rparr>
          | Some old \<Rightarrow> old\<lparr>ss_revision := st_revision p, ss_state := st_state p, ss_payload := bs, ss_cose := cose,
              ss_signing_key := key, ss_evidence := evidence, ss_gap := ss_gap old + gap, ss_received_at := now\<rparr>) in
      d\<lparr>sent_delivery_status := AList.update k row (sent_delivery_status d)\<rparr>)"

text \<open>What the row that is stored says about a status that arrives; \<open>None\<close> if it is to be recorded.\<close>

definition status_verdict :: "sent_status_row option \<Rightarrow> HailDeliveryStatus \<Rightarrow> bytes \<Rightarrow> StatusOutcome option" where
  "status_verdict current p bs = (case current of
     Some row \<Rightarrow>
       if st_revision p < ss_revision row then Some StatusAcknowledged
       else if st_revision p = ss_revision row then Some (if ss_payload row = bs then StatusAcknowledged else StatusConflict)
       else if terminal (ss_state row) \<or> st_state p = Accepted then Some StatusConflict
       else None
   | None \<Rightarrow> if st_state p \<noteq> Accepted \<and> \<not> terminal (st_state p) then Some StatusConflict else None)"

definition concerns_sent :: "db \<Rightarrow> HailDeliveryStatus \<Rightarrow> bool" where
  "concerns_sent d p = (case map_of (sent_envelopes d) (st_to p, st_message_id p) of
     None \<Rightarrow> False
   | Some row \<Rightarrow> sent_recipient row = st_from p \<and> sent_envelope_digest row = digest_value (st_envelope_digest p))"

definition apply_status ::
  "status_receiver \<Rightarrow> clock \<Rightarrow> HailDeliveryStatus \<Rightarrow> bytes \<Rightarrow> bytes \<Rightarrow> jstring \<Rightarrow> PlcResolutionEvidence \<Rightarrow> db \<Rightarrow> (StatusOutcome \<times> db) outcome" where
  "apply_status sr clk p bs cose key evidence d =
     (let k = (st_to p, st_message_id p); current = map_of (sent_delivery_status d) k in
      and_then (check_abort sr 6) (\<lambda>_.
      and_then (check_abort sr 7) (\<lambda>_.
        if \<not> concerns_sent d p then Inr (StatusUnknown, d)
        else (case status_verdict current p bs of
          Some outcome \<Rightarrow> Inr (outcome, d)
        | None \<Rightarrow>
            and_then (encodeStatus (sr_codec sr) p) (\<lambda>encoded.
              if encoded \<noteq> bs then Inr (StatusBadRequest, d)
              else
                let gap = (case current of None \<Rightarrow> st_revision p - 1 | Some row \<Rightarrow> st_revision p - ss_revision row - 1) in
                and_then (check_abort sr 8) (\<lambda>_.
                and_then (perform (sr_functions sr) (WriteSentStatus k) (record_status (clk 0) p bs cose key evidence gap) d) (\<lambda>d.
                  Inr (StatusAcknowledged, d))))))))"

text \<open>
  An error before the transaction makes the status unknown; an error inside it is passed on, since the promise is
  returned and not awaited. \<open>seen\<close> gives the states in which the envelope and the account are read.
\<close>

definition authenticate_status ::
  "status_receiver \<Rightarrow> (nat \<Rightarrow> db) \<Rightarrow> jstring \<Rightarrow> bytes \<Rightarrow>
     (StatusOutcome + HailDeliveryStatus \<times> bytes \<times> HailDidDocument) outcome" where
  "authenticate_status sr seen pathDigest cose =
     (let c = sr_codec sr in
      and_then (check_abort sr 0) (\<lambda>_.
      and_then (inspectStatus c cose) (\<lambda>(p, bs).
      and_then (check_abort sr 1) (\<lambda>_.
        (case map_of (sent_envelopes (seen 0)) (st_to p, st_message_id p) of
           None \<Rightarrow> Inr (Inl StatusUnknown)
         | Some found \<Rightarrow>
             and_then (sr_resolve sr (st_from p)) (\<lambda>recipient.
             and_then (check_abort sr 2) (\<lambda>_.
             and_then (codec_result (verifySignedPayload (codec_lib c) (codec_env c) DeliveryStatus cose
                 (messaging_verifier (sr_crypto sr) (st_from p) (messagingDidKey recipient)))) (\<lambda>_.
             and_then (check_abort sr 3) (\<lambda>_.
             and_then (sr_resolve sr (st_to p)) (\<lambda>sender.
             and_then (check_abort sr 4) (\<lambda>_.
             and_then (check_abort sr 5) (\<lambda>_.
               if serviceBase sender \<noteq> sr_serviceBase sr
                   \<or> \<not> (case account_with_did (seen 1) (st_to p) of None \<Rightarrow> False | Some (_, a) \<Rightarrow> publicly_active a)
                 then Inr (Inl StatusUnknown)
               else if sent_recipient found \<noteq> st_from p
                   \<or> sent_envelope_digest found \<noteq> digest_value (st_envelope_digest p)
                 then Inr (Inl StatusUnknown)
               else if pathDigest \<noteq> encodeBase64Url (digest_value (st_envelope_digest p)) then Inr (Inl StatusBadRequest)
               else Inr (Inr (p, bs, recipient))))))))))))))"

definition receive_status ::
  "status_receiver \<Rightarrow> clock \<Rightarrow> (nat \<Rightarrow> db) \<Rightarrow> jstring \<Rightarrow> bytes \<Rightarrow> db \<Rightarrow> (StatusOutcome \<times> db) outcome" where
  "receive_status sr clk seen pathDigest cose d =
     (case authenticate_status sr seen pathDigest cose of
        Inl _ \<Rightarrow> Inr (StatusUnknown, d)
      | Inr (Inl outcome) \<Rightarrow> Inr (outcome, d)
      | Inr (Inr (p, bs, recipient)) \<Rightarrow>
          apply_status sr clk p bs cose (messagingDidKey recipient) (document_evidence recipient) d)"

end
