(* ===== verification/GrantStore.thy ===== *)
theory GrantStore
  imports EnvelopeStore GrantModel
begin

text \<open>
  \<^verbatim>\<open>apps/server/src/grants/revision.ts\<close>, \<open>store.ts\<close> and \<open>repository.ts\<close>: the lineages of permissions
  to send. A grant is a chain of signed revisions; the grantor's provider appends to it and
  publishes every revision to the grantee's provider, which keeps the chain it received. The PLC
  component, which retains the evidence of a signer's authority in tables of its own and may refuse
  to, is the parameter \<open>retainPublicGrantAuthority\<close>.
\<close>

declare split_paired_All [simp del] split_paired_Ex [simp del]

section \<open>Comparing revisions\<close>

text \<open>
  The validated scope is one object of type \<open>categories\<close>, so two scopes differ in their values
  only; deterministic encodings are equal if and only if the values are.
\<close>

definition equalGrantValue :: "jstring list \<Rightarrow> jstring list \<Rightarrow> bool" where
  "equalGrantValue a b \<longleftrightarrow> a = b"

definition expandsAuthorization :: "HailGrant \<Rightarrow> HailGrant \<Rightarrow> bool" where
  "expandsAuthorization current nxt \<longleftrightarrow> grant_status_of nxt \<noteq> Revoked \<and>
     (list_ex (\<lambda>v. v \<notin> set (grant_scope current)) (grant_scope nxt) \<or>
      (case grant_expires_at current of None \<Rightarrow> False
       | Some t \<Rightarrow> (case grant_expires_at nxt of None \<Rightarrow> True | Some t' \<Rightarrow> t < t')))"

definition restrictsAuthorization :: "HailGrant \<Rightarrow> HailGrant \<Rightarrow> bool" where
  "restrictsAuthorization current nxt \<longleftrightarrow> \<not> expandsAuthorization current nxt \<and>
     (\<not> equalGrantValue (grant_scope current) (grant_scope nxt)
      \<or> grant_expires_at current \<noteq> grant_expires_at nxt \<or> grant_status_of nxt = Revoked)"

definition same_consent :: "HailGrant \<Rightarrow> HailGrant \<Rightarrow> bool" where
  "same_consent a b \<longleftrightarrow> consent_address a = consent_address b \<and> consent_binding_hash a = consent_binding_hash b
     \<and> consent_profile_hash a = consent_profile_hash b"

section \<open>Signed revisions and evidence of consent\<close>

record SignedGrantRevisionInput =
  sg_account :: jstring
  sg_role :: grant_role
  sg_payload :: HailGrant
  sg_representation :: bytes
  sg_digest :: bytes
  sg_signing_key :: jstring
  sg_evidence :: PlcResolutionEvidence
  sg_expectedServiceBase :: "jstring option"
  sg_recipientEvidence :: "PlcResolutionEvidence option"
  sg_recipientServiceBase :: "jstring option"

record SignedGrantRevision = SignedGrantRevisionInput +
  sg_received_at :: instant

record VerifiedAddress =
  va_address :: jstring
  va_did :: jstring
  va_serviceBase :: jstring
  va_messagingDidKey :: jstring
  va_identityDidKey :: jstring
  va_evidence :: PlcResolutionEvidence
  va_verifiedAt :: int
  va_binding :: hail_value
  va_representation :: bytes
  va_digest :: bytes

record VerifiedSenderProfile =
  vp_did :: jstring
  vp_serviceBase :: jstring
  vp_messagingDidKey :: jstring
  vp_profile :: hail_value
  vp_representation :: bytes
  vp_digest :: bytes
  vp_etag :: jstring
  vp_evidence :: PlcResolutionEvidence
  vp_verifiedAt :: int

record GrantConsentEvidence =
  consent_of_address :: VerifiedAddress
  consent_of_profile :: VerifiedSenderProfile

record AuthoritativeGrantUpdate =
  up_revision :: SignedGrantRevisionInput
  up_expectedRevision :: int
  up_expectedDigest :: bytes
  up_consent :: "GrantConsentEvidence option"
  up_destination :: "jstring option"

record grant_services =
  gs_codec :: codec
  gs_functions :: sql_functions
  retainPublicGrantAuthority :: "SignedGrantRevisionInput \<Rightarrow> GrantConsentEvidence option \<Rightarrow> db \<Rightarrow> unit outcome"

definition inspectGrant :: "codec \<Rightarrow> bytes \<Rightarrow> HailGrant outcome" where
  "inspectGrant c cose =
     and_then (codec_result (inspectSignedPayload (codec_lib c) (codec_env c) Grant cose)) (\<lambda>object.
       Inr (read_grant (object_payload object)))"

section \<open>Rows and revisions\<close>

definition safeInteger :: "int \<Rightarrow> string \<Rightarrow> int outcome" where
  "safeInteger v field =
     (if \<bar>v\<bar> \<le> 9007199254740991 then Inr v else fail_with (''Persisted Grant '' @ field @ '' is unsafe''))"

text \<open>The text of a \<open>jsonb\<close> value is an object if and only if it starts with a brace.\<close>

definition object_text :: "jstring \<Rightarrow> bool" where
  "object_text t \<longleftrightarrow> take 1 t = lit ''{''"

definition jsonObject :: "jstring \<Rightarrow> string \<Rightarrow> jstring outcome" where
  "jsonObject t field = (if object_text t then Inr t else fail_with (''Persisted '' @ field @ '' is not an object''))"

definition jsonArray :: "jstring list \<Rightarrow> string \<Rightarrow> jstring list outcome" where
  "jsonArray ts field =
     (if list_all object_text ts then Inr ts else fail_with (''Persisted '' @ field @ '' is not an object array''))"

definition row_matches :: "codec \<Rightarrow> jstring \<Rightarrow> int \<Rightarrow> lineage_row \<Rightarrow> revision_row \<Rightarrow> HailGrant \<Rightarrow> bool" where
  "row_matches c gid n l r p \<longleftrightarrow>
     sha256 (codec_env c) (rev_cose r) = rev_digest r \<and> grant_id p = gid \<and> grantor p = lin_grantor l
     \<and> grantee p = lin_grantee l \<and> grant_revision p = n \<and> grant_status_of p = rev_status r
     \<and> grant_issued_at p = rev_issued_at r \<and> grant_updated_at p = rev_updated_at r
     \<and> grant_expires_at p = rev_expires_at r \<and> grant_previous p = rev_previous r \<and> grant_scope p = rev_scope r
     \<and> digest_value (consent_binding_hash p) = rev_binding_hash r
     \<and> digest_value (consent_profile_hash p) = rev_profile_hash r"

definition grantFromRow :: "codec \<Rightarrow> jstring \<Rightarrow> int \<Rightarrow> lineage_row \<Rightarrow> revision_row \<Rightarrow> SignedGrantRevision outcome" where
  "grantFromRow c gid n l r =
     and_then (inspectGrant c (rev_cose r)) (\<lambda>p.
     and_then (safeInteger (rev_issued_at r) ''issued_at'') (\<lambda>_.
     and_then (safeInteger (rev_updated_at r) ''updated_at'') (\<lambda>_.
     and_then (case rev_expires_at r of None \<Rightarrow> Inr 0 | Some t \<Rightarrow> safeInteger t ''expires_at'') (\<lambda>_.
       if \<not> row_matches c gid n l r p then fail_with ''Persisted Grant metadata does not match its exact representation''
       else
         and_then (jsonObject (evidence_document (rev_evidence r)) ''signing PLC document'') (\<lambda>document.
         and_then (jsonObject (evidence_data (rev_evidence r)) ''signing PLC data'') (\<lambda>data.
         and_then (jsonArray (evidence_log (rev_evidence r)) ''signing PLC operation log'') (\<lambda>log.
           Inr \<lparr>sg_account = lin_account l, sg_role = lin_role l, sg_payload = p, sg_representation = rev_cose r,
             sg_digest = rev_digest r, sg_signing_key = rev_signing_key r,
             sg_evidence = \<lparr>evidence_document = document, evidence_data = data, evidence_log = log\<rparr>,
             sg_expectedServiceBase = None, sg_recipientEvidence = None, sg_recipientServiceBase = None,
             sg_received_at = rev_received_at r\<rparr>)))))))"

fun role_name :: "grant_role \<Rightarrow> string" where
  "role_name Grantor = ''grantor''"
| "role_name Grantee = ''grantee''"

definition checkedInput :: "codec \<Rightarrow> SignedGrantRevisionInput \<Rightarrow> grant_role \<Rightarrow> unit outcome" where
  "checkedInput c input role =
     (if sg_role input \<noteq> role then fail_with (''Grant local role must be '' @ role_name role)
      else and_then (inspectGrant c (sg_representation input)) (\<lambda>parsed.
        guard (sha256 (codec_env c) (sg_representation input) = sg_digest input \<and> parsed = sg_payload input)
          ''Grant payload or digest does not match its exact representation''))"

definition consent_matches :: "codec \<Rightarrow> HailGrant \<Rightarrow> GrantConsentEvidence \<Rightarrow> hail_value \<Rightarrow> hail_value \<Rightarrow> bool" where
  "consent_matches c p evidence binding sender \<longleftrightarrow>
     (let a = consent_of_address evidence; s = consent_of_profile evidence in
      va_address a = consent_address p \<and> va_did a = grantee p \<and> vp_did s = grantee p
      \<and> same_value binding (va_binding a) \<and> same_value sender (vp_profile s)
      \<and> get binding ''address'' = Some (HText (va_address a)) \<and> get binding ''did'' = Some (HText (va_did a))
      \<and> get sender ''did'' = Some (HText (vp_did s))
      \<and> sha256 (codec_env c) (va_representation a) = va_digest a
      \<and> sha256 (codec_env c) (vp_representation s) = vp_digest s
      \<and> digest_value (consent_binding_hash p) = va_digest a \<and> digest_value (consent_profile_hash p) = vp_digest s)"

definition assertConsent :: "codec \<Rightarrow> HailGrant \<Rightarrow> GrantConsentEvidence \<Rightarrow> unit outcome" where
  "assertConsent c p evidence =
     and_then (codec_result (inspectSignedPayload (codec_lib c) (codec_env c) AddressBinding
         (va_representation (consent_of_address evidence)))) (\<lambda>binding.
     and_then (codec_result (inspectSignedPayload (codec_lib c) (codec_env c) SenderProfile
         (vp_representation (consent_of_profile evidence)))) (\<lambda>sender.
       guard (consent_matches c p evidence (object_payload binding) (object_payload sender))
         ''Grant consent evidence does not match the signed grant''))"

section \<open>Lookups\<close>

definition joined :: "db \<Rightarrow> jstring \<Rightarrow> int \<Rightarrow> (lineage_row \<times> revision_row) option" where
  "joined d gid n = (case map_of (grant_lineages d) gid of
     None \<Rightarrow> None | Some l \<Rightarrow> map_option (Pair l) (map_of (grant_revisions d) (gid, n)))"

definition current_row :: "db \<Rightarrow> jstring \<Rightarrow> (lineage_row \<times> revision_row) option" where
  "current_row d gid = (case map_of (grant_lineages d) gid of None \<Rightarrow> None | Some l \<Rightarrow> joined d gid (lin_revision l))"

definition findCurrentByGrantId :: "codec \<Rightarrow> db \<Rightarrow> jstring \<Rightarrow> SignedGrantRevision option outcome" where
  "findCurrentByGrantId c d gid = (case current_row d gid of
     None \<Rightarrow> Inr None
   | Some (l, r) \<Rightarrow> and_then (grantFromRow c gid (lin_revision l) l r) (\<lambda>g. Inr (Some g)))"

definition findRevisionByGrantId :: "codec \<Rightarrow> db \<Rightarrow> jstring \<Rightarrow> int \<Rightarrow> SignedGrantRevision option outcome" where
  "findRevisionByGrantId c d gid n = (case joined d gid n of
     None \<Rightarrow> Inr None
   | Some (l, r) \<Rightarrow> and_then (grantFromRow c gid n l r) (\<lambda>g. Inr (Some g)))"

definition findReceivedForSender :: "codec \<Rightarrow> db \<Rightarrow> jstring \<Rightarrow> jstring \<Rightarrow> SignedGrantRevision option outcome" where
  "findReceivedForSender c d gid senderDid =
     and_then (findCurrentByGrantId c d gid) (\<lambda>current. case current of
       None \<Rightarrow> Inr None
     | Some g \<Rightarrow>
         if grantee (sg_payload g) \<noteq> senderDid then Inr None
         else if sg_role g = Grantee then Inr (Some g)
         else (case map_of (collocated_grant_receivers d) gid of
           None \<Rightarrow> Inr None
         | Some account \<Rightarrow> (case map_of (provider_accounts d) account of
             None \<Rightarrow> Inr None
           | Some a \<Rightarrow> Inr (if acc_did a = Some senderDid \<and> acc_onboarding_state a = ''active''
               then Some (g\<lparr>sg_account := account, sg_role := Grantee\<rparr>) else None))))"

definition active_pair :: "db \<Rightarrow> jstring \<Rightarrow> jstring \<Rightarrow> (jstring \<times> lineage_row) option" where
  "active_pair d a b = find (\<lambda>(_, l). lin_grantor l = a \<and> lin_grantee l = b \<and> lin_status l = Active) (grant_lineages d)"

definition findActiveAuthoritativeByDidPair :: "codec \<Rightarrow> db \<Rightarrow> jstring \<Rightarrow> jstring \<Rightarrow> SignedGrantRevision option outcome" where
  "findActiveAuthoritativeByDidPair c d grantorDid granteeDid =
     (case find (\<lambda>(gid, l). lin_role l = Grantor \<and> lin_grantor l = grantorDid \<and> lin_grantee l = granteeDid
          \<and> lin_status l = Active \<and> current_row d gid \<noteq> None) (grant_lineages d) of
        None \<Rightarrow> Inr None
      | Some (gid, _) \<Rightarrow> findCurrentByGrantId c d gid)"

section \<open>Inserting rows\<close>

text \<open>
  A grant may have an identifier once, a pair of accounts one active lineage, and a lineage a revision
  number and a digest once: the primary keys and unique indexes of the tables.
\<close>

definition lineage_of :: "SignedGrantRevisionInput \<Rightarrow> lineage_row" where
  "lineage_of g = \<lparr>lin_account = sg_account g, lin_role = sg_role g, lin_grantor = grantor (sg_payload g),
     lin_grantee = grantee (sg_payload g), lin_revision = 1, lin_digest = sg_digest g, lin_status = Active\<rparr>"

definition insert_lineage :: "sql_functions \<Rightarrow> SignedGrantRevisionInput \<Rightarrow> db \<Rightarrow> db outcome" where
  "insert_lineage fx g d =
     (let p = sg_payload g in
      insert_new fx (WriteLineage (grant_id p))
        (has_row (grant_lineages d) (grant_id p) \<or> active_pair d (grantor p) (grantee p) \<noteq> None)
        (\<lambda>d. d\<lparr>grant_lineages := AList.update (grant_id p) (lineage_of g) (grant_lineages d)\<rparr>) d)"

definition revision_of :: "instant \<Rightarrow> SignedGrantRevisionInput \<Rightarrow> revision_row" where
  "revision_of t g = (let p = sg_payload g in
     \<lparr>rev_status = grant_status_of p, rev_issued_at = grant_issued_at p, rev_updated_at = grant_updated_at p,
      rev_expires_at = grant_expires_at p, rev_previous = grant_previous p, rev_scope = grant_scope p,
      rev_binding_hash = digest_value (consent_binding_hash p), rev_profile_hash = digest_value (consent_profile_hash p),
      rev_cose = sg_representation g, rev_digest = sg_digest g, rev_signing_key = sg_signing_key g,
      rev_evidence = sg_evidence g, rev_received_at = t\<rparr>)"

definition revision_key :: "SignedGrantRevisionInput \<Rightarrow> jstring \<times> int" where
  "revision_key g = (grant_id (sg_payload g), grant_revision (sg_payload g))"

definition insertRevision :: "sql_functions \<Rightarrow> instant \<Rightarrow> SignedGrantRevisionInput \<Rightarrow> db \<Rightarrow> db outcome" where
  "insertRevision fx t g d =
     insert_new fx (WriteRevision (revision_key g))
       (has_row (grant_revisions d) (revision_key g)
        \<or> list_ex (\<lambda>((gid, _), r). gid = grant_id (sg_payload g) \<and> rev_digest r = sg_digest g) (grant_revisions d))
       (\<lambda>d. d\<lparr>grant_revisions := AList.update (revision_key g) (revision_of t g) (grant_revisions d)\<rparr>) d"

definition consent_of :: "GrantConsentEvidence \<Rightarrow> consent_row" where
  "consent_of e = (let a = consent_of_address e; s = consent_of_profile e in
     \<lparr>con_address = va_address a, con_binding_cose = va_representation a, con_binding_digest = va_digest a,
      con_binding_evidence = va_evidence a, con_binding_verified_at = va_verifiedAt a * 1000,
      con_profile_revision = int_of (get (vp_profile s) ''revision''), con_profile_cose = vp_representation s,
      con_profile_digest = vp_digest s, con_profile_evidence = vp_evidence s,
      con_profile_verified_at = vp_verifiedAt s * 1000\<rparr>)"

definition insert_consent :: "sql_functions \<Rightarrow> SignedGrantRevisionInput \<Rightarrow> GrantConsentEvidence \<Rightarrow> db \<Rightarrow> db outcome" where
  "insert_consent fx g e d =
     insert_new fx (WriteConsent (revision_key g)) (has_row (grant_consent_evidence d) (revision_key g))
       (\<lambda>d. d\<lparr>grant_consent_evidence := AList.update (revision_key g) (consent_of e) (grant_consent_evidence d)\<rparr>) d"

definition insert_fresh_consent ::
  "sql_functions \<Rightarrow> SignedGrantRevisionInput \<Rightarrow> GrantConsentEvidence option \<Rightarrow> db \<Rightarrow> db outcome" where
  "insert_fresh_consent fx g consent d = (case consent of None \<Rightarrow> Inr d | Some e \<Rightarrow> insert_consent fx g e d)"

definition new_grant_publication :: "instant \<Rightarrow> jstring \<Rightarrow> grant_publication_row" where
  "new_grant_publication t destination =
     \<lparr>gp_destination = destination, gp_state = Pending, gp_attempts = 0, gp_next_attempt_at = t, gp_lease = None,
      gp_lease_expires_at = None, gp_http_status = None, gp_error = None, gp_etag = None, gp_acknowledged_at = None,
      gp_created_at = t, gp_updated_at = t\<rparr>"

definition insertPublication :: "sql_functions \<Rightarrow> instant \<Rightarrow> HailGrant \<Rightarrow> jstring \<Rightarrow> db \<Rightarrow> db outcome" where
  "insertPublication fx t p destination d =
     (let k = (grant_id p, grant_revision p) in
      insert_new fx (WriteGrantPublication k) (has_row (grant_publications d) k)
        (\<lambda>d. d\<lparr>grant_publications := AList.update k (new_grant_publication t destination) (grant_publications d)\<rparr>) d)"

section \<open>The grantor's side\<close>

definition insertAuthoritativeRevision1 ::
  "grant_services \<Rightarrow> clock \<Rightarrow> SignedGrantRevisionInput \<Rightarrow> GrantConsentEvidence \<Rightarrow> jstring \<Rightarrow> db \<Rightarrow> (unit \<times> db) outcome" where
  "insertAuthoritativeRevision1 sv clk revision consent destination d =
     (let fx = gs_functions sv; p = sg_payload revision in
      and_then (checkedInput (gs_codec sv) revision Grantor) (\<lambda>_.
      and_then (assertConsent (gs_codec sv) p consent) (\<lambda>_.
        if grant_revision p \<noteq> 1 \<or> grant_status_of p \<noteq> Active
          then fail_with ''An authoritative Grant must begin at active revision 1''
        else (case map_of (provider_accounts d) (sg_account revision) of
          None \<Rightarrow> fail_with ''Active local grantor account does not match the Grant''
        | Some account \<Rightarrow>
            if acc_onboarding_state account \<noteq> ''active'' \<or> acc_did account \<noteq> Some (grantor p)
              then fail_with ''Active local grantor account does not match the Grant''
            else
              and_then (insert_lineage fx revision d) (\<lambda>d.
              and_then (insertRevision fx (clk 0) revision d) (\<lambda>d.
              and_then (retainPublicGrantAuthority sv revision (Some consent) d) (\<lambda>_.
              and_then (insert_consent fx revision consent d) (\<lambda>d.
              and_then (insertPublication fx (clk 0) p destination d) (\<lambda>d. Inr ((), d))))))))))"

text \<open>The conditions on the revision it replaces, and on the evidence of consent.\<close>

definition update_conflict :: "SignedGrantRevision \<Rightarrow> SignedGrantRevisionInput \<Rightarrow> string option" where
  "update_conflict current revision =
     (if sg_account current \<noteq> sg_account revision \<or> sg_role current \<noteq> Grantor
         \<or> grant_status_of (sg_payload current) \<noteq> Active
         \<or> grant_issued_at (sg_payload current) \<noteq> grant_issued_at (sg_payload revision)
       then Some ''Grant immutable/current state conflicts''
      else if sg_signing_key current \<noteq> sg_signing_key revision
       then Some ''Historical-key reconciliation required for signer changes''
      else if restrictsAuthorization (sg_payload current) (sg_payload revision)
          \<and> \<not> same_consent (sg_payload current) (sg_payload revision)
       then Some ''Restrictions must retain prior consent''
      else None)"

definition consent_for_update ::
  "codec \<Rightarrow> SignedGrantRevision \<Rightarrow> SignedGrantRevisionInput \<Rightarrow> GrantConsentEvidence option \<Rightarrow> unit outcome" where
  "consent_for_update c current revision consent = (case consent of
     Some e \<Rightarrow> assertConsent c (sg_payload revision) e
   | None \<Rightarrow>
       if \<not> restrictsAuthorization (sg_payload current) (sg_payload revision)
           \<or> \<not> same_consent (sg_payload current) (sg_payload revision)
         then Inl (GrantConflict ''Fresh consent evidence required'') else Inr ())"

definition advance_lineage :: "sql_functions \<Rightarrow> SignedGrantRevisionInput \<Rightarrow> db \<Rightarrow> db outcome" where
  "advance_lineage fx g d =
     (let p = sg_payload g in
      perform fx (WriteLineage (grant_id p)) (\<lambda>d. case map_of (grant_lineages d) (grant_id p) of
        None \<Rightarrow> d
      | Some l \<Rightarrow> d\<lparr>grant_lineages := AList.update (grant_id p) (l\<lparr>lin_revision := grant_revision p,
          lin_digest := sg_digest g, lin_status := grant_status_of p\<rparr>) (grant_lineages d)\<rparr>) d)"

text \<open>The \<open>WHERE\<close> clause of the update of the lineage.\<close>

definition lineage_expected :: "db \<Rightarrow> AuthoritativeGrantUpdate \<Rightarrow> bool" where
  "lineage_expected d input =
     (let g = up_revision input; p = sg_payload g in
      case map_of (grant_lineages d) (grant_id p) of
        None \<Rightarrow> False
      | Some l \<Rightarrow> lin_account l = sg_account g \<and> lin_role l = Grantor \<and> lin_grantor l = grantor p
          \<and> lin_grantee l = grantee p \<and> lin_status l = Active \<and> lin_revision l = up_expectedRevision input
          \<and> lin_digest l = up_expectedDigest input
          \<and> (case map_of (grant_revisions d) (grant_id p, lin_revision l) of
               None \<Rightarrow> False | Some r \<Rightarrow> rev_updated_at r < grant_updated_at p))"

definition publications_of :: "db \<Rightarrow> jstring \<Rightarrow> ((jstring \<times> int) \<times> grant_publication_row) list" where
  "publications_of d gid = filter (\<lambda>((g, _), _). g = gid) (grant_publications d)"

definition publish_update :: "sql_functions \<Rightarrow> instant \<Rightarrow> HailGrant \<Rightarrow> jstring option \<Rightarrow> db \<Rightarrow> db outcome" where
  "publish_update fx t p destination d =
     (case first_by (\<lambda>((_, n), _). n) (publications_of d (grant_id p)) of
        None \<Rightarrow> fail_with ''Authoritative Grant is missing its publication destination evidence''
      | Some (_, first) \<Rightarrow> insertPublication fx t p (case destination of None \<Rightarrow> gp_destination first | Some x \<Rightarrow> x) d)"

definition append_update ::
  "grant_services \<Rightarrow> clock \<Rightarrow> AuthoritativeGrantUpdate \<Rightarrow> SignedGrantRevision \<Rightarrow> db \<Rightarrow> (unit \<times> db) outcome" where
  "append_update sv clk input current d =
     (let fx = gs_functions sv; g = up_revision input in
      case update_conflict current g of
        Some message \<Rightarrow> Inl (GrantConflict message)
      | None \<Rightarrow>
          and_then (consent_for_update (gs_codec sv) current g (up_consent input)) (\<lambda>_.
            if \<not> lineage_expected d input then Inl (GrantConflict ''Authoritative Grant revision conflict'')
            else
              and_then (advance_lineage fx g d) (\<lambda>d.
              and_then (insertRevision fx (clk 0) g d) (\<lambda>d.
              and_then (retainPublicGrantAuthority sv g (up_consent input) d) (\<lambda>_.
              and_then (insert_fresh_consent fx g (up_consent input) d) (\<lambda>d.
              and_then (publish_update fx (clk 0) (sg_payload g) (up_destination input) d) (\<lambda>d. Inr ((), d))))))))"

definition appendAuthoritativeUpdate ::
  "grant_services \<Rightarrow> clock \<Rightarrow> AuthoritativeGrantUpdate \<Rightarrow> db \<Rightarrow> (unit \<times> db) outcome" where
  "appendAuthoritativeUpdate sv clk input d =
     (let g = up_revision input; p = sg_payload g in
      and_then (checkedInput (gs_codec sv) g Grantor) (\<lambda>_.
        if grant_revision p \<noteq> up_expectedRevision input + 1 \<or> grant_previous p \<noteq> Some (up_expectedDigest input)
          then fail_with ''Grant revocation does not follow the expected current revision''
        else and_then (findCurrentByGrantId (gs_codec sv) d (grant_id p)) (\<lambda>found. case found of
          None \<Rightarrow> Inl (GrantConflict ''Grant immutable/current state conflicts'')
        | Some current \<Rightarrow> append_update sv clk input current d)))"

definition appendAuthoritativeRevocation ::
  "grant_services \<Rightarrow> clock \<Rightarrow> AuthoritativeGrantUpdate \<Rightarrow> db \<Rightarrow> (unit \<times> db) outcome" where
  "appendAuthoritativeRevocation sv clk input d =
     (if grant_status_of (sg_payload (up_revision input)) \<noteq> Revoked then fail_with ''Expected a signed terminal revision''
      else appendAuthoritativeUpdate sv clk input d)"

section \<open>The grantee's side\<close>

definition as_received :: "SignedGrantRevisionInput \<Rightarrow> SignedGrantRevision \<Rightarrow> SignedGrantRevision" where
  "as_received input g = g\<lparr>sg_role := Grantee, sg_account := sg_account input\<rparr>"

text \<open>
  Both accounts at one provider: the authoritative lineage is the only one, and the grantee is noted beside it.
\<close>

definition receive_collocated ::
  "grant_services \<Rightarrow> SignedGrantRevisionInput \<Rightarrow> lineage_row \<Rightarrow> db \<Rightarrow> (SignedGrantRevision \<times> db) outcome" where
  "receive_collocated sv input l d =
     (let gid = grant_id (sg_payload input); n = grant_revision (sg_payload input) in
      case map_of (grant_revisions d) (gid, n) of
        None \<Rightarrow> fail_with ''Collocated Grant must match the authoritative revision''
      | Some existing \<Rightarrow>
          if rev_cose existing \<noteq> sg_representation input then fail_with ''Collocated Grant must match the authoritative revision''
          else
            and_then (perform (gs_functions sv) (WriteCollocated gid) (\<lambda>d.
                if has_row (collocated_grant_receivers d) gid then d
                else d\<lparr>collocated_grant_receivers := AList.update gid (sg_account input) (collocated_grant_receivers d)\<rparr>) d) (\<lambda>d.
              if map_of (collocated_grant_receivers d) gid \<noteq> Some (sg_account input)
                then fail_with ''Grant parties or local ownership cannot change''
              else and_then (grantFromRow (gs_codec sv) gid n l existing) (\<lambda>g. Inr (as_received input g, d))))"

definition advances :: "db \<Rightarrow> lineage_row \<Rightarrow> HailGrant \<Rightarrow> bool outcome" where
  "advances d l p =
     (if lin_status l = Revoked then Inr False
      else (case map_of (grant_revisions d) (grant_id p, lin_revision l) of
        None \<Rightarrow> Inr False
      | Some current \<Rightarrow>
          if grant_revision p \<noteq> lin_revision l + 1 \<or> grant_previous p \<noteq> Some (lin_digest l) then Inr False
          else and_then (safeInteger (rev_updated_at current) ''updated_at'') (\<lambda>t. Inr (t < grant_updated_at p))))"

definition read_back ::
  "grant_services \<Rightarrow> SignedGrantRevisionInput \<Rightarrow> db \<Rightarrow> (SignedGrantRevision \<times> db) outcome" where
  "read_back sv input d =
     and_then (retainPublicGrantAuthority sv input None d) (\<lambda>_.
     and_then (findCurrentByGrantId (gs_codec sv) d (grant_id (sg_payload input))) (\<lambda>found. case found of
       None \<Rightarrow> fail_with ''Accepted Grant could not be read back''
     | Some g \<Rightarrow> Inr (as_received input g, d)))"

definition receive_successor ::
  "grant_services \<Rightarrow> clock \<Rightarrow> SignedGrantRevisionInput \<Rightarrow> lineage_row \<Rightarrow> db \<Rightarrow> (SignedGrantRevision \<times> db) outcome" where
  "receive_successor sv clk input l d =
     (let p = sg_payload input; fx = gs_functions sv in
      if lin_account l \<noteq> sg_account input then fail_with ''Grant parties or local ownership cannot change''
      else (case map_of (grant_revisions d) (grant_id p, grant_revision p) of
        Some existing \<Rightarrow>
          if rev_cose existing \<noteq> sg_representation input
            then fail_with ''Grant revision conflicts with previously received exact bytes''
          else and_then (grantFromRow (gs_codec sv) (grant_id p) (grant_revision p) l existing) (\<lambda>g.
            Inr (as_received input g, d))
      | None \<Rightarrow>
          and_then (advances d l p) (\<lambda>ok.
            if \<not> ok then fail_with ''Received Grant revision does not advance the current lineage''
            else
              and_then (insertRevision fx (clk 0) input d) (\<lambda>d.
              and_then (advance_lineage fx input d) (\<lambda>d. read_back sv input d)))))"

definition receive_first ::
  "grant_services \<Rightarrow> clock \<Rightarrow> SignedGrantRevisionInput \<Rightarrow> db \<Rightarrow> (SignedGrantRevision \<times> db) outcome" where
  "receive_first sv clk input d =
     (let p = sg_payload input; fx = gs_functions sv in
      if grant_revision p \<noteq> 1 \<or> grant_status_of p \<noteq> Active
        then fail_with ''A received Grant lineage must begin at active revision 1''
      else
        and_then (insert_lineage fx input d) (\<lambda>d.
        and_then (insertRevision fx (clk 0) input d) (\<lambda>d. read_back sv input d)))"

definition acceptReceivedRevision ::
  "grant_services \<Rightarrow> clock \<Rightarrow> SignedGrantRevisionInput \<Rightarrow> db \<Rightarrow> (SignedGrantRevision \<times> db) outcome" where
  "acceptReceivedRevision sv clk received d =
     (let input = received\<lparr>sg_role := Grantee\<rparr>; p = sg_payload input in
      and_then (checkedInput (gs_codec sv) input Grantee) (\<lambda>_.
        (case map_of (provider_accounts d) (sg_account input) of
           None \<Rightarrow> fail_with ''Active local grantee account does not match the Grant''
         | Some account \<Rightarrow>
             if acc_onboarding_state account \<noteq> ''active'' \<or> acc_did account \<noteq> Some (grantee p)
               then fail_with ''Active local grantee account does not match the Grant''
             else (case map_of (grant_lineages d) (grant_id p) of
               None \<Rightarrow> receive_first sv clk input d
             | Some l \<Rightarrow>
                 if lin_grantor l \<noteq> grantor p \<or> lin_grantee l \<noteq> grantee p
                   then fail_with ''Grant parties or local ownership cannot change''
                 else if lin_role l = Grantor then receive_collocated sv input l d
                 else receive_successor sv clk input l d))))"

section \<open>Publication\<close>

record GrantPublicationClaim =
  gc_grant :: SignedGrantRevision
  gc_destination :: jstring
  gc_lease :: jstring
  gc_lease_expires_at :: instant
  gc_attempts :: nat

definition open_publication :: "publication_state \<Rightarrow> bool" where
  "open_publication s \<longleftrightarrow> s = Pending \<or> s = Retry"

definition publication_due ::
  "db \<Rightarrow> instant \<Rightarrow> (jstring \<times> int \<Rightarrow> bool) \<Rightarrow> (jstring \<times> int) \<times> grant_publication_row \<Rightarrow> bool" where
  "publication_due d now locked = (\<lambda>((gid, n), row).
     (case map_of (grant_lineages d) gid of
        None \<Rightarrow> False
      | Some owner \<Rightarrow> open_publication (gp_state row) \<and> gp_next_attempt_at row \<le> now
          \<and> (case gp_lease_expires_at row of None \<Rightarrow> True | Some t \<Rightarrow> t \<le> now)
          \<and> \<not> fenced_account d (lin_account owner)
          \<and> \<not> list_ex (\<lambda>((_, m), prior). m < n \<and> gp_state prior \<noteq> Acknowledged) (publications_of d gid)
          \<and> \<not> locked (gid, n)))"

definition claimDuePublication ::
  "grant_services \<Rightarrow> (jstring \<times> int \<Rightarrow> bool) \<Rightarrow> jstring \<Rightarrow> int \<Rightarrow> int \<Rightarrow> clock \<Rightarrow> db \<Rightarrow>
     GrantPublicationClaim option outcome \<times> db" where
  "claimDuePublication sv locked leaseToken leaseDurationMs now clk d =
     (if leaseDurationMs \<le> 0 \<or> 9007199254740991 < leaseDurationMs
        then (fail_with ''Publication lease duration must be a positive integer'', d)
      else (case first_by (\<lambda>(_, row). (gp_next_attempt_at row, gp_created_at row))
            (filter (publication_due d (now * 1000) locked) (grant_publications d)) of
        None \<Rightarrow> (Inr None, d)
      | Some ((gid, n), row) \<Rightarrow>
          if refuses (gs_functions sv) (WriteGrantPublication (gid, n)) d then (Inl Rejected, d)
          else
            let row' = row\<lparr>gp_lease := Some leaseToken, gp_lease_expires_at := Some ((now + leaseDurationMs) * 1000),
                  gp_attempts := gp_attempts row + 1, gp_updated_at := clk 0\<rparr>;
                d' = d\<lparr>grant_publications := AList.update (gid, n) row' (grant_publications d)\<rparr>
            in (case joined d gid n of
                  None \<Rightarrow> Inr None
                | Some (l, r) \<Rightarrow> and_then (grantFromRow (gs_codec sv) gid n l r) (\<lambda>g.
                    Inr (Some \<lparr>gc_grant = g, gc_destination = gp_destination row', gc_lease = leaseToken,
                      gc_lease_expires_at = (now + leaseDurationMs) * 1000, gc_attempts = gp_attempts row'\<rparr>)), d')))"

record ClaimedPublicationResult =
  res_grant_id :: jstring
  res_revision :: int
  res_lease :: jstring
  res_http_status :: "nat option"
  res_error :: "string option"

definition owns_publication :: "instant \<Rightarrow> ClaimedPublicationResult \<Rightarrow> grant_publication_row \<Rightarrow> bool" where
  "owns_publication now input row \<longleftrightarrow> gp_lease row = Some (res_lease input)
     \<and> (case gp_lease_expires_at row of None \<Rightarrow> False | Some t \<Rightarrow> now < t) \<and> open_publication (gp_state row)"

definition finishPublication ::
  "sql_functions \<Rightarrow> clock \<Rightarrow> ClaimedPublicationResult \<Rightarrow> publication_state \<Rightarrow> int option \<Rightarrow> jstring option \<Rightarrow>
     db \<Rightarrow> (unit \<times> db) outcome" where
  "finishPublication fx clk input state nextAttemptAt etag d =
     (let k = (res_grant_id input, res_revision input) in
      case map_of (grant_publications d) k of
        None \<Rightarrow> fail_with ''Publication claim is no longer owned by this lease''
      | Some row \<Rightarrow>
          if \<not> owns_publication (clk 0) input row then fail_with ''Publication claim is no longer owned by this lease''
          else and_then (perform fx (WriteGrantPublication k) (\<lambda>d. d\<lparr>grant_publications := AList.update k
              (row\<lparr>gp_state := state,
                gp_next_attempt_at := (case nextAttemptAt of None \<Rightarrow> gp_next_attempt_at row | Some t \<Rightarrow> t * 1000),
                gp_lease := None, gp_lease_expires_at := None, gp_http_status := res_http_status input,
                gp_error := res_error input, gp_etag := etag,
                gp_acknowledged_at := (if state = Acknowledged then Some (clk 0) else None),
                gp_updated_at := clk 0\<rparr>) (grant_publications d)\<rparr>) d) (\<lambda>d. Inr ((), d)))"

definition acknowledgePublication ::
  "sql_functions \<Rightarrow> clock \<Rightarrow> ClaimedPublicationResult \<Rightarrow> jstring \<Rightarrow> db \<Rightarrow> (unit \<times> db) outcome" where
  "acknowledgePublication fx clk input etag = finishPublication fx clk input Acknowledged None (Some etag)"

definition retryPublication ::
  "sql_functions \<Rightarrow> clock \<Rightarrow> ClaimedPublicationResult \<Rightarrow> int \<Rightarrow> db \<Rightarrow> (unit \<times> db) outcome" where
  "retryPublication fx clk input nextAttemptAt = finishPublication fx clk input Retry (Some nextAttemptAt) None"

definition blockPublication ::
  "sql_functions \<Rightarrow> clock \<Rightarrow> ClaimedPublicationResult \<Rightarrow> db \<Rightarrow> (unit \<times> db) outcome" where
  "blockPublication fx clk input = finishPublication fx clk input Blocked None None"

end
