(* ===== verification/Accounts.thy ===== *)
theory Accounts
  imports DeliverySystem Status GrantStore
begin

text \<open>
  What account holders and their provider do to the tables of the messages and grants besides sending and
  receiving: \<^verbatim>\<open>accounts/lifecycle.ts\<close> closes an account, \<^verbatim>\<open>accounts/message-trash.ts\<close> and
  \<^verbatim>\<open>accounts/conversations.ts\<close> move messages to the trash, back, and out of the mailbox, and the last part of
  \<^verbatim>\<open>accounts/custody-transition.ts\<close> takes back the leases of an account whose key changes. What these
  transactions read and write in other tables (sessions, domains, drafts, sent items,
  preferences, worker leases) enters as the record \<open>account_tables\<close>.
\<close>

declare split_paired_All [simp del] split_paired_Ex [simp del] Status.decimal.simps [simp del]

section \<open>Statements on many rows\<close>

text \<open>An \<open>UPDATE\<close> changes the rows that satisfy its condition, in turn; \<open>clock_timestamp()\<close> is read for each.\<close>

fun update_rows :: "('k \<Rightarrow> 'v \<Rightarrow> bool) \<Rightarrow> (nat \<Rightarrow> 'v \<Rightarrow> 'v) \<Rightarrow> nat \<Rightarrow> ('k, 'v) table \<Rightarrow> ('k, 'v) table" where
  "update_rows P f i [] = []"
| "update_rows P f i ((k, v) # t) =
     (if P k v then (k, f i v) # update_rows P f (Suc i) t else (k, v) # update_rows P f i t)"

definition delete_rows :: "('k \<Rightarrow> 'v \<Rightarrow> bool) \<Rightarrow> ('k, 'v) table \<Rightarrow> ('k, 'v) table" where
  "delete_rows P t = filter (\<lambda>(k, v). \<not> P k v) t"

text \<open>A trigger can refuse any of the rows, which rolls the transaction back.\<close>

definition perform_rows ::
  "sql_functions \<Rightarrow> ('k \<Rightarrow> statement) \<Rightarrow> ('k \<Rightarrow> 'v \<Rightarrow> bool) \<Rightarrow> ('k, 'v) table \<Rightarrow> (db \<Rightarrow> db) \<Rightarrow> db \<Rightarrow> db outcome" where
  "perform_rows fx s P t f d = (if list_ex (\<lambda>(k, v). P k v \<and> refuses fx (s k) d) t then Inl Rejected else Inr (f d))"

lemma perform_rows_Inr: "perform_rows fx s P t f d = Inr d' \<Longrightarrow> d' = f d"
  by (auto simp: perform_rows_def)

lemma map_of_update_rows:
  "\<exists>j. map_of (update_rows P f i t) k = map_option (\<lambda>v. if P k v then f j v else v) (map_of t k)"
  by (induction P f i t rule: update_rows.induct) auto

lemma fst_update_rows [simp]: "map fst (update_rows P f i t) = map fst t"
  by (induction P f i t rule: update_rows.induct) auto

lemma keyed_update_rows [simp]: "keyed (update_rows P f i t) = keyed t"
  by (simp add: keyed_def)

lemma map_of_None_fst: "map fst t' = map fst t \<Longrightarrow> map_of t' k = None \<longleftrightarrow> map_of t k = None"
  by (metis map_of_eq_None_iff list.set_map)

lemma map_of_update_rows_None [simp]: "map_of (update_rows P f i t) k = None \<longleftrightarrow> map_of t k = None"
  by (rule map_of_None_fst) simp

lemma map_of_delete_rows: "map_of t k = None \<Longrightarrow> map_of (delete_rows P t) k = None"
  by (auto simp: delete_rows_def map_of_eq_None_iff)

lemma length_filter_update_rows:
  assumes "\<And>k v i. P k v \<Longrightarrow> Q (k, f i v) \<Longrightarrow> Q (k, v)"
  shows "length (filter Q (update_rows P f i t)) \<le> length (filter Q t)"
  using assms by (induction P f i t rule: update_rows.induct) (auto simp: le_SucI)

section \<open>Sessions and errors\<close>

datatype account_error = AccountError nat string | Refused server_error

type_synonym 'a account_result = "account_error + 'a"

definition in_database :: "'a outcome \<Rightarrow> 'a account_result" where
  "in_database r = (case r of Inl e \<Rightarrow> Inl (Refused e) | Inr x \<Rightarrow> Inr x)"

lemma in_database_Inr [simp]: "in_database r = Inr x \<longleftrightarrow> r = Inr x"
  by (auto simp: in_database_def split: sum.splits)

record AccountApiSession =
  session_account :: jstring
  session_did :: jstring
  session_address :: jstring
  passkey_credential :: "jstring option"
  passkey_verified_at :: "int option"

record account_tables =
  current_passkey :: bool
  registered_domain :: bool
  migration_snapshot :: bool
  connections_drained :: bool
  address_releasable :: bool
  trash_enabled :: "bool option"
  leased_tokens :: "jstring list"

definition RECENT_PASSKEY_WINDOW_MS :: int where
  "RECENT_PASSKEY_WINDOW_MS = 10 * 60000"

definition requireRecentPasskey :: "int \<Rightarrow> AccountApiSession \<Rightarrow> unit account_result" where
  "requireRecentPasskey now session =
     (let refusal = Inl (AccountError 403 ''Sign in again with your passkey before this operation.'') in
      case (passkey_credential session, passkey_verified_at session) of
        (Some credential, Some t) \<Rightarrow>
          if credential = [] \<or> t < now - RECENT_PASSKEY_WINDOW_MS then refusal else Inr ()
      | _ \<Rightarrow> refusal)"

definition requireCurrentPasskey :: "account_tables \<Rightarrow> int \<Rightarrow> AccountApiSession \<Rightarrow> unit account_result" where
  "requireCurrentPasskey ax now session =
     and_then (requireRecentPasskey now session) (\<lambda>_.
       if current_passkey ax then Inr ()
       else Inl (AccountError 403 ''Current, recently verified passkey session required.''))"

section \<open>Closing an account\<close>

definition of_account :: "db \<Rightarrow> jstring \<Rightarrow> message_key \<Rightarrow> bool" where
  "of_account d account k = (case map_of (received_envelopes d) k of None \<Rightarrow> False | Some r \<Rightarrow> rcv_account r = account)"

definition closed_work :: "instant \<Rightarrow> work_row \<Rightarrow> work_row" where
  "closed_work t w = w\<lparr>work_state := Cancelled, work_reason := Some ''account-closed'', lease_token := None,
     lease_expires_at := None, status_revision := status_revision w + 1, transitioned_at := t\<rparr>"

definition cancel_work :: "sql_functions \<Rightarrow> clock \<Rightarrow> jstring \<Rightarrow> db \<Rightarrow> db outcome" where
  "cancel_work fx clk account d =
     (let P = (\<lambda>k w. of_account d account k \<and> open_state (work_state w)) in
      perform_rows fx WriteWork P (delivery_work d)
        (\<lambda>d. d\<lparr>delivery_work := update_rows P (\<lambda>i. closed_work (clk i)) 1 (delivery_work d)\<rparr>) d)"

definition block_statuses :: "sql_functions \<Rightarrow> clock \<Rightarrow> jstring \<Rightarrow> db \<Rightarrow> db outcome" where
  "block_statuses fx clk account d =
     (let P = (\<lambda>k row. of_account d account k \<and> open_status (pub_state row)) in
      perform_rows fx WritePublication P (terminal_status_publications d)
        (\<lambda>d. d\<lparr>terminal_status_publications := update_rows P (\<lambda>i row. row\<lparr>pub_state := Blocked,
            pub_error := Some ''Account closed'', pub_lease := None, pub_lease_expires_at := None, pub_updated_at := clk i\<rparr>) 1
          (terminal_status_publications d)\<rparr>) d)"

definition blocked_grant :: "instant \<Rightarrow> grant_publication_row \<Rightarrow> grant_publication_row" where
  "blocked_grant t row = row\<lparr>gp_state := Blocked, gp_error := Some ''Account closed'', gp_lease := None,
     gp_lease_expires_at := None, gp_updated_at := t\<rparr>"

definition block_grants :: "sql_functions \<Rightarrow> clock \<Rightarrow> jstring \<Rightarrow> db \<Rightarrow> db outcome" where
  "block_grants fx clk account d =
     (let P = (\<lambda>k row. (case map_of (grant_lineages d) (fst k) of None \<Rightarrow> False | Some l \<Rightarrow> lin_account l = account)
                \<and> open_publication (gp_state row)) in
      perform_rows fx WriteGrantPublication P (grant_publications d)
        (\<lambda>d. d\<lparr>grant_publications := update_rows P (\<lambda>i. blocked_grant (clk i)) 1 (grant_publications d)\<rparr>) d)"

text \<open>Deleting a verified body also deletes its references to attachments (\<open>ON DELETE CASCADE\<close>).\<close>

definition drop_bodies :: "sql_functions \<Rightarrow> (provenance_key \<Rightarrow> bool) \<Rightarrow> db \<Rightarrow> db outcome" where
  "drop_bodies fx P d =
     (if list_ex (\<lambda>p. P p \<and> refuses fx (WriteProvenance p) d) (verified_body_provenance d) then Inl Rejected
      else Inr (d\<lparr>verified_body_provenance := filter (\<lambda>p. \<not> P p) (verified_body_provenance d),
        received_attachment_refs := filter (\<lambda>(p, _). \<not> P p) (received_attachment_refs d)\<rparr>))"

definition provenance_digest :: "provenance_key \<Rightarrow> bytes" where
  "provenance_digest p = fst (snd (snd p))"

definition drop_blobs :: "bytes list \<Rightarrow> db \<Rightarrow> db" where
  "drop_blobs digests d = d\<lparr>shared_content_blobs := delete_rows
     (\<lambda>digest _. digest \<in> set digests \<and> digest \<notin> provenance_digest ` set (verified_body_provenance d)) (shared_content_blobs d)\<rparr>"

definition empty_mailbox :: "sql_functions \<Rightarrow> jstring \<Rightarrow> db \<Rightarrow> db outcome" where
  "empty_mailbox fx did d =
     (let mine = (\<lambda>p :: provenance_key. fst p = did);
          blobs = map provenance_digest (filter mine (verified_body_provenance d));
          P = (\<lambda>_ row. dlv_recipient row = did) in
      and_then (perform_rows fx WriteDelivered P (delivered_messages d)
        (\<lambda>d. d\<lparr>delivered_messages := delete_rows P (delivered_messages d)\<rparr>) d) (\<lambda>d.
      and_then (drop_bodies fx mine d) (\<lambda>d. Inr (drop_blobs blobs d))))"

definition close_tables :: "sql_functions \<Rightarrow> (nat \<Rightarrow> clock) \<Rightarrow> jstring \<Rightarrow> jstring \<Rightarrow> db \<Rightarrow> db outcome" where
  "close_tables fx clk account did d =
     and_then (cancel_work fx (clk 0) account d) (\<lambda>d.
     and_then (block_statuses fx (clk 1) account d) (\<lambda>d.
     and_then (block_grants fx (clk 2) account d) (\<lambda>d. empty_mailbox fx did d)))"

definition close_refusal :: "account_tables \<Rightarrow> account_error option" where
  "close_refusal ax =
     (if registered_domain ax then Some (AccountError 409 (''Withdraw your registered domains before deleting this account. ''
          @ ''Other accounts under them will retain their inboxes and identities.''))
      else if migration_snapshot ax then Some (AccountError 409 (''This account has migration snapshots. ''
          @ ''Deletion requires snapshot erasure support before inbox removal can be guaranteed.''))
      else if \<not> connections_drained ax then Some (Refused Rejected)
      else None)"

definition close_account ::
  "sql_functions \<Rightarrow> account_tables \<Rightarrow> (nat \<Rightarrow> int) \<Rightarrow> (nat \<Rightarrow> clock) \<Rightarrow> AccountApiSession \<Rightarrow> jstring \<Rightarrow> db \<Rightarrow>
     (unit \<times> db) account_result" where
  "close_account fx ax now clk session address d =
     (let account = session_account session; did = session_did session in
      and_then (requireRecentPasskey (now 0) session) (\<lambda>_.
        if address \<noteq> session_address session then Inl (AccountError 400 ''Confirm the exact account address.'')
        else (case map_of (provider_accounts d) account of
          None \<Rightarrow> Inl (AccountError 404 ''Account not found.'')
        | Some row \<Rightarrow>
            if acc_did row \<noteq> Some did then Inl (AccountError 404 ''Account not found.'')
            else if acc_closed_at row \<noteq> None then Inr ((), d)
            else
              and_then (in_database (assert_unfenced_account d account)) (\<lambda>_.
              and_then (requireCurrentPasskey ax (now 1) session) (\<lambda>_.
              and_then (case close_refusal ax of Some e \<Rightarrow> Inl e | None \<Rightarrow> Inr ()) (\<lambda>_.
              and_then (in_database (close_tables fx clk account did d)) (\<lambda>d.
                if \<not> address_releasable ax then Inl (Refused Rejected)
                else Inr ((), d\<lparr>provider_accounts := AList.update account (row\<lparr>acc_closed_at := Some (clk 3 1)\<rparr>)
                  (provider_accounts d)\<rparr>))))))))"

section \<open>The mailbox and its trash\<close>

definition thirty_days :: instant where
  "thirty_days = 30 * 86400000000"

definition mailbox_lock :: "AccountApiSession \<Rightarrow> db \<Rightarrow> unit account_result" where
  "mailbox_lock session d = (case map_of (provider_accounts d) (session_account session) of
     None \<Rightarrow> Inl (AccountError 409 ''Account is unavailable'')
   | Some row \<Rightarrow>
       if acc_did row \<noteq> Some (session_did session) \<or> acc_onboarding_state row \<noteq> ''active''
         then Inl (AccountError 409 ''Account is unavailable'')
       else in_database (assert_unfenced_account d (session_account session)))"

definition body_of :: "message_key \<Rightarrow> delivered_row \<Rightarrow> provenance_key" where
  "body_of k row = (dlv_recipient row, fst k, dlv_body_digest row, dlv_profile row)"

definition cleanBodies :: "sql_functions \<Rightarrow> provenance_key list \<Rightarrow> db \<Rightarrow> db outcome" where
  "cleanBodies fx gone d =
     drop_bodies fx (\<lambda>p. p \<in> set gone \<and> \<not> list_ex (\<lambda>(k, row). body_of k row = p) (delivered_messages d)) d"

definition delete_messages :: "sql_functions \<Rightarrow> (message_key \<Rightarrow> delivered_row \<Rightarrow> bool) \<Rightarrow> db \<Rightarrow> (nat \<times> db) outcome" where
  "delete_messages fx P d =
     (let gone = filter (\<lambda>(k, row). P k row) (delivered_messages d) in
      and_then (perform_rows fx WriteDelivered P (delivered_messages d)
        (\<lambda>d. d\<lparr>delivered_messages := delete_rows P (delivered_messages d)\<rparr>) d) (\<lambda>d.
      and_then (cleanBodies fx (map (\<lambda>(k, row). body_of k row) gone) d) (\<lambda>d. Inr (length gone, d))))"

definition mark_messages ::
  "sql_functions \<Rightarrow> (message_key \<Rightarrow> delivered_row \<Rightarrow> bool) \<Rightarrow> (nat \<Rightarrow> delivered_row \<Rightarrow> delivered_row) \<Rightarrow> db \<Rightarrow>
     (nat \<times> db) outcome" where
  "mark_messages fx P f d =
     and_then (perform_rows fx WriteDelivered P (delivered_messages d)
       (\<lambda>d. d\<lparr>delivered_messages := update_rows P f 1 (delivered_messages d)\<rparr>) d) (\<lambda>d'.
     Inr (length (filter (\<lambda>(k, row). P k row) (delivered_messages d)), d'))"

definition to_trash :: "clock \<Rightarrow> nat \<Rightarrow> delivered_row \<Rightarrow> delivered_row" where
  "to_trash clk i row = row\<lparr>dlv_trashed_at := (case dlv_trashed_at row of None \<Rightarrow> Some (clk i) | t \<Rightarrow> t)\<rparr>"

definition trashed :: "jstring \<Rightarrow> message_key \<Rightarrow> delivered_row \<Rightarrow> bool" where
  "trashed did k row \<longleftrightarrow> dlv_recipient row = did \<and> dlv_trashed_at row \<noteq> None"

definition restorable :: "jstring \<Rightarrow> instant \<Rightarrow> delivered_row \<Rightarrow> bool" where
  "restorable did now row \<longleftrightarrow> dlv_recipient row = did
     \<and> (case dlv_trashed_at row of None \<Rightarrow> False | Some t \<Rightarrow> now - thirty_days < t)"

text \<open>Drafts and sent items have tables of their own; the counts are those of the messages.\<close>

definition saveSettings :: "sql_functions \<Rightarrow> AccountApiSession \<Rightarrow> bool option \<Rightarrow> db \<Rightarrow> (bool \<times> db) account_result" where
  "saveSettings fx session enabled d = (case enabled of
     None \<Rightarrow> Inl (AccountError 400 ''Invalid Trash preference'')
   | Some enabled \<Rightarrow> and_then (mailbox_lock session d) (\<lambda>_.
       if enabled then Inr (enabled, d)
       else and_then (in_database (delete_messages fx (trashed (session_did session)) d)) (\<lambda>(_, d). Inr (enabled, d))))"

datatype disposal = Deleted | Trashed

definition remove_message ::
  "sql_functions \<Rightarrow> account_tables \<Rightarrow> clock \<Rightarrow> AccountApiSession \<Rightarrow> jstring \<Rightarrow> jstring \<Rightarrow> bool \<Rightarrow> db \<Rightarrow>
     (disposal \<times> db) account_result" where
  "remove_message fx ax clk session sender ident permanent d =
     (if \<not> DID_PATTERN sender \<or> \<not> UUID_V7_PATTERN ident then Inl (AccountError 400 ''Invalid message identity'')
      else and_then (mailbox_lock session d) (\<lambda>_.
        let P = (\<lambda>k row. dlv_recipient row = session_did session \<and> k = (sender, ident)) in
        if permanent \<or> trash_enabled ax = Some False
          then and_then (in_database (delete_messages fx P d)) (\<lambda>(_, d). Inr (Deleted, d))
        else and_then (in_database (mark_messages fx P (to_trash clk) d)) (\<lambda>(n, d).
          Inr (if n = 0 then Deleted else Trashed, d))))"

fun restore_items ::
  "sql_functions \<Rightarrow> (nat \<Rightarrow> clock) \<Rightarrow> jstring \<Rightarrow> nat \<Rightarrow> message_key list \<Rightarrow> db \<Rightarrow> (nat \<times> db) outcome" where
  "restore_items fx clk did restored [] d = Inr (restored, d)"
| "restore_items fx clk did restored (item # rest) d =
     and_then (mark_messages fx (\<lambda>k row. k = item \<and> restorable did (clk (length rest) 1) row)
       (\<lambda>_ row. row\<lparr>dlv_trashed_at := None\<rparr>) d) (\<lambda>(n, d). restore_items fx clk did (restored + n) rest d)"

definition restore_messages :: "sql_functions \<Rightarrow> (nat \<Rightarrow> clock) \<Rightarrow> AccountApiSession \<Rightarrow> message_key list \<Rightarrow> db \<Rightarrow> (nat \<times> db) account_result" where
  "restore_messages fx clk session chosen d =
     (if length chosen < 1 \<or> 100 < length chosen \<or> list_ex (\<lambda>(sender, ident). \<not> DID_PATTERN sender \<or> \<not> UUID_V7_PATTERN ident) chosen
        then Inl (AccountError 400 ''Choose 1 to 100 messages to restore'')
      else and_then (mailbox_lock session d) (\<lambda>_.
        in_database (restore_items fx clk (session_did session) 0 chosen d)))"

definition empty_trash :: "sql_functions \<Rightarrow> AccountApiSession \<Rightarrow> db \<Rightarrow> (nat \<times> db) account_result" where
  "empty_trash fx session d =
     and_then (mailbox_lock session d) (\<lambda>_. in_database (delete_messages fx (trashed (session_did session)) d))"

text \<open>One account of \<open>purgeExpired\<close>: at most 500 messages, the oldest of the trash first.\<close>

definition expired_trash :: "jstring \<Rightarrow> instant \<Rightarrow> db \<Rightarrow> message_key list" where
  "expired_trash did now d = map fst (take 500 (sort_key (\<lambda>(_, row). dlv_trashed_at row)
     (filter (\<lambda>(k, row). dlv_recipient row = did \<and> (case dlv_trashed_at row of None \<Rightarrow> False | Some t \<Rightarrow> t \<le> now - thirty_days))
       (delivered_messages d))))"

definition purge_account :: "sql_functions \<Rightarrow> clock \<Rightarrow> jstring \<Rightarrow> jstring \<Rightarrow> db \<Rightarrow> (nat \<times> db) outcome" where
  "purge_account fx clk account did d =
     (if fenced_account d account then Inr (0, d)
      else delete_messages fx (\<lambda>k _. k \<in> set (expired_trash did (clk 1) d)) d)"

datatype conversation_action = MarkRead | MarkUnread | ActionTrash | ActionRestore

text \<open>Whether a message is read is not kept in the model. One reading of the clock stands for those of a statement's rows.\<close>

definition conversation_action ::
  "sql_functions \<Rightarrow> account_tables \<Rightarrow> clock \<Rightarrow> AccountApiSession \<Rightarrow> jstring \<Rightarrow> conversation_action \<Rightarrow> db \<Rightarrow>
     (nat \<times> db) account_result" where
  "conversation_action fx ax clk session peer action d =
     (if \<not> DID_PATTERN peer then Inl (AccountError 400 ''Invalid peer'')
      else and_then (in_database (assert_unfenced_account d (session_account session))) (\<lambda>_.
        let did = session_did session in
        case action of
          ActionTrash \<Rightarrow>
            if trash_enabled ax = Some False then Inl (AccountError 409 ''Trash is disabled; conversation was not deleted'')
            else in_database (mark_messages fx (\<lambda>k row. dlv_recipient row = did \<and> fst k = peer) (to_trash clk) d)
        | ActionRestore \<Rightarrow> in_database (mark_messages fx (\<lambda>k row. fst k = peer \<and> restorable did (clk 1) row)
            (\<lambda>_ row. row\<lparr>dlv_trashed_at := None\<rparr>) d)
        | _ \<Rightarrow> in_database (mark_messages fx (\<lambda>k row. dlv_recipient row = did \<and> fst k = peer \<and> dlv_trashed_at row = None)
            (\<lambda>_ row. row) d)))"

section \<open>A change of custody\<close>

text \<open>The leases that workers hold for the account are taken back, on whatever entry of whichever queue.\<close>

definition unleased :: "work_row \<Rightarrow> work_row" where
  "unleased w = w\<lparr>lease_token := None, lease_expires_at := None\<rparr>"

definition holds_token :: "jstring list \<Rightarrow> jstring option \<Rightarrow> bool" where
  "holds_token tokens lease = (case lease of None \<Rightarrow> False | Some t \<Rightarrow> t \<in> set tokens)"

definition free_grants :: "sql_functions \<Rightarrow> jstring list \<Rightarrow> db \<Rightarrow> db outcome" where
  "free_grants fx tokens d =
     (let P = (\<lambda>_ row. holds_token tokens (gp_lease row)) in
      perform_rows fx WriteGrantPublication P (grant_publications d)
        (\<lambda>d. d\<lparr>grant_publications := update_rows P (\<lambda>_ row. row\<lparr>gp_lease := None, gp_lease_expires_at := None\<rparr>) 1
          (grant_publications d)\<rparr>) d)"

definition free_work :: "sql_functions \<Rightarrow> jstring list \<Rightarrow> db \<Rightarrow> db outcome" where
  "free_work fx tokens d =
     (let P = (\<lambda>_ w. holds_token tokens (lease_token w)) in
      perform_rows fx WriteWork P (delivery_work d)
        (\<lambda>d. d\<lparr>delivery_work := update_rows P (\<lambda>_. unleased) 1 (delivery_work d)\<rparr>) d)"

definition free_statuses :: "sql_functions \<Rightarrow> jstring list \<Rightarrow> db \<Rightarrow> db outcome" where
  "free_statuses fx tokens d =
     (let P = (\<lambda>_ row. holds_token tokens (pub_lease row)) in
      perform_rows fx WritePublication P (terminal_status_publications d)
        (\<lambda>d. d\<lparr>terminal_status_publications := update_rows P (\<lambda>_ row. row\<lparr>pub_lease := None, pub_lease_expires_at := None\<rparr>) 1
          (terminal_status_publications d)\<rparr>) d)"

definition free_leases :: "sql_functions \<Rightarrow> account_tables \<Rightarrow> db \<Rightarrow> db outcome" where
  "free_leases fx ax d =
     and_then (free_grants fx (leased_tokens ax) d) (\<lambda>d.
     and_then (free_work fx (leased_tokens ax) d) (\<lambda>d. free_statuses fx (leased_tokens ax) d))"

section \<open>What these transactions leave of the messages\<close>

text \<open>They touch no envelope and no permission to reply, neither add nor remove a scheduled status, and only take from mailboxes.\<close>

definition keeps_ends :: "db \<Rightarrow> db \<Rightarrow> bool" where
  "keeps_ends d d' \<longleftrightarrow> received_envelopes d' = received_envelopes d \<and> reply_capabilities d' = reply_capabilities d
     \<and> (\<forall>k. publications d' k = None \<longleftrightarrow> publications d k = None)
     \<and> (\<forall>k. delivered d k = None \<longrightarrow> delivered d' k = None)"

definition closes :: "db \<Rightarrow> db \<Rightarrow> bool" where
  "closes d d' \<longleftrightarrow> keeps_ends d d'
     \<and> (\<exists>P t n. delivery_work d' = update_rows P (\<lambda>i. closed_work (t i)) n (delivery_work d)
          \<and> (\<forall>k w. P k w \<longrightarrow> open_state (work_state w)))"

definition frees :: "db \<Rightarrow> db \<Rightarrow> bool" where
  "frees d d' \<longleftrightarrow> keeps_ends d d'
     \<and> (\<exists>P n. delivery_work d' = update_rows P (\<lambda>_. unleased) n (delivery_work d) \<and> (\<forall>k w. P k w \<longrightarrow> lease_token w \<noteq> None))"

definition same_mail :: "db \<Rightarrow> db \<Rightarrow> bool" where
  "same_mail d d' \<longleftrightarrow> (\<forall>k. delivered d' k = None \<longleftrightarrow> delivered d k = None)"

lemma keeps_ends_refl [simp]: "keeps_ends d d"
  by (simp add: keeps_ends_def)

lemma keeps_ends_trans: "keeps_ends d e \<Longrightarrow> keeps_ends e f \<Longrightarrow> keeps_ends d f"
  by (simp add: keeps_ends_def)

lemma keeps_endsI:
  assumes "received_envelopes d' = received_envelopes d" "reply_capabilities d' = reply_capabilities d"
    "map fst (terminal_status_publications d') = map fst (terminal_status_publications d)"
    "delivered_messages d' = delivered_messages d"
  shows "keeps_ends d d'"
  using map_of_None_fst [OF assms(3)] assms(1,2,4) by (simp add: keeps_ends_def)

lemma update_rows_none [simp]: "update_rows (\<lambda>_ _. False) f i t = t"
  by (induction "\<lambda>(_ :: 'a) (_ :: 'b). False" f i t rule: update_rows.induct) auto

lemma frees_none: "keeps_ends d d' \<Longrightarrow> delivery_work d' = delivery_work d \<Longrightarrow> frees d d'"
  unfolding frees_def by (intro conjI exI [of _ "\<lambda>_ _. False"]) (simp_all add: update_rows_none)

lemma drop_bodies_frame: "drop_bodies fx P d = Inr d' \<Longrightarrow> same_messages d d'"
  by (auto simp: drop_bodies_def same_messages_def)

lemma same_messages_keeps: "same_messages d d' \<Longrightarrow> keeps_ends d d'"
  by (simp add: same_messages_def keeps_ends_def)

lemma delete_delivered_keeps: "keeps_ends d (d\<lparr>delivered_messages := delete_rows P (delivered_messages d)\<rparr>)"
  by (simp add: keeps_ends_def map_of_delete_rows)

lemma empty_mailbox_keeps:
  assumes "empty_mailbox fx did d = Inr d'"
  shows "keeps_ends d d' \<and> delivery_work d' = delivery_work d"
proof -
  obtain d1 d2 P bs where d1: "d1 = d\<lparr>delivered_messages := delete_rows P (delivered_messages d)\<rparr>"
    and d2: "drop_bodies fx (\<lambda>p. fst p = did) d1 = Inr d2" and d': "d' = drop_blobs bs d2"
    using assms by (auto simp: empty_mailbox_def Let_def dest!: perform_rows_Inr)
  have "same_messages d1 d'" using drop_bodies_frame [OF d2] by (simp add: d' drop_blobs_def same_messages_def)
  with delete_delivered_keeps [of d P] d1 show ?thesis
    using keeps_ends_trans [OF _ same_messages_keeps] by (auto simp: same_messages_def)
qed

lemma close_tables_closes:
  assumes "close_tables fx clk account did d = Inr d'"
  shows "closes d d'"
proof -
  let ?P = "\<lambda>k w. of_account d account k \<and> open_state (work_state w)"
  obtain d1 d2 d3 where d1: "cancel_work fx (clk 0) account d = Inr d1" and d2: "block_statuses fx (clk 1) account d1 = Inr d2"
    and d3: "block_grants fx (clk 2) account d2 = Inr d3" and d': "empty_mailbox fx did d3 = Inr d'"
    using assms by (auto simp: close_tables_def)
  have w: "delivery_work d1 = update_rows ?P (\<lambda>i. closed_work (clk 0 i)) 1 (delivery_work d)" and k1: "keeps_ends d d1"
    using d1 by (auto simp: cancel_work_def Let_def keeps_ends_def dest!: perform_rows_Inr)
  have "keeps_ends d1 d2 \<and> delivery_work d2 = delivery_work d1"
    using d2 by (auto simp: block_statuses_def Let_def intro!: keeps_endsI dest!: perform_rows_Inr)
  moreover have "keeps_ends d2 d3 \<and> delivery_work d3 = delivery_work d2"
    using d3 by (auto simp: block_grants_def Let_def keeps_ends_def dest!: perform_rows_Inr)
  ultimately have "keeps_ends d d'" and e: "delivery_work d' = delivery_work d1"
    using k1 empty_mailbox_keeps [OF d'] by (auto intro: keeps_ends_trans)
  with w show ?thesis unfolding closes_def e by blast
qed

lemma close_account_closes:
  assumes "close_account fx ax now clk session address d = Inr (u, d')"
  shows "closes d d'"
proof (cases "d' = d")
  case True
  have "closes d d" unfolding closes_def by (intro conjI exI [of _ "\<lambda>_ _. False"]) (simp_all add: update_rows_none)
  with True show ?thesis by simp
next
  case False
  then obtain dm row where "close_tables fx clk (session_account session) (session_did session) d = Inr dm"
    "d' = dm\<lparr>provider_accounts := AList.update (session_account session) row (provider_accounts dm)\<rparr>"
    using assms by (auto simp: close_account_def Let_def split: if_splits option.splits)
  with close_tables_closes show ?thesis by (auto simp: closes_def keeps_ends_def)
qed

text \<open>The mailbox.\<close>

lemma delete_messages_keeps:
  assumes "delete_messages fx P d = Inr (n, d')"
  shows "keeps_ends d d' \<and> delivery_work d' = delivery_work d"
proof -
  obtain d1 bodies where d1: "d1 = d\<lparr>delivered_messages := delete_rows P (delivered_messages d)\<rparr>" and d': "cleanBodies fx bodies d1 = Inr d'"
    using assms by (auto simp: delete_messages_def Let_def dest!: perform_rows_Inr)
  have "same_messages d1 d'" using d' unfolding cleanBodies_def by (rule drop_bodies_frame)
  with delete_delivered_keeps [of d P] d1 show ?thesis
    using keeps_ends_trans [OF _ same_messages_keeps] by (auto simp: same_messages_def)
qed

lemma mark_messages_keeps:
  assumes "mark_messages fx P f d = Inr (n, d')"
  shows "keeps_ends d d' \<and> delivery_work d' = delivery_work d \<and> same_mail d d'"
  using assms by (auto simp: mark_messages_def keeps_ends_def same_mail_def dest!: perform_rows_Inr)

lemma restore_items_keeps:
  "restore_items fx clk did m chosen d = Inr (n, d') \<Longrightarrow> keeps_ends d d' \<and> delivery_work d' = delivery_work d \<and> same_mail d d'"
proof (induction chosen arbitrary: m d)
  case (Cons item chosen)
  then obtain m' d1 where "mark_messages fx (\<lambda>k row. k = item \<and> restorable did (clk (length chosen) 1) row)
      (\<lambda>_ row. row\<lparr>dlv_trashed_at := None\<rparr>) d = Inr (m', d1)" "restore_items fx clk did (m + m') chosen d1 = Inr (n, d')"
    by auto
  with mark_messages_keeps [OF this(1)] Cons.IH [OF this(2)] show ?case
    by (auto intro: keeps_ends_trans simp: same_mail_def)
qed (simp add: same_mail_def)

lemma mailbox_keeps:
  "saveSettings fx session enabled d = Inr (b, d') \<Longrightarrow> keeps_ends d d' \<and> delivery_work d' = delivery_work d"
  "remove_message fx ax clk session sender ident permanent d = Inr (r, d') \<Longrightarrow> keeps_ends d d' \<and> delivery_work d' = delivery_work d"
  "empty_trash fx session d = Inr (n, d') \<Longrightarrow> keeps_ends d d' \<and> delivery_work d' = delivery_work d"
  "purge_account fx clk account did d = Inr (n, d') \<Longrightarrow> keeps_ends d d' \<and> delivery_work d' = delivery_work d"
  by (auto simp: saveSettings_def remove_message_def empty_trash_def purge_account_def Let_def
      dest!: delete_messages_keeps mark_messages_keeps split: option.splits if_splits)

lemma marks_keep:
  "restore_messages fx clks session chosen d = Inr (n, d') \<Longrightarrow> keeps_ends d d' \<and> delivery_work d' = delivery_work d \<and> same_mail d d'"
  "conversation_action fx ax clk session peer action d = Inr (n, d') \<Longrightarrow>
     keeps_ends d d' \<and> delivery_work d' = delivery_work d \<and> same_mail d d'"
  by (auto simp: restore_messages_def conversation_action_def Let_def
      dest!: restore_items_keeps mark_messages_keeps split: if_splits conversation_action.splits)

lemma free_leases_frees:
  assumes "free_leases fx ax d = Inr d'"
  shows "frees d d' \<and> same_mail d d'"
proof -
  let ?tokens = "leased_tokens ax" and ?P = "\<lambda>_ w. holds_token (leased_tokens ax) (lease_token w)"
  obtain d1 d2 where d1: "free_grants fx ?tokens d = Inr d1" and d2: "free_work fx ?tokens d1 = Inr d2" and d': "free_statuses fx ?tokens d2 = Inr d'"
    using assms by (auto simp: free_leases_def)
  have "same_messages d d1" using d1 by (auto simp: free_grants_def Let_def same_messages_def dest!: perform_rows_Inr)
  moreover have "keeps_ends d1 d2 \<and> delivery_work d2 = update_rows ?P (\<lambda>_. unleased) 1 (delivery_work d1) \<and> same_mail d1 d2"
    using d2 by (auto simp: free_work_def Let_def keeps_ends_def same_mail_def dest!: perform_rows_Inr)
  moreover have "keeps_ends d2 d' \<and> delivery_work d' = delivery_work d2 \<and> same_mail d2 d'"
    using d' by (auto simp: free_statuses_def Let_def same_mail_def intro!: keeps_endsI dest!: perform_rows_Inr)
  ultimately have k: "keeps_ends d d'" "delivery_work d' = update_rows ?P (\<lambda>_. unleased) 1 (delivery_work d)" "same_mail d d'"
    by (auto simp: same_messages_def keeps_ends_def same_mail_def)
  moreover have "?P q w \<longrightarrow> lease_token w \<noteq> None" for q :: message_key and w by (auto simp: holds_token_def split: option.splits)
  ultimately show ?thesis unfolding frees_def by blast
qed

text \<open>The publisher of statuses.\<close>

lemma claim_status_keeps:
  assumes "claim_status sx clk locked token d = Inr (c, d')"
  shows "keeps_ends d d' \<and> delivery_work d' = delivery_work d \<and> same_mail d d'"
proof (cases "d' = d")
  case False
  with assms obtain k row row' where sel: "first_by (\<lambda>(k, row). (pub_next_attempt_at row, snd k))
      (filter (status_due d (clk 0) locked) (terminal_status_publications d)) = Some (k, row)"
    and d': "d' = d\<lparr>terminal_status_publications := AList.update k row' (terminal_status_publications d)\<rparr>"
    by (auto simp: claim_status_def split: option.splits)
  have "(k, row) \<in> set (terminal_status_publications d)" using first_by_mem [OF sel] by simp
  then have "publications d k \<noteq> None" by (simp add: map_of_eq_None_iff rev_image_eqI)
  with d' show ?thesis by (auto simp: keeps_ends_def same_mail_def)
qed (simp add: same_mail_def)

lemma finish_status_keeps:
  "finish_status fx clk c state status nxt err d = Inr d' \<Longrightarrow> keeps_ends d d' \<and> delivery_work d' = delivery_work d \<and> same_mail d d'"
  by (auto simp: finish_status_def Let_def keeps_ends_def same_mail_def split: option.splits if_splits)

end
