(* ===== verification/MessageLife.thy ===== *)
theory MessageLife
  imports Accounts
begin

text \<open>
  The provider as a system of steps: envelopes arrive and are sent, workers claim entries of the
  queue, and claims end or postpone deliveries. A claim can be used at any later time and any number
  of times, also after its lease was lost. Between these steps the final statuses are published, the
  recipients empty their mailboxes, accounts are closed and their keys change hands, and whatever other
  transaction runs that does not write the tables of the messages. (Whether a message is read, which
  \<^verbatim>\<open>accounts/messaging.ts\<close> notes in its row, is not part of the model.)

  The steps are those of a provider that serves its accounts. The migration of an account from one
  provider to another deletes (\<^verbatim>\<open>migration/return.ts\<close>) or copies in (\<^verbatim>\<open>migration/activation.ts\<close>,
  \<^verbatim>\<open>migration/managed-activation.ts\<close>) all rows of the account at once; these transactions lie outside.
\<close>

text \<open>The keys of the tables are pairs; quantifiers over them are not split.\<close>

declare split_paired_All [simp del] split_paired_Ex [simp del] Status.decimal.simps [simp del]

section \<open>The system\<close>

record provider =
  pdb :: db
  issued :: "DeliveryClaim set"
  horizon :: instant
  erased :: "message_key set"

text \<open>
  The token of a new lease is a fresh random UUID. \<open>horizon\<close> is the latest start of a claiming transaction,
  \<open>erased\<close> collects the messages that were taken out of a mailbox.
\<close>

definition emptied :: "db \<Rightarrow> db \<Rightarrow> message_key set" where
  "emptied d d' = {k. delivered d k \<noteq> None \<and> delivered d' k = None}"

inductive step :: "codec \<Rightarrow> provider \<Rightarrow> provider \<Rightarrow> bool" for codec where
  step_receive: "rx_codec rx = codec \<Longrightarrow> receive rx seen clk cose (pdb s) = (r, d') \<Longrightarrow> step codec s (s\<lparr>pdb := d'\<rparr>)"
| step_send: "createSent codec fx clk p cose account (pdb s) = Inr (u, d') \<Longrightarrow> step codec s (s\<lparr>pdb := d'\<rparr>)"
| step_claim: "claimDue codec fx clk locked token seconds (pdb s) = Inr (Some c, d') \<Longrightarrow> token \<notin> claim_lease ` issued s \<Longrightarrow>
    step codec s (s\<lparr>pdb := d', issued := insert c (issued s), horizon := max (horizon s) (clk 0)\<rparr>)"
| step_deliver: "c \<in> issued s \<Longrightarrow>
    deliver codec fx connections clk t before between c bs attachments (pdb s) = Inr (result, d') \<Longrightarrow>
    step codec s (s\<lparr>pdb := d'\<rparr>)"
| step_fail: "c \<in> issued s \<Longrightarrow> fail_delivery fx clk c reason (pdb s) = Inr (u, d') \<Longrightarrow> step codec s (s\<lparr>pdb := d'\<rparr>)"
| step_cancel: "c \<in> issued s \<Longrightarrow> cancel fx clk c reason (pdb s) = Inr (u, d') \<Longrightarrow> step codec s (s\<lparr>pdb := d'\<rparr>)"
| step_hold: "c \<in> issued s \<Longrightarrow> hold fx clk c reason retryAt (pdb s) = Inr (u, d') \<Longrightarrow> step codec s (s\<lparr>pdb := d'\<rparr>)"
| step_status_claim: "claim_status sx clk locked token (pdb s) = Inr (sc, d') \<Longrightarrow> step codec s (s\<lparr>pdb := d'\<rparr>)"
| step_status_finish: "finish_status fx clk sc state status nxt err (pdb s) = Inr d' \<Longrightarrow> step codec s (s\<lparr>pdb := d'\<rparr>)"
| step_close: "close_account fx ax now clks session address (pdb s) = Inr (u, d') \<Longrightarrow>
    step codec s (s\<lparr>pdb := d', erased := erased s \<union> emptied (pdb s) d'\<rparr>)"
| step_settings: "saveSettings fx session enabled (pdb s) = Inr (b, d') \<Longrightarrow>
    step codec s (s\<lparr>pdb := d', erased := erased s \<union> emptied (pdb s) d'\<rparr>)"
| step_remove: "remove_message fx ax clk session sender ident permanent (pdb s) = Inr (disposal, d') \<Longrightarrow>
    step codec s (s\<lparr>pdb := d', erased := erased s \<union> emptied (pdb s) d'\<rparr>)"
| step_empty: "empty_trash fx session (pdb s) = Inr (n, d') \<Longrightarrow>
    step codec s (s\<lparr>pdb := d', erased := erased s \<union> emptied (pdb s) d'\<rparr>)"
| step_purge: "purge_account fx clk account did (pdb s) = Inr (n, d') \<Longrightarrow>
    step codec s (s\<lparr>pdb := d', erased := erased s \<union> emptied (pdb s) d'\<rparr>)"
| step_restore: "restore_messages fx clks session chosen (pdb s) = Inr (n, d') \<Longrightarrow> step codec s (s\<lparr>pdb := d'\<rparr>)"
| step_conversation: "conversation_action fx ax clk session peer action (pdb s) = Inr (n, d') \<Longrightarrow> step codec s (s\<lparr>pdb := d'\<rparr>)"
| step_custody: "free_leases fx ax (pdb s) = Inr d' \<Longrightarrow> step codec s (s\<lparr>pdb := d'\<rparr>)"
| step_elsewhere: "same_messages (pdb s) d' \<Longrightarrow> step codec s (s\<lparr>pdb := d'\<rparr>)"

definition initial :: provider where
  "initial = \<lparr>pdb = empty_db, issued = {}, horizon = 0, erased = {}\<rparr>"

definition reachable :: "codec \<Rightarrow> provider \<Rightarrow> bool" where
  "reachable codec s \<longleftrightarrow> (step codec)\<^sup>*\<^sup>* initial s"

section \<open>The invariant\<close>

definition wf_work :: "work_row \<Rightarrow> bool" where
  "wf_work w \<longleftrightarrow> (lease_token w = None \<longleftrightarrow> lease_expires_at w = None)
     \<and> (\<not> open_state (work_state w) \<longrightarrow> lease_token w = None)
     \<and> (work_reason w = None \<longleftrightarrow> work_state w = Accepted \<or> work_state w = Delivered)
     \<and> 1 \<le> status_revision w \<and> (status_revision w = 1 \<longleftrightarrow> work_state w = Accepted)"

definition inv_received :: "codec \<Rightarrow> db \<Rightarrow> bool" where
  "inv_received codec d \<longleftrightarrow> (\<forall>k r. received d k = Some r \<longrightarrow>
     (\<exists>e. inspectEnvelope codec (rcv_cose r) = Inr e \<and> message_of e = k \<and> rcv_recipient r = env_to e
       \<and> rcv_authorization r = env_authorization e)
     \<and> (rcv_outcome r = WasAccepted \<longleftrightarrow> work d k \<noteq> None))"

definition inv_work :: "db \<Rightarrow> bool" where
  "inv_work d \<longleftrightarrow> (\<forall>k w. work d k = Some w \<longrightarrow> received d k \<noteq> None \<and> wf_work w)"

definition arrived :: "db \<Rightarrow> message_key \<Rightarrow> bool" where
  "arrived d k \<longleftrightarrow> (\<exists>w. work d k = Some w \<and> work_state w = Delivered)"

text \<open>Only the closing of an account ends a delivery without a final status to publish.\<close>

definition account_closed :: "work_row \<Rightarrow> bool" where
  "account_closed w \<longleftrightarrow> work_state w = Cancelled \<and> work_reason w = Some ''account-closed''"

definition inv_ended :: "db \<Rightarrow> bool" where
  "inv_ended d \<longleftrightarrow>
     (\<forall>k. publications d k \<noteq> None \<longrightarrow> (\<exists>w. work d k = Some w \<and> \<not> open_state (work_state w)))
     \<and> (\<forall>k w. work d k = Some w \<longrightarrow> \<not> open_state (work_state w) \<longrightarrow> publications d k \<noteq> None \<or> account_closed w)
     \<and> (\<forall>k. delivered d k \<noteq> None \<longrightarrow> arrived d k)"

text \<open>A delivered message is in the mailbox until it is taken out.\<close>

definition inv_mail :: "db \<Rightarrow> message_key set \<Rightarrow> bool" where
  "inv_mail d gone \<longleftrightarrow> (\<forall>k. arrived d k \<longrightarrow> (delivered d k = None \<longleftrightarrow> k \<in> gone)) \<and> (\<forall>k \<in> gone. arrived d k)"

text \<open>The capability a reply rests on: claimed while its delivery is open, consumed once it is delivered.\<close>

definition backs :: "db \<Rightarrow> message_key \<Rightarrow> message_key \<Rightarrow> capability_state \<Rightarrow> bool" where
  "backs d kc k cs \<longleftrightarrow> (\<exists>cap. capabilities d kc = Some cap \<and> cap_state cap = cs \<and> cap_claimed cap = Some k)"

definition inv_replies :: "db \<Rightarrow> bool" where
  "inv_replies d \<longleftrightarrow> (\<forall>k r w kc. received d k = Some r \<longrightarrow> work d k = Some w \<longrightarrow>
     reply_key (rcv_recipient r) (rcv_authorization r) = Some kc \<longrightarrow>
     (open_state (work_state w) \<longrightarrow> backs d kc k Claimed) \<and> (work_state w = Delivered \<longrightarrow> backs d kc k Consumed))"

definition inv_claims :: "codec \<Rightarrow> provider \<Rightarrow> bool" where
  "inv_claims codec s \<longleftrightarrow> (\<forall>c \<in> issued s. \<exists>r. received (pdb s) (claim_key c) = Some r
     \<and> inspectEnvelope codec (rcv_cose r) = Inr (claim_envelope c) \<and> message_of (claim_envelope c) = claim_key c)"

definition message_inv :: "codec \<Rightarrow> db \<Rightarrow> bool" where
  "message_inv codec d \<longleftrightarrow> keyed (delivery_work d) \<and> inv_received codec d \<and> inv_work d \<and> inv_ended d \<and> inv_replies d"

lemmas message_invs = message_inv_def inv_received_def inv_work_def inv_ended_def inv_replies_def backs_def arrived_def

lemma message_inv_same: "same_messages d d' \<Longrightarrow> message_inv codec d' = message_inv codec d"
  by (simp add: message_invs same_messages_def)

lemma inv_endedD:
  assumes "inv_ended d"
  shows "publications d k \<noteq> None \<Longrightarrow> work d k = Some w \<Longrightarrow> \<not> open_state (work_state w)"
    and "work d k = Some w \<Longrightarrow> \<not> open_state (work_state w) \<Longrightarrow> publications d k \<noteq> None \<or> account_closed w"
    and "delivered d k \<noteq> None \<Longrightarrow> arrived d k"
  using assms unfolding inv_ended_def by (metis option.inject, blast, blast)

lemma inv_endedI:
  assumes "\<And>k. publications d k \<noteq> None \<Longrightarrow> \<exists>w. work d k = Some w \<and> \<not> open_state (work_state w)"
    and "\<And>k w. work d k = Some w \<Longrightarrow> \<not> open_state (work_state w) \<Longrightarrow> publications d k \<noteq> None \<or> account_closed w"
    and "\<And>k. delivered d k \<noteq> None \<Longrightarrow> arrived d k"
  shows "inv_ended d"
  using assms unfolding inv_ended_def by blast

text \<open>A row of the queue that is not delivered gets a new state.\<close>

lemma arrived_update:
  assumes "work d k = Some w" "work_state w \<noteq> Delivered" "delivery_work d' = AList.update k w' (delivery_work d)"
  shows "arrived d' q \<longleftrightarrow> (if q = k then work_state w' = Delivered else arrived d q)"
  using assms by (simp add: arrived_def)

lemma message_inv_opens: "opens_reply d d' \<Longrightarrow> message_inv codec d \<Longrightarrow> message_inv codec d'"
  by (fastforce simp: message_inv_def inv_received_def inv_work_def inv_ended_def inv_replies_def backs_def arrived_def opens_reply_def)

lemma wf_work_ended:
  "wf_work w \<Longrightarrow> \<not> open_state s \<Longrightarrow> (reason = None \<longleftrightarrow> s = Delivered) \<Longrightarrow> wf_work (ended s reason t w)"
  by (auto simp: wf_work_def ended_def open_state_def)

lemma wf_work_held: "wf_work w \<Longrightarrow> wf_work (held reason retryAt t w)"
  by (auto simp: wf_work_def held_def open_state_def)

lemma wf_work_new [simp]: "wf_work (new_work t)"
  by (simp add: wf_work_def new_work_def open_state_def)

lemma open_not_delivered: "open_state s \<Longrightarrow> s \<noteq> Delivered"
  by (auto simp: open_state_def)

lemma message_inv_reopen:
  assumes inv: "message_inv codec d" and w: "work d k = Some w" "open_state (work_state w)"
    and w': "open_state (work_state w')" "wf_work w'"
    and d': "delivery_work d' = AList.update k w' (delivery_work d)" "received_envelopes d' = received_envelopes d"
      "terminal_status_publications d' = terminal_status_publications d" "delivered_messages d' = delivered_messages d"
      "reply_capabilities d' = reply_capabilities d"
  shows "message_inv codec d'"
proof -
  have "keyed (delivery_work d')" using inv by (simp add: message_inv_def d')
  moreover have "inv_received codec d'"
    using inv w(1) unfolding message_inv_def inv_received_def d' map_of_update by (metis fun_upd_apply option.distinct(1))
  moreover have "inv_work d'"
    using inv w(1) w'(2) unfolding message_inv_def inv_work_def d' map_of_update by (metis fun_upd_apply option.inject)
  moreover have "inv_ended d'"
  proof -
    have e: "inv_ended d" using inv by (simp add: message_inv_def)
    have nd: "work_state w \<noteq> Delivered" "work_state w' \<noteq> Delivered" using w(2) w'(1) open_not_delivered by blast+
    have k: "publications d k = None" using inv_endedD(1) [OF e _ w(1)] w(2) by blast
    have "arrived d' q = arrived d q" for q
      using arrived_update [OF w(1) nd(1) d'(1)] w(1) nd by (auto simp: arrived_def)
    moreover have "\<exists>u. work d' q = Some u \<and> \<not> open_state (work_state u)" if "publications d q \<noteq> None" for q
      using that e k unfolding inv_ended_def d'(1) map_of_update by (metis fun_upd_other)
    moreover have "publications d q \<noteq> None \<or> account_closed u" if "work d' q = Some u" "\<not> open_state (work_state u)" for q u
      using that inv_endedD(2) [OF e, of q u] w'(1) by (auto simp: d'(1) split: if_splits)
    ultimately show ?thesis using inv_endedD(3) [OF e] by (intro inv_endedI) (simp_all add: d'(3,4))
  qed
  moreover have "inv_replies d'"
  proof -
    have b: "backs d' = backs d" by (simp add: fun_eq_iff backs_def d')
    have r: "inv_replies d" using inv by (simp add: message_inv_def)
    show ?thesis
      unfolding inv_replies_def b d'(2)
    proof (intro allI impI)
      fix q r u kc
      assume q: "received d q = Some r" "work d' q = Some u" "reply_key (rcv_recipient r) (rcv_authorization r) = Some kc"
      then show "(open_state (work_state u) \<longrightarrow> backs d kc q Claimed) \<and> (work_state u = Delivered \<longrightarrow> backs d kc q Consumed)"
        using r w w'(1) open_not_delivered [OF w'(1)] unfolding inv_replies_def
        by (cases "q = k") (auto simp: d'(1))
    qed
  qed
  ultimately show ?thesis by (simp add: message_inv_def)
qed

lemma message_inv_holds:
  assumes "holds_back d d' c" and "message_inv codec d" and "lockClaim d c"
  shows "message_inv codec d'"
proof -
  from assms(1) obtain w reason retryAt t where w: "work d (claim_key c) = Some w"
    and d': "d' = d\<lparr>delivery_work := AList.update (claim_key c) (held reason retryAt t w) (delivery_work d)\<rparr>"
    by (auto simp: holds_back_def)
  have o: "open_state (work_state w)" using assms(3) w by (simp add: lockClaim_def)
  have f: "wf_work w" using assms(2) w by (auto simp: message_inv_def inv_work_def)
  show ?thesis
    by (rule message_inv_reopen [OF assms(2) w o, of "held reason retryAt t w"])
      (simp_all add: d' wf_work_held f, simp add: held_def open_state_def)
qed

lemma message_inv_leases:
  assumes "leases codec' d d' now c" and "message_inv codec d"
  shows "message_inv codec d'"
proof -
  from assms(1) obtain w expires where w: "work d (claim_key c) = Some w" "open_state (work_state w)"
    and d': "delivery_work d' = AList.update (claim_key c) (w\<lparr>lease_token := Some (claim_lease c), lease_expires_at := Some expires,
            attempt_count := attempt_count w + 1\<rparr>) (delivery_work d)"
    by (auto simp: leases_def)
  have f: "wf_work w" using assms(2) w by (auto simp: message_inv_def inv_work_def)
  show ?thesis
    by (rule message_inv_reopen [OF assms(2) w _ _ d']) (use w f assms(1) in \<open>simp_all add: wf_work_def leases_def\<close>)
qed

definition valid_claim :: "codec \<Rightarrow> db \<Rightarrow> DeliveryClaim \<Rightarrow> bool" where
  "valid_claim codec d c \<longleftrightarrow> (\<exists>r. received d (claim_key c) = Some r
     \<and> inspectEnvelope codec (rcv_cose r) = Inr (claim_envelope c) \<and> message_of (claim_envelope c) = claim_key c)"

lemma valid_claim_row:
  assumes "message_inv codec d" and "valid_claim codec d c" and "received d (claim_key c) = Some r"
  shows "rcv_recipient r = env_to (claim_envelope c) \<and> rcv_authorization r = env_authorization (claim_envelope c)"
  using assms unfolding message_inv_def inv_received_def valid_claim_def
  by (metis option.inject sum.inject(2))

lemma backs_exclusive: "backs d kc q cs \<Longrightarrow> backs d kc q' cs' \<Longrightarrow> q = q' \<and> cs = cs'"
  by (auto simp: backs_def)

lemma inv_replies_ended:
  assumes inv: "message_inv codec d" and v: "valid_claim codec d c" and lk: "lockClaim d c"
    and w: "work d (claim_key c) = Some w" and s: "\<not> open_state s" and sd: "settles d d' c s"
    and d': "delivery_work d' = AList.update (claim_key c) (ended s reason t w) (delivery_work d)"
      "received_envelopes d' = received_envelopes d"
  shows "inv_replies d'"
  unfolding inv_replies_def d'(2)
proof (intro allI impI)
  let ?rk = "reply_key (env_to (claim_envelope c)) (env_authorization (claim_envelope c))"
  have i: "inv_replies d" using inv by (simp add: message_inv_def)
  have o: "open_state (work_state w)" using lk w by (simp add: lockClaim_def)
  obtain r0 where r0: "received d (claim_key c) = Some r0" using v by (auto simp: valid_claim_def)
  note rr = valid_claim_row [OF inv v r0]
  fix q r u kc
  assume q: "received d q = Some r" "work d' q = Some u" "reply_key (rcv_recipient r) (rcv_authorization r) = Some kc"
  show "(open_state (work_state u) \<longrightarrow> backs d' kc q Claimed) \<and> (work_state u = Delivered \<longrightarrow> backs d' kc q Consumed)"
  proof (cases "q = claim_key c")
    case True
    with q r0 rr have "?rk = Some kc" by simp
    with sd True have "s = Delivered \<Longrightarrow> backs d' kc q Consumed"
      by (auto simp: settles_def backs_def settled_def)
    moreover have "work_state u = s" using q(2) True by (auto simp: d' ended_def)
    ultimately show ?thesis using s by simp
  next
    case False
    then have u: "work d q = Some u" using q(2) by (simp add: d')
    have b: "(open_state (work_state u) \<longrightarrow> backs d kc q Claimed) \<and> (work_state u = Delivered \<longrightarrow> backs d kc q Consumed)"
      using i q(1,3) u unfolding inv_replies_def by blast
    show ?thesis
    proof (cases "?rk = Some kc")
      case True
      then have "backs d kc (claim_key c) Claimed" using sd by (auto simp: settles_def backs_def)
      with b False backs_exclusive show ?thesis by blast
    next
      case n: False
      then have "backs d' kc q cs \<longleftrightarrow> backs d kc q cs" for cs
        using sd by (auto simp: settles_def backs_def split: option.splits)
      with b show ?thesis by blast
    qed
  qed
qed

lemma message_inv_ended:
  assumes inv: "message_inv codec d" and v: "valid_claim codec d c" and lk: "lockClaim d c"
    and w: "work d (claim_key c) = Some w" and s: "\<not> open_state s" "reason = None \<longleftrightarrow> s = Delivered" and sd: "settles d d' c s"
    and d': "delivery_work d' = AList.update (claim_key c) (ended s reason t w) (delivery_work d)"
      "received_envelopes d' = received_envelopes d"
      "terminal_status_publications d' = AList.update (claim_key c) pub (terminal_status_publications d)"
      "delivered d' = (if s = Delivered then (delivered d)(claim_key c \<mapsto> row) else delivered d)"
  shows "message_inv codec d'"
proof -
  let ?k = "claim_key c" and ?w = "ended s reason t w"
  have o: "open_state (work_state w)" using lk w by (simp add: lockClaim_def)
  have st: "work_state ?w = s" by (simp add: ended_def)
  have "keyed (delivery_work d')" using inv by (simp add: message_inv_def d')
  moreover have "inv_received codec d'"
    using inv w unfolding message_inv_def inv_received_def d'(1,2) map_of_update by (metis fun_upd_apply option.distinct(1))
  moreover have "inv_work d'"
  proof -
    have "wf_work w" using inv w by (auto simp: message_inv_def inv_work_def)
    then have "wf_work ?w" using s by (rule wf_work_ended)
    then show ?thesis
      using inv w unfolding message_inv_def inv_work_def d'(1,2) map_of_update by (metis fun_upd_apply option.inject)
  qed
  moreover have "inv_ended d'"
  proof -
    have e: "inv_ended d" using inv by (simp add: message_inv_def)
    have nd: "work_state w \<noteq> Delivered" using o open_not_delivered by blast
    note a = arrived_update [OF w nd d'(1)]
    have k: "\<not> arrived d ?k" using w nd by (simp add: arrived_def)
    have "\<exists>u. work d' q = Some u \<and> \<not> open_state (work_state u)" if "publications d' q \<noteq> None" for q
      using that e s(1) st unfolding inv_ended_def by (cases "q = ?k") (auto simp: d')
    moreover have "publications d' q \<noteq> None \<or> account_closed u" if "work d' q = Some u" "\<not> open_state (work_state u)" for q u
      using that inv_endedD(2) [OF e, of q u] by (cases "q = ?k") (auto simp: d')
    moreover have "arrived d' q" if "delivered d' q \<noteq> None" for q
      using that inv_endedD(3) [OF e, of q] k st by (cases "q = ?k") (auto simp: a d'(4) split: if_splits)
    ultimately show ?thesis by (rule inv_endedI)
  qed
  moreover have "inv_replies d'" by (rule inv_replies_ended [OF inv v lk w s(1) sd d'(1,2)])
  ultimately show ?thesis by (simp add: message_inv_def)
qed

lemma message_inv_finishes:
  assumes "message_inv codec d" "valid_claim codec d c" "lockClaim d c" "finishes d d' c s (Some reason)"
    and "\<not> open_state s" "s \<noteq> Delivered"
  shows "message_inv codec d'"
  using assms by (auto simp: finishes_def intro!: message_inv_ended [OF assms(1-3)])

lemma message_inv_hands_over:
  assumes inv: "message_inv codec d" "valid_claim codec d c" "lockClaim d c"
    and h: "hands_over d d1 (claim_envelope c)" and f: "finishes d1 d' c Delivered None"
  shows "message_inv codec d'"
proof -
  have m: "message_of (claim_envelope c) = claim_key c" using inv(2) by (auto simp: valid_claim_def)
  from f obtain w t t' where w: "work d1 (claim_key c) = Some w"
    "delivery_work d' = AList.update (claim_key c) (ended Delivered None t w) (delivery_work d1)"
    "terminal_status_publications d' = AList.update (claim_key c) (new_publication t') (terminal_status_publications d1)"
    "received_envelopes d' = received_envelopes d1" "delivered_messages d' = delivered_messages d1" "settles d1 d' c Delivered"
    by (auto simp: finishes_def)
  from h obtain row where "delivered_messages d1 = AList.update (claim_key c) row (delivered_messages d)"
    by (auto simp: hands_over_def m)
  moreover have "reply_capabilities d1 = reply_capabilities d" using h by (simp add: hands_over_def)
  with w(6) have "settles d d' c Delivered" by (simp add: settles_def split: option.splits)
  ultimately show ?thesis
    using h w(1-5) by (intro message_inv_ended [OF inv, of w Delivered None d' t "new_publication t'" row])
      (simp_all add: hands_over_def open_state_def)
qed

lemma inv_replies_taken_in:
  assumes inv: "message_inv codec d" and r: "records_envelope d d' input WasAccepted" and c: "claims_reply d d' (dec_payload input)"
  shows "inv_replies d'"
  unfolding inv_replies_def
proof (intro allI impI)
  let ?p = "dec_payload input"
  let ?k = "message_of ?p"
  have i: "inv_replies d" using inv by (simp add: message_inv_def)
  obtain grantId replyTo now t where d': "received_envelopes d' = AList.update ?k (received_of input grantId replyTo WasAccepted now) (received_envelopes d)"
      "delivery_work d' = AList.update ?k (new_work t) (delivery_work d)"
    using r by (auto simp: records_envelope_def Let_def)
  fix q row u kc
  assume q: "received d' q = Some row" "work d' q = Some u" "reply_key (rcv_recipient row) (rcv_authorization row) = Some kc"
  show "(open_state (work_state u) \<longrightarrow> backs d' kc q Claimed) \<and> (work_state u = Delivered \<longrightarrow> backs d' kc q Consumed)"
  proof (cases "q = ?k")
    case True
    with q have "reply_key (env_to ?p) (env_authorization ?p) = Some kc" "u = new_work t"
      by (auto simp: d' received_of_def Let_def)
    with c True show ?thesis by (auto simp: claims_reply_def backs_def new_work_def)
  next
    case False
    with q i have b: "(open_state (work_state u) \<longrightarrow> backs d kc q Claimed) \<and> (work_state u = Delivered \<longrightarrow> backs d kc q Consumed)"
      unfolding inv_replies_def by (auto simp: d')
    show ?thesis
    proof (cases "reply_key (env_to ?p) (env_authorization ?p) = Some kc")
      case True
      then have "\<exists>cap. capabilities d kc = Some cap \<and> cap_state cap = Available" using c by (auto simp: claims_reply_def)
      with b show ?thesis by (auto simp: backs_def)
    next
      case n: False
      then have "backs d' kc q cs \<longleftrightarrow> backs d kc q cs" for cs
        using c by (auto simp: claims_reply_def backs_def split: option.splits)
      with b show ?thesis by blast
    qed
  qed
qed

lemma recorded_no_work:
  assumes "message_inv codec d" and "records_envelope d d' input result"
  shows "received d (message_of (dec_payload input)) = None" "work d (message_of (dec_payload input)) = None"
proof -
  show n: "received d (message_of (dec_payload input)) = None" using assms(2) by (simp add: records_envelope_def Let_def)
  then show "work d (message_of (dec_payload input)) = None"
    using assms(1) unfolding message_inv_def inv_work_def by (metis option.exhaust)
qed

lemma inv_received_taken_in:
  assumes inv: "message_inv codec d" and r: "records_envelope d d' input result"
    and v: "inspectEnvelope codec (dec_representation input) = Inr (dec_payload input)"
  shows "inv_received codec d'"
  unfolding inv_received_def
proof (intro allI impI)
  let ?k = "message_of (dec_payload input)"
  have i: "inv_received codec d" using inv by (simp add: message_inv_def)
  note nw = recorded_no_work(2) [OF inv r]
  obtain grantId replyTo now where d': "received_envelopes d' = AList.update ?k (received_of input grantId replyTo result now) (received_envelopes d)"
    using r by (auto simp: records_envelope_def Let_def)
  have wk: "work d' q \<noteq> None \<longleftrightarrow> work d q \<noteq> None \<or> q = ?k \<and> result = WasAccepted" for q
    using r by (auto simp: records_envelope_def Let_def split: if_splits)
  fix q row
  assume q: "received d' q = Some row"
  show "(\<exists>e. inspectEnvelope codec (rcv_cose row) = Inr e \<and> message_of e = q \<and> rcv_recipient row = env_to e
       \<and> rcv_authorization row = env_authorization e) \<and> (rcv_outcome row = WasAccepted \<longleftrightarrow> work d' q \<noteq> None)"
  proof (cases "q = ?k")
    case True
    then show ?thesis using q v nw unfolding wk by (auto simp: d' received_of_def Let_def)
  next
    case False
    then show ?thesis using q i unfolding wk inv_received_def by (simp add: d')
  qed
qed

lemma message_inv_records:
  assumes inv: "message_inv codec d" and r: "records_envelope d d' input result"
    and v: "inspectEnvelope codec (dec_representation input) = Inr (dec_payload input)" and "inv_replies d'"
  shows "message_inv codec d'"
proof -
  let ?k = "message_of (dec_payload input)"
  note n = recorded_no_work [OF inv r]
  obtain row where rc: "received_envelopes d' = AList.update ?k row (received_envelopes d)"
    using r by (auto simp: records_envelope_def Let_def)
  consider t where "delivery_work d' = AList.update ?k (new_work t) (delivery_work d)" | "delivery_work d' = delivery_work d"
    using r by (auto simp: records_envelope_def Let_def split: if_splits)
  then have "keyed (delivery_work d') \<and> inv_work d' \<and> inv_ended d'"
  proof cases
    case (1 t)
    have o: "open_state (work_state (new_work t))" "work_state (new_work t) \<noteq> Delivered" by (simp_all add: new_work_def open_state_def)
    have "inv_work d'" using inv unfolding message_inv_def inv_work_def by (auto simp: 1 rc split: if_splits)
    moreover have "inv_ended d'"
    proof -
      have e: "inv_ended d" using inv by (simp add: message_inv_def)
      have p: "terminal_status_publications d' = terminal_status_publications d" "delivered_messages d' = delivered_messages d"
        using r by (simp_all add: records_envelope_def)
      have k: "publications d ?k = None" using e n(2) unfolding inv_ended_def by (metis option.distinct(1))
      have "arrived d' q = arrived d q" for q using n(2) o by (simp add: arrived_def 1)
      moreover have "\<exists>u. work d' q = Some u \<and> \<not> open_state (work_state u)" if "publications d q \<noteq> None" for q
        using that e k unfolding inv_ended_def 1 map_of_update by (metis fun_upd_other)
      moreover have "publications d q \<noteq> None \<or> account_closed u" if "work d' q = Some u" "\<not> open_state (work_state u)" for q u
        using that inv_endedD(2) [OF e, of q u] o by (auto simp: 1 split: if_splits)
      ultimately show ?thesis using inv_endedD(3) [OF e] by (intro inv_endedI) (simp_all add: p)
    qed
    ultimately show ?thesis using inv by (simp add: message_inv_def 1)
  next
    case 2
    then show ?thesis using inv r by (auto simp: message_inv_def inv_work_def inv_ended_def arrived_def records_envelope_def rc)
  qed
  with inv_received_taken_in [OF inv r v] assms(4) show ?thesis by (simp add: message_inv_def)
qed

lemma message_inv_takes_in:
  assumes inv: "message_inv codec d" and t: "takes_in d d' input"
    and v: "inspectEnvelope codec (dec_representation input) = Inr (dec_payload input)"
  shows "message_inv codec d'"
proof -
  consider "same_messages d d'" | "records_envelope d d' input WasAccepted" "claims_reply d d' (dec_payload input)"
    | result where "result \<noteq> WasAccepted" "records_envelope d d' input result" "reply_capabilities d' = reply_capabilities d"
    using t by (auto simp: takes_in_def)
  then show ?thesis
  proof cases
    case 3
    then have "inv_replies d'"
      using inv recorded_no_work(2) [OF inv 3(2)]
      by (auto simp: message_inv_def inv_replies_def records_envelope_def Let_def backs_def split: if_splits)
    with message_inv_records [OF inv 3(2) v] show ?thesis .
  qed (use inv message_inv_records [OF inv _ v] inv_replies_taken_in in \<open>auto simp: message_inv_same\<close>)
qed

text \<open>Rows of the queue that are rewritten by one statement.\<close>

lemma update_rows_cases:
  assumes "map_of (update_rows P f n t) k = Some v'"
  obtains v i where "map_of t k = Some v" "v' = v \<or> P k v \<and> v' = f i v"
proof -
  obtain j where j: "map_of (update_rows P f n t) k = map_option (\<lambda>v. if P k v then f j v else v) (map_of t k)"
    using map_of_update_rows [of P f n t k] by blast
  with assms obtain v where "map_of t k = Some v" "v' = (if P k v then f j v else v)" by auto
  with that [of v j] show thesis by (simp split: if_splits)
qed

lemma closed_work_ended: "closed_work t w = ended Cancelled (Some ''account-closed'') t w"
  by (simp add: closed_work_def ended_def)

lemma message_inv_rewrites:
  assumes inv: "message_inv codec d" and k: "keeps_ends d d'" and r: "delivery_work d' = update_rows P f n (delivery_work d)"
    and wf: "\<And>k w i. P k w \<Longrightarrow> wf_work w \<Longrightarrow> wf_work (f i w)"
    and st: "\<And>k w i. P k w \<Longrightarrow> wf_work w \<Longrightarrow> work_state (f i w) = work_state w \<and> work_reason (f i w) = work_reason w
      \<or> open_state (work_state w) \<and> account_closed (f i w)"
  shows "message_inv codec d' \<and> (\<forall>k. arrived d' k = arrived d k)"
proof -
  have e: "inv_ended d" and wfd: "work d q = Some w \<Longrightarrow> wf_work w" for q w using inv by (auto simp: message_inv_def inv_work_def)
  have old: "\<exists>w. work d q = Some w \<and> wf_work w' \<and> (work_state w' = work_state w \<and> work_reason w' = work_reason w
      \<or> open_state (work_state w) \<and> account_closed w')" if "work d' q = Some w'" for q w'
    using that unfolding r
  proof (rule update_rows_cases)
    fix w i assume w: "work d q = Some w" "w' = w \<or> P q w \<and> w' = f i w"
    note wd = wfd [OF w(1)]
    from w(2) show ?thesis
    proof
      assume "w' = w"
      with w(1) wd show ?thesis by simp
    next
      assume "P q w \<and> w' = f i w"
      with w(1) wf [OF _ wd, of q i] st [OF _ wd, of q i] show ?thesis by simp
    qed
  qed
  have new: "\<exists>w'. work d' q = Some w' \<and> work_state w' = work_state w" if "work d q = Some w" "\<not> open_state (work_state w)" for q w
  proof -
    have "work d' q \<noteq> None" using that(1) by (simp add: r)
    then obtain w' where w': "work d' q = Some w'" by blast
    from old [OF w'] w' that show ?thesis by auto
  qed
  have a: "arrived d' q = arrived d q" for q
  proof
    assume "arrived d' q"
    then obtain w' where w': "work d' q = Some w'" "work_state w' = Delivered" by (auto simp: arrived_def)
    with old [OF w'(1)] show "arrived d q" by (auto simp: arrived_def account_closed_def)
  next
    assume "arrived d q"
    then obtain w where "work d q = Some w" "work_state w = Delivered" by (auto simp: arrived_def)
    with new [of q w] show "arrived d' q" by (simp add: arrived_def open_state_def)
  qed
  have n: "work d' q = None \<longleftrightarrow> work d q = None" for q by (simp add: r)
  have same: "received_envelopes d' = received_envelopes d" "reply_capabilities d' = reply_capabilities d"
      "publications d' q = None \<longleftrightarrow> publications d q = None" "delivered d q = None \<Longrightarrow> delivered d' q = None" for q
    using k by (simp_all add: keeps_ends_def)
  have "keyed (delivery_work d')" using inv by (simp add: message_inv_def r)
  moreover have "inv_received codec d'" using inv unfolding message_inv_def inv_received_def same(1) n by blast
  moreover have "inv_work d'" unfolding inv_work_def same(1)
  proof (intro allI impI)
    fix q w' assume w': "work d' q = Some w'"
    from old [OF w'] obtain w where "work d q = Some w" "wf_work w'" by blast
    with inv show "received d q \<noteq> None \<and> wf_work w'" unfolding message_inv_def inv_work_def by blast
  qed
  moreover have "inv_ended d'"
  proof (rule inv_endedI)
    fix q assume "publications d' q \<noteq> None"
    then have "publications d q \<noteq> None" unfolding same(3) .
    then obtain w where w: "work d q = Some w" "\<not> open_state (work_state w)" using e unfolding inv_ended_def by blast
    from new [OF w] w(2) show "\<exists>w. work d' q = Some w \<and> \<not> open_state (work_state w)" by auto
  next
    fix q w' assume w': "work d' q = Some w'" "\<not> open_state (work_state w')"
    from old [OF w'(1)] obtain w where "work d q = Some w" "account_closed w'
        \<or> work_state w' = work_state w \<and> work_reason w' = work_reason w" by blast
    with w'(2) inv_endedD(2) [OF e, of q w] same(3) show "publications d' q \<noteq> None \<or> account_closed w'"
      by (auto simp: account_closed_def)
  next
    fix q assume "delivered d' q \<noteq> None"
    then have "delivered d q \<noteq> None" using same(4) [of q] by metis
    then show "arrived d' q" unfolding a by (rule inv_endedD(3) [OF e])
  qed
  moreover have "inv_replies d'"
  proof -
    have b: "backs d' = backs d" by (simp add: fun_eq_iff backs_def same(2))
    have i: "inv_replies d" using inv by (simp add: message_inv_def)
    show ?thesis unfolding inv_replies_def b same(1)
    proof (intro allI impI)
      fix q r u kc
      assume q: "received d q = Some r" "work d' q = Some u" "reply_key (rcv_recipient r) (rcv_authorization r) = Some kc"
      from old [OF q(2)] obtain w where "work d q = Some w"
        "work_state u = work_state w \<or> account_closed u" by auto
      with i q show "(open_state (work_state u) \<longrightarrow> backs d kc q Claimed) \<and> (work_state u = Delivered \<longrightarrow> backs d kc q Consumed)"
        unfolding inv_replies_def by (auto simp: account_closed_def open_state_def)
    qed
  qed
  ultimately show ?thesis using a by (simp add: message_inv_def)
qed

lemma message_inv_closes:
  assumes "message_inv codec d" and "closes d d'"
  shows "message_inv codec d' \<and> (\<forall>k. arrived d' k = arrived d k)"
proof -
  obtain P t n where c: "keeps_ends d d'" "delivery_work d' = update_rows P (\<lambda>i. closed_work (t i)) n (delivery_work d)"
    "\<And>k w. P k w \<Longrightarrow> open_state (work_state w)" using assms(2) unfolding closes_def by blast
  show ?thesis
    by (rule message_inv_rewrites [OF assms(1) c(1,2)])
      (simp add: closed_work_ended wf_work_ended open_state_def, simp add: c(3) account_closed_def closed_work_def)
qed

lemma message_inv_frees:
  assumes "message_inv codec d" and "frees d d'"
  shows "message_inv codec d' \<and> (\<forall>k. arrived d' k = arrived d k)"
proof -
  obtain P n where c: "keeps_ends d d'" "delivery_work d' = update_rows P (\<lambda>_. unleased) n (delivery_work d)"
    using assms(2) unfolding frees_def by blast
  show ?thesis
    by (rule message_inv_rewrites [OF assms(1) c]) (auto simp: unleased_def wf_work_def)
qed

section \<open>Steps preserve the invariant\<close>

lemma takes_in_received:
  assumes "takes_in d d' input" and "received d k = Some r"
  shows "received d' k = Some r"
  using assms by (auto simp: takes_in_def same_messages_def records_envelope_def Let_def)

text \<open>What one step does to the tables of the messages.\<close>

inductive change :: "codec \<Rightarrow> provider \<Rightarrow> provider \<Rightarrow> bool" for codec s s' where
  change_none: "same_messages (pdb s) (pdb s') \<Longrightarrow> issued s' = issued s \<Longrightarrow> horizon s' = horizon s \<Longrightarrow> erased s' = erased s \<Longrightarrow> change codec s s'"
| change_takes_in: "takes_in (pdb s) (pdb s') input \<Longrightarrow> inspectEnvelope codec (dec_representation input) = Inr (dec_payload input) \<Longrightarrow>
    issued s' = issued s \<Longrightarrow> horizon s' = horizon s \<Longrightarrow> erased s' = erased s \<Longrightarrow> change codec s s'"
| change_opens: "opens_reply (pdb s) (pdb s') \<Longrightarrow> issued s' = issued s \<Longrightarrow> horizon s' = horizon s \<Longrightarrow> erased s' = erased s \<Longrightarrow> change codec s s'"
| change_leases: "leases codec (pdb s) (pdb s') now c \<Longrightarrow> issued s' = insert c (issued s) \<Longrightarrow>
    horizon s' = max (horizon s) now \<Longrightarrow> erased s' = erased s \<Longrightarrow> change codec s s'"
| change_holds: "c \<in> issued s \<Longrightarrow> lockClaim (pdb s) c \<Longrightarrow> holds_back (pdb s) (pdb s') c \<Longrightarrow>
    issued s' = issued s \<Longrightarrow> horizon s' = horizon s \<Longrightarrow> erased s' = erased s \<Longrightarrow> change codec s s'"
| change_fails: "c \<in> issued s \<Longrightarrow> lockClaim (pdb s) c \<Longrightarrow> same_messages (pdb s) dm \<Longrightarrow> st = Failed \<or> st = Cancelled \<Longrightarrow>
    finishes dm (pdb s') c st (Some reason) \<Longrightarrow> issued s' = issued s \<Longrightarrow> horizon s' = horizon s \<Longrightarrow> erased s' = erased s \<Longrightarrow> change codec s s'"
| change_delivers: "c \<in> issued s \<Longrightarrow> lockClaim (pdb s) c \<Longrightarrow> same_messages (pdb s) d1 \<Longrightarrow>
    hands_over d1 d2 (claim_envelope c) \<Longrightarrow> finishes d2 (pdb s') c Delivered None \<Longrightarrow>
    issued s' = issued s \<Longrightarrow> horizon s' = horizon s \<Longrightarrow> erased s' = erased s \<Longrightarrow> change codec s s'"
| change_closes: "closes (pdb s) (pdb s') \<Longrightarrow> issued s' = issued s \<Longrightarrow> horizon s' = horizon s \<Longrightarrow>
    erased s' = erased s \<union> emptied (pdb s) (pdb s') \<Longrightarrow> change codec s s'"
| change_frees: "frees (pdb s) (pdb s') \<Longrightarrow> issued s' = issued s \<Longrightarrow> horizon s' = horizon s \<Longrightarrow>
    erased s' = erased s \<union> emptied (pdb s) (pdb s') \<Longrightarrow> change codec s s'"

lemma change_mailbox:
  "keeps_ends (pdb s) d' \<and> delivery_work d' = delivery_work (pdb s) \<Longrightarrow>
     change codec s (s\<lparr>pdb := d', erased := erased s \<union> emptied (pdb s) d'\<rparr>)"
  by (rule change_frees) (simp_all add: frees_none)

lemma same_mail_emptied: "same_mail d d' \<Longrightarrow> emptied d d' = {}"
  by (auto simp: same_mail_def emptied_def)

lemma change_quietly:
  "keeps_ends (pdb s) d' \<and> delivery_work d' = delivery_work (pdb s) \<and> same_mail (pdb s) d' \<Longrightarrow> change codec s (s\<lparr>pdb := d'\<rparr>)"
  by (rule change_frees) (simp_all add: frees_none same_mail_emptied)

definition provider_inv :: "codec \<Rightarrow> provider \<Rightarrow> bool" where
  "provider_inv codec s \<longleftrightarrow> message_inv codec (pdb s) \<and> (\<forall>c \<in> issued s. valid_claim codec (pdb s) c)
     \<and> inv_mail (pdb s) (erased s)"

lemma step_changes:
  assumes "step codec s s'" and "provider_inv codec s"
  shows "change codec s s'"
  using assms(1)
proof cases
  case (step_receive rx seen clk cose r d')
  with receive_effect [OF step_receive(3)] show ?thesis by (auto intro: change_none change_takes_in)
next
  case (step_send fx clk p cose account u d')
  with createSent_effect [OF step_send(2)] show ?thesis by (auto intro: change_opens)
next
  case (step_claim fx clk locked token seconds c d')
  have "keyed (delivery_work (pdb s))" using assms(2) by (simp add: provider_inv_def message_inv_def)
  from claimDue_effect [OF step_claim(2) this] step_claim(1) show ?thesis by (auto intro: change_leases)
next
  case (step_deliver c fx connections clk t before between bs attachments result d')
  then have "valid_claim codec (pdb s) c" using assms(2) by (simp add: provider_inv_def)
  then obtain r where "received (pdb s) (message_of (claim_envelope c)) = Some r" by (auto simp: valid_claim_def)
  from deliver_effect [OF step_deliver(3) this] step_deliver(1,2) show ?thesis
    by (auto intro: change_none change_fails change_delivers)
next
  case (step_fail c fx clk reason u d')
  with fail_delivery_effect [OF step_fail(3)] show ?thesis by (auto intro: change_none change_fails [where dm = "pdb s"])
next
  case (step_cancel c fx clk reason u d')
  with cancel_effect [OF step_cancel(3)] show ?thesis by (auto intro: change_none change_fails [where dm = "pdb s"])
next
  case (step_hold c fx clk reason retryAt u d')
  with hold_effect [OF step_hold(3)] show ?thesis
    by (auto intro: change_none change_holds change_fails [where dm = "pdb s"])
next
  case (step_close fx ax now clks session address u d')
  from close_account_closes [OF step_close(2)] step_close(1) show ?thesis by (auto intro: change_closes)
next
  case (step_custody fx ax d')
  from free_leases_frees [OF step_custody(2)] step_custody(1) show ?thesis
    by (auto intro!: change_frees simp: same_mail_emptied)
next
  case (step_elsewhere d')
  then show ?thesis by (auto intro: change_none)
qed (hypsubst, ((rule change_mailbox, erule mailbox_keeps)
    | (rule change_quietly, (erule marks_keep | erule claim_status_keeps | erule finish_status_keeps))))+

lemma change_received:
  assumes "change codec s s'" and "received (pdb s) k = Some r"
  shows "received (pdb s') k = Some r"
  using assms
  by cases (auto simp: same_messages_def opens_reply_def leases_def holds_back_def finishes_def hands_over_def closes_def frees_def
      keeps_ends_def dest: takes_in_received)

lemma same_ready:
  assumes "same_messages d d1" and "message_inv codec d" and "valid_claim codec d c" and "lockClaim d c"
  shows "message_inv codec d1" "valid_claim codec d1 c" "lockClaim d1 c"
proof -
  show "message_inv codec d1" using assms(1,2) by (simp add: message_inv_same)
  show "lockClaim d1 c" using assms(1,4) by (simp add: lockClaim_same)
  have "received_envelopes d1 = received_envelopes d" using assms(1) by (simp add: same_messages_def)
  then show "valid_claim codec d1 c" using assms(3) by (simp add: valid_claim_def)
qed

lemma inv_mail_same:
  assumes "inv_mail d gone" and "\<And>k. arrived d' k = arrived d k" and "\<And>k. arrived d k \<Longrightarrow> delivered d' k = None \<longleftrightarrow> delivered d k = None"
  shows "inv_mail d' gone"
  using assms unfolding inv_mail_def by blast

lemma inv_mail_emptied:
  assumes "inv_mail d gone" and "inv_ended d" and "keeps_ends d d'" and "\<forall>k. arrived d' k = arrived d k"
  shows "inv_mail d' (gone \<union> emptied d d')"
proof -
  have "delivered d k \<noteq> None \<Longrightarrow> arrived d k" "delivered d k = None \<Longrightarrow> delivered d' k = None" for k
    using inv_endedD(3) [OF assms(2)] assms(3) by (simp_all add: keeps_ends_def)
  with assms(1,4) show ?thesis unfolding inv_mail_def emptied_def by blast
qed

lemma arrived_finishes:
  assumes "finishes d d' c st reason" and "lockClaim d c"
  shows "arrived d' k \<longleftrightarrow> (if k = claim_key c then st = Delivered else arrived d k)" and "\<not> arrived d (claim_key c)"
proof -
  obtain w t where w: "work d (claim_key c) = Some w" "delivery_work d' = AList.update (claim_key c) (ended st reason t w) (delivery_work d)"
    using assms(1) by (auto simp: finishes_def)
  have nd: "work_state w \<noteq> Delivered" using assms(2) w(1) open_not_delivered by (auto simp: lockClaim_def)
  show "arrived d' k \<longleftrightarrow> (if k = claim_key c then st = Delivered else arrived d k)"
    unfolding arrived_update [OF w(1) nd w(2)] by (simp add: ended_def)
  show "\<not> arrived d (claim_key c)" using w(1) nd by (simp add: arrived_def)
qed

lemma arrived_same: "delivery_work d' = delivery_work d \<Longrightarrow> arrived d' = arrived d"
  by (simp add: arrived_def fun_eq_iff)

lemma change_mail:
  assumes "change codec s s'" and "provider_inv codec s"
  shows "inv_mail (pdb s') (erased s')"
proof -
  have inv: "message_inv codec (pdb s)" and mail: "inv_mail (pdb s) (erased s)" using assms(2) by (simp_all add: provider_inv_def)
  then have e: "inv_ended (pdb s)" by (simp add: message_inv_def)
  from assms(1) show ?thesis
  proof cases
    case change_none
    then show ?thesis using mail by (simp add: inv_mail_def arrived_def same_messages_def)
  next
    case (change_takes_in input)
    from change_takes_in(1) consider "same_messages (pdb s) (pdb s')" | result where "records_envelope (pdb s) (pdb s') input result"
      unfolding takes_in_def by blast
    then show ?thesis
    proof cases
      case 1
      then show ?thesis using mail change_takes_in(5) by (simp add: inv_mail_def arrived_def same_messages_def)
    next
      case (2 result)
      note n = recorded_no_work [OF inv 2]
      have "arrived (pdb s') k = arrived (pdb s) k" for k
        using 2 n(2) by (auto simp: arrived_def records_envelope_def Let_def new_work_def split: if_splits)
      moreover have "delivered_messages (pdb s') = delivered_messages (pdb s)" using 2 by (simp add: records_envelope_def)
      ultimately show ?thesis unfolding change_takes_in(5) by (intro inv_mail_same [OF mail]) simp_all
    qed
  next
    case change_opens
    then show ?thesis using mail by (simp add: inv_mail_def arrived_def opens_reply_def)
  next
    case (change_leases now c)
    then have "arrived (pdb s') k = arrived (pdb s) k" for k by (auto simp: arrived_def leases_def split: if_splits)
    with change_leases show ?thesis unfolding change_leases(4) by (intro inv_mail_same [OF mail]) (simp_all add: leases_def)
  next
    case (change_holds c)
    then have "arrived (pdb s') k = arrived (pdb s) k" for k
      using open_not_delivered by (auto simp: arrived_def holds_back_def lockClaim_def held_def split: if_splits)
    moreover have "delivered_messages (pdb s') = delivered_messages (pdb s)" using change_holds(3) by (auto simp: holds_back_def)
    ultimately show ?thesis unfolding change_holds(6) by (intro inv_mail_same [OF mail]) simp_all
  next
    case (change_fails c dm st reason)
    have lk: "lockClaim dm c" using change_fails(2,3) by (simp add: lockClaim_same)
    have dm: "arrived dm = arrived (pdb s)" "delivered_messages (pdb s') = delivered_messages (pdb s)"
      using change_fails(3,5) by (auto simp: same_messages_def finishes_def intro: arrived_same)
    note a = arrived_finishes [OF change_fails(5) lk, unfolded dm(1)]
    have "st \<noteq> Delivered" using change_fails(4) by auto
    then have "arrived (pdb s') k = arrived (pdb s) k" for k using a by auto
    with dm(2) show ?thesis unfolding change_fails(8) by (intro inv_mail_same [OF mail]) simp_all
  next
    case (change_delivers c d1 d2)
    have m: "message_of (claim_envelope c) = claim_key c"
      using change_delivers(1) assms(2) by (auto simp: provider_inv_def valid_claim_def)
    have lk: "lockClaim d2 c" using change_delivers(2-4) by (simp add: lockClaim_same lockClaim_hands_over)
    have "arrived d2 = arrived (pdb s)" using change_delivers(3,4) by (intro arrived_same) (simp add: same_messages_def hands_over_def)
    note a = arrived_finishes [OF change_delivers(5) lk, unfolded this]
    obtain row where "delivered (pdb s') = (delivered (pdb s))(claim_key c \<mapsto> row)"
      using change_delivers(3-5) by (auto simp: hands_over_def finishes_def same_messages_def m)
    with mail a show ?thesis unfolding change_delivers(8) inv_mail_def by auto
  next
    case change_closes
    then have "keeps_ends (pdb s) (pdb s')" by (simp add: closes_def)
    from inv_mail_emptied [OF mail e this] message_inv_closes [OF inv change_closes(1)] change_closes(4) show ?thesis by simp
  next
    case change_frees
    then have "keeps_ends (pdb s) (pdb s')" by (simp add: frees_def)
    from inv_mail_emptied [OF mail e this] message_inv_frees [OF inv change_frees(1)] change_frees(4) show ?thesis by simp
  qed
qed

lemma change_preserves:
  assumes "change codec s s'" and "provider_inv codec s"
  shows "provider_inv codec s'"
proof -
  have inv: "message_inv codec (pdb s)" and v: "c \<in> issued s \<Longrightarrow> valid_claim codec (pdb s) c" for c
    using assms(2) by (simp_all add: provider_inv_def)
  have keep: "valid_claim codec (pdb s') c" if "valid_claim codec (pdb s) c" for c
    using that change_received [OF assms(1)] unfolding valid_claim_def by blast
  have "message_inv codec (pdb s') \<and> (\<forall>c \<in> issued s' - issued s. valid_claim codec (pdb s) c)"
    using assms(1)
  proof cases
    case (change_leases now c)
    then show ?thesis using message_inv_leases [OF change_leases(1) inv] by (auto simp: leases_def valid_claim_def)
  next
    case (change_fails c d1 st reason)
    note ready = same_ready [OF change_fails(3) inv v [OF change_fails(1)] change_fails(2)]
    have "\<not> open_state st" "st \<noteq> Delivered" using change_fails(4) by (auto simp: open_state_def)
    from message_inv_finishes [OF ready change_fails(5) this] change_fails(6) show ?thesis by simp
  next
    case (change_delivers c d1 d2)
    note ready = same_ready [OF change_delivers(3) inv v [OF change_delivers(1)] change_delivers(2)]
    from message_inv_hands_over [OF ready change_delivers(4,5)] change_delivers(6) show ?thesis by simp
  qed (use inv v in \<open>auto simp: message_inv_same dest: message_inv_takes_in message_inv_opens message_inv_holds
      message_inv_closes message_inv_frees\<close>)
  with v keep change_mail [OF assms] show ?thesis by (auto simp: provider_inv_def)
qed

lemma provider_inv_initial: "provider_inv codec initial"
  by (simp add: provider_inv_def initial_def empty_db_def message_invs inv_mail_def)

lemma provider_inv_reachable:
  assumes "reachable codec s"
  shows "provider_inv codec s"
  using assms unfolding reachable_def
  by (induction rule: rtranclp_induct) (auto intro: provider_inv_initial change_preserves step_changes)

end
