(* ===== verification/EnvelopeTransport.thy ===== *)
theory EnvelopeTransport
  imports ServerBase
begin

text \<open>
  Envelope records on the wire: what the server reads from a signed envelope is the record that was
  signed, whatever order the decoder enumerates members in.
\<close>

section \<open>Reading does not depend on the order of members\<close>

lemma read_digest_sort [reorder]: "read_digest (sorted_field v) = read_digest v"
  by (simp add: read_digest_def reorder)

lemma read_parts_sort [reorder]:
  "read_authorization (sorted_field v) = read_authorization v" "read_body (sorted_field v) = read_body v"
  "read_reply (sorted_field v) = read_reply v"
  by (simp_all add: read_authorization_def read_body_def read_reply_def reorder)

lemma read_members_sort [reorder]:
  "read_introduction (sort_members x) = read_introduction x" "read_reference (sort_members x) = read_reference x"
  by (simp_all add: read_introduction_def read_reference_def reorder)

lemma read_optional_sort:
  "(\<And>x. f (sort_members x) = f x) \<Longrightarrow> map_option f (sorted_field v) = map_option f v"
  by (cases v) simp_all

lemma text_optional_sort [reorder]:
  "map_option (\<lambda>x. text_of (Some x)) (sorted_field v) = map_option (\<lambda>x. text_of (Some x)) v"
  by (rule read_optional_sort) (simp add: reorder)

lemma read_envelope_sort: "read_envelope (sort_members h) = read_envelope h"
  by (simp add: read_envelope_def reorder read_optional_sort [where f = read_introduction] read_optional_sort [where f = read_reference])

lemma read_envelope_same:
  assumes "same_value (envelope_object e) h"
  shows "read_envelope h = e"
  using assms read_envelope_sort [of h] read_envelope_sort [of "envelope_object e"]
  by (simp add: same_value_def read_envelope_object)

section \<open>Signed envelopes\<close>

lemma envelope_type: "Envelope \<in> set signed_types"
  by (simp add: signed_types_def)

lemma signed_envelope_parts:
  assumes "cbor_library lib" and "web_crypto subtle resolve keyId privateKey publicKey signer"
    and "signPayload lib env Envelope (of_hail (envelope_object e)) signer = Inr rep"
  obtains object where "verifySignedPayload lib env Envelope rep (createWebCryptoVerifier resolve subtle) = Inr object"
    "inspectSignedPayload lib env Envelope rep = Inr object" "read_envelope (object_payload object) = e"
    "encodePayload lib env Envelope (of_hail (envelope_object e)) DEFAULT_HAIL_RESOURCE_LIMITS = Inr (object_payloadBytes object)"
proof -
  have t: "signed_transport lib signer (createWebCryptoVerifier resolve subtle)"
    using assms(1) web_crypto.adapters_belong_together [OF assms(2)] by (rule signed_transport.intro)
  obtain object where o: "verifySignedPayload lib env Envelope rep (createWebCryptoVerifier resolve subtle) = Inr object"
      "same_value (envelope_object e) (object_payload object)"
      "encodePayload lib env Envelope (of_hail (envelope_object e)) DEFAULT_HAIL_RESOURCE_LIMITS = Inr (object_payloadBytes object)"
    using signed_transport.verify_of_sign [OF t envelope_type unique_envelope_object assms(3)] by blast
  moreover have "inspectSignedPayload lib env Envelope rep = Inr object"
    using o(1) by (auto simp: verifySignedPayload_def inspectSignedPayload_def split: if_splits)
  moreover have "read_envelope (object_payload object) = e" by (rule read_envelope_same [OF o(2)])
  ultimately show ?thesis using that by blast
qed

text \<open>
  The server reads the envelope that was signed: if a Web Crypto key signs the object of an
  envelope record, then inspecting the representation yields exactly that record, although the
  decoder may enumerate its members in another order.
\<close>

theorem inspect_of_signed:
  assumes "cbor_library (codec_lib c)" and "web_crypto subtle resolve keyId privateKey publicKey signer"
    and "signPayload (codec_lib c) (codec_env c) Envelope (of_hail (envelope_object e)) signer = Inr rep"
  shows "inspectEnvelope c rep = Inr e"
  using signed_envelope_parts [OF assms] by (auto simp: inspectEnvelope_def)

section \<open>Examples\<close>

definition messaging_signer :: "jstring \<Rightarrow> HailSigner" where
  "messaging_signer did = \<lparr>signer_keyId = key_id_of did HailMessaging, sign = (\<lambda>data. Inr (JUint8Array (keyed_tag example_key data)))\<rparr>"

lemma messaging_crypto:
  assumes "resolve (key_id_of did HailMessaging) = Inr example_key"
  shows "web_crypto example_subtle resolve (key_id_of did HailMessaging) example_key example_key (messaging_signer did)"
  by unfold_locales
    (use assms in \<open>auto simp: example_subtle_def example_key_def messaging_signer_def createWebCryptoSigner_def requireEd25519Key_def
      keyed_tag_def fun_eq_iff\<close>)

definition signed_envelope :: "HailEnvelope \<Rightarrow> bytes" where
  "signed_envelope e =
     (case signPayload reference_cborg example_env Envelope (of_hail (envelope_object e)) (messaging_signer (env_from e)) of
        Inr rep \<Rightarrow> rep | Inl _ \<Rightarrow> [])"

definition signable :: "HailEnvelope \<Rightarrow> bool" where
  "signable e \<longleftrightarrow> wf_envelope example_env e \<and> env_version e = 1
     \<and> bulk (envelope_object e) \<le> 4096 \<and> plain 33 (envelope_object e)"

lemma signable_valid:
  assumes "signable e"
  shows "validatePayload example_env Envelope (of_hail (envelope_object e)) = Inr ()"
proof (rule validatePayload_signedI)
  show "version_exempt Envelope (get (envelope_object e) ''version'') \<or> get (envelope_object e) ''version'' = int_lit 1"
    using assms by (simp add: envelope_object_get signable_def)
qed (use assms in \<open>simp_all add: validate_by_type_def validateEnvelope_complete signable_def envelope_object_get signed_types_def
    envelope_object_map\<close>)

lemma sign_envelope:
  assumes "signable e"
  shows "signPayload reference_cborg example_env Envelope (of_hail (envelope_object e)) (messaging_signer (env_from e))
      = Inr (signed_envelope e)" "length (signed_envelope e) \<le> 16384"
proof -
  let ?c = "''application/hail-envelope+cbor''" and ?k = "key_id_of (env_from e) HailMessaging"
  let ?pay = "enc (hail_cbor (sort_members (envelope_object e)))"
  let ?prot = "enc (header_item ?c (utf8_encode ?k))"
  let ?s = "keyed_tag example_key (signatureStructure reference_cborg ?prot ?pay)"
  have d: "DID_PATTERN (env_from e)" using assms by (simp add: signable_def wf_envelope_def)
  have "length ?pay \<le> 4096"
    using encodedSize_le_bulk [of "envelope_object e"] assms by (simp add: length_enc_hail signable_def)
  moreover have "length ?prot \<le> 40 + 3 * 30 + 47"
    using length_header_le [of ?c "utf8_encode ?k"] key_id_ascii [OF d, of HailMessaging] by (simp add: ascii_utf8)
  moreover have "length ?s = 64" by simp
  ultimately have l: "length (enc (sign1_item ?prot ?pay ?s)) \<le> 16384"
    using length_sign1_le [of ?prot ?pay ?s] by linarith
  have "\<exists>kvs. envelope_object e = HMap kvs" using envelope_object_map by blast
  then have "expectedKeyId Envelope (envelope_object e) = Inr ?k"
    using d by (simp add: expectedKeyId_Inr envelope_object_get)
  then have "signPayload reference_cborg example_env Envelope (of_hail (envelope_object e)) (messaging_signer (env_from e))
      = Inr (enc (sign1_item ?prot ?pay ?s))"
    using signable_valid [OF assms] l
    by (subst reference.signPayload_iff [OF envelope_type unique_envelope_object SIGNED_PROFILES.simps(6)])
      (simp_all add: messaging_signer_def Let_def)
  with l show "signPayload reference_cborg example_env Envelope (of_hail (envelope_object e)) (messaging_signer (env_from e))
      = Inr (signed_envelope e)" "length (signed_envelope e) \<le> 16384"
    by (simp_all add: signed_envelope_def)
qed

lemma signable_example: "signable example_envelope"
  using wf_example_envelope plain_example_envelope by (simp add: signable_def example_envelope_def)

theorem inspect_of_signed_witness:
  "inspectEnvelope \<lparr>codec_lib = reference_cborg, codec_env = example_env\<rparr> (signed_envelope example_envelope) = Inr example_envelope"
proof -
  have "web_crypto example_subtle (\<lambda>_. Inr example_key) (key_id_of (env_from example_envelope) HailMessaging) example_key example_key
      (messaging_signer (env_from example_envelope))"
    by (rule messaging_crypto) simp
  from inspect_of_signed [OF _ this] sign_envelope [OF signable_example] reference.cbor_library_axioms show ?thesis by simp
qed

end
