(* ===== verification/DeliveryExample.thy ===== *)
theory DeliveryExample
  imports MessageLife EnvelopeTransport
begin

text \<open>
  A run of the provider from its empty database: Bob sends a message that permits a reply, Alice's
  reply arrives, a worker claims it and delivers its body. The theorems about reachable states are
  applied to the states of this run.
\<close>

declare split_paired_All [simp del] split_paired_Ex [simp del] Status.decimal.simps [simp del]

definition noon :: clock where
  "noon = (\<lambda>_. 1500000000)"

definition bob_account :: account_row where
  "bob_account = \<lparr>acc_did = Some bob, acc_onboarding_state = ''active'', acc_verification_mode = Some ''public'', acc_closed_at = None\<rparr>"

definition any_digest :: bytes where
  "any_digest = replicate 32 7"

definition published :: db where
  "published = empty_db\<lparr>provider_accounts := [(lit ''b'', bob_account)],
     detached_bodies := [((any_digest, lit ''b''), \<lparr>stored_bytes = empty_body, stored_until = None\<rparr>)]\<rparr>"

definition invitation :: HailEnvelope where
  "invitation = example_envelope\<lparr>env_message_id := message_2, env_from := bob, env_to := alice,
     env_authorization := GrantAuthorization message_1,
     env_body := env_body example_envelope\<lparr>body_size := int (length empty_body)\<rparr>\<rparr>"

definition answer :: HailEnvelope where
  "answer = example_envelope\<lparr>env_authorization := ReplyAuthorization message_2, env_category := None, env_reply := NoReply,
     env_body := env_body example_envelope\<lparr>body_size := int (length empty_body)\<rparr>\<rparr>"

lemma invitation_fields [simp]:
  "env_from invitation = bob" "env_to invitation = alice" "env_message_id invitation = message_2"
  "env_authorization invitation = GrantAuthorization message_1" "env_reply invitation = ReplyUntil 2000"
  "digest_value (body_digest (env_body invitation)) = any_digest" "body_size (env_body invitation) = int (length empty_body)"
  "available_until (env_body invitation) = 2593000" "access_expires_at (env_body invitation) = 2593000"
  by (simp_all add: invitation_def example_envelope_def any_digest_def)

lemma answer_fields [simp]:
  "env_from answer = alice" "env_to answer = bob" "env_message_id answer = message_1"
  "env_authorization answer = ReplyAuthorization message_2" "env_created_at answer = 1000" "env_expires_at answer = 5000"
  "digest_value (body_digest (env_body answer)) = any_digest" "body_size (env_body answer) = int (length empty_body)"
  "body_profile_of (env_body answer) = Spt1"
  "available_until (env_body answer) = 2593000" "access_expires_at (env_body answer) = 2593000"
  by (simp_all add: answer_def example_envelope_def any_digest_def)

lemma parties [simp]: "alice \<noteq> bob" "bob \<noteq> alice" "message_1 \<noteq> message_2" "message_2 \<noteq> message_1"
  by (simp_all add: alice_def bob_def message_1_def message_2_def)

lemma signable_run: "signable invitation" "signable answer"
proof -
  have w: "wf_envelope example_env invitation" "wf_envelope example_env answer"
    using length_empty_body
    by (simp_all add: wf_envelope_def wf_body_def invitation_def answer_def example_envelope_def example_ids safe_bounds news_category)
  have "bulk (envelope_object invitation) \<le> 4096" "plain 33 (envelope_object invitation)"
    "bulk (envelope_object answer) \<le> 4096" "plain 33 (envelope_object answer)"
    using length_empty_body
    by (simp_all add: envelope_object_def invitation_def answer_def example_envelope_def present_def digest_object_def body_object_def
        HAIL_MIN_INTEGER_def HAIL_MAX_INTEGER_def)
  with w show "signable invitation" "signable answer"
    by (simp_all add: signable_def) (simp_all add: invitation_def answer_def example_envelope_def)
qed

lemma example_transport:
  assumes "signable e" and "resolve (key_id_of (env_from e) HailMessaging) = Inr example_key"
  obtains object where
    "verifySignedPayload reference_cborg example_env Envelope (signed_envelope e) (createWebCryptoVerifier resolve example_subtle) = Inr object"
    "inspectSignedPayload reference_cborg example_env Envelope (signed_envelope e) = Inr object"
    "read_envelope (object_payload object) = e"
    "encodePayload reference_cborg example_env Envelope (of_hail (envelope_object e)) DEFAULT_HAIL_RESOURCE_LIMITS
      = Inr (object_payloadBytes object)"
  using signed_envelope_parts [OF reference.cbor_library_axioms messaging_crypto [of resolve "env_from e", OF assms(2)]
      sign_envelope(1) [OF assms(1)]] .

lemma inspect_run:
  assumes "signable e"
  shows "inspectEnvelope example_codec (signed_envelope e) = Inr e"
proof -
  obtain object where "inspectSignedPayload reference_cborg example_env Envelope (signed_envelope e) = Inr object"
    "read_envelope (object_payload object) = e"
    by (rule example_transport [OF assms, where resolve = "\<lambda>_. Inr example_key"]) simp_all
  then show ?thesis by (simp add: inspectEnvelope_def example_codec_def)
qed

lemma sha256_example: "sha256 example_env bs = any_digest"
  by (simp add: example_env_def any_digest_def)

section \<open>Sending\<close>

definition sent_db :: db where
  "sent_db = published\<lparr>sent_envelopes := [((bob, message_2), sent_of invitation (signed_envelope invitation) any_digest (lit ''b''))],
     reply_capabilities := [((bob, message_2), \<lparr>cap_recipient = alice, cap_until = 2000, cap_state = Available, cap_claimed = None,
       cap_updated_at = 1500000000\<rparr>)],
     body_authorizations := [(any_digest, \<lparr>auth_body_digest = any_digest, auth_account = lit ''b'', auth_recipient = alice,
       auth_message_id = message_2, auth_expires_at = 2593000, auth_available_until = 2593000\<rparr>)],
     detached_bodies := [((any_digest, lit ''b''), \<lparr>stored_bytes = empty_body, stored_until = Some 2593000\<rparr>)]\<rparr>"

lemma signed_digest_run:
  assumes "signable e"
  shows "signed_digest example_codec e (signed_envelope e) = Inr any_digest"
proof -
  obtain object where "inspectSignedPayload reference_cborg example_env Envelope (signed_envelope e) = Inr object"
    "encodePayload reference_cborg example_env Envelope (of_hail (envelope_object e)) DEFAULT_HAIL_RESOURCE_LIMITS
      = Inr (object_payloadBytes object)"
    by (rule example_transport [OF assms, where resolve = "\<lambda>_. Inr example_key"]) simp_all
  with sign_envelope(2) [OF assms] show ?thesis by (simp add: signed_digest_def example_codec_def sha256_example)
qed

lemma run_send:
  "createSent example_codec open_functions noon invitation (signed_envelope invitation) (lit ''b'') published = Inr ((), sent_db)"
  using signed_digest_run [OF signable_run(1)]
  by (simp add: createSent_def send_permitted_def published_def empty_db_def bob_account_def Let_def
      publicly_active_def persist_sent_def insert_sent_def insert_new_def open_functions_def has_row_def
      open_capability_def authorize_body_def extend_availability_def perform_def sent_db_def message_of_def noon_def
      example_codec_def sha256_example)

section \<open>Receiving\<close>

definition example_crypto :: crypto where
  "example_crypto = \<lparr>subtle = example_subtle, ed25519PublicKeyFromDidKey = (\<lambda>_. Inr example_key)\<rparr>"

definition willing :: acceptance_services where
  "willing = \<lparr>retainAuthority = (\<lambda>_ _. Inr ()), retainPublicEnvelopeAuthority = (\<lambda>_ _ _. Inr ()), aborted = (\<lambda>_. False)\<rparr>"

definition example_receiver :: receiver where
  "example_receiver = \<lparr>rx_codec = example_codec, rx_crypto = example_crypto, rx_services = willing, rx_functions = open_functions,
     rx_limits = ENVELOPE_ADMISSION,
     rx_resolve = (\<lambda>_. Inr \<lparr>messagingDidKey = lit ''k'', identityDidKey = lit ''i'', serviceBase = lit ''s'', document_evidence = no_evidence\<rparr>),
     rx_serviceBase = lit ''s'', rx_connections = None, rx_now = 1500\<rparr>"

definition decision :: EnvelopeDecision where
  "decision = \<lparr>dec_payload = answer, dec_representation = signed_envelope answer, dec_payloadDigest = any_digest,
     dec_envelopeDigest = any_digest, dec_account = lit ''b'', dec_signingKey = lit ''k'', dec_evidence = no_evidence,
     dec_descriptor = None\<rparr>"

definition received_db :: db where
  "received_db = sent_db\<lparr>received_envelopes :=
       [((alice, message_1), received_of decision None (Some message_2) WasAccepted 1500000000)],
     delivery_work := [((alice, message_1), new_work 1500000000)],
     reply_capabilities := [((bob, message_2), \<lparr>cap_recipient = alice, cap_until = 2000, cap_state = Claimed,
       cap_claimed = Some (alice, message_1), cap_updated_at = 1500000000\<rparr>)]\<rparr>"

lemma run_verify:
  "\<exists>object. verifySignedPayload reference_cborg example_env Envelope (signed_envelope answer)
     (messaging_verifier example_crypto alice (lit ''k'')) = Inr object"
proof -
  have k: "key_id_of alice HailMessaging = messaging_key_id alice"
    by (simp add: key_id_of_def messaging_key_id_def lit_def)
  let ?resolve = "\<lambda>keyId. if keyId \<noteq> messaging_key_id alice then throw InvalidSignature else Inr example_key"
  have r: "?resolve (key_id_of (env_from answer) HailMessaging) = Inr example_key" by (simp add: k)
  obtain object where "verifySignedPayload reference_cborg example_env Envelope (signed_envelope answer)
      (createWebCryptoVerifier ?resolve example_subtle) = Inr object"
    by (rule example_transport [OF signable_run(2), of ?resolve, OF r])
  then show ?thesis unfolding messaging_verifier_def example_crypto_def crypto.select_convs by blast
qed

lemma sent_db_tables:
  "received_envelopes sent_db = []" "delivery_work sent_db = []"
  "reply_capabilities sent_db = [((bob, message_2), \<lparr>cap_recipient = alice, cap_until = 2000, cap_state = Available, cap_claimed = None,
       cap_updated_at = 1500000000\<rparr>)]"
  "sent_envelopes sent_db = [((bob, message_2), sent_of invitation (signed_envelope invitation) any_digest (lit ''b''))]"
  "provider_accounts sent_db = [(lit ''b'', bob_account)]"
  by (simp_all add: sent_db_def published_def empty_db_def)

lemma run_authenticate:
  "authenticate example_receiver (\<lambda>_. sent_db) 1500000000 (signed_envelope answer) = Inr (Some decision)"
  using run_verify inspect_run [OF signable_run(2)] sign_envelope(2) [OF signable_run(2)]
  by (auto simp: authenticate_def example_receiver_def throwIfAborted_def willing_def guard_def candidate_def sent_db_tables
      introduction_valid_def account_with_did_def bob_account_def publicly_active_def decision_def example_codec_def sha256_example)

lemma run_accept:
  "accept example_codec willing open_functions ENVELOPE_ADMISSION noon decision sent_db = (Inr OutcomeAccepted, received_db)"
  using inspect_run [OF signable_run(1)]
  by (simp add: accept_def acceptWithinBudget_def decision_def acceptReply_def throwIfAborted_def guard_def willing_def sent_db_tables
      sent_of_def reply_matches_def previousOutcome_def record_reply_def message_of_def decided_def deliveryDeadline_def past_def noon_def
      reply_permitted_def insertReceived_def admitEnvelope_def has_row_def pending_def pending_of_def pending_to_def
      ENVELOPE_ADMISSION_def Let_def open_functions_def insert_new_def claim_capability_def perform_def outcome_after_def received_db_def)

lemma run_receive:
  "receive example_receiver (\<lambda>_. sent_db) noon (signed_envelope answer) sent_db = (Some OutcomeAccepted, received_db)"
  using run_authenticate run_accept by (simp add: receive_def noon_def [THEN fun_cong] example_receiver_def)

section \<open>Claiming and delivering\<close>

definition token_1 :: jstring where "token_1 = lit ''t''"

definition work_claim :: DeliveryClaim where
  "work_claim = \<lparr>claim_sender = alice, claim_message = message_1, claim_lease = token_1, claim_attempts = 1, claim_envelope = answer\<rparr>"

definition leased_row :: work_row where
  "leased_row = (new_work 1500000000)\<lparr>lease_token := Some token_1, lease_expires_at := Some 1680000000, attempt_count := 1\<rparr>"

definition claimed_db :: db where
  "claimed_db = received_db\<lparr>delivery_work := [((alice, message_1), leased_row)],
     delivery_scheduling := [((SenderScope, alice), 1500000000), ((RecipientScope, bob), 1500000000)]\<rparr>"

lemma received_db_tables:
  "received_envelopes received_db = [((alice, message_1), received_of decision None (Some message_2) WasAccepted 1500000000)]"
  "delivery_work received_db = [((alice, message_1), new_work 1500000000)]" "delivery_scheduling received_db = []"
  "provider_migration_fences received_db = []"
  by (simp_all add: received_db_def sent_db_def published_def empty_db_def)

lemma decision_row:
  "rcv_recipient (received_of decision g r o' t) = bob" "rcv_cose (received_of decision g r o' t) = signed_envelope answer"
  "rcv_envelope_digest (received_of decision g r o' t) = any_digest"
  by (simp_all add: received_of_def decision_def Let_def)

lemma run_claim:
  "claimDue example_codec open_functions noon (\<lambda>_. False) token_1 180 received_db = Inr (Some work_claim, claimed_db)"
  using inspect_run [OF signable_run(2)]
  by (simp add: claimDue_def received_db_tables claimable_def decision_row due_def new_work_def open_state_def noon_def fenced_did_def
      has_row_def running_of_sender_def running_to_recipient_def running_def perform_def open_functions_def update_work_def
      work_claim_def claimed_db_def leased_row_def)

definition delivered_db :: db where
  "delivered_db = claimed_db\<lparr>
     shared_content_blobs := [(any_digest, empty_body)], verified_body_provenance := [(bob, alice, any_digest, Spt1)],
     delivered_messages := [((alice, message_1), \<lparr>dlv_recipient = bob, dlv_envelope_digest = any_digest,
       dlv_body_digest = any_digest, dlv_profile = Spt1, dlv_trashed_at = None\<rparr>)],
     reply_capabilities := [((bob, message_2), \<lparr>cap_recipient = alice, cap_until = 2000, cap_state = Consumed,
       cap_claimed = Some (alice, message_1), cap_updated_at = 1500000000\<rparr>)],
     delivery_work := [((alice, message_1), ended Delivered None 1500000000 leased_row)],
     terminal_status_publications := [((alice, message_1), new_publication 1500000000)]\<rparr>"

lemma claimed_db_tables:
  "received_envelopes claimed_db = [((alice, message_1), received_of decision None (Some message_2) WasAccepted 1500000000)]"
  "delivery_work claimed_db = [((alice, message_1), leased_row)]" "terminal_status_publications claimed_db = []"
  "delivered_messages claimed_db = []" "shared_content_blobs claimed_db = []" "verified_body_provenance claimed_db = []"
  "reply_capabilities claimed_db = [((bob, message_2), \<lparr>cap_recipient = alice, cap_until = 2000, cap_state = Claimed,
       cap_claimed = Some (alice, message_1), cap_updated_at = 1500000000\<rparr>)]"
  by (simp_all add: claimed_db_def received_db_def sent_db_def published_def empty_db_def)

lemma run_attachments: "bodyAttachments example_codec empty_body = Inr []"
proof -
  have "validateBodyBytes example_codec empty_body None = Inr Spt1"
    using empty_body_decodes length_empty_body by (simp add: validateBodyBytes_exact [OF example_library] BODY_MAX_BYTES_def)
  with empty_body_decodes show ?thesis by (simp add: bodyAttachments_def empty_document_def get_HMap)
qed

lemma run_deliver:
  "deliver example_codec open_functions None noon 1500000000 claimed_db claimed_db work_claim empty_body [] claimed_db
     = Inr (DeliverDelivered, delivered_db)"
proof -
  have "validateBodyBytes example_codec empty_body (Some Spt1) = Inr Spt1"
    using empty_body_decodes length_empty_body by (simp add: validateBodyBytes_exact [OF example_library] BODY_MAX_BYTES_def)
  moreover have "BODY_MAX_BYTES = 1048576" "empty_body \<noteq> []" "length empty_body \<le> 1048576"
    using length_empty_body by (auto simp: BODY_MAX_BYTES_def)
  ultimately show ?thesis
    by (simp add: deliver_def work_claim_def bodyDigest_def example_codec_def sha256_example run_attachments [unfolded example_codec_def]
        authorizeConnection_def deliver_transaction_def lockClaim_def claim_key_def claimed_db_tables leased_row_def new_work_def
        open_state_def past_def deliveryDeadline_def noon_def still_authorized_def deliver_body_def store_body_def body_key_def
        open_functions_def Let_def insert_delivered_def has_row_def insert_new_def decision_row finish_def settle_capability_def perform_def
        later_def update_work_def delivered_db_def ended_def)
qed

section \<open>The run\<close>

definition final_state :: provider where
  "final_state = \<lparr>pdb = delivered_db, issued = {work_claim}, horizon = 1500000000, erased = {}\<rparr>"

definition claimed_state :: provider where
  "claimed_state = \<lparr>pdb = claimed_db, issued = {work_claim}, horizon = 1500000000, erased = {}\<rparr>"

lemma run_reaches_claim: "reachable example_codec claimed_state"
proof -
  let ?s = "\<lambda>d. \<lparr>pdb = d, issued = {}, horizon = 0, erased = {}\<rparr>"
  have "step example_codec (?s empty_db) (?s published)"
    using step_elsewhere [of "?s empty_db" published] by (simp add: same_messages_def published_def)
  moreover have "step example_codec (?s published) (?s sent_db)"
    using step_send [of example_codec open_functions noon invitation _ _ "?s published", simplified, OF run_send] .
  moreover have "step example_codec (?s sent_db) (?s received_db)"
    using step_receive [of example_receiver example_codec _ noon _ "?s sent_db", simplified, OF _ run_receive]
    by (simp add: example_receiver_def)
  moreover have "step example_codec (?s received_db) claimed_state"
    using step_claim [of example_codec open_functions noon _ token_1 180 "?s received_db", simplified, OF run_claim]
    by (simp add: claimed_state_def noon_def)
  ultimately show ?thesis
    unfolding reachable_def initial_def by (meson converse_rtranclp_into_rtranclp rtranclp.rtrancl_refl)
qed

lemma run_delivers: "step example_codec claimed_state final_state"
  using step_deliver [of work_claim claimed_state example_codec open_functions None noon 1500000000 claimed_db claimed_db empty_body "[]"
      DeliverDelivered delivered_db] run_deliver
  by (simp add: claimed_state_def final_state_def)

lemma run_reaches_delivery: "reachable example_codec final_state"
  using run_reaches_claim run_delivers unfolding reachable_def by (rule rtranclp.rtrancl_into_rtrancl)

text \<open>Instead of delivering, the account may be closed while the worker holds its lease.\<close>

definition bob_session :: AccountApiSession where
  "bob_session = \<lparr>session_account = lit ''b'', session_did = bob, session_address = lit ''bob@example'',
     passkey_credential = Some (lit ''k''), passkey_verified_at = Some 0\<rparr>"

definition quiet_tables :: account_tables where
  "quiet_tables = \<lparr>current_passkey = True, registered_domain = False, migration_snapshot = False, connections_drained = True,
     address_releasable = True, trash_enabled = None, leased_tokens = []\<rparr>"

definition closed_db :: db where
  "closed_db = claimed_db\<lparr>delivery_work := [((alice, message_1), closed_work 1500000000 leased_row)],
     provider_accounts := [(lit ''b'', bob_account\<lparr>acc_closed_at := Some 1500000000\<rparr>)]\<rparr>"

definition closed_state :: provider where
  "closed_state = \<lparr>pdb = closed_db, issued = {work_claim}, horizon = 1500000000, erased = {}\<rparr>"

lemma claimed_db_others:
  "provider_accounts claimed_db = [(lit ''b'', bob_account)]" "provider_migration_fences claimed_db = []"
  "grant_publications claimed_db = []" "received_attachment_refs claimed_db = []"
  by (simp_all add: claimed_db_def received_db_def sent_db_def published_def empty_db_def)

lemma received_account: "rcv_account (received_of decision g r o' t) = lit ''b''"
  by (simp add: received_of_def decision_def Let_def)

lemma run_close:
  "close_account open_functions quiet_tables (\<lambda>_. 0) (\<lambda>_. noon) bob_session (lit ''bob@example'') claimed_db = Inr ((), closed_db)"
  by (simp add: close_account_def Let_def bob_session_def requireRecentPasskey_def requireCurrentPasskey_def RECENT_PASSKEY_WINDOW_MS_def
      quiet_tables_def close_refusal_def claimed_db_tables claimed_db_others bob_account_def assert_unfenced_account_def fenced_did_def
      has_row_def guard_def close_tables_def cancel_work_def perform_rows_def of_account_def received_account leased_row_def new_work_def
      open_state_def open_functions_def noon_def block_statuses_def block_grants_def empty_mailbox_def delete_rows_def drop_bodies_def
      drop_blobs_def closed_db_def lit_def)

lemma run_closes: "step example_codec claimed_state closed_state"
proof -
  have "emptied claimed_db closed_db = {}" by (simp add: emptied_def claimed_db_tables)
  then show ?thesis
    using step_close [of open_functions quiet_tables "\<lambda>_. 0" "\<lambda>_. noon" bob_session "lit ''bob@example''" claimed_state "()" closed_db] run_close
    by (simp add: claimed_state_def closed_state_def)
qed

lemma run_reaches_closing: "reachable example_codec closed_state"
  using run_reaches_claim run_closes unfolding reachable_def by (rule rtranclp.rtrancl_into_rtrancl)

text \<open>After the delivery the recipient may delete the message for good.\<close>

definition emptied_db :: db where
  "emptied_db = delivered_db\<lparr>delivered_messages := [], verified_body_provenance := []\<rparr>"

definition emptied_state :: provider where
  "emptied_state = \<lparr>pdb = emptied_db, issued = {work_claim}, horizon = 1500000000, erased = {(alice, message_1)}\<rparr>"

lemma run_remove:
  "remove_message open_functions quiet_tables noon bob_session alice message_1 True delivered_db = Inr (Deleted, emptied_db)"
proof -
  have "DID_PATTERN alice" "UUID_V7_PATTERN message_1" by (simp_all add: example_ids)
  moreover have "provider_accounts delivered_db = [(lit ''b'', bob_account)]" "provider_migration_fences delivered_db = []"
    "received_attachment_refs delivered_db = []"
    by (simp_all add: delivered_db_def claimed_db_others)
  ultimately show ?thesis
    by (simp add: remove_message_def mailbox_lock_def bob_session_def bob_account_def assert_unfenced_account_def fenced_did_def has_row_def
        guard_def delete_messages_def perform_rows_def delivered_db_def open_functions_def delete_rows_def cleanBodies_def drop_bodies_def
        body_of_def emptied_db_def Let_def)
qed

lemma run_reaches_emptying: "reachable example_codec emptied_state"
proof -
  have "emptied delivered_db emptied_db = {(alice, message_1)}" by (auto simp: emptied_def emptied_db_def delivered_db_def split: if_splits)
  then have "step example_codec final_state emptied_state"
    using step_remove [of open_functions quiet_tables noon bob_session alice message_1 True final_state Deleted emptied_db] run_remove
    by (simp add: final_state_def emptied_state_def)
  then show ?thesis using run_reaches_delivery unfolding reachable_def by (rule rtranclp.rtrancl_into_rtrancl [rotated])
qed

section \<open>Properties of every run\<close>

text \<open>
  C13. The tables agree in every state the provider reaches, whatever was sent, received, claimed, delivered,
  published, trashed, purged or closed before: an accepted envelope has an entry in the delivery queue
  and no other has; a message is in the recipient's mailbox if and only if it was delivered and has
  not been taken out (erased from the trash or with the account); a final status is scheduled for
  publication only if the delivery ended, and always then unless it was cancelled because the
  account was closed; and a lease, a reason and a first revision are present exactly where the state calls for them.
  (The migration of an account to or from the provider, which deletes or copies in its rows, is not among the steps.)
\<close>

theorem tables_agree:
  assumes "reachable codec s"
  shows "(\<forall>k. (\<exists>r. received (pdb s) k = Some r \<and> rcv_outcome r = WasAccepted) \<longleftrightarrow> work (pdb s) k \<noteq> None)
    \<and> (\<forall>k. delivered (pdb s) k \<noteq> None \<longleftrightarrow> (\<exists>w. work (pdb s) k = Some w \<and> work_state w = Delivered) \<and> k \<notin> erased s)
    \<and> (\<forall>k. publications (pdb s) k \<noteq> None \<longrightarrow> (\<exists>w. work (pdb s) k = Some w \<and> \<not> open_state (work_state w)))
    \<and> (\<forall>k w. work (pdb s) k = Some w \<longrightarrow> \<not> open_state (work_state w) \<longrightarrow>
         publications (pdb s) k \<noteq> None \<or> work_state w = Cancelled \<and> work_reason w = Some ''account-closed'')
    \<and> (\<forall>k w. work (pdb s) k = Some w \<longrightarrow> wf_work w)"
proof -
  have i: "message_inv codec (pdb s)" and m: "inv_mail (pdb s) (erased s)"
    using provider_inv_reachable [OF assms] by (simp_all add: provider_inv_def)
  have e: "inv_ended (pdb s)" using i by (simp add: message_inv_def)
  have accepted: "\<forall>k. (\<exists>r. received (pdb s) k = Some r \<and> rcv_outcome r = WasAccepted) \<longleftrightarrow> work (pdb s) k \<noteq> None"
    using i unfolding message_inv_def inv_received_def inv_work_def by (metis option.exhaust)
  have mailbox: "\<forall>k. delivered (pdb s) k \<noteq> None \<longleftrightarrow> arrived (pdb s) k \<and> k \<notin> erased s"
  proof
    fix k show "delivered (pdb s) k \<noteq> None \<longleftrightarrow> arrived (pdb s) k \<and> k \<notin> erased s"
      using inv_endedD(3) [OF e, of k] conjunct1 [OF m [unfolded inv_mail_def], THEN spec, of k] by argo
  qed
  have wf: "\<forall>k w. work (pdb s) k = Some w \<longrightarrow> wf_work w" using i unfolding message_inv_def inv_work_def by blast
  from e have "(\<forall>k. publications (pdb s) k \<noteq> None \<longrightarrow> (\<exists>w. work (pdb s) k = Some w \<and> \<not> open_state (work_state w)))"
    "(\<forall>k w. work (pdb s) k = Some w \<longrightarrow> \<not> open_state (work_state w) \<longrightarrow>
         publications (pdb s) k \<noteq> None \<or> work_state w = Cancelled \<and> work_reason w = Some ''account-closed'')"
    unfolding inv_ended_def account_closed_def by - (elim conjE, assumption)+
  with accepted mailbox [unfolded arrived_def] wf show ?thesis by (intro conjI)
qed

theorem tables_agree_witness:
  "delivered delivered_db (alice, message_1) \<noteq> None
    \<and> (\<exists>w. work delivered_db (alice, message_1) = Some w \<and> work_state w = Delivered \<and> wf_work w)
    \<and> publications delivered_db (alice, message_1) \<noteq> None
    \<and> (\<exists>w. work closed_db (alice, message_1) = Some w \<and> account_closed w \<and> wf_work w)
    \<and> delivered emptied_db (alice, message_1) = None \<and> publications emptied_db (alice, message_1) \<noteq> None"
proof -
  have "delivered (pdb final_state) (alice, message_1) \<noteq> None" by (simp add: final_state_def delivered_db_def)
  moreover from this obtain w where "work (pdb final_state) (alice, message_1) = Some w" "work_state w = Delivered"
    using tables_agree [OF run_reaches_delivery] by blast
  moreover have "\<not> open_state (work_state w)" using calculation(3) by (simp add: open_state_def)
  then have "wf_work w \<and> (publications (pdb final_state) (alice, message_1) \<noteq> None \<or> work_state w = Cancelled)"
    using tables_agree [OF run_reaches_delivery] calculation(2) by blast
  moreover have "work closed_db (alice, message_1) = Some (closed_work 1500000000 leased_row)" "publications closed_db (alice, message_1) = None"
    by (simp_all add: closed_db_def claimed_db_tables)
  moreover from this have "account_closed (closed_work 1500000000 leased_row) \<and> wf_work (closed_work 1500000000 leased_row)"
    using tables_agree [OF run_reaches_closing] by (simp add: closed_state_def account_closed_def closed_work_def open_state_def)
  moreover have "delivered emptied_db (alice, message_1) = None" "publications emptied_db (alice, message_1) \<noteq> None"
    using tables_agree [OF run_reaches_emptying] by (auto simp: emptied_state_def emptied_db_def delivered_db_def)
  ultimately show ?thesis by (auto simp: final_state_def)
qed



end
