(* ===== verification/LifeCycle.thy ===== *)
theory LifeCycle
  imports DeliveryExample
begin

text \<open>
  The abstract life of one received message, and that every step of the provider is a step of it
  for each message: the specification that the transactions of \<^verbatim>\<open>delivery/repository.ts\<close>,
  \<^verbatim>\<open>envelopes/repository.ts\<close> and \<open>Accounts\<close> implement. Then the limits on running deliveries.
\<close>

declare split_paired_All [simp del] split_paired_Ex [simp del] Status.decimal.simps [simp del]

section \<open>The abstract life of a message\<close>

datatype life = Unseen | Turned_away | Waiting nat | Leased jstring nat | Ended HailDeliveryState nat

inductive life_step :: "life \<Rightarrow> life \<Rightarrow> bool" where
  life_arrive: "life_step Unseen (Waiting 1)"
| life_refuse: "life_step Unseen Turned_away"
| life_lease: "life_step (Waiting n) (Leased t n)"
| life_release: "life_step (Leased t n) (Leased t' n)"
| life_postpone: "life_step (Leased t n) (Waiting (Suc n))"
| life_reset: "life_step (Leased t n) (Waiting n)"
| life_close: "life_step (Waiting n) (Ended Cancelled (Suc n))"
| life_end: "s \<in> {Delivered, Failed, Cancelled} \<Longrightarrow> life_step (Leased t n) (Ended s (Suc n))"

inductive_cases life_step_ended: "life_step (Ended s n) l"

definition life_of :: "db \<Rightarrow> message_key \<Rightarrow> life" where
  "life_of d k = (case work d k of
     None \<Rightarrow> (case received d k of None \<Rightarrow> Unseen | Some _ \<Rightarrow> Turned_away)
   | Some w \<Rightarrow>
       if open_state (work_state w)
       then (case lease_token w of None \<Rightarrow> Waiting (status_revision w) | Some t \<Rightarrow> Leased t (status_revision w))
       else Ended (work_state w) (status_revision w))"

lemma life_of_cong: "work d' k = work d k \<Longrightarrow> received d' k = received d k \<Longrightarrow> life_of d' k = life_of d k"
  unfolding life_of_def by metis

lemma life_of_same: "same_messages d d' \<Longrightarrow> life_of d' = life_of d"
  by (rule ext, rule life_of_cong) (simp_all add: same_messages_def)

lemma life_of_locked:
  assumes "lockClaim d c"
  obtains w where "work d (claim_key c) = Some w" "life_of d (claim_key c) = Leased (claim_lease c) (status_revision w)"
  using assms by (auto simp: lockClaim_def life_of_def split: option.splits)

lemma life_of_finishes:
  assumes "finishes d d' c s reason" and "lockClaim d c" and "s \<in> {Delivered, Failed, Cancelled}"
  shows "life_of d' k = life_of d k \<or> life_step (life_of d k) (life_of d' k)"
proof -
  obtain w where w: "work d (claim_key c) = Some w" "life_of d (claim_key c) = Leased (claim_lease c) (status_revision w)"
    by (rule life_of_locked [OF assms(2)])
  from assms(1) w(1) obtain t where d': "work d' = (work d)(claim_key c \<mapsto> ended s reason t w)" "received d' = received d"
    by (auto simp: finishes_def)
  have o: "\<not> open_state s" using assms(3) by (auto simp: open_state_def)
  show ?thesis
  proof (cases "k = claim_key c")
    case True
    then have "life_of d' k = Ended s (Suc (status_revision w))" using o by (simp add: life_of_def d' ended_def)
    with True w(2) assms(3) show ?thesis by (auto intro: life_end)
  next
    case False
    then have "life_of d' k = life_of d k" by (intro life_of_cong) (simp_all add: d')
    then show ?thesis ..
  qed
qed

lemma life_of_holds_back:
  assumes "holds_back d d' c" and "lockClaim d c"
  shows "life_of d' k = life_of d k \<or> life_step (life_of d k) (life_of d' k)"
proof -
  obtain w where w: "work d (claim_key c) = Some w" "life_of d (claim_key c) = Leased (claim_lease c) (status_revision w)"
    by (rule life_of_locked [OF assms(2)])
  from assms(1) w(1) obtain reason retryAt t where d': "work d' = (work d)(claim_key c \<mapsto> held reason retryAt t w)" "received d' = received d"
    by (auto simp: holds_back_def)
  have h: "life_of d' (claim_key c) = Waiting (Suc (status_revision w))" by (simp add: life_of_def d' held_def open_state_def)
  have "life_of d' k = life_of d k" if "k \<noteq> claim_key c" using that by (intro life_of_cong) (simp_all add: d')
  with h w(2) show ?thesis by (cases "k = claim_key c") (auto intro: life_postpone)
qed

lemma life_of_leases:
  assumes "leases codec d d' now c"
  shows "life_of d' k = life_of d k \<or> life_step (life_of d k) (life_of d' k)"
proof -
  from assms obtain w e where w: "work d (claim_key c) = Some w" "open_state (work_state w)"
    and d': "work d' = (work d)(claim_key c \<mapsto> w\<lparr>lease_token := Some (claim_lease c), lease_expires_at := Some e, attempt_count := attempt_count w + 1\<rparr>)"
      "received d' = received d"
    by (auto simp: leases_def)
  have h: "life_of d' (claim_key c) = Leased (claim_lease c) (status_revision w)" using w by (simp add: life_of_def d')
  have "life_of d' k = life_of d k" if "k \<noteq> claim_key c" using that by (intro life_of_cong) (simp_all add: d')
  moreover have "life_step (life_of d (claim_key c)) (Leased (claim_lease c) (status_revision w))"
    using w by (auto simp: life_of_def intro: life_lease life_release split: option.splits)
  ultimately show ?thesis using h by (cases "k = claim_key c") auto
qed

lemma life_of_records:
  assumes "records_envelope d d' input result" and "message_inv codec d"
  shows "life_of d' k = life_of d k \<or> life_step (life_of d k) (life_of d' k)"
proof -
  let ?k = "message_of (dec_payload input)"
  note n = recorded_no_work [OF assms(2,1)]
  obtain row where r: "received d' = (received d)(?k \<mapsto> row)" using assms(1) by (auto simp: records_envelope_def Let_def)
  have u: "life_of d ?k = Unseen" using n by (simp add: life_of_def)
  consider t where "work d' = (work d)(?k \<mapsto> new_work t)" | "work d' = work d"
    using assms(1) by (auto simp: records_envelope_def Let_def split: if_splits)
  then show ?thesis
  proof cases
    case (1 t)
    then have "life_of d' ?k = Waiting 1" by (simp add: life_of_def new_work_def open_state_def)
    moreover have "life_of d' k = life_of d k" if "k \<noteq> ?k" using that by (intro life_of_cong) (simp_all add: 1 r)
    ultimately show ?thesis using u by (cases "k = ?k") (auto intro: life_arrive [simplified])
  next
    case 2
    then have "life_of d' ?k = Turned_away" using n by (simp add: life_of_def r)
    moreover have "life_of d' k = life_of d k" if "k \<noteq> ?k" using that by (intro life_of_cong) (simp_all add: 2 r)
    ultimately show ?thesis using u by (cases "k = ?k") (auto intro: life_refuse)
  qed
qed

text \<open>Rows that a change of custody or the closing of an account rewrites.\<close>

lemma life_of_row:
  "work d k = Some w \<Longrightarrow> open_state (work_state w) \<Longrightarrow>
     life_of d k = Waiting (status_revision w) \<or> (\<exists>t. life_of d k = Leased t (status_revision w))"
  by (auto simp: life_of_def split: option.splits)

lemma life_of_closes:
  assumes "closes d d'"
  shows "life_of d' k = life_of d k \<or> life_step (life_of d k) (life_of d' k)"
proof -
  obtain P t n where d': "delivery_work d' = update_rows P (\<lambda>i. closed_work (t i)) n (delivery_work d)"
    and P: "\<And>k w. P k w \<Longrightarrow> open_state (work_state w)" and r: "received_envelopes d' = received_envelopes d"
    using assms by (auto simp: closes_def keeps_ends_def)
  show ?thesis
  proof (cases "work d' k")
    case None
    then have "work d k = None" by (simp add: d')
    with None r have "life_of d' k = life_of d k" by (simp add: life_of_def)
    then show ?thesis ..
  next
    case (Some w')
    then obtain w i where w: "work d k = Some w" "w' = w \<or> P k w \<and> w' = closed_work (t i) w"
      unfolding d' by (rule update_rows_cases)
    from w(2) show ?thesis
    proof
      assume "w' = w"
      with w(1) Some r have "life_of d' k = life_of d k" by (intro life_of_cong) simp_all
      then show ?thesis ..
    next
      assume c: "P k w \<and> w' = closed_work (t i) w"
      with Some have "life_of d' k = Ended Cancelled (Suc (status_revision w))"
        by (simp add: life_of_def closed_work_def open_state_def)
      moreover have "open_state (work_state w)" using P c by blast
      ultimately show ?thesis using life_of_row [OF w(1)] by (auto intro: life_close life_end)
    qed
  qed
qed

lemma life_of_frees:
  assumes "frees d d'" and inv: "message_inv codec d"
  shows "life_of d' k = life_of d k \<or> life_step (life_of d k) (life_of d' k)"
proof -
  obtain P n where d': "delivery_work d' = update_rows P (\<lambda>_. unleased) n (delivery_work d)"
    and P: "\<And>k w. P k w \<Longrightarrow> lease_token w \<noteq> None" and r: "received_envelopes d' = received_envelopes d"
    using assms(1) unfolding frees_def keeps_ends_def by blast
  show ?thesis
  proof (cases "work d' k")
    case None
    then have "work d k = None" by (simp add: d')
    with None r have "life_of d' k = life_of d k" by (simp add: life_of_def)
    then show ?thesis ..
  next
    case (Some w')
    then obtain w i where w: "work d k = Some w" "w' = w \<or> P k w \<and> w' = unleased w"
      unfolding d' by (rule update_rows_cases)
    from w(2) show ?thesis
    proof
      assume "w' = w"
      with w(1) Some r have "life_of d' k = life_of d k" by (intro life_of_cong) simp_all
      then show ?thesis ..
    next
      assume c: "P k w \<and> w' = unleased w"
      then obtain t where t: "lease_token w = Some t" using P by blast
      have "wf_work w" using inv w(1) unfolding message_inv_def inv_work_def by blast
      with t have o: "open_state (work_state w)" by (auto simp: wf_work_def)
      with t w(1) have "life_of d k = Leased t (status_revision w)" by (simp add: life_of_def)
      moreover have "life_of d' k = Waiting (status_revision w)" using c o Some by (simp add: life_of_def unleased_def)
      ultimately show ?thesis by (simp add: life_reset)
    qed
  qed
qed

lemma change_refines:
  assumes "change codec s s'" and "provider_inv codec s"
  shows "life_of (pdb s') k = life_of (pdb s) k \<or> life_step (life_of (pdb s) k) (life_of (pdb s') k)"
proof -
  have inv: "message_inv codec (pdb s)" using assms(2) by (simp add: provider_inv_def)
  from assms(1) show ?thesis
  proof cases
    case change_none
    then show ?thesis by (simp add: life_of_same)
  next
    case (change_takes_in input)
    from change_takes_in(1) consider "same_messages (pdb s) (pdb s')" | result where "records_envelope (pdb s) (pdb s') input result"
      unfolding takes_in_def by blast
    then show ?thesis by cases (simp add: life_of_same, rule life_of_records [OF _ inv])
  next
    case change_opens
    then have "life_of (pdb s') k = life_of (pdb s) k" by (intro life_of_cong) (simp_all add: opens_reply_def)
    then show ?thesis ..
  next
    case (change_leases now c)
    from change_leases(1) show ?thesis by (rule life_of_leases)
  next
    case (change_holds c)
    from change_holds(3,2) show ?thesis by (rule life_of_holds_back)
  next
    case (change_fails c dm st reason)
    have "lockClaim dm c" using change_fails(2,3) by (simp add: lockClaim_same)
    from life_of_finishes [OF change_fails(5) this, of k] change_fails(4) life_of_same [OF change_fails(3)] show ?thesis by auto
  next
    case (change_delivers c d1 d2)
    have "lockClaim d2 c" using change_delivers(2-4) by (simp add: lockClaim_same lockClaim_hands_over)
    moreover have "life_of d2 = life_of (pdb s)"
      unfolding life_of_same [OF change_delivers(3), symmetric]
      by (rule ext, rule life_of_cong) (use change_delivers(4) in \<open>simp_all add: hands_over_def\<close>)
    ultimately show ?thesis using life_of_finishes [OF change_delivers(5), of k] by auto
  next
    case change_closes
    from change_closes(1) show ?thesis by (rule life_of_closes)
  next
    case change_frees
    from change_frees(1) inv show ?thesis by (rule life_of_frees)
  qed
qed

text \<open>
  C15. The provider implements the abstract life cycle: whatever transaction of its serving commits in a
  reachable state (receiving, sending, the workers, the publication of statuses, the mailbox, the
  closing of an account, a change of custody), each received message stays where it was in its life
  or makes one step of it: it arrives and waits or is turned away, a worker leases it, the lease
  passes to another worker or is taken back, it is postponed, it ends under a lease, or it is
  cancelled with the account. Postponing and ending raise the status revision by one, and nothing else does.
  (The migration of an account to or from the provider is not among the steps.)
\<close>

theorem life_cycle_refined:
  assumes "reachable codec s" and "step codec s s'"
  shows "life_of (pdb s') k = life_of (pdb s) k \<or> life_step (life_of (pdb s) k) (life_of (pdb s') k)"
  using change_refines [OF step_changes [OF assms(2)]] provider_inv_reachable [OF assms(1)] by blast

theorem life_cycle_refined_witness:
  "life_step (life_of claimed_db (alice, message_1)) (life_of delivered_db (alice, message_1))
    \<and> life_step (life_of claimed_db (alice, message_1)) (life_of closed_db (alice, message_1))"
proof -
  have "life_of claimed_db (alice, message_1) = Leased token_1 1" "life_of delivered_db (alice, message_1) = Ended Delivered 2"
    "life_of closed_db (alice, message_1) = Ended Cancelled 2"
    by (simp_all add: life_of_def claimed_db_tables delivered_db_def leased_row_def new_work_def ended_def open_state_def
        closed_db_def closed_work_def)
  then show ?thesis
    using life_cycle_refined [OF run_reaches_claim run_delivers, of "(alice, message_1)"]
      life_cycle_refined [OF run_reaches_claim run_closes, of "(alice, message_1)"]
    by (simp add: claimed_state_def final_state_def closed_state_def)
qed

lemma steps_reachable: "reachable codec s \<Longrightarrow> (step codec)\<^sup>*\<^sup>* s s' \<Longrightarrow> reachable codec s'"
  unfolding reachable_def by (rule rtranclp_trans)

lemma ended_forever:
  assumes "(step codec)\<^sup>*\<^sup>* s s'" and "reachable codec s" and "life_of (pdb s) k = Ended st n"
  shows "life_of (pdb s') k = Ended st n"
  using assms
proof (induction rule: rtranclp_induct)
  case (step s1 s2)
  have "reachable codec s1" by (rule steps_reachable [OF step.prems(1) step.hyps(1)])
  from change_refines [OF step_changes [OF step.hyps(2)], of k] provider_inv_reachable [OF this] step
  show ?case by (auto elim: life_step_ended)
qed simp

text \<open>
  C16. The end of a delivery is final: once a message is delivered, failed or cancelled, no later
  operation, by whatever worker and with whatever old claim, changes its state or its status
  revision again.
\<close>

theorem end_is_final:
  assumes "reachable codec s" and "(step codec)\<^sup>*\<^sup>* s s'" and "work (pdb s) k = Some w" and "\<not> open_state (work_state w)"
  shows "\<exists>w'. work (pdb s') k = Some w' \<and> work_state w' = work_state w \<and> status_revision w' = status_revision w"
proof -
  have "life_of (pdb s) k = Ended (work_state w) (status_revision w)" using assms(3,4) by (simp add: life_of_def)
  from ended_forever [OF assms(2,1) this] show ?thesis
    by (auto simp: life_of_def split: option.splits if_splits)
qed

text \<open>The worker that delivered the message tries to fail it with the claim it still holds.\<close>

lemma stale_claim_fails: "step example_codec final_state final_state"
proof -
  have "fail_delivery open_functions noon work_claim ''sender-rejected'' (pdb final_state) = Inr ((), pdb final_state)"
    by (simp add: fail_delivery_def lockClaim_def claim_key_def work_claim_def final_state_def delivered_db_def ended_def)
  from step_fail [OF _ this, of example_codec] show ?thesis by (simp add: final_state_def)
qed

theorem end_is_final_witness:
  "step example_codec final_state final_state
    \<and> (\<exists>w. work (pdb final_state) (alice, message_1) = Some w \<and> work_state w = Delivered \<and> status_revision w = 2)"
proof -
  have "work (pdb final_state) (alice, message_1) = Some (ended Delivered None 1500000000 leased_row)"
    "\<not> open_state (work_state (ended Delivered None 1500000000 leased_row))"
    by (simp_all add: final_state_def delivered_db_def ended_def open_state_def)
  from end_is_final [OF run_reaches_delivery r_into_rtranclp [of "step example_codec", OF stale_claim_fails] this]
    stale_claim_fails show ?thesis
    by (simp add: ended_def leased_row_def new_work_def numeral_2_eq_2)
qed

section \<open>Limits on running deliveries\<close>

text \<open>A row that only loses its lease, or keeps it, adds nothing to what is running.\<close>

lemma length_filter_update:
  assumes "keyed t" and "map_of t k = Some w" and "P (k, w') \<Longrightarrow> P (k, w)"
  shows "length (filter P (AList.update k w' t)) \<le> length (filter P t)"
  using assms
proof (induction t)
  case (Cons a t)
  obtain q v where a: "a = (q, v)" by (cases a)
  show ?case
  proof (cases "q = k")
    case True
    then have "k \<notin> fst ` set t" using Cons.prems(1) by (auto simp: a keyed_def)
    with True Cons.prems(2,3) show ?thesis by (auto simp: a)
  next
    case False
    with Cons show ?thesis by (auto simp: a keyed_def)
  qed
qed simp

lemma length_filter_update_le:
  "keyed t \<Longrightarrow> length (filter P (AList.update k w t)) \<le> Suc (length (filter P t))"
proof (induction t)
  case (Cons a t)
  then show ?case by (cases a) (auto simp: keyed_def)
qed simp

lemma length_filter_update_new:
  assumes "\<not> P (k, w)"
  shows "length (filter P (AList.update k w t)) \<le> length (filter P t)"
proof (induction t)
  case (Cons a t)
  then show ?case using assms by (cases a) (auto simp: le_SucI)
qed (use assms in simp)

lemma running_later: "running t w \<Longrightarrow> u \<le> t \<Longrightarrow> running u w"
  by (auto simp: running_def split: option.splits)

lemma filter_running_later:
  "u \<le> t \<Longrightarrow> length (filter (\<lambda>(k, w). Q k \<and> running t w) xs) \<le> length (filter (\<lambda>(k, w). Q k \<and> running u w) xs)"
  by (induction xs) (auto simp: running_later)

definition in_limits :: "db \<Rightarrow> instant \<Rightarrow> bool" where
  "in_limits d t \<longleftrightarrow> (\<forall>sender. length (running_of_sender d t sender) \<le> 1)
     \<and> (\<forall>recipient. length (running_to_recipient d t recipient) \<le> 2)"

lemma in_limits_update:
  assumes "in_limits d t" and "keyed (delivery_work d)" and "work d k = Some w" and "running t w' \<Longrightarrow> running t w"
    and "delivery_work d' = AList.update k w' (delivery_work d)" "received_envelopes d' = received_envelopes d"
  shows "in_limits d' t"
proof -
  have r: "recipient_of d' = recipient_of d" using assms(6) by (simp add: recipient_of_def fun_eq_iff)
  have "length (running_of_sender d' t q) \<le> length (running_of_sender d t q)" for q
    unfolding running_of_sender_def assms(5) by (rule length_filter_update [OF assms(2,3)]) (use assms(4) in auto)
  moreover have "length (running_to_recipient d' t q) \<le> length (running_to_recipient d t q)" for q
    unfolding running_to_recipient_def assms(5) r by (rule length_filter_update [OF assms(2,3)]) (use assms(4) in auto)
  ultimately show ?thesis using assms(1) unfolding in_limits_def by (meson order_trans)
qed

lemma in_limits_rows:
  assumes "in_limits d t" and "delivery_work d' = update_rows P f n (delivery_work d)" "received_envelopes d' = received_envelopes d"
    and "\<And>i w. \<not> running t (f i w)"
  shows "in_limits d' t"
proof -
  have r: "recipient_of d' = recipient_of d" using assms(3) by (simp add: recipient_of_def fun_eq_iff)
  have "length (running_of_sender d' t q) \<le> length (running_of_sender d t q)" for q
    unfolding running_of_sender_def assms(2) by (rule length_filter_update_rows) (simp add: assms(4))
  moreover have "length (running_to_recipient d' t q) \<le> length (running_to_recipient d t q)" for q
    unfolding running_to_recipient_def assms(2) r by (rule length_filter_update_rows) (simp add: assms(4))
  ultimately show ?thesis using assms(1) unfolding in_limits_def by (meson order_trans)
qed

lemma in_limits_same:
  "in_limits d t \<Longrightarrow> delivery_work d' = delivery_work d \<Longrightarrow> received_envelopes d' = received_envelopes d \<Longrightarrow> in_limits d' t"
  by (simp add: in_limits_def running_of_sender_def running_to_recipient_def recipient_of_def)

lemma in_limits_same_messages: "in_limits d t \<Longrightarrow> same_messages d d' \<Longrightarrow> in_limits d' t"
  by (rule in_limits_same) (simp_all add: same_messages_def)

lemma in_limits_records:
  assumes "in_limits d t" and inv: "message_inv codec d" and r: "records_envelope d d' input result"
  shows "in_limits d' t"
proof -
  let ?k = "message_of (dec_payload input)"
  note n = recorded_no_work [OF inv r]
  obtain row where rc: "received d' = (received d)(?k \<mapsto> row)" using r by (auto simp: records_envelope_def Let_def)
  have w: "delivery_work d' = delivery_work d \<or> (\<exists>u. delivery_work d' = AList.update ?k (new_work u) (delivery_work d))"
    using r by (auto simp: records_envelope_def Let_def split: if_splits)
  have nr: "\<not> running t (new_work u)" for u by (simp add: running_def new_work_def)
  have "length (running_of_sender d' t q) \<le> length (running_of_sender d t q)" for q
    using w nr unfolding running_of_sender_def by (auto intro!: length_filter_update_new)
  moreover have "length (running_to_recipient d' t q) \<le> length (running_to_recipient d t q)" for q
  proof -
    have k: "?k \<notin> fst ` set (delivery_work d)" using n(2) by (simp add: map_of_eq_None_iff)
    let ?P = "\<lambda>(k, w). recipient_of d' k = Some q \<and> running t w"
    have "recipient_of d' (fst x) = recipient_of d (fst x)" if "x \<in> set (delivery_work d)" for x
    proof -
      have "fst x \<noteq> ?k" using k that by (metis image_eqI)
      then show ?thesis by (simp add: recipient_of_def rc)
    qed
    then have "filter ?P (delivery_work d) = running_to_recipient d t q"
      unfolding running_to_recipient_def by (intro filter_cong) (auto simp: case_prod_beta)
    moreover have "length (running_to_recipient d' t q) \<le> length (filter ?P (delivery_work d))"
      using w nr unfolding running_to_recipient_def by (auto intro!: length_filter_update_new)
    ultimately show ?thesis by simp
  qed
  ultimately show ?thesis using assms(1) unfolding in_limits_def by (meson order_trans)
qed

lemma in_limits_leases:
  assumes "in_limits d t" and "now \<le> t" and kd: "keyed (delivery_work d)" and l: "leases codec d d' now c"
  shows "in_limits d' t"
proof -
  from l obtain w r w' where r: "received d (claim_key c) = Some r"
    and z: "running_of_sender d now (claim_sender c) = []" "length (running_to_recipient d now (rcv_recipient r)) < 2"
    and d': "delivery_work d' = AList.update (claim_key c) w' (delivery_work d)" "received_envelopes d' = received_envelopes d"
    by (auto simp: leases_def)
  have rr: "recipient_of d' = recipient_of d" using d'(2) by (simp add: recipient_of_def fun_eq_iff)
  have rk: "recipient_of d (claim_key c) = Some (rcv_recipient r)" by (simp add: recipient_of_def r)
  have "length (running_of_sender d' t q) \<le> 1" for q
  proof (cases "q = claim_sender c")
    case True
    have "length (running_of_sender d t q) \<le> 0"
      using filter_running_later [OF assms(2), of "\<lambda>k. fst k = q" "delivery_work d"] z(1) by (simp add: running_of_sender_def True)
    then show ?thesis
      using length_filter_update_le [OF kd, of "\<lambda>(k, w). fst k = q \<and> running t w" "claim_key c" w']
      by (simp add: running_of_sender_def d')
  next
    case False
    then have "length (running_of_sender d' t q) \<le> length (running_of_sender d t q)"
      unfolding running_of_sender_def d' by (intro length_filter_update_new) (simp add: claim_key_def)
    with assms(1) show ?thesis unfolding in_limits_def by (meson order_trans)
  qed
  moreover have "length (running_to_recipient d' t q) \<le> 2" for q
  proof (cases "q = rcv_recipient r")
    case True
    have "length (running_to_recipient d t q) \<le> 1"
      using filter_running_later [OF assms(2), of "\<lambda>k. recipient_of d k = Some q" "delivery_work d"] z(2)
      by (simp add: running_to_recipient_def True)
    then show ?thesis
      using length_filter_update_le [OF kd, of "\<lambda>(k, w). recipient_of d k = Some q \<and> running t w" "claim_key c" w']
      by (simp add: running_to_recipient_def d' rr)
  next
    case False
    then have "length (running_to_recipient d' t q) \<le> length (running_to_recipient d t q)"
      unfolding running_to_recipient_def d' rr by (intro length_filter_update_new) (simp add: rk)
    with assms(1) show ?thesis unfolding in_limits_def by (meson order_trans)
  qed
  ultimately show ?thesis by (simp add: in_limits_def)
qed

lemma in_limits_finishes:
  assumes "in_limits d t" and "keyed (delivery_work d)" and "finishes d d' c s reason"
  shows "in_limits d' t"
proof -
  from assms(3) obtain w u where "work d (claim_key c) = Some w" "received_envelopes d' = received_envelopes d"
    "delivery_work d' = AList.update (claim_key c) (ended s reason u w) (delivery_work d)" by (auto simp: finishes_def)
  moreover have "\<not> running t (ended s reason u w)" by (simp add: running_def ended_def)
  ultimately show ?thesis using in_limits_update [OF assms(1,2)] by blast
qed

lemma change_in_limits:
  assumes "change codec s s'" and "provider_inv codec s" and "\<forall>t \<ge> horizon s. in_limits (pdb s) t"
  shows "\<forall>t \<ge> horizon s'. in_limits (pdb s') t"
proof (intro allI impI)
  fix t assume t: "horizon s' \<le> t"
  have inv: "message_inv codec (pdb s)" and kd: "keyed (delivery_work (pdb s))"
    using assms(2) by (simp_all add: provider_inv_def message_inv_def)
  have i: "in_limits (pdb s) t" if "horizon s \<le> t" using that assms(3) by blast
  from assms(1) show "in_limits (pdb s') t"
  proof cases
    case change_none
    then show ?thesis using i t in_limits_same_messages by metis
  next
    case (change_takes_in input)
    from change_takes_in(1) consider "same_messages (pdb s) (pdb s')" | result where "records_envelope (pdb s) (pdb s') input result"
      unfolding takes_in_def by blast
    then show ?thesis
      using i t change_takes_in(4) in_limits_records [OF _ inv] in_limits_same_messages by cases metis+
  next
    case change_opens
    then have "in_limits (pdb s) t" using i t by simp
    then show ?thesis by (rule in_limits_same) (use change_opens(1) in \<open>simp_all add: opens_reply_def\<close>)
  next
    case (change_leases now c)
    then have "in_limits (pdb s) t" "now \<le> t" using i t by simp_all
    then show ?thesis using in_limits_leases [OF _ _ kd change_leases(1)] by blast
  next
    case (change_holds c)
    then obtain w reason retryAt u where "work (pdb s) (claim_key c) = Some w" "received_envelopes (pdb s') = received_envelopes (pdb s)"
      "delivery_work (pdb s') = AList.update (claim_key c) (held reason retryAt u w) (delivery_work (pdb s))"
      by (auto simp: holds_back_def)
    moreover have "\<not> running t (held reason retryAt u w)" by (simp add: running_def held_def)
    moreover have "in_limits (pdb s) t" using i t change_holds(5) by simp
    ultimately show ?thesis using in_limits_update [OF _ kd] by blast
  next
    case (change_fails c dm st reason)
    have "in_limits dm t" using in_limits_same_messages [OF i change_fails(3)] t change_fails(7) by simp
    moreover have "keyed (delivery_work dm)" using kd change_fails(3) by (simp add: same_messages_def)
    ultimately show ?thesis using in_limits_finishes change_fails(5) by blast
  next
    case (change_delivers c d1 d2)
    have e: "delivery_work d2 = delivery_work (pdb s)" "received_envelopes d2 = received_envelopes (pdb s)"
      using change_delivers(3,4) by (simp_all add: same_messages_def hands_over_def)
    have "in_limits d2 t" using in_limits_same [OF i e] t change_delivers(7) by simp
    moreover have "keyed (delivery_work d2)" using kd e by simp
    ultimately show ?thesis using in_limits_finishes change_delivers(5) by blast
  next
    case change_closes
    then obtain P u n where "delivery_work (pdb s') = update_rows P (\<lambda>i. closed_work (u i)) n (delivery_work (pdb s))"
      "received_envelopes (pdb s') = received_envelopes (pdb s)" by (auto simp: closes_def keeps_ends_def)
    moreover have "\<not> running t (closed_work (u i) w)" for u :: "nat \<Rightarrow> instant" and i w by (simp add: running_def closed_work_def)
    moreover have "in_limits (pdb s) t" using i t change_closes(3) by simp
    ultimately show ?thesis using in_limits_rows by blast
  next
    case change_frees
    then obtain P n where "delivery_work (pdb s') = update_rows P (\<lambda>_. unleased) n (delivery_work (pdb s))"
      "received_envelopes (pdb s') = received_envelopes (pdb s)" unfolding frees_def keeps_ends_def by blast
    moreover have "\<not> running t (unleased w)" for w by (simp add: running_def unleased_def)
    moreover have "in_limits (pdb s) t" using i t change_frees(3) by simp
    ultimately show ?thesis using in_limits_rows by blast
  qed
qed

lemma reachable_in_limits:
  assumes "reachable codec s"
  shows "\<forall>t \<ge> horizon s. in_limits (pdb s) t"
  using assms unfolding reachable_def
proof (induction rule: rtranclp_induct)
  case base
  show ?case by (simp add: initial_def in_limits_def running_of_sender_def running_to_recipient_def empty_db_def)
next
  case (step s1 s2)
  have p: "provider_inv codec s1" using step.hyps(1) provider_inv_reachable by (simp add: reachable_def)
  show ?case by (rule change_in_limits [OF step_changes [OF step.hyps(2) p] p step.IH])
qed

text \<open>
  C17. Bounded concurrency: at every time from the start of the latest claim on, at most one
  delivery of each sender and at most two to each recipient are running, that is, open under an
  unexpired lease, however many workers claim and whatever claims overlap.
\<close>

theorem running_bounded:
  assumes "reachable codec s" and "horizon s \<le> t"
  shows "length (running_of_sender (pdb s) t sender) \<le> 1 \<and> length (running_to_recipient (pdb s) t recipient) \<le> 2"
  using reachable_in_limits [OF assms(1)] assms(2) by (simp add: in_limits_def)

theorem running_bounded_witness: "length (running_of_sender claimed_db 1500000000 alice) = 1"
proof -
  have "running_of_sender claimed_db 1500000000 alice = [((alice, message_1), leased_row)]"
    by (simp add: running_of_sender_def claimed_db_tables running_def leased_row_def new_work_def open_state_def)
  moreover have "length (running_of_sender claimed_db 1500000000 alice) \<le> 1"
    using running_bounded [OF run_reaches_claim, of 1500000000 alice alice] by (simp add: claimed_state_def)
  ultimately show ?thesis by simp
qed

end
