(* ===== verification/GrantLife.thy ===== *)
theory GrantLife
  imports Accounts
begin

text \<open>
  What the grant store keeps true, whatever the order of its transactions: each lineage is an
  append-only chain of signed revisions that ends with a revocation, a pair of accounts has
  one active lineage, and revisions are published in order. The abstract specification is a log of revisions
  per grant that only grows by permitted successors. The steps are the transactions of the store
  (\<^verbatim>\<open>grants/repository.ts\<close>), the closing of an account, which blocks its publications, and the part of a change of
  custody that takes back leases. Not among them are the successors that a change of custody stores
  (\<^verbatim>\<open>accounts/custody-transition.ts\<close>, one for each active grant, signed with the new key) and the
  migration of an account between providers (\<^verbatim>\<open>migration/activation.ts\<close>, \<^verbatim>\<open>managed-activation.ts\<close>,
  \<^verbatim>\<open>return.ts\<close>), which copies in or deletes whole histories.
\<close>

declare split_paired_All [simp del] split_paired_Ex [simp del] Status.decimal.simps [simp del]

section \<open>States and steps\<close>

abbreviation lineages :: "db \<Rightarrow> jstring \<Rightarrow> lineage_row option" where
  "lineages d \<equiv> map_of (grant_lineages d)"

abbreviation revisions :: "db \<Rightarrow> jstring \<times> int \<Rightarrow> revision_row option" where
  "revisions d \<equiv> map_of (grant_revisions d)"

abbreviation grant_pubs :: "db \<Rightarrow> jstring \<times> int \<Rightarrow> grant_publication_row option" where
  "grant_pubs d \<equiv> map_of (grant_publications d)"

definition same_grants :: "db \<Rightarrow> db \<Rightarrow> bool" where
  "same_grants d d' \<longleftrightarrow> grant_lineages d' = grant_lineages d \<and> grant_revisions d' = grant_revisions d
     \<and> grant_publications d' = grant_publications d"

inductive grant_step :: "codec \<Rightarrow> db \<Rightarrow> db \<Rightarrow> bool" for codec where
  grant_issue: "gs_codec sv = codec \<Longrightarrow> insertAuthoritativeRevision1 sv clk g consent destination d = Inr (u, d')
    \<Longrightarrow> grant_step codec d d'"
| grant_update: "gs_codec sv = codec \<Longrightarrow> appendAuthoritativeUpdate sv clk input d = Inr (u, d') \<Longrightarrow> grant_step codec d d'"
| grant_revoke: "gs_codec sv = codec \<Longrightarrow> appendAuthoritativeRevocation sv clk input d = Inr (u, d') \<Longrightarrow> grant_step codec d d'"
| grant_receive: "gs_codec sv = codec \<Longrightarrow> acceptReceivedRevision sv clk g d = Inr (stored, d') \<Longrightarrow> grant_step codec d d'"
| grant_claim: "gs_codec sv = codec \<Longrightarrow> claimDuePublication sv locked token ms now clk d = (claim, d') \<Longrightarrow> grant_step codec d d'"
| grant_acknowledge: "acknowledgePublication fx clk res etag d = Inr (u, d') \<Longrightarrow> grant_step codec d d'"
| grant_retry: "retryPublication fx clk res t d = Inr (u, d') \<Longrightarrow> grant_step codec d d'"
| grant_block: "blockPublication fx clk res d = Inr (u, d') \<Longrightarrow> grant_step codec d d'"
| grant_close: "close_account fx ax nows clks session address d = Inr (u, d') \<Longrightarrow> grant_step codec d d'"
| grant_free: "free_leases fx ax d = Inr d' \<Longrightarrow> grant_step codec d d'"
| grant_elsewhere: "same_grants d d' \<Longrightarrow> grant_step codec d d'"

inductive_cases grant_stepE: "grant_step codec d d'"

definition grants_reachable :: "codec \<Rightarrow> db \<Rightarrow> bool" where
  "grants_reachable codec d \<longleftrightarrow> (grant_step codec)\<^sup>*\<^sup>* empty_db d"

section \<open>What the operations do to the lineages\<close>

definition authentic :: "codec \<Rightarrow> SignedGrantRevisionInput \<Rightarrow> bool" where
  "authentic c g \<longleftrightarrow> inspectGrant c (sg_representation g) = Inr (sg_payload g)
     \<and> sha256 (codec_env c) (sg_representation g) = sg_digest g"

lemma checkedInput_Inr: "checkedInput c g role = Inr u \<Longrightarrow> authentic c g \<and> sg_role g = role"
  by (auto simp: checkedInput_def authentic_def)

definition begins :: "codec \<Rightarrow> SignedGrantRevisionInput \<Rightarrow> instant \<Rightarrow> db \<Rightarrow> db \<Rightarrow> bool" where
  "begins c g t d d' \<longleftrightarrow> authentic c g \<and> grant_revision (sg_payload g) = 1 \<and> grant_status_of (sg_payload g) = Active
     \<and> lineages d (grant_id (sg_payload g)) = None \<and> active_pair d (grantor (sg_payload g)) (grantee (sg_payload g)) = None
     \<and> revisions d (revision_key g) = None
     \<and> lineages d' = (lineages d)(grant_id (sg_payload g) \<mapsto> lineage_of g)
     \<and> revisions d' = (revisions d)(revision_key g \<mapsto> revision_of t g)"

text \<open>A permitted successor: it names the digest of the current revision, is later, and follows an active one.\<close>

definition succeeds_row :: "HailGrant \<Rightarrow> lineage_row \<Rightarrow> revision_row \<Rightarrow> bool" where
  "succeeds_row p l r \<longleftrightarrow> lin_status l = Active \<and> grant_revision p = lin_revision l + 1
     \<and> grant_previous p = Some (lin_digest l) \<and> rev_updated_at r < grant_updated_at p
     \<and> grantor p = lin_grantor l \<and> grantee p = lin_grantee l"

definition continues :: "codec \<Rightarrow> SignedGrantRevisionInput \<Rightarrow> instant \<Rightarrow> lineage_row \<Rightarrow> revision_row \<Rightarrow> db \<Rightarrow> db \<Rightarrow> bool" where
  "continues c g t l r d d' \<longleftrightarrow> authentic c g
     \<and> lineages d (grant_id (sg_payload g)) = Some l \<and> revisions d (grant_id (sg_payload g), lin_revision l) = Some r
     \<and> succeeds_row (sg_payload g) l r \<and> revisions d (revision_key g) = None
     \<and> lineages d' = (lineages d)(grant_id (sg_payload g) \<mapsto> l\<lparr>lin_revision := grant_revision (sg_payload g),
         lin_digest := sg_digest g, lin_status := grant_status_of (sg_payload g)\<rparr>)
     \<and> revisions d' = (revisions d)(revision_key g \<mapsto> revision_of t g)"

definition unchanged :: "db \<Rightarrow> db \<Rightarrow> bool" where
  "unchanged d d' \<longleftrightarrow> grant_lineages d' = grant_lineages d \<and> grant_revisions d' = grant_revisions d"

definition announces :: "SignedGrantRevisionInput \<Rightarrow> db \<Rightarrow> db \<Rightarrow> bool" where
  "announces g d d' \<longleftrightarrow> sg_role g = Grantor \<and> grant_pubs d (revision_key g) = None
     \<and> (\<exists>t x. grant_publications d' = AList.update (revision_key g) (new_grant_publication t x) (grant_publications d))"

lemma announcesI:
  "sg_role g = Grantor \<Longrightarrow> grant_pubs d (revision_key g) = None \<Longrightarrow>
   grant_publications d' = AList.update (revision_key g) (new_grant_publication t x) (grant_publications d) \<Longrightarrow> announces g d d'"
  unfolding announces_def by blast

lemma insertPublication_Inr:
  "insertPublication fx t (sg_payload g) x d = Inr d' \<Longrightarrow> grant_pubs d (revision_key g) = None
     \<and> d' = d\<lparr>grant_publications := AList.update (revision_key g) (new_grant_publication t x) (grant_publications d)\<rparr>"
  by (auto simp: insertPublication_def revision_key_def Let_def has_row_def)

lemma insertRevision_Inr:
  "insertRevision fx t g d = Inr d' \<Longrightarrow> revisions d (revision_key g) = None
     \<and> d' = d\<lparr>grant_revisions := AList.update (revision_key g) (revision_of t g) (grant_revisions d)\<rparr>"
  by (auto simp: insertRevision_def has_row_def)

lemma insert_lineage_Inr:
  "insert_lineage fx g d = Inr d' \<Longrightarrow> lineages d (grant_id (sg_payload g)) = None
     \<and> active_pair d (grantor (sg_payload g)) (grantee (sg_payload g)) = None
     \<and> d' = d\<lparr>grant_lineages := AList.update (grant_id (sg_payload g)) (lineage_of g) (grant_lineages d)\<rparr>"
  by (auto simp: insert_lineage_def Let_def has_row_def)

lemma insert_consent_Inr:
  "insert_consent fx g e d = Inr d' \<Longrightarrow> \<exists>t. d' = d\<lparr>grant_consent_evidence := t\<rparr>"
  by (auto simp: insert_consent_def)

lemma insert_fresh_consent_Inr:
  assumes "insert_fresh_consent fx g consent d = Inr d'"
  shows "\<exists>t. d' = d\<lparr>grant_consent_evidence := t\<rparr>"
proof (cases consent)
  case None
  with assms have "d' = d\<lparr>grant_consent_evidence := grant_consent_evidence d\<rparr>" by (simp add: insert_fresh_consent_def)
  then show ?thesis by blast
next
  case (Some e)
  with assms insert_consent_Inr show ?thesis by (auto simp: insert_fresh_consent_def)
qed

lemma advance_lineage_Inr:
  "advance_lineage fx g d = Inr d' \<Longrightarrow> lineages d (grant_id (sg_payload g)) = Some l \<Longrightarrow>
     d' = d\<lparr>grant_lineages := AList.update (grant_id (sg_payload g)) (l\<lparr>lin_revision := grant_revision (sg_payload g),
       lin_digest := sg_digest g, lin_status := grant_status_of (sg_payload g)\<rparr>) (grant_lineages d)\<rparr>"
  by (auto simp: advance_lineage_def Let_def)

lemma issue_effect:
  assumes "insertAuthoritativeRevision1 sv clk g consent destination d = Inr (u, d')"
  shows "begins (gs_codec sv) g (clk 0) d d' \<and> announces g d d'"
proof -
  from assms obtain d1 d2 d3 where g: "checkedInput (gs_codec sv) g Grantor = Inr ()"
      "grant_revision (sg_payload g) = 1" "grant_status_of (sg_payload g) = Active"
    and steps: "insert_lineage (gs_functions sv) g d = Inr d1" "insertRevision (gs_functions sv) (clk 0) g d1 = Inr d2"
      "insert_consent (gs_functions sv) g consent d2 = Inr d3"
      "insertPublication (gs_functions sv) (clk 0) (sg_payload g) destination d3 = Inr d'"
    by (auto simp: insertAuthoritativeRevision1_def Let_def)
  note e = insert_lineage_Inr [OF steps(1)] insertRevision_Inr [OF steps(2)] insert_consent_Inr [OF steps(3)]
    insertPublication_Inr [OF steps(4)]
  from e g checkedInput_Inr [OF g(1)] have "begins (gs_codec sv) g (clk 0) d d'" by (auto simp: begins_def)
  moreover from e checkedInput_Inr [OF g(1)] have "announces g d d'"
    by (intro announcesI [where t = "clk 0" and x = destination]) auto
  ultimately show ?thesis ..
qed

lemma grantFromRow_Inr:
  "grantFromRow c gid n l r = Inr g \<Longrightarrow> inspectGrant c (rev_cose r) = Inr (sg_payload g) \<and> row_matches c gid n l r (sg_payload g)
     \<and> sg_account g = lin_account l \<and> sg_role g = lin_role l \<and> sg_digest g = rev_digest r \<and> sg_representation g = rev_cose r"
  by (auto simp: grantFromRow_def)

lemma update_effect:
  assumes "appendAuthoritativeUpdate sv clk input d = Inr (u, d')"
  shows "\<exists>l r. continues (gs_codec sv) (up_revision input) (clk 0) l r d d' \<and> announces (up_revision input) d d' \<and> lin_role l = Grantor"
proof -
  define g where "g = up_revision input"
  from assms obtain current where c: "checkedInput (gs_codec sv) g Grantor = Inr ()"
      "grant_revision (sg_payload g) = up_expectedRevision input + 1"
      "grant_previous (sg_payload g) = Some (up_expectedDigest input)"
      "append_update sv clk input current d = Inr (u, d')"
    by (auto simp: appendAuthoritativeUpdate_def Let_def g_def split: option.splits)
  from c(4) have e: "lineage_expected d input"
    by (auto simp: append_update_def Let_def split: option.splits)
  from c(4) obtain d1 d2 d3 where steps: "advance_lineage (gs_functions sv) g d = Inr d1"
      "insertRevision (gs_functions sv) (clk 0) g d1 = Inr d2"
      "insert_fresh_consent (gs_functions sv) g (up_consent input) d2 = Inr d3"
      "publish_update (gs_functions sv) (clk 0) (sg_payload g) (up_destination input) d3 = Inr d'"
    by (auto simp: append_update_def Let_def g_def split: option.splits)
  from e obtain l r where l: "lineages d (grant_id (sg_payload g)) = Some l" "revisions d (grant_id (sg_payload g), lin_revision l) = Some r"
      "lin_role l = Grantor" "lin_revision l = up_expectedRevision input" "lin_digest l = up_expectedDigest input" "lin_status l = Active"
      "lin_grantor l = grantor (sg_payload g)" "lin_grantee l = grantee (sg_payload g)" "rev_updated_at r < grant_updated_at (sg_payload g)"
    by (auto simp: lineage_expected_def Let_def g_def split: option.splits)
  obtain t where d3: "d3 = d2\<lparr>grant_consent_evidence := t\<rparr>" using insert_fresh_consent_Inr [OF steps(3)] by blast
  obtain x where p: "insertPublication (gs_functions sv) (clk 0) (sg_payload g) x d3 = Inr d'"
    using steps(4) by (auto simp: publish_update_def split: option.splits)
  note f = advance_lineage_Inr [OF steps(1) l(1)] insertRevision_Inr [OF steps(2)] insertPublication_Inr [OF p]
  have "continues (gs_codec sv) g (clk 0) l r d d'"
    using l c f d3 checkedInput_Inr [OF c(1)] by (auto simp: continues_def succeeds_row_def)
  moreover have "announces g d d'"
    using f d3 checkedInput_Inr [OF c(1)] by (intro announcesI [where t = "clk 0" and x = x]) auto
  ultimately show ?thesis using l(3) by (auto simp: g_def)
qed

lemma read_back_same: "read_back sv g d = Inr (x, d') \<Longrightarrow> d' = d"
  by (auto simp: read_back_def split: option.splits)

lemma receive_effect_first:
  assumes "receive_first sv clk g d = Inr (x, d')" and "authentic (gs_codec sv) g"
  shows "begins (gs_codec sv) g (clk 0) d d' \<and> grant_publications d' = grant_publications d"
proof -
  from assms(1) obtain d1 d2 where "grant_revision (sg_payload g) = 1" "grant_status_of (sg_payload g) = Active"
    and s: "insert_lineage (gs_functions sv) g d = Inr d1" "insertRevision (gs_functions sv) (clk 0) g d1 = Inr d2" "d' = d2"
    by (auto simp: receive_first_def Let_def dest: read_back_same)
  with insert_lineage_Inr [OF s(1)] insertRevision_Inr [OF s(2)] assms(2) show ?thesis by (auto simp: begins_def)
qed

lemma advances_Inr:
  assumes "advances d l p = Inr True" "grantor p = lin_grantor l" "grantee p = lin_grantee l"
  shows "\<exists>r. revisions d (grant_id p, lin_revision l) = Some r \<and> succeeds_row p l r"
proof -
  have "lin_status l = Active" if "lin_status l \<noteq> Revoked" using that by (cases "lin_status l") auto
  with assms show ?thesis
    by (auto simp: advances_def succeeds_row_def safeInteger_def split: if_splits option.splits)
qed

lemma receive_effect_successor:
  assumes "receive_successor sv clk g l d = Inr (x, d')" and "authentic (gs_codec sv) g"
    and "lineages d (grant_id (sg_payload g)) = Some l" and "grantor (sg_payload g) = lin_grantor l" "grantee (sg_payload g) = lin_grantee l"
  shows "d' = d \<or> (\<exists>r. continues (gs_codec sv) g (clk 0) l r d d') \<and> grant_publications d' = grant_publications d"
proof (cases "revisions d (grant_id (sg_payload g), grant_revision (sg_payload g))")
  case (Some r)
  with assms(1) show ?thesis by (auto simp: receive_successor_def Let_def split: if_splits)
next
  case None
  with assms(1) obtain d1 d2 where a: "advances d l (sg_payload g) = Inr True"
    and s: "insertRevision (gs_functions sv) (clk 0) g d = Inr d1" "advance_lineage (gs_functions sv) g d1 = Inr d2" "d' = d2"
    by (auto simp: receive_successor_def Let_def dest: read_back_same)
  note e = insertRevision_Inr [OF s(1)]
  then have "lineages d1 (grant_id (sg_payload g)) = Some l" using assms(3) by simp
  note f = advance_lineage_Inr [OF s(2) this]
  from advances_Inr [OF a assms(4,5)] obtain r where r: "revisions d (grant_id (sg_payload g), lin_revision l) = Some r"
    "succeeds_row (sg_payload g) l r" by blast
  with e f s(3) assms(2,3) have "continues (gs_codec sv) g (clk 0) l r d d'" by (auto simp: continues_def)
  with e f s(3) show ?thesis by auto
qed

lemma receive_collocated_same: "receive_collocated sv g l d = Inr (x, d') \<Longrightarrow> same_grants d d'"
  by (auto simp: receive_collocated_def same_grants_def Let_def split: if_splits)


lemma received_effect:
  assumes "acceptReceivedRevision sv clk g d = Inr (x, d')"
  defines "g' \<equiv> g\<lparr>sg_role := Grantee\<rparr>"
  shows "same_grants d d' \<or> grant_publications d' = grant_publications d
    \<and> (begins (gs_codec sv) g' (clk 0) d d' \<or> (\<exists>l r. continues (gs_codec sv) g' (clk 0) l r d d' \<and> lin_role l = Grantee))"
proof -
  have gg: "sg_payload g' = sg_payload g" by (simp add: g'_def)
  from assms(1) have "checkedInput (gs_codec sv) g' Grantee = Inr ()"
    by (simp add: acceptReceivedRevision_def Let_def g'_def)
  from checkedInput_Inr [OF this] have a: "authentic (gs_codec sv) g'" by simp
  show ?thesis
  proof (cases "lineages d (grant_id (sg_payload g'))")
    case None
    with assms(1) have "receive_first sv clk g' d = Inr (x, d')"
      by (auto simp: acceptReceivedRevision_def Let_def g'_def)
    from receive_effect_first [OF this a] show ?thesis by blast
  next
    case (Some l)
    with assms(1) have p: "grantor (sg_payload g') = lin_grantor l" "grantee (sg_payload g') = lin_grantee l"
      and r: "(if lin_role l = Grantor then receive_collocated sv g' l d else receive_successor sv clk g' l d) = Inr (x, d')"
      by (auto simp: acceptReceivedRevision_def Let_def g'_def)
    show ?thesis
    proof (cases "lin_role l")
      case Grantor
      with r show ?thesis by (auto dest: receive_collocated_same)
    next
      case Grantee
      with r have "receive_successor sv clk g' l d = Inr (x, d')" by simp
      from receive_effect_successor [OF this a Some p] Grantee show ?thesis by (auto simp: same_grants_def)
    qed
  qed
qed

lemma first_due:
  assumes "first_by f (filter P xs) = Some x"
  shows "x \<in> set xs \<and> P x"
  using first_by_mem [OF assms] by simp

text \<open>Publishing changes one row of the outbox: a lease is given if all earlier revisions are acknowledged, and taken back.\<close>

definition leases_publication :: "db \<Rightarrow> db \<Rightarrow> bool" where
  "leases_publication d d' \<longleftrightarrow> (\<exists>k row row'. (k, row) \<in> set (grant_publications d) \<and> open_publication (gp_state row)
     \<and> (\<forall>m prior. grant_pubs d (fst k, m) = Some prior \<and> m < snd k \<longrightarrow> gp_state prior = Acknowledged)
     \<and> gp_state row' = gp_state row \<and> grant_publications d' = AList.update k row' (grant_publications d))"

definition settles_publication :: "db \<Rightarrow> db \<Rightarrow> bool" where
  "settles_publication d d' \<longleftrightarrow> (\<exists>k row row'. grant_pubs d k = Some row \<and> open_publication (gp_state row)
     \<and> gp_lease row \<noteq> None \<and> grant_publications d' = AList.update k row' (grant_publications d))"

lemma finishPublication_effect:
  assumes "finishPublication fx clk res st t e d = Inr (u, d')"
  shows "unchanged d d' \<and> settles_publication d d'"
proof -
  obtain row where r: "grant_pubs d (res_grant_id res, res_revision res) = Some row" "owns_publication (clk 0) res row"
    using assms by (auto simp: finishPublication_def Let_def)
  have "\<exists>row'. d' = d\<lparr>grant_publications := AList.update (res_grant_id res, res_revision res) row' (grant_publications d)\<rparr>"
    using assms r by (simp add: finishPublication_def Let_def) blast
  then obtain row' where "d' = d\<lparr>grant_publications := AList.update (res_grant_id res, res_revision res) row' (grant_publications d)\<rparr>" ..
  with r show ?thesis unfolding settles_publication_def unchanged_def owns_publication_def by auto
qed


lemma claim_effect:
  assumes "claimDuePublication sv locked token ms now clk d = (claim, d')"
  shows "d' = d \<or> unchanged d d' \<and> leases_publication d d'"
proof (cases "d' = d")
  case False
  let ?sel = "first_by (\<lambda>(_, row). (gp_next_attempt_at row, gp_created_at row))
    (filter (publication_due d (now * 1000) locked) (grant_publications d))"
  from assms False obtain gid n row where sel: "?sel = Some ((gid, n), row)"
    by (auto simp: claimDuePublication_def split: if_splits option.splits)
  define row' where "row' = row\<lparr>gp_lease := Some token, gp_lease_expires_at := Some ((now + ms) * 1000),
    gp_attempts := gp_attempts row + 1, gp_updated_at := clk 0\<rparr>"
  from assms False have d': "d' = d\<lparr>grant_publications := AList.update (gid, n) row' (grant_publications d)\<rparr>"
    unfolding claimDuePublication_def sel by (auto simp: row'_def Let_def split: if_splits)
  from first_due [OF sel] have m: "((gid, n), row) \<in> set (grant_publications d)"
    and due: "publication_due d (now * 1000) locked ((gid, n), row)" by auto
  from due have o: "open_publication (gp_state row)"
    and none: "\<not> list_ex (\<lambda>((_, m), prior). m < n \<and> gp_state prior \<noteq> Acknowledged) (publications_of d gid)"
    by (auto simp: publication_due_def split: option.splits)
  have "gp_state prior = Acknowledged" if "grant_pubs d (gid, m) = Some prior" "m < n" for m prior
    using none map_of_SomeD [OF that(1)] that(2) by (auto simp: list_ex_iff publications_of_def)
  with m o have "leases_publication d d'" unfolding leases_publication_def
    by (intro exI [of _ "(gid, n)"] exI [of _ row] exI [of _ row']) (auto simp: row'_def d')
  with d' show ?thesis by (simp add: unchanged_def)
qed simp

section \<open>The invariant of lineages\<close>

definition stored :: "codec \<Rightarrow> jstring \<Rightarrow> int \<Rightarrow> lineage_row \<Rightarrow> revision_row \<Rightarrow> bool" where
  "stored c gid n l r \<longleftrightarrow> (\<exists>p. inspectGrant c (rev_cose r) = Inr p \<and> row_matches c gid n l r p)"

definition follows :: "revision_row \<Rightarrow> revision_row \<Rightarrow> bool" where
  "follows r r' \<longleftrightarrow> rev_status r = Active \<and> rev_previous r' = Some (rev_digest r) \<and> rev_updated_at r < rev_updated_at r'"

definition chained :: "codec \<Rightarrow> (jstring \<times> int \<Rightarrow> revision_row option) \<Rightarrow> jstring \<Rightarrow> lineage_row \<Rightarrow> bool" where
  "chained c revs gid l \<longleftrightarrow> 1 \<le> lin_revision l
     \<and> (\<forall>n. revs (gid, n) \<noteq> None \<longleftrightarrow> 1 \<le> n \<and> n \<le> lin_revision l)
     \<and> (\<forall>n r. revs (gid, n) = Some r \<longrightarrow> stored c gid n l r)
     \<and> (\<forall>r. revs (gid, 1) = Some r \<and> lin_revision l = 1 \<longrightarrow> rev_status r = Active)
     \<and> (\<forall>r. revs (gid, lin_revision l) = Some r \<longrightarrow> rev_digest r = lin_digest l \<and> rev_status r = lin_status l)
     \<and> (\<forall>n r r'. revs (gid, n) = Some r \<and> revs (gid, n + 1) = Some r' \<longrightarrow> follows r r')"

definition lineages_inv :: "codec \<Rightarrow> db \<Rightarrow> bool" where
  "lineages_inv c d \<longleftrightarrow>
     (\<forall>gid l. lineages d gid = Some l \<longrightarrow> chained c (revisions d) gid l)
     \<and> (\<forall>gid n. lineages d gid = None \<longrightarrow> revisions d (gid, n) = None)
     \<and> (\<forall>gid gid' l l'. lineages d gid = Some l \<and> lineages d gid' = Some l' \<and> lin_status l = Active \<and> lin_status l' = Active
          \<and> lin_grantor l = lin_grantor l' \<and> lin_grantee l = lin_grantee l' \<longrightarrow> gid = gid')"

lemma lineages_invD:
  assumes "lineages_inv c d"
  shows "lineages d gid = Some l \<Longrightarrow> chained c (revisions d) gid l" and "lineages d gid = None \<Longrightarrow> revisions d (gid, n) = None"
    and "lineages d gid = Some l \<Longrightarrow> lineages d gid' = Some l' \<Longrightarrow> lin_status l = Active \<Longrightarrow> lin_status l' = Active
      \<Longrightarrow> lin_grantor l = lin_grantor l' \<Longrightarrow> lin_grantee l = lin_grantee l' \<Longrightarrow> gid = gid'"
  using assms unfolding lineages_inv_def by blast+

lemma stored_new:
  assumes "authentic c g" and "lin_grantor l = grantor (sg_payload g)" "lin_grantee l = grantee (sg_payload g)"
  shows "stored c (grant_id (sg_payload g)) (grant_revision (sg_payload g)) l (revision_of t g)"
  using assms by (auto simp: stored_def authentic_def row_matches_def revision_of_def Let_def)

lemma stored_cong:
  "lin_grantor l = lin_grantor l' \<Longrightarrow> lin_grantee l = lin_grantee l' \<Longrightarrow> stored c gid n l r = stored c gid n l' r"
  by (simp add: stored_def row_matches_def)

lemma chained_cong:
  "(\<And>n. revs' (gid, n) = revs (gid, n)) \<Longrightarrow> chained c revs' gid l = chained c revs gid l"
  by (simp add: chained_def)

lemma revision_of_sel [simp]:
  "rev_status (revision_of t g) = grant_status_of (sg_payload g)" "rev_previous (revision_of t g) = grant_previous (sg_payload g)"
  "rev_updated_at (revision_of t g) = grant_updated_at (sg_payload g)" "rev_digest (revision_of t g) = sg_digest g"
  "rev_cose (revision_of t g) = sg_representation g"
  by (simp_all add: revision_of_def Let_def)

lemma lineage_of_sel [simp]:
  "lin_status (lineage_of g) = Active" "lin_grantor (lineage_of g) = grantor (sg_payload g)"
  "lin_grantee (lineage_of g) = grantee (sg_payload g)" "lin_revision (lineage_of g) = 1" "lin_digest (lineage_of g) = sg_digest g"
  "lin_account (lineage_of g) = sg_account g" "lin_role (lineage_of g) = sg_role g"
  by (simp_all add: lineage_of_def)

lemma no_active_pair:
  assumes "active_pair d a b = None" "lineages d gid = Some l" "lin_status l = Active" "lin_grantor l = a"
  shows "lin_grantee l \<noteq> b"
  using assms map_of_SomeD [OF assms(2)] by (auto simp: active_pair_def find_None_iff)

lemma chained_first:
  assumes b: "begins c g t d d'" and none: "\<forall>n. revisions d (grant_id (sg_payload g), n) = None"
  shows "chained c (revisions d') (grant_id (sg_payload g)) (lineage_of g)"
proof -
  let ?gid = "grant_id (sg_payload g)"
  have r: "revisions d' (?gid, n) = (if n = 1 then Some (revision_of t g) else None)" for n
    using b none by (auto simp: begins_def revision_key_def)
  have "stored c ?gid 1 (lineage_of g) (revision_of t g)"
    using stored_new [of c g "lineage_of g" t] b by (simp add: begins_def)
  with b r show ?thesis by (auto simp: chained_def begins_def)
qed

lemma chained_next:
  assumes k: "continues c g t l r d d'" and inv: "chained c (revisions d) (grant_id (sg_payload g)) l"
  shows "chained c (revisions d') (grant_id (sg_payload g)) (l\<lparr>lin_revision := grant_revision (sg_payload g),
     lin_digest := sg_digest g, lin_status := grant_status_of (sg_payload g)\<rparr>)"
proof -
  let ?gid = "grant_id (sg_payload g)" and ?n = "lin_revision l" and ?new = "revision_of t g"
  let ?l = "l\<lparr>lin_revision := grant_revision (sg_payload g), lin_digest := sg_digest g, lin_status := grant_status_of (sg_payload g)\<rparr>"
  have s: "succeeds_row (sg_payload g) l r" "revisions d (?gid, ?n) = Some r" "authentic c g" using k by (auto simp: continues_def)
  then have n: "grant_revision (sg_payload g) = ?n + 1" by (simp add: succeeds_row_def)
  have at: "revisions d' (?gid, m) = (if m = ?n + 1 then Some ?new else revisions d (?gid, m))" for m
    using k n by (auto simp: continues_def revision_key_def)
  have "stored c ?gid (?n + 1) ?l ?new"
    using stored_new [of c g ?l t] s n by (simp add: succeeds_row_def)
  moreover have "follows r ?new" using inv s by (auto simp: chained_def follows_def succeeds_row_def)
  moreover have "stored c gid m ?l x = stored c gid m l x" for gid m x by (rule stored_cong) simp_all
  moreover have "revisions d (?gid, 2 + ?n) = None" using inv unfolding chained_def by (metis add_le_same_cancel2 not_numeral_le_zero)
  ultimately show ?thesis using inv s(2) n unfolding chained_def at
    by (auto split: if_splits)
qed


text \<open>
  A lineage of the grantor has an entry in the outbox for each revision, and no entry has been tried before all
  earlier ones were acknowledged. (An entry may be blocked untried, when its account is closed.)
\<close>

definition tried :: "grant_publication_row \<Rightarrow> bool" where
  "tried row \<longleftrightarrow> gp_lease row \<noteq> None \<or> gp_state row = Retry \<or> gp_state row = Acknowledged"

definition publications_inv :: "db \<Rightarrow> bool" where
  "publications_inv d \<longleftrightarrow> keyed (grant_publications d)
     \<and> (\<forall>gid n. grant_pubs d (gid, n) \<noteq> None \<longleftrightarrow>
          (\<exists>l. lineages d gid = Some l \<and> lin_role l = Grantor \<and> 1 \<le> n \<and> n \<le> lin_revision l))
     \<and> (\<forall>gid n row m prior. grant_pubs d (gid, n) = Some row \<and> tried row
          \<and> m < n \<and> grant_pubs d (gid, m) = Some prior \<longrightarrow> gp_state prior = Acknowledged)"

definition grants_inv :: "codec \<Rightarrow> db \<Rightarrow> bool" where
  "grants_inv c d \<longleftrightarrow> lineages_inv c d \<and> publications_inv d"

lemma publications_invD:
  assumes "publications_inv d"
  shows "keyed (grant_publications d)"
    and "grant_pubs d (gid, n) \<noteq> None \<longleftrightarrow> (\<exists>l. lineages d gid = Some l \<and> lin_role l = Grantor \<and> 1 \<le> n \<and> n \<le> lin_revision l)"
    and "grant_pubs d (gid, n) = Some row \<Longrightarrow> tried row \<Longrightarrow> m < n \<Longrightarrow>
      grant_pubs d (gid, m) = Some prior \<Longrightarrow> gp_state prior = Acknowledged"
  using assms unfolding publications_inv_def by blast+

lemma publications_invI:
  assumes "keyed (grant_publications d)"
    and "\<And>gid n. grant_pubs d (gid, n) \<noteq> None \<longleftrightarrow> (\<exists>l. lineages d gid = Some l \<and> lin_role l = Grantor \<and> 1 \<le> n \<and> n \<le> lin_revision l)"
    and "\<And>gid n row m prior. grant_pubs d (gid, n) = Some row \<Longrightarrow> tried row \<Longrightarrow> m < n \<Longrightarrow>
      grant_pubs d (gid, m) = Some prior \<Longrightarrow> gp_state prior = Acknowledged"
  shows "publications_inv d"
  using assms unfolding publications_inv_def by blast

lemma lineages_inv_begins:
  assumes b: "begins c g t d d'" and i: "lineages_inv c d"
  shows "lineages_inv c d'"
proof -
  let ?gid = "grant_id (sg_payload g)"
  note inv = lineages_invD [OF i]
  have fresh: "lineages d ?gid = None" using b by (simp add: begins_def)
  then have none: "\<forall>n. revisions d (?gid, n) = None" using inv(2) by blast
  have l: "lineages d' = (lineages d)(?gid \<mapsto> lineage_of g)" using b by (simp add: begins_def)
  have other: "revisions d' (gid, n) = revisions d (gid, n)" if "gid \<noteq> ?gid" for gid n
    using b that by (simp add: begins_def revision_key_def)
  have "chained c (revisions d') gid x" if "lineages d' gid = Some x" for gid x
  proof (cases "gid = ?gid")
    case True
    with that l chained_first [OF b none] show ?thesis by auto
  next
    case False
    with that l have "chained c (revisions d) gid x" by (intro inv(1)) simp
    with chained_cong [of "revisions d'" gid "revisions d" c x] other [OF False] show ?thesis by blast
  qed
  moreover have "revisions d' (gid, n) = None" if "lineages d' gid = None" for gid n
    using that l other [of gid n] inv(2) [of gid n] by (cases "gid = ?gid") simp_all
  moreover have "gid = gid'" if "lineages d' gid = Some x" "lineages d' gid' = Some y" "lin_status x = Active" "lin_status y = Active"
      "lin_grantor x = lin_grantor y" "lin_grantee x = lin_grantee y" for gid gid' x y
  proof -
    have pair: False if "lineages d h = Some w" "lin_status w = Active" "lin_grantor w = grantor (sg_payload g)"
        "lin_grantee w = grantee (sg_payload g)" for h w
      using no_active_pair [of d _ _ h w] b that by (auto simp: begins_def)
    show ?thesis
      using that l inv(3) [of gid x gid' y] pair [of gid x] pair [of gid' y] by (auto split: if_splits)
  qed
  ultimately show ?thesis unfolding lineages_inv_def by blast
qed

lemma lineages_inv_continues:
  assumes k: "continues c g t l r d d'" and i: "lineages_inv c d"
  shows "lineages_inv c d'"
proof -
  let ?gid = "grant_id (sg_payload g)"
  let ?l = "l\<lparr>lin_revision := grant_revision (sg_payload g), lin_digest := sg_digest g, lin_status := grant_status_of (sg_payload g)\<rparr>"
  note inv = lineages_invD [OF i]
  have lin: "lineages d ?gid = Some l" "lin_status l = Active" and l: "lineages d' = (lineages d)(?gid \<mapsto> ?l)"
    using k by (simp_all add: continues_def succeeds_row_def)
  have other: "revisions d' (gid, n) = revisions d (gid, n)" if "gid \<noteq> ?gid" for gid n
    using k that by (simp add: continues_def revision_key_def)
  have "chained c (revisions d') gid x" if "lineages d' gid = Some x" for gid x
  proof (cases "gid = ?gid")
    case True
    with that l chained_next [OF k inv(1) [OF lin(1)]] show ?thesis by auto
  next
    case False
    with that l have "chained c (revisions d) gid x" by (intro inv(1)) simp
    with chained_cong [of "revisions d'" gid "revisions d" c x] other [OF False] show ?thesis by blast
  qed
  moreover have "revisions d' (gid, n) = None" if "lineages d' gid = None" for gid n
    using that l other [of gid n] inv(2) [of gid n] by (cases "gid = ?gid") simp_all
  moreover have "gid = gid'" if "lineages d' gid = Some x" "lineages d' gid' = Some y" "lin_status x = Active" "lin_status y = Active"
      "lin_grantor x = lin_grantor y" "lin_grantee x = lin_grantee y" for gid gid' x y
  proof -
    have "\<exists>v. lineages d h = Some v \<and> lin_status v = Active \<and> lin_grantor v = lin_grantor w \<and> lin_grantee v = lin_grantee w"
      if "lineages d' h = Some w" "lin_status w = Active" for h w
      using that l lin by (cases "h = ?gid") auto
    from this [OF that(1,3)] this [OF that(2,4)] that(5,6) inv(3) show ?thesis by metis
  qed
  ultimately show ?thesis unfolding lineages_inv_def by blast
qed

lemma publications_inv_announces:
  assumes i: "publications_inv d" and a: "announces g d d'"
    and l: "lineages d' = (lineages d)(grant_id (sg_payload g) \<mapsto> x)" "lin_role x = Grantor" "lin_revision x = grant_revision (sg_payload g)"
    and old: "grant_revision (sg_payload g) = 1 \<and> lineages d (grant_id (sg_payload g)) = None
      \<or> (\<exists>y. lineages d (grant_id (sg_payload g)) = Some y \<and> lin_role y = Grantor \<and> 1 \<le> lin_revision y
          \<and> grant_revision (sg_payload g) = lin_revision y + 1)"
  shows "publications_inv d'"
proof -
  let ?gid = "grant_id (sg_payload g)" and ?n = "grant_revision (sg_payload g)"
  obtain t z where p: "grant_publications d' = AList.update (?gid, ?n) (new_grant_publication t z) (grant_publications d)"
    using a by (auto simp: announces_def revision_key_def)
  have pub: "grant_pubs d' k = (if k = (?gid, ?n) then Some (new_grant_publication t z) else grant_pubs d k)" for k
    by (simp add: p)
  note has = publications_invD(2) [OF i]
  have has': "grant_pubs d' (gid, n) \<noteq> None \<longleftrightarrow> (\<exists>l. lineages d' gid = Some l \<and> lin_role l = Grantor \<and> 1 \<le> n \<and> n \<le> lin_revision l)" for gid n
  proof (cases "gid = ?gid")
    case True
    then show ?thesis using has [of ?gid n] l old by (auto simp: pub)
  next
    case False
    then show ?thesis using has [of gid n] l by (auto simp: pub)
  qed
  have top: "n \<le> ?n" if "grant_pubs d (?gid, n) = Some row" for n row
    using has [of ?gid n] that old by auto
  have "gp_state prior = Acknowledged" if "grant_pubs d' (gid, n) = Some row" "tried row"
      "m < n" "grant_pubs d' (gid, m) = Some prior" for gid n row m prior
  proof -
    have new: "(gid, n) \<noteq> (?gid, ?n)" using that(1,2) by (auto simp: pub new_grant_publication_def tried_def)
    have r: "grant_pubs d (gid, n) = Some row" using that(1) unfolding pub if_not_P [OF new] .
    then have old: "(gid, m) \<noteq> (?gid, ?n)" using top that(3) by fastforce
    have "grant_pubs d (gid, m) = Some prior" using that(4) unfolding pub if_not_P [OF old] .
    from publications_invD(3) [OF i r that(2,3) this] show ?thesis .
  qed
  from publications_invI [OF _ has' this] publications_invD(1) [OF i] show ?thesis by (simp add: p)
qed

lemma publications_inv_row:
  assumes i: "publications_inv d" and same: "lineages d' = lineages d" and row: "grant_pubs d k = Some row"
    and o: "open_publication (gp_state row)"
    and before: "\<forall>m prior. grant_pubs d (fst k, m) = Some prior \<and> m < snd k \<longrightarrow> gp_state prior = Acknowledged"
    and p: "grant_publications d' = AList.update k row' (grant_publications d)"
  shows "publications_inv d'"
proof -
  have pub: "grant_pubs d' = (grant_pubs d)(k \<mapsto> row')" by (simp add: p)
  have "(grant_pubs d' (gid, n) \<noteq> None) = (grant_pubs d (gid, n) \<noteq> None)" for gid n using row by (simp add: pub)
  then have has': "grant_pubs d' (gid, n) \<noteq> None \<longleftrightarrow> (\<exists>l. lineages d' gid = Some l \<and> lin_role l = Grantor \<and> 1 \<le> n \<and> n \<le> lin_revision l)" for gid n
    using publications_invD(2) [OF i, of gid n] unfolding same by blast
  have "gp_state prior = Acknowledged" if "grant_pubs d' (gid, n) = Some r" "tried r"
      "m < n" "grant_pubs d' (gid, m) = Some prior" for gid n r m prior
  proof (cases "(gid, n) = k")
    case True
    then have "(gid, m) \<noteq> k" using that(3) by auto
    then have "grant_pubs d (gid, m) = Some prior" using that(4) by (simp add: pub)
    with before that(3) True show ?thesis by auto
  next
    case False
    then have r: "grant_pubs d (gid, n) = Some r" using that(1) by (simp add: pub)
    have "(gid, m) \<noteq> k"
    proof
      assume "(gid, m) = k"
      then have "gp_state row = Acknowledged" using publications_invD(3) [OF i r that(2,3)] row by blast
      with o show False by (simp add: open_publication_def)
    qed
    then have "grant_pubs d (gid, m) = Some prior" using that(4) by (simp add: pub)
    from publications_invD(3) [OF i r that(2,3) this] show ?thesis .
  qed
  from publications_invI [OF _ has' this] publications_invD(1) [OF i] show ?thesis by (simp add: p)
qed

lemma map_of_keyed: "keyed t \<Longrightarrow> (k, v) \<in> set t \<Longrightarrow> map_of t k = Some v"
  by (simp add: keyed_def)

lemma publications_inv_leases:
  assumes "publications_inv d" "unchanged d d'" "leases_publication d d'"
  shows "publications_inv d'"
proof -
  obtain k row row' where l: "(k, row) \<in> set (grant_publications d)" "open_publication (gp_state row)"
      "\<forall>m prior. grant_pubs d (fst k, m) = Some prior \<and> m < snd k \<longrightarrow> gp_state prior = Acknowledged"
      "grant_publications d' = AList.update k row' (grant_publications d)"
    using assms(3) unfolding leases_publication_def by blast
  from publications_inv_row [OF assms(1) _ map_of_keyed [OF publications_invD(1) [OF assms(1)] l(1)] l(2,3,4)] assms(2)
  show ?thesis by (simp add: unchanged_def)
qed

lemma publications_inv_settles:
  assumes "publications_inv d" "unchanged d d'" "settles_publication d d'"
  shows "publications_inv d'"
proof -
  obtain k row row' where l: "grant_pubs d k = Some row" "open_publication (gp_state row)" "gp_lease row \<noteq> None"
      "grant_publications d' = AList.update k row' (grant_publications d)"
    using assms(3) unfolding settles_publication_def by blast
  have "\<forall>m prior. grant_pubs d (fst k, m) = Some prior \<and> m < snd k \<longrightarrow> gp_state prior = Acknowledged"
    using publications_invD(3) [OF assms(1), of "fst k" "snd k" row] l(1,3) by (auto simp: tried_def)
  from publications_inv_row [OF assms(1) _ l(1,2) this l(4)] assms(2) show ?thesis by (simp add: unchanged_def)
qed


text \<open>Statements that block open entries or take back leases.\<close>

definition withdraws :: "db \<Rightarrow> db \<Rightarrow> bool" where
  "withdraws d d' \<longleftrightarrow> (\<exists>P f n. grant_publications d' = update_rows P f n (grant_publications d)
     \<and> (\<forall>k row i. P k row \<longrightarrow> gp_lease (f i row) = None
          \<and> (gp_state (f i row) = gp_state row \<or> open_publication (gp_state row) \<and> gp_state (f i row) = Blocked)))"

lemma withdraws_row:
  assumes "withdraws d d'" and "grant_pubs d' k = Some row'"
  obtains row where "grant_pubs d k = Some row" "tried row' \<Longrightarrow> tried row" "gp_state row = Acknowledged \<Longrightarrow> gp_state row' = Acknowledged"
proof -
  obtain P f n where p: "grant_publications d' = update_rows P f n (grant_publications d)"
    and f: "\<And>k row i. P k row \<Longrightarrow> gp_lease (f i row) = None
          \<and> (gp_state (f i row) = gp_state row \<or> open_publication (gp_state row) \<and> gp_state (f i row) = Blocked)"
    using assms(1) unfolding withdraws_def by blast
  obtain j where "grant_pubs d' k = map_option (\<lambda>v. if P k v then f j v else v) (grant_pubs d k)"
    unfolding p using map_of_update_rows [of P f n "grant_publications d" k] by blast
  with assms(2) obtain row where row: "grant_pubs d k = Some row" "row' = (if P k row then f j row else row)" by auto
  from row(2) f [of k row j] that [OF row(1)] show thesis
    by (cases "P k row") (auto simp: tried_def open_publication_def)
qed

lemma publications_inv_withdraws:
  assumes i: "publications_inv d" and u: "unchanged d d'" and w: "withdraws d d'"
  shows "publications_inv d'"
proof (rule publications_invI)
  obtain P f n where p: "grant_publications d' = update_rows P f n (grant_publications d)" using w unfolding withdraws_def by blast
  show "keyed (grant_publications d')" using publications_invD(1) [OF i] by (simp add: p)
  have "grant_pubs d' k = None \<longleftrightarrow> grant_pubs d k = None" for k by (simp add: p)
  with publications_invD(2) [OF i] u show "grant_pubs d' (gid, n) \<noteq> None
      \<longleftrightarrow> (\<exists>l. lineages d' gid = Some l \<and> lin_role l = Grantor \<and> 1 \<le> n \<and> n \<le> lin_revision l)" for gid n
    by (simp add: unchanged_def)
next
  fix gid n row m prior
  assume a: "grant_pubs d' (gid, n) = Some row" "tried row" "m < n" "grant_pubs d' (gid, m) = Some prior"
  obtain row0 where r: "grant_pubs d (gid, n) = Some row0" "tried row0" using withdraws_row [OF w a(1)] a(2) by metis
  obtain prior0 where q: "grant_pubs d (gid, m) = Some prior0" "gp_state prior0 = Acknowledged \<Longrightarrow> gp_state prior = Acknowledged"
    using withdraws_row [OF w a(4)] by metis
  from q(2) publications_invD(3) [OF i r a(3) q(1)] show "gp_state prior = Acknowledged" .
qed

lemma close_account_withdraws:
  assumes "close_account fx ax nows clks session address d = Inr (u, d')"
  shows "unchanged d d' \<and> withdraws d d'"
proof (cases "d' = d")
  case True
  have "withdraws d d" unfolding withdraws_def by (intro exI [of _ "\<lambda>_ _. False"]) simp
  with True show ?thesis by (simp add: unchanged_def)
next
  case False
  let ?account = "session_account session"
  from False assms obtain dm row where "close_tables fx clks ?account (session_did session) d = Inr dm"
    and d': "d' = dm\<lparr>provider_accounts := AList.update ?account row (provider_accounts dm)\<rparr>"
    by (auto simp: close_account_def Let_def split: if_splits option.splits)
  then obtain d1 d2 d3 where d1: "cancel_work fx (clks 0) ?account d = Inr d1" and d2: "block_statuses fx (clks 1) ?account d1 = Inr d2"
    and d3: "block_grants fx (clks 2) ?account d2 = Inr d3" and dm: "empty_mailbox fx (session_did session) d3 = Inr dm"
    by (auto simp: close_tables_def)
  have "same_grants d d2" using d1 d2
    by (auto simp: cancel_work_def block_statuses_def same_grants_def Let_def dest!: perform_rows_Inr)
  moreover have "unchanged d2 d3 \<and> withdraws d2 d3"
    using d3 unfolding block_grants_def Let_def withdraws_def
    by (auto simp: unchanged_def blocked_grant_def dest!: perform_rows_Inr intro!: exI)
  moreover have "same_grants d3 dm" using dm
    by (auto simp: empty_mailbox_def drop_bodies_def drop_blobs_def same_grants_def Let_def dest!: perform_rows_Inr)
  ultimately show ?thesis by (simp add: d' same_grants_def unchanged_def withdraws_def)
qed

lemma free_leases_withdraws:
  assumes "free_leases fx ax d = Inr d'"
  shows "unchanged d d' \<and> withdraws d d'"
proof -
  obtain d1 d2 where d1: "free_grants fx (leased_tokens ax) d = Inr d1" and d2: "free_work fx (leased_tokens ax) d1 = Inr d2"
    and d': "free_statuses fx (leased_tokens ax) d2 = Inr d'"
    using assms by (auto simp: free_leases_def)
  have "unchanged d d1 \<and> withdraws d d1"
    using d1 unfolding free_grants_def Let_def withdraws_def by (auto simp: unchanged_def dest!: perform_rows_Inr intro!: exI)
  moreover have "same_grants d1 d'" using d2 d'
    by (auto simp: free_work_def free_statuses_def same_grants_def Let_def dest!: perform_rows_Inr)
  ultimately show ?thesis by (simp add: same_grants_def unchanged_def withdraws_def)
qed

lemma publications_inv_same:
  assumes "publications_inv d" and "grant_publications d' = grant_publications d"
    and "\<And>gid n. grant_pubs d' (gid, n) \<noteq> None \<longleftrightarrow> (\<exists>l. lineages d' gid = Some l \<and> lin_role l = Grantor \<and> 1 \<le> n \<and> n \<le> lin_revision l)"
  shows "publications_inv d'"
  using publications_invI [OF _ assms(3)] publications_invD(1,3) [OF assms(1)] unfolding assms(2) by blast

lemma lineages_inv_cong:
  assumes "grant_lineages d' = grant_lineages d" "grant_revisions d' = grant_revisions d"
  shows "lineages_inv c d' = lineages_inv c d"
  unfolding lineages_inv_def assms by (rule refl)

lemma publications_inv_cong:
  assumes "grant_lineages d' = grant_lineages d" "grant_publications d' = grant_publications d"
  shows "publications_inv d' = publications_inv d"
  unfolding publications_inv_def assms by (rule refl)

lemma same_grants_inv: "same_grants d d' \<Longrightarrow> grants_inv c d' = grants_inv c d"
  unfolding grants_inv_def using lineages_inv_cong [of d' d c] publications_inv_cong [of d' d] by (simp add: same_grants_def)

lemma unchanged_lineages_inv: "unchanged d d' \<Longrightarrow> lineages_inv c d' = lineages_inv c d"
  using lineages_inv_cong [of d' d c] by (simp add: unchanged_def)

text \<open>What a committed transaction does to the store.\<close>

inductive grant_change :: "codec \<Rightarrow> db \<Rightarrow> db \<Rightarrow> bool" for c where
  change_begins: "begins c g t d d' \<Longrightarrow> sg_role g = Grantor \<and> announces g d d'
     \<or> sg_role g = Grantee \<and> grant_publications d' = grant_publications d \<Longrightarrow> grant_change c d d'"
| change_continues: "continues c g t l r d d' \<Longrightarrow> lin_role l = Grantor \<and> announces g d d'
     \<or> lin_role l = Grantee \<and> grant_publications d' = grant_publications d \<Longrightarrow> grant_change c d d'"
| change_leases: "unchanged d d' \<Longrightarrow> leases_publication d d' \<Longrightarrow> grant_change c d d'"
| change_settles: "unchanged d d' \<Longrightarrow> settles_publication d d' \<Longrightarrow> grant_change c d d'"
| change_withdraws: "unchanged d d' \<Longrightarrow> withdraws d d' \<Longrightarrow> grant_change c d d'"
| change_nothing: "same_grants d d' \<Longrightarrow> grant_change c d d'"

lemma update_change: "appendAuthoritativeUpdate sv clk input d = Inr (u, d') \<Longrightarrow> grant_change (gs_codec sv) d d'"
  using update_effect change_continues [of "gs_codec sv" "up_revision input" "clk 0"] by blast

lemma receive_change:
  assumes "acceptReceivedRevision sv clk g d = Inr (x, d')"
  shows "grant_change (gs_codec sv) d d'"
proof -
  consider "same_grants d d'"
    | "begins (gs_codec sv) (g\<lparr>sg_role := Grantee\<rparr>) (clk 0) d d'" "grant_publications d' = grant_publications d"
    | l r where "continues (gs_codec sv) (g\<lparr>sg_role := Grantee\<rparr>) (clk 0) l r d d'" "lin_role l = Grantee"
        "grant_publications d' = grant_publications d"
    using received_effect [OF assms] by blast
  then show ?thesis
  proof cases
    case 1
    then show ?thesis by (rule change_nothing)
  next
    case 2
    then show ?thesis by (intro change_begins [OF 2(1)]) simp
  next
    case 3
    then show ?thesis by (intro change_continues [OF 3(1)]) simp
  qed
qed

lemma step_grant_change:
  assumes "grant_step c d d'"
  shows "grant_change c d d'"
  using assms
proof (cases rule: grant_step.cases)
  case (grant_issue sv clk g consent destination u)
  from issue_effect [OF grant_issue(2)] grant_issue(1) show ?thesis
    by (intro change_begins [of c g "clk 0"]) (auto simp: announces_def)
next
  case (grant_revoke sv clk input u)
  then have "appendAuthoritativeUpdate sv clk input d = Inr (u, d')"
    by (simp add: appendAuthoritativeRevocation_def)
  with grant_revoke(1) update_change show ?thesis by blast
next
  case (grant_claim sv locked token ms now clk claim)
  from claim_effect [OF grant_claim(2)] show ?thesis
    by (auto intro: change_leases change_nothing simp: same_grants_def)
next
  case (grant_acknowledge fx clk res etag u)
  then show ?thesis using finishPublication_effect by (auto simp: acknowledgePublication_def intro: change_settles)
next
  case (grant_retry fx clk res t u)
  then show ?thesis using finishPublication_effect by (auto simp: retryPublication_def intro: change_settles)
next
  case (grant_block fx clk res u)
  then show ?thesis using finishPublication_effect by (auto simp: blockPublication_def intro: change_settles)
next
  case (grant_close fx ax nows clks session address u)
  then show ?thesis using close_account_withdraws change_withdraws by blast
next
  case (grant_free fx ax)
  then show ?thesis using free_leases_withdraws change_withdraws by blast
qed (auto intro: update_change receive_change change_nothing)

lemma grant_change_inv:
  assumes "grant_change c d d'" and "grants_inv c d"
  shows "grants_inv c d'"
  using assms(1)
proof cases
  case (change_begins g t)
  let ?gid = "grant_id (sg_payload g)"
  have b: "lineages d' = (lineages d)(?gid \<mapsto> lineage_of g)" "lineages d ?gid = None" "grant_revision (sg_payload g) = 1"
    using change_begins(1) by (simp_all add: begins_def)
  have i: "publications_inv d" using assms(2) by (simp add: grants_inv_def)
  have "publications_inv d'"
  proof (cases "sg_role g")
    case Grantor
    with change_begins(2) publications_inv_announces [OF i _ b(1)] b(2,3) show ?thesis by simp
  next
    case Grantee
    then have p: "grant_publications d' = grant_publications d" using change_begins(2) by simp
    have "grant_pubs d' (gid, n) \<noteq> None \<longleftrightarrow> (\<exists>l. lineages d' gid = Some l \<and> lin_role l = Grantor \<and> 1 \<le> n \<and> n \<le> lin_revision l)" for gid n
      using publications_invD(2) [OF i, of gid n] b Grantee unfolding p by auto
    from publications_inv_same [OF i p this] show ?thesis .
  qed
  with lineages_inv_begins [OF change_begins(1)] assms(2) show ?thesis by (simp add: grants_inv_def)
next
  case (change_continues g t l r)
  let ?gid = "grant_id (sg_payload g)"
  let ?l = "l\<lparr>lin_revision := grant_revision (sg_payload g), lin_digest := sg_digest g, lin_status := grant_status_of (sg_payload g)\<rparr>"
  have k: "lineages d' = (lineages d)(?gid \<mapsto> ?l)" "lineages d ?gid = Some l" "grant_revision (sg_payload g) = lin_revision l + 1"
    using change_continues(1) by (simp_all add: continues_def succeeds_row_def)
  have i: "publications_inv d" and c: "1 \<le> lin_revision l"
    using assms(2) lineages_invD(1) [OF _ k(2)] by (auto simp: grants_inv_def chained_def)
  have "publications_inv d'"
  proof (cases "lin_role l")
    case Grantor
    with change_continues(2) publications_inv_announces [OF i _ k(1)] k(2,3) c show ?thesis by simp
  next
    case Grantee
    then have p: "grant_publications d' = grant_publications d" using change_continues(2) by simp
    have "grant_pubs d' (gid, n) \<noteq> None \<longleftrightarrow> (\<exists>l. lineages d' gid = Some l \<and> lin_role l = Grantor \<and> 1 \<le> n \<and> n \<le> lin_revision l)" for gid n
      using publications_invD(2) [OF i, of gid n] k Grantee unfolding p by auto
    from publications_inv_same [OF i p this] show ?thesis .
  qed
  with lineages_inv_continues [OF change_continues(1)] assms(2) show ?thesis by (simp add: grants_inv_def)
next
  case change_leases
  with assms(2) publications_inv_leases unchanged_lineages_inv show ?thesis by (auto simp: grants_inv_def)
next
  case change_settles
  with assms(2) publications_inv_settles unchanged_lineages_inv show ?thesis by (auto simp: grants_inv_def)
next
  case change_withdraws
  with assms(2) publications_inv_withdraws unchanged_lineages_inv show ?thesis by (auto simp: grants_inv_def)
next
  case change_nothing
  with assms(2) same_grants_inv show ?thesis by blast
qed

lemma grants_inv_empty: "grants_inv c empty_db"
  by (simp add: grants_inv_def lineages_inv_def publications_inv_def empty_db_def)

lemma grants_inv_reachable:
  assumes "grants_reachable c d"
  shows "grants_inv c d"
  using assms unfolding grants_reachable_def
  by (induction rule: rtranclp_induct) (auto intro: grants_inv_empty grant_change_inv step_grant_change)

end
