(* ===== verification/GrantExample.thy ===== *)
theory GrantExample
  imports GrantLife EnvelopeTransport
begin

text \<open>
  Grant records on the wire, and a run of the grant store on concrete data: a provider receives the
  first revision of a grant and then its revocation, both signed.
\<close>

declare split_paired_All [simp del] split_paired_Ex [simp del] Status.decimal.simps [simp del]

section \<open>Signed grants\<close>

lemma nullable_sort [reorder]:
  "(case sorted_field v of Some (HBytes bs) \<Rightarrow> Some bs | _ \<Rightarrow> None) = (case v of Some (HBytes bs) \<Rightarrow> Some bs | _ \<Rightarrow> None)"
  "(case sorted_field v of Some (HInt i) \<Rightarrow> Some i | _ \<Rightarrow> None) = (case v of Some (HInt i) \<Rightarrow> Some i | _ \<Rightarrow> None)"
  by (cases v; (cases "the v")?; simp)+

lemma read_grant_sort:
  assumes "list_of (get h ''scope'') \<noteq> []"
  shows "read_grant (sort_members h) = read_grant h"
  using assms unfolding read_grant_def get_sort nullable_sort by (simp add: reorder hd_map o_def)

lemma read_grant_same:
  assumes "same_value (grant_object g) h"
  shows "read_grant h = g"
proof -
  have e: "sort_members (grant_object g) = sort_members h" using assms by (simp add: same_value_def)
  have "list_of (get (sort_members (grant_object g)) ''scope'') \<noteq> []"
    by (simp add: reorder get_grant_object)
  then have "list_of (get h ''scope'') \<noteq> []" unfolding e by (simp add: reorder)
  from read_grant_sort [OF this] read_grant_sort [of "grant_object g"] show ?thesis
    by (simp add: e [symmetric] get_grant_object read_grant_object)
qed

lemma grant_type: "Grant \<in> set signed_types"
  by (simp add: signed_types_def)

lemma inspect_signed_grant:
  assumes "cbor_library (codec_lib c)" and "web_crypto sc resolve keyId privateKey publicKey signer"
    and "signPayload (codec_lib c) (codec_env c) Grant (of_hail (grant_object g)) signer = Inr rep"
  shows "inspectGrant c rep = Inr g"
proof -
  have t: "signed_transport (codec_lib c) signer (createWebCryptoVerifier resolve sc)"
    using assms(1) web_crypto.adapters_belong_together [OF assms(2)] by (rule signed_transport.intro)
  obtain object where o: "verifySignedPayload (codec_lib c) (codec_env c) Grant rep (createWebCryptoVerifier resolve sc) = Inr object"
      "same_value (grant_object g) (object_payload object)"
    using signed_transport.verify_of_sign [OF t grant_type unique_grant_object assms(3)] by blast
  have "inspectSignedPayload (codec_lib c) (codec_env c) Grant rep = Inr object"
    using o(1) by (auto simp: verifySignedPayload_def inspectSignedPayload_def split: if_splits)
  moreover have "read_grant (object_payload object) = g"
    by (rule read_grant_same [OF o(2)])
  ultimately show ?thesis by (simp add: inspectGrant_def)
qed

section \<open>Two revisions\<close>

definition grant_1 :: HailGrant where
  "grant_1 = \<lparr>grant_id = message_1, grant_revision = 1, grant_previous = None,
     grantor = alice, grantee = bob, grant_scope = [lit ''news''], grant_status_of = Active,
     grant_issued_at = 100, grant_updated_at = 100, grant_expires_at = None, consent_address = address_1,
     consent_binding_hash = \<lparr>digest_value = replicate 32 1\<rparr>, consent_profile_hash = \<lparr>digest_value = replicate 32 2\<rparr>\<rparr>"

definition grant_2 :: HailGrant where
  "grant_2 = grant_1\<lparr>grant_revision := 2, grant_previous := Some (replicate 32 7), grant_status_of := Revoked,
     grant_updated_at := 200\<rparr>"

definition signer_of :: "jstring \<Rightarrow> HailSigner" where
  "signer_of k = \<lparr>signer_keyId = k, sign = (\<lambda>data. Inr (JUint8Array (keyed_tag example_key data)))\<rparr>"

definition signed_object :: "HailPayloadType \<Rightarrow> hail_value \<Rightarrow> jstring \<Rightarrow> bytes" where
  "signed_object t h k =
     (let protectedBytes = enc (header_item (contentType (the (SIGNED_PROFILES t))) (utf8_encode k));
          payloadBytes = enc (hail_cbor (sort_members h)) in
      enc (sign1_item protectedBytes payloadBytes
        (keyed_tag example_key (signatureStructure reference_cborg protectedBytes payloadBytes))))"

definition signed_grant :: "HailGrant \<Rightarrow> bytes" where
  "signed_grant g = signed_object Grant (grant_object g) alice_key_id"

text \<open>The grantee's address binding and sender profile, to which the grantor consents.\<close>

definition binding_object :: hail_value where
  "binding_object = HMap [(lit ''version'', HInt 2), (lit ''type'', HText (lit ''hail.address-binding'')),
     (lit ''address'', HText address_1), (lit ''did'', HText bob), (lit ''issued_at'', HInt 50),
     (lit ''key_id'', HText (key_id_of bob HailIdentity))]"

definition profile_object :: hail_value where
  "profile_object = HMap [(lit ''type'', HText (lit ''hail.sender-profile'')), (lit ''version'', HInt 1),
     (lit ''did'', HText bob), (lit ''revision'', HInt 1), (lit ''display_name'', HText (lit ''Bob'')),
     (lit ''categories'', HArray [HMap [(lit ''id'', HText (lit ''news'')), (lit ''label'', HText (lit ''Bob''))]]),
     (lit ''updated_at'', HInt 50), (lit ''key_id'', HText (key_id_of bob HailMessaging))]"

definition signed_binding :: bytes where
  "signed_binding = signed_object AddressBinding binding_object (key_id_of bob HailIdentity)"

definition signed_profile :: bytes where
  "signed_profile = signed_object SenderProfile profile_object (key_id_of bob HailMessaging)"

text \<open>A hash function that tells the representations apart.\<close>

definition grant_env :: validation_env where
  "grant_env = example_env\<lparr>sha256 := \<lambda>bs. if bs = signed_grant grant_1 then replicate 32 7
     else if bs = signed_binding then replicate 32 1 else if bs = signed_profile then replicate 32 2 else replicate 32 8\<rparr>"

definition grant_codec :: codec where
  "grant_codec = \<lparr>codec_lib = reference_cborg, codec_env = grant_env\<rparr>"

definition signable_grant :: "HailGrant \<Rightarrow> bool" where
  "signable_grant g \<longleftrightarrow> wf_grant example_env g \<and> grantor g = alice \<and> bulk (grant_object g) \<le> 4096 \<and> plain 33 (grant_object g)"

lemma grant_signable: "signable_grant grant_1" "signable_grant grant_2"
  unfolding signable_grant_def
  by (simp_all add: wf_grant_def grant_1_def grant_2_def example_ids safe_bounds news_category example_address)
    (simp_all add: grant_object_def nullable_def digest_object_def address_1_def status_text_def
      HAIL_MIN_INTEGER_def HAIL_MAX_INTEGER_def key_id_of_def alice_def lit_append [symmetric])


lemma wf_grant_env: "wf_grant grant_env g \<longleftrightarrow> wf_grant example_env g"
proof -
  have "hailAddress grant_env v q = hailAddress example_env v q" for v q
    by (simp add: hailAddress_def grant_env_def Let_def)
  then show ?thesis by (simp add: wf_grant_def)
qed

lemma sign_object:
  assumes "t \<in> set signed_types" "SIGNED_PROFILES t = Some p" "unique_keys h" "bulk h \<le> 4096"
    and "validatePayload env t (of_hail h) = Inr ()" "expectedKeyId t h = Inr k" "ascii_text k" "length k \<le> 48"
    and "length (contentType p) \<le> 40" "16384 \<le> maximumRepresentationBytes p"
  shows "signPayload reference_cborg env t (of_hail h) (signer_of k) = Inr (signed_object t h k)"
proof -
  let ?pay = "enc (hail_cbor (sort_members h))" and ?prot = "enc (header_item (contentType p) (utf8_encode k))"
  let ?s = "keyed_tag example_key (signatureStructure reference_cborg ?prot ?pay)"
  have "length ?pay \<le> 4096"
    using encodedSize_le_bulk [of h] assms(4) by (simp add: length_enc_hail)
  moreover have "length ?prot \<le> 208"
    using length_header_le [of "contentType p" "utf8_encode k"] assms(7-9) by (simp add: ascii_utf8)
  moreover have "length ?s = 64" by simp
  ultimately have "length (enc (sign1_item ?prot ?pay ?s)) \<le> maximumRepresentationBytes p"
    using length_sign1_le [of ?prot ?pay ?s] assms(10) by linarith
  then show ?thesis using assms
    by (subst reference.signPayload_iff [OF assms(1,3,2)]) (simp_all add: signer_of_def signed_object_def Let_def)
qed

lemma signer_crypto: "web_crypto example_subtle (\<lambda>_. Inr example_key) k example_key example_key (signer_of k)"
  by unfold_locales
    (auto simp: example_subtle_def example_key_def signer_of_def createWebCryptoSigner_def requireEd25519Key_def
      keyed_tag_def fun_eq_iff)

lemma inspect_object:
  assumes "signPayload reference_cborg env t (of_hail h) (signer_of k) = Inr rep" "t \<in> set signed_types" "unique_keys h"
  obtains object where "inspectSignedPayload reference_cborg env t rep = Inr object" "same_value h (object_payload object)"
    "verifySignedPayload reference_cborg env t rep (createWebCryptoVerifier (\<lambda>_. Inr example_key) example_subtle) = Inr object"
proof -
  have "signed_transport reference_cborg (signer_of k) (createWebCryptoVerifier (\<lambda>_. Inr example_key) example_subtle)"
    using reference.cbor_library_axioms web_crypto.adapters_belong_together [OF signer_crypto] by (rule signed_transport.intro)
  then obtain object where o: "same_value h (object_payload object)"
      "verifySignedPayload reference_cborg env t rep (createWebCryptoVerifier (\<lambda>_. Inr example_key) example_subtle) = Inr object"
    using signed_transport.verify_of_sign [OF _ assms(2,3,1)] by blast
  moreover have "inspectSignedPayload reference_cborg env t rep = Inr object"
    using o(2) by (auto simp: verifySignedPayload_def inspectSignedPayload_def split: if_splits)
  ultimately show thesis using that by blast
qed

lemma sign_grant:
  assumes "signable_grant g" and "wf_grant env g"
  shows "signPayload reference_cborg env Grant (of_hail (grant_object g)) (signer_of alice_key_id) = Inr (signed_grant g)"
proof -
  have o: "\<exists>kvs. grant_object g = HMap kvs" using grant_object_map by blast
  then have k: "expectedKeyId Grant (grant_object g) = Inr alice_key_id"
    using assms(1) by (simp add: expectedKeyId_Inr get_grant_object example_ids alice_key_id_def signable_grant_def)
  have "validatePayload env Grant (of_hail (grant_object g)) = Inr ()"
    by (rule validatePayload_signedI [OF _ _ o])
      (use assms in \<open>simp_all add: validate_by_type_def validateGrant_complete get_grant_object signed_types_def signable_grant_def\<close>)
  from sign_object [OF grant_type SIGNED_PROFILES.simps(3) unique_grant_object _ this k] alice_key_id(2,3) assms(1)
  show ?thesis by (simp add: signed_grant_def signable_grant_def)
qed

lemma inspect_grant: "signable_grant g \<Longrightarrow> inspectGrant grant_codec (signed_grant g) = Inr g"
  using inspect_signed_grant [of grant_codec, OF _ signer_crypto] sign_grant [of g grant_env] reference.cbor_library_axioms
  by (simp add: grant_codec_def wf_grant_env signable_grant_def)

lemma signed_grants_differ: "signed_grant grant_2 \<noteq> signed_grant grant_1"
proof
  assume "signed_grant grant_2 = signed_grant grant_1"
  then have "grant_2 = grant_1" using inspect_grant [OF grant_signable(1)] inspect_grant [OF grant_signable(2)] by simp
  then show False by (simp add: grant_2_def grant_1_def)
qed

lemma bob_key: "ascii_text (key_id_of bob r)" "length (key_id_of bob r) \<le> 48"
  using key_id_ascii [OF example_ids(2), of r] by simp_all

lemma hailAddress_env: "hailAddress grant_env v q = hailAddress example_env v q"
  by (simp add: hailAddress_def grant_env_def Let_def)

lemma valid_binding: "validatePayload grant_env AddressBinding (of_hail binding_object) = Inr ()"
proof (rule validatePayload_signedI)
  show "bulk binding_object \<le> 4096" "plain 33 binding_object"
    by (simp_all add: binding_object_def address_1_def key_id_of_def bob_def HAIL_MIN_INTEGER_def HAIL_MAX_INTEGER_def lit_append [symmetric])
  show "validate_by_type grant_env AddressBinding binding_object = Inr ()"
    by (simp add: hailAddress_path [of example_env "Some (HText address_1)", THEN iffD2, OF example_address] validate_by_type_def validateAddressBinding_def binding_object_def get_HMap hailAddress_env
        example_ids safe_bounds)
qed (simp_all add: binding_object_def get_HMap signed_types_def version_exempt_def)

lemma display_name_ok: "utf8_length (lit ''Bob'') = 3" "\<not> CONTROL_OR_FORMAT (lit ''Bob'')"
  by code_simp+

lemma valid_profile: "validatePayload grant_env SenderProfile (of_hail profile_object) = Inr ()"
proof (rule validatePayload_signedI)
  show "bulk profile_object \<le> 4096" "plain 33 profile_object"
    by (simp_all add: profile_object_def key_id_of_def bob_def HAIL_MIN_INTEGER_def HAIL_MAX_INTEGER_def lit_append [symmetric])
  have "[] < lit ''news''" by (simp add: lit_def)
  then show "validate_by_type grant_env SenderProfile profile_object = Inr ()"
    by (simp add: validate_by_type_def validateSenderProfile_def profile_object_def get_HMap example_ids safe_bounds profileText_def
        display_name_ok grant_env_def example_env_def Let_def check_sender_category_def check_category_texts_def news_category)
qed (simp_all add: profile_object_def get_HMap signed_types_def version_exempt_def)

lemma bulk_consent: "bulk binding_object \<le> 4096" "bulk profile_object \<le> 4096"
  by (simp_all add: binding_object_def profile_object_def address_1_def key_id_of_def bob_def lit_append [symmetric])

lemma consent_keys:
  "expectedKeyId AddressBinding binding_object = Inr (key_id_of bob HailIdentity)" "unique_keys binding_object"
  "expectedKeyId SenderProfile profile_object = Inr (key_id_of bob HailMessaging)" "unique_keys profile_object"
  by (simp_all add: expectedKeyId_Inr binding_object_def profile_object_def get_HMap example_ids)

lemma signed_consent_type: "AddressBinding \<in> set signed_types" "SenderProfile \<in> set signed_types"
  by (simp_all add: signed_types_def)

lemma inspect_binding:
  obtains object where "inspectSignedPayload reference_cborg grant_env AddressBinding signed_binding = Inr object"
    "same_value binding_object (object_payload object)"
proof -
  have "signPayload reference_cborg grant_env AddressBinding (of_hail binding_object) (signer_of (key_id_of bob HailIdentity)) = Inr signed_binding"
    unfolding signed_binding_def
    by (rule sign_object [OF signed_consent_type(1) SIGNED_PROFILES.simps(1) consent_keys(2) bulk_consent(1) valid_binding consent_keys(1)])
      (simp_all add: bob_key)
  from inspect_object [OF this signed_consent_type(1) consent_keys(2)] that show thesis by blast
qed

lemma inspect_profile:
  obtains object where "inspectSignedPayload reference_cborg grant_env SenderProfile signed_profile = Inr object"
    "same_value profile_object (object_payload object)"
proof -
  have "signPayload reference_cborg grant_env SenderProfile (of_hail profile_object) (signer_of (key_id_of bob HailMessaging)) = Inr signed_profile"
    unfolding signed_profile_def
    by (rule sign_object [OF signed_consent_type(2) SIGNED_PROFILES.simps(2) consent_keys(4) bulk_consent(2) valid_profile consent_keys(3)])
      (simp_all add: bob_key)
  from inspect_object [OF this signed_consent_type(2) consent_keys(4)] that show thesis by blast
qed

lemma representations_differ:
  "signed_binding \<noteq> signed_grant grant_1" "signed_profile \<noteq> signed_grant grant_1" "signed_profile \<noteq> signed_binding"
  "signed_binding \<noteq> signed_grant grant_2" "signed_profile \<noteq> signed_grant grant_2"
proof -
  obtain b where b: "inspectSignedPayload reference_cborg grant_env AddressBinding signed_binding = Inr b" by (rule inspect_binding)
  obtain p where p: "inspectSignedPayload reference_cborg grant_env SenderProfile signed_profile = Inr p" by (rule inspect_profile)
  have g: "\<exists>x. inspectSignedPayload reference_cborg grant_env Grant (signed_grant g) = Inr x" if "signable_grant g" for g
    using inspect_grant [OF that] by (auto simp: inspectGrant_def grant_codec_def)
  obtain g1 where g1: "inspectSignedPayload reference_cborg grant_env Grant (signed_grant grant_1) = Inr g1"
    using g [OF grant_signable(1)] by blast
  obtain g2 where g2: "inspectSignedPayload reference_cborg grant_env Grant (signed_grant grant_2) = Inr g2"
    using g [OF grant_signable(2)] by blast
  show "signed_binding \<noteq> signed_grant grant_1" "signed_binding \<noteq> signed_grant grant_2"
    using inspected_content [OF b SIGNED_PROFILES.simps(1) _ SIGNED_PROFILES.simps(3)] g1 g2 by auto
  show "signed_profile \<noteq> signed_grant grant_1" "signed_profile \<noteq> signed_grant grant_2"
    using inspected_content [OF p SIGNED_PROFILES.simps(2) _ SIGNED_PROFILES.simps(3)] g1 g2 by auto
  show "signed_profile \<noteq> signed_binding"
    using inspected_content [OF p SIGNED_PROFILES.simps(2) _ SIGNED_PROFILES.simps(1)] b by auto
qed

section \<open>The run\<close>

definition received_grant :: "HailGrant \<Rightarrow> SignedGrantRevisionInput" where
  "received_grant g = \<lparr>sg_account = lit ''b'', sg_role = Grantee, sg_payload = g, sg_representation = signed_grant g,
     sg_digest = sha256 grant_env (signed_grant g), sg_signing_key = lit ''k'', sg_evidence = no_evidence,
     sg_expectedServiceBase = None, sg_recipientEvidence = None, sg_recipientServiceBase = None\<rparr>"

definition grantee_account :: account_row where
  "grantee_account = \<lparr>acc_did = Some bob, acc_onboarding_state = ''active'', acc_verification_mode = Some ''public'',
     acc_closed_at = None\<rparr>"

definition grantee_db :: db where
  "grantee_db = empty_db\<lparr>provider_accounts := [(lit ''b'', grantee_account)]\<rparr>"

definition lenient_services :: grant_services where
  "lenient_services = \<lparr>gs_codec = grant_codec, gs_functions = open_functions, retainPublicGrantAuthority = (\<lambda>_ _ _. Inr ())\<rparr>"

definition granted_db :: db where
  "granted_db = grantee_db\<lparr>grant_lineages := [(message_1, lineage_of (received_grant grant_1))],
     grant_revisions := [((message_1, 1), revision_of 0 (received_grant grant_1))]\<rparr>"

definition revoked_db :: db where
  "revoked_db = grantee_db\<lparr>grant_lineages := [(message_1, (lineage_of (received_grant grant_1))\<lparr>lin_revision := 2,
       lin_digest := replicate 32 8, lin_status := Revoked\<rparr>)],
     grant_revisions := [((message_1, 1), revision_of 0 (received_grant grant_1)),
       ((message_1, 2), revision_of 0 (received_grant grant_2))]\<rparr>"


lemma checked_grant: "signable_grant g \<Longrightarrow> checkedInput grant_codec (received_grant g) Grantee = Inr ()"
  using inspect_grant [of g] by (simp add: checkedInput_def received_grant_def grant_codec_def guard_def)

lemma grant_digests: "sha256 grant_env (signed_grant grant_1) = replicate 32 7" "sha256 grant_env (signed_grant grant_2) = replicate 32 8"
    "sha256 grant_env signed_binding = replicate 32 1" "sha256 grant_env signed_profile = replicate 32 2"
  using signed_grants_differ representations_differ by (simp_all add: grant_env_def)

lemma grant_fields [simp]:
  "grant_id grant_1 = message_1" "grant_id grant_2 = message_1" "grant_revision grant_1 = 1" "grant_revision grant_2 = 2"
  "grant_status_of grant_1 = Active" "grant_status_of grant_2 = Revoked" "grantee grant_1 = bob" "grantee grant_2 = bob"
  "grantor grant_1 = alice" "grantor grant_2 = alice" "grant_previous grant_2 = Some (replicate 32 7)"
  "grant_updated_at grant_1 = 100" "grant_updated_at grant_2 = 200"
  by (simp_all add: grant_1_def grant_2_def)

lemma received_fields [simp]:
  "sg_account (received_grant g) = lit ''b''" "sg_role (received_grant g) = Grantee" "sg_payload (received_grant g) = g"
  "sg_representation (received_grant g) = signed_grant g" "sg_digest (received_grant g) = sha256 grant_env (signed_grant g)"
  "received_grant g\<lparr>sg_role := Grantee\<rparr> = received_grant g"
  by (simp_all add: received_grant_def)

lemma read_row:
  assumes "signable_grant g" and "lin_grantor l = grantor g" "lin_grantee l = grantee g"
  shows "\<exists>x. grantFromRow grant_codec (grant_id g) (grant_revision g) l (revision_of t (received_grant g)) = Inr x"
proof -
  let ?r = "revision_of t (received_grant g)"
  have "row_matches grant_codec (grant_id g) (grant_revision g) l ?r g"
    using assms by (simp add: row_matches_def revision_of_def received_grant_def grant_codec_def Let_def)
  moreover have "\<bar>grant_issued_at g\<bar> \<le> 9007199254740991" "\<bar>grant_updated_at g\<bar> \<le> 9007199254740991"
      "pred_option (\<lambda>e. \<bar>e\<bar> \<le> 9007199254740991) (grant_expires_at g)"
    using assms(1) by (auto simp: signable_grant_def wf_grant_def safe_nat_def HAIL_MAX_INTEGER_def pred_option_def)
  ultimately show ?thesis
    using inspect_grant [OF assms(1)]
    by (auto simp: grantFromRow_def revision_of_def received_grant_def Let_def safeInteger_def jsonObject_def jsonArray_def
        object_text_def no_evidence_def lit_def split: option.splits)
qed

lemma run_receive_1: "\<exists>x. acceptReceivedRevision lenient_services (\<lambda>_. 0) (received_grant grant_1) grantee_db = Inr (x, granted_db)"
proof -
  have d: "provider_accounts grantee_db = [(lit ''b'', grantee_account)]" "grant_lineages grantee_db = []" "grant_revisions grantee_db = []"
    by (simp_all add: grantee_db_def empty_db_def)
  obtain x where "grantFromRow grant_codec message_1 1 (lineage_of (received_grant grant_1)) (revision_of 0 (received_grant grant_1)) = Inr x"
    using read_row [OF grant_signable(1), of "lineage_of (received_grant grant_1)" 0] by auto
  then have "receive_first lenient_services (\<lambda>_. 0) (received_grant grant_1) grantee_db = Inr (as_received (received_grant grant_1) x, granted_db)"
    by (simp add: receive_first_def lenient_services_def Let_def insert_lineage_def insertRevision_def insert_new_def open_functions_def d
        active_pair_def has_row_def revision_key_def read_back_def findCurrentByGrantId_def current_row_def joined_def granted_db_def)
  then show ?thesis
    using checked_grant [OF grant_signable(1)]
    by (simp add: acceptReceivedRevision_def Let_def d lenient_services_def grantee_account_def)
qed

lemma run_receive_2: "\<exists>x. acceptReceivedRevision lenient_services (\<lambda>_. 0) (received_grant grant_2) granted_db = Inr (x, revoked_db)"
proof -
  have d: "provider_accounts granted_db = [(lit ''b'', grantee_account)]"
      "grant_lineages granted_db = [(message_1, lineage_of (received_grant grant_1))]"
      "grant_revisions granted_db = [((message_1, 1), revision_of 0 (received_grant grant_1))]"
    by (simp_all add: granted_db_def grantee_db_def empty_db_def)
  let ?l = "(lineage_of (received_grant grant_1))\<lparr>lin_revision := 2, lin_digest := replicate 32 8, lin_status := Revoked\<rparr>"
  obtain x where x: "grantFromRow grant_codec message_1 2 ?l (revision_of 0 (received_grant grant_2)) = Inr x"
    using read_row [OF grant_signable(2), of ?l 0] by auto
  have "receive_successor lenient_services (\<lambda>_. 0) (received_grant grant_2) (lineage_of (received_grant grant_1)) granted_db
      = Inr (as_received (received_grant grant_2) x, revoked_db)"
    using x by (simp add: receive_successor_def lenient_services_def Let_def insertRevision_def insert_new_def open_functions_def d
        has_row_def revision_key_def read_back_def findCurrentByGrantId_def current_row_def joined_def advances_def safeInteger_def
        advance_lineage_def perform_def grant_digests revoked_db_def) (simp add: granted_db_def)
  then show ?thesis
    using checked_grant [OF grant_signable(2)]
    by (simp add: acceptReceivedRevision_def Let_def d lenient_services_def grantee_account_def)
qed

lemma run_grant_steps: "grant_step grant_codec empty_db grantee_db" "grant_step grant_codec grantee_db granted_db"
    "grant_step grant_codec granted_db revoked_db"
  using run_receive_1 run_receive_2
  by (auto intro: grant_elsewhere grant_receive [of lenient_services] simp: same_grants_def grantee_db_def empty_db_def lenient_services_def)

lemma granted_reachable: "grants_reachable grant_codec granted_db" and revoked_reachable: "grants_reachable grant_codec revoked_db"
  using run_grant_steps unfolding grants_reachable_def by (meson rtranclp.rtrancl_into_rtrancl rtranclp.rtrancl_refl)+


section \<open>A run at the grantor's provider\<close>

definition issued_grant :: "HailGrant \<Rightarrow> SignedGrantRevisionInput" where
  "issued_grant g = \<lparr>sg_account = lit ''a'', sg_role = Grantor, sg_payload = g, sg_representation = signed_grant g,
     sg_digest = sha256 grant_env (signed_grant g), sg_signing_key = lit ''k'', sg_evidence = no_evidence,
     sg_expectedServiceBase = None, sg_recipientEvidence = None, sg_recipientServiceBase = None\<rparr>"

definition consent_to_bob :: GrantConsentEvidence where
  "consent_to_bob = \<lparr>
     consent_of_address = \<lparr>va_address = address_1, va_did = bob, va_serviceBase = lit ''s'', va_messagingDidKey = lit ''m'',
       va_identityDidKey = lit ''i'', va_evidence = no_evidence, va_verifiedAt = 0, va_binding = binding_object,
       va_representation = signed_binding, va_digest = replicate 32 1\<rparr>,
     consent_of_profile = \<lparr>vp_did = bob, vp_serviceBase = lit ''s'', vp_messagingDidKey = lit ''m'', vp_profile = profile_object,
       vp_representation = signed_profile, vp_digest = replicate 32 2, vp_etag = [], vp_evidence = no_evidence, vp_verifiedAt = 0\<rparr>\<rparr>"

lemma same_value_get:
  assumes "same_value h h'" and "get h k = Some (HText s)"
  shows "get h' k = Some (HText s)"
proof -
  have "sorted_field (get h' k) = sorted_field (get h k)"
    using assms(1) get_sort [of h k] get_sort [of h' k] by (simp add: same_value_def)
  with assms(2) show ?thesis by (simp add: sorted_scalar sorted_scalar_flipped)
qed

lemma consent_accepted: "assertConsent grant_codec grant_1 consent_to_bob = Inr ()"
proof -
  obtain b where b: "inspectSignedPayload reference_cborg grant_env AddressBinding signed_binding = Inr b"
    "same_value binding_object (object_payload b)" by (rule inspect_binding)
  obtain p where p: "inspectSignedPayload reference_cborg grant_env SenderProfile signed_profile = Inr p"
    "same_value profile_object (object_payload p)" by (rule inspect_profile)
  have "get binding_object ''address'' = Some (HText address_1)" "get binding_object ''did'' = Some (HText bob)"
    "get profile_object ''did'' = Some (HText bob)"
    by (simp_all add: binding_object_def profile_object_def get_HMap)
  note f = same_value_get [OF b(2) this(1)] same_value_get [OF b(2) this(2)] same_value_get [OF p(2) this(3)]
  have "same_value (object_payload b) binding_object" "same_value (object_payload p) profile_object"
    using b(2) p(2) by (simp_all add: same_value_def)
  with b(1) p(1) f grant_digests show ?thesis
    by (simp add: assertConsent_def grant_codec_def consent_to_bob_def consent_matches_def Let_def codec_result_def guard_def)
      (simp add: grant_1_def)
qed

definition grantor_db :: db where
  "grantor_db = empty_db\<lparr>provider_accounts := [(lit ''a'', \<lparr>acc_did = Some alice, acc_onboarding_state = ''active'',
     acc_verification_mode = Some ''public'', acc_closed_at = None\<rparr>)]\<rparr>"

definition issued_db :: db where
  "issued_db = grantor_db\<lparr>grant_lineages := [(message_1, lineage_of (issued_grant grant_1))],
     grant_revisions := [((message_1, 1), revision_of 0 (issued_grant grant_1))],
     grant_consent_evidence := [((message_1, 1), consent_of consent_to_bob)],
     grant_publications := [((message_1, 1), new_grant_publication 0 (lit ''s''))]\<rparr>"

lemma issued_fields [simp]:
  "sg_account (issued_grant g) = lit ''a''" "sg_role (issued_grant g) = Grantor" "sg_payload (issued_grant g) = g"
  "sg_representation (issued_grant g) = signed_grant g" "sg_digest (issued_grant g) = sha256 grant_env (signed_grant g)"
  by (simp_all add: issued_grant_def)

lemma run_issue:
  "insertAuthoritativeRevision1 lenient_services (\<lambda>_. 0) (issued_grant grant_1) consent_to_bob (lit ''s'') grantor_db = Inr ((), issued_db)"
proof -
  have "checkedInput grant_codec (issued_grant grant_1) Grantor = Inr ()"
    using inspect_grant [OF grant_signable(1)] by (simp add: checkedInput_def grant_codec_def guard_def)
  moreover have d: "grant_lineages grantor_db = []" "grant_revisions grantor_db = []" "grant_consent_evidence grantor_db = []"
      "grant_publications grantor_db = []" "map_of (provider_accounts grantor_db) (lit ''a'') = Some \<lparr>acc_did = Some alice,
        acc_onboarding_state = ''active'', acc_verification_mode = Some ''public'', acc_closed_at = None\<rparr>"
    by (simp_all add: grantor_db_def empty_db_def)
  ultimately show ?thesis using consent_accepted
    by (simp add: insertAuthoritativeRevision1_def lenient_services_def Let_def insert_lineage_def insertRevision_def insert_consent_def
        insertPublication_def insert_new_def open_functions_def active_pair_def has_row_def revision_key_def issued_db_def)
qed

lemma issued_reachable: "grants_reachable grant_codec issued_db"
proof -
  have "grant_step grant_codec empty_db grantor_db"
    by (rule grant_elsewhere) (simp add: same_grants_def grantor_db_def)
  moreover have "grant_step grant_codec grantor_db issued_db"
    by (rule grant_issue [OF _ run_issue]) (simp add: lenient_services_def)
  ultimately show ?thesis
    unfolding grants_reachable_def by (meson rtranclp.rtrancl_into_rtrancl rtranclp.rtrancl_refl)
qed

lemma read_issued_row:
  "\<exists>x. grantFromRow grant_codec message_1 1 (lineage_of (issued_grant grant_1)) (revision_of 0 (issued_grant grant_1)) = Inr x
     \<and> sg_representation x = signed_grant grant_1"
proof -
  have "revision_of 0 (issued_grant grant_1) = revision_of 0 (received_grant grant_1)"
    by (simp add: revision_of_def issued_grant_def received_grant_def Let_def)
  then show ?thesis
    using read_row [OF grant_signable(1), of "lineage_of (issued_grant grant_1)" 0] grantFromRow_Inr by fastforce
qed


text \<open>An authenticated envelope that claims the grant, and the services of the receiver.\<close>

definition open_services :: acceptance_services where
  "open_services = \<lparr>retainAuthority = (\<lambda>_ _. Inr ()), retainPublicEnvelopeAuthority = (\<lambda>_ _ _. Inr ()), aborted = (\<lambda>_. False)\<rparr>"

definition news_decision :: EnvelopeDecision where
  "news_decision = \<lparr>dec_payload = example_envelope, dec_representation = [], dec_payloadDigest = replicate 32 7,
     dec_envelopeDigest = replicate 32 7, dec_account = lit ''a'', dec_signingKey = lit ''k'', dec_evidence = no_evidence,
     dec_descriptor = None\<rparr>"

end
