(* ===== verification/GrantHistory.thy ===== *)
theory GrantHistory
  imports GrantExample
begin

text \<open>
  Properties of the grant store in every state that its own transactions reach (\<open>grant_step\<close>), and the
  abstract specification it refines: a log of revisions per grant.
\<close>

declare split_paired_All [simp del] split_paired_Ex [simp del] Status.decimal.simps [simp del]

section \<open>The log of a grant\<close>

definition grant_log :: "db \<Rightarrow> jstring \<Rightarrow> revision_row list" where
  "grant_log d gid = (case lineages d gid of
     None \<Rightarrow> []
   | Some l \<Rightarrow> List.map_filter (\<lambda>n. revisions d (gid, n)) [1..lin_revision l])"

text \<open>
  The abstract specification. A log starts with an active revision; a revision may be appended if the last
  one is active, and it must name its digest and be later.
\<close>

inductive log_step :: "revision_row list \<Rightarrow> revision_row list \<Rightarrow> bool" where
  log_stays: "log_step rs rs"
| log_starts: "rev_status r = Active \<Longrightarrow> log_step [] [r]"
| log_grows: "rs \<noteq> [] \<Longrightarrow> follows (last rs) r \<Longrightarrow> log_step rs (rs @ [r])"

lemma map_filter_same:
  "(\<And>x. x \<in> set xs \<Longrightarrow> f x = g x) \<Longrightarrow> List.map_filter f xs = List.map_filter g xs"
  by (induction xs) (simp_all add: List.map_filter_simps split: option.split)

lemma grant_log_nth:
  assumes "chained c (revisions d) gid l" and "lineages d gid = Some l"
  shows "length (grant_log d gid) = nat (lin_revision l)"
    and "i < nat (lin_revision l) \<Longrightarrow> revisions d (gid, int i + 1) = Some (grant_log d gid ! i)"
proof -
  define f where "f n = the (revisions d (gid, n))" for n
  have "\<forall>n \<in> set [1..lin_revision l]. revisions d (gid, n) = Some (f n)"
    using assms(1) by (auto simp: chained_def f_def)
  then have "List.map_filter (\<lambda>n. revisions d (gid, n)) [1..lin_revision l] = map f [1..lin_revision l]"
    by (auto simp: List.map_filter_def intro!: filter_True map_cong arg_cong2 [where f = map])
  then have m: "grant_log d gid = map f [1..lin_revision l]" using assms(2) by (simp add: grant_log_def)
  then show "length (grant_log d gid) = nat (lin_revision l)" by simp
  assume i: "i < nat (lin_revision l)"
  then have "revisions d (gid, int i + 1) = Some (f (int i + 1))" using assms(1) by (auto simp: chained_def f_def)
  moreover have "grant_log d gid ! i = f (int i + 1)" using i m by (simp add: nth_upto add.commute)
  ultimately show "revisions d (gid, int i + 1) = Some (grant_log d gid ! i)" by simp
qed

lemma grant_log_last:
  assumes "chained c (revisions d) gid l" and "lineages d gid = Some l"
  shows "grant_log d gid \<noteq> []" "revisions d (gid, lin_revision l) = Some (last (grant_log d gid))"
    "rev_digest (last (grant_log d gid)) = lin_digest l" "rev_status (last (grant_log d gid)) = lin_status l"
proof -
  have n: "1 \<le> lin_revision l" using assms(1) by (simp add: chained_def)
  note len = grant_log_nth(1) [OF assms]
  show ne: "grant_log d gid \<noteq> []" using len n by auto
  show r: "revisions d (gid, lin_revision l) = Some (last (grant_log d gid))"
    using grant_log_nth(2) [OF assms, of "nat (lin_revision l) - 1"] n ne len by (simp add: last_conv_nth of_nat_diff)
  show "rev_digest (last (grant_log d gid)) = lin_digest l" "rev_status (last (grant_log d gid)) = lin_status l"
    using assms(1) r by (auto simp: chained_def)
qed

lemma grant_log_cong:
  assumes "lineages d' gid = lineages d gid" and "\<And>n. revisions d' (gid, n) = revisions d (gid, n)"
  shows "grant_log d' gid = grant_log d gid"
  using assms(1) map_filter_same [of _ "\<lambda>n. revisions d' (gid, n)" "\<lambda>n. revisions d (gid, n)", OF assms(2)]
  by (simp add: grant_log_def split: option.split)

lemma grant_log_begins:
  assumes "begins c g t d d'"
  shows "log_step (grant_log d gid) (grant_log d' gid)"
proof (cases "gid = grant_id (sg_payload g)")
  case True
  with assms have "grant_log d gid = []" "grant_log d' gid = [revision_of t g]"
    by (simp_all add: begins_def grant_log_def revision_key_def List.map_filter_def)
  then show ?thesis using assms by (auto simp: begins_def intro: log_starts)
next
  case False
  with assms have "grant_log d' gid = grant_log d gid" by (intro grant_log_cong) (simp_all add: begins_def revision_key_def)
  then show ?thesis by (simp add: log_stays)
qed

lemma grant_log_continues:
  assumes k: "continues c g t l r d d'" and i: "lineages_inv c d"
  shows "log_step (grant_log d gid) (grant_log d' gid)"
proof (cases "gid = grant_id (sg_payload g)")
  case True
  have lin: "lineages d gid = Some l" "revisions d (gid, lin_revision l) = Some r" "succeeds_row (sg_payload g) l r"
    using k True by (auto simp: continues_def)
  let ?l = "l\<lparr>lin_revision := grant_revision (sg_payload g), lin_digest := sg_digest g, lin_status := grant_status_of (sg_payload g)\<rparr>"
  have c: "chained c (revisions d) gid l" by (rule lineages_invD(1) [OF i lin(1)])
  then have n: "1 \<le> lin_revision l" "grant_revision (sg_payload g) = lin_revision l + 1"
    using lin(3) by (simp_all add: chained_def succeeds_row_def)
  have at: "revisions d' (gid, m) = (if m = lin_revision l + 1 then Some (revision_of t g) else revisions d (gid, m))" for m
    using k n True by (auto simp: continues_def revision_key_def)
  have "grant_log d' gid = List.map_filter (\<lambda>m. revisions d' (gid, m)) ([1..lin_revision l] @ [lin_revision l + 1])"
    using k True n upto_rec2 [of 1 "lin_revision l + 1"] by (simp add: continues_def grant_log_def)
  also have "\<dots> = List.map_filter (\<lambda>m. revisions d' (gid, m)) [1..lin_revision l] @ [revision_of t g]"
    by (simp add: List.map_filter_def at)
  also have "List.map_filter (\<lambda>m. revisions d' (gid, m)) [1..lin_revision l] = grant_log d gid"
    using lin(1) map_filter_same [of "[1..lin_revision l]" "\<lambda>m. revisions d' (gid, m)" "\<lambda>m. revisions d (gid, m)"]
    by (simp add: grant_log_def at)
  finally have "grant_log d' gid = grant_log d gid @ [revision_of t g]" .
  moreover have "follows (last (grant_log d gid)) (revision_of t g)"
    using grant_log_last [OF c lin(1)] lin by (auto simp: follows_def succeeds_row_def)
  ultimately show ?thesis using grant_log_last(1) [OF c lin(1)] by (simp add: log_grows)
next
  case False
  with k have "grant_log d' gid = grant_log d gid" by (intro grant_log_cong) (simp_all add: continues_def revision_key_def)
  then show ?thesis by (simp add: log_stays)
qed

lemma change_log:
  assumes "grant_change c d d'" and "grants_inv c d"
  shows "log_step (grant_log d gid) (grant_log d' gid)"
  using assms(1)
proof cases
  case (change_begins g t)
  then show ?thesis by (intro grant_log_begins)
next
  case (change_continues g t l r)
  from grant_log_continues [OF change_continues(1)] assms(2) show ?thesis unfolding grants_inv_def by blast
qed (use grant_log_cong [of d' gid d] in \<open>auto simp: unchanged_def same_grants_def intro: log_stays\<close>)

lemma log_refined:
  "grants_reachable codec d \<Longrightarrow> grant_step codec d d' \<Longrightarrow> log_step (grant_log d gid) (grant_log d' gid)"
  using change_log step_grant_change grants_inv_reachable by blast

section \<open>Properties\<close>

text \<open>
  C18. The grant store refines an append-only log: in every reachable state, every committed transaction of the store
  leaves the log of each grant as it is, starts it with an active revision, or appends one revision that
  names the digest of the last one, has a later time and follows an active one. None of them
  rewrites, skips or removes a revision. (The migration of an account, which imports or deletes
  whole logs, and the successors stored by a change of custody are not transactions of the store.)
\<close>

theorem grant_log_refined:
  assumes "grants_reachable codec d" and "grant_step codec d d'"
  shows "log_step (grant_log d gid) (grant_log d' gid)"
  using assms by (rule log_refined)

theorem grant_log_refined_witness:
  "log_step [revision_of 0 (received_grant grant_1)]
     [revision_of 0 (received_grant grant_1), revision_of 0 (received_grant grant_2)]"
proof -
  have "[1..2 :: int] = [1, 2]" by (simp add: upto.simps)
  then have "grant_log granted_db message_1 = [revision_of 0 (received_grant grant_1)]"
    "grant_log revoked_db message_1 = [revision_of 0 (received_grant grant_1), revision_of 0 (received_grant grant_2)]"
    by (simp_all add: grant_log_def granted_db_def revoked_db_def List.map_filter_def)
  with grant_log_refined [OF granted_reachable run_grant_steps(3), of message_1] show ?thesis by simp
qed

text \<open>
  C19. The history of every grant is a chain of authentic revisions: it holds the revisions
  1 to the current one, each stored row says what its signed representation says and carries the representation's hash,
  each revision after the first names the digest of its predecessor and is later, only the
  last can be a revocation, and the lineage row states the digest and the status of the last.
\<close>

theorem grant_history:
  assumes "grants_reachable codec d" and "lineages d gid = Some l"
  shows "length (grant_log d gid) = nat (lin_revision l) \<and> grant_log d gid \<noteq> []
    \<and> (\<forall>i < length (grant_log d gid). \<exists>p. inspectGrant codec (rev_cose (grant_log d gid ! i)) = Inr p
         \<and> row_matches codec gid (int i + 1) l (grant_log d gid ! i) p)
    \<and> successively follows (grant_log d gid)
    \<and> rev_digest (last (grant_log d gid)) = lin_digest l \<and> rev_status (last (grant_log d gid)) = lin_status l"
proof -
  have c: "chained codec (revisions d) gid l"
    using lineages_invD(1) [OF _ assms(2)] grants_inv_reachable [OF assms(1)] by (simp add: grants_inv_def)
  note len = grant_log_nth(1) [OF c assms(2)] and nth = grant_log_nth(2) [OF c assms(2)]
  have "stored codec gid (int i + 1) l (grant_log d gid ! i)" if "i < length (grant_log d gid)" for i
    using c nth [of i] that len by (simp add: chained_def)
  moreover have "follows (grant_log d gid ! i) (grant_log d gid ! Suc i)" if "Suc i < length (grant_log d gid)" for i
  proof -
    have "revisions d (gid, int i + 1) = Some (grant_log d gid ! i)" "revisions d (gid, int i + 1 + 1) = Some (grant_log d gid ! Suc i)"
      using nth [of i] nth [of "Suc i"] that len by (simp_all add: ac_simps)
    with c show ?thesis unfolding chained_def by blast
  qed
  ultimately show ?thesis
    using len grant_log_last [OF c assms(2)] by (auto simp: stored_def successively_conv_nth)
qed

theorem grant_history_witness:
  "length (grant_log revoked_db message_1) = 2 \<and> successively follows (grant_log revoked_db message_1)
    \<and> rev_status (last (grant_log revoked_db message_1)) = Revoked"
  using grant_history [OF revoked_reachable, of message_1] by (simp add: revoked_db_def)

lemma revoked_forever:
  assumes "(grant_step codec)\<^sup>*\<^sup>* d d'" and "grants_reachable codec d" and "lineages d gid = Some l" and "lin_status l = Revoked"
  shows "\<exists>l'. lineages d' gid = Some l' \<and> lin_status l' = Revoked \<and> grant_log d' gid = grant_log d gid"
  using assms(1)
proof (induction rule: rtranclp_induct)
  case base
  with assms show ?case by blast
next
  case (step d1 d2)
  then obtain l' where l': "lineages d1 gid = Some l'" "lin_status l' = Revoked" "grant_log d1 gid = grant_log d gid" by blast
  have r: "grants_reachable codec d1" using assms(2) step.hyps(1) unfolding grants_reachable_def by (rule rtranclp_trans)
  have last: "chained codec (revisions d1) gid l'" if "grants_inv codec d1"
    using lineages_invD(1) [OF _ l'(1)] that by (simp add: grants_inv_def)
  note inv = grants_inv_reachable [OF r]
  have log: "grant_log d2 gid = grant_log d1 gid"
    using log_refined [OF r step.hyps(2), of gid] grant_log_last [OF last [OF inv] l'(1)] l'(2)
    by (auto elim!: log_step.cases simp: follows_def)
  then have "grant_log d2 gid \<noteq> []" using grant_log_last(1) [OF last [OF inv] l'(1)] by simp
  then obtain l2 where l2: "lineages d2 gid = Some l2" by (cases "lineages d2 gid") (simp_all add: grant_log_def)
  have "grants_inv codec d2" by (rule grant_change_inv [OF step_grant_change [OF step.hyps(2)] inv])
  then have "chained codec (revisions d2) gid l2" using lineages_invD(1) [OF _ l2] by (simp add: grants_inv_def)
  from grant_log_last(4) [OF this l2] grant_log_last(4) [OF last [OF inv] l'(1)] l'(2,3) l2 log show ?case by auto
qed


lemma revoked_grant_refuses:
  assumes "lineages d gid = Some l" and "lin_status l = Revoked"
  shows "acceptGrant sv fx limits clk input gid d \<noteq> Inr (OutcomeAccepted, d')"
proof
  assume "acceptGrant sv fx limits clk input gid d = Inr (OutcomeAccepted, d')"
  with assms obtain r where "previousOutcome d (dec_payload input) (dec_payloadDigest input) = Some OutcomeAccepted
      \<or> (\<exists>inserted. outcome_after d' input (decided (dec_payload input) (clk 1) (grant_permits l r (dec_payload input) (clk 1))) inserted
          = OutcomeAccepted)"
    by (fastforce simp: acceptGrant_def Let_def split: if_splits option.splits)
  moreover have "decided (dec_payload input) (clk 1) (grant_permits l r (dec_payload input) (clk 1)) \<noteq> WasAccepted"
    using assms(2) by (simp add: decided_def grant_permits_def)
  moreover have "stored_as x = OutcomeAccepted \<longleftrightarrow> x = WasAccepted" for x by (cases x) simp_all
  ultimately show False
    by (auto simp: outcome_after_def previousOutcome_def split: if_splits option.splits)
qed

text \<open>
  C20. Revocation is final and effective. Once the current revision of a grant is a revocation, no later
  transaction changes its history, and from then on no new envelope is accepted on the
  strength of that grant.
\<close>

theorem revocation_is_final:
  assumes "grants_reachable codec d" and "lineages d gid = Some l" and "lin_status l = Revoked"
    and "(grant_step codec)\<^sup>*\<^sup>* d d'"
  shows "grant_log d' gid = grant_log d gid \<and> acceptGrant sv fx limits clk input gid d' \<noteq> Inr (OutcomeAccepted, d'')"
proof -
  obtain l' where "lineages d' gid = Some l'" "lin_status l' = Revoked" "grant_log d' gid = grant_log d gid"
    using revoked_forever [OF assms(4,1,2,3)] by blast
  with revoked_grant_refuses show ?thesis by blast
qed

theorem revocation_is_final_witness:
  "grant_log revoked_db message_1 \<noteq> [] \<and>
   acceptGrant open_services open_functions ENVELOPE_ADMISSION (\<lambda>_. 0) news_decision message_1 revoked_db \<noteq> Inr (OutcomeAccepted, revoked_db)"
proof -
  have l: "lineages revoked_db message_1 = Some ((lineage_of (received_grant grant_1))\<lparr>lin_revision := 2,
      lin_digest := replicate 32 8, lin_status := Revoked\<rparr>)" by (simp add: revoked_db_def)
  have "grant_log revoked_db message_1 \<noteq> []" using l
    by (simp add: grant_log_def revoked_db_def List.map_filter_def upto.simps)
  with revocation_is_final [OF revoked_reachable l _ rtranclp.rtrancl_refl] show ?thesis by simp
qed

text \<open>
  C21. A pair of accounts has at most one active grant: two lineages whose current revision is active and
  that name the same grantor and grantee are the same lineage.
\<close>

theorem one_active_grant:
  assumes "grants_reachable codec d" and "lineages d gid = Some l" and "lineages d gid' = Some l'"
    and "lin_status l = Active" and "lin_status l' = Active"
    and "lin_grantor l = lin_grantor l'" and "lin_grantee l = lin_grantee l'"
  shows "gid = gid'"
  using lineages_invD(3) [OF _ assms(2-7)] grants_inv_reachable [OF assms(1)] unfolding grants_inv_def by blast

theorem one_active_grant_witness:
  "{gid. \<exists>l. lineages issued_db gid = Some l \<and> lin_status l = Active \<and> lin_grantor l = alice \<and> lin_grantee l = bob} = {message_1}"
proof -
  have "lineages issued_db message_1 = Some (lineage_of (issued_grant grant_1))" by (simp add: issued_db_def)
  with one_active_grant [OF issued_reachable] show ?thesis by fastforce
qed

section \<open>The outbox\<close>

text \<open>
  C26. Revisions are published in order and as they were signed: a claim that a publisher obtains carries
  the stored representation of the revision, all earlier revisions of the grant have been acknowledged by
  the grantee's provider, and the publication is leased to the holder of the claim.
\<close>

theorem published_in_order:
  assumes "grants_reachable codec d" and "gs_codec sv = codec"
    and "claimDuePublication sv locked token ms now clk d = (Inr (Some c), d')"
  shows "(\<forall>m. 1 \<le> m \<and> m < grant_revision (sg_payload (gc_grant c)) \<longrightarrow>
        (\<exists>row. grant_pubs d (grant_id (sg_payload (gc_grant c)), m) = Some row \<and> gp_state row = Acknowledged))
    \<and> (\<exists>r. revisions d (grant_id (sg_payload (gc_grant c)), grant_revision (sg_payload (gc_grant c))) = Some r
        \<and> sg_representation (gc_grant c) = rev_cose r)
    \<and> (\<exists>row. grant_pubs d' (grant_id (sg_payload (gc_grant c)), grant_revision (sg_payload (gc_grant c))) = Some row
        \<and> gp_lease row = Some token)"
proof -
  let ?sel = "first_by (\<lambda>(_, row). (gp_next_attempt_at row, gp_created_at row))
    (filter (publication_due d (now * 1000) locked) (grant_publications d))"
  from assms(3) obtain gid n row where sel: "?sel = Some ((gid, n), row)"
    by (auto simp: claimDuePublication_def split: if_splits option.splits)
  from assms(3) obtain l r where j: "joined d gid n = Some (l, r)" "grantFromRow codec gid n l r = Inr (gc_grant c)"
    and lease: "grant_pubs d' (gid, n) = Some (row\<lparr>gp_lease := Some token, gp_lease_expires_at := Some ((now + ms) * 1000),
      gp_attempts := gp_attempts row + 1, gp_updated_at := clk 0\<rparr>)"
    unfolding claimDuePublication_def sel by (auto simp: assms(2) Let_def split: if_splits option.splits)
  have p: "grant_id (sg_payload (gc_grant c)) = gid" "grant_revision (sg_payload (gc_grant c)) = n"
    "sg_representation (gc_grant c) = rev_cose r"
    using grantFromRow_Inr [OF j(2)] by (auto simp: row_matches_def)
  have r: "revisions d (gid, n) = Some r" using j(1) by (auto simp: joined_def split: option.splits)
  note i = publications_invD [of d] and due = first_due [OF sel]
  have inv: "publications_inv d" using grants_inv_reachable [OF assms(1)] by (simp add: grants_inv_def)
  have "grant_pubs d (gid, n) = Some row" using due map_of_keyed [OF i(1) [OF inv]] by blast
  then obtain x where "lineages d gid = Some x" "lin_role x = Grantor" "n \<le> lin_revision x" using i(2) [OF inv, of gid n] by auto
  then have "\<exists>prior. grant_pubs d (gid, m) = Some prior" if "1 \<le> m" "m < n" for m
    using i(2) [OF inv, of gid m] that by auto
  moreover have "gp_state prior = Acknowledged" if "grant_pubs d (gid, m) = Some prior" "m < n" for m prior
    using due map_of_SomeD [OF that(1)] that(2) by (auto simp: publication_due_def list_ex_iff publications_of_def split: option.splits)
  ultimately show ?thesis using p r lease by simp blast
qed

theorem published_in_order_witness:
  "\<exists>c d'. claimDuePublication lenient_services (\<lambda>_. False) (lit ''t'') 30000 1 (\<lambda>_. 1000) issued_db = (Inr (Some c), d')
    \<and> sg_representation (gc_grant c) = signed_grant grant_1"
proof -
  obtain x where x: "grantFromRow grant_codec message_1 1 (lineage_of (issued_grant grant_1)) (revision_of 0 (issued_grant grant_1)) = Inr x"
    using read_issued_row by blast
  have "\<exists>c d'. claimDuePublication lenient_services (\<lambda>_. False) (lit ''t'') 30000 1 (\<lambda>_. 1000) issued_db = (Inr (Some c), d')
      \<and> gc_grant c = x"
    using x by (simp add: claimDuePublication_def issued_db_def publication_due_def new_grant_publication_def open_publication_def
        fenced_account_def publications_of_def lenient_services_def open_functions_def joined_def Let_def grantor_db_def empty_db_def)
  then obtain c d' where c: "claimDuePublication lenient_services (\<lambda>_. False) (lit ''t'') 30000 1 (\<lambda>_. 1000) issued_db = (Inr (Some c), d')"
    "gc_grant c = x" by blast
  have k: "grant_id (sg_payload x) = message_1" "grant_revision (sg_payload x) = 1"
    using grantFromRow_Inr [OF x] by (simp_all add: row_matches_def)
  have "gs_codec lenient_services = grant_codec" by (simp add: lenient_services_def)
  from published_in_order [OF issued_reachable this c(1)] c show ?thesis
    by (auto simp: k issued_db_def)
qed


lemma first_by_some: "xs \<noteq> [] \<Longrightarrow> first_by f xs \<noteq> None"
  by (cases xs) (auto split: option.splits)

lemma first_by_least: "first_by f xs = Some x \<Longrightarrow> y \<in> set xs \<Longrightarrow> f x \<le> f y"
proof (induction xs arbitrary: x)
  case (Cons z xs)
  show ?case
  proof (cases "first_by f xs")
    case None
    then have "xs = []" using first_by_some by blast
    with Cons.prems show ?thesis by simp
  next
    case (Some w)
    with Cons.IH [OF Some] Cons.prems show ?thesis by (fastforce split: if_splits)
  qed
qed simp

lemma inspected_grant:
  assumes "cbor_library (codec_lib c)" and "inspectGrant c cose = Inr g"
  shows "wf_grant (codec_env c) g"
proof -
  obtain p where p: "parseCose (codec_lib c) (codec_env c) Grant cose = Inr p" "g = read_grant (parsed_payload p)"
    using assms(2) by (auto simp: inspectGrant_def inspectSignedPayload_def inspectedResult_def)
  note strict = cbor_library.parseCose_strict [OF assms(1) grant_type SIGNED_PROFILES.simps(3) p(1)]
  obtain kvs where h: "parsed_payload p = HMap kvs" "get (parsed_payload p) ''type'' = txt_lit (type_name Grant)"
      "get (parsed_payload p) ''version'' = int_lit 1" "validate_by_type (codec_env c) Grant (parsed_payload p) = Inr ()"
    by (rule validatePayload_signed [OF strict(3) grant_type]) (auto simp: version_exempt_def)
  then show ?thesis
    using validateGrant_sound [of "codec_env c" kvs] strict(2) by (simp add: p(2) validate_by_type_def)
qed

text \<open>The evidence of a signature, as the resolver of DIDs gives it, consists of JSON objects.\<close>

definition readable_evidence :: "revision_row \<Rightarrow> bool" where
  "readable_evidence r \<longleftrightarrow> object_text (evidence_document (rev_evidence r)) \<and> object_text (evidence_data (rev_evidence r))
     \<and> list_all object_text (evidence_log (rev_evidence r))"

lemma stored_reads:
  assumes "cbor_library (codec_lib c)" and "stored c gid n l r" and "readable_evidence r"
  obtains g where "grantFromRow c gid n l r = Inr g" "grant_id (sg_payload g) = gid" "grant_revision (sg_payload g) = n"
proof -
  obtain p where p: "inspectGrant c (rev_cose r) = Inr p" "row_matches c gid n l r p" using assms(2) by (auto simp: stored_def)
  have "wf_grant (codec_env c) p" by (rule inspected_grant [OF assms(1) p(1)])
  with p(2) have "safe_nat (rev_issued_at r)" "safe_nat (rev_updated_at r)" "pred_option safe_nat (rev_expires_at r)"
    by (auto simp: wf_grant_def row_matches_def)
  then have "safeInteger (rev_issued_at r) e = Inr (rev_issued_at r)" "safeInteger (rev_updated_at r) e = Inr (rev_updated_at r)"
    "\<exists>t. (case rev_expires_at r of None \<Rightarrow> Inr 0 | Some x \<Rightarrow> safeInteger x e) = Inr t" for e
    by (auto simp: safeInteger_def safe_nat_def HAIL_MAX_INTEGER_def split: option.splits)
  moreover from this(3) obtain t where "(case rev_expires_at r of None \<Rightarrow> Inr 0 | Some x \<Rightarrow> safeInteger x ''expires_at'') = Inr t" by blast
  ultimately show thesis using p assms(3) that
    by (auto simp: grantFromRow_def readable_evidence_def jsonObject_def jsonArray_def row_matches_def)
qed

text \<open>The first revision of a lineage that is not acknowledged yet.\<close>

lemma first_unacknowledged:
  assumes "grant_pubs d (gid, n) = Some row" and "gp_state row \<noteq> Acknowledged"
  obtains m row' where "m \<le> n" "grant_pubs d (gid, m) = Some row'" "gp_state row' \<noteq> Acknowledged"
    "\<And>i r. grant_pubs d (gid, i) = Some r \<Longrightarrow> i < m \<Longrightarrow> gp_state r = Acknowledged"
proof -
  define S where "S = {i. \<exists>r. grant_pubs d (gid, i) = Some r \<and> gp_state r \<noteq> Acknowledged}"
  have "S \<subseteq> snd ` fst ` set (grant_publications d)"
    by (force simp: S_def dest: map_of_SomeD)
  then have fin: "finite S" by (rule finite_subset) simp
  have "n \<in> S" using assms by (auto simp: S_def)
  then have "Min S \<in> S" using fin by (intro Min_in) auto
  then obtain r where r: "grant_pubs d (gid, Min S) = Some r" "gp_state r \<noteq> Acknowledged" by (auto simp: S_def)
  have "gp_state x = Acknowledged" if "grant_pubs d (gid, i) = Some x" "i < Min S" for i x
  proof (rule ccontr)
    assume "gp_state x \<noteq> Acknowledged"
    then have "i \<in> S" using that(1) by (auto simp: S_def)
    then show False using Min_le [OF fin] that(2) by fastforce
  qed
  moreover have "Min S \<le> n" using fin \<open>n \<in> S\<close> by (rule Min_le)
  ultimately show thesis using r that by blast
qed

text \<open>A row that is due is claimed, unless another row that is due precedes it; the claim can always be read.\<close>

lemma due_is_claimed:
  assumes "cbor_library (codec_lib codec)" and "publications_inv d" and "lineages_inv codec d" and "gs_codec sv = codec"
    and due: "publication_due d (now * 1000) locked (k, r)" and r: "grant_pubs d k = Some r"
    and readable: "\<forall>k r. revisions d k = Some r \<longrightarrow> readable_evidence r"
    and writes: "\<forall>k. \<not> refuses (gs_functions sv) (WriteGrantPublication k) d" "0 < ms" "ms \<le> 9007199254740991"
  shows "\<exists>c d' x. claimDuePublication sv locked token ms now clk d = (Inr (Some c), d')
    \<and> grant_pubs d (grant_id (sg_payload (gc_grant c)), grant_revision (sg_payload (gc_grant c))) = Some x
    \<and> (gp_next_attempt_at x, gp_created_at x) \<le> (gp_next_attempt_at r, gp_created_at r)"
proof -
  let ?f = "\<lambda>(_ :: jstring \<times> int, row). (gp_next_attempt_at row, gp_created_at row)"
  let ?due = "filter (publication_due d (now * 1000) locked) (grant_publications d)"
  have r: "(k, r) \<in> set ?due" using due map_of_SomeD [OF r] by simp
  have "?due \<noteq> []"
  proof
    assume none_due: "?due = []"
    show False using r unfolding none_due by simp
  qed
  then have "first_by ?f ?due \<noteq> None" by (rule first_by_some)
  then obtain z where z: "first_by ?f ?due = Some z" by blast
  obtain h i x where "z = ((h, i), x)" by (cases z, cases "fst z") auto
  with z have sel: "first_by ?f ?due = Some ((h, i), x)" by simp
  have x: "grant_pubs d (h, i) = Some x" using first_due [OF sel] map_of_keyed [OF publications_invD(1) [OF assms(2)]] by blast
  have least: "(gp_next_attempt_at x, gp_created_at x) \<le> (gp_next_attempt_at r, gp_created_at r)"
    using first_by_least [OF sel r] by simp
  obtain y where y: "lineages d h = Some y" "1 \<le> i" "i \<le> lin_revision y" using publications_invD(2) [OF assms(2), of h i] x by auto
  note ch = lineages_invD(1) [OF assms(3) y(1)]
  then have "revisions d (h, i) \<noteq> None" using y(2,3) unfolding chained_def by blast
  then obtain s where s: "revisions d (h, i) = Some s" by blast
  then have "stored codec h i y s" using ch unfolding chained_def by blast
  moreover have "readable_evidence s" using readable s by blast
  ultimately obtain g where g: "grantFromRow codec h i y s = Inr g" "grant_id (sg_payload g) = h" "grant_revision (sg_payload g) = i"
    by (rule stored_reads [OF assms(1)])
  have "\<exists>c d'. claimDuePublication sv locked token ms now clk d = (Inr (Some c), d') \<and> gc_grant c = g"
    unfolding claimDuePublication_def sel using assms(4) writes y(1) s g(1) by (simp add: Let_def joined_def)
  then obtain c d' where "claimDuePublication sv locked token ms now clk d = (Inr (Some c), d')" "gc_grant c = g" by blast
  then show ?thesis using x least by (intro exI [of _ c] exI [of _ d'] exI [of _ x]) (simp add: g(2,3))
qed

text \<open>
  C27. The outbox does not starve. As long as a revision waits for publication, no earlier one was rejected for
  good and the account is not fenced for a migration, the first unacknowledged revision of its grant is
  always claimable once its time has come and its last lease has run out, whatever happened to that
  lease: every request for work then returns a claim, either of that revision or of one that precedes it in the
  order of the queue (earlier due, or due at once and created earlier). So nothing that is rescheduled or
  created later can overtake it. (Rows have to be readable: the evidence columns hold JSON objects, and no
  trigger refuses the lease.)
\<close>

theorem outbox_progress:
  assumes "cbor_library (codec_lib codec)" and "grants_reachable codec d" and "gs_codec sv = codec"
    and "grant_pubs d (gid, n) = Some row" and "open_publication (gp_state row)"
    and "\<forall>m < n. \<forall>r. grant_pubs d (gid, m) = Some r \<longrightarrow> gp_state r \<noteq> Blocked"
    and "lineages d gid = Some l" and "\<not> fenced_account d (lin_account l)"
    and "\<forall>k r. revisions d k = Some r \<longrightarrow> readable_evidence r" and "\<forall>k. \<not> refuses (gs_functions sv) (WriteGrantPublication k) d"
    and "0 < ms" and "ms \<le> 9007199254740991"
  shows "\<exists>m r. m \<le> n \<and> grant_pubs d (gid, m) = Some r \<and> open_publication (gp_state r)
    \<and> (\<forall>i p. grant_pubs d (gid, i) = Some p \<and> i < m \<longrightarrow> gp_state p = Acknowledged)
    \<and> (\<forall>now locked. gp_next_attempt_at r \<le> now * 1000 \<and> (\<forall>t. gp_lease_expires_at r = Some t \<longrightarrow> t \<le> now * 1000)
          \<and> \<not> locked (gid, m) \<longrightarrow>
        (\<exists>c d' x. claimDuePublication sv locked token ms now clk d = (Inr (Some c), d')
          \<and> grant_pubs d (grant_id (sg_payload (gc_grant c)), grant_revision (sg_payload (gc_grant c))) = Some x
          \<and> (gp_next_attempt_at x, gp_created_at x) \<le> (gp_next_attempt_at r, gp_created_at r)))"
proof -
  have inv: "publications_inv d" "lineages_inv codec d" using grants_inv_reachable [OF assms(2)] by (auto simp: grants_inv_def)
  have "gp_state row \<noteq> Acknowledged" using assms(5) by (auto simp: open_publication_def)
  from first_unacknowledged [OF assms(4) this] obtain m r where m: "m \<le> n" and r: "grant_pubs d (gid, m) = Some r" "gp_state r \<noteq> Acknowledged"
    and before: "\<And>i x. grant_pubs d (gid, i) = Some x \<Longrightarrow> i < m \<Longrightarrow> gp_state x = Acknowledged" by blast
  have o: "open_publication (gp_state r)"
  proof (cases "m = n")
    case True
    with r(1) assms(4,5) show ?thesis by simp
  next
    case False
    with m have "m < n" by simp
    with r assms(6) have "gp_state r \<noteq> Blocked" by blast
    with r(2) show ?thesis by (cases "gp_state r") (auto simp: open_publication_def)
  qed
  have none: "\<not> list_ex (\<lambda>((_, i), prior). i < m \<and> gp_state prior \<noteq> Acknowledged) (publications_of d gid)"
    using before map_of_keyed [OF publications_invD(1) [OF inv(1)]]
    by (auto simp: list_ex_iff publications_of_def) blast
  have due: "publication_due d (now * 1000) locked ((gid, m), r)"
    if "gp_next_attempt_at r \<le> now * 1000 \<and> (\<forall>t. gp_lease_expires_at r = Some t \<longrightarrow> t \<le> now * 1000) \<and> \<not> locked (gid, m)" for now locked
    using assms(7,8) o that none by (auto simp: publication_due_def split: option.splits)
  show ?thesis
  proof (intro exI [of _ m] exI [of _ r] conjI allI impI)
    show "gp_state p = Acknowledged" if "grant_pubs d (gid, i) = Some p \<and> i < m" for i p using before that by blast
  qed (rule m, rule r(1), rule o, rule due_is_claimed [OF assms(1) inv assms(3) due r(1) assms(9-12)])
qed

theorem outbox_progress_witness:
  "\<exists>c d'. claimDuePublication lenient_services (\<lambda>_. False) (lit ''t'') 30000 1 (\<lambda>_. 0) issued_db = (Inr (Some c), d')
    \<and> grant_id (sg_payload (gc_grant c)) = message_1"
proof -
  let ?row = "new_grant_publication 0 (lit ''s'')"
  have codec: "cbor_library (codec_lib grant_codec)" by (simp add: grant_codec_def reference.cbor_library_axioms)
  have services: "gs_codec lenient_services = grant_codec" "\<forall>k. \<not> refuses (gs_functions lenient_services) (WriteGrantPublication k) issued_db"
    by (simp_all add: lenient_services_def open_functions_def)
  have tables: "grant_pubs issued_db = [(message_1, 1) \<mapsto> ?row]"
    "lineages issued_db message_1 = Some (lineage_of (issued_grant grant_1))" "provider_migration_fences issued_db = []"
    by (auto simp: issued_db_def grantor_db_def empty_db_def)
  have one: "(\<exists>p. grant_pubs issued_db (h, i) = Some p \<and> P p) \<longleftrightarrow> h = message_1 \<and> i = 1 \<and> P ?row" for h i P
    by (auto simp: tables)
  have row: "grant_pubs issued_db (message_1, 1) = Some ?row" "open_publication (gp_state ?row)" "gp_next_attempt_at ?row \<le> 1 * 1000"
      "\<forall>t. gp_lease_expires_at ?row = Some t \<longrightarrow> t \<le> 1 * 1000"
    by (simp_all add: tables new_grant_publication_def open_publication_def)
  have blocked: "\<forall>m < 1. \<forall>r. grant_pubs issued_db (message_1, m) = Some r \<longrightarrow> gp_state r \<noteq> Blocked"
    by (simp add: tables)
  have readable: "\<forall>k r. revisions issued_db k = Some r \<longrightarrow> readable_evidence r"
    by (auto simp: issued_db_def grantor_db_def empty_db_def readable_evidence_def revision_of_def issued_grant_def Let_def no_evidence_def
        object_text_def lit_def split: if_splits)
  have bounds: "(0 :: int) < 30000" "(30000 :: int) \<le> 9007199254740991" by simp_all
  have fence: "\<not> fenced_account issued_db (lin_account (lineage_of (issued_grant grant_1)))" by (simp add: fenced_account_def tables)
  obtain m r where r: "grant_pubs issued_db (message_1, m) = Some r"
    "\<forall>now locked. gp_next_attempt_at r \<le> now * 1000 \<and> (\<forall>t. gp_lease_expires_at r = Some t \<longrightarrow> t \<le> now * 1000)
        \<and> \<not> locked (message_1, m) \<longrightarrow>
      (\<exists>c d' x. claimDuePublication lenient_services locked (lit ''t'') 30000 now (\<lambda>_. 0) issued_db = (Inr (Some c), d')
        \<and> grant_pubs issued_db (grant_id (sg_payload (gc_grant c)), grant_revision (sg_payload (gc_grant c))) = Some x
        \<and> (gp_next_attempt_at x, gp_created_at x) \<le> (gp_next_attempt_at r, gp_created_at r))"
    using outbox_progress [OF codec issued_reachable services(1) row(1,2) blocked tables(2) fence readable services(2) bounds, of "lit ''t''" "\<lambda>_. 0"]
    by (elim exE conjE) (rule that)
  then have "r = ?row" using one [of message_1 m "\<lambda>p. p = r"] by blast
  with r(2) [THEN spec, of 1, THEN spec, of "\<lambda>_. False"] row(3,4)
  obtain c d' x where "claimDuePublication lenient_services (\<lambda>_. False) (lit ''t'') 30000 1 (\<lambda>_. 0) issued_db = (Inr (Some c), d')"
    "grant_pubs issued_db (grant_id (sg_payload (gc_grant c)), grant_revision (sg_payload (gc_grant c))) = Some x" by blast
  with one [of "grant_id (sg_payload (gc_grant c))" "grant_revision (sg_payload (gc_grant c))" "\<lambda>_. True"] show ?thesis by blast
qed


section \<open>Receiving twice\<close>

lemma receive_collocated_effect:
  assumes "receive_collocated sv g l d = Inr (x, d')"
  obtains r y where "revisions d (grant_id (sg_payload g), grant_revision (sg_payload g)) = Some r" "rev_cose r = sg_representation g"
    "grantFromRow (gs_codec sv) (grant_id (sg_payload g)) (grant_revision (sg_payload g)) l r = Inr y" "x = as_received g y"
    "\<exists>t. d' = d\<lparr>collocated_grant_receivers := t\<rparr>" "map_of (collocated_grant_receivers d') (grant_id (sg_payload g)) = Some (sg_account g)"
proof -
  obtain dm where dm: "dm = (if has_row (collocated_grant_receivers d) (grant_id (sg_payload g)) then d
      else d\<lparr>collocated_grant_receivers := AList.update (grant_id (sg_payload g)) (sg_account g) (collocated_grant_receivers d)\<rparr>)" by simp
  have "d = d\<lparr>collocated_grant_receivers := collocated_grant_receivers d\<rparr>" by simp
  then have t: "\<exists>t. dm = d\<lparr>collocated_grant_receivers := t\<rparr>" unfolding dm by metis
  show thesis using assms dm t that by (auto simp: receive_collocated_def Let_def)
qed

lemma collocated_again:
  assumes "receive_collocated sv g l d = Inr (x, d')" and "\<not> refuses (gs_functions sv) (WriteCollocated (grant_id (sg_payload g))) d'"
  shows "receive_collocated sv g l d' = Inr (x, d')"
  using assms(2) by (rule_tac receive_collocated_effect [OF assms(1)])
    (auto simp: receive_collocated_def Let_def has_row_def perform_def)

lemma read_back_row:
  assumes "read_back sv g d = Inr (x, d')" and "lineages d (grant_id (sg_payload g)) = Some l"
    and "revisions d (grant_id (sg_payload g), lin_revision l) = Some r"
  shows "\<exists>y. grantFromRow (gs_codec sv) (grant_id (sg_payload g)) (lin_revision l) l r = Inr y \<and> x = as_received g y"
  using assms by (auto simp: read_back_def findCurrentByGrantId_def current_row_def joined_def)

lemma receive_new_again:
  assumes "read_back sv g d1 = Inr (x, d')" and "lineages d1 (grant_id (sg_payload g)) = Some l"
    and "lin_account l = sg_account g" and "lin_revision l = grant_revision (sg_payload g)"
    and "revisions d1 (revision_key g) = Some (revision_of t g)"
  shows "receive_successor sv clk g l d1 = Inr (x, d1)"
proof -
  have "revisions d1 (grant_id (sg_payload g), lin_revision l) = Some (revision_of t g)"
    using assms(4,5) by (simp add: revision_key_def)
  from read_back_row [OF assms(1,2) this] obtain y
    where "grantFromRow (gs_codec sv) (grant_id (sg_payload g)) (lin_revision l) l (revision_of t g) = Inr y" "x = as_received g y"
    by blast
  with assms(3-5) show ?thesis by (simp add: receive_successor_def Let_def revision_key_def)
qed

lemma successor_again:
  assumes "receive_successor sv clk g l d = Inr (x, d')" and "lineages d (grant_id (sg_payload g)) = Some l"
  shows "\<exists>l'. lineages d' (grant_id (sg_payload g)) = Some l' \<and> lin_role l' = lin_role l \<and> lin_grantor l' = lin_grantor l
    \<and> lin_grantee l' = lin_grantee l \<and> provider_accounts d' = provider_accounts d \<and> receive_successor sv clk' g l' d' = Inr (x, d')"
proof (cases "revisions d (grant_id (sg_payload g), grant_revision (sg_payload g))")
  case (Some r)
  with assms show ?thesis by (auto simp: receive_successor_def Let_def split: if_splits)
next
  case None
  with assms(1) obtain d1 d2 where a: "lin_account l = sg_account g"
    and s: "insertRevision (gs_functions sv) (clk 0) g d = Inr d1" "advance_lineage (gs_functions sv) g d1 = Inr d2"
      "read_back sv g d2 = Inr (x, d')"
    by (auto simp: receive_successor_def Let_def)
  note e = insertRevision_Inr [OF s(1)]
  then have "lineages d1 (grant_id (sg_payload g)) = Some l" using assms(2) by simp
  note f = advance_lineage_Inr [OF s(2) this]
  have d: "d' = d2" by (rule read_back_same [OF s(3)])
  let ?l = "l\<lparr>lin_revision := grant_revision (sg_payload g), lin_digest := sg_digest g, lin_status := grant_status_of (sg_payload g)\<rparr>"
  have l: "lineages d2 (grant_id (sg_payload g)) = Some ?l" "revisions d2 (revision_key g) = Some (revision_of (clk 0) g)"
    using e f by simp_all
  from receive_new_again [OF s(3) l(1) _ _ l(2), of clk'] a have "receive_successor sv clk' g ?l d2 = Inr (x, d2)" by simp
  with l e f d show ?thesis by auto
qed

lemma first_again:
  assumes "receive_first sv clk g d = Inr (x, d')"
  shows "lineages d' (grant_id (sg_payload g)) = Some (lineage_of g) \<and> provider_accounts d' = provider_accounts d
    \<and> receive_successor sv clk' g (lineage_of g) d' = Inr (x, d')"
proof -
  from assms obtain d1 d2 where one: "grant_revision (sg_payload g) = 1"
    and s: "insert_lineage (gs_functions sv) g d = Inr d1" "insertRevision (gs_functions sv) (clk 0) g d1 = Inr d2" "read_back sv g d2 = Inr (x, d')"
    by (auto simp: receive_first_def Let_def)
  note e = insert_lineage_Inr [OF s(1)] insertRevision_Inr [OF s(2)]
  have d: "d' = d2" by (rule read_back_same [OF s(3)])
  have l: "lineages d2 (grant_id (sg_payload g)) = Some (lineage_of g)" "revisions d2 (revision_key g) = Some (revision_of (clk 0) g)"
    using e by simp_all
  from receive_new_again [OF s(3) l(1) _ _ l(2), of clk'] one e d l show ?thesis by simp
qed

text \<open>
  C33. Receipt is idempotent. If a provider accepts a revision and the same request arrives again, because the
  acknowledgement was lost, the second request returns the same grant and changes nothing.
\<close>

theorem receipt_idempotent:
  assumes "acceptReceivedRevision sv clk g d = Inr (x, d')"
    and "\<not> refuses (gs_functions sv) (WriteCollocated (grant_id (sg_payload g))) d'"
  shows "acceptReceivedRevision sv clk' g d' = Inr (x, d')"
proof -
  define g' where "g' = g\<lparr>sg_role := Grantee\<rparr>"
  have sel: "sg_payload g' = sg_payload g" "sg_account g' = sg_account g" by (simp_all add: g'_def)
  note unfold = acceptReceivedRevision_def Let_def g'_def [symmetric] sel
  obtain account where c: "checkedInput (gs_codec sv) g' Grantee = Inr ()" "map_of (provider_accounts d) (sg_account g) = Some account"
      "acc_onboarding_state account = ''active''" "acc_did account = Some (grantee (sg_payload g))"
    using assms(1) by (auto simp: unfold)
  show ?thesis
  proof (cases "lineages d (grant_id (sg_payload g))")
    case None
    with assms(1) c have "receive_first sv clk g' d = Inr (x, d')" by (simp add: unfold)
    from first_again [OF this, of clk'] c show ?thesis by (simp add: unfold) (simp add: g'_def)
  next
    case (Some l)
    with assms(1) c have p: "lin_grantor l = grantor (sg_payload g)" "lin_grantee l = grantee (sg_payload g)"
      and r: "(if lin_role l = Grantor then receive_collocated sv g' l d else receive_successor sv clk g' l d) = Inr (x, d')"
      by (auto simp: unfold)
    show ?thesis
    proof (cases "lin_role l")
      case Grantor
      with r have col: "receive_collocated sv g' l d = Inr (x, d')" by simp
      then have "grant_lineages d' = grant_lineages d" "provider_accounts d' = provider_accounts d"
        by (auto elim!: receive_collocated_effect)
      with collocated_again [OF col] assms(2) c p Some Grantor show ?thesis by (simp add: unfold)
    next
      case Grantee
      with r have "receive_successor sv clk g' l d = Inr (x, d')" by simp
      from successor_again [OF this, of clk'] Some c p Grantee show ?thesis by (auto simp: unfold)
    qed
  qed
qed

theorem receipt_idempotent_witness:
  "\<exists>x. acceptReceivedRevision lenient_services (\<lambda>_. 0) (received_grant grant_1) grantee_db = Inr (x, granted_db)
    \<and> acceptReceivedRevision lenient_services (\<lambda>_. 5) (received_grant grant_1) granted_db = Inr (x, granted_db)"
proof -
  have "\<not> refuses (gs_functions lenient_services) (WriteCollocated (grant_id (sg_payload (received_grant grant_1)))) granted_db"
    by (simp add: lenient_services_def open_functions_def)
  with run_receive_1 receipt_idempotent show ?thesis by blast
qed

end
