(* ===== verification/StatusProperties.thy ===== *)
theory StatusProperties
  imports Status EnvelopeTransport
begin

text \<open>
  Properties of delivery statuses: what a signed status says, that what the sender's provider records only
  moves forward and ends with the final status in whatever order statuses arrive, and when the
  publication of a final status ends.
\<close>

declare split_paired_All [simp del] split_paired_Ex [simp del]

section \<open>Recording statuses\<close>

abbreviation reported :: "db \<Rightarrow> message_key \<Rightarrow> sent_status_row option" where
  "reported d \<equiv> map_of (sent_delivery_status d)"

inductive status_step :: "codec \<Rightarrow> db \<Rightarrow> db \<Rightarrow> bool" for c where
  status_receive: "sr_codec sr = c \<Longrightarrow> receive_status sr clk seen pathDigest cose d = Inr (outcome, d') \<Longrightarrow> status_step c d d'"
| status_elsewhere: "sent_delivery_status d' = sent_delivery_status d \<Longrightarrow> status_step c d d'"

lemma record_status_reported:
  "reported (record_status now p bs cose key ev gap d) k' =
     (if k' = (st_to p, st_message_id p) then reported (record_status now p bs cose key ev gap d) k' else reported d k')"
  by (simp add: record_status_def Let_def)

definition new_reported :: "HailDeliveryStatus \<Rightarrow> bytes \<Rightarrow> sent_status_row option \<Rightarrow> sent_status_row \<Rightarrow> bool" where
  "new_reported p bs current row \<longleftrightarrow> ss_revision row = st_revision p \<and> ss_state row = st_state p \<and> ss_payload row = bs
     \<and> ss_recipient row = (case current of None \<Rightarrow> st_from p | Some old \<Rightarrow> ss_recipient old)"

lemma apply_effect:
  assumes "apply_status sr clk p bs cose key ev d = Inr (outcome, d')"
  shows "d' = d \<or> status_verdict (reported d (st_to p, st_message_id p)) p bs = None \<and> encodeStatus (sr_codec sr) p = Inr bs
    \<and> concerns_sent d p \<and> outcome = StatusAcknowledged
    \<and> (\<exists>row. reported d' = (reported d)((st_to p, st_message_id p) \<mapsto> row) \<and> new_reported p bs (reported d (st_to p, st_message_id p)) row)"
  using assms
  by (auto simp: apply_status_def Let_def record_status_def new_reported_def split: if_splits option.splits)

lemma verdict_None:
  "status_verdict (Some row) p bs = None \<longleftrightarrow> ss_revision row < st_revision p \<and> \<not> terminal (ss_state row) \<and> st_state p \<noteq> Accepted"
  "status_verdict None p bs = None \<longleftrightarrow> st_state p = Accepted \<or> terminal (st_state p)"
  by (auto simp: status_verdict_def)

lemma receive_status_effect:
  assumes "receive_status sr clk seen pathDigest cose d = Inr (outcome, d')"
  shows "d' = d \<or> (\<exists>p bs row. authenticate_status sr seen pathDigest cose = Inr (Inr (p, bs, row)) \<and>
    (\<exists>key ev. apply_status sr clk p bs cose key ev d = Inr (outcome, d')))"
  using assms by (auto simp: receive_status_def split: sum.splits prod.splits)

text \<open>How a step changes the row of one message.\<close>

definition moves_on :: "sent_status_row option \<Rightarrow> sent_status_row option \<Rightarrow> bool" where
  "moves_on old new \<longleftrightarrow> new = old \<or> (\<exists>row. new = Some row \<and> (case old of
     None \<Rightarrow> ss_state row = Accepted \<or> terminal (ss_state row)
   | Some r \<Rightarrow> \<not> terminal (ss_state r) \<and> ss_revision r < ss_revision row \<and> ss_recipient row = ss_recipient r))"

lemma status_step_moves:
  assumes "status_step c d d'"
  shows "moves_on (reported d k) (reported d' k)"
  using assms
proof cases
  case (status_receive sr clk seen pathDigest cose outcome)
  show ?thesis
  proof (cases "d' = d")
    case False
    then obtain p bs key ev where a: "apply_status sr clk p bs cose key ev d = Inr (outcome, d')"
      using receive_status_effect [OF status_receive(2)] by blast
    from apply_effect [OF a] False obtain row where v: "status_verdict (reported d (st_to p, st_message_id p)) p bs = None"
      "reported d' = (reported d)((st_to p, st_message_id p) \<mapsto> row)" "new_reported p bs (reported d (st_to p, st_message_id p)) row" by blast
    show ?thesis
    proof (cases "k = (st_to p, st_message_id p)")
      case True
      with v show ?thesis
        by (cases "reported d k") (auto simp: moves_on_def verdict_None new_reported_def)
    qed (use v in \<open>simp add: moves_on_def\<close>)
  qed (simp add: moves_on_def)
qed (simp add: moves_on_def)

lemma reported_forward:
  assumes "(status_step c)\<^sup>*\<^sup>* d d'" and "reported d k = Some row"
  shows "\<exists>row'. reported d' k = Some row' \<and> (row' = row \<or> \<not> terminal (ss_state row) \<and> ss_revision row < ss_revision row')
    \<and> ss_recipient row' = ss_recipient row"
  using assms(1)
proof (induction rule: rtranclp_induct)
  case base
  with assms(2) show ?case by simp
next
  case (step d1 d2)
  then obtain r1 where r1: "reported d1 k = Some r1"
    "r1 = row \<or> \<not> terminal (ss_state row) \<and> ss_revision row < ss_revision r1" "ss_recipient r1 = ss_recipient row" by blast
  from status_step_moves [OF step.hyps(2), of k] r1 show ?case by (auto simp: moves_on_def)
qed

text \<open>
  C34. What a sender is told only moves forward: with every change the recorded revision of a message
  increases and the recipient stays the same, and once a final status is recorded, nothing that
  arrives later, from whomever and in whatever order, changes the record.
\<close>

theorem reported_moves_forward:
  assumes "(status_step c)\<^sup>*\<^sup>* d d'" and "reported d k = Some row"
  shows "\<exists>row'. reported d' k = Some row' \<and> ss_recipient row' = ss_recipient row \<and> ss_revision row \<le> ss_revision row'
    \<and> (ss_revision row' = ss_revision row \<or> terminal (ss_state row) \<longleftrightarrow> row' = row)"
  using reported_forward [OF assms] by force

section \<open>Convergence\<close>

text \<open>A status as it arrives: the payload, its bytes, the representation, the key and the evidence.\<close>

type_synonym arrival = "HailDeliveryStatus \<times> bytes \<times> bytes \<times> jstring \<times> PlcResolutionEvidence"

fun apply_all :: "status_receiver \<Rightarrow> clock \<Rightarrow> arrival list \<Rightarrow> db \<Rightarrow> db outcome" where
  "apply_all sr clk [] d = Inr d"
| "apply_all sr clk ((p, bs, cose, key, ev) # rest) d =
     and_then (apply_status sr clk p bs cose key ev d) (\<lambda>(_, d). apply_all sr clk rest d)"

text \<open>
  Statuses of one message as one provider issues them: a revision has one encoding, the first revision is the
  acceptance, only the last one is final.
\<close>

definition issued_by_one :: "codec \<Rightarrow> message_key \<Rightarrow> HailDeliveryStatus \<Rightarrow> arrival list \<Rightarrow> bool" where
  "issued_by_one c k final xs \<longleftrightarrow> terminal (st_state final) \<and> 1 < st_revision final \<and>
     (\<forall>(p, bs, cose, key, ev) \<in> set xs. (st_to p, st_message_id p) = k \<and> encodeStatus c p = Inr bs
       \<and> (st_state p = Accepted \<longleftrightarrow> st_revision p = 1) \<and> (terminal (st_state p) \<longleftrightarrow> st_revision p = st_revision final)
       \<and> st_revision p \<le> st_revision final \<and> (st_revision p = st_revision final \<longrightarrow> p = final))"

definition told_by :: "codec \<Rightarrow> HailDeliveryStatus \<Rightarrow> sent_status_row option \<Rightarrow> bool" where
  "told_by c final row = (case row of
     None \<Rightarrow> True
   | Some r \<Rightarrow> ss_revision r < st_revision final \<and> \<not> terminal (ss_state r)
       \<or> ss_revision r = st_revision final \<and> ss_state r = st_state final \<and> encodeStatus c final = Inr (ss_payload r))"

definition ready_receiver :: "status_receiver \<Rightarrow> bool" where
  "ready_receiver sr \<longleftrightarrow> (\<forall>i. \<not> sr_aborted sr i) \<and> (\<forall>s d. \<not> refuses (sr_functions sr) s d)"

lemma apply_ready:
  assumes "ready_receiver sr" and "concerns_sent d p" and "encodeStatus (sr_codec sr) p = Inr bs"
  shows "\<exists>outcome d'. apply_status sr clk p bs cose key ev d = Inr (outcome, d') \<and> sent_envelopes d' = sent_envelopes d
    \<and> (if status_verdict (reported d (st_to p, st_message_id p)) p bs = None
       then \<exists>row. reported d' = (reported d)((st_to p, st_message_id p) \<mapsto> row) \<and> new_reported p bs (reported d (st_to p, st_message_id p)) row
       else d' = d)"
  using assms
  by (auto simp: apply_status_def Let_def check_abort_def guard_def ready_receiver_def perform_def record_status_def new_reported_def
      split: option.splits)

lemma apply_all_told:
  assumes "ready_receiver sr" and "issued_by_one (sr_codec sr) k final xs"
    and "\<forall>(p, _) \<in> set xs. concerns_sent d p" and "told_by (sr_codec sr) final (reported d k)"
  shows "\<exists>d'. apply_all sr clk xs d = Inr d' \<and> told_by (sr_codec sr) final (reported d' k)
    \<and> (final \<in> fst ` set xs \<or> (\<exists>row. reported d k = Some row \<and> ss_revision row = st_revision final)
       \<longrightarrow> (\<exists>row. reported d' k = Some row \<and> ss_revision row = st_revision final))"
  using assms(2-4)
proof (induction xs arbitrary: d)
  case (Cons x xs)
  obtain p bs cose key ev where x: "x = (p, bs, cose, key, ev)" by (cases x)
  from Cons.prems(1) have p: "k = (st_to p, st_message_id p)" "encodeStatus (sr_codec sr) p = Inr bs"
      "st_state p = Accepted \<longleftrightarrow> st_revision p = 1" "terminal (st_state p) \<longleftrightarrow> st_revision p = st_revision final"
      "st_revision p \<le> st_revision final" "st_revision p = st_revision final \<longrightarrow> p = final" "1 < st_revision final"
    and rest: "issued_by_one (sr_codec sr) k final xs"
    by (auto simp: issued_by_one_def x)
  have "concerns_sent d p" using Cons.prems(2) by (auto simp: x)
  from apply_ready [OF assms(1) this p(2)] obtain outcome d1 where a: "apply_status sr clk p bs cose key ev d = Inr (outcome, d1)"
    "sent_envelopes d1 = sent_envelopes d"
    "if status_verdict (reported d k) p bs = None
       then \<exists>row. reported d1 = (reported d)(k \<mapsto> row) \<and> new_reported p bs (reported d k) row else d1 = d"
    unfolding p(1) by blast
  have sent: "\<forall>(q, _) \<in> set xs. concerns_sent d1 q"
    using Cons.prems(2) a(2) by (auto simp: concerns_sent_def)
  have told: "told_by (sr_codec sr) final (reported d1 k)"
    and here: "p = final \<or> (\<exists>row. reported d k = Some row \<and> ss_revision row = st_revision final)
      \<Longrightarrow> \<exists>row. reported d1 k = Some row \<and> ss_revision row = st_revision final"
    using a(3) p Cons.prems(3)
    by (cases "reported d k"; auto simp: told_by_def verdict_None new_reported_def status_verdict_def split: if_splits)+
  from Cons.IH [OF rest sent told] obtain d' where d': "apply_all sr clk xs d1 = Inr d'" "told_by (sr_codec sr) final (reported d' k)"
    "final \<in> fst ` set xs \<or> (\<exists>row. reported d1 k = Some row \<and> ss_revision row = st_revision final)
       \<longrightarrow> (\<exists>row. reported d' k = Some row \<and> ss_revision row = st_revision final)" by blast
  from a(1) d' here show ?case by (auto simp: x)
qed simp

text \<open>
  C35. Statuses converge: if the final status of a message arrives at some point among any statuses of
  the message that its provider issued, in any order, with repetitions and with gaps, then the receiver processes
  all of them and ends with exactly the final status.
\<close>

theorem status_converges:
  assumes "ready_receiver sr" and "issued_by_one (sr_codec sr) k final xs" and "final \<in> fst ` set xs"
    and "\<forall>(p, _) \<in> set xs. concerns_sent d p" and "reported d k = None"
  shows "\<exists>d' row. apply_all sr clk xs d = Inr d' \<and> reported d' k = Some row \<and> ss_revision row = st_revision final
    \<and> ss_state row = st_state final \<and> encodeStatus (sr_codec sr) final = Inr (ss_payload row)"
proof -
  have "told_by (sr_codec sr) final (reported d k)" using assms(5) by (simp add: told_by_def)
  from apply_all_told [OF assms(1,2,4) this, of clk] assms(3)
  obtain d' row where d': "apply_all sr clk xs d = Inr d'" "told_by (sr_codec sr) final (reported d' k)"
    "reported d' k = Some row" "ss_revision row = st_revision final" by blast
  then show ?thesis by (auto simp: told_by_def)
qed


section \<open>What a signed status says\<close>

lemma read_status_sort: "read_status (sort_members h) = read_status h"
proof -
  have "map_option (\<lambda>x. int_of (Some x)) (sorted_field v) = map_option (\<lambda>x. int_of (Some x)) v" for v
    by (rule read_optional_sort) (metis read_sort(2) option.simps(9))
  then show ?thesis by (simp add: read_status_def reorder)
qed

lemma read_status_same: "same_value (status_object s) h \<Longrightarrow> read_status h = s"
  using read_status_sort [of h] read_status_sort [of "status_object s"] by (simp add: same_value_def read_status_object)

lemma status_type: "DeliveryStatus \<in> set signed_types"
  by (simp add: signed_types_def)

lemma payload_of_work:
  assumes "status_payload c k r w accepted = Inr p"
  shows "st_to p = fst k \<and> st_message_id p = snd k \<and> st_from p = rcv_recipient r \<and> digest_value (st_envelope_digest p) = rcv_envelope_digest r
    \<and> st_state p = work_state w"
  using assms by (auto simp: status_payload_def Let_def split: HailDeliveryState.splits)

lemma sign_status_signs:
  "sign_status sx r key p = Inr cose \<Longrightarrow> \<exists>signer. signPayload (codec_lib (sx_codec sx)) (codec_env (sx_codec sx)) DeliveryStatus
     (of_hail (status_object p)) signer = Inr cose"
  by (auto simp: sign_status_def Let_def)

lemma stored_payload:
  assumes "sign_and_store sx seen k r p d = Inr (x, d')"
  shows "\<exists>cose bs key. x = Some cose \<and> encodeStatus (sx_codec sx) p = Inr bs \<and> map_of (delivery_status_payloads d') (k, nat (st_revision p)) = Some bs
    \<and> sign_status sx r key p = Inr cose \<and> terminal_status_publications d' = terminal_status_publications d
    \<and> received_envelopes d' = received_envelopes d \<and> delivery_work d' = delivery_work d
    \<and> provider_migration_fences d' = provider_migration_fences d"
proof -
  from assms obtain bs key kk ev d1 cose where e: "x = Some cose" "encodeStatus (sx_codec sx) p = Inr bs" "sign_status sx r key p = Inr cose"
    and s: "persist_payload (sx_functions sx) k (st_revision p) bs d = Inr d1"
      "persist_wrapper (sx_functions sx) k (st_revision p) kk cose ev d1 = Inr d'"
    by (clarsimp simp: sign_and_store_def Let_def)
  have "map_of (delivery_status_payloads d1) (k, nat (st_revision p)) = Some bs \<and> terminal_status_publications d1 = terminal_status_publications d
      \<and> received_envelopes d1 = received_envelopes d \<and> delivery_work d1 = delivery_work d
      \<and> provider_migration_fences d1 = provider_migration_fences d"
    using s(1) by (auto simp: persist_payload_def Let_def split: option.splits if_splits)
  moreover have "delivery_status_payloads d' = delivery_status_payloads d1 \<and> terminal_status_publications d' = terminal_status_publications d1
      \<and> received_envelopes d' = received_envelopes d1 \<and> delivery_work d' = delivery_work d1
      \<and> provider_migration_fences d' = provider_migration_fences d1"
    using s(2) by (auto simp: persist_wrapper_def)
  ultimately show ?thesis using e by auto
qed

text \<open>
  C36. A signed status is true, valid and recorded: the representation that \<open>signCurrent\<close> returns inspects as a well-formed
  status of the accepted message that names its sender, recipient and envelope digest and states the
  state of its delivery as it was read, and its payload is the one stored for that revision,
  so that no other payload is ever signed under the same revision.
\<close>

theorem signed_status_is_current:
  assumes "cbor_library (codec_lib (sx_codec sx))" and "signCurrent sx seen k d = Inr (Some cose, d')"
  shows "\<exists>r w p bs. map_of (received_envelopes (seen 0)) k = Some r \<and> rcv_outcome r = WasAccepted
    \<and> map_of (delivery_work (seen 0)) k = Some w \<and> inspectStatus (sx_codec sx) cose = Inr (p, bs) \<and> wf_status p
    \<and> (st_to p, st_message_id p) = k \<and> st_from p = rcv_recipient r \<and> digest_value (st_envelope_digest p) = rcv_envelope_digest r
    \<and> st_state p = work_state w \<and> map_of (delivery_status_payloads d') (k, nat (st_revision p)) = Some bs"
proof -
  let ?c = "sx_codec sx"
  obtain r w accepted p where rw: "map_of (received_envelopes (seen 0)) k = Some r" "map_of (delivery_work (seen 0)) k = Some w"
      "rcv_outcome r = WasAccepted" "status_payload ?c k r w accepted = Inr p" "sign_and_store sx seen k r p d = Inr (Some cose, d')"
    using assms(2) by (auto simp: signCurrent_def split: option.splits if_splits)
  obtain bs key where st: "encodeStatus ?c p = Inr bs" "map_of (delivery_status_payloads d') (k, nat (st_revision p)) = Some bs"
      "sign_status sx r key p = Inr cose"
    using stored_payload [OF rw(5)] by blast
  obtain signer where "signPayload (codec_lib ?c) (codec_env ?c) DeliveryStatus (of_hail (status_object p)) signer = Inr cose"
    using sign_status_signs [OF st(3)] by blast
  from cbor_library.inspect_of_sign [OF assms(1) status_type unique_status_object this] obtain object
    where o: "inspectSignedPayload (codec_lib ?c) (codec_env ?c) DeliveryStatus cose = Inr object" "same_value (status_object p) (object_payload object)"
      "encodePayload (codec_lib ?c) (codec_env ?c) DeliveryStatus (of_hail (status_object p)) DEFAULT_HAIL_RESOURCE_LIMITS = Inr (object_payloadBytes object)"
      "validatePayload (codec_env ?c) DeliveryStatus (of_hail (object_payload object)) = Inr ()" "unique_keys (object_payload object)" by blast
  have p: "read_status (object_payload object) = p" by (rule read_status_same [OF o(2)])
  obtain kvs where kvs: "object_payload object = HMap kvs" "get (object_payload object) ''type'' = txt_lit (type_name DeliveryStatus)"
      "validate_by_type (codec_env ?c) DeliveryStatus (object_payload object) = Inr ()"
      "version_exempt DeliveryStatus (get (object_payload object) ''version'') \<or> get (object_payload object) ''version'' = int_lit 1"
    using validatePayload_signed [OF o(4) status_type] by blast
  then have "wf_status p" using validateDeliveryStatus_sound [of kvs] o(5) p by (simp add: validate_by_type_def version_exempt_def)
  moreover have "inspectStatus ?c cose = Inr (p, bs)" using o(1,3) p st(1) by (simp add: inspectStatus_def encodeStatus_def)
  ultimately show ?thesis using rw(1,2,3) payload_of_work [OF rw(4)] st(2) by auto
qed

section \<open>The end of a publication\<close>

lemma interval_bounds: "1 \<le> attempt \<Longrightarrow> 30 \<le> status_interval attempt \<and> status_interval attempt \<le> 86400"
proof -
  have "attempt \<in> {1, 2, 3, 4, 5}" if "1 \<le> attempt" "\<not> 5 < attempt" using that by auto
  then show "1 \<le> attempt \<Longrightarrow> 30 \<le> status_interval attempt \<and> status_interval attempt \<le> 86400"
    by (auto simp: status_interval_def)
qed

lemma next_status_bounds:
  assumes "1 \<le> attempt" and "0 \<le> random" and "random < 1"
  shows "now + 24000 \<le> nextStatusAttempt now random attempt remote"
proof -
  let ?s = "status_interval attempt"
  let ?low = "\<lceil>of_int ?s * (4 / 5) :: rat\<rceil>" and ?high = "\<lfloor>of_int ?s * (6 / 5) :: rat\<rfloor>"
  have s: "30 \<le> ?s" using interval_bounds [OF assms(1)] by blast
  then have "(24 :: rat) \<le> of_int ?s * (4 / 5)" by simp
  then have low: "24 \<le> ?low" by linarith
  have "(36 :: rat) \<le> of_int ?s * (6 / 5)" using s by simp
  moreover have "(of_int ?s * (4 / 5) :: rat) + 1 \<le> of_int ?s * (6 / 5)" using s by simp
  ultimately have "?low \<le> ?high + 1" by linarith
  then have "0 \<le> random * of_int (?high - ?low + 1)" using assms(2) by (intro mult_nonneg_nonneg) auto
  then have "0 \<le> \<lfloor>random * of_int (?high - ?low + 1)\<rfloor>" by simp
  moreover have "now + 24000 \<le> now + (a + b) * 1000" if "24 \<le> a" "0 \<le> b" for a b :: int using that by simp
  ultimately have "now + 24000 \<le> now + (?low + \<lfloor>random * of_int (?high - ?low + 1)\<rfloor>) * 1000" using low by blast
  then show ?thesis unfolding nextStatusAttempt_def Let_def by (rule max.coboundedI1)
qed

text \<open>The row that a claim leases; the claim carries its key, its count of attempts and the deadline.\<close>

definition leased_to :: "status_claim \<Rightarrow> instant \<Rightarrow> db \<Rightarrow> publication_row \<Rightarrow> bool" where
  "leased_to c t d row \<longleftrightarrow> map_of (terminal_status_publications d) (sc_sender c, sc_message c) = Some row
     \<and> pub_lease row = Some (sc_token c) \<and> pub_lease_expires_at row = Some (t + 60000000) \<and> open_status (pub_state row)
     \<and> pub_next_attempt_at row \<le> t"

text \<open>The deadline of a publication follows from the envelope and from the time of its end.\<close>

definition publication_deadline :: "status_services \<Rightarrow> message_key \<Rightarrow> db \<Rightarrow> int option" where
  "publication_deadline sx k d = (case (map_of (received_envelopes d) k, map_of (delivery_work d) k) of
     (Some r, Some w) \<Rightarrow> (case inspectEnvelope (sx_codec sx) (rcv_cose r) of Inl _ \<Rightarrow> None | Inr e \<Rightarrow> Some (retry_until e w))
   | _ \<Rightarrow> None)"

definition same_publication :: "message_key \<Rightarrow> db \<Rightarrow> db \<Rightarrow> bool" where
  "same_publication k d d' \<longleftrightarrow> map_of (terminal_status_publications d') k = map_of (terminal_status_publications d) k
     \<and> map_of (received_envelopes d') k = map_of (received_envelopes d) k \<and> map_of (delivery_work d') k = map_of (delivery_work d) k"

definition same_message :: "message_key \<Rightarrow> db \<Rightarrow> db \<Rightarrow> bool" where
  "same_message k d d' \<longleftrightarrow> map_of (received_envelopes d') k = map_of (received_envelopes d) k
     \<and> map_of (delivery_work d') k = map_of (delivery_work d) k"

lemma same_message_deadline: "same_message k d d' \<Longrightarrow> publication_deadline sx k d' = publication_deadline sx k d"
  by (simp add: same_message_def publication_deadline_def)

lemma same_message_trans: "same_message k d d' \<Longrightarrow> same_message k d' d'' \<Longrightarrow> same_message k d d''"
  by (simp add: same_message_def)

lemma same_publication_message: "same_publication k d d' \<Longrightarrow> same_message k d d'"
  by (simp add: same_publication_def same_message_def)

lemma claim_status_leased:
  assumes "claim_status sx clk locked token d = Inr (Some c, d')" and "keyed (terminal_status_publications d)"
  defines "k \<equiv> (sc_sender c, sc_message c)"
  shows "\<exists>row. leased_to c (clk 0) d' row" and "1 \<le> sc_attempt c" and "same_message k d d'"
    and "publication_deadline sx k d = Some (sc_retryUntil c)"
    and "\<exists>row. map_of (terminal_status_publications d) k = Some row \<and> status_due d (clk 0) locked (k, row)"
proof -
  from assms(1) obtain h row where sel: "first_by (\<lambda>(k, row). (pub_next_attempt_at row, snd k))
      (filter (status_due d (clk 0) locked) (terminal_status_publications d)) = Some (h, row)"
    by (auto simp: claim_status_def split: option.splits)
  then have "status_due d (clk 0) locked (h, row)" "(h, row) \<in> set (terminal_status_publications d)"
    using first_by_mem by fastforce+
  moreover from this(1) have "open_status (pub_state row)" "pub_next_attempt_at row \<le> clk 0"
    by (auto simp: status_due_def split: option.splits)
  moreover have "k = h" using assms(1) unfolding claim_status_def sel k_def by (auto split: option.splits)
  ultimately show "\<exists>row. leased_to c (clk 0) d' row" "1 \<le> sc_attempt c" "same_message k d d'"
    "publication_deadline sx k d = Some (sc_retryUntil c)"
    "\<exists>row. map_of (terminal_status_publications d) k = Some row \<and> status_due d (clk 0) locked (k, row)"
    using assms(1) map_of_is_SomeI [OF assms(2) [unfolded keyed_def]] unfolding claim_status_def sel
    by (auto simp: leased_to_def same_message_def publication_deadline_def split: option.splits)
qed

lemma finish_status_leased:
  assumes "leased_to c t d row" and "finish_status fx clk c state status nxt err d = Inr d'"
  shows "\<exists>row'. map_of (terminal_status_publications d') (sc_sender c, sc_message c) = Some row' \<and> pub_state row' = state
    \<and> pub_lease row' = None \<and> pub_lease_expires_at row' = None \<and> (\<forall>t. nxt = Some t \<longrightarrow> pub_next_attempt_at row' = t * 1000)"
  using assms by (auto simp: finish_status_def leased_to_def Let_def)

lemma finish_status_message: "finish_status fx clk c state status nxt err d = Inr d' \<Longrightarrow> same_message k d d'"
  by (auto simp: finish_status_def same_message_def Let_def split: option.splits if_splits)

lemma signCurrent_publications:
  "signCurrent sx seen k d = Inr (x, d') \<Longrightarrow> terminal_status_publications d' = terminal_status_publications d
     \<and> received_envelopes d' = received_envelopes d \<and> delivery_work d' = delivery_work d
     \<and> provider_migration_fences d' = provider_migration_fences d"
  by (auto simp: signCurrent_def split: option.splits if_splits dest!: stored_payload)

text \<open>
  The row after an attempt that began at \<open>t\<close>, with the deadline \<open>u\<close>: closed, rescheduled before the deadline, or, if the
  result cannot be written, left under the lease.
\<close>

definition attempt_settled :: "instant \<Rightarrow> int \<Rightarrow> publish_result outcome \<Rightarrow> publication_row \<Rightarrow> bool" where
  "attempt_settled t u result row \<longleftrightarrow> (case result of
     Inl _ \<Rightarrow> open_status (pub_state row) \<and> pub_next_attempt_at row \<le> t \<and> pub_lease_expires_at row = Some (t + 60000000)
   | Inr PublishIdle \<Rightarrow> False
   | Inr PublishRetry \<Rightarrow> pub_state row = Retry \<and> pub_lease_expires_at row = None \<and> t < u * 1000
       \<and> min (u * 1000) (t + 24000000) \<le> pub_next_attempt_at row \<and> pub_next_attempt_at row \<le> u * 1000
   | Inr PublishAcknowledged \<Rightarrow> pub_state row = Acknowledged
   | Inr PublishBlocked \<Rightarrow> pub_state row = Blocked)"

definition fair_run :: "publisher_run \<Rightarrow> bool" where
  "fair_run run \<longleftrightarrow> 0 \<le> pr_random run \<and> pr_random run < 1
     \<and> pr_clock run 0 0 \<le> pr_now run 1 * 1000 \<and> pr_now run 1 \<le> pr_now run 2"

abbreviation settled_in :: "publisher_run \<Rightarrow> status_claim \<Rightarrow> publish_result outcome \<Rightarrow> db \<Rightarrow> bool" where
  "settled_in run c result d \<equiv> \<exists>row. map_of (terminal_status_publications d) (sc_sender c, sc_message c) = Some row
     \<and> attempt_settled (pr_clock run 0 0) (sc_retryUntil c) result row"

lemma push_again_settled:
  assumes "leased_to c (pr_clock run 0 0) d row" and "push_again fx run c st ra d = (result, d')" and "1 \<le> sc_attempt c"
    and "fair_run run"
  shows "settled_in run c result d'" and "same_message k d d'"
proof -
  note fair = assms(4) [unfolded fair_run_def]
  let ?n = "nextStatusAttempt (pr_now run 2) (pr_random run) (sc_attempt c) ra"
  let ?blocked = "finish_status fx (pr_clock run 2) c Blocked st None (Some ''Minimum terminal status retry deadline passed'') d"
  let ?again = "finish_status fx (pr_clock run 2) c Retry st (Some (min (sc_retryUntil c) ?n))
      (Some ''Status delivery is not yet acknowledged'') d"
  have n: "pr_now run 2 + 24000 \<le> ?n" using next_status_bounds [OF assms(3)] fair by blast
  consider (failed) e where "result = Inl e" "d' = d"
    | (late) "sc_retryUntil c \<le> pr_now run 1" "?blocked = Inr d'" "result = Inr PublishBlocked"
    | (early) "pr_now run 1 < sc_retryUntil c" "?again = Inr d'" "result = Inr PublishRetry"
    using assms(2) by (auto simp: push_again_def Let_def not_le split: sum.splits if_splits)
  then show "settled_in run c result d'"
  proof cases
    case failed
    with assms(1) show ?thesis by (auto simp: leased_to_def attempt_settled_def)
  next
    case late
    with finish_status_leased [OF assms(1) late(2)] show ?thesis by (auto simp: attempt_settled_def)
  next
    case early
    have "min (sc_retryUntil c * 1000) (pr_clock run 0 0 + 24000000) \<le> min (sc_retryUntil c) ?n * 1000"
      using n fair by (auto simp: min_def)
    with finish_status_leased [OF assms(1) early(2)] early(1,3) fair show ?thesis by (auto simp: attempt_settled_def)
  qed
  show "same_message k d d'"
    using assms(2) finish_status_message by (auto simp: push_again_def Let_def same_message_def split: sum.splits if_splits)
qed

lemma handle_response_settled:
  assumes "leased_to c (pr_clock run 0 0) d row" and "handle_response fx run c response d = (result, d')" and "1 \<le> sc_attempt c"
    and "fair_run run"
  shows "settled_in run c result d' \<and> same_message k d d'"
proof -
  note push = push_again_settled [OF assms(1) _ assms(3,4)]
  let ?st = "Some (http_status response)"
  have close: "settled_in run c result d' \<and> same_message k d d'"
    if r: "(case finish_status fx (pr_clock run 1) c state ?st None err d of
        Inl _ \<Rightarrow> push_again fx run c ?st None d | Inr d' \<Rightarrow> (Inr verdict, d')) = (result, d')"
      and v: "verdict = PublishAcknowledged \<and> state = Acknowledged \<or> verdict = PublishBlocked \<and> state = Blocked" for state verdict err
  proof (cases "finish_status fx (pr_clock run 1) c state ?st None err d")
    case (Inl e)
    with r push show ?thesis by simp
  next
    case (Inr d2)
    with r have "d' = d2" "result = Inr verdict" by simp_all
    with finish_status_leased [OF assms(1) Inr] finish_status_message [OF Inr] v show ?thesis by (auto simp: attempt_settled_def)
  qed
  show ?thesis
  proof (cases "http_status response = 204 \<and> \<not> http_has_body response \<and> http_content_encoding response = None")
    case True
    from assms(2) show ?thesis unfolding handle_response_def Let_def if_P [OF True] by (rule close) simp_all
  next
    case other: False
    show ?thesis
    proof (cases "http_status response \<in> {400, 409, 405, 413, 415}")
      case True
      from assms(2) show ?thesis unfolding handle_response_def Let_def if_not_P [OF other] if_P [OF True] by (rule close) simp_all
    next
      case False
      from assms(2) push show ?thesis unfolding handle_response_def Let_def if_not_P [OF other] if_not_P [OF False] by blast
    qed
  qed
qed

text \<open>
  An attempt on the publication \<open>k\<close>: one run of the publisher that claims it. Meanwhile other components leave its
  rows alone, and the clock of the process is not behind that of the database.
\<close>

record status_attempt =
  sa_run :: publisher_run
  sa_before :: db
  sa_result :: "publish_result outcome"
  sa_after :: db

abbreviation begun :: "status_attempt \<Rightarrow> instant" where
  "begun a \<equiv> pr_clock (sa_run a) 0 0"

definition attempt_on :: "status_services \<Rightarrow> message_key \<Rightarrow> status_attempt \<Rightarrow> bool" where
  "attempt_on sx k a \<longleftrightarrow> (let run = sa_run a in keyed (terminal_status_publications (sa_before a))
     \<and> (\<exists>c d. claim_status sx (pr_clock run 0) (pr_locked run) (pr_token run) (sa_before a) = Inr (Some c, d)
          \<and> (sc_sender c, sc_message c) = k)
     \<and> publishOne sx run (sa_before a) = (sa_result a, sa_after a)
     \<and> (\<forall>i d. same_publication k d (pr_meanwhile run i d)) \<and> fair_run run)"

text \<open>Attempts on the same publication, in their order; its rows do not change from one to the next.\<close>

definition attempts :: "status_services \<Rightarrow> message_key \<Rightarrow> status_attempt list \<Rightarrow> bool" where
  "attempts sx k as \<longleftrightarrow> list_all (attempt_on sx k) as
     \<and> successively (\<lambda>a b. same_publication k (sa_after a) (sa_before b)) as"

lemma attempt_outcome:
  assumes "attempt_on sx k a" and "publication_deadline sx k (sa_before a) = Some u"
  obtains row where "map_of (terminal_status_publications (sa_after a)) k = Some row" "attempt_settled (begun a) u (sa_result a) row"
    "same_message k (sa_before a) (sa_after a)"
proof -
  define run where "run = sa_run a"
  obtain c d1 where c: "claim_status sx (pr_clock run 0) (pr_locked run) (pr_token run) (sa_before a) = Inr (Some c, d1)"
      "(sc_sender c, sc_message c) = k" and keyed: "keyed (terminal_status_publications (sa_before a))"
    and p: "publishOne sx run (sa_before a) = (sa_result a, sa_after a)"
    and alone: "\<And>i d. same_publication k d (pr_meanwhile run i d)" and fair: "fair_run run"
    using assms(1) unfolding attempt_on_def Let_def run_def by blast
  note cl = claim_status_leased [OF c(1) keyed, unfolded c(2)]
  obtain row where row: "leased_to c (pr_clock run 0 0) d1 row" using cl(1) by blast
  have u: "sc_retryUntil c = u" using cl(4) assms(2) by simp
  define d2 where "d2 = pr_meanwhile run 0 d1"
  define d3 where "d3 = (case signCurrent sx (pr_seen run) k d2 of Inl e \<Rightarrow> d2 | Inr (s, d') \<Rightarrow> d')"
  define d4 where "d4 = pr_meanwhile run 1 d3"
  have "same_publication k d2 d3"
    using signCurrent_publications [of sx "pr_seen run" k d2] by (auto simp: same_publication_def d3_def split: sum.splits)
  then have s: "same_publication k d1 d4"
    using alone [of d1 0] alone [of d3 1] by (simp add: same_publication_def d2_def d4_def)
  then have row: "leased_to c (pr_clock run 0 0) d4 row" using row by (simp add: leased_to_def same_publication_def c(2))
  have "(\<exists>response. handle_response (sx_functions sx) run c response d4 = (sa_result a, sa_after a))
      \<or> push_again (sx_functions sx) run c None None d4 = (sa_result a, sa_after a)"
    using p unfolding publishOne_def c(1)
    by (auto simp: d4_def d3_def d2_def c(2) Let_def split: sum.splits prod.splits)
  then have "settled_in run c (sa_result a) (sa_after a) \<and> same_message k d4 (sa_after a)"
    using handle_response_settled [OF row _ cl(2) fair] push_again_settled [OF row _ cl(2) fair] by blast
  moreover have "same_message k (sa_before a) d4"
    by (rule same_message_trans [OF cl(3) same_publication_message [OF s]])
  ultimately show thesis using that same_message_trans by (auto simp: c(2) u run_def)
qed

text \<open>The next attempt begins 24 seconds after the one before, or not before the deadline.\<close>

definition apart :: "int \<Rightarrow> status_attempt \<Rightarrow> status_attempt \<Rightarrow> bool" where
  "apart u a b \<longleftrightarrow> (sa_result a = Inr PublishRetry \<or> (\<exists>e. sa_result a = Inl e)) \<and> min (u * 1000) (begun a + 24000000) \<le> begun b"

lemma attempt_apart:
  assumes "attempt_on sx k a" and "attempt_on sx k b" and "same_publication k (sa_after a) (sa_before b)"
    and "publication_deadline sx k (sa_before a) = Some u"
  shows "apart u a b" and "publication_deadline sx k (sa_before b) = Some u"
proof -
  obtain row where row: "map_of (terminal_status_publications (sa_after a)) k = Some row" "attempt_settled (begun a) u (sa_result a) row"
      and m: "same_message k (sa_before a) (sa_after a)"
    by (rule attempt_outcome [OF assms(1,4)])
  show "publication_deadline sx k (sa_before b) = Some u"
    using same_message_deadline [OF same_message_trans [OF m same_publication_message [OF assms(3)]]] assms(4) by simp
  let ?run = "sa_run b"
  obtain c d where c: "claim_status sx (pr_clock ?run 0) (pr_locked ?run) (pr_token ?run) (sa_before b) = Inr (Some c, d)"
      "(sc_sender c, sc_message c) = k" "keyed (terminal_status_publications (sa_before b))"
    using assms(2) unfolding attempt_on_def Let_def by blast
  have "status_due (sa_before b) (begun b) (pr_locked ?run) (k, row)"
    using claim_status_leased(5) [OF c(1,3)] row(1) assms(3) by (auto simp: c(2) same_publication_def)
  then have "open_status (pub_state row)" "pub_next_attempt_at row \<le> begun b" "\<forall>t. pub_lease_expires_at row = Some t \<longrightarrow> t \<le> begun b"
    by (auto simp: status_due_def split: option.splits)
  with row(2) show "apart u a b"
    by (auto simp: attempt_settled_def apart_def open_status_def split: sum.splits publish_result.splits)
qed

lemma attempts_apart:
  assumes "attempts sx k as" and "as \<noteq> []" and "publication_deadline sx k (sa_before (hd as)) = Some u"
  shows "successively (apart u) as" and "\<forall>a \<in> set as. attempt_on sx k a \<and> publication_deadline sx k (sa_before a) = Some u"
proof -
  have "successively (apart u) as \<and> (\<forall>a \<in> set as. attempt_on sx k a \<and> publication_deadline sx k (sa_before a) = Some u)"
    using assms
  proof (induction as rule: induct_list012)
    case (3 a b as)
    from 3(3) have a: "attempt_on sx k a" "attempt_on sx k b" "same_publication k (sa_after a) (sa_before b)"
      and r: "attempts sx k (b # as)" by (simp_all add: attempts_def)
    from 3(5) have u: "publication_deadline sx k (sa_before a) = Some u" by simp
    note step = attempt_apart [OF a u]
    have "publication_deadline sx k (sa_before (hd (b # as))) = Some u" using step(2) by simp
    from 3(2) [OF r _ this] have "successively (apart u) (b # as)"
      "\<forall>a \<in> set (b # as). attempt_on sx k a \<and> publication_deadline sx k (sa_before a) = Some u" by simp_all
    with step(1) a(1) u show ?case by simp
  qed (simp_all add: attempts_def)
  then show "successively (apart u) as" "\<forall>a \<in> set as. attempt_on sx k a \<and> publication_deadline sx k (sa_before a) = Some u" by simp_all
qed

lemma apart_late: "successively (apart u) (a # as) \<Longrightarrow> u * 1000 \<le> begun a \<Longrightarrow> \<forall>b \<in> set as. u * 1000 \<le> begun b"
proof (induction as arbitrary: a)
  case (Cons b as)
  from Cons.prems have "u * 1000 \<le> begun b" by (auto simp: apart_def min_def split: if_splits)
  with Cons.IH [of b] Cons.prems(1) show ?case by simp
qed simp

lemma apart_bound:
  "successively (apart u) (a # as) \<Longrightarrow> length (filter (\<lambda>a. begun a < u * 1000) (a # as)) \<le> 1 + nat ((u * 1000 - begun a) div 24000000)"
proof (induction as arbitrary: a)
  case (Cons b as)
  let ?f = "\<lambda>as. length (filter (\<lambda>a. begun a < u * 1000) as)"
  have step: "?f (a # b # as) \<le> 1 + ?f (b # as)" by simp
  show ?case
  proof (cases "u * 1000 \<le> begun b")
    case True
    then have "?f (b # as) = 0" using apart_late [of u b as] Cons.prems by (auto simp: filter_empty_conv not_less)
    with step show ?thesis by linarith
  next
    case False
    then have "begun a + 24000000 \<le> begun b" using Cons.prems by (auto simp: apart_def)
    then have "1 + (u * 1000 - begun b) div 24000000 \<le> (u * 1000 - begun a) div 24000000" "0 \<le> (u * 1000 - begun b) div 24000000"
      using False by linarith+
    moreover have "?f (b # as) \<le> 1 + nat ((u * 1000 - begun b) div 24000000)" using Cons by simp
    ultimately show ?thesis using step by linarith
  qed
qed simp

lemma late_once:
  "successively (apart u) as \<Longrightarrow> \<forall>a \<in> set as. (\<exists>row. attempt_settled (begun a) u (sa_result a) row) \<and> (\<exists>result. sa_result a = Inr result)
     \<Longrightarrow> length (filter (\<lambda>a. \<not> begun a < u * 1000) as) \<le> 1"
proof (induction as rule: induct_list012)
  case (3 a b as)
  then have "begun a < u * 1000" by (auto simp: apart_def attempt_settled_def)
  with 3 show ?case by simp
qed simp_all

text \<open>An open publication is due again at every time from the deadline on, once a lease that was not given back is over.\<close>

definition due_again :: "message_key \<Rightarrow> int \<Rightarrow> status_attempt \<Rightarrow> publication_row \<Rightarrow> bool" where
  "due_again k u a row \<longleftrightarrow> (\<exists>r. map_of (received_envelopes (sa_after a)) k = Some r \<and>
     (\<forall>now locked. u * 1000 \<le> now \<and> begun a + 60000000 \<le> now \<and> \<not> locked k \<and> \<not> fenced_did (sa_after a) (rcv_recipient r) \<longrightarrow>
       status_due (sa_after a) now locked (k, row)))"

lemma settled_due_again:
  assumes "publication_deadline sx k (sa_after a) = Some u" and "attempt_settled (begun a) u (sa_result a) row" and "open_status (pub_state row)"
  shows "due_again k u a row"
proof -
  obtain r where "map_of (received_envelopes (sa_after a)) k = Some r" "has_row (delivery_work (sa_after a)) k"
    using assms(1) by (auto simp: publication_deadline_def has_row_def split: option.splits)
  moreover have "pub_next_attempt_at row \<le> max (u * 1000) (begun a)"
    "\<forall>t. pub_lease_expires_at row = Some t \<longrightarrow> t \<le> begun a + 60000000"
    using assms(2,3) by (auto simp: attempt_settled_def open_status_def split: sum.splits publish_result.splits)
  ultimately show ?thesis using assms(3) by (auto simp: due_again_def status_due_def split: option.splits)
qed

text \<open>
  C37. The publication of a final status ends. Whatever the network answers, an attempt closes the publication
  (acknowledged, or blocked for good), or keeps it open and due again: rescheduled to the deadline at the latest, or, if its
  result cannot be written, under its lease of 60 seconds. The next attempt then begins at least 24 seconds after the
  one before, or not before the deadline; after an attempt that closed the publication there is none. So at most
  1 + (u - t) / 24 s attempts begin between the first one at \<open>t\<close> and the deadline \<open>u\<close>. None that
  begins at the deadline or later is rescheduled, so that, if all results can be written, there are at most
  2 + (u - t) / 24 s attempts in all. (Other components leave the rows of this publication alone meanwhile, and the publisher's clock is
  not behind the database's.)
\<close>

theorem status_publication_ends:
  assumes "attempts sx k (first # rest)" and "publication_deadline sx k (sa_before first) = Some u"
  shows "(\<forall>a \<in> set (first # rest). \<exists>row. map_of (terminal_status_publications (sa_after a)) k = Some row
        \<and> attempt_settled (begun a) u (sa_result a) row \<and> (open_status (pub_state row) \<longrightarrow> due_again k u a row))
    \<and> successively (apart u) (first # rest)
    \<and> length (filter (\<lambda>a. begun a < u * 1000) (first # rest)) \<le> 1 + nat ((u * 1000 - begun first) div 24000000)
    \<and> ((\<forall>a \<in> set (first # rest). \<exists>result. sa_result a = Inr result) \<longrightarrow>
        length (first # rest) \<le> 2 + nat ((u * 1000 - begun first) div 24000000))"
proof -
  let ?as = "first # rest"
  have all: "successively (apart u) ?as" "\<forall>a \<in> set ?as. attempt_on sx k a \<and> publication_deadline sx k (sa_before a) = Some u"
    using attempts_apart [OF assms(1)] assms(2) by simp_all
  have row: "\<exists>row. map_of (terminal_status_publications (sa_after a)) k = Some row \<and> attempt_settled (begun a) u (sa_result a) row
      \<and> (open_status (pub_state row) \<longrightarrow> due_again k u a row)" if a: "a \<in> set ?as" for a
  proof -
    from all(2) a have "attempt_on sx k a" "publication_deadline sx k (sa_before a) = Some u" by blast+
    from attempt_outcome [OF this] obtain row
      where row: "map_of (terminal_status_publications (sa_after a)) k = Some row" "attempt_settled (begun a) u (sa_result a) row"
        and m: "same_message k (sa_before a) (sa_after a)" .
    have "publication_deadline sx k (sa_after a) = Some u"
      using same_message_deadline [OF m] \<open>publication_deadline sx k (sa_before a) = Some u\<close> by simp
    with row show ?thesis using settled_due_again by blast
  qed
  have bound: "length (filter (\<lambda>a. begun a < u * 1000) ?as) \<le> 1 + nat ((u * 1000 - begun first) div 24000000)"
    by (rule apart_bound [OF all(1)])
  have "length ?as \<le> 2 + nat ((u * 1000 - begun first) div 24000000)" if "\<forall>a \<in> set ?as. \<exists>result. sa_result a = Inr result"
  proof -
    have "length (filter (\<lambda>a. \<not> begun a < u * 1000) ?as) \<le> 1" by (rule late_once [OF all(1)]) (use row that in blast)
    with bound sum_length_filter_compl [of "\<lambda>a. begun a < u * 1000" ?as] show ?thesis by linarith
  qed
  with row bound all(1) show ?thesis by blast
qed

end
