(* ===== verification/StatusExample.thy ===== *)
theory StatusExample
  imports StatusProperties DeliveryExample GrantExample
begin

text \<open>
  The delivery of Alice's reply continued: Bob's provider signs that it was delivered and pushes
  the status to Alice's provider, where it meets statuses in another order.
\<close>

declare split_paired_All [simp del] split_paired_Ex [simp del]

section \<open>Signed statuses\<close>

definition delivered_status :: HailDeliveryStatus where
  "delivered_status = \<lparr>st_message_id = message_1, st_envelope_digest = \<lparr>digest_value = any_digest\<rparr>, st_from = bob, st_to = alice,
     st_revision = 2, st_state = Delivered, st_reason = None, st_occurred_at = 1500, st_retry_at = None\<rparr>"

definition accepted_status :: HailDeliveryStatus where
  "accepted_status = delivered_status\<lparr>st_revision := 1, st_state := Accepted\<rparr>"

definition signable_status :: "HailDeliveryStatus \<Rightarrow> bool" where
  "signable_status s \<longleftrightarrow> wf_status s \<and> st_from s = bob \<and> bulk (status_object s) \<le> 4096 \<and> plain 33 (status_object s)"

lemma signable_statuses: "signable_status delivered_status" "signable_status accepted_status"
proof -
  have "wf_status delivered_status" "wf_status accepted_status"
    by (simp_all add: wf_status_def delivered_status_def accepted_status_def example_ids safe_bounds state_reasons_def any_digest_def)
  moreover have "bulk (status_object delivered_status) \<le> 4096" "plain 33 (status_object delivered_status)"
    "bulk (status_object accepted_status) \<le> 4096" "plain 33 (status_object accepted_status)"
    by (simp_all add: status_object_def delivered_status_def accepted_status_def present_def digest_object_def any_digest_def
        HAIL_MIN_INTEGER_def HAIL_MAX_INTEGER_def)
  ultimately show "signable_status delivered_status" "signable_status accepted_status"
    by (simp_all add: signable_status_def) (simp_all add: delivered_status_def accepted_status_def)
qed

definition signed_status :: "HailDeliveryStatus \<Rightarrow> bytes" where
  "signed_status s = signed_object DeliveryStatus (status_object s) (messaging_key_id bob)"

lemma bob_messaging: "messaging_key_id bob = key_id_of bob HailMessaging"
  by (simp add: messaging_key_id_def key_id_of_def lit_append [symmetric])

lemma sign_bob_status:
  assumes "signable_status s"
  shows "signPayload reference_cborg example_env DeliveryStatus (of_hail (status_object s)) (signer_of (messaging_key_id bob)) = Inr (signed_status s)"
proof -
  have o: "\<exists>kvs. status_object s = HMap kvs" using status_object_map by blast
  then have k: "expectedKeyId DeliveryStatus (status_object s) = Inr (messaging_key_id bob)"
    using assms by (simp add: expectedKeyId_Inr get_status_object signable_status_def example_ids bob_messaging)
  have "validatePayload example_env DeliveryStatus (of_hail (status_object s)) = Inr ()"
    by (rule validatePayload_signedI [OF _ _ o])
      (use assms in \<open>simp_all add: validate_by_type_def validateDeliveryStatus_complete get_status_object signed_types_def signable_status_def\<close>)
  from sign_object [OF status_type SIGNED_PROFILES.simps(9) unique_status_object _ this k] assms bob_key [of HailMessaging]
  show ?thesis by (simp add: signed_status_def signable_status_def bob_messaging)
qed


lemma status_object_of:
  assumes "signable_status s"
  obtains object where "inspectSignedPayload reference_cborg example_env DeliveryStatus (signed_status s) = Inr object"
    "verifySignedPayload reference_cborg example_env DeliveryStatus (signed_status s)
       (createWebCryptoVerifier (\<lambda>_. Inr example_key) example_subtle) = Inr object"
    "read_status (object_payload object) = s"
    "encodePayload reference_cborg example_env DeliveryStatus (of_hail (status_object s)) DEFAULT_HAIL_RESOURCE_LIMITS = Inr (object_payloadBytes object)"
proof -
  note sign = sign_bob_status [OF assms]
  obtain object where o: "inspectSignedPayload reference_cborg example_env DeliveryStatus (signed_status s) = Inr object"
      "same_value (status_object s) (object_payload object)"
      "verifySignedPayload reference_cborg example_env DeliveryStatus (signed_status s)
        (createWebCryptoVerifier (\<lambda>_. Inr example_key) example_subtle) = Inr object"
    by (rule inspect_object [OF sign status_type unique_status_object])
  moreover from reference.inspect_of_sign [OF status_type unique_status_object sign] o(1)
  have "encodePayload reference_cborg example_env DeliveryStatus (of_hail (status_object s)) DEFAULT_HAIL_RESOURCE_LIMITS = Inr (object_payloadBytes object)"
    by auto
  ultimately show thesis using that read_status_same by blast
qed

definition status_bytes :: "HailDeliveryStatus \<Rightarrow> bytes" where
  "status_bytes s = (case encodeStatus example_codec s of Inr bs \<Rightarrow> bs | Inl _ \<Rightarrow> [])"

lemma encode_signable:
  assumes "signable_status s"
  shows "encodeStatus example_codec s = Inr (status_bytes s)"
proof (rule status_object_of [OF assms])
  fix object
  assume "encodePayload reference_cborg example_env DeliveryStatus (of_hail (status_object s)) DEFAULT_HAIL_RESOURCE_LIMITS
      = Inr (object_payloadBytes object)"
  then show ?thesis by (simp add: status_bytes_def encodeStatus_def example_codec_def codec_result_def)
qed

lemma inspect_signable: "signable_status s \<Longrightarrow> inspectStatus example_codec (signed_status s) = Inr (s, status_bytes s)"
  by (rule status_object_of, assumption)
    (simp add: inspectStatus_def status_bytes_def encodeStatus_def example_codec_def codec_result_def)

text \<open>The check of the key identifier accepts Bob's key.\<close>

lemma verify_bob_status:
  assumes "signable_status s"
  shows "\<exists>object. verifySignedPayload reference_cborg example_env DeliveryStatus (signed_status s) (messaging_verifier example_crypto bob key) = Inr object"
proof -
  have c: "web_crypto example_subtle (\<lambda>i. if i \<noteq> messaging_key_id bob then throw InvalidSignature else Inr example_key)
      (key_id_of bob HailMessaging) example_key example_key (messaging_signer bob)"
    by (rule messaging_crypto) (simp add: bob_messaging)
  have s: "signPayload reference_cborg example_env DeliveryStatus (of_hail (status_object s)) (messaging_signer bob) = Inr (signed_status s)"
    using sign_bob_status [OF assms] by (simp add: signer_of_def messaging_signer_def bob_messaging)
  have "signed_transport reference_cborg (messaging_signer bob) (createWebCryptoVerifier
      (\<lambda>i. if i \<noteq> messaging_key_id bob then throw InvalidSignature else Inr example_key) example_subtle)"
    using reference.cbor_library_axioms web_crypto.adapters_belong_together [OF c] by (rule signed_transport.intro)
  moreover have "messaging_verifier example_crypto bob key = createWebCryptoVerifier
      (\<lambda>i. if i \<noteq> messaging_key_id bob then throw InvalidSignature else Inr example_key) example_subtle"
    by (simp add: messaging_verifier_def example_crypto_def cong: if_cong)
  ultimately show ?thesis using signed_transport.verify_of_sign [OF _ status_type unique_status_object s] by metis
qed

section \<open>At Bob's provider\<close>

definition bob_services :: status_services where
  "bob_services = \<lparr>sx_codec = example_codec, sx_crypto = example_crypto, sx_functions = open_functions,
     sx_getKey = (\<lambda>_. Inr \<lparr>key_algorithm = ''ed25519'', key_publicKey = lit ''k''\<rparr>), sx_privateKey = (\<lambda>_ _. Inr example_key),
     sx_resolve = (\<lambda>_. Inr \<lparr>messagingDidKey = lit ''k'', identityDidKey = lit ''i'', serviceBase = lit ''s'', document_evidence = no_evidence\<rparr>),
     sx_serviceBase = lit ''s'', retainPublicSigningAuthority = (\<lambda>_ _ _ _ _ _. Inr ())\<rparr>"

lemma bob_signer: "createWebCryptoSigner (messaging_key_id bob) example_key example_subtle = Inr (signer_of (messaging_key_id bob))"
  by (simp add: createWebCryptoSigner_def requireEd25519Key_def example_key_def signer_of_def example_subtle_def)

lemma length_signed_status: "signable_status s \<Longrightarrow> length (signed_status s) \<le> 16384"
  using sign_bob_status [of s] reference.signPayload_iff [OF status_type unique_status_object SIGNED_PROFILES.simps(9)] by (auto simp: Let_def)

lemma delivered_tables:
  "received_envelopes delivered_db = [((alice, message_1), received_of decision None (Some message_2) WasAccepted 1500000000)]"
  "delivery_work delivered_db = [((alice, message_1), ended Delivered None 1500000000 leased_row)]"
  "terminal_status_publications delivered_db = [((alice, message_1), new_publication 1500000000)]"
  "provider_accounts delivered_db = [(lit ''b'', bob_account)]" "delivery_status_payloads delivered_db = []"
  "delivery_status_wrappers delivered_db = []" "provider_migration_fences delivered_db = []"
  by (simp_all add: delivered_db_def claimed_db_tables)
    (simp_all add: claimed_db_def received_db_def sent_db_def published_def empty_db_def)

lemma run_sign_current:
  "\<exists>d'. signCurrent bob_services (\<lambda>_. delivered_db) (alice, message_1) delivered_db = Inr (Some (signed_status delivered_status), d')"
proof -
  let ?r = "received_of decision None (Some message_2) WasAccepted 1500000000"
  have r: "rcv_recipient ?r = bob" "rcv_account ?r = lit ''b''" "rcv_envelope_digest ?r = any_digest" "rcv_outcome ?r = WasAccepted"
    "rcv_accepted_at ?r = Some 1500000000"
    by (simp_all add: received_of_def decision_def js_time_def)
  have p: "status_payload example_codec (alice, message_1) ?r (ended Delivered None 1500000000 leased_row) 1500000000 = Inr delivered_status"
    by (simp add: status_payload_def r ended_def leased_row_def new_work_def delivered_status_def js_seconds_def js_time_def)
  obtain object where v: "verifySignedPayload reference_cborg example_env DeliveryStatus (signed_status delivered_status)
      (messaging_verifier example_crypto bob (lit ''k'')) = Inr object" using verify_bob_status [OF signable_statuses(1)] by blast
  have "sign_status bob_services ?r \<lparr>key_algorithm = ''ed25519'', key_publicKey = lit ''k''\<rparr> delivered_status = Inr (signed_status delivered_status)"
    using v sign_bob_status [OF signable_statuses(1)] length_signed_status [OF signable_statuses(1)] bob_signer
    by (simp add: sign_status_def bob_services_def r Let_def codec_result_def example_codec_def) (simp add: example_crypto_def)
  then show ?thesis
    using p encode_signable [OF signable_statuses(1)]
    by (simp add: signCurrent_def delivered_tables r bob_services_def sign_and_store_def Let_def status_signable_def bob_account_def
        publicly_active_def persist_payload_def persist_wrapper_def perform_def open_functions_def has_row_def)
qed

theorem signed_status_is_current_witness:
  "\<exists>p bs. inspectStatus example_codec (signed_status delivered_status) = Inr (p, bs) \<and> wf_status p \<and> st_from p = bob \<and> st_state p = Delivered"
proof -
  have "cbor_library (codec_lib (sx_codec bob_services))"
    using reference.cbor_library_axioms by (simp add: bob_services_def example_codec_def)
  moreover obtain d' where "signCurrent bob_services (\<lambda>_. delivered_db) (alice, message_1) delivered_db
      = Inr (Some (signed_status delivered_status), d')" using run_sign_current by blast
  ultimately obtain r w p bs where "map_of (received_envelopes delivered_db) (alice, message_1) = Some r"
      "map_of (delivery_work delivered_db) (alice, message_1) = Some w" "inspectStatus (sx_codec bob_services) (signed_status delivered_status) = Inr (p, bs)"
      "wf_status p" "st_from p = rcv_recipient r" "st_state p = work_state w"
    using signed_status_is_current by blast
  then show ?thesis by (auto simp: delivered_tables received_of_def decision_def ended_def bob_services_def)
qed

section \<open>At Alice's provider\<close>

definition alice_db :: db where
  "alice_db = empty_db\<lparr>provider_accounts := [(lit ''a'', bob_account\<lparr>acc_did := Some alice\<rparr>)],
     sent_envelopes := [((alice, message_1), sent_of answer (signed_envelope answer) any_digest (lit ''a''))]\<rparr>"

definition alice_receiver :: status_receiver where
  "alice_receiver = \<lparr>sr_codec = example_codec, sr_crypto = example_crypto, sr_functions = open_functions,
     sr_resolve = (\<lambda>_. Inr \<lparr>messagingDidKey = lit ''k'', identityDidKey = lit ''i'', serviceBase = lit ''s'', document_evidence = no_evidence\<rparr>),
     sr_serviceBase = lit ''s'', sr_aborted = (\<lambda>_. False)\<rparr>"

lemma status_fields:
  "st_to delivered_status = alice" "st_message_id delivered_status = message_1" "st_from delivered_status = bob"
  "st_to accepted_status = alice" "st_message_id accepted_status = message_1" "st_from accepted_status = bob"
  "st_envelope_digest delivered_status = \<lparr>digest_value = any_digest\<rparr>" "st_envelope_digest accepted_status = \<lparr>digest_value = any_digest\<rparr>"
  "st_revision delivered_status = 2" "st_revision accepted_status = 1" "st_state delivered_status = Delivered" "st_state accepted_status = Accepted"
  by (simp_all add: delivered_status_def accepted_status_def)

lemma alice_concerned: "concerns_sent alice_db delivered_status" "concerns_sent alice_db accepted_status"
  by (simp_all add: concerns_sent_def alice_db_def status_fields sent_of_def)

lemma run_authenticate_status:
  assumes "s \<in> {delivered_status, accepted_status}"
  shows "authenticate_status alice_receiver (\<lambda>_. alice_db) (encodeBase64Url any_digest) (signed_status s) =
    Inr (Inr (s, status_bytes s, \<lparr>messagingDidKey = lit ''k'', identityDidKey = lit ''i'', serviceBase = lit ''s'', document_evidence = no_evidence\<rparr>))"
proof -
  have s: "signable_status s" "st_to s = alice" "st_message_id s = message_1" "st_from s = bob" "st_envelope_digest s = \<lparr>digest_value = any_digest\<rparr>"
    using assms signable_statuses by (auto simp: status_fields)
  obtain object where "verifySignedPayload reference_cborg example_env DeliveryStatus (signed_status s) (messaging_verifier example_crypto bob (lit ''k'')) = Inr object"
    using verify_bob_status [OF s(1)] by blast
  with inspect_signable [OF s(1)] s show ?thesis
    by (simp add: authenticate_status_def alice_receiver_def check_abort_def guard_def alice_db_def sent_of_def Let_def codec_result_def
        account_with_did_def bob_account_def publicly_active_def empty_db_def example_codec_def)
qed

definition told_db :: db where
  "told_db = record_status 0 delivered_status (status_bytes delivered_status) (signed_status delivered_status) (lit ''k'') no_evidence 1 alice_db"

lemma run_receive_delivered:
  "receive_status alice_receiver (\<lambda>_. 0) (\<lambda>_. alice_db) (encodeBase64Url any_digest) (signed_status delivered_status) alice_db
     = Inr (StatusAcknowledged, told_db)"
proof -
  have "reported alice_db (alice, message_1) = None" by (simp add: alice_db_def empty_db_def)
  then show ?thesis
    using run_authenticate_status [of delivered_status] encode_signable [OF signable_statuses(1)] alice_concerned
    by (simp add: receive_status_def apply_status_def Let_def check_abort_def guard_def alice_receiver_def status_verdict_def
        status_fields terminal_def perform_def open_functions_def told_db_def)
qed

lemma told_row: "\<exists>row. reported told_db (alice, message_1) = Some row \<and> ss_revision row = 2 \<and> ss_state row = Delivered"
  by (simp add: told_db_def record_status_def Let_def status_fields alice_db_def empty_db_def)

lemma run_receive_late:
  "receive_status alice_receiver (\<lambda>_. 0) (\<lambda>_. alice_db) (encodeBase64Url any_digest) (signed_status accepted_status) told_db
     = Inr (StatusAcknowledged, told_db)"
proof -
  have "concerns_sent told_db accepted_status"
    using alice_concerned(2) by (simp add: concerns_sent_def told_db_def record_status_def Let_def)
  with told_row run_authenticate_status [of accepted_status] show ?thesis
    by (auto simp: receive_status_def apply_status_def Let_def check_abort_def guard_def alice_receiver_def status_verdict_def status_fields)
qed

theorem reported_moves_forward_witness:
  "\<exists>row. receive_status alice_receiver (\<lambda>_. 0) (\<lambda>_. alice_db) (encodeBase64Url any_digest) (signed_status accepted_status) told_db
      = Inr (StatusAcknowledged, told_db)
    \<and> reported told_db (alice, message_1) = Some row \<and> ss_state row = Delivered \<and> 2 \<le> ss_revision row"
proof -
  obtain row where row: "reported told_db (alice, message_1) = Some row" "ss_revision row = 2" "ss_state row = Delivered"
    using told_row by blast
  have "status_step example_codec told_db told_db"
    using status_receive [OF _ run_receive_late] by (simp add: alice_receiver_def)
  from reported_moves_forward [OF r_into_rtranclp [of "status_step example_codec", OF this] row(1)] row run_receive_late
  show ?thesis by auto
qed

theorem status_converges_witness:
  "\<exists>d' row. apply_all alice_receiver (\<lambda>_. 0)
      [(delivered_status, status_bytes delivered_status, [], lit ''k'', no_evidence),
       (accepted_status, status_bytes accepted_status, [], lit ''k'', no_evidence)] alice_db = Inr d'
    \<and> reported d' (alice, message_1) = Some row \<and> ss_state row = Delivered"
proof -
  let ?xs = "[(delivered_status, status_bytes delivered_status, [], lit ''k'', no_evidence),
       (accepted_status, status_bytes accepted_status, [], lit ''k'', no_evidence)]"
  have "ready_receiver alice_receiver" by (simp add: ready_receiver_def alice_receiver_def open_functions_def)
  moreover have "issued_by_one (sr_codec alice_receiver) (alice, message_1) delivered_status ?xs"
    using encode_signable [OF signable_statuses(1)] encode_signable [OF signable_statuses(2)]
    by (simp add: issued_by_one_def status_fields terminal_def alice_receiver_def)
  moreover have "reported alice_db (alice, message_1) = None" by (simp add: alice_db_def empty_db_def)
  ultimately show ?thesis
    using status_converges [of alice_receiver "(alice, message_1)" delivered_status ?xs alice_db "\<lambda>_. 0"] alice_concerned
    by (auto simp: status_fields)
qed

section \<open>Pushes that fail\<close>

definition failing_run :: "int \<Rightarrow> publisher_run" where
  "failing_run t = \<lparr>pr_clock = (\<lambda>_ _. t * 1000), pr_locked = (\<lambda>_. False), pr_token = token_1, pr_seen = (\<lambda>_. delivered_db),
     pr_push = (\<lambda>_ _ _. Inl Rejected), pr_now = (\<lambda>_. t), pr_random = 0, pr_dateParse = (\<lambda>_. None), pr_meanwhile = (\<lambda>_ d. d)\<rparr>"

abbreviation answer_key :: message_key where "answer_key \<equiv> (alice, message_1)"

definition answer_deadline :: int where
  "answer_deadline = retry_until answer (ended Delivered None 1500000000 leased_row)"

text \<open>The tables of the delivered message, with the row of its publication.\<close>

definition publishing :: "publication_row \<Rightarrow> db \<Rightarrow> bool" where
  "publishing row d \<longleftrightarrow> terminal_status_publications d = [(answer_key, row)] \<and> received_envelopes d = received_envelopes delivered_db
     \<and> delivery_work d = delivery_work delivered_db \<and> provider_migration_fences d = []"

lemma run_claim_status:
  assumes "publishing row d" and "open_status (pub_state row)" and "pub_lease_expires_at row = None" and "pub_next_attempt_at row \<le> t * 1000"
  shows "\<exists>c d1 row'. claim_status bob_services (\<lambda>_. t * 1000) (\<lambda>_. False) token_1 d = Inr (Some c, d1) \<and> sc_sender c = alice
    \<and> sc_message c = message_1 \<and> sc_retryUntil c = answer_deadline \<and> publishing row' d1
    \<and> pub_lease row' = Some (sc_token c) \<and> open_status (pub_state row')"
proof -
  have "inspectEnvelope example_codec (signed_envelope answer) = Inr answer"
    using inspect_run [OF signable_run(2)] by (simp add: example_codec_def)
  with assms show ?thesis
    by (simp add: claim_status_def delivered_tables publishing_def status_due_def fenced_did_def has_row_def
        received_of_def decision_def bob_services_def perform_def open_functions_def answer_deadline_def)
qed

lemma run_push_again:
  assumes "publishing row d" and "pub_lease row = Some (sc_token c)" and "open_status (pub_state row)"
    and "sc_sender c = alice" "sc_message c = message_1" "sc_retryUntil c = answer_deadline"
  shows "\<exists>d' row'. push_again open_functions (failing_run t) c None None d
      = (Inr (if answer_deadline \<le> t then PublishBlocked else PublishRetry), d') \<and> publishing row' d'
    \<and> (t < answer_deadline \<longrightarrow> open_status (pub_state row') \<and> pub_lease_expires_at row' = None
        \<and> pub_next_attempt_at row' \<le> answer_deadline * 1000)"
  using assms
  by (auto simp: push_again_def failing_run_def finish_status_def Let_def perform_def open_functions_def publishing_def open_status_def)

lemma run_failing:
  assumes "publishing row d" and "open_status (pub_state row)" and "pub_lease_expires_at row = None" and "pub_next_attempt_at row \<le> t * 1000"
  shows "\<exists>d' row'. attempt_on bob_services answer_key \<lparr>sa_run = failing_run t, sa_before = d,
        sa_result = Inr (if answer_deadline \<le> t then PublishBlocked else PublishRetry), sa_after = d'\<rparr>
    \<and> publishing row' d' \<and> (t < answer_deadline \<longrightarrow> open_status (pub_state row') \<and> pub_lease_expires_at row' = None
        \<and> pub_next_attempt_at row' \<le> answer_deadline * 1000)"
proof -
  let ?run = "failing_run t"
  obtain c d1 row1 where c: "claim_status bob_services (\<lambda>_. t * 1000) (\<lambda>_. False) token_1 d = Inr (Some c, d1)"
      "sc_sender c = alice" "sc_message c = message_1" "sc_retryUntil c = answer_deadline"
    and row1: "publishing row1 d1" "pub_lease row1 = Some (sc_token c)" "open_status (pub_state row1)"
    using run_claim_status [OF assms] by blast
  have fields: "pr_clock ?run = (\<lambda>_ _. t * 1000)" "pr_locked ?run = (\<lambda>_. False)" "pr_token ?run = token_1" "pr_meanwhile ?run = (\<lambda>_ d. d)"
    by (simp_all add: failing_run_def)
  have fails: "\<exists>e. and_then x (terminal_response bob_services ?run c) = Inl e" for x
    by (cases x; auto simp: terminal_response_def failing_run_def and_then_def split: option.splits sum.splits)
  obtain result d3 where r: "(case signCurrent bob_services (pr_seen ?run) answer_key d1 of
      Inl e \<Rightarrow> (Inl e, d1) | Inr (s, d') \<Rightarrow> (Inr s, d')) = (result, d3)" by (cases "case signCurrent bob_services (pr_seen ?run) answer_key d1 of
      Inl e \<Rightarrow> (Inl e, d1) | Inr (s, d') \<Rightarrow> (Inr s, d')")
  have "publishing row1 d3" using r row1(1) signCurrent_publications [of bob_services "pr_seen ?run" answer_key d1]
    by (auto simp: publishing_def split: sum.splits)
  from run_push_again [OF this row1(2,3) c(2-4), of t] obtain d' row'
    where p: "push_again open_functions ?run c None None d3 = (Inr (if answer_deadline \<le> t then PublishBlocked else PublishRetry), d')"
      and row': "publishing row' d'" "t < answer_deadline \<longrightarrow> open_status (pub_state row') \<and> pub_lease_expires_at row' = None
        \<and> pub_next_attempt_at row' \<le> answer_deadline * 1000" by blast
  obtain e where e: "and_then result (terminal_response bob_services ?run c) = Inl e" using fails by blast
  have "sx_functions bob_services = open_functions" by (simp add: bob_services_def)
  then have "publishOne bob_services ?run d = (Inr (if answer_deadline \<le> t then PublishBlocked else PublishRetry), d')"
    unfolding publishOne_def fields c Let_def sum.case prod.case option.case r e using p by simp
  moreover have "fair_run ?run" by (simp add: fair_run_def failing_run_def)
  moreover have "keyed (terminal_status_publications d)" using assms(1) by (simp add: publishing_def keyed_def)
  ultimately have "attempt_on bob_services answer_key \<lparr>sa_run = ?run, sa_before = d,
      sa_result = Inr (if answer_deadline \<le> t then PublishBlocked else PublishRetry), sa_after = d'\<rparr>"
    using c by (simp add: attempt_on_def fields same_publication_def)
  with row' show ?thesis by blast
qed

theorem status_publication_ends_witness:
  "\<exists>a b row. attempts bob_services answer_key [a, b] \<and> sa_before a = delivered_db \<and> sa_result a = Inr PublishRetry
    \<and> apart answer_deadline a b \<and> map_of (terminal_status_publications (sa_after b)) answer_key = Some row \<and> pub_state row = Blocked"
proof -
  have u: "1500000 < answer_deadline"
    by (simp add: answer_deadline_def retry_until_def Let_def)
  have "publishing (new_publication 1500000000) delivered_db" by (simp add: publishing_def delivered_tables)
  from run_failing [OF this, of 1500000] u obtain d' row' where a: "attempt_on bob_services answer_key
      \<lparr>sa_run = failing_run 1500000, sa_before = delivered_db, sa_result = Inr PublishRetry, sa_after = d'\<rparr>" (is "attempt_on _ _ ?a")
    and row': "publishing row' d'" "open_status (pub_state row')" "pub_lease_expires_at row' = None"
      "pub_next_attempt_at row' \<le> answer_deadline * 1000"
    by (auto simp: new_publication_def open_status_def)
  from run_failing [OF row'] obtain d'' where b: "attempt_on bob_services answer_key
      \<lparr>sa_run = failing_run answer_deadline, sa_before = d', sa_result = Inr PublishBlocked, sa_after = d''\<rparr>" (is "attempt_on _ _ ?b")
    by auto
  have two: "attempts bob_services answer_key [?a, ?b]" using a b by (simp add: attempts_def same_publication_def)
  have "inspectEnvelope example_codec (signed_envelope answer) = Inr answer"
    using inspect_run [OF signable_run(2)] by (simp add: example_codec_def)
  then have "publication_deadline bob_services answer_key (sa_before ?a) = Some answer_deadline"
    by (simp add: publication_deadline_def delivered_tables received_of_def decision_def bob_services_def answer_deadline_def)
  from status_publication_ends [OF two this] two show ?thesis
    by (intro exI [of _ ?a] exI [of _ ?b]) (auto simp: attempt_settled_def)
qed

end
