(* ===== verification/Transport.thy ===== *)
theory Transport
  imports Status
begin

text \<open>
  \<^verbatim>\<open>apps/server/src/discovery/safe-fetch.ts\<close> and \<open>canonicalizeHailServiceBase\<close> of \<open>plc/resolver.ts\<close>:
  the checks on every request that leaves for another provider. The URL parser, the resolver of
  host names, the package \<^verbatim>\<open>ipaddr.js\<close> and the exchange on the connection are the parameter
  \<open>network\<close>; \<open>url_parser\<close> states what the URL standard says about appending plain path segments.
\<close>

declare split_paired_All [simp del] split_paired_Ex [simp del]

section \<open>URLs\<close>

record web_url =
  wu_protocol :: jstring
  wu_username :: jstring
  wu_password :: jstring
  wu_hostname :: jstring
  wu_port :: jstring
  wu_pathname :: jstring
  wu_search :: jstring
  wu_hash :: jstring
  wu_origin :: jstring
  wu_href :: jstring

definition slash :: code_unit where
  "slash = of_char CHR ''/''"

text \<open>\<open>s.split("/")\<close>\<close>

fun segments :: "jstring \<Rightarrow> jstring list" where
  "segments [] = [[]]"
| "segments (c # s) =
     (if c = slash then [] # segments s
      else (case segments s of [] \<Rightarrow> [[c]] | w # ws \<Rightarrow> (c # w) # ws))"

lemma segments_nonempty [simp]: "segments s \<noteq> []"
  by (induction s) (auto split: list.splits)

lemma segments_append: "segments (a @ slash # b) = segments a @ segments b"
  by (induction a) (auto split: list.splits)

lemma segments_plain: "slash \<notin> set s \<Longrightarrow> segments s = [s]"
  by (induction s) auto

definition path_char :: "code_unit \<Rightarrow> bool" where
  "path_char c \<longleftrightarrow> is_upper c \<or> is_lower c \<or> Text.is_digit c \<or> one_of ''._~-'' c"

definition PATH_SEGMENT_PATTERN :: "jstring \<Rightarrow> bool" where
  "PATH_SEGMENT_PATTERN s \<longleftrightarrow> s \<noteq> [] \<and> list_all path_char s"

definition valid_segment :: "jstring \<Rightarrow> bool" where
  "valid_segment s \<longleftrightarrow> PATH_SEGMENT_PATTERN s \<and> s \<noteq> lit ''.'' \<and> s \<noteq> lit ''..''"

text \<open>A slash before every segment, and at least one segment.\<close>

definition plain_path :: "jstring \<Rightarrow> bool" where
  "plain_path p \<longleftrightarrow> p \<noteq> [] \<and> hd p = slash \<and> list_all valid_segment (segments (tl p))"

lemma slash_classes [simp]: "\<not> path_char slash" "\<not> is_base64url slash"
  by (simp_all add: slash_def path_char_def is_base64url_def is_upper_def is_lower_def Text.is_digit_def in_range_def one_of_def lit_def)

lemma base64url_path_char: "is_base64url c \<Longrightarrow> path_char c"
  by (auto simp: is_base64url_def path_char_def one_of_def lit_def)

lemma plain_path_append:
  assumes "plain_path a" and "plain_path b"
  shows "plain_path (a @ b)"
proof -
  obtain x y where "a = slash # x" "b = slash # y" using assms by (auto simp: plain_path_def neq_Nil_conv)
  with assms show ?thesis by (simp add: plain_path_def segments_append)
qed

lemma plain_path_segment:
  assumes "valid_segment s"
  shows "plain_path (slash # s)"
proof -
  have "slash \<notin> set s" using assms slash_classes by (auto simp: valid_segment_def PATH_SEGMENT_PATTERN_def list_all_iff)
  with assms show ?thesis by (simp add: plain_path_def segments_plain)
qed

section \<open>The network\<close>

datatype ip_address = IPv4 "byte list" | IPv6 "16 word list"

record web_request =
  rq_method :: string
  rq_url :: web_url
  rq_headers :: "(string \<times> jstring) list"
  rq_body :: bytes

text \<open>
  The header names of a request are in lower case and in the order in which \<open>Headers\<close> enumerates them.
  The body of a response arrives in chunks; the stream may break off, and cancelling it may fail.
\<close>

record web_response =
  rs_status :: nat
  rs_header :: "string \<Rightarrow> string option"
  rs_has_body :: bool
  rs_chunks :: "bytes list"
  rs_broken :: bool
  rs_cancel_fails :: bool

record network =
  net_url :: "jstring \<Rightarrow> web_url option"
  net_domainToASCII :: "jstring \<Rightarrow> jstring"
  net_isIP :: "jstring \<Rightarrow> nat"
  net_ipaddr :: "jstring \<Rightarrow> ip_address option"
  net_toIPv4 :: "16 word list \<Rightarrow> ip_address"
  net_range :: "ip_address \<Rightarrow> string"
  net_lookup :: "jstring \<Rightarrow> (jstring \<times> nat) list outcome"
  net_exchange :: "jstring \<times> nat \<Rightarrow> web_request \<Rightarrow> web_response outcome"

text \<open>An IPv6 address outside \<^verbatim>\<open>2000::/3\<close> is not global; a mapped IPv4 address counts as that IPv4 address.\<close>

definition isPublicAddress :: "network \<Rightarrow> jstring \<Rightarrow> bool" where
  "isPublicAddress net address = (case net_ipaddr net address of
     None \<Rightarrow> False
   | Some (IPv4 octets) \<Rightarrow> net_range net (IPv4 octets) = ''unicast''
   | Some (IPv6 parts) \<Rightarrow>
       if net_range net (IPv6 parts) = ''ipv4Mapped'' then net_range net (net_toIPv4 net parts) = ''unicast''
       else drop_bit 13 (hd parts) = 1 \<and> net_range net (IPv6 parts) = ''unicast'')"

definition dns_hostname :: "network \<Rightarrow> web_url \<Rightarrow> bool" where
  "dns_hostname net url \<longleftrightarrow>
     net_domainToASCII net (wu_hostname url) \<noteq> [] \<and> net_domainToASCII net (wu_hostname url) = wu_hostname url
     \<and> last (wu_hostname url) \<noteq> of_char CHR ''.'' \<and> net_isIP net (wu_hostname url) = 0"

definition validateUrl :: "network \<Rightarrow> web_url \<Rightarrow> unit outcome" where
  "validateUrl net url =
     guard (wu_protocol url = lit ''https:'' \<and> wu_username url = [] \<and> wu_password url = [] \<and> wu_hash url = []
       \<and> dns_hostname net url) ''Discovery target is not a canonical HTTPS DNS URL''"

text \<open>The pattern of the path: plain segments, then \<open>bodies\<close>, then 43 base64url characters.\<close>

definition body_path :: "jstring \<Rightarrow> bool" where
  "body_path p = (case p of [] \<Rightarrow> False | c # rest \<Rightarrow> c = slash \<and> (case rev (segments rest) of
       d # b # prefix \<Rightarrow> length d = 43 \<and> list_all is_base64url d \<and> b = lit ''bodies'' \<and> list_all PATH_SEGMENT_PATTERN prefix
     | _ \<Rightarrow> False))"

definition allowed_headers :: "bool \<Rightarrow> string \<Rightarrow> string list" where
  "allowed_headers bodyRetrieval verb =
     (if bodyRetrieval then [''accept'', ''accept-encoding'', ''authorization'']
      else if verb = ''GET'' then [''accept'', ''accept-encoding'', ''if-none-match'']
      else [''accept-encoding'', ''cache-control'', ''content-type'', ''if-match'', ''if-none-match''])"

definition bearer_credential :: "jstring option \<Rightarrow> bool" where
  "bearer_credential v = (case v of None \<Rightarrow> False
     | Some s \<Rightarrow> take 7 s = lit ''Bearer '' \<and> length s = 50 \<and> list_all is_base64url (drop 7 s))"

definition check_headers :: "bool \<Rightarrow> web_request \<Rightarrow> unit outcome" where
  "check_headers bodyRetrieval rq =
     (case find (has_row (rq_headers rq)) ([''cookie'', ''referer''] @ (if bodyRetrieval then [] else [''authorization''])) of
        Some name \<Rightarrow> fail_with (''Discovery request must not send '' @ name)
      | None \<Rightarrow> (case find (\<lambda>name. name \<notin> set (allowed_headers bodyRetrieval (rq_method rq))) (map fst (rq_headers rq)) of
          Some name \<Rightarrow> fail_with (''Safe HTTPS request has forbidden header '' @ name)
        | None \<Rightarrow> guard (\<not> bodyRetrieval \<or> bearer_credential (map_of (rq_headers rq) ''authorization''))
            ''Body retrieval requires a canonical bearer credential''))"

definition send :: "network \<Rightarrow> bool \<Rightarrow> web_request \<Rightarrow> web_response outcome" where
  "send net bodyRetrieval rq =
     (if rq_method rq \<notin> {''GET'', ''PUT'', ''POST''} then fail_with ''Safe HTTPS transport only permits GET, PUT and POST''
      else and_then (validateUrl net (rq_url rq)) (\<lambda>_.
        if bodyRetrieval \<and> (rq_method rq \<noteq> ''GET'' \<or> \<not> body_path (wu_pathname (rq_url rq)) \<or> wu_search (rq_url rq) \<noteq> [])
          then fail_with ''Body retrieval requires the canonical body GET operation''
        else and_then (check_headers bodyRetrieval rq) (\<lambda>_.
          and_then (net_lookup net (wu_hostname (rq_url rq))) (\<lambda>addresses.
            if addresses = [] \<or> list_ex (\<lambda>(address, family). \<not> isPublicAddress net address
                \<or> family \<noteq> 4 \<and> family \<noteq> 6 \<or> net_isIP net address \<noteq> family) addresses
              then fail_with ''Discovery hostname did not resolve exclusively to public addresses''
            else net_exchange net (hd addresses) rq))))"

section \<open>Canonical service bases\<close>

definition visible_ascii :: "jstring \<Rightarrow> bool" where
  "visible_ascii s \<longleftrightarrow> s \<noteq> [] \<and> list_all (in_range CHR ''!'' CHR ''~'') s"

definition forbidden_form :: "jstring \<Rightarrow> bool" where
  "forbidden_form s \<longleftrightarrow> \<not> visible_ascii s \<or> of_char CHR ''%'' \<in> set s \<or> of_char CHR 0x5C \<in> set s
     \<or> take 2 (rev s) = [slash, slash]"

definition without_slash :: "jstring \<Rightarrow> jstring" where
  "without_slash p = (if p = [slash] then [] else if p \<noteq> [] \<and> last p = slash then butlast p else p)"

definition canonicalizeHailServiceBase :: "network \<Rightarrow> jstring \<Rightarrow> jstring outcome" where
  "canonicalizeHailServiceBase net input =
     (if forbidden_form input then fail_with ''Hail service base contains a forbidden URL form''
      else (case net_url net input of
        None \<Rightarrow> Inl Rejected
      | Some url \<Rightarrow>
          if wu_protocol url \<noteq> lit ''https:'' \<or> wu_username url \<noteq> [] \<or> wu_password url \<noteq> [] \<or> wu_search url \<noteq> []
              \<or> wu_hash url \<noteq> [] \<or> \<not> dns_hostname net url
            then fail_with ''Hail service base is not a canonical HTTPS DNS URL''
          else
            let pathname = without_slash (wu_pathname url) in
            if list_all valid_segment (tl (segments pathname)) then Inr (wu_origin url @ pathname)
            else fail_with ''Hail service base contains an invalid path segment''))"

lemma segments_join: "slash # s = concat (map (Cons slash) (segments s))"
  by (induction s) (auto split: list.splits)

lemma plain_path_last:
  assumes "plain_path p"
  shows "last p \<noteq> slash"
proof -
  obtain r where p: "p = slash # r" "list_all valid_segment (segments r)"
    using assms by (auto simp: plain_path_def neq_Nil_conv)
  obtain ws w where w: "segments r = ws @ [w]" by (metis rev_exhaust segments_nonempty)
  with p(2) have "w \<noteq> []" "list_all path_char w" by (auto simp: valid_segment_def PATH_SEGMENT_PATTERN_def)
  moreover from this(1) have "last p = last w" unfolding p(1) segments_join [of r] w by simp
  ultimately show ?thesis using slash_classes(1) by (metis last_in_set list_all_iff)
qed

lemma plain_path_chars:
  assumes "plain_path p" and "c \<in> set p"
  shows "c = slash \<or> path_char c"
proof -
  obtain r where p: "p = slash # r" "list_all valid_segment (segments r)"
    using assms(1) by (auto simp: plain_path_def neq_Nil_conv)
  then have "c \<in> set (concat (map (Cons slash) (segments r)))" using assms(2) segments_join [of r] by metis
  with p(2) show ?thesis
    by (auto simp: valid_segment_def PATH_SEGMENT_PATTERN_def list_all_iff)
qed

lemma without_slash_plain: "plain_path p \<Longrightarrow> without_slash p = p"
  using plain_path_last [of p] by (auto simp: without_slash_def)

lemma path_char_text: "path_char c \<Longrightarrow> in_range CHR ''!'' CHR ''~'' c" "\<not> path_char (of_char CHR ''%'')" "\<not> path_char (of_char CHR 0x5C)"
  by (auto simp: path_char_def is_upper_def is_lower_def Text.is_digit_def in_range_def one_of_def lit_def
      elim: order_trans order_trans [rotated])

definition plain_text :: "jstring \<Rightarrow> bool" where
  "plain_text p \<longleftrightarrow> list_all (in_range CHR ''!'' CHR ''~'') p \<and> of_char CHR ''%'' \<notin> set p \<and> of_char CHR 0x5C \<notin> set p
     \<and> (p \<noteq> [] \<longrightarrow> last p \<noteq> slash)"

lemma plain_path_text: "p = [] \<or> plain_path p \<Longrightarrow> plain_text p"
proof (cases "p = []")
  case False
  assume "p = [] \<or> plain_path p"
  with False have pp: "plain_path p" by simp
  have "in_range CHR ''!'' CHR ''~'' slash" "slash \<noteq> of_char CHR ''%''" "slash \<noteq> of_char CHR 0x5C"
    by (simp_all add: slash_def in_range_def)
  then show ?thesis
    using plain_path_chars [OF pp] plain_path_last [OF pp] path_char_text
    unfolding plain_text_def list_all_iff by metis
qed (simp add: plain_text_def)

lemma forbidden_append:
  assumes "\<not> forbidden_form a" and "plain_text p" and "last a \<noteq> slash"
  shows "\<not> forbidden_form (a @ p)"
proof -
  have "take 2 (rev (a @ p)) \<noteq> [slash, slash]"
  proof (cases "p = []")
    case True
    then show ?thesis using assms(1) by (simp add: forbidden_form_def)
  next
    case False
    then have "hd (rev p) \<noteq> slash" using assms(2) by (simp add: plain_text_def hd_rev)
    with False show ?thesis by (cases "rev p") auto
  qed
  with assms(1,2) show ?thesis by (auto simp: forbidden_form_def visible_ascii_def plain_text_def)
qed

section \<open>What the URL standard promises\<close>

definition at_origin :: "web_url \<Rightarrow> web_url \<Rightarrow> bool" where
  "at_origin u v \<longleftrightarrow> wu_protocol v = wu_protocol u \<and> wu_hostname v = wu_hostname u \<and> wu_port v = wu_port u
     \<and> wu_origin v = wu_origin u \<and> wu_username v = [] \<and> wu_password v = [] \<and> wu_search v = [] \<and> wu_hash v = []"

locale url_parser =
  fixes net :: network
  assumes rooted: "net_url net s = Some u \<Longrightarrow> wu_protocol u = lit ''https:'' \<Longrightarrow> \<exists>rest. wu_pathname u = slash # rest"
    and origin_text: "net_url net s = Some u \<Longrightarrow> wu_protocol u = lit ''https:'' \<Longrightarrow>
      \<not> forbidden_form (wu_origin u) \<and> last (wu_origin u) \<noteq> slash"
    and origin_root: "net_url net s = Some u \<Longrightarrow> wu_protocol u = lit ''https:'' \<Longrightarrow>
      \<exists>v. net_url net (wu_origin u) = Some v \<and> at_origin u v \<and> wu_pathname v = [slash]"
    and origin_path: "net_url net s = Some u \<Longrightarrow> wu_protocol u = lit ''https:'' \<Longrightarrow> plain_path p \<Longrightarrow>
      \<exists>v. net_url net (wu_origin u @ p) = Some v \<and> at_origin u v \<and> wu_pathname v = p \<and> wu_href v = wu_origin u @ p"
begin

lemma canonical_base:
  assumes "canonicalizeHailServiceBase net input = Inr b"
  obtains u p where "net_url net input = Some u" "wu_protocol u = lit ''https:''" "dns_hostname net u"
    "b = wu_origin u @ p" "p = [] \<or> plain_path p"
proof -
  from assms obtain u where u: "net_url net input = Some u" "wu_protocol u = lit ''https:''" "dns_hostname net u"
      "list_all valid_segment (tl (segments (without_slash (wu_pathname u))))" "b = wu_origin u @ without_slash (wu_pathname u)"
    by (auto simp: canonicalizeHailServiceBase_def Let_def)
  obtain rest where "wu_pathname u = slash # rest" using rooted u(1,2) by blast
  then have "without_slash (wu_pathname u) = [] \<or> (\<exists>r. without_slash (wu_pathname u) = slash # r)"
    by (auto simp: without_slash_def)
  with u(4) have "without_slash (wu_pathname u) = [] \<or> plain_path (without_slash (wu_pathname u))"
    by (auto simp: plain_path_def)
  with u that show thesis by blast
qed

lemma base_url:
  assumes "canonicalizeHailServiceBase net input = Inr b" and "plain_path q"
  obtains v p where "net_url net (b @ q) = Some v" "validateUrl net v = Inr ()" "wu_search v = []"
    "wu_pathname v = p @ q" "p = [] \<or> plain_path p" "wu_href v = b @ q"
proof -
  from canonical_base [OF assms(1)] obtain u p where u: "net_url net input = Some u" "wu_protocol u = lit ''https:''"
      "dns_hostname net u" "b = wu_origin u @ p" "p = [] \<or> plain_path p" by metis
  have "plain_path (p @ q)" using u(5) assms(2) plain_path_append by auto
  from origin_path [OF u(1,2) this] obtain v where v: "net_url net (b @ q) = Some v" "at_origin u v" "wu_pathname v = p @ q" "wu_href v = b @ q"
    using u(4) by auto
  moreover have "validateUrl net v = Inr ()" "wu_search v = []"
    using v(2) u(2,3) by (auto simp: at_origin_def validateUrl_def dns_hostname_def)
  ultimately show thesis using that u(5) by blast
qed

text \<open>A canonical service base is its own canonical form.\<close>

lemma canonical_idempotent:
  assumes "canonicalizeHailServiceBase net input = Inr b"
  shows "canonicalizeHailServiceBase net b = Inr b"
proof -
  from canonical_base [OF assms] obtain u p where u: "net_url net input = Some u" "wu_protocol u = lit ''https:''"
      "dns_hostname net u" "b = wu_origin u @ p" and p: "p = [] \<or> plain_path p" by metis
  have form: "\<not> forbidden_form b"
    unfolding u(4) using origin_text [OF u(1,2)] plain_path_text [OF p] forbidden_append by blast
  obtain v where v: "net_url net b = Some v" "at_origin u v" "without_slash (wu_pathname v) = p"
  proof (cases "p = []")
    case True
    with origin_root [OF u(1,2)] u(4) that show thesis by (auto simp: without_slash_def)
  next
    case False
    with p have pp: "plain_path p" by simp
    with origin_path [OF u(1,2)] u(4) that without_slash_plain [OF pp] show thesis by metis
  qed
  moreover have "list_all valid_segment (tl (segments p))" using p by (auto simp: plain_path_def neq_Nil_conv)
  moreover have "dns_hostname net v" using u(3) v(2) by (auto simp: at_origin_def dns_hostname_def)
  ultimately show ?thesis using form u(2,4)
    by (simp add: canonicalizeHailServiceBase_def at_origin_def)
qed

end

section \<open>Safe requests\<close>

lemma send_safe:
  assumes "send net bodyRetrieval rq = Inr r"
  obtains address family where "net_exchange net (address, family) rq = Inr r" "isPublicAddress net address"
    "validateUrl net (rq_url rq) = Inr ()" "check_headers bodyRetrieval rq = Inr ()"
    "bodyRetrieval \<Longrightarrow> rq_method rq = ''GET'' \<and> body_path (wu_pathname (rq_url rq)) \<and> wu_search (rq_url rq) = []"
proof -
  from assms obtain addresses where a: "addresses \<noteq> []" "\<not> list_ex (\<lambda>(address, family). \<not> isPublicAddress net address
          \<or> family \<noteq> 4 \<and> family \<noteq> 6 \<or> net_isIP net address \<noteq> family) addresses" "net_exchange net (hd addresses) rq = Inr r"
      "validateUrl net (rq_url rq) = Inr ()" "check_headers bodyRetrieval rq = Inr ()"
      "bodyRetrieval \<longrightarrow> rq_method rq = ''GET'' \<and> body_path (wu_pathname (rq_url rq)) \<and> wu_search (rq_url rq) = []"
    by (auto simp: send_def)
  obtain address family where h: "hd addresses = (address, family)" by (cases "hd addresses")
  with a(1,2) hd_in_set [OF a(1)] have "isPublicAddress net address" by (auto simp: list_ex_iff)
  with a h that show thesis by auto
qed

end
