(* ===== verification/Retrieval.thy ===== *)
theory Retrieval
  imports Transport
begin

text \<open>
  \<^verbatim>\<open>apps/server/src/delivery/retriever.ts\<close>: fetching the body of an accepted message and its attachments
  from the sender's provider. \<open>rt_fetchBody i j\<close> is the request number \<open>j\<close> of attempt \<open>i\<close>; whatever is
  thrown on the way is caught by \<open>retrieve\<close>. Decompression and the parser of HTTP dates are
  parameters. Times are milliseconds.
\<close>

declare split_paired_All [simp del] split_paired_Ex [simp del]

section \<open>Responses\<close>

datatype transfer_error = TransferInterrupted | OversizedTransfer

definition content_length :: "web_response \<Rightarrow> string option" where
  "content_length r = rs_header r ''content-length''"

fun read_chunks :: "web_response \<Rightarrow> nat \<Rightarrow> nat \<Rightarrow> bytes list \<Rightarrow> transfer_error + bytes" where
  "read_chunks r limit len [] = (if rs_broken r then Inl TransferInterrupted else Inr [])"
| "read_chunks r limit len (chunk # chunks) =
     (if limit < len + length chunk then Inl (if rs_cancel_fails r then TransferInterrupted else OversizedTransfer)
      else (case read_chunks r limit (len + length chunk) chunks of Inl e \<Rightarrow> Inl e | Inr bs \<Rightarrow> Inr (chunk @ bs)))"

definition boundedResponse :: "web_response \<Rightarrow> nat \<Rightarrow> transfer_error + bytes" where
  "boundedResponse r limit =
     (if (case content_length r of None \<Rightarrow> False
          | Some h \<Rightarrow> h = [] \<or> \<not> list_all Status.is_digit h \<or> int limit < digits_value h) then Inl OversizedTransfer
      else if \<not> rs_has_body r then Inl TransferInterrupted
      else (case read_chunks r limit 0 (rs_chunks r) of
        Inl e \<Rightarrow> Inl e
      | Inr bs \<Rightarrow> if (case content_length r of None \<Rightarrow> False | Some h \<Rightarrow> int (length bs) \<noteq> digits_value h)
          then Inl TransferInterrupted else Inr bs))"

definition retryAfter :: "(string \<Rightarrow> int option) \<Rightarrow> web_response \<Rightarrow> int \<Rightarrow> int option" where
  "retryAfter dateParse r now = (case rs_header r ''retry-after'' of
     None \<Rightarrow> None
   | Some s \<Rightarrow>
       if s = [] then None
       else if list_all Status.is_digit s then Some (now + min (digits_value s) 86400 * 1000)
       else (case dateParse s of
         None \<Rightarrow> None
       | Some parsed \<Rightarrow> if now < parsed then Some (min parsed (now + 86400000)) else None))"

text \<open>Padded base64 with the standard alphabet, for the header \<open>Content-Digest\<close>.\<close>

definition standard_digit :: "code_unit \<Rightarrow> code_unit" where
  "standard_digit c = (if c = of_char CHR ''-'' then of_char CHR ''+'' else if c = of_char CHR ''_'' then of_char CHR ''/'' else c)"

definition base64 :: "bytes \<Rightarrow> jstring" where
  "base64 bs = map standard_digit (encodeBase64Url bs) @ replicate ((3 - length bs mod 3) mod 3) (of_char CHR ''='')"

definition validateContentDigest :: "codec \<Rightarrow> string option \<Rightarrow> bytes \<Rightarrow> bool" where
  "validateContentDigest c header wire = (case header of
     None \<Rightarrow> True
   | Some h \<Rightarrow> lit h = lit ''sha-256=:'' @ base64 (sha256 (codec_env c) wire) @ lit '':'')"

definition lower :: "char \<Rightarrow> char" where
  "lower c = (if 65 \<le> (of_char c :: nat) \<and> (of_char c :: nat) \<le> 90 then char_of (of_char c + 32 :: nat) else c)"

section \<open>The document\<close>

datatype gunzip_result = Unzipped bytes | GzipTruncated | GzipInvalid

record retriever =
  rt_codec :: codec
  rt_network :: network
  rt_resolve :: "nat \<Rightarrow> jstring \<Rightarrow> HailDidDocument outcome"
  rt_fetchBody :: "nat \<Rightarrow> nat \<Rightarrow> web_request \<Rightarrow> web_response outcome"
  rt_validateTarget :: "web_url \<Rightarrow> unit outcome"
  rt_now :: int
  rt_dateParse :: "string \<Rightarrow> int option"
  rt_gunzip :: "bytes \<Rightarrow> nat \<Rightarrow> gunzip_result"

datatype at_result = Answer RetrievalResult | NotFound

abbreviation integrity_failed :: at_result where
  "integrity_failed \<equiv> Answer (RetrievalFail ''body-integrity-failed'')"

definition transfer_answer :: "transfer_error \<Rightarrow> at_result" where
  "transfer_answer e = (case e of
     OversizedTransfer \<Rightarrow> integrity_failed
   | TransferInterrupted \<Rightarrow> Answer (RetrievalRetry ''body-transfer-interrupted'' None))"

text \<open>Cancelling the body of the response before an answer.\<close>

definition discard :: "web_response \<Rightarrow> at_result \<Rightarrow> (at_result + 'a) outcome" where
  "discard r result = (if rs_has_body r \<and> rs_cancel_fails r then Inl Rejected else Inr (Inl result))"

definition body_url :: "jstring \<Rightarrow> HailEnvelope \<Rightarrow> jstring" where
  "body_url base e = base @ lit ''/bodies/'' @ encodeBase64Url (digest_value (body_digest (env_body e)))"

definition bearer :: "HailEnvelope \<Rightarrow> jstring" where
  "bearer e = lit ''Bearer '' @ encodeBase64Url (access_token (env_body e))"

definition fetch_at :: "retriever \<Rightarrow> nat \<Rightarrow> nat \<Rightarrow> jstring \<Rightarrow> HailEnvelope \<Rightarrow> string \<Rightarrow> string \<Rightarrow> web_response outcome" where
  "fetch_at rt attempt i url e media encodings = (case net_url (rt_network rt) url of
     None \<Rightarrow> Inl Rejected
   | Some u \<Rightarrow> and_then (rt_validateTarget rt u) (\<lambda>_.
       rt_fetchBody rt attempt i \<lparr>rq_method = ''GET'', rq_url = u,
         rq_headers = [(''accept'', lit media), (''accept-encoding'', lit encodings), (''authorization'', bearer e)],
         rq_body = []\<rparr>))"

definition unpack :: "retriever \<Rightarrow> HailEnvelope \<Rightarrow> bool \<Rightarrow> bytes \<Rightarrow> at_result + bytes" where
  "unpack rt e gzip wire =
     (if gzip then (case rt_gunzip rt wire (nat (body_size (env_body e))) of
        Unzipped bs \<Rightarrow> Inr bs
      | GzipTruncated \<Rightarrow> Inl (Answer (RetrievalRetry ''body-transfer-interrupted'' None))
      | GzipInvalid \<Rightarrow> Inl integrity_failed)
      else Inr wire)"

definition check_document :: "codec \<Rightarrow> HailEnvelope \<Rightarrow> bytes \<Rightarrow> at_result + bytes" where
  "check_document c e bs =
     (if int (length bs) \<noteq> body_size (env_body e) \<or> sha256 (codec_env c) bs \<noteq> digest_value (body_digest (env_body e))
        then Inl integrity_failed
      else (case validateBodyBytes c bs (Some (body_profile_of (env_body e))) of
        Inl _ \<Rightarrow> Inl (Answer (RetrievalFail ''body-invalid''))
      | Inr _ \<Rightarrow> Inr bs))"

definition receive_document :: "retriever \<Rightarrow> HailEnvelope \<Rightarrow> web_response \<Rightarrow> bool \<Rightarrow> at_result + bytes" where
  "receive_document rt e r gzip =
     (case boundedResponse r (if gzip then 2097152 else nat (body_size (env_body e))) of
        Inl err \<Rightarrow> Inl (transfer_answer err)
      | Inr wire \<Rightarrow>
          if \<not> validateContentDigest (rt_codec rt) (rs_header r ''content-digest'') wire then Inl integrity_failed
          else (case unpack rt e gzip wire of Inl x \<Rightarrow> Inl x | Inr bs \<Rightarrow> check_document (rt_codec rt) e bs))"

definition document_response :: "retriever \<Rightarrow> HailEnvelope \<Rightarrow> web_response \<Rightarrow> (at_result + bytes) outcome" where
  "document_response rt e r =
     (let status = rs_status r;
          encoding = (case rs_header r ''content-encoding'' of None \<Rightarrow> ''identity'' | Some v \<Rightarrow> map lower v) in
      if status = 404 then discard r NotFound
      else if status = 429 \<or> status = 503 \<or> 500 \<le> status then
        discard r (Answer (RetrievalRetry (if status = 429 then ''sender-rate-limited'' else ''body-temporarily-unavailable'')
          (retryAfter (rt_dateParse rt) r (rt_now rt))))
      else if status = 406 \<or> status = 415 then discard r (Answer (RetrievalFail ''body-unsupported''))
      else if status \<noteq> 200 then discard r (Answer (RetrievalRetry ''sender-unreachable'' None))
      else if map_option (map lower) (rs_header r ''content-type'') \<noteq> Some ''application/hail-body+cbor''
        then discard r integrity_failed
      else if encoding \<noteq> ''identity'' \<and> encoding \<noteq> ''gzip'' then discard r (Answer (RetrievalFail ''body-unsupported''))
      else Inr (receive_document rt e r (encoding = ''gzip'')))"

section \<open>Attachments\<close>

definition file_url :: "jstring \<Rightarrow> HailEnvelope \<Rightarrow> HailAttachment \<Rightarrow> jstring" where
  "file_url base e file = body_url base e @ lit ''/attachments/'' @ encodeBase64Url (at_digest file)"

definition receive_file :: "retriever \<Rightarrow> HailAttachment \<Rightarrow> web_response \<Rightarrow> at_result + bytes" where
  "receive_file rt file r = (case boundedResponse r (nat (at_size file)) of
     Inl err \<Rightarrow> Inl (transfer_answer err)
   | Inr bs \<Rightarrow>
       if \<not> validateContentDigest (rt_codec rt) (rs_header r ''content-digest'') bs then Inl integrity_failed
       else (case validateAttachmentBytes (rt_codec rt) file bs of Inl _ \<Rightarrow> Inl integrity_failed | Inr _ \<Rightarrow> Inr bs))"

definition file_response :: "retriever \<Rightarrow> HailAttachment \<Rightarrow> web_response \<Rightarrow> (at_result + bytes) outcome" where
  "file_response rt file r =
     (if rs_status r \<noteq> 200 then
        discard r (if rs_status r = 404 then NotFound
          else Answer (RetrievalRetry (if rs_status r = 429 then ''sender-rate-limited'' else ''body-temporarily-unavailable'')
            (retryAfter (rt_dateParse rt) r (rt_now rt))))
      else if rs_header r ''content-type'' \<noteq> Some ''application/octet-stream''
          \<or> rs_header r ''content-encoding'' \<notin> {None, Some ''identity''}
        then discard r integrity_failed
      else Inr (receive_file rt file r))"

fun fetch_files :: "retriever \<Rightarrow> nat \<Rightarrow> nat \<Rightarrow> jstring \<Rightarrow> HailEnvelope \<Rightarrow> HailAttachment list \<Rightarrow> (at_result + bytes list) outcome" where
  "fetch_files rt attempt i base e [] = Inr (Inr [])"
| "fetch_files rt attempt i base e (file # files) =
     and_then (fetch_at rt attempt i (file_url base e file) e ''application/octet-stream'' ''identity'') (\<lambda>r.
     and_then (file_response rt file r) (\<lambda>x. case x of
       Inl answer \<Rightarrow> Inr (Inl answer)
     | Inr data \<Rightarrow> and_then (fetch_files rt attempt (i + 1) base e files) (\<lambda>y. case y of
         Inl answer \<Rightarrow> Inr (Inl answer)
       | Inr rest \<Rightarrow> Inr (Inr (data # rest)))))"

section \<open>Retrieval\<close>

definition fetch_document :: "retriever \<Rightarrow> nat \<Rightarrow> jstring \<Rightarrow> HailEnvelope \<Rightarrow> (at_result + bytes) outcome" where
  "fetch_document rt attempt base e =
     and_then (fetch_at rt attempt 0 (body_url base e) e ''application/hail-body+cbor'' ''gzip, identity'') (\<lambda>r.
       document_response rt e r)"

definition retrieve_at :: "retriever \<Rightarrow> nat \<Rightarrow> jstring \<Rightarrow> HailEnvelope \<Rightarrow> at_result outcome" where
  "retrieve_at rt attempt base e =
     and_then (fetch_document rt attempt base e) (\<lambda>x. case x of
       Inl answer \<Rightarrow> Inr answer
     | Inr bs \<Rightarrow>
         and_then (bodyAttachments (rt_codec rt) bs) (\<lambda>files.
         and_then (fetch_files rt attempt 1 base e files) (\<lambda>y. case y of
           Inl answer \<Rightarrow> Inr answer
         | Inr attachments \<Rightarrow> Inr (Answer (RetrievalSuccess bs attachments)))))"

abbreviation authorization_failed :: RetrievalResult where
  "authorization_failed \<equiv> RetrievalFail ''body-authorization-failed''"

definition attempt_retrieval :: "retriever \<Rightarrow> HailEnvelope \<Rightarrow> RetrievalResult outcome" where
  "attempt_retrieval rt e =
     and_then (rt_resolve rt 0 (env_from e)) (\<lambda>sender.
     and_then (retrieve_at rt 0 (serviceBase sender) e) (\<lambda>first. case first of
       Answer result \<Rightarrow> Inr result
     | NotFound \<Rightarrow>
         and_then (rt_resolve rt 1 (env_from e)) (\<lambda>refreshed.
           if serviceBase refreshed = serviceBase sender then Inr authorization_failed
           else and_then (retrieve_at rt 1 (serviceBase refreshed) e) (\<lambda>second. case second of
             NotFound \<Rightarrow> Inr authorization_failed
           | Answer result \<Rightarrow> Inr result))))"

definition retrieve :: "retriever \<Rightarrow> HailEnvelope \<Rightarrow> RetrievalResult" where
  "retrieve rt e =
     (if \<not> safe_integer (body_size (env_body e)) \<or> body_size (env_body e) < 1 \<or> int BODY_MAX_BYTES < body_size (env_body e)
        then RetrievalFail ''body-integrity-failed''
      else (case attempt_retrieval rt e of
        Inl _ \<Rightarrow> RetrievalRetry ''sender-unreachable'' None
      | Inr result \<Rightarrow> result))"

text \<open>The retriever as the server builds it: over the safe transport.\<close>

definition safe_retriever :: "codec \<Rightarrow> (nat \<Rightarrow> nat \<Rightarrow> network) \<Rightarrow> retriever \<Rightarrow> retriever" where
  "safe_retriever c nets rt = rt\<lparr>rt_codec := c, rt_network := nets 0 0, rt_fetchBody := (\<lambda>i j. send (nets i j) True),
     rt_validateTarget := validateUrl (nets 0 0)\<rparr>"

end
