(* ===== verification/RetrievalProperties.thy ===== *)
theory RetrievalProperties
  imports Retrieval DeliveryExample
begin

text \<open>
  What the retriever and the transport guarantee: requests leave for public addresses only, a retrieved
  body passes every check of the delivery that follows, and, with the transport the server is built
  with, the attachments of a body cannot be fetched.
\<close>

declare split_paired_All [simp del] split_paired_Ex [simp del]

text \<open>Reading the result of an attempt backwards.\<close>

lemma either_Inr:
  "(case x of Inl a \<Rightarrow> f a | Inr b \<Rightarrow> g b) = Inr z \<longleftrightarrow> (\<exists>a. x = Inl a \<and> f a = Inr z) \<or> (\<exists>b. x = Inr b \<and> g b = Inr z)"
  by (cases x) auto

lemma answer_Inr:
  "(case x of Answer a \<Rightarrow> f a | NotFound \<Rightarrow> r) = Inr z \<longleftrightarrow> (\<exists>a. x = Answer a \<and> f a = Inr z) \<or> x = NotFound \<and> r = Inr z"
  by (cases x) auto

section \<open>A retrieved body is what the envelope announced\<close>

lemma fetched_document:
  assumes "fetch_document rt attempt base e = Inr (Inr bs)"
  shows "int (length bs) = body_size (env_body e)" "sha256 (codec_env (rt_codec rt)) bs = digest_value (body_digest (env_body e))"
    "\<exists>p. validateBodyBytes (rt_codec rt) bs (Some (body_profile_of (env_body e))) = Inr p"
proof -
  from assms obtain r where r: "document_response rt e r = Inr (Inr bs)" by (auto simp: fetch_document_def)
  then obtain gzip where "receive_document rt e r gzip = Inr bs"
    by (auto simp: document_response_def discard_def Let_def split: if_splits)
  then obtain bs' where "check_document (rt_codec rt) e bs' = Inr bs"
    by (auto simp: receive_document_def split: sum.splits if_splits)
  then show "int (length bs) = body_size (env_body e)" "sha256 (codec_env (rt_codec rt)) bs = digest_value (body_digest (env_body e))"
    "\<exists>p. validateBodyBytes (rt_codec rt) bs (Some (body_profile_of (env_body e))) = Inr p"
    by (auto simp: check_document_def split: sum.splits if_splits)
qed

lemma fetched_file:
  assumes "file_response rt file r = Inr (Inr bs)"
  shows "validateAttachmentBytes (rt_codec rt) file bs = Inr ()"
  using assms by (auto simp: file_response_def receive_file_def discard_def split: if_splits sum.splits)

lemma fetched_files:
  "fetch_files rt attempt i base e files = Inr (Inr datas) \<Longrightarrow>
     length files = length datas \<and> check_files (rt_codec rt) (zip files datas) = Inr ()"
proof (induction files arbitrary: i datas)
  case (Cons f files)
  then obtain r data rest where "file_response rt f r = Inr (Inr data)"
      "fetch_files rt attempt (i + 1) base e files = Inr (Inr rest)" "datas = data # rest"
    by (auto simp: either_Inr)
  with Cons.IH fetched_file show ?case by simp
qed simp

text \<open>An early answer is never a success.\<close>

lemma early_document: "fetch_document rt attempt base e = Inr (Inl x) \<Longrightarrow> x \<noteq> Answer (RetrievalSuccess bs datas)"
  by (auto simp: fetch_document_def document_response_def receive_document_def unpack_def check_document_def transfer_answer_def
      discard_def Let_def split: if_splits sum.split_asm transfer_error.splits gunzip_result.split_asm)

lemma early_file: "file_response rt f r = Inr (Inl x) \<Longrightarrow> x \<noteq> Answer (RetrievalSuccess bs datas)"
  by (auto simp: file_response_def receive_file_def transfer_answer_def discard_def
      split: if_splits sum.split_asm transfer_error.splits)

lemma early_files: "fetch_files rt attempt i base e files = Inr (Inl x) \<Longrightarrow> x \<noteq> Answer (RetrievalSuccess bs datas)"
proof (induction files arbitrary: i)
  case (Cons f files)
  then show ?case by (auto simp: either_Inr dest: early_file)
qed simp

lemma retrieved:
  assumes "retrieve rt e = RetrievalSuccess bs datas"
  obtains attempt base files where "fetch_document rt attempt base e = Inr (Inr bs)"
    "bodyAttachments (rt_codec rt) bs = Inr files" "fetch_files rt attempt 1 base e files = Inr (Inr datas)"
proof -
  from assms obtain attempt base where "retrieve_at rt attempt base e = Inr (Answer (RetrievalSuccess bs datas))"
    by (auto simp: retrieve_def attempt_retrieval_def answer_Inr split: if_splits sum.split_asm)
  with that early_document early_files show thesis
    by (fastforce simp: retrieve_at_def either_Inr)
qed

text \<open>
  C38. What was retrieved can be delivered: if the retriever reports success, then none of the checks with which
  the delivery begins refuses the bytes (size, digest, body profile, number of attachments, size, digest and
  format of each attachment), and the delivery proceeds to the permission and the transaction.
\<close>

theorem retrieved_is_deliverable:
  assumes "retrieve rt (claim_envelope c) = RetrievalSuccess bs datas"
  shows "\<exists>files. bodyAttachments (rt_codec rt) bs = Inr files \<and> length files = length datas
    \<and> deliver (rt_codec rt) fx connections clk t before between c bs datas d =
        and_then (authorizeConnection fx connections t before between c) (\<lambda>authorized.
          deliver_transaction (rt_codec rt) fx clk c bs (zip files datas) authorized d)"
proof -
  from retrieved [OF assms] obtain attempt base files where f: "fetch_document rt attempt base (claim_envelope c) = Inr (Inr bs)"
      "bodyAttachments (rt_codec rt) bs = Inr files" "fetch_files rt attempt 1 base (claim_envelope c) files = Inr (Inr datas)" .
  from fetched_document [OF f(1)] fetched_files [OF f(3)] f(2) show ?thesis
    by (auto simp: deliver_def bodyDigest_def)
qed

section \<open>Requests stay outside\<close>

text \<open>
  C39. Requests to other providers are safe: a request that the transport sends goes to a public address,
  over HTTPS, without credentials in the URL, without cookies, and carries an authorization only if it is
  the canonical request for a body.
\<close>

theorem fetch_is_safe:
  assumes "send net bodyRetrieval rq = Inr r"
  shows "\<exists>address family. net_exchange net (address, family) rq = Inr r \<and> isPublicAddress net address
    \<and> wu_protocol (rq_url rq) = lit ''https:'' \<and> wu_username (rq_url rq) = [] \<and> wu_password (rq_url rq) = []
    \<and> \<not> has_row (rq_headers rq) ''cookie''
    \<and> (has_row (rq_headers rq) ''authorization'' \<longrightarrow> bodyRetrieval \<and> rq_method rq = ''GET'' \<and> body_path (wu_pathname (rq_url rq)))"
proof -
  from send_safe [OF assms] obtain address family where s: "net_exchange net (address, family) rq = Inr r"
      "isPublicAddress net address" "validateUrl net (rq_url rq) = Inr ()" "check_headers bodyRetrieval rq = Inr ()"
      "bodyRetrieval \<Longrightarrow> rq_method rq = ''GET'' \<and> body_path (wu_pathname (rq_url rq)) \<and> wu_search (rq_url rq) = []" by metis
  have "\<not> has_row (rq_headers rq) ''cookie''" "has_row (rq_headers rq) ''authorization'' \<Longrightarrow> bodyRetrieval"
    using s(4) by (auto simp: check_headers_def split: option.splits if_splits)
  with s show ?thesis by (auto simp: validateUrl_def)
qed

section \<open>Attachments\<close>

lemma length_encodeBase64Url: "length (encodeBase64Url bs) = (4 * length bs + 2) div 3"
  by (induction bs rule: encodeBase64Url.induct) (simp_all add: Let_def)

lemma valid_base64url:
  assumes "bs \<noteq> []"
  shows "valid_segment (encodeBase64Url bs)"
proof -
  have "\<not> is_base64url (of_char CHR ''.'')"
    by (simp add: is_base64url_def is_upper_def is_lower_def Text.is_digit_def in_range_def one_of_def lit_def)
  moreover have "encodeBase64Url bs \<noteq> []" using assms length_encodeBase64Url [of bs] by (cases bs) auto
  ultimately show ?thesis
    using encode_base64url_chars [of bs] base64url_path_char
    by (auto simp: valid_segment_def PATH_SEGMENT_PATTERN_def list_all_iff lit_def)
qed

lemma plain_literals: "plain_path (lit ''/bodies'')" "plain_path (lit ''/attachments'')"
  by code_simp+

lemma slash_lit: "lit (CHR ''/'' # s) = slash # lit s"
  by (simp add: lit_def slash_def)

lemma segments_encoded: "segments (encodeBase64Url bs) = [encodeBase64Url bs]"
  using encode_base64url_chars [of bs] slash_classes by (intro segments_plain) (auto simp: list_all_iff)

lemma body_path_accepted: "length d = 32 \<Longrightarrow> body_path (lit ''/bodies/'' @ encodeBase64Url d)"
proof -
  have l: "lit ''/bodies/'' = slash # lit ''bodies'' @ [slash]" by (simp add: lit_def slash_def)
  have "segments (lit ''bodies'') = [lit ''bodies'']" by code_simp
  then show "length d = 32 \<Longrightarrow> ?thesis"
    using encode_base64url_chars [of d] by (simp add: body_path_def l segments_append segments_encoded length_encodeBase64Url)
qed

lemma file_path_refused: "\<not> body_path (p @ lit ''/attachments/'' @ encodeBase64Url f)"
proof -
  have l: "lit ''/attachments/'' = slash # lit ''attachments'' @ [slash]" by (simp add: lit_def slash_def)
  have a: "segments (lit ''attachments'') = [lit ''attachments'']" by code_simp
  have "rev (segments (q @ lit ''/attachments/'' @ encodeBase64Url f)) =
      encodeBase64Url f # lit ''attachments'' # rev (segments q)" for q
    by (simp add: l segments_append segments_encoded a)
  moreover have "lit ''attachments'' \<noteq> lit ''bodies''" by code_simp
  ultimately show ?thesis
    by (cases p) (auto simp: body_path_def l segments_append segments_encoded a)
qed

text \<open>Every attachment that a valid body announces has a digest of 32 bytes.\<close>

lemma attachment_digest:
  assumes "bodyAttachments c bs = Inr files" and "f \<in> set files"
  shows "length (at_digest f) = 32"
proof -
  from assms(1) obtain p document where d: "decodeBody c p bs = Inr document"
      "files = map read_attachment (list_of (get document ''attachments''))"
    by (auto simp: bodyAttachments_def)
  have "get document ''attachments'' = None \<or> validateAttachments (codec_env c) (get document ''attachments'') = Inr ()"
  proof (cases "get document ''attachments''")
    case (Some a)
    with d(1) show ?thesis
      by (cases p) (auto simp: decodeBody_def decodePayload_def validatePayload_def Let_def validate_by_type_def
        validateSpt1Body_def validateSpt2Body_def validateSpt3Body_def signed_types_def)
  qed simp
  moreover obtain a where a: "a \<in> set (list_of (get document ''attachments''))" "f = read_attachment a" using d(2) assms(2) by auto
  ultimately obtain i where "check_attachment (codec_env c) i a = Inr ()"
    by (fastforce simp: validateAttachments_def for_each_def ball_each_indexed in_set_conv_nth)
  then show ?thesis
    by (auto simp: check_attachment_def Let_def a(2) read_attachment_def split: option.splits hail_value.splits)
qed

text \<open>
  C40. Attachments cannot be fetched. The transport lets a retriever request bodies only, so the request
  for the first attachment of a body that was fetched and is valid throws, and the retriever reports the sender as unreachable: with the
  retriever as the server builds it, a message with attachments is put on hold until it expires.
\<close>

theorem attachments_unreachable:
  assumes "url_parser (nets 0 0)" and "canonicalizeHailServiceBase (nets 0 0) endpoint = Inr (serviceBase sender)"
    and "rt_resolve rt 0 (env_from e) = Inr sender" and "length (digest_value (body_digest (env_body e))) = 32"
    and "fetch_document (safe_retriever c nets rt) 0 (serviceBase sender) e = Inr (Inr bs)"
    and "bodyAttachments c bs = Inr (f # files)"
  shows "retrieve (safe_retriever c nets rt) e = RetrievalRetry ''sender-unreachable'' None"
proof -
  let ?rt = "safe_retriever c nets rt"
  let ?d = "digest_value (body_digest (env_body e))"
  have codec: "rt_codec ?rt = c" by (simp add: safe_retriever_def)
  note fetched = fetched_document [OF assms(5), unfolded codec]
  have size: "1 \<le> body_size (env_body e)" "body_size (env_body e) \<le> int BODY_MAX_BYTES"
    using fetched(1,3) by (cases bs; auto simp: validateBodyBytes_def split: if_splits)+
  have "length (at_digest f) = 32" using attachment_digest [OF assms(6)] by simp
  then have ne: "?d \<noteq> []" "at_digest f \<noteq> []" using assms(4) by auto
  define q where "q = (lit ''/bodies'' @ slash # encodeBase64Url ?d) @ lit ''/attachments'' @ slash # encodeBase64Url (at_digest f)"
  have "plain_path q" unfolding q_def
    using plain_literals plain_path_segment [OF valid_base64url [OF ne(1)]] plain_path_segment [OF valid_base64url [OF ne(2)]]
    by (intro plain_path_append)
  from url_parser.base_url [OF assms(1,2) this] obtain v p where v: "net_url (nets 0 0) (serviceBase sender @ q) = Some v"
      "wu_pathname v = p @ q" by metis
  have url: "file_url (serviceBase sender) e f = serviceBase sender @ q"
    by (simp add: file_url_def body_url_def q_def lit_def slash_def)
  have "wu_pathname v = (p @ lit ''/bodies'' @ slash # encodeBase64Url ?d) @ lit ''/attachments/'' @ encodeBase64Url (at_digest f)"
    by (simp add: v(2) q_def lit_def slash_def)
  then have "\<not> body_path (wu_pathname v)" using file_path_refused by metis
  then have "\<exists>err. fetch_at ?rt 0 1 (file_url (serviceBase sender) e f) e ''application/octet-stream'' ''identity'' = Inl err"
    by (auto simp: fetch_at_def url safe_retriever_def v(1) send_def and_then_def split: sum.splits)
  then have "\<exists>err. fetch_files ?rt 0 1 (serviceBase sender) e (f # files) = Inl err" by (auto simp: and_then_def split: sum.splits)
  then have "\<exists>err. retrieve_at ?rt 0 (serviceBase sender) e = Inl err"
    using assms(5,6) by (auto simp: retrieve_at_def codec and_then_def)
  then have "\<exists>err. attempt_retrieval ?rt e = Inl err"
    using assms(3) by (auto simp: attempt_retrieval_def safe_retriever_def and_then_def)
  moreover have "safe_integer (body_size (env_body e))"
    using size by (simp add: safe_integer_def BODY_MAX_BYTES_def MAX_SAFE_INTEGER_def)
  ultimately show ?thesis using size by (auto simp: retrieve_def)
qed

end
