(* ===== verification/RetrievalExample.thy ===== *)
theory RetrievalExample
  imports RetrievalProperties
begin

text \<open>
  A parser for plain HTTPS URLs, which keeps the laws of \<open>url_parser\<close>, a network on which one provider
  answers every request with the same body, and a body that announces an attachment. The theorems about retrieval are applied to them.
\<close>

declare split_paired_All [simp del] split_paired_Ex [simp del]

section \<open>Plain HTTPS URLs\<close>

definition host_char :: "code_unit \<Rightarrow> bool" where
  "host_char c \<longleftrightarrow> is_lower c \<or> Text.is_digit c \<or> one_of ''.-'' c"

definition url_at :: "jstring \<Rightarrow> jstring \<Rightarrow> web_url" where
  "url_at host p = \<lparr>wu_protocol = lit ''https:'', wu_username = [], wu_password = [], wu_hostname = host, wu_port = [],
     wu_pathname = (if p = [] then [slash] else p), wu_search = [], wu_hash = [], wu_origin = lit ''https://'' @ host,
     wu_href = lit ''https://'' @ host @ (if p = [] then [slash] else p)\<rparr>"

lemma url_at_simps [simp]:
  "wu_protocol (url_at host p) = lit ''https:''" "wu_username (url_at host p) = []" "wu_password (url_at host p) = []"
  "wu_hostname (url_at host p) = host" "wu_pathname (url_at host p) = (if p = [] then [slash] else p)"
  "wu_search (url_at host p) = []" "wu_hash (url_at host p) = []" "wu_origin (url_at host p) = lit ''https://'' @ host"
  "wu_port (url_at host p) = []" "wu_href (url_at host p) = lit ''https://'' @ host @ (if p = [] then [slash] else p)"
  by (simp_all add: url_at_def)

definition https_parts :: "jstring \<Rightarrow> jstring \<Rightarrow> bool" where
  "https_parts host p \<longleftrightarrow> host \<noteq> [] \<and> list_all host_char host \<and> (p = [] \<or> p = [slash] \<or> plain_path p)"

definition https_url :: "jstring \<Rightarrow> web_url option" where
  "https_url s =
     (let rest = drop 8 s; host = takeWhile ((\<noteq>) slash) rest; p = dropWhile ((\<noteq>) slash) rest in
      if take 8 s = lit ''https://'' \<and> https_parts host p then Some (url_at host p) else None)"

lemma https_url_at:
  assumes "https_parts host p"
  shows "https_url (lit ''https://'' @ host @ p) = Some (url_at host p)"
proof -
  have "\<not> host_char slash"
    by (simp add: slash_def host_char_def is_lower_def Text.is_digit_def in_range_def one_of_def lit_def)
  then have "\<forall>c \<in> set host. slash \<noteq> c" using assms by (auto simp: https_parts_def list_all_iff)
  then have parts: "takeWhile ((\<noteq>) slash) (host @ p) = host" "dropWhile ((\<noteq>) slash) (host @ p) = p"
    using assms by (auto simp: https_parts_def takeWhile_append dropWhile_append plain_path_def neq_Nil_conv)
  have text8: "drop 8 (lit ''https://'' @ host @ p) = host @ p" "take 8 (lit ''https://'' @ host @ p) = lit ''https://''"
    by (simp_all add: lit_def)
  show ?thesis unfolding https_url_def Let_def text8 parts using assms by (simp only: simp_thms if_True)
qed

lemma https_url_cases:
  assumes "https_url s = Some u"
  obtains host p where "u = url_at host p" "https_parts host p"
  using assms unfolding https_url_def Let_def by (metis option.distinct(1) option.inject)

definition example_network :: "bytes \<Rightarrow> network" where
  "example_network bs = \<lparr>net_url = https_url, net_domainToASCII = (\<lambda>s. s), net_isIP = (\<lambda>s. if s = lit ''192.0.2.1'' then 4 else 0),
     net_ipaddr = (\<lambda>_. Some (IPv4 [192, 0, 2, 1])), net_toIPv4 = (\<lambda>_. IPv4 []), net_range = (\<lambda>_. ''unicast''),
     net_lookup = (\<lambda>_. Inr [(lit ''192.0.2.1'', 4)]),
     net_exchange = (\<lambda>_ _. Inr \<lparr>rs_status = 200, rs_header = [''content-type'' \<mapsto> ''application/hail-body+cbor''],
       rs_has_body = True, rs_chunks = [bs], rs_broken = False, rs_cancel_fails = False\<rparr>)\<rparr>"

lemma host_text:
  assumes "host \<noteq> []" and "list_all host_char host"
  shows "plain_text host"
proof -
  have "host_char c \<Longrightarrow> path_char c" for c by (auto simp: host_char_def path_char_def one_of_def lit_def)
  then have "\<forall>c \<in> set host. path_char c" using assms(2) by (simp add: list_all_iff)
  moreover from this have "last host \<noteq> slash" using slash_classes(1) last_in_set [OF assms(1)] by metis
  ultimately show ?thesis using path_char_text by (auto simp: plain_text_def list_all_iff)
qed

interpretation example_urls: url_parser "example_network bs"
proof
  fix s u
  assume "net_url (example_network bs) s = Some u"
  then have "https_url s = Some u" by (simp add: example_network_def)
  then obtain host p where u: "u = url_at host p" and h: "https_parts host p" by (rule https_url_cases)
  show "\<exists>rest. wu_pathname u = slash # rest" using h by (auto simp: u https_parts_def plain_path_def neq_Nil_conv)
  show "\<exists>v. net_url (example_network bs) (wu_origin u) = Some v \<and> at_origin u v \<and> wu_pathname v = [slash]"
    using https_url_at [of host "[]"] h by (simp add: example_network_def at_origin_def u https_parts_def)
  show "\<exists>v. net_url (example_network bs) (wu_origin u @ q) = Some v \<and> at_origin u v \<and> wu_pathname v = q
      \<and> wu_href v = wu_origin u @ q" if "plain_path q" for q
    using https_url_at [of host q] h that by (auto simp: example_network_def at_origin_def u https_parts_def plain_path_def)
  have "plain_text host" using host_text h by (simp add: https_parts_def)
  then show "\<not> forbidden_form (wu_origin u) \<and> last (wu_origin u) \<noteq> slash"
    using h by (cases "rev host") (auto simp: u https_parts_def forbidden_form_def visible_ascii_def plain_text_def lit_def in_range_def slash_def)
qed

section \<open>Fetching a body\<close>

definition sender_base :: jstring where
  "sender_base = lit ''https://mail.example''"

lemma sender_base_parts: "sender_base = lit ''https://'' @ lit ''mail.example''"
  by (simp add: sender_base_def lit_def)

lemma sender_url:
  assumes "p = [] \<or> plain_path p"
  shows "https_url (sender_base @ p) = Some (url_at (lit ''mail.example'') p)"
proof -
  have "lit ''mail.example'' \<noteq> []" "list_all host_char (lit ''mail.example'')" by code_simp+
  then have "https_parts (lit ''mail.example'') p" using assms by (auto simp: https_parts_def)
  moreover have "sender_base @ p = lit ''https://'' @ lit ''mail.example'' @ p" by (simp add: sender_base_def lit_def)
  ultimately show ?thesis using https_url_at by metis
qed

lemma sender_hostname: "dns_hostname (example_network bs) u" if "wu_hostname u = lit ''mail.example''"
  using that by (simp add: dns_hostname_def example_network_def lit_def)

lemma sender_canonical: "canonicalizeHailServiceBase (example_network bs) sender_base = Inr sender_base"
proof -
  have "\<not> forbidden_form sender_base" by code_simp
  moreover have "net_url (example_network bs) sender_base = https_url sender_base" by (simp add: example_network_def)
  ultimately show ?thesis
    using sender_url [of "[]"] sender_base_parts by (simp add: canonicalizeHailServiceBase_def sender_hostname without_slash_def)
qed

definition example_document :: HailDidDocument where
  "example_document = \<lparr>messagingDidKey = [], identityDidKey = [], serviceBase = sender_base,
     document_evidence = \<lparr>evidence_document = [], evidence_data = [], evidence_log = []\<rparr>\<rparr>"

definition example_retriever :: "bytes \<Rightarrow> retriever" where
  "example_retriever bs = safe_retriever example_codec (\<lambda>_ _. example_network bs)
     \<lparr>rt_codec = example_codec, rt_network = example_network bs, rt_resolve = (\<lambda>_ _. Inr example_document),
      rt_fetchBody = (\<lambda>_ _ _. Inl Rejected), rt_validateTarget = (\<lambda>_. Inr ()), rt_now = 0, rt_dateParse = (\<lambda>_. None),
      rt_gunzip = (\<lambda>_ _. GzipInvalid)\<rparr>"

definition example_response :: "bytes \<Rightarrow> web_response" where
  "example_response bs = \<lparr>rs_status = 200, rs_header = [''content-type'' \<mapsto> ''application/hail-body+cbor''],
     rs_has_body = True, rs_chunks = [bs], rs_broken = False, rs_cancel_fails = False\<rparr>"

definition body_request :: "HailEnvelope \<Rightarrow> web_request" where
  "body_request e = \<lparr>rq_method = ''GET'', rq_url = the (https_url (body_url sender_base e)),
     rq_headers = [(''accept'', lit ''application/hail-body+cbor''), (''accept-encoding'', lit ''gzip, identity''), (''authorization'', bearer e)],
     rq_body = []\<rparr>"

lemma body_url_plain:
  assumes "length (digest_value (body_digest (env_body e))) = 32"
  shows "plain_path (lit ''/bodies/'' @ encodeBase64Url (digest_value (body_digest (env_body e))))"
proof -
  have "lit ''/bodies/'' @ x = lit ''/bodies'' @ slash # x" for x by (simp add: lit_def slash_def)
  moreover have "digest_value (body_digest (env_body e)) \<noteq> []" using assms by auto
  ultimately show ?thesis
    using plain_literals(1) plain_path_segment [OF valid_base64url] plain_path_append by metis
qed

lemma send_body_request:
  assumes "length (digest_value (body_digest (env_body e))) = 32" and "length (access_token (env_body e)) = 32"
  shows "send (example_network bs) True (body_request e) = Inr (example_response bs)"
proof -
  let ?p = "lit ''/bodies/'' @ encodeBase64Url (digest_value (body_digest (env_body e)))"
  note u = sender_url [of ?p, OF disjI2, OF body_url_plain [OF assms(1)]]
  have "wu_pathname (rq_url (body_request e)) = ?p" "wu_search (rq_url (body_request e)) = []" "rq_method (body_request e) = ''GET''"
      "wu_hostname (rq_url (body_request e)) = lit ''mail.example''"
    using u by (simp_all add: body_request_def body_url_def lit_def)
  moreover have "validateUrl (example_network bs) (rq_url (body_request e)) = Inr ()"
    using u by (simp add: body_request_def body_url_def validateUrl_def sender_hostname)
  moreover have "bearer_credential (Some (bearer e))"
    using encode_base64url_chars [of "access_token (env_body e)"] assms(2)
    by (simp add: bearer_credential_def bearer_def lit_def length_encodeBase64Url)
  then have "check_headers True (body_request e) = Inr ()"
    by (simp add: check_headers_def body_request_def allowed_headers_def has_row_def)
  ultimately show ?thesis
    using body_path_accepted [OF assms(1)]
    by (simp add: send_def example_network_def isPublicAddress_def example_response_def)
qed

lemma fetch_example:
  assumes "length (digest_value (body_digest (env_body e))) = 32" and "length (access_token (env_body e)) = 32"
    and "digest_value (body_digest (env_body e)) = any_digest" and "body_size (env_body e) = int (length bs)"
    and "validateBodyBytes example_codec bs (Some (body_profile_of (env_body e))) = Inr p"
  shows "fetch_document (example_retriever bs) i sender_base e = Inr (Inr bs)"
proof -
  let ?p = "lit ''/bodies/'' @ encodeBase64Url (digest_value (body_digest (env_body e)))"
  let ?rt = "example_retriever bs"
  note u = sender_url [of ?p, OF disjI2, OF body_url_plain [OF assms(1)]]
  have "validateUrl (example_network bs) (rq_url (body_request e)) = Inr ()"
    using u by (simp add: body_request_def body_url_def validateUrl_def sender_hostname)
  then have "fetch_at ?rt i 0 (body_url sender_base e) e ''application/hail-body+cbor'' ''gzip, identity'' = Inr (example_response bs)"
    using send_body_request [OF assms(1,2)] u
    by (simp add: fetch_at_def example_retriever_def safe_retriever_def example_network_def body_url_def body_request_def)
  moreover have "boundedResponse (example_response bs) (length bs) = Inr bs"
    by (simp add: boundedResponse_def content_length_def example_response_def)
  then have "receive_document ?rt e (example_response bs) False = Inr bs"
    using assms(3,4,5)
    by (simp add: receive_document_def validateContentDigest_def unpack_def check_document_def example_retriever_def safe_retriever_def
        example_response_def example_codec_def sha256_example)
  then have "document_response ?rt e (example_response bs) = Inr (Inr bs)"
    by (simp add: document_response_def example_response_def lower_def)
  ultimately show ?thesis by (simp add: fetch_document_def)
qed

section \<open>The witnesses\<close>

lemma answer_token: "length (access_token (env_body answer)) = 32"
  by (simp add: answer_def example_envelope_def)

theorem fetch_is_safe_witness:
  "\<exists>address. isPublicAddress (example_network empty_body) address \<and> wu_protocol (rq_url (body_request answer)) = lit ''https:''
    \<and> body_path (wu_pathname (rq_url (body_request answer)))"
proof -
  have "send (example_network empty_body) True (body_request answer) = Inr (example_response empty_body)"
    by (rule send_body_request) (simp_all add: any_digest_def answer_token)
  from fetch_is_safe [OF this] show ?thesis by (auto simp: body_request_def has_row_def)
qed

lemma retrieve_example: "retrieve (example_retriever empty_body) answer = RetrievalSuccess empty_body []"
proof -
  have v: "validateBodyBytes example_codec empty_body (Some Spt1) = Inr Spt1"
    using empty_body_decodes length_empty_body by (simp add: validateBodyBytes_exact [OF example_library] BODY_MAX_BYTES_def)
  have "fetch_document (example_retriever empty_body) 0 sender_base answer = Inr (Inr empty_body)"
    using v by (intro fetch_example) (simp_all add: any_digest_def answer_token)
  moreover have "rt_codec (example_retriever empty_body) = example_codec"
    "rt_resolve (example_retriever empty_body) = (\<lambda>_ _. Inr example_document)"
    by (simp_all add: example_retriever_def safe_retriever_def)
  moreover have "serviceBase example_document = sender_base" by (simp add: example_document_def)
  ultimately have "attempt_retrieval (example_retriever empty_body) answer = Inr (RetrievalSuccess empty_body [])"
    by (simp add: attempt_retrieval_def retrieve_at_def run_attachments)
  then show ?thesis
    using length_empty_body by (auto simp: retrieve_def safe_integer_def BODY_MAX_BYTES_def MAX_SAFE_INTEGER_def)
qed

theorem retrieved_is_deliverable_witness:
  "deliver example_codec open_functions None noon 0 claimed_db claimed_db work_claim empty_body [] claimed_db =
     and_then (authorizeConnection open_functions None 0 claimed_db claimed_db work_claim) (\<lambda>authorized.
       deliver_transaction example_codec open_functions noon work_claim empty_body [] authorized claimed_db)"
proof -
  have "claim_envelope work_claim = answer" by (simp add: work_claim_def)
  with retrieve_example have r: "retrieve (example_retriever empty_body) (claim_envelope work_claim) = RetrievalSuccess empty_body []" by simp
  moreover have "rt_codec (example_retriever empty_body) = example_codec" by (simp add: example_retriever_def safe_retriever_def)
  ultimately show ?thesis
    using retrieved_is_deliverable [OF r, of open_functions None noon 0 claimed_db claimed_db claimed_db] by auto
qed

definition attached_document :: hail_value where
  "attached_document = HMap [(lit ''blocks'', HArray []), (lit ''profile'', HText (lit ''spt-1'')), (lit ''version'', HInt 1),
     (lit ''attachments'', HArray [HMap [(lit ''size'', HInt 1), (lit ''digest'', HMap [(lit ''value'', HBytes any_digest),
       (lit ''algorithm'', HText (lit ''sha-256''))]), (lit ''filename'', HText (lit ''a.txt'')), (lit ''media_type'', HText (lit ''text/plain''))]])]"

definition attached_body :: bytes where
  "attached_body = rfc8949 (of_hail attached_document)"

lemma validate_attached: "validatePayload example_env BodySpt1 (of_hail attached_document) = Inr ()"
proof -
  have "assertHailValue DEFAULT_HAIL_RESOURCE_LIMITS (of_hail attached_document) = Inr ()"
    by (rule assertHailValue_plain) (simp_all add: attached_document_def any_digest_def HAIL_MIN_INTEGER_def HAIL_MAX_INTEGER_def)
  moreover have "validateSpt1Body example_env attached_document = Inr ()" by code_simp
  ultimately show ?thesis
    by (simp add: validatePayload_def validate_by_type_def signed_types_def) (simp add: attached_document_def get_HMap)
qed

lemma attached_unique: "unique_keys attached_document"
  by code_simp

text \<open>Values whose members are in the order of the encoding and of the enumeration of properties alike.\<close>

definition in_order :: "hail_value \<Rightarrow> bool" where
  "in_order h \<longleftrightarrow> sort_members h = h \<and> enumerate_members h = h"

definition keys_in_order :: "jstring list \<Rightarrow> bool" where
  "keys_in_order ks \<longleftrightarrow> list_all (\<lambda>k. array_index k = None) ks \<and> sorted (map (\<lambda>k. key_bytes (k, ())) ks)"

lemma in_order_HMap:
  assumes "keys_in_order (map fst kvs)" and "list_all (\<lambda>(k, v). in_order v) kvs"
  shows "in_order (HMap kvs)"
proof -
  have same: "map (\<lambda>(k, v). (k, sort_members v)) kvs = kvs" "map (\<lambda>(k, v). (k, enumerate_members v)) kvs = kvs"
    using assms(2) by (auto simp: in_order_def list_all_iff intro!: map_idI)
  have "map key_bytes kvs = map (\<lambda>k. key_bytes (k, ())) (map fst kvs)" by (auto simp: key_bytes_def)
  then have "sorted (map key_bytes kvs)" using assms(1) unfolding keys_in_order_def by metis
  then have "sort_key key_bytes kvs = kvs" by (rule sort_key_id_if_sorted)
  moreover have "own_property_order kvs = kvs"
    using assms(1) by (auto simp: keys_in_order_def own_property_order_def list_all_iff filter_id_conv filter_empty_conv)
  ultimately show ?thesis by (simp add: in_order_def same)
qed

lemma attached_keys:
  "keys_in_order (map lit [''blocks'', ''profile'', ''version'', ''attachments''])"
  "keys_in_order (map lit [''size'', ''digest'', ''filename'', ''media_type''])"
  "keys_in_order (map lit [''value'', ''algorithm''])"
  by code_simp+

lemma attached_canonical: "canonical attached_document = attached_document"
proof -
  have leaf: "in_order (HInt i)" "in_order (HText t)" "in_order (HBytes bs)" "list_all in_order xs \<Longrightarrow> in_order (HArray xs)" for i t bs xs
    by (simp_all add: in_order_def list_all_iff map_idI)
  have "in_order attached_document"
    unfolding attached_document_def
    by (intro in_order_HMap) (use attached_keys leaf in \<open>auto intro!: in_order_HMap leaf(4)\<close>)
  then show ?thesis by (simp add: in_order_def canonical_def)
qed

lemma attached_encodes:
  "encodeDeterministic reference_cborg DEFAULT_HAIL_RESOURCE_LIMITS (of_hail attached_document) = Inr attached_body"
proof -
  have b: "attached_body = enc (hail_cbor (sort_members attached_document))" by (simp add: attached_body_def rfc8949_of_hail)
  have "encodePayload reference_cborg example_env BodySpt1 (of_hail attached_document) DEFAULT_HAIL_RESOURCE_LIMITS = Inr attached_body"
    unfolding reference.encodePayload_iff [OF attached_unique] b using validate_attached by simp
  then show ?thesis by (simp add: encodePayload_def)
qed

lemma attached_decodes: "decodeBody example_codec Spt1 attached_body = Inr attached_document"
proof -
  have "decodeDeterministic reference_cborg DEFAULT_HAIL_RESOURCE_LIMITS attached_body = Inr (canonical attached_document)"
    using reference.decode_of_encode [OF attached_unique _ attached_encodes] by (simp add: default_limits MAX_SAFE_INTEGER_def)
  then have "decodeDeterministic reference_cborg DEFAULT_HAIL_RESOURCE_LIMITS attached_body = Inr attached_document"
    unfolding attached_canonical .
  with validate_attached show ?thesis
    by (simp add: decodeBody_def decodePayload_def example_codec_def)
qed

lemma length_attached: "1 \<le> length attached_body" "length attached_body \<le> 10000"
proof -
  have l: "length attached_body = encodedSize attached_document"
    by (simp add: attached_body_def rfc8949_of_hail length_enc_hail)
  moreover have "bulk attached_document \<le> 10000" by (simp add: attached_document_def any_digest_def)
  ultimately show "length attached_body \<le> 10000" using encodedSize_le_bulk [of attached_document] by linarith
  show "1 \<le> length attached_body" unfolding l by (simp add: attached_document_def argumentSize_def)
qed

lemma attached_valid: "validateBodyBytes example_codec attached_body (Some Spt1) = Inr Spt1"
    "validateBodyBytes example_codec attached_body None = Inr Spt1"
  using attached_decodes length_attached by (simp_all add: validateBodyBytes_exact [OF example_library] BODY_MAX_BYTES_def)

definition letter :: HailEnvelope where
  "letter = answer\<lparr>env_body := env_body answer\<lparr>body_size := int (length attached_body)\<rparr>\<rparr>"

theorem attachments_unreachable_witness:
  "retrieve (example_retriever attached_body) letter = RetrievalRetry ''sender-unreachable'' None"
proof -
  have l: "digest_value (body_digest (env_body letter)) = any_digest" "length (access_token (env_body letter)) = 32"
      "body_size (env_body letter) = int (length attached_body)" "body_profile_of (env_body letter) = Spt1" "length any_digest = 32"
    by (simp_all add: letter_def answer_token any_digest_def)
  have base: "serviceBase example_document = sender_base" by (simp add: example_document_def)
  have f: "fetch_document (example_retriever attached_body) 0 (serviceBase example_document) letter = Inr (Inr attached_body)"
    unfolding base by (rule fetch_example) (simp_all add: l attached_valid)
  have a: "bodyAttachments example_codec attached_body = Inr [read_attachment (hd (list_of (get attached_document ''attachments'')))]"
    using attached_decodes attached_valid(2) by (simp add: bodyAttachments_def attached_document_def get_HMap)
  show ?thesis
    unfolding example_retriever_def
    by (rule attachments_unreachable [where endpoint = sender_base and sender = example_document and bs = attached_body,
        OF example_urls.url_parser_axioms _ _ _ f [unfolded example_retriever_def] a])
      (simp_all add: base sender_canonical l)
qed

end
