(* ===== verification/Http.thy ===== *)
theory Http
  imports Transport
begin

text \<open>
  \<^verbatim>\<open>apps/server/src/http\<close>: what stands before the routes of the federation. \<open>media-type.ts\<close> reads
  \<open>Content-Type\<close> and \<open>Accept\<close>, \<open>rate-limit.ts\<close> counts the requests of a client address, and
  \<open>protected-schedule.ts\<close> admits a bounded number of requests whose processing must not show in the
  answer. A \<open>Map\<close> is an association list in the order of insertion; times are milliseconds.
\<close>

declare split_paired_All [simp del] split_paired_Ex [simp del] Status.decimal.simps [simp del]

section \<open>Strings of the host language\<close>

fun index_of :: "code_unit \<Rightarrow> jstring \<Rightarrow> nat option" where
  "index_of x [] = None"
| "index_of x (c # s) = (if c = x then Some 0 else map_option Suc (index_of x s))"

definition js_space :: "code_unit \<Rightarrow> bool" where
  "js_space c \<longleftrightarrow> 9 \<le> c \<and> c \<le> 13 \<or> c \<in> {0x20, 0xA0, 0x1680, 0x2028, 0x2029, 0x202F, 0x205F, 0x3000, 0xFEFF} \<or> 0x2000 \<le> c \<and> c \<le> 0x200A"

definition js_trim :: "jstring \<Rightarrow> jstring" where
  "js_trim s = rev (dropWhile js_space (rev (dropWhile js_space s)))"

text \<open>\<open>toLowerCase\<close> of a header value, whose code units are below 256.\<close>

definition latin1_lower :: "jstring \<Rightarrow> jstring" where
  "latin1_lower = map (\<lambda>c. if is_upper c \<or> 0xC0 \<le> c \<and> c \<le> 0xDE \<and> c \<noteq> 0xD7 then c + 32 else c)"

definition decimal_digits :: "jstring \<Rightarrow> bool" where
  "decimal_digits s \<longleftrightarrow> s \<noteq> [] \<and> list_all Text.is_digit s"

definition decimal_value :: "jstring \<Rightarrow> nat" where
  "decimal_value s = foldl (\<lambda>n c. n * 10 + (unat c - 48)) 0 s"

section \<open>Media types\<close>

record ParsedMediaType =
  mt_type :: jstring
  mt_subtype :: jstring
  mt_parameters :: "(jstring \<times> jstring) list"

definition parameter_name :: "jstring \<Rightarrow> bool" where
  "parameter_name s \<longleftrightarrow> s \<noteq> [] \<and> list_all (\<lambda>c. is_lower c \<or> Text.is_digit c \<or> one_of ''!#$&^_.+-'' c) s"

definition quote_mark :: code_unit where
  "quote_mark = of_char CHR 0x22"

definition unquote :: "jstring \<Rightarrow> jstring option" where
  "unquote s =
     (if s \<noteq> [] \<and> (hd s = quote_mark \<or> last s = quote_mark) then
        (if 2 \<le> length s \<and> hd s = quote_mark \<and> last s = quote_mark
            \<and> list_all (\<lambda>c. c \<noteq> quote_mark \<and> c \<noteq> of_char CHR 0x5C) (butlast (tl s))
         then Some (butlast (tl s)) else None)
      else Some s)"

definition parse_parameter :: "jstring \<Rightarrow> (jstring \<times> jstring) list \<Rightarrow> (jstring \<times> jstring) list option" where
  "parse_parameter raw parameters = (case index_of (of_char CHR ''='') raw of
     None \<Rightarrow> None
   | Some equals \<Rightarrow>
       let name = latin1_lower (js_trim (take equals raw)) in
       if equals < 1 \<or> \<not> parameter_name name \<or> map_of parameters name \<noteq> None then None
       else (case unquote (js_trim (drop (equals + 1) raw)) of
         None \<Rightarrow> None
       | Some parameter \<Rightarrow> if parameter = [] then None else Some (AList.update name (latin1_lower parameter) parameters)))"

fun parse_parameters :: "jstring list \<Rightarrow> (jstring \<times> jstring) list \<Rightarrow> (jstring \<times> jstring) list option" where
  "parse_parameters [] parameters = Some parameters"
| "parse_parameters (raw # parts) parameters =
     (case parse_parameter raw parameters of None \<Rightarrow> None | Some parameters' \<Rightarrow> parse_parameters parts parameters')"

definition parse_media_type :: "jstring \<Rightarrow> ParsedMediaType option" where
  "parse_media_type v =
     (let parts = split_on (of_char CHR '';'') v; essence = latin1_lower (js_trim (hd parts)) in
      case index_of slash essence of
        None \<Rightarrow> None
      | Some separator \<Rightarrow>
          if separator < 1 \<or> separator = length essence - 1 then None
          else map_option (\<lambda>parameters. \<lparr>mt_type = take separator essence, mt_subtype = drop (separator + 1) essence,
            mt_parameters = parameters\<rparr>) (parse_parameters (tl parts) []))"

definition isCoseSign1MediaType :: "jstring option \<Rightarrow> bool" where
  "isCoseSign1MediaType v = (case Option.bind v parse_media_type of
     None \<Rightarrow> False
   | Some m \<Rightarrow> mt_type m = lit ''application'' \<and> mt_subtype m = lit ''cose'' \<and> length (mt_parameters m) = 1
       \<and> map_of (mt_parameters m) (lit ''cose-type'') = Some (lit ''cose-sign1''))"

text \<open>A quality is counted in thousandths.\<close>

definition quality_pattern :: "jstring \<Rightarrow> bool" where
  "quality_pattern s \<longleftrightarrow> s \<noteq> [] \<and> length s \<le> 5 \<and> (2 \<le> length s \<longrightarrow> s ! 1 = of_char CHR ''.'')
     \<and> (hd s = of_char CHR ''0'' \<and> list_all Text.is_digit (drop 2 s)
       \<or> hd s = of_char CHR ''1'' \<and> list_all (\<lambda>c. c = of_char CHR ''0'') (drop 2 s))"

definition quality :: "jstring option \<Rightarrow> nat option" where
  "quality v = (case v of
     None \<Rightarrow> Some 1000
   | Some s \<Rightarrow> if quality_pattern s then Some (decimal_value (take 4 (hd s # drop 2 s @ lit ''000''))) else None)"

text \<open>How an item of \<open>Accept\<close> matches the media type: its specificity and quality.\<close>

definition accepted_item :: "jstring \<Rightarrow> (nat \<times> nat) option" where
  "accepted_item item = Option.bind (parse_media_type item) (\<lambda>m.
     Option.bind (quality (map_of (mt_parameters m) (lit ''q''))) (\<lambda>q.
       let parameters = AList.delete (lit ''q'') (mt_parameters m); coseType = map_of parameters (lit ''cose-type'') in
       if \<not> (mt_type m = lit ''*'' \<or> mt_type m = lit ''application'') \<or> \<not> (mt_subtype m = lit ''*'' \<or> mt_subtype m = lit ''cose'')
           \<or> length parameters > (if coseType = None then 0 else 1) \<or> coseType \<noteq> None \<and> coseType \<noteq> Some (lit ''cose-sign1'')
         then None
       else Some ((if mt_type m = lit ''*'' then 0 else if mt_subtype m = lit ''*'' then 1 else 2)
         + (if coseType = None then 0 else 1), q)))"

fun best_item :: "jstring list \<Rightarrow> int \<Rightarrow> nat \<Rightarrow> int \<times> nat" where
  "best_item [] bestSpecificity bestQuality = (bestSpecificity, bestQuality)"
| "best_item (item # others) bestSpecificity bestQuality = (case accepted_item item of
     None \<Rightarrow> best_item others bestSpecificity bestQuality
   | Some (specificity, q) \<Rightarrow>
       if int specificity > bestSpecificity then best_item others (int specificity) q
       else if int specificity = bestSpecificity then best_item others bestSpecificity (max bestQuality q)
       else best_item others bestSpecificity bestQuality)"

definition acceptsCoseSign1 :: "jstring option \<Rightarrow> bool" where
  "acceptsCoseSign1 v = (case v of
     None \<Rightarrow> True
   | Some s \<Rightarrow> (case best_item (split_on (of_char CHR '','') s) (- 1) 0 of
       (bestSpecificity, bestQuality) \<Rightarrow> 0 \<le> bestSpecificity \<and> 0 < bestQuality))"

definition COSE_SIGN1_MEDIA_TYPE :: jstring where
  "COSE_SIGN1_MEDIA_TYPE = lit ''application/cose; cose-type='' @ [quote_mark] @ lit ''cose-sign1'' @ [quote_mark]"

section \<open>Requests that arrive\<close>

record arrival =
  ar_method :: string
  ar_pathname :: jstring
  ar_search :: jstring
  ar_header :: "string \<Rightarrow> jstring option"
  ar_has_body :: bool
  ar_chunks :: "bytes list"
  ar_broken :: bool
  ar_cancel_fails :: bool

definition clientAddress :: "network \<Rightarrow> arrival \<Rightarrow> jstring" where
  "clientAddress net a = (case ar_header a ''x-hail-trusted-client-ip'' of
     None \<Rightarrow> lit ''unidentified''
   | Some v \<Rightarrow> if v \<noteq> [] \<and> net_isIP net v \<noteq> 0 then v else lit ''unidentified'')"

definition json_problem :: "nat \<Rightarrow> string \<Rightarrow> string option \<Rightarrow> bytes" where
  "json_problem status title detail =
     (let q = [CHR 0x22] in
      map of_char (''{'' @ q @ ''type'' @ q @ '':'' @ q @ ''about:blank'' @ q @ '','' @ q @ ''title'' @ q @ '':'' @ q @ title @ q
        @ '','' @ q @ ''status'' @ q @ '':'' @ Status.decimal status
        @ (case detail of None \<Rightarrow> '''' | Some m \<Rightarrow> '','' @ q @ ''detail'' @ q @ '':'' @ q @ m @ q) @ ''}''))"

definition problem_response :: "nat \<Rightarrow> string \<Rightarrow> string option \<Rightarrow> (string \<times> string) list \<Rightarrow> web_response" where
  "problem_response status title detail extra = \<lparr>rs_status = status,
     rs_header = map_of (extra @ [(''cache-control'', ''no-store''), (''content-type'', ''application/problem+json'')]),
     rs_has_body = True, rs_chunks = [json_problem status title detail], rs_broken = False, rs_cancel_fails = False\<rparr>"

lemma problem_fields [simp]:
  "rs_status (problem_response status title detail extra) = status"
  "rs_header (problem_response status title detail extra) =
     map_of (extra @ [(''cache-control'', ''no-store''), (''content-type'', ''application/problem+json'')])"
  "rs_has_body (problem_response status title detail extra)"
  "rs_chunks (problem_response status title detail extra) = [json_problem status title detail]"
  "\<not> rs_broken (problem_response status title detail extra)"
  by (simp_all add: problem_response_def)

section \<open>The rate limit\<close>

record bucket =
  started :: int
  taken :: int

type_synonym buckets = "(jstring \<times> bucket) list"

definition make_room :: "nat \<Rightarrow> buckets \<Rightarrow> buckets" where
  "make_room maximumBuckets bs = (case bs of
     [] \<Rightarrow> []
   | (oldest, _) # _ \<Rightarrow> if maximumBuckets \<le> length bs then AList.delete oldest bs else bs)"

definition current_bucket :: "nat \<Rightarrow> jstring \<Rightarrow> int \<Rightarrow> buckets \<Rightarrow> bucket \<times> buckets" where
  "current_bucket maximumBuckets key now bs =
     (let fresh = \<lparr>started = now, taken = 0\<rparr> in
      case map_of bs key of
        None \<Rightarrow> (fresh, AList.update key fresh (make_room maximumBuckets bs))
      | Some b \<Rightarrow> if 60000 \<le> now - started b then (fresh, AList.update key fresh bs) else (b, bs))"

definition take_token :: "nat \<Rightarrow> jstring \<Rightarrow> int \<Rightarrow> int \<Rightarrow> buckets \<Rightarrow> int option \<times> buckets" where
  "take_token maximumBuckets key ceil now bs =
     (let (b, bs') = current_bucket maximumBuckets key now bs; b' = b\<lparr>taken := taken b + 1\<rparr> in
      (if taken b' \<le> ceil then None else Some (max 1 (- ((now - started b' - 60000) div 1000))),
       AList.update key b' bs'))"

section \<open>The protected schedule\<close>

record ProtectedScheduleSettings =
  minimumResponseMs :: int
  processingDeadlineMs :: int
  maxInFlight :: int
  maxPerSource :: "int option"

definition POC_PROTECTED_SCHEDULE :: ProtectedScheduleSettings where
  "POC_PROTECTED_SCHEDULE = \<lparr>minimumResponseMs = 750, processingDeadlineMs = 10000, maxInFlight = 32, maxPerSource = None\<rparr>"

definition valid_settings :: "ProtectedScheduleSettings \<Rightarrow> bool" where
  "valid_settings st \<longleftrightarrow> safe_integer (minimumResponseMs st) \<and> 1 \<le> minimumResponseMs st
     \<and> safe_integer (processingDeadlineMs st) \<and> minimumResponseMs st < processingDeadlineMs st
     \<and> (case maxPerSource st of None \<Rightarrow> True | Some m \<Rightarrow> safe_integer m \<and> 1 \<le> m)
     \<and> safe_integer (maxInFlight st) \<and> 1 \<le> maxInFlight st"

datatype 'a ProtectedResult = Detailed 'a | Generic | BusyResult

record ProtectedResponseSchedule =
  inFlight :: int
  processing :: int
  sources :: "(jstring \<times> int) list"

definition source_count :: "ProtectedResponseSchedule \<Rightarrow> jstring \<Rightarrow> int" where
  "source_count s source = (case map_of (sources s) source of None \<Rightarrow> 0 | Some n \<Rightarrow> n)"

definition source_limit :: "ProtectedScheduleSettings \<Rightarrow> int" where
  "source_limit st = (case maxPerSource st of None \<Rightarrow> min 8 (maxInFlight st) | Some m \<Rightarrow> m)"

datatype admission = Busy | NoWorker | Started

definition admit :: "ProtectedScheduleSettings \<Rightarrow> jstring \<Rightarrow> ProtectedResponseSchedule \<Rightarrow> admission \<times> ProtectedResponseSchedule" where
  "admit st source s =
     (let sourceCount = source_count s source in
      if maxInFlight st \<le> inFlight s \<or> source_limit st \<le> sourceCount then (Busy, s)
      else
        let s' = s\<lparr>sources := AList.update source (sourceCount + 1) (sources s), inFlight := inFlight s + 1\<rparr> in
        if maxInFlight st \<le> processing s' then (NoWorker, s')
        else (Started, s'\<lparr>processing := processing s' + 1\<rparr>))"

definition deadline_passes :: "jstring \<Rightarrow> ProtectedResponseSchedule \<Rightarrow> ProtectedResponseSchedule" where
  "deadline_passes source s =
     (let remaining = source_count s source - 1 in
      s\<lparr>inFlight := inFlight s - 1,
        sources := (if remaining \<noteq> 0 then AList.update source remaining (sources s) else AList.delete source (sources s))\<rparr>)"

definition job_settles :: "ProtectedResponseSchedule \<Rightarrow> ProtectedResponseSchedule" where
  "job_settles s = s\<lparr>processing := processing s - 1\<rparr>"

text \<open>
  The result of \<open>run\<close> and the time after which it is returned. A job settles at a time after its
  admission or never; it yields no value if it returns null or throws. No two of these events happen at the same time.
\<close>

definition protected_result ::
  "ProtectedScheduleSettings \<Rightarrow> bool \<Rightarrow> admission \<Rightarrow> int option \<Rightarrow> 'a option \<Rightarrow> 'a ProtectedResult \<times> int" where
  "protected_result st waitForCompletion a settles v = (case a of
     Busy \<Rightarrow> (BusyResult, 0)
   | NoWorker \<Rightarrow> (Generic, minimumResponseMs st)
   | Started \<Rightarrow>
       let limit = (if waitForCompletion then processingDeadlineMs st else minimumResponseMs st) in
       (case settles of
          None \<Rightarrow> (Generic, max limit (minimumResponseMs st))
        | Some t \<Rightarrow>
            if t < limit then ((case v of None \<Rightarrow> Generic | Some x \<Rightarrow> Detailed x), max t (minimumResponseMs st))
            else (Generic, max limit (minimumResponseMs st))))"

section \<open>Before a route of the federation\<close>

text \<open>
  The routes for grants, envelopes and statuses begin alike: the rate limit of 120 requests in a minute with
  its 4096 buckets, the method, the media type. The \<open>gate_state\<close> is the state of the process behind a route.
\<close>

record gate_state =
  gate_buckets :: buckets
  gate_schedule :: ProtectedResponseSchedule

definition route_gate :: "network \<Rightarrow> string \<Rightarrow> int \<Rightarrow> arrival \<Rightarrow> gate_state \<Rightarrow> web_response option \<times> gate_state" where
  "route_gate net allowed now a g =
     (let (retry, bs) = take_token 4096 (clientAddress net a) 120 now (gate_buckets g) in
      (case retry of
         Some seconds \<Rightarrow> Some (problem_response 429 ''Too Many Requests'' None [(''retry-after'', Status.decimal (nat seconds))])
       | None \<Rightarrow>
           if ar_method a \<noteq> allowed then Some (problem_response 405 ''Method Not Allowed'' None [(''allow'', allowed)])
           else if \<not> isCoseSign1MediaType (ar_header a ''content-type'') \<or> ar_header a ''content-encoding'' \<noteq> None
             then Some (problem_response 415 ''Unsupported Media Type'' None [])
           else None,
       g\<lparr>gate_buckets := bs\<rparr>))"

definition admit_request :: "network \<Rightarrow> ProtectedScheduleSettings \<Rightarrow> arrival \<Rightarrow> gate_state \<Rightarrow> admission \<times> gate_state" where
  "admit_request net st a g =
     (case admit st (clientAddress net a) (gate_schedule g) of (admitted, s) \<Rightarrow> (admitted, g\<lparr>gate_schedule := s\<rparr>))"

end
