(* ===== verification/GrantExchange.thy ===== *)
theory GrantExchange
  imports GrantLife Http
begin

text \<open>
  \<^verbatim>\<open>apps/server/src/grants/publisher.ts\<close>, \<open>receiver.ts\<close> and \<open>routes.ts\<close>: how a revision of a
  grant travels from the grantor's provider to the grantee's. The publisher claims a revision, sends
  it with a condition on the revision it replaces, and reads the status and the entity tag
  of the answer; the receiver authenticates the revision, checks the condition, and stores it.
  Times of a process are milliseconds.
\<close>

declare split_paired_All [simp del] split_paired_Ex [simp del]

section \<open>Publishing\<close>

definition quoted :: "jstring \<Rightarrow> jstring" where
  "quoted s = lit [CHR 0x22] @ s @ lit [CHR 0x22]"

definition entity_tag :: "bytes \<Rightarrow> jstring" where
  "entity_tag d = quoted (encodeBase64Url d)"

definition expectedEtag :: "GrantPublicationClaim \<Rightarrow> jstring" where
  "expectedEtag c = entity_tag (sg_digest (gc_grant c))"

record GrantConditions =
  ifMatch :: "jstring option"
  ifNoneMatch :: "jstring option"

definition conditionHeaders :: "GrantPublicationClaim \<Rightarrow> GrantConditions outcome" where
  "conditionHeaders c =
     (let p = sg_payload (gc_grant c) in
      if grant_revision p = 1 then Inr \<lparr>ifMatch = None, ifNoneMatch = Some (lit ''*'')\<rparr>
      else (case grant_previous p of
        None \<Rightarrow> fail_with ''Grant update is missing its predecessor digest''
      | Some previous \<Rightarrow> Inr \<lparr>ifMatch = Some (entity_tag previous), ifNoneMatch = None\<rparr>))"

definition grantRetryAfter :: "(string \<Rightarrow> int option) \<Rightarrow> web_response \<Rightarrow> int \<Rightarrow> int option" where
  "grantRetryAfter dateParse r now = (case rs_header r ''retry-after'' of
     None \<Rightarrow> None
   | Some s \<Rightarrow>
       if s = [] then None
       else if list_all Status.is_digit s then Some (now + min (digits_value s) 3600 * 1000)
       else (case dateParse s of
         None \<Rightarrow> None
       | Some parsed \<Rightarrow> if parsed \<le> now then None else Some (min parsed (now + 3600000))))"

fun read_bounded :: "web_response \<Rightarrow> nat \<Rightarrow> bytes list \<Rightarrow> bytes outcome" where
  "read_bounded r len [] = (if rs_broken r then Inl Rejected else Inr [])"
| "read_bounded r len (chunk # chunks) =
     (if 65536 < len + length chunk then
        (if rs_cancel_fails r then Inl Rejected else fail_with ''Grant publication response exceeds its size limit'')
      else and_then (read_bounded r (len + length chunk) chunks) (\<lambda>bs. Inr (chunk @ bs)))"

definition boundedResponseBytes :: "web_response \<Rightarrow> bytes outcome" where
  "boundedResponseBytes r =
     (if (case rs_header r ''content-length'' of None \<Rightarrow> False
          | Some h \<Rightarrow> h = [] \<or> \<not> list_all Status.is_digit h \<or> 65536 < digits_value h)
        then fail_with ''Grant publication response exceeds its size limit''
      else if \<not> rs_has_body r then Inr []
      else read_bounded r 0 (rs_chunks r))"

definition nextGrantAttempt :: "GrantPublicationClaim \<Rightarrow> int \<Rightarrow> rat \<Rightarrow> int" where
  "nextGrantAttempt c now random =
     (let baseSeconds = min 3600 (30 * 2 ^ min (gc_attempts c - 1) 7) :: int in
      now + js_round (of_int baseSeconds * (3 / 4 + random * (1 / 2)) * 1000))"

text \<open>What the answer of the grantee's provider means. A header value is compared as text.\<close>

datatype publish_decision = Acknowledge nat jstring | Block nat | Again nat "int option"

definition decide_response ::
  "(string \<Rightarrow> int option) \<Rightarrow> GrantPublicationClaim \<Rightarrow> jstring \<Rightarrow> int \<Rightarrow> web_response \<Rightarrow> publish_decision outcome" where
  "decide_response dateParse c href now r =
     and_then (boundedResponseBytes r) (\<lambda>responseBody.
       let n = grant_revision (sg_payload (gc_grant c)); status = rs_status r;
           etag = map_option lit (rs_header r ''etag'');
           normalSuccess = (n = 1 \<and> status = 201 \<or> 1 < n \<and> status = 204);
           convergedCreation = (n = 1 \<and> status = 412) in
       if (normalSuccess \<or> convergedCreation) \<and> etag = Some (expectedEtag c) then
         (if normalSuccess \<and> responseBody \<noteq> [] then fail_with ''Successful Grant publication response must have no content''
          else if status = 201 \<and> map_option lit (rs_header r ''location'') \<noteq> Some href
            then fail_with ''Created Grant response has an invalid Location''
          else Inr (Acknowledge status (expectedEtag c)))
       else if status \<in> {400, 405, 409, 412, 413, 415, 428} then Inr (Block status)
       else Inr (Again status (grantRetryAfter dateParse r now)))"

record grant_publisher =
  pb_services :: grant_services
  pb_network :: network
  pb_resolve :: "jstring \<Rightarrow> HailDidDocument outcome"
  pb_fetch :: "web_request \<Rightarrow> web_response outcome"
  pb_validateTarget :: "web_url \<Rightarrow> unit outcome"
  pb_locked :: "jstring \<times> int \<Rightarrow> bool"
  pb_token :: jstring
  pb_now :: "nat \<Rightarrow> int"
  pb_random :: rat
  pb_clock :: "nat \<Rightarrow> clock"
  pb_dateParse :: "string \<Rightarrow> int option"
  pb_describe :: "server_error \<Rightarrow> string"
  pb_meanwhile :: "nat \<Rightarrow> db \<Rightarrow> db"

definition present_headers :: "(string \<times> jstring option) list \<Rightarrow> (string \<times> jstring) list" where
  "present_headers hs = List.map_filter (\<lambda>(name, v). map_option (Pair name) v) hs"

definition grant_url :: "HailDidDocument \<Rightarrow> GrantPublicationClaim \<Rightarrow> jstring" where
  "grant_url holder c = serviceBase holder @ lit ''/grants/'' @ grant_id (sg_payload (gc_grant c))"

definition grant_request :: "web_url \<Rightarrow> GrantPublicationClaim \<Rightarrow> GrantConditions \<Rightarrow> web_request" where
  "grant_request url c conditions = \<lparr>rq_method = ''PUT'', rq_url = url,
     rq_headers = present_headers [(''accept-encoding'', Some (lit ''identity'')), (''cache-control'', Some (lit ''no-store'')),
       (''content-type'', Some COSE_SIGN1_MEDIA_TYPE),
       (''if-match'', ifMatch conditions), (''if-none-match'', ifNoneMatch conditions)],
     rq_body = sg_representation (gc_grant c)\<rparr>"

definition push_grant :: "grant_publisher \<Rightarrow> GrantPublicationClaim \<Rightarrow> publish_decision outcome" where
  "push_grant pb c =
     and_then (pb_resolve pb (grantee (sg_payload (gc_grant c)))) (\<lambda>g.
       case net_url (pb_network pb) (grant_url g c) of
         None \<Rightarrow> Inl Rejected
       | Some url \<Rightarrow>
           and_then (pb_validateTarget pb url) (\<lambda>_.
           and_then (conditionHeaders c) (\<lambda>conditions.
           and_then (pb_fetch pb (grant_request url c conditions)) (\<lambda>r.
             decide_response (pb_dateParse pb) c (wu_href url) (pb_now pb 1) r))))"

datatype GrantPublishOutcome = GrantIdle | GrantAcknowledged | GrantRetry | GrantBlocked

definition claim_result :: "GrantPublicationClaim \<Rightarrow> nat option \<Rightarrow> string option \<Rightarrow> ClaimedPublicationResult" where
  "claim_result c status err = \<lparr>res_grant_id = grant_id (sg_payload (gc_grant c)), res_revision = grant_revision (sg_payload (gc_grant c)),
     res_lease = gc_lease c, res_http_status = status, res_error = err\<rparr>"

definition settle_decision ::
  "grant_publisher \<Rightarrow> GrantPublicationClaim \<Rightarrow> publish_decision \<Rightarrow> db \<Rightarrow> (GrantPublishOutcome \<times> db) outcome" where
  "settle_decision pb c decision d =
     (let fx = gs_functions (pb_services pb); clk = pb_clock pb 1 in
      case decision of
        Acknowledge status etag \<Rightarrow>
          and_then (acknowledgePublication fx clk (claim_result c (Some status) None) etag d) (\<lambda>(_, d'). Inr (GrantAcknowledged, d'))
      | Block status \<Rightarrow>
          and_then (blockPublication fx clk (claim_result c (Some status)
              (Some (''Grant publication was permanently rejected with HTTP '' @ decimal status))) d) (\<lambda>(_, d'). Inr (GrantBlocked, d'))
      | Again status after \<Rightarrow>
          and_then (retryPublication fx clk (claim_result c (Some status)
              (Some (''Grant publication returned transient HTTP '' @ decimal status)))
              (case after of None \<Rightarrow> nextGrantAttempt c (pb_now pb 1) (pb_random pb) | Some t \<Rightarrow> t) d) (\<lambda>(_, d'). Inr (GrantRetry, d')))"

definition retry_failed :: "grant_publisher \<Rightarrow> GrantPublicationClaim \<Rightarrow> server_error \<Rightarrow> db \<Rightarrow> GrantPublishOutcome outcome \<times> db" where
  "retry_failed pb c e d =
     (case retryPublication (gs_functions (pb_services pb)) (pb_clock pb 2) (claim_result c None (Some (take 1024 (pb_describe pb e))))
        (nextGrantAttempt c (pb_now pb 2) (pb_random pb)) d of
        Inl e' \<Rightarrow> (Inl e', d)
      | Inr (_, d') \<Rightarrow> (Inr GrantRetry, d'))"

definition publishGrant :: "grant_publisher \<Rightarrow> db \<Rightarrow> GrantPublishOutcome outcome \<times> db" where
  "publishGrant pb d =
     (case claimDuePublication (pb_services pb) (pb_locked pb) (pb_token pb) 30000 (pb_now pb 0) (pb_clock pb 0) d of
        (Inl e, d1) \<Rightarrow> (Inl e, d1)
      | (Inr None, d1) \<Rightarrow> (Inr GrantIdle, d1)
      | (Inr (Some c), d1) \<Rightarrow>
          let d2 = pb_meanwhile pb 0 d1 in
          case and_then (push_grant pb c) (\<lambda>decision. settle_decision pb c decision d2) of
            Inr (outcome, d3) \<Rightarrow> (Inr outcome, d3)
          | Inl e \<Rightarrow> retry_failed pb c e (pb_meanwhile pb 1 d2))"

section \<open>Receiving\<close>

record GrantReceiveResult =
  grr_status :: nat
  grr_etag :: jstring
  grr_created :: bool

text \<open>\<open>GrantReceiveError\<close> carries a status, a message and whether it is disclosed; \<open>Aborted\<close> is any other error.\<close>

datatype receive_error = GrantReceiveError nat string bool | Aborted

type_synonym 'a received = "receive_error + 'a"

record grant_receiver =
  rv_services :: grant_services
  rv_crypto :: crypto
  rv_resolve :: "jstring \<Rightarrow> HailDidDocument outcome"
  rv_retain :: "HailDidDocument \<Rightarrow> unit outcome"
  rv_serviceBase :: jstring
  rv_now :: int
  rv_aborted :: "nat \<Rightarrow> bool"
  rv_unique_violation :: bool

definition identity_key_id :: "jstring \<Rightarrow> jstring" where
  "identity_key_id did = did @ lit ''#hail-identity''"

definition identity_verifier :: "crypto \<Rightarrow> jstring \<Rightarrow> jstring \<Rightarrow> HailVerifier" where
  "identity_verifier cr did key = createWebCryptoVerifier (\<lambda>keyId.
     if keyId \<noteq> identity_key_id did then throw InvalidSignature
     else ed25519PublicKeyFromDidKey cr key) (subtle cr)"

definition exactRepresentation :: "SignedGrantRevision option \<Rightarrow> bytes \<Rightarrow> bool" where
  "exactRepresentation current cose = (case current of None \<Rightarrow> False | Some g \<Rightarrow> sg_representation g = cose)"

definition parseStrongEtag :: "jstring \<Rightarrow> bytes option" where
  "parseStrongEtag v =
     (if length v = 45 \<and> hd v = of_char CHR 0x22 \<and> last v = of_char CHR 0x22 \<and> list_all is_base64url (butlast (tl v)) then
        (case decodeBase64Url (butlast (tl v)) None of
           Inl _ \<Rightarrow> None
         | Inr bs \<Rightarrow> if length bs = 32 then Some bs else None)
      else None)"

fun contains_text :: "string \<Rightarrow> string \<Rightarrow> bool" where
  "contains_text [] part = (part = [])"
| "contains_text (c # s) part = (take (length part) (c # s) = part \<or> contains_text s part)"

text \<open>The error a database reports for a unique index has a code; a trigger's error has a message of its own.\<close>

definition conflictFromPersistence :: "grant_receiver \<Rightarrow> server_error \<Rightarrow> bool" where
  "conflictFromPersistence rv e = (case e of
     Thrown m \<Rightarrow> m = ''duplicate key value violates unique constraint'' \<or>
       list_ex (contains_text m) [''Grant revision'', ''Grant lineage'', ''Grant parties'', ''terminal'', ''active pair'']
   | GrantConflict m \<Rightarrow> list_ex (contains_text m) [''Grant revision'', ''Grant lineage'', ''Grant parties'', ''terminal'', ''active pair'']
   | Codec _ \<Rightarrow> False
   | Rejected \<Rightarrow> rv_unique_violation rv)"

record authenticated_grant =
  ag_payload :: HailGrant
  ag_account :: jstring
  ag_grantor :: HailDidDocument
  ag_grantee :: HailDidDocument

definition bad_request :: "'a outcome \<Rightarrow> 'a received" where
  "bad_request r = (case r of Inl _ \<Rightarrow> Inl (GrantReceiveError 400 ''Bad Request'' False) | Inr x \<Rightarrow> Inr x)"

definition abort_at :: "grant_receiver \<Rightarrow> nat \<Rightarrow> unit outcome" where
  "abort_at rv i = guard (\<not> rv_aborted rv i) ''AbortError''"

text \<open>The signer is checked before anything is said about who is served here; \<open>seen\<close> is where accounts are read.\<close>

definition authenticateGrant ::
  "grant_receiver \<Rightarrow> db \<Rightarrow> jstring \<Rightarrow> bytes \<Rightarrow> authenticated_grant received" where
  "authenticateGrant rv seen pathGrantId cose =
     (let c = gs_codec (rv_services rv) in
      and_then (bad_request (
        and_then (abort_at rv 0) (\<lambda>_.
        and_then (inspectGrant c cose) (\<lambda>p.
          if grant_id p \<noteq> pathGrantId then fail_with ''Grant path does not match payload''
          else and_then (rv_resolve rv (grantor p)) (\<lambda>issuer.
            and_then (abort_at rv 1) (\<lambda>_.
            and_then (codec_result (verifySignedPayload (codec_lib c) (codec_env c) Grant cose
                (identity_verifier (rv_crypto rv) (grantor p) (identityDidKey issuer)))) (\<lambda>_.
            and_then (abort_at rv 2) (\<lambda>_.
            and_then (rv_resolve rv (grantee p)) (\<lambda>holder. Inr (p, issuer, holder)))))))))) (\<lambda>(p, issuer, holder).
        if serviceBase holder \<noteq> rv_serviceBase rv then Inl (GrantReceiveError 421 ''Misdirected Request'' False)
        else (case account_with_did seen (grantee p) of
          None \<Rightarrow> Inl (GrantReceiveError 400 ''Bad Request'' False)
        | Some (account, row) \<Rightarrow>
            if \<not> publicly_active row then Inl (GrantReceiveError 400 ''Bad Request'' False)
            else Inr \<lparr>ag_payload = p, ag_account = account, ag_grantor = issuer, ag_grantee = holder\<rparr>)))"

definition refuse_when :: "bool \<Rightarrow> nat \<Rightarrow> string \<Rightarrow> unit received" where
  "refuse_when b status message = (if b then Inl (GrantReceiveError status message True) else Inr ())"

lemma refuse_when_Inr [simp]: "refuse_when b status message = Inr u \<longleftrightarrow> \<not> b"
  by (simp add: refuse_when_def)

definition check_times :: "int \<Rightarrow> HailGrant \<Rightarrow> unit received" where
  "check_times now p =
     (let wallClock = now div 1000 in
      refuse_when (wallClock + 300 < grant_issued_at p \<or> wallClock + 300 < grant_updated_at p
        \<or> (case grant_expires_at p of None \<Rightarrow> False | Some t \<Rightarrow> t < grant_issued_at p)) 400 ''Grant timestamps are invalid'')"

definition check_conditions :: "HailGrant \<Rightarrow> GrantConditions \<Rightarrow> unit received" where
  "check_conditions p conditions =
     (if grant_revision p = 1 then
        and_then (refuse_when (ifMatch conditions \<noteq> None \<or> ifNoneMatch conditions \<noteq> None \<and> ifNoneMatch conditions \<noteq> Some (lit ''*''))
          400 ''Initial Grant condition is invalid'') (\<lambda>_.
          refuse_when (ifNoneMatch conditions = None) 428 ''If-None-Match is required for an initial Grant'')
      else
        and_then (refuse_when (ifNoneMatch conditions \<noteq> None
            \<or> (case ifMatch conditions of None \<Rightarrow> False | Some v \<Rightarrow> parseStrongEtag v = None)) 400 ''Grant update condition is invalid'') (\<lambda>_.
        and_then (refuse_when (ifMatch conditions = None) 428 ''If-Match is required for a Grant update'') (\<lambda>_.
          refuse_when (case grant_previous p of None \<Rightarrow> True | Some previous \<Rightarrow> ifMatch conditions \<noteq> Some (entity_tag previous))
            412 ''Grant update precondition failed'')))"

definition already_stored :: "HailGrant \<Rightarrow> bytes \<Rightarrow> GrantReceiveResult" where
  "already_stored p digest =
     \<lparr>grr_status = (if grant_revision p = 1 then 412 else 204), grr_etag = entity_tag digest, grr_created = False\<rparr>"

definition newly_stored :: "HailGrant \<Rightarrow> bytes \<Rightarrow> GrantReceiveResult" where
  "newly_stored p digest =
     \<lparr>grr_status = (if grant_revision p = 1 then 201 else 204), grr_etag = entity_tag digest, grr_created = (grant_revision p = 1)\<rparr>"

definition check_successor :: "SignedGrantRevision option \<Rightarrow> HailGrant \<Rightarrow> unit received" where
  "check_successor current p = (case current of
     Some g \<Rightarrow>
       and_then (refuse_when (restrictsAuthorization (sg_payload g) p \<and> \<not> same_consent (sg_payload g) p)
         409 ''Restrictions must retain prior consent'') (\<lambda>_.
       and_then (refuse_when (sg_role g \<noteq> Grantee \<or> grantor (sg_payload g) \<noteq> grantor p \<or> grantee (sg_payload g) \<noteq> grantee p
           \<or> grant_issued_at p \<noteq> grant_issued_at (sg_payload g) \<or> grant_revision p \<noteq> grant_revision (sg_payload g) + 1
           \<or> grant_status_of (sg_payload g) = Revoked \<or> grant_previous p \<noteq> Some (sg_digest g)
           \<or> grant_updated_at p \<le> grant_updated_at (sg_payload g)) 409 ''The submitted revision conflicts with stored state'') (\<lambda>_.
         refuse_when (grant_revision p = 1) 409 ''Grant ID is already in use''))
   | None \<Rightarrow> refuse_when (grant_revision p \<noteq> 1 \<or> grant_status_of p \<noteq> Active)
       409 ''The submitted Grant does not begin a valid lineage'')"

definition received_input :: "grant_receiver \<Rightarrow> authenticated_grant \<Rightarrow> bytes \<Rightarrow> SignedGrantRevisionInput" where
  "received_input rv a cose =
     \<lparr>sg_account = ag_account a, sg_role = Grantee, sg_payload = ag_payload a, sg_representation = cose,
      sg_digest = sha256 (codec_env (gs_codec (rv_services rv))) cose, sg_signing_key = identityDidKey (ag_grantor a),
      sg_evidence = document_evidence (ag_grantor a), sg_expectedServiceBase = None,
      sg_recipientEvidence = Some (document_evidence (ag_grantee a)), sg_recipientServiceBase = Some (rv_serviceBase rv)\<rparr>"

definition retain_authority :: "grant_receiver \<Rightarrow> authenticated_grant \<Rightarrow> unit outcome" where
  "retain_authority rv a =
     (let (first, second) = (if grantee (ag_payload a) < grantor (ag_payload a) then (ag_grantee a, ag_grantor a) else (ag_grantor a, ag_grantee a)) in
      and_then (rv_retain rv first) (\<lambda>_. rv_retain rv second))"

definition store_grant ::
  "grant_receiver \<Rightarrow> clock \<Rightarrow> authenticated_grant \<Rightarrow> bytes \<Rightarrow> db \<Rightarrow> (SignedGrantRevision \<times> db) outcome" where
  "store_grant rv clk a cose d =
     and_then (abort_at rv 4) (\<lambda>_.
     and_then (retain_authority rv a) (\<lambda>_.
     and_then (abort_at rv 5) (\<lambda>_.
       acceptReceivedRevision (rv_services rv) clk (received_input rv a cose) d)))"

text \<open>The current revision is read in \<open>seen 1\<close>, and once more in \<open>seen 2\<close> if storing it met a conflict.\<close>

definition receiveGrant ::
  "grant_receiver \<Rightarrow> clock \<Rightarrow> (nat \<Rightarrow> db) \<Rightarrow> jstring \<Rightarrow> bytes \<Rightarrow> GrantConditions \<Rightarrow> db \<Rightarrow> (GrantReceiveResult \<times> db) received" where
  "receiveGrant rv clk seen pathGrantId cose conditions d =
     (let c = gs_codec (rv_services rv); digest = sha256 (codec_env c) cose in
      and_then (authenticateGrant rv (seen 0) pathGrantId cose) (\<lambda>a.
        let p = ag_payload a in
        if rv_aborted rv 3 then Inl Aborted
        else and_then (check_times (rv_now rv) p) (\<lambda>_.
          and_then (check_conditions p conditions) (\<lambda>_.
            (case findReceivedForSender c (seen 1) pathGrantId (grantee p) of
               Inl _ \<Rightarrow> Inl (GrantReceiveError 503 ''Grant storage is temporarily unavailable'' True)
             | Inr current \<Rightarrow>
                 if exactRepresentation current cose then Inr (already_stored p digest, d)
                 else and_then (check_successor current p) (\<lambda>_.
                   (case store_grant rv clk a cose d of
                      Inr (_, d') \<Rightarrow> Inr (newly_stored p digest, d')
                    | Inl e \<Rightarrow>
                        if conflictFromPersistence rv e then
                          (case findReceivedForSender c (seen 2) pathGrantId (grantee p) of
                             Inl _ \<Rightarrow> Inl Aborted
                           | Inr winner \<Rightarrow>
                               if exactRepresentation winner cose then Inr (already_stored p digest, d)
                               else Inl (GrantReceiveError 409 ''The submitted revision conflicts with stored state'' True))
                        else Inl (GrantReceiveError 503 ''Grant storage is temporarily unavailable'' True))))))))"

section \<open>The route\<close>

definition titleFor :: "nat \<Rightarrow> string" where
  "titleFor status = (case map_of [(400 :: nat, ''Bad Request''), (409, ''Conflict''), (412, ''Precondition Failed''),
       (413, ''Content Too Large''), (415, ''Unsupported Media Type''), (421, ''Misdirected Request''),
       (428, ''Precondition Required''), (429, ''Too Many Requests''), (503, ''Service Unavailable'')] status of
     None \<Rightarrow> ''Bad Request'' | Some title \<Rightarrow> title)"

text \<open>The signal is tested before and after the stream is read.\<close>

fun read_request :: "(nat \<Rightarrow> bool) \<Rightarrow> arrival \<Rightarrow> nat \<Rightarrow> nat \<Rightarrow> bytes list \<Rightarrow> bytes received" where
  "read_request stopped a i len [] =
     (if stopped (2 * i) \<or> ar_broken a \<or> stopped (2 * i + 1) then Inl Aborted else Inr [])"
| "read_request stopped a i len (chunk # chunks) =
     (if stopped (2 * i) \<or> stopped (2 * i + 1) then Inl Aborted
      else if 262144 < len + length chunk then
        Inl (if ar_cancel_fails a then Aborted else GrantReceiveError 413 ''Grant request exceeds its transport limit'' True)
      else and_then (read_request stopped a (i + 1) (len + length chunk) chunks) (\<lambda>bs. Inr (chunk @ bs)))"

definition grant_bytes :: "(nat \<Rightarrow> bool) \<Rightarrow> arrival \<Rightarrow> bytes received" where
  "grant_bytes stopped a =
     (if (case ar_header a ''content-length'' of None \<Rightarrow> False
          | Some h \<Rightarrow> \<not> decimal_digits h \<or> 262144 < decimal_value h)
        then Inl (GrantReceiveError 413 ''Grant request exceeds its transport limit'' True)
      else if \<not> ar_has_body a then Inr []
      else read_request stopped a 0 0 (ar_chunks a))"

definition text_of_units :: "jstring \<Rightarrow> string" where
  "text_of_units s = map (\<lambda>c. char_of (unat c)) s"

definition grant_response :: "jstring \<Rightarrow> jstring \<Rightarrow> GrantReceiveResult received \<Rightarrow> web_response" where
  "grant_response base grantId result = (case result of
     Inr x \<Rightarrow>
       if grr_status x = 412 then problem_response 412 (titleFor 412) None [(''etag'', text_of_units (grr_etag x))]
       else \<lparr>rs_status = grr_status x, rs_header = [''cache-control'' \<mapsto> ''no-store'', ''etag'' \<mapsto> text_of_units (grr_etag x)]
           (''location'' := (if grr_created x then Some (text_of_units (base @ lit ''/grants/'' @ grantId)) else None)),
         rs_has_body = False, rs_chunks = [], rs_broken = False, rs_cancel_fails = False\<rparr>
   | Inl e \<Rightarrow>
       (case (case e of GrantReceiveError status message disclose \<Rightarrow> (status, message, disclose)
            | Aborted \<Rightarrow> (503, ''Grant processing is temporarily unavailable'', True)) of
          (status, message, disclose) \<Rightarrow> problem_response status (titleFor status) (if disclose then Some message else None)
            (if status = 503 then [(''retry-after'', ''30'')] else [])))"

text \<open>
  \<open>gv_settles\<close> is the time after which the processing of the request settles, \<open>gv_stopped\<close> tells when the
  deadline has stopped the reading of the request. The path parameter is an argument.
\<close>

record grant_server =
  gv_receiver :: grant_receiver
  gv_network :: network
  gv_settings :: ProtectedScheduleSettings
  gv_hailServiceBase :: jstring
  gv_settles :: "int option"
  gv_stopped :: "nat \<Rightarrow> bool"

definition process_grant ::
  "grant_server \<Rightarrow> clock \<Rightarrow> (nat \<Rightarrow> db) \<Rightarrow> arrival \<Rightarrow> jstring \<Rightarrow> db \<Rightarrow> GrantReceiveResult received \<times> db" where
  "process_grant sv clk seen a grantId d =
     (case (if \<not> UUID_V7_PATTERN grantId then Inl (GrantReceiveError 400 ''Bad Request'' False)
         else and_then (grant_bytes (gv_stopped sv) a) (\<lambda>bs.
           receiveGrant (gv_receiver sv) clk seen grantId bs
             \<lparr>ifMatch = ar_header a ''if-match'', ifNoneMatch = ar_header a ''if-none-match''\<rparr> d)) of
        Inl e \<Rightarrow> (Inl e, d)
      | Inr (x, d') \<Rightarrow> (Inr x, d'))"

definition grant_route ::
  "grant_server \<Rightarrow> clock \<Rightarrow> (nat \<Rightarrow> db) \<Rightarrow> int \<Rightarrow> arrival \<Rightarrow> jstring \<Rightarrow> gate_state \<Rightarrow> db \<Rightarrow> web_response \<times> gate_state \<times> db" where
  "grant_route sv clk seen now a grantId g d =
     (case route_gate (gv_network sv) ''PUT'' now a g of
        (Some refusal, g') \<Rightarrow> (refusal, g', d)
      | (None, g') \<Rightarrow>
          let (admitted, g'') = admit_request (gv_network sv) (gv_settings sv) a g';
              (result, d') = process_grant sv clk seen a grantId d in
          (case fst (protected_result (gv_settings sv) True admitted (gv_settles sv)
               (Some (grant_response (gv_hailServiceBase sv) grantId result))) of
             BusyResult \<Rightarrow> (problem_response 429 (titleFor 429) None [(''retry-after'', ''10'')], g'', d)
           | Detailed response \<Rightarrow> (response, g'', d')
           | Generic \<Rightarrow> (problem_response 400 ''Bad Request'' None [], g'', if admitted = Started then d' else d)))"

text \<open>Any other path below \<^verbatim>\<open>/hail/grants\<close>.\<close>

definition malformed_grant_path :: "grant_server \<Rightarrow> int \<Rightarrow> arrival \<Rightarrow> gate_state \<Rightarrow> web_response \<times> gate_state" where
  "malformed_grant_path sv now a g = (case route_gate (gv_network sv) ''PUT'' now a g of
     (Some refusal, g') \<Rightarrow> (refusal, g')
   | (None, g') \<Rightarrow> (problem_response 400 ''Bad Request'' None [], g'))"

end
