(* ===== verification/GrantService.thy ===== *)
theory GrantService
  imports GrantExchange
begin

text \<open>
  \<^verbatim>\<open>apps/server/src/grants/service.ts\<close> with \<open>identity/address.ts\<close> and \<open>identity/uuid-v7.ts\<close>: what an account
  holder does with permissions. The provider signs for accounts whose keys it keeps; other holders
  sign a proposal themselves. The service checks authority and consent and hands the signed
  revision to the store. The verifiers of addresses and profiles, the resolution of DIDs, the
  encrypted keys and the case mapping of Unicode are parameters; comparisons with
  \<open>isDeepStrictEqual\<close> compare values. \<open>seen\<close> gives the states in which the service reads.
\<close>

declare split_paired_All [simp del] split_paired_Ex [simp del] Status.decimal.simps [simp del]

section \<open>Errors\<close>

datatype service_error = UserGrantError nat string | Failure server_error

type_synonym 'a served = "service_error + 'a"

definition served :: "'a outcome \<Rightarrow> 'a served" where
  "served r = (case r of Inl e \<Rightarrow> Inl (Failure e) | Inr x \<Rightarrow> Inr x)"

definition served_or :: "nat \<Rightarrow> string \<Rightarrow> 'a outcome \<Rightarrow> 'a served" where
  "served_or status message r = (case r of Inl _ \<Rightarrow> Inl (UserGrantError status message) | Inr x \<Rightarrow> Inr x)"

definition demand :: "bool \<Rightarrow> service_error \<Rightarrow> unit served" where
  "demand ok e = (if ok then Inr () else Inl e)"

lemma served_Inr [simp]: "served r = Inr x \<longleftrightarrow> r = Inr x"
  by (auto simp: served_def split: sum.splits)

lemma served_or_Inr [simp]: "served_or status message r = Inr x \<longleftrightarrow> r = Inr x"
  by (auto simp: served_or_def split: sum.splits)

lemma demand_Inr [simp]: "demand ok e = Inr u \<longleftrightarrow> ok"
  by (simp add: demand_def)

abbreviation failure :: "string \<Rightarrow> service_error" where
  "failure message \<equiv> Failure (Thrown message)"

section \<open>Identifiers and addresses\<close>

text \<open>A version 7 UUID from a time in milliseconds and 16 random bytes.\<close>

definition timestamp_bytes :: "nat \<Rightarrow> bytes" where
  "timestamp_bytes now = map (\<lambda>i. of_nat (now div 256 ^ (5 - i))) [0..<6]"

definition uuid_bytes :: "nat \<Rightarrow> bytes \<Rightarrow> bytes" where
  "uuid_bytes now random =
     (let bs = timestamp_bytes now @ drop 6 random in
      bs[6 := (bs ! 6 AND 0x0F) OR 0x70, 8 := (bs ! 8 AND 0x3F) OR 0x80])"

definition hex_digit :: "byte \<Rightarrow> code_unit" where
  "hex_digit b = (if b < 10 then of_nat (48 + unat b) else of_nat (87 + unat b))"

definition hex_text :: "bytes \<Rightarrow> jstring" where
  "hex_text bs = concat (map (\<lambda>b. [hex_digit (b div 16), hex_digit (b mod 16)]) bs)"

definition uuidV7 :: "int \<Rightarrow> bytes \<Rightarrow> jstring outcome" where
  "uuidV7 now random =
     (if now < 0 \<or> 0xFFFFFFFFFFFF < now then fail_with ''UUIDv7 timestamp is outside its 48-bit range''
      else
        let hex = hex_text (uuid_bytes (nat now) random); dash = lit ''-'' in
        Inr (take 8 hex @ dash @ take 4 (drop 8 hex) @ dash @ take 4 (drop 12 hex) @ dash @ take 4 (drop 16 hex) @ dash @ drop 20 hex))"

definition canonicalizeHailAddress ::
  "validation_env \<Rightarrow> (jstring \<Rightarrow> jstring) \<Rightarrow> (jstring \<Rightarrow> jstring) \<Rightarrow> jstring \<Rightarrow> jstring outcome" where
  "canonicalizeHailAddress env toLowerCase domainToASCII input =
     (if js_trim input \<noteq> input then fail_with ''Hail address must not contain surrounding whitespace''
      else (case index_of (of_char CHR ''@'') input of
        None \<Rightarrow> fail_with ''Hail address must contain one local part and one domain''
      | Some separator \<Rightarrow>
          if separator = 0 \<or> of_char CHR ''@'' \<in> set (drop (separator + 1) input)
            then fail_with ''Hail address must contain one local part and one domain''
          else
            let localPart = toLowerCase (take separator input);
                domain = toLowerCase (domainToASCII (drop (separator + 1) input));
                canonical = localPart @ lit ''@'' @ domain in
            if domain = [] then fail_with ''Hail address domain is invalid''
            else
              let did = lit ''did:plc:aaaaaaaaaaaaaaaaaaaaaaaa'' in
              and_then (codec_result (validatePayload env AddressBinding (of_hail (HMap [(lit ''version'', HInt 2),
                (lit ''type'', HText (lit ''hail.address-binding'')), (lit ''address'', HText canonical), (lit ''did'', HText did),
                (lit ''issued_at'', HInt 1), (lit ''key_id'', HText (did @ lit ''#hail-identity''))])))) (\<lambda>_. Inr canonical)))"

section \<open>Scopes and consent\<close>

definition normalizeScope :: "jstring list \<Rightarrow> jstring list served" where
  "normalizeScope values =
     (if values = [] \<or> \<not> distinct values \<or> \<not> list_all CATEGORY_PATTERN values
        then Inl (UserGrantError 400 ''Invalid selected categories'')
      else Inr (sort values))"

definition offered_categories :: "hail_value \<Rightarrow> jstring list" where
  "offered_categories published = map (\<lambda>category. text_of (get category ''id'')) (list_of (get published ''categories''))"

definition validateScopeAgainstProfile :: "jstring list \<Rightarrow> hail_value \<Rightarrow> unit outcome" where
  "validateScopeAgainstProfile scope published =
     guard (scope \<noteq> [] \<and> list_all (\<lambda>category. category \<in> set (offered_categories published)) scope)
       ''Grant scope contains a category not offered by the grantee Sender Profile''"

record GrantDefinition =
  def_scope :: "jstring list"
  def_expiresAt :: "int option"

record GrantUpdateDefinition = GrantDefinition +
  def_expectedRevision :: int
  def_expectedDigest :: bytes
  def_refreshConsent :: bool
  def_sender :: "jstring option"

record grant_service =
  gx_services :: grant_services
  gx_crypto :: crypto
  gx_toLowerCase :: "jstring \<Rightarrow> jstring"
  gx_domainToASCII :: "jstring \<Rightarrow> jstring"
  gx_accountByAddress :: "jstring \<Rightarrow> db \<Rightarrow> (jstring \<times> account_row) outcome"
  gx_getKey :: "jstring \<Rightarrow> AccountKeyRecord outcome"
  gx_privateKey :: "jstring \<Rightarrow> AccountKeyRecord \<Rightarrow> CryptoKey outcome"
  gx_resolve :: "jstring \<Rightarrow> HailDidDocument outcome"
  gx_verifyAddress :: "jstring \<Rightarrow> VerifiedAddress outcome"
  gx_verifyProfile :: "jstring \<Rightarrow> VerifiedSenderProfile outcome"
  gx_authorityFresh :: "PlcResolutionEvidence \<Rightarrow> int \<Rightarrow> bool"
  gx_serviceBase :: jstring
  gx_now :: "nat \<Rightarrow> int"
  gx_random :: bytes

definition canonical :: "grant_service \<Rightarrow> jstring \<Rightarrow> jstring outcome" where
  "canonical sv input =
     canonicalizeHailAddress (codec_env (gs_codec (gx_services sv))) (gx_toLowerCase sv) (gx_domainToASCII sv) input"

definition localAccount :: "grant_service \<Rightarrow> db \<Rightarrow> jstring \<Rightarrow> (jstring \<times> account_row) outcome" where
  "localAccount sv d input =
     (if take 8 input = lit ''did:plc:'' then
        (case account_with_did d input of None \<Rightarrow> fail_with ''Account does not exist'' | Some a \<Rightarrow> Inr a)
      else and_then (canonical sv input) (\<lambda>address. gx_accountByAddress sv address d))"

text \<open>The account, if it is active, verified publicly and has a DID.\<close>

definition activeAccount :: "grant_service \<Rightarrow> db \<Rightarrow> jstring \<Rightarrow> service_error \<Rightarrow> (jstring \<times> jstring) served" where
  "activeAccount sv d input e =
     and_then (served (localAccount sv d input)) (\<lambda>(account, row).
       case acc_did row of
         None \<Rightarrow> Inl e
       | Some did \<Rightarrow> if publicly_active row then Inr (account, did) else Inl e)"

definition evidence_agrees :: "VerifiedAddress \<Rightarrow> VerifiedSenderProfile \<Rightarrow> bool" where
  "evidence_agrees a p \<longleftrightarrow> vp_did p = va_did a \<and> vp_serviceBase p = va_serviceBase a \<and> vp_messagingDidKey p = va_messagingDidKey a"

definition inspectSender :: "grant_service \<Rightarrow> jstring \<Rightarrow> (VerifiedAddress \<times> VerifiedSenderProfile) served" where
  "inspectSender sv addressInput =
     and_then (served (canonical sv addressInput)) (\<lambda>canonicalAddress.
     and_then (served_or 409 ''The sender's published Hail address could not be verified. Check the address and try again.''
       (gx_verifyAddress sv canonicalAddress)) (\<lambda>address.
     and_then (served_or 409 ''The sender's current published Sender Profile could not be retrieved or verified. Ask them to check their profile and try again.''
       (gx_verifyProfile sv (va_did address))) (\<lambda>profile.
     and_then (demand (evidence_agrees address profile) (UserGrantError 409 ''Sender address and profile evidence disagree'')) (\<lambda>_.
       Inr (address, profile)))))"

text \<open>Whether the consent that a payload names is the one that the evidence gives.\<close>

definition names_consent :: "HailGrant \<Rightarrow> VerifiedAddress \<Rightarrow> VerifiedSenderProfile \<Rightarrow> bool" where
  "names_consent p a s \<longleftrightarrow> consent_address p = va_address a \<and> digest_value (consent_binding_hash p) = va_digest a
     \<and> digest_value (consent_profile_hash p) = vp_digest s"

definition currentConsent :: "grant_service \<Rightarrow> HailGrant \<Rightarrow> jstring \<Rightarrow> bool \<Rightarrow> GrantConsentEvidence served" where
  "currentConsent sv p sender match =
     and_then (served (canonical sv sender)) (\<lambda>canonicalAddress.
     and_then (served (gx_verifyAddress sv canonicalAddress)) (\<lambda>a.
     and_then (served (gx_verifyProfile sv (va_did a))) (\<lambda>s.
       if va_did a \<noteq> grantee p \<or> vp_did s \<noteq> grantee p \<or> vp_serviceBase s \<noteq> va_serviceBase a
           \<or> vp_messagingDidKey s \<noteq> va_messagingDidKey a \<or> match \<and> \<not> names_consent p a s
         then Inl (UserGrantError 400 ''Current consent evidence differs from the signed Grant'')
       else and_then (served_or 400 ''Current profile does not offer the selected permission''
           (validateScopeAgainstProfile (grant_scope p) (vp_profile s))) (\<lambda>_.
         Inr \<lparr>consent_of_address = a, consent_of_profile = s\<rparr>))))"

section \<open>Proposals\<close>

text \<open>The payload of a first revision that the evidence supports; its key identifier follows from the grantor.\<close>

definition first_payload :: "jstring \<Rightarrow> jstring \<Rightarrow> GrantConsentEvidence \<Rightarrow> jstring list \<Rightarrow> int option \<Rightarrow> int \<Rightarrow> HailGrant" where
  "first_payload gid did e scope expires now =
     \<lparr>grant_id = gid, grant_revision = 1, grant_previous = None, grantor = did, grantee = va_did (consent_of_address e),
      grant_scope = scope, grant_status_of = Active, grant_issued_at = now, grant_updated_at = now, grant_expires_at = expires,
      consent_address = va_address (consent_of_address e),
      consent_binding_hash = \<lparr>digest_value = va_digest (consent_of_address e)\<rparr>,
      consent_profile_hash = \<lparr>digest_value = vp_digest (consent_of_profile e)\<rparr>\<rparr>"

definition evidence_for :: "grant_service \<Rightarrow> jstring \<Rightarrow> GrantConsentEvidence served" where
  "evidence_for sv addressInput =
     and_then (served (canonical sv addressInput)) (\<lambda>canonicalAddress.
     and_then (served (gx_verifyAddress sv canonicalAddress)) (\<lambda>a.
     and_then (served (gx_verifyProfile sv (va_did a))) (\<lambda>s. Inr \<lparr>consent_of_address = a, consent_of_profile = s\<rparr>)))"

definition wall_clock :: "grant_service \<Rightarrow> nat \<Rightarrow> int" where
  "wall_clock sv i = gx_now sv i div 1000"

definition prepareUserSignedGrant ::
  "grant_service \<Rightarrow> (nat \<Rightarrow> db) \<Rightarrow> jstring \<Rightarrow> jstring \<Rightarrow> GrantDefinition \<Rightarrow> HailGrant served" where
  "prepareUserSignedGrant sv seen grantorInput granteeInput input =
     and_then (activeAccount sv (seen 0) grantorInput (failure ''Grantor must be an externally verified active account'')) (\<lambda>(_, did).
     and_then (served (gx_resolve sv did)) (\<lambda>resolved.
     and_then (demand (serviceBase resolved = gx_serviceBase sv) (failure ''Current PLC does not name this grantor provider'')) (\<lambda>_.
     and_then (evidence_for sv granteeInput) (\<lambda>e.
     and_then (demand (evidence_agrees (consent_of_address e) (consent_of_profile e))
       (failure ''Grantee Address Binding and Sender Profile disagree'')) (\<lambda>_.
     and_then (normalizeScope (def_scope input)) (\<lambda>scope.
     and_then (served (validateScopeAgainstProfile scope (vp_profile (consent_of_profile e)))) (\<lambda>_.
       let now = wall_clock sv 0 in
       if (case def_expiresAt input of None \<Rightarrow> False | Some t \<Rightarrow> t \<le> now) then Inl (failure ''Grant expiry is already past'')
       else and_then (served (findActiveAuthoritativeByDidPair (gs_codec (gx_services sv)) (seen 1) did (va_did (consent_of_address e)))) (\<lambda>existing.
         if existing \<noteq> None then Inl (failure ''This DID pair already has an active authoritative Grant'')
         else and_then (served (uuidV7 (gx_now sv 1) (gx_random sv))) (\<lambda>gid.
           Inr (first_payload gid did e scope (def_expiresAt input) now))))))))))"

text \<open>The authority to change a grant: the holder is active, and the reviewed revision is still current and active.\<close>

definition reviewed_grant ::
  "grant_service \<Rightarrow> (nat \<Rightarrow> db) \<Rightarrow> jstring \<Rightarrow> jstring \<Rightarrow> GrantUpdateDefinition \<Rightarrow> (jstring \<times> SignedGrantRevision) served" where
  "reviewed_grant sv seen addressInput gid input =
     (let e = UserGrantError 409 ''Current Grant does not match the reviewed revision'' in
      and_then (served (localAccount sv (seen 0) addressInput)) (\<lambda>(account, row).
      and_then (served (findCurrentByGrantId (gs_codec (gx_services sv)) (seen 1) gid)) (\<lambda>found.
        case (acc_did row, found) of
          (Some did, Some current) \<Rightarrow>
            if \<not> publicly_active row \<or> sg_role current \<noteq> Grantor \<or> sg_account current \<noteq> account
                \<or> grant_status_of (sg_payload current) \<noteq> Active
                \<or> grant_revision (sg_payload current) \<noteq> def_expectedRevision input \<or> sg_digest current \<noteq> def_expectedDigest input
              then Inl e else Inr (did, current)
        | _ \<Rightarrow> Inl e)))"

definition next_payload :: "HailGrant \<Rightarrow> bytes \<Rightarrow> jstring list \<Rightarrow> int option \<Rightarrow> int \<Rightarrow> HailGrant" where
  "next_payload p digest scope expires updatedAt =
     p\<lparr>grant_revision := grant_revision p + 1, grant_previous := Some digest, grant_scope := scope, grant_expires_at := expires,
       grant_updated_at := updatedAt\<rparr>"

definition with_consent :: "HailGrant \<Rightarrow> GrantConsentEvidence \<Rightarrow> HailGrant" where
  "with_consent p e = p\<lparr>consent_address := va_address (consent_of_address e),
     consent_binding_hash := \<lparr>digest_value = va_digest (consent_of_address e)\<rparr>,
     consent_profile_hash := \<lparr>digest_value = vp_digest (consent_of_profile e)\<rparr>\<rparr>"

definition sender_changed :: "grant_service \<Rightarrow> HailGrant \<Rightarrow> jstring option \<Rightarrow> bool served" where
  "sender_changed sv p sender = (case sender of
     None \<Rightarrow> Inr False
   | Some input \<Rightarrow> and_then (served (canonical sv input)) (\<lambda>address. Inr (address \<noteq> consent_address p)))"

definition propose_update :: "grant_service \<Rightarrow> HailGrant \<Rightarrow> HailGrant \<Rightarrow> int \<Rightarrow> GrantUpdateDefinition \<Rightarrow> HailGrant served" where
  "propose_update sv p proposed now input =
     (let restriction = restrictsAuthorization p proposed; expanded = expandsAuthorization p proposed in
      if restriction \<and> def_refreshConsent input then Inl (UserGrantError 400 ''Restrictions retain consent; refresh separately'')
      else and_then (if restriction then sender_changed sv p (def_sender input) else Inr False) (\<lambda>changed.
        if changed then Inl (UserGrantError 400 ''Restrictions cannot change the retained consent address'')
        else if expanded \<or> def_refreshConsent input then
          (if expanded \<and> (case grant_expires_at proposed of None \<Rightarrow> False | Some t \<Rightarrow> t \<le> now)
             then Inl (UserGrantError 400 ''Expanded authorization requires a future expiry'')
           else and_then (currentConsent sv proposed (case def_sender input of None \<Rightarrow> consent_address p | Some s \<Rightarrow> s) False) (\<lambda>e.
             Inr (with_consent proposed e)))
        else if \<not> restriction then Inl (UserGrantError 400 ''Unchanged permission requires explicit consent refresh'')
        else Inr proposed))"

text \<open>The object that is validated names the account's key, which belongs to the grantor if the account is the grantor's.\<close>

fun with_key_id :: "jstring \<Rightarrow> hail_value \<Rightarrow> hail_value" where
  "with_key_id did (HMap kvs) = HMap (AList.update (lit ''key_id'') (HText (identity_key_id did)) kvs)"
| "with_key_id did v = v"

definition prepareUserSignedUpdate ::
  "grant_service \<Rightarrow> (nat \<Rightarrow> db) \<Rightarrow> jstring \<Rightarrow> jstring \<Rightarrow> GrantUpdateDefinition \<Rightarrow> HailGrant served" where
  "prepareUserSignedUpdate sv seen addressInput gid input =
     (let env = codec_env (gs_codec (gx_services sv)) in
      and_then (reviewed_grant sv seen addressInput gid input) (\<lambda>(did, current).
      and_then (served (gx_resolve sv did)) (\<lambda>owner.
      and_then (demand (serviceBase owner = gx_serviceBase sv \<and> identityDidKey owner = sg_signing_key current)
        (UserGrantError 409 ''Historical-key reconciliation is required before changing signer epochs'')) (\<lambda>_.
        let p = sg_payload current; now = wall_clock sv 0; updatedAt = max now (grant_updated_at p + 1) in
        if now + 300 < updatedAt then Inl (UserGrantError 400 ''Grant timestamp is too far ahead'')
        else and_then (normalizeScope (def_scope input)) (\<lambda>scope.
          let proposed = next_payload p (sg_digest current) scope (def_expiresAt input) updatedAt in
          and_then (served (codec_result (validatePayload env Grant (of_hail (with_key_id did (grant_object proposed)))))) (\<lambda>_.
            propose_update sv p proposed now input))))))"

section \<open>Signing\<close>

definition signGrant ::
  "grant_service \<Rightarrow> jstring \<Rightarrow> jstring \<Rightarrow> AccountKeyRecord \<Rightarrow> HailGrant \<Rightarrow> PlcResolutionEvidence \<Rightarrow> int \<Rightarrow> SignedGrantRevisionInput served" where
  "signGrant sv account did key p evidence now =
     (let c = gs_codec (gx_services sv); cr = gx_crypto sv in
      and_then (if grant_status_of p = Active then normalizeScope (grant_scope p) else Inr []) (\<lambda>_.
      and_then (demand (key_algorithm key = ''ed25519'') (failure ''Invalid identity signing key'')) (\<lambda>_.
      and_then (demand (gx_authorityFresh sv evidence now) (failure ''Public authority evidence is stale or invalid'')) (\<lambda>_.
      and_then (served (gx_privateKey sv account key)) (\<lambda>secret.
      and_then (served (codec_result (createWebCryptoSigner (identity_key_id did) secret (subtle cr)))) (\<lambda>signer.
      and_then (served (codec_result (signPayload (codec_lib c) (codec_env c) Grant (of_hail (grant_object p)) signer))) (\<lambda>cose.
      and_then (served (codec_result (verifySignedPayload (codec_lib c) (codec_env c) Grant cose
          (identity_verifier cr did (key_publicKey key))))) (\<lambda>_.
        Inr \<lparr>sg_account = account, sg_role = Grantor, sg_payload = p, sg_representation = cose, sg_digest = sha256 (codec_env c) cose,
          sg_signing_key = key_publicKey key, sg_evidence = evidence, sg_expectedServiceBase = Some (gx_serviceBase sv),
          sg_recipientEvidence = None, sg_recipientServiceBase = None\<rparr>))))))))"

text \<open>What the caller gets back: the revision with the time at which it was stored.\<close>

definition as_stored :: "SignedGrantRevisionInput \<Rightarrow> int \<Rightarrow> SignedGrantRevision" where
  "as_stored g now = SignedGrantRevisionInput.extend g \<lparr>sg_received_at = now * 1000\<rparr>"

section \<open>Accepting what a holder signed\<close>

definition same_owner :: "SignedGrantRevision \<Rightarrow> jstring \<Rightarrow> bool" where
  "same_owner g account \<longleftrightarrow> sg_role g = Grantor \<and> sg_account g = account"

definition revoked_payload :: "HailGrant \<Rightarrow> bytes \<Rightarrow> int \<Rightarrow> HailGrant" where
  "revoked_payload p digest updatedAt = p\<lparr>grant_status_of := Revoked, grant_revision := grant_revision p + 1,
     grant_previous := Some digest, grant_updated_at := updatedAt\<rparr>"

definition accept_revocation ::
  "grant_service \<Rightarrow> (nat \<Rightarrow> db) \<Rightarrow> clock \<Rightarrow> SignedGrantRevisionInput \<Rightarrow> jstring \<Rightarrow> db \<Rightarrow> (SignedGrantRevision \<times> db) served" where
  "accept_revocation sv seen clk g granteeInput d =
     (let c = gs_codec (gx_services sv); p = sg_payload g;
          e = UserGrantError 409 ''Authoritative Grant or reviewed sender does not match revocation'' in
      and_then (served (findCurrentByGrantId c (seen 3) (grant_id p))) (\<lambda>found. case found of
        None \<Rightarrow> Inl e
      | Some current \<Rightarrow>
          if \<not> same_owner current (sg_account g) \<or> grantor (sg_payload current) \<noteq> grantor p then Inl e
          else and_then (served (canonical sv granteeInput)) (\<lambda>address.
            if consent_address p \<noteq> address then Inl e
            else if sg_representation current = sg_representation g then Inr (current, d)
            else if sg_signing_key current \<noteq> sg_signing_key g
              then Inl (UserGrantError 409 ''Historical-key reconciliation required before a new signer epoch'')
            else if grant_status_of (sg_payload current) \<noteq> Active \<or> grant_updated_at p \<le> grant_updated_at (sg_payload current)
                \<or> p \<noteq> revoked_payload (sg_payload current) (sg_digest current) (grant_updated_at p)
              then Inl (UserGrantError 409 ''User-signed Grant revocation conflicts with the current revision'')
            else (case appendAuthoritativeRevocation (gx_services sv) clk \<lparr>up_revision = g,
                up_expectedRevision = grant_revision (sg_payload current), up_expectedDigest = sg_digest current,
                up_consent = None, up_destination = None\<rparr> d of
              Inr (_, d') \<Rightarrow> Inr (as_stored g (gx_now sv 1), d')
            | Inl failed \<Rightarrow>
                and_then (served (findCurrentByGrantId c (seen 4) (grant_id p))) (\<lambda>winner. case winner of
                  None \<Rightarrow> Inl (Failure failed)
                | Some w \<Rightarrow> if same_owner w (sg_account g) \<and> sg_representation w = sg_representation g then Inr (w, d)
                    else Inl (Failure failed))))))"

definition update_conflicts :: "SignedGrantRevision option \<Rightarrow> SignedGrantRevisionInput \<Rightarrow> bool" where
  "update_conflicts retained g = (case retained of
     None \<Rightarrow> True
   | Some r \<Rightarrow>
       let p = sg_payload g; q = sg_payload r in
       \<not> same_owner r (sg_account g) \<or> grant_status_of q \<noteq> Active \<or> sg_signing_key r \<noteq> sg_signing_key g
       \<or> grant_revision p \<noteq> grant_revision q + 1 \<or> grant_previous p \<noteq> Some (sg_digest r)
       \<or> grant_updated_at p \<le> grant_updated_at q \<or> grant_issued_at p \<noteq> grant_issued_at q
       \<or> grantor p \<noteq> grantor q \<or> grantee p \<noteq> grantee q)"

definition accept_update ::
  "grant_service \<Rightarrow> (nat \<Rightarrow> db) \<Rightarrow> clock \<Rightarrow> SignedGrantRevisionInput \<Rightarrow> SignedGrantRevision option \<Rightarrow> jstring \<Rightarrow> int \<Rightarrow> db \<Rightarrow>
     (SignedGrantRevision \<times> db) served" where
  "accept_update sv seen clk g retained granteeInput now d =
     (let c = gs_codec (gx_services sv); p = sg_payload g;
          e = UserGrantError 409 ''Grant revision or signing epoch conflicts with current state'' in
      if update_conflicts retained g then Inl e
      else (case retained of
        None \<Rightarrow> Inl e
      | Some r \<Rightarrow>
          let q = sg_payload r; restriction = restrictsAuthorization q p; expanded = expandsAuthorization q p;
              refreshed = (\<not> same_consent p q) in
          if restriction \<and> refreshed then Inl (UserGrantError 400 ''Restrictions must carry prior consent unchanged'')
          else if expanded \<and> (case grant_expires_at p of None \<Rightarrow> False | Some t \<Rightarrow> t \<le> now)
            then Inl (UserGrantError 400 ''Expanded authorization is expired'')
          else
            and_then (if expanded \<or> refreshed \<or> \<not> restriction
                then and_then (currentConsent sv p granteeInput True) (\<lambda>e. Inr (Some e)) else Inr None) (\<lambda>consent.
            (case appendAuthoritativeUpdate (gx_services sv) clk \<lparr>up_revision = g, up_expectedRevision = grant_revision q,
                up_expectedDigest = sg_digest r, up_consent = consent,
                up_destination = map_option (\<lambda>e. va_serviceBase (consent_of_address e)) consent\<rparr> d of
              Inr (_, d') \<Rightarrow> Inr (as_stored g (gx_now sv 1), d')
            | Inl failed \<Rightarrow>
                and_then (served (findRevisionByGrantId c (seen 4) (grant_id p) (grant_revision p))) (\<lambda>winner. case winner of
                  None \<Rightarrow> Inl (Failure failed)
                | Some w \<Rightarrow> if sg_account w = sg_account g \<and> sg_representation w = sg_representation g then Inr (w, d)
                    else Inl (Failure failed))))))"

definition accept_initial ::
  "grant_service \<Rightarrow> (nat \<Rightarrow> db) \<Rightarrow> clock \<Rightarrow> SignedGrantRevisionInput \<Rightarrow> SignedGrantRevision option \<Rightarrow> jstring \<Rightarrow> int \<Rightarrow> db \<Rightarrow>
     (SignedGrantRevision \<times> db) served" where
  "accept_initial sv seen clk g retained granteeInput now d =
     (let c = gs_codec (gx_services sv); p = sg_payload g in
      if grant_revision p \<noteq> 1 \<or> grant_previous p \<noteq> None \<or> grant_updated_at p \<noteq> grant_issued_at p
        then Inl (UserGrantError 409 ''User-signed initial Grant has invalid authority'')
      else if retained \<noteq> None then Inl (UserGrantError 409 ''Grant ID is already retained with another signed state'')
      else if (case grant_expires_at p of None \<Rightarrow> False | Some t \<Rightarrow> t \<le> now)
        then Inl (UserGrantError 400 ''User-signed Grant is stale or expired'')
      else
        and_then (evidence_for sv granteeInput) (\<lambda>e.
          let a = consent_of_address e; s = consent_of_profile e in
          if grantee p \<noteq> va_did a \<or> \<not> evidence_agrees a s \<or> \<not> names_consent p a s
            then Inl (UserGrantError 400 ''Grant consent no longer matches current verified grantee evidence'')
          else
            and_then (normalizeScope (grant_scope p)) (\<lambda>scope.
              if grant_scope p \<noteq> scope then Inl (UserGrantError 400 ''User Grant scope is not canonical'')
              else
                and_then (served_or 400 ''Grant scope contains a category not offered by the grantee Sender Profile''
                  (validateScopeAgainstProfile scope (vp_profile s))) (\<lambda>_.
                and_then (served (findActiveAuthoritativeByDidPair c (seen 3) (grantor p) (va_did a))) (\<lambda>existing. case existing of
                  Some x \<Rightarrow> if sg_representation x = sg_representation g then Inr (x, d)
                    else Inl (UserGrantError 409 ''An active different Grant already exists for these DIDs'')
                | None \<Rightarrow>
                    and_then (served (insertAuthoritativeRevision1 (gx_services sv) clk g e (va_serviceBase a) d)) (\<lambda>(_, d').
                      Inr (as_stored g (gx_now sv 1), d')))))))"

text \<open>A holder's signed revision: what is stored already, a revocation, an update, or a first revision.\<close>

definition accept_signed ::
  "grant_service \<Rightarrow> (nat \<Rightarrow> db) \<Rightarrow> clock \<Rightarrow> SignedGrantRevisionInput \<Rightarrow> jstring \<Rightarrow> db \<Rightarrow> (SignedGrantRevision \<times> db) served" where
  "accept_signed sv seen clk g granteeInput d =
     (let c = gs_codec (gx_services sv); p = sg_payload g; now = wall_clock sv 0;
          own = (\<lambda>x. same_owner x (sg_account g) \<and> sg_representation x = sg_representation g) in
      if now + 300 < grant_issued_at p \<or> now + 300 < grant_updated_at p
        then Inl (UserGrantError 400 ''User-signed Grant timestamp is too far ahead'')
      else
        and_then (served (findCurrentByGrantId c (seen 1) (grant_id p))) (\<lambda>retained.
        and_then (served (findRevisionByGrantId c (seen 2) (grant_id p) (grant_revision p))) (\<lambda>historical.
          case find own (case retained of None \<Rightarrow> [] | Some r \<Rightarrow> [r]) of
            Some r \<Rightarrow> Inr (r, d)
          | None \<Rightarrow>
              (case find own (case historical of None \<Rightarrow> [] | Some h \<Rightarrow> [h]) of
                 Some h \<Rightarrow>
                   if (case retained of None \<Rightarrow> True | Some r \<Rightarrow> grant_status_of (sg_payload r) \<noteq> Active)
                     then Inl (UserGrantError 409 ''Terminal Grant state supersedes this historical revision'')
                   else Inr (h, d)
               | None \<Rightarrow>
                   if grant_status_of p = Revoked then accept_revocation sv seen clk g granteeInput d
                   else if 1 < grant_revision p then accept_update sv seen clk g retained granteeInput now d
                   else accept_initial sv seen clk g retained granteeInput now d))))"

definition acceptUserSignedGrant ::
  "grant_service \<Rightarrow> (nat \<Rightarrow> db) \<Rightarrow> clock \<Rightarrow> jstring \<Rightarrow> jstring \<Rightarrow> bytes \<Rightarrow> db \<Rightarrow> (SignedGrantRevision \<times> db) served" where
  "acceptUserSignedGrant sv seen clk grantorInput granteeInput cose d =
     (let c = gs_codec (gx_services sv) in
      and_then (demand (1 \<le> length cose \<and> length cose \<le> 262144) (UserGrantError 400 ''Grant exceeds its limit'')) (\<lambda>_.
      and_then (activeAccount sv (seen 0) grantorInput
        (UserGrantError 409 ''Grantor account is not active and externally verified'')) (\<lambda>(account, did).
      and_then (served (gx_resolve sv did)) (\<lambda>resolved.
      and_then (demand (serviceBase resolved = gx_serviceBase sv) (UserGrantError 409 ''Grantor provider is no longer current'')) (\<lambda>_.
      and_then (served (inspectGrant c cose)) (\<lambda>p.
      and_then (demand (grantor p = did) (UserGrantError 400 ''User-signed Grant has invalid authority'')) (\<lambda>_.
      and_then (served_or 400 ''User-signed Grant signature is invalid'' (codec_result
        (verifySignedPayload (codec_lib c) (codec_env c) Grant cose (identity_verifier (gx_crypto sv) did (identityDidKey resolved))))) (\<lambda>_.
        accept_signed sv seen clk \<lparr>sg_account = account, sg_role = Grantor, sg_payload = p, sg_representation = cose,
          sg_digest = sha256 (codec_env c) cose, sg_signing_key = identityDidKey resolved, sg_evidence = document_evidence resolved,
          sg_expectedServiceBase = Some (gx_serviceBase sv), sg_recipientEvidence = None, sg_recipientServiceBase = None\<rparr>
          granteeInput d))))))))"

section \<open>What the provider signs itself\<close>

definition updateManaged ::
  "grant_service \<Rightarrow> (nat \<Rightarrow> db) \<Rightarrow> (nat \<Rightarrow> db) \<Rightarrow> clock \<Rightarrow> jstring \<Rightarrow> HailGrant \<Rightarrow> jstring \<Rightarrow> db \<Rightarrow> (SignedGrantRevision \<times> db) served" where
  "updateManaged sv seen seen' clk addressInput p signingKey d =
     and_then (activeAccount sv (seen 0) addressInput (UserGrantError 409 ''Active grantor required'')) (\<lambda>(account, did).
     and_then (served (gx_getKey sv account)) (\<lambda>key.
     and_then (served (gx_resolve sv did)) (\<lambda>resolved.
     and_then (demand (key_publicKey key = signingKey \<and> identityDidKey resolved = signingKey \<and> serviceBase resolved = gx_serviceBase sv)
       (UserGrantError 409 ''Managed signing key/provider changed'')) (\<lambda>_.
     and_then (signGrant sv account did key p (document_evidence resolved) (gx_now sv 2)) (\<lambda>signed.
       acceptUserSignedGrant sv seen' clk addressInput (consent_address p) (sg_representation signed) d)))))"

definition same_definition :: "SignedGrantRevision \<Rightarrow> AccountKeyRecord \<Rightarrow> GrantConsentEvidence \<Rightarrow> jstring list \<Rightarrow> int option \<Rightarrow> bool" where
  "same_definition g key e scope expires \<longleftrightarrow> sg_signing_key g = key_publicKey key \<and> grant_expires_at (sg_payload g) = expires
     \<and> grant_scope (sg_payload g) = scope
     \<and> digest_value (consent_binding_hash (sg_payload g)) = va_digest (consent_of_address e)
     \<and> digest_value (consent_profile_hash (sg_payload g)) = vp_digest (consent_of_profile e)"

definition createOrReuse ::
  "grant_service \<Rightarrow> (nat \<Rightarrow> db) \<Rightarrow> clock \<Rightarrow> jstring \<Rightarrow> jstring \<Rightarrow> GrantDefinition \<Rightarrow> db \<Rightarrow> (SignedGrantRevision \<times> db) served" where
  "createOrReuse sv seen clk grantorInput granteeInput input d =
     and_then (activeAccount sv (seen 0) grantorInput (failure ''Grantor account must have public activation evidence'')) (\<lambda>(account, did).
     and_then (served (gx_getKey sv account)) (\<lambda>key.
     and_then (served (gx_resolve sv did)) (\<lambda>resolved.
     and_then (demand (identityDidKey resolved = key_publicKey key \<and> serviceBase resolved = gx_serviceBase sv)
       (failure ''Current PLC state does not authorize this provider identity key'')) (\<lambda>_.
     and_then (evidence_for sv granteeInput) (\<lambda>e.
     and_then (demand (evidence_agrees (consent_of_address e) (consent_of_profile e))
       (failure ''Grantee discovery and Sender Profile evidence do not agree'')) (\<lambda>_.
     and_then (normalizeScope (def_scope input)) (\<lambda>scope.
     and_then (served (validateScopeAgainstProfile scope (vp_profile (consent_of_profile e)))) (\<lambda>_.
       let now = wall_clock sv 0 in
       if (case def_expiresAt input of None \<Rightarrow> False | Some t \<Rightarrow> t < now)
         then Inl (failure ''Grant expiry must not precede issuance'')
       else
         and_then (served (findActiveAuthoritativeByDidPair (gs_codec (gx_services sv)) (seen 1) did (va_did (consent_of_address e)))) (\<lambda>existing.
           case existing of
             Some x \<Rightarrow>
               if same_definition x key e scope (def_expiresAt input) then Inr (x, d)
               else Inl (failure ''An active Grant already exists for this grantor and grantee'')
           | None \<Rightarrow>
               and_then (served (uuidV7 (gx_now sv 1) (gx_random sv))) (\<lambda>gid.
               and_then (signGrant sv account did key (first_payload gid did e scope (def_expiresAt input) now)
                 (document_evidence resolved) (gx_now sv 2)) (\<lambda>g.
               and_then (served (insertAuthoritativeRevision1 (gx_services sv) clk g e (va_serviceBase (consent_of_address e)) d)) (\<lambda>(_, d').
                 Inr (as_stored g (gx_now sv 3), d')))))))))))))"

definition revoke ::
  "grant_service \<Rightarrow> (nat \<Rightarrow> db) \<Rightarrow> clock \<Rightarrow> jstring \<Rightarrow> jstring \<Rightarrow> (int \<times> bytes) option \<Rightarrow> db \<Rightarrow> (SignedGrantRevision \<times> db) served" where
  "revoke sv seen clk grantorInput gid reviewed d =
     and_then (activeAccount sv (seen 0) grantorInput (failure ''Grantor account must have public activation evidence'')) (\<lambda>(account, did).
     and_then (served (findCurrentByGrantId (gs_codec (gx_services sv)) (seen 1) gid)) (\<lambda>found. case found of
       None \<Rightarrow> Inl (failure ''Authoritative Grant does not exist'')
     | Some current \<Rightarrow>
         let p = sg_payload current in
         if sg_role current \<noteq> Grantor \<or> grantor p \<noteq> did then Inl (failure ''Authoritative Grant does not exist'')
         else if (case reviewed of None \<Rightarrow> False | Some (n, digest) \<Rightarrow> grant_revision p \<noteq> n \<or> sg_digest current \<noteq> digest)
           then Inl (UserGrantError 409 ''Grant changed after revocation review'')
         else if grant_status_of p = Revoked then Inr (current, d)
         else
           and_then (served (gx_getKey sv account)) (\<lambda>key.
           and_then (served (gx_resolve sv did)) (\<lambda>resolved.
           and_then (demand (sg_signing_key current = key_publicKey key)
             (UserGrantError 409 ''Historical-key reconciliation required before a new signer epoch'')) (\<lambda>_.
           and_then (demand (identityDidKey resolved = key_publicKey key \<and> serviceBase resolved = gx_serviceBase sv)
             (failure ''Current PLC state does not authorize this provider identity key'')) (\<lambda>_.
             let now = wall_clock sv 0; updatedAt = max now (grant_updated_at p + 1) in
             if now + 300 < updatedAt then Inl (failure ''Grant timestamp is too far ahead'')
             else
               and_then (signGrant sv account did key (revoked_payload p (sg_digest current) updatedAt)
                 (document_evidence resolved) (gx_now sv 2)) (\<lambda>g.
               and_then (served (appendAuthoritativeRevocation (gx_services sv) clk \<lparr>up_revision = g, up_expectedRevision = grant_revision p,
                 up_expectedDigest = sg_digest current, up_consent = None, up_destination = None\<rparr> d)) (\<lambda>(_, d').
                 Inr (as_stored g (gx_now sv 3), d')))))))))"

end
