(* ===== verification/GrantExchangeProperties.thy ===== *)
theory GrantExchangeProperties
  imports GrantExchange GrantHistory RetrievalProperties
begin

text \<open>
  The two ends of the exchange agree: the publisher takes an answer as an acknowledgement if and only if
  the receiver reports that it has the revision, and then it has.
\<close>

declare split_paired_All [simp del] split_paired_Ex [simp del] Status.decimal.simps [simp del]

section \<open>Header values\<close>

lemma of_char_unit: "unat (c :: 16 word) < 256 \<Longrightarrow> of_char (char_of (unat c)) = c"
proof -
  have "(of_char (char_of (unat c)) :: 16 word) = of_nat (of_char (char_of (unat c) :: char))" by (simp only: of_nat_of_char)
  then show "unat c < 256 \<Longrightarrow> ?thesis" by simp
qed

lemma lit_text_of_units: "(\<forall>c \<in> set s. unat c < 256) \<Longrightarrow> lit (text_of_units s) = s"
  by (induction s) (auto simp: lit_def text_of_units_def of_char_unit)

lemma ascii_small: "in_range CHR ''!'' CHR ''~'' c \<Longrightarrow> unat c < 256"
  by (auto simp: in_range_def word_le_nat_alt)

lemma path_char_small: "path_char c \<Longrightarrow> unat c < 256"
  using path_char_text(1) ascii_small by blast

lemma entity_tag_text: "lit (text_of_units (entity_tag d)) = entity_tag d"
proof (rule lit_text_of_units)
  have "\<forall>c \<in> set (encodeBase64Url d). unat c < 256"
    using encode_base64url_chars [of d] base64url_path_char path_char_small by (auto simp: list_all_iff)
  then show "\<forall>c \<in> set (entity_tag d). unat c < 256" by (auto simp: entity_tag_def quoted_def lit_def)
qed

lemma uuid_segment:
  assumes "UUID_V7_PATTERN s"
  shows "valid_segment s"
proof -
  have hex: "is_hex c \<Longrightarrow> path_char c" for c
    by (auto simp: is_hex_def path_char_def is_lower_def in_range_def intro: order_trans)
  have dash: "path_char (of_char CHR ''-'')" "path_char (of_char CHR ''7'')" "one_of ''89ab'' c \<Longrightarrow> path_char c" for c
    by (auto simp: path_char_def one_of_def lit_def is_lower_def Text.is_digit_def in_range_def)
  have part: "path_char (s ! i)" if "list_all is_hex (take k (drop m s))" "m \<le> i" "i < m + k" "i < length s" for i k m
  proof -
    have "take k (drop m s) ! (i - m) = s ! i" "i - m < length (take k (drop m s))" using that by auto
    with that(1) show ?thesis using hex by (metis list_all_length)
  qed
  have len: "length s = 36" using assms by (simp add: UUID_V7_PATTERN_def)
  have "path_char (s ! i)" if i: "i < 36" for i
  proof -
    consider "i < 8" | "i \<in> {8, 13, 18, 23}" | "9 \<le> i" "i < 13" | "i = 14" | "15 \<le> i" "i < 18" | "i = 19" | "20 \<le> i" "i < 23" | "24 \<le> i"
      using i by fastforce
    then show ?thesis
      using assms dash part [of 8 0 i] part [of 4 9 i] part [of 3 15 i] part [of 3 20 i] part [of 12 24 i] i len
      by cases (auto simp: UUID_V7_PATTERN_def)
  qed
  then have "list_all path_char s" by (simp add: list_all_length len)
  moreover have "s \<noteq> lit t" if "length t < 36" for t using len that by auto
  moreover have "s \<noteq> []" using len by auto
  ultimately show ?thesis by (simp add: valid_segment_def PATH_SEGMENT_PATTERN_def)
qed

section \<open>What the receiver reports is stored\<close>

lemma current_stored:
  assumes "findReceivedForSender c d gid did = Inr current" and "exactRepresentation current cose" and "inspectGrant c cose = Inr p"
  shows "\<exists>r. revisions d (gid, grant_revision p) = Some r \<and> rev_cose r = cose"
proof -
  from assms(1,2) obtain g l r where g: "current_row d gid = Some (l, r)" "grantFromRow c gid (lin_revision l) l r = Inr g"
      "sg_representation g = cose"
    by (auto simp: findReceivedForSender_def findCurrentByGrantId_def exactRepresentation_def split: option.splits if_splits)
  from grantFromRow_Inr [OF g(2)] g(3) assms(3) have "rev_cose r = cose" "grant_revision p = lin_revision l"
    by (auto simp: row_matches_def)
  with g(1) show ?thesis by (auto simp: current_row_def joined_def split: option.splits)
qed

lemma accepted_stored:
  assumes "acceptReceivedRevision sv clk g d = Inr (x, d')"
  shows "\<exists>r. revisions d' (grant_id (sg_payload g), grant_revision (sg_payload g)) = Some r \<and> rev_cose r = sg_representation g"
proof -
  define g' where "g' = g\<lparr>sg_role := Grantee\<rparr>"
  have sel: "sg_payload g' = sg_payload g" "sg_representation g' = sg_representation g" "revision_key g' = revision_key g"
    by (simp_all add: g'_def revision_key_def)
  from assms consider (first) "receive_first sv clk g' d = Inr (x, d')"
    | (collocated) l where "receive_collocated sv g' l d = Inr (x, d')"
    | (successor) l where "receive_successor sv clk g' l d = Inr (x, d')"
    by (auto simp: acceptReceivedRevision_def Let_def g'_def split: option.splits if_splits)
  then show ?thesis
  proof cases
    case first
    then obtain d1 d2 where "insertRevision (gs_functions sv) (clk 0) g' d1 = Inr d2" "read_back sv g' d2 = Inr (x, d')"
      by (auto simp: receive_first_def Let_def)
    with insertRevision_Inr read_back_same show ?thesis
      by (fastforce simp: revision_key_def revision_of_def sel Let_def update_conv')
  next
    case collocated
    then show ?thesis by (auto simp: receive_collocated_def Let_def sel split: if_splits)
  next
    case successor
    show ?thesis
    proof (cases "revisions d (grant_id (sg_payload g), grant_revision (sg_payload g))")
      case None
      with successor obtain d1 d2 where "insertRevision (gs_functions sv) (clk 0) g' d = Inr d1"
          "advance_lineage (gs_functions sv) g' d1 = Inr d2" "read_back sv g' d2 = Inr (x, d')"
        by (auto simp: receive_successor_def Let_def sel)
      with insertRevision_Inr read_back_same show ?thesis
        by (fastforce simp: revision_key_def revision_of_def sel Let_def update_conv' advance_lineage_def split: option.splits)
    next
      case (Some r)
      with successor show ?thesis by (auto simp: receive_successor_def Let_def sel split: if_splits)
    qed
  qed
qed

definition stored_at :: "db \<Rightarrow> jstring \<Rightarrow> int \<Rightarrow> bytes \<Rightarrow> bool" where
  "stored_at d gid n cose \<longleftrightarrow> (\<exists>r. revisions d (gid, n) = Some r \<and> rev_cose r = cose)"

lemma authenticated:
  assumes "authenticateGrant rv seen gid cose = Inr a"
  shows "inspectGrant (gs_codec (rv_services rv)) cose = Inr (ag_payload a)" "grant_id (ag_payload a) = gid"
  using assms by (auto simp: authenticateGrant_def Let_def bad_request_def split: sum.splits option.splits if_splits)

lemma received_stored:
  assumes "receiveGrant rv clk seen gid cose conditions d = Inr (x, d')"
  obtains p where "inspectGrant (gs_codec (rv_services rv)) cose = Inr p" "grant_id p = gid"
    "x \<in> {already_stored p (sha256 (codec_env (gs_codec (rv_services rv))) cose), newly_stored p (sha256 (codec_env (gs_codec (rv_services rv))) cose)}"
    "\<exists>e \<in> {d', seen 1, seen 2}. stored_at e gid (grant_revision p) cose"
proof -
  let ?c = "gs_codec (rv_services rv)"
  from assms obtain a where a: "authenticateGrant rv (seen 0) gid cose = Inr a" by (auto simp: receiveGrant_def Let_def)
  define p where "p = ag_payload a"
  have p: "inspectGrant ?c cose = Inr p" "grant_id p = gid" using authenticated [OF a] by (simp_all add: p_def)
  have found: "stored_at e gid (grant_revision p) cose"
    if "findReceivedForSender ?c e gid (grantee p) = Inr current" "exactRepresentation current cose" for e current
    using current_stored [OF that p(1)] by (simp add: stored_at_def)
  from assms consider
      (same) current where "findReceivedForSender ?c (seen 1) gid (grantee p) = Inr current" "exactRepresentation current cose"
        "x = already_stored p (sha256 (codec_env ?c) cose)"
    | (new) y where "store_grant rv clk a cose d = Inr (y, d')" "x = newly_stored p (sha256 (codec_env ?c) cose)"
    | (lost) winner where "findReceivedForSender ?c (seen 2) gid (grantee p) = Inr winner" "exactRepresentation winner cose"
        "x = already_stored p (sha256 (codec_env ?c) cose)"
    by (auto simp: receiveGrant_def Let_def a p_def [symmetric] split: sum.splits if_splits prod.splits)
  then show thesis
  proof cases
    case same
    with found that p show thesis by blast
  next
    case new
    then obtain z where "acceptReceivedRevision (rv_services rv) clk (received_input rv a cose) d = Inr (z, d')"
      by (auto simp: store_grant_def)
    from accepted_stored [OF this] p new(2) that show thesis by (auto simp: received_input_def stored_at_def p_def)
  next
    case lost
    with found that p show thesis by blast
  qed
qed

section \<open>The exchange\<close>

text \<open>What arrives is what was sent; how it is cut into chunks and what a proxy adds does not matter.\<close>

definition carries :: "web_request \<Rightarrow> arrival \<Rightarrow> bool" where
  "carries rq a \<longleftrightarrow> ar_method a = rq_method rq \<and> ar_has_body a \<and> concat (ar_chunks a) = rq_body rq
     \<and> (\<forall>name \<in> {''content-type'', ''content-encoding'', ''if-match'', ''if-none-match''}. ar_header a name = map_of (rq_headers rq) name)"

lemma read_request_bytes: "read_request stopped a i len chunks = Inr bs \<Longrightarrow> bs = concat chunks"
  by (induction chunks arbitrary: i len bs) (auto split: if_splits)

lemma grant_bytes_sent: "grant_bytes stopped a = Inr bs \<Longrightarrow> carries rq a \<Longrightarrow> bs = rq_body rq"
  using read_request_bytes by (auto simp: grant_bytes_def carries_def)

lemma processed:
  assumes "process_grant sv clk seen a gid d = (Inr x, d')"
  obtains bs where "grant_bytes (gv_stopped sv) a = Inr bs" "UUID_V7_PATTERN gid"
    "receiveGrant (gv_receiver sv) clk seen gid bs \<lparr>ifMatch = ar_header a ''if-match'', ifNoneMatch = ar_header a ''if-none-match''\<rparr> d = Inr (x, d')"
  using assms by (auto simp: process_grant_def split: sum.splits if_splits prod.splits)

lemma refusal_without_etag: "route_gate net allowed now a g = (Some r, g') \<Longrightarrow> rs_header r ''etag'' = None"
  by (auto simp: route_gate_def Let_def split: prod.splits option.splits if_splits)

lemma failure_without_etag: "rs_header (grant_response base gid (Inl e)) ''etag'' = None"
  by (cases e) (auto simp: grant_response_def)

lemma route_etag:
  assumes "grant_route sv clk seen now a gid g d = (r, g', d')" and "rs_header r ''etag'' \<noteq> None"
  obtains x where "process_grant sv clk seen a gid d = (Inr x, d')" "r = grant_response (gv_hailServiceBase sv) gid (Inr x)"
proof -
  obtain g1 where g1: "route_gate (gv_network sv) ''PUT'' now a g = (None, g1)"
    using assms refusal_without_etag by (cases "route_gate (gv_network sv) ''PUT'' now a g") (fastforce simp: grant_route_def split: option.splits)
  obtain result d1 where p: "process_grant sv clk seen a gid d = (result, d1)" by fastforce
  have "r = grant_response (gv_hailServiceBase sv) gid result \<and> d' = d1"
    using assms by (auto simp: grant_route_def g1 p Let_def protected_result_def
        split: ProtectedResult.splits prod.splits option.splits admission.splits if_splits)
  with failure_without_etag assms(2) p that show thesis by (cases result) auto
qed

lemma claimed_revision:
  assumes "claimDuePublication sv locked token ms now clk d = (Inr (Some c), d')"
  obtains r where "revisions d (grant_id (sg_payload (gc_grant c)), grant_revision (sg_payload (gc_grant c))) = Some r"
    "rev_cose r = sg_representation (gc_grant c)"
    "inspectGrant (gs_codec sv) (sg_representation (gc_grant c)) = Inr (sg_payload (gc_grant c))"
    "sg_digest (gc_grant c) = sha256 (codec_env (gs_codec sv)) (sg_representation (gc_grant c))"
proof -
  from assms obtain gid n l r where j: "joined d gid n = Some (l, r)" "grantFromRow (gs_codec sv) gid n l r = Inr (gc_grant c)"
    by (auto simp: claimDuePublication_def Let_def split: if_splits option.splits)
  moreover have "revisions d (gid, n) = Some r" using j(1) by (auto simp: joined_def split: option.splits)
  ultimately show thesis using grantFromRow_Inr [OF j(2)] that by (auto simp: row_matches_def)
qed

lemma decide_acknowledge:
  assumes "decide_response dateParse c href now r = Inr (Acknowledge status etag)"
  shows "map_option lit (rs_header r ''etag'') = Some (expectedEtag c)"
  using assms by (auto simp: decide_response_def Let_def split: if_splits)

lemma publish_acknowledged:
  assumes "publishGrant pb d = (Inr GrantAcknowledged, d')"
  obtains c d1 status etag row where
    "claimDuePublication (pb_services pb) (pb_locked pb) (pb_token pb) 30000 (pb_now pb 0) (pb_clock pb 0) d = (Inr (Some c), d1)"
    "push_grant pb c = Inr (Acknowledge status etag)"
    "grant_pubs d' (grant_id (sg_payload (gc_grant c)), grant_revision (sg_payload (gc_grant c))) = Some row" "gp_state row = Acknowledged"
proof -
  from assms obtain c d1 where c: "claimDuePublication (pb_services pb) (pb_locked pb) (pb_token pb) 30000 (pb_now pb 0) (pb_clock pb 0) d
      = (Inr (Some c), d1)"
    by (auto simp: publishGrant_def split: prod.splits sum.splits option.splits)
  have failed: "fst (retry_failed pb c e x) \<noteq> Inr GrantAcknowledged" for e x
    by (auto simp: retry_failed_def split: sum.splits prod.splits)
  obtain decision where q: "push_grant pb c = Inr decision" "settle_decision pb c decision (pb_meanwhile pb 0 d1) = Inr (GrantAcknowledged, d')"
    using assms failed by (auto simp: publishGrant_def c Let_def split: sum.splits prod.splits) (metis fst_conv)+
  then obtain status etag where "decision = Acknowledge status etag"
    by (cases decision) (auto simp: settle_decision_def Let_def)
  with q(2) have "acknowledgePublication (gs_functions (pb_services pb)) (pb_clock pb 1) (claim_result c (Some status) None) etag
      (pb_meanwhile pb 0 d1) = Inr ((), d')" by (auto simp: settle_decision_def Let_def)
  then obtain row where "grant_pubs d' (grant_id (sg_payload (gc_grant c)), grant_revision (sg_payload (gc_grant c))) = Some row"
      "gp_state row = Acknowledged"
    by (auto simp: acknowledgePublication_def finishPublication_def claim_result_def Let_def perform_def split: if_splits)
  with c q(1) \<open>decision = Acknowledge status etag\<close> that show thesis by blast
qed

text \<open>
  C28. An acknowledged revision is stored: if a publisher, whose requests reach the grant route of another
  provider, reports a publication as acknowledged, then the revision's stored representation has
  arrived there: it is the representation of the same revision in the database after the request, or
  in a state in which the receiver looked it up. Refusals of every kind, the rate limit, a missed
  deadline and lost races on either side are never taken for an acknowledgement.
\<close>

theorem acknowledged_is_stored:
  assumes "publishGrant pb dp = (Inr GrantAcknowledged, dp')"
    and "\<And>rq. pb_fetch pb rq = Inr (fst (grant_route sv clk seen now (wire rq) gid g d))"
    and "\<And>rq. carries rq (wire rq)"
    and "gs_codec (pb_services pb) = gs_codec (rv_services (gv_receiver sv))"
  shows "\<exists>n r row rq. revisions dp (gid, n) = Some r \<and> grant_pubs dp' (gid, n) = Some row \<and> gp_state row = Acknowledged
    \<and> (\<exists>e \<in> {snd (snd (grant_route sv clk seen now (wire rq) gid g d)), seen 1, seen 2}. stored_at e gid n (rev_cose r))"
proof -
  from publish_acknowledged [OF assms(1)] obtain c d1 status etag row where
      c: "claimDuePublication (pb_services pb) (pb_locked pb) (pb_token pb) 30000 (pb_now pb 0) (pb_clock pb 0) dp = (Inr (Some c), d1)"
    and q: "push_grant pb c = Inr (Acknowledge status etag)"
    and row: "grant_pubs dp' (grant_id (sg_payload (gc_grant c)), grant_revision (sg_payload (gc_grant c))) = Some row"
      "gp_state row = Acknowledged" .
  from q obtain url conditions href where d: "decide_response (pb_dateParse pb) c href (pb_now pb 1)
      (fst (grant_route sv clk seen now (wire (grant_request url c conditions)) gid g d)) = Inr (Acknowledge status etag)"
    by (auto simp: push_grant_def assms(2) split: option.splits)
  define rq where "rq = grant_request url c conditions"
  obtain r g' d' where r: "grant_route sv clk seen now (wire rq) gid g d = (r, g', d')" by (metis prod_cases3)
  from decide_acknowledge d r have "rs_header r ''etag'' \<noteq> None" by (fastforce simp: rq_def)
  from route_etag [OF r this] obtain x where x: "process_grant sv clk seen (wire rq) gid d = (Inr x, d')" by blast
  from processed [OF x] obtain bs where b: "grant_bytes (gv_stopped sv) (wire rq) = Inr bs"
      "receiveGrant (gv_receiver sv) clk seen gid bs \<lparr>ifMatch = ar_header (wire rq) ''if-match'',
         ifNoneMatch = ar_header (wire rq) ''if-none-match''\<rparr> d = Inr (x, d')" .
  have "bs = sg_representation (gc_grant c)" using grant_bytes_sent [OF b(1) assms(3)] by (simp add: rq_def grant_request_def)
  from received_stored [OF b(2) [unfolded this]] obtain p where
      p: "inspectGrant (gs_codec (rv_services (gv_receiver sv))) (sg_representation (gc_grant c)) = Inr p" "grant_id p = gid"
      "\<exists>e \<in> {d', seen 1, seen 2}. stored_at e gid (grant_revision p) (sg_representation (gc_grant c))" .
  from claimed_revision [OF c] obtain rev where
      rev: "revisions dp (grant_id (sg_payload (gc_grant c)), grant_revision (sg_payload (gc_grant c))) = Some rev"
      "rev_cose rev = sg_representation (gc_grant c)"
      "inspectGrant (gs_codec (pb_services pb)) (sg_representation (gc_grant c)) = Inr (sg_payload (gc_grant c))" .
  have "p = sg_payload (gc_grant c)" using rev(3) p(1) assms(4) by simp
  with p row rev r show ?thesis by (metis snd_conv)
qed

lemma grants_path: "UUID_V7_PATTERN gid \<Longrightarrow> plain_path (lit ''/grants/'' @ gid)"
proof -
  have "valid_segment (lit ''grants'')" by code_simp
  moreover have "lit ''/grants/'' @ gid = (slash # lit ''grants'') @ slash # gid" by (simp add: lit_def slash_def)
  ultimately show "UUID_V7_PATTERN gid \<Longrightarrow> ?thesis" using plain_path_append plain_path_segment uuid_segment by metis
qed

lemma location_text:
  assumes "url_parser net" and "canonicalizeHailServiceBase net endpoint = Inr base" and "UUID_V7_PATTERN gid"
  shows "lit (text_of_units (base @ lit ''/grants/'' @ gid)) = base @ lit ''/grants/'' @ gid"
proof (rule lit_text_of_units)
  have "canonicalizeHailServiceBase net base = Inr base" using url_parser.canonical_idempotent [OF assms(1,2)] .
  then have "visible_ascii base" by (auto simp: canonicalizeHailServiceBase_def forbidden_form_def)
  moreover have "list_all path_char gid" using uuid_segment [OF assms(3)] by (simp add: valid_segment_def PATH_SEGMENT_PATTERN_def)
  moreover have "\<forall>c \<in> set (lit ''/grants/''). unat c < 256" by code_simp
  ultimately show "\<forall>c \<in> set (base @ lit ''/grants/'' @ gid). unat c < 256"
    using ascii_small path_char_small by (auto simp: visible_ascii_def list_all_iff)
qed

lemma precondition_length: "length (json_problem 412 (titleFor 412) None) \<le> 65536"
  by code_simp

lemma decide_received:
  assumes "x \<in> {already_stored p (sg_digest (gc_grant c)), newly_stored p (sg_digest (gc_grant c))}"
    and "p = sg_payload (gc_grant c)" and "1 \<le> grant_revision p"
    and "lit (text_of_units (base @ lit ''/grants/'' @ gid)) = href"
  shows "decide_response dateParse c href now (grant_response base gid (Inr x)) = Inr (Acknowledge (grr_status x) (expectedEtag c))"
proof -
  have "grr_etag x = expectedEtag c" using assms(1) by (auto simp: already_stored_def newly_stored_def expectedEtag_def)
  moreover have "grr_status x = 412 \<and> grant_revision p = 1 \<or> grr_status x = 201 \<and> grr_created x \<and> grant_revision p = 1
      \<or> grr_status x = 204 \<and> \<not> grr_created x \<and> 1 < grant_revision p"
    using assms(1,3) by (cases "grant_revision p = 1") (auto simp: already_stored_def newly_stored_def)
  moreover have "lit (text_of_units (expectedEtag c)) = expectedEtag c" by (simp add: expectedEtag_def entity_tag_text)
  ultimately show ?thesis using assms(2,4) precondition_length
    by (auto simp: grant_response_def decide_response_def boundedResponseBytes_def Let_def)
qed

text \<open>The condition that the publisher sets is the one that the receiver expects.\<close>

lemma parse_entity_tag: "length d = 32 \<Longrightarrow> parseStrongEtag (entity_tag d) = Some d"
  using decode_encode [of d] encode_base64url_chars [of d] length_encodeBase64Url [of d]
  by (simp add: parseStrongEtag_def entity_tag_def quoted_def lit_def)

lemma conditions_expected:
  assumes "wf_grant env (sg_payload (gc_grant c))" and "conditionHeaders c = Inr conditions"
  shows "check_conditions (sg_payload (gc_grant c)) conditions = Inr ()"
  using assms parse_entity_tag
  by (auto simp: check_conditions_def conditionHeaders_def wf_grant_def Let_def refuse_when_def split: option.splits if_splits)

lemma conditions_arrive:
  assumes "carries (grant_request url c conditions) a"
  shows "\<lparr>ifMatch = ar_header a ''if-match'', ifNoneMatch = ar_header a ''if-none-match''\<rparr> = conditions"
  using assms by (cases conditions) (auto simp: carries_def grant_request_def present_headers_def List.map_filter_simps split: option.splits)

text \<open>A request of the publisher passes a gate that still has room.\<close>

lemma media_type_accepted: "isCoseSign1MediaType (Some COSE_SIGN1_MEDIA_TYPE)"
  by code_simp

lemma route_open:
  assumes "carries (grant_request url c conditions) a"
    and "fst (take_token 4096 (clientAddress (gv_network sv) a) 120 now (gate_buckets g)) = None"
    and "fst (admit (gv_settings sv) (clientAddress (gv_network sv) a) (gate_schedule g)) = Started"
    and "gv_settles sv = Some s" and "s < processingDeadlineMs (gv_settings sv)"
  shows "fst (grant_route sv clk seen now a gid g d)
      = grant_response (gv_hailServiceBase sv) gid (fst (process_grant sv clk seen a gid d))"
proof -
  have a: "ar_method a = ''PUT''" "ar_header a ''content-type'' = Some COSE_SIGN1_MEDIA_TYPE" "ar_header a ''content-encoding'' = None"
    using assms(1) by (simp_all add: carries_def grant_request_def present_headers_def List.map_filter_simps split: option.splits)
  obtain bs where "take_token 4096 (clientAddress (gv_network sv) a) 120 now (gate_buckets g) = (None, bs)"
    using assms(2) by (metis prod.collapse)
  then have "route_gate (gv_network sv) ''PUT'' now a g = (None, g\<lparr>gate_buckets := bs\<rparr>)"
    by (simp add: route_gate_def a media_type_accepted)
  moreover obtain s' where "admit (gv_settings sv) (clientAddress (gv_network sv) a) (gate_schedule g) = (Started, s')"
    using assms(3) by (metis prod.collapse)
  ultimately show ?thesis using assms(4,5)
    by (simp add: grant_route_def admit_request_def protected_result_def Let_def split: prod.splits)
qed

text \<open>
  C29. A received revision is acknowledged: if the rate limit and the schedule of the grantee's provider
  leave room for the request of a publisher and its processing settles before the deadline, then the
  request carries the condition that the receiver expects, and if the receiver reports that it has
  the revision, whether it stored it now or had it already, then the publisher understands the answer
  as the acknowledgement of exactly this revision: method, media type, status, entity tag and location
  are the ones the other side expects.
\<close>

theorem received_is_acknowledged:
  assumes "cbor_library (codec_lib (gs_codec (pb_services pb)))" and "url_parser (pb_network pb)"
    and "gs_codec (pb_services pb) = gs_codec (rv_services (gv_receiver sv))"
    and "canonicalizeHailServiceBase (pb_network pb) endpoint = Inr (gv_hailServiceBase sv)"
    and "claimDuePublication (pb_services pb) locked token ms now clk dp = (Inr (Some c), dp')"
    and "pb_resolve pb (grantee (sg_payload (gc_grant c))) = Inr holder" and "serviceBase holder = gv_hailServiceBase sv"
    and "pb_validateTarget pb = validateUrl (pb_network pb)"
    and "\<And>rq. pb_fetch pb rq = Inr (fst (grant_route sv clk' seen t (wire rq) (grant_id (sg_payload (gc_grant c))) g d))"
    and "\<And>rq. carries rq (wire rq)"
    and "\<And>rq. fst (take_token 4096 (clientAddress (gv_network sv) (wire rq)) 120 t (gate_buckets g)) = None"
    and "\<And>rq. fst (admit (gv_settings sv) (clientAddress (gv_network sv) (wire rq)) (gate_schedule g)) = Started"
    and "gv_settles sv = Some s" and "s < processingDeadlineMs (gv_settings sv)"
  shows "\<exists>rq url conditions. rq = grant_request url c conditions
    \<and> check_conditions (sg_payload (gc_grant c)) \<lparr>ifMatch = ar_header (wire rq) ''if-match'', ifNoneMatch = ar_header (wire rq) ''if-none-match''\<rparr> = Inr ()
    \<and> (\<forall>x. fst (process_grant sv clk' seen (wire rq) (grant_id (sg_payload (gc_grant c))) d) = Inr x \<longrightarrow>
        push_grant pb c = Inr (Acknowledge (grr_status x) (expectedEtag c)))"
proof -
  define p where "p = sg_payload (gc_grant c)"
  from claimed_revision [OF assms(5)] have i: "inspectGrant (gs_codec (pb_services pb)) (sg_representation (gc_grant c)) = Inr p"
      "sg_digest (gc_grant c) = sha256 (codec_env (gs_codec (pb_services pb))) (sg_representation (gc_grant c))"
    by (auto simp: p_def)
  note wf = inspected_grant [OF assms(1) i(1), unfolded wf_grant_def]
  obtain v where v: "net_url (pb_network pb) (grant_url holder c) = Some v" "validateUrl (pb_network pb) v = Inr ()" "wu_href v = grant_url holder c"
    using url_parser.base_url [OF assms(2,4) grants_path [of "grant_id p"]] wf assms(7) by (auto simp: grant_url_def p_def)
  obtain conditions where cond: "conditionHeaders c = Inr conditions"
    using wf by (auto simp: conditionHeaders_def Let_def p_def split: option.splits)
  define rq where "rq = grant_request v c conditions"
  have push: "push_grant pb c = decide_response (pb_dateParse pb) c (grant_url holder c) (pb_now pb 1)
      (grant_response (gv_hailServiceBase sv) (grant_id p) (fst (process_grant sv clk' seen (wire rq) (grant_id p) d)))"
    using v cond assms(6,8,9) route_open [OF assms(10) [of rq, unfolded rq_def] assms(11,12,13,14)]
    by (simp add: push_grant_def rq_def p_def)
  have "push_grant pb c = Inr (Acknowledge (grr_status x) (expectedEtag c))"
    if "fst (process_grant sv clk' seen (wire rq) (grant_id p) d) = Inr x" for x
  proof -
    from that obtain d' where x: "process_grant sv clk' seen (wire rq) (grant_id p) d = (Inr x, d')" by (metis fst_conv surj_pair)
    from processed [OF x] obtain bs where b: "grant_bytes (gv_stopped sv) (wire rq) = Inr bs" "UUID_V7_PATTERN (grant_id p)"
        "receiveGrant (gv_receiver sv) clk' seen (grant_id p) bs \<lparr>ifMatch = ar_header (wire rq) ''if-match'',
           ifNoneMatch = ar_header (wire rq) ''if-none-match''\<rparr> d = Inr (x, d')" .
    have "bs = sg_representation (gc_grant c)" using grant_bytes_sent [OF b(1) assms(10)] by (simp add: rq_def grant_request_def)
    from received_stored [OF b(3) [unfolded this]] i assms(3)
    have "x \<in> {already_stored p (sg_digest (gc_grant c)), newly_stored p (sg_digest (gc_grant c))}" by (metis Inr_inject)
    from decide_received [OF this p_def] wf location_text [OF assms(2,4) b(2)] assms(7) x push show ?thesis
      by (simp add: grant_url_def p_def)
  qed
  moreover have "check_conditions p \<lparr>ifMatch = ar_header (wire rq) ''if-match'', ifNoneMatch = ar_header (wire rq) ''if-none-match''\<rparr> = Inr ()"
    using conditions_expected [OF _ cond] inspected_grant [OF assms(1) i(1)] conditions_arrive assms(10) [of rq] by (simp add: p_def rq_def)
  ultimately show ?thesis unfolding p_def using rq_def by blast
qed

end
