(* ===== verification/GrantExchangeExample.thy ===== *)
theory GrantExchangeExample
  imports GrantExchangeProperties RetrievalExample
begin

text \<open>
  The exchange on concrete data: Alice's provider publishes the first revision of a grant to Bob's provider, which
  verifies and stores it and answers; the theorems about the exchange are applied to this run.
\<close>

declare split_paired_All [simp del] split_paired_Ex [simp del] Status.decimal.simps [simp del]

definition party_document :: HailDidDocument where
  "party_document = \<lparr>messagingDidKey = lit ''m'', identityDidKey = lit ''k'', serviceBase = sender_base, document_evidence = no_evidence\<rparr>"

definition bob_receiver :: grant_receiver where
  "bob_receiver = \<lparr>rv_services = lenient_services, rv_crypto = example_crypto, rv_resolve = (\<lambda>_. Inr party_document),
     rv_retain = (\<lambda>_. Inr ()), rv_serviceBase = sender_base, rv_now = 0, rv_aborted = (\<lambda>_. False), rv_unique_violation = False\<rparr>"

definition bob_server :: grant_server where
  "bob_server = \<lparr>gv_receiver = bob_receiver, gv_network = example_network [], gv_settings = POC_PROTECTED_SCHEDULE,
     gv_hailServiceBase = sender_base, gv_settles = Some 20, gv_stopped = (\<lambda>_. False)\<rparr>"

text \<open>The verification of Alice's signature.\<close>

lemma verify_alice_grant:
  assumes "signable_grant g"
  shows "\<exists>object. verifySignedPayload reference_cborg grant_env Grant (signed_grant g) (identity_verifier example_crypto alice key) = Inr object"
proof -
  have k: "identity_key_id alice = alice_key_id" by (simp add: identity_key_id_def alice_key_id_def key_id_of_def lit_def)
  have c: "web_crypto example_subtle (\<lambda>i. if i \<noteq> identity_key_id alice then throw InvalidSignature else Inr example_key)
      alice_key_id example_key example_key (signer_of alice_key_id)"
    by unfold_locales (auto simp: k example_subtle_def example_key_def signer_of_def createWebCryptoSigner_def requireEd25519Key_def
        keyed_tag_def fun_eq_iff)
  have "signed_transport reference_cborg (signer_of alice_key_id) (createWebCryptoVerifier
      (\<lambda>i. if i \<noteq> identity_key_id alice then throw InvalidSignature else Inr example_key) example_subtle)"
    using reference.cbor_library_axioms web_crypto.adapters_belong_together [OF c] by (rule signed_transport.intro)
  moreover have "identity_verifier example_crypto alice key = createWebCryptoVerifier
      (\<lambda>i. if i \<noteq> identity_key_id alice then throw InvalidSignature else Inr example_key) example_subtle"
    by (simp add: identity_verifier_def example_crypto_def cong: if_cong)
  moreover have "wf_grant grant_env g" using assms by (simp add: wf_grant_env signable_grant_def)
  ultimately show ?thesis using signed_transport.verify_of_sign [OF _ grant_type unique_grant_object sign_grant [OF assms]] by metis
qed

definition bob_authenticated :: authenticated_grant where
  "bob_authenticated = \<lparr>ag_payload = grant_1, ag_account = lit ''b'', ag_grantor = party_document, ag_grantee = party_document\<rparr>"

lemma bob_account_found: "account_with_did grantee_db bob = Some (lit ''b'', grantee_account)" "publicly_active grantee_account"
  by (simp_all add: account_with_did_def grantee_db_def empty_db_def grantee_account_def publicly_active_def)

lemma run_grant_authenticate: "authenticateGrant bob_receiver grantee_db message_1 (signed_grant grant_1) = Inr bob_authenticated"
proof -
  obtain object where "verifySignedPayload reference_cborg grant_env Grant (signed_grant grant_1) (identity_verifier example_crypto alice (lit ''k'')) = Inr object"
    using verify_alice_grant [OF grant_signable(1)] by blast
  with inspect_grant [OF grant_signable(1)] show ?thesis
    by (simp add: authenticateGrant_def bob_receiver_def lenient_services_def Let_def bad_request_def abort_at_def guard_def party_document_def
        codec_result_def bob_authenticated_def) (simp add: grant_codec_def bob_account_found)
qed

lemma run_store: "\<exists>x. store_grant bob_receiver (\<lambda>_. 0) bob_authenticated (signed_grant grant_1) grantee_db = Inr (x, granted_db)"
proof -
  define i where "i = (received_grant grant_1)\<lparr>sg_recipientEvidence := Some no_evidence, sg_recipientServiceBase := Some sender_base\<rparr>"
  have input: "received_input bob_receiver bob_authenticated (signed_grant grant_1) = i" "i\<lparr>sg_role := Grantee\<rparr> = i"
    by (simp_all add: i_def received_input_def bob_receiver_def bob_authenticated_def party_document_def received_grant_def lenient_services_def
        grant_codec_def)
  have f: "sg_payload i = grant_1" "sg_account i = lit ''b''" "revision_key i = (message_1, 1)"
      "lineage_of i = lineage_of (received_grant grant_1)" "revision_of t i = revision_of t (received_grant grant_1)" for t
    by (simp_all add: i_def received_grant_def lineage_of_def revision_of_def revision_key_def)
  have d: "provider_accounts grantee_db = [(lit ''b'', grantee_account)]" "grant_lineages grantee_db = []" "grant_revisions grantee_db = []"
    by (simp_all add: grantee_db_def empty_db_def)
  have "checkedInput grant_codec i Grantee = Inr ()"
    using checked_grant [OF grant_signable(1)] by (simp add: checkedInput_def i_def received_grant_def)
  moreover obtain x where "grantFromRow grant_codec message_1 1 (lineage_of (received_grant grant_1)) (revision_of 0 (received_grant grant_1)) = Inr x"
    using read_row [OF grant_signable(1), of "lineage_of (received_grant grant_1)" 0] by auto
  then have "receive_first lenient_services (\<lambda>_. 0) i grantee_db = Inr (as_received i x, granted_db)"
    by (simp add: receive_first_def lenient_services_def Let_def insert_lineage_def insertRevision_def insert_new_def open_functions_def d f
        active_pair_def has_row_def read_back_def findCurrentByGrantId_def current_row_def joined_def granted_db_def)
  ultimately have "\<exists>x. acceptReceivedRevision lenient_services (\<lambda>_. 0) i grantee_db = Inr (x, granted_db)"
    by (simp add: acceptReceivedRevision_def Let_def input d f lenient_services_def grantee_account_def)
  then show ?thesis
    by (simp add: store_grant_def abort_at_def guard_def retain_authority_def input) (simp add: bob_receiver_def)
qed

lemma run_grant_receive:
  "receiveGrant bob_receiver (\<lambda>_. 0) (\<lambda>_. grantee_db) message_1 (signed_grant grant_1) \<lparr>ifMatch = None, ifNoneMatch = Some (lit ''*'')\<rparr> grantee_db
     = Inr (newly_stored grant_1 (replicate 32 7), granted_db)"
proof -
  obtain x where "store_grant bob_receiver (\<lambda>_. 0) bob_authenticated (signed_grant grant_1) grantee_db = Inr (x, granted_db)"
    using run_store by blast
  moreover have "findReceivedForSender grant_codec grantee_db message_1 bob = Inr None"
    by (simp add: findReceivedForSender_def findCurrentByGrantId_def current_row_def grantee_db_def empty_db_def)
  moreover have "check_times 0 grant_1 = Inr ()" by (simp add: check_times_def Let_def) (simp add: grant_1_def)
  moreover have "gs_codec (rv_services bob_receiver) = grant_codec" "\<not> rv_aborted bob_receiver 3" "rv_now bob_receiver = 0"
      "codec_env grant_codec = grant_env" "ag_payload bob_authenticated = grant_1"
    by (simp_all add: bob_receiver_def lenient_services_def grant_codec_def bob_authenticated_def)
  ultimately show ?thesis
    using run_grant_authenticate grant_digests(1)
    by (simp add: receiveGrant_def Let_def check_conditions_def exactRepresentation_def check_successor_def)
qed

definition on_the_wire :: "web_request \<Rightarrow> arrival" where
  "on_the_wire rq = \<lparr>ar_method = rq_method rq, ar_pathname = wu_pathname (rq_url rq), ar_search = wu_search (rq_url rq),
     ar_header = map_of (rq_headers rq), ar_has_body = True, ar_chunks = [rq_body rq], ar_broken = False, ar_cancel_fails = False\<rparr>"

lemma wire_carries: "carries rq (on_the_wire rq)"
  by (simp add: carries_def on_the_wire_def)

definition idle_gate :: gate_state where
  "idle_gate = \<lparr>gate_buckets = [], gate_schedule = \<lparr>inFlight = 0, processing = 0, sources = []\<rparr>\<rparr>"

definition alice_publisher :: grant_publisher where
  "alice_publisher = \<lparr>pb_services = lenient_services, pb_network = example_network [], pb_resolve = (\<lambda>_. Inr party_document),
     pb_fetch = (\<lambda>rq. Inr (fst (grant_route bob_server (\<lambda>_. 0) (\<lambda>_. grantee_db) 0 (on_the_wire rq) message_1 idle_gate grantee_db))),
     pb_validateTarget = validateUrl (example_network []), pb_locked = (\<lambda>_. False), pb_token = lit ''t'', pb_now = (\<lambda>_. 1), pb_random = 0,
     pb_clock = (\<lambda>_ _. 1000), pb_dateParse = (\<lambda>_. None), pb_describe = (\<lambda>_. []), pb_meanwhile = (\<lambda>_ d. d)\<rparr>"

lemma signed_grant_short: "length (signed_grant grant_1) \<le> 262144"
proof -
  have "inspectGrant grant_codec (signed_grant grant_1) = Inr grant_1" by (rule inspect_grant [OF grant_signable(1)])
  then obtain p where "parseCose reference_cborg grant_env Grant (signed_grant grant_1) = Inr p"
    by (auto simp: inspectGrant_def inspectSignedPayload_def grant_codec_def)
  then have "\<exists>parts. parse_elements reference_cborg 262144 (signed_grant grant_1) = Inr parts"
    by (auto simp: parseCose_def Let_def)
  then show ?thesis by (rule exE) (auto simp: parse_elements_def)
qed

lemma run_process:
  assumes "rq = grant_request url c \<lparr>ifMatch = None, ifNoneMatch = Some (lit ''*'')\<rparr>" and "sg_representation (gc_grant c) = signed_grant grant_1"
  shows "process_grant bob_server (\<lambda>_. 0) (\<lambda>_. grantee_db) (on_the_wire rq) message_1 grantee_db
      = (Inr (newly_stored grant_1 (replicate 32 7)), granted_db)"
proof -
  have "grant_bytes (\<lambda>_. False) (on_the_wire rq) = Inr (signed_grant grant_1)"
    using signed_grant_short by (simp add: grant_bytes_def on_the_wire_def assms grant_request_def present_headers_def List.map_filter_simps)
  moreover have "ar_header (on_the_wire rq) ''if-match'' = None" "ar_header (on_the_wire rq) ''if-none-match'' = Some (lit ''*'')"
    by (simp_all add: on_the_wire_def assms grant_request_def present_headers_def List.map_filter_simps)
  moreover have "UUID_V7_PATTERN message_1" using grant_signable(1) by (simp add: signable_grant_def wf_grant_def)
  ultimately show ?thesis using run_grant_receive by (simp add: process_grant_def bob_server_def)
qed

lemma gate_open:
  "fst (take_token 4096 (clientAddress net a) 120 0 (gate_buckets idle_gate)) = None"
  "fst (admit POC_PROTECTED_SCHEDULE (clientAddress net a) (gate_schedule idle_gate)) = Started"
  by (simp_all add: idle_gate_def take_token_def current_bucket_def make_room_def admit_def source_count_def source_limit_def
      Let_def POC_PROTECTED_SCHEDULE_def)

lemma run_grant_claim:
  obtains c d' where "claimDuePublication lenient_services (\<lambda>_. False) (lit ''t'') 30000 1 (\<lambda>_. 1000) issued_db = (Inr (Some c), d')"
    "sg_payload (gc_grant c) = grant_1" "sg_representation (gc_grant c) = signed_grant grant_1" "sg_digest (gc_grant c) = replicate 32 7" "gc_lease c = lit ''t''"
    "grant_publications d' = [((message_1, 1), (new_grant_publication 0 (lit ''s''))\<lparr>gp_lease := Some (lit ''t''),
       gp_lease_expires_at := Some 30001000, gp_attempts := 1, gp_updated_at := 1000\<rparr>)]"
proof -
  obtain x where x: "grantFromRow grant_codec message_1 1 (lineage_of (issued_grant grant_1)) (revision_of 0 (issued_grant grant_1)) = Inr x"
      "sg_representation x = signed_grant grant_1"
    using read_issued_row by blast
  then have "sg_payload x = grant_1" "sg_digest x = replicate 32 7"
    using grantFromRow_Inr [OF x(1)] inspect_grant [OF grant_signable(1)] grant_digests(1) by (auto simp: revision_of_def Let_def)
  moreover have "\<exists>c d'. claimDuePublication lenient_services (\<lambda>_. False) (lit ''t'') 30000 1 (\<lambda>_. 1000) issued_db = (Inr (Some c), d')
      \<and> gc_grant c = x \<and> gc_lease c = lit ''t'' \<and> grant_publications d' = [((message_1, 1), (new_grant_publication 0 (lit ''s''))\<lparr>gp_lease := Some (lit ''t''),
       gp_lease_expires_at := Some 30001000, gp_attempts := 1, gp_updated_at := 1000\<rparr>)]"
    using x by (simp add: claimDuePublication_def issued_db_def publication_due_def new_grant_publication_def open_publication_def
        fenced_account_def publications_of_def lenient_services_def open_functions_def joined_def Let_def grantor_db_def empty_db_def)
  ultimately show thesis using that x(2) by blast
qed

section \<open>The run\<close>

lemma alice_fields [simp]:
  "pb_services alice_publisher = lenient_services" "pb_network alice_publisher = example_network []"
  "pb_resolve alice_publisher did = Inr party_document" "pb_validateTarget alice_publisher = validateUrl (example_network [])"
  "pb_fetch alice_publisher rq = Inr (fst (grant_route bob_server (\<lambda>_. 0) (\<lambda>_. grantee_db) 0 (on_the_wire rq) message_1 idle_gate grantee_db))"
  "pb_locked alice_publisher = (\<lambda>_. False)" "pb_token alice_publisher = lit ''t''" "pb_now alice_publisher i = 1"
  "pb_clock alice_publisher i = (\<lambda>_. 1000)" "pb_meanwhile alice_publisher i d = d"
  by (simp_all add: alice_publisher_def)

lemma bob_fields [simp]:
  "gv_receiver bob_server = bob_receiver" "rv_services bob_receiver = lenient_services" "gv_hailServiceBase bob_server = sender_base"
  "gv_settings bob_server = POC_PROTECTED_SCHEDULE" "gv_settles bob_server = Some 20" "gs_codec lenient_services = grant_codec"
  by (simp_all add: bob_server_def bob_receiver_def lenient_services_def)

theorem received_is_acknowledged_witness:
  "\<exists>c d'. claimDuePublication lenient_services (\<lambda>_. False) (lit ''t'') 30000 1 (\<lambda>_. 1000) issued_db = (Inr (Some c), d')
    \<and> push_grant alice_publisher c = Inr (Acknowledge 201 (entity_tag (replicate 32 7)))"
proof (rule run_grant_claim)
  fix c d'
  assume c: "claimDuePublication lenient_services (\<lambda>_. False) (lit ''t'') 30000 1 (\<lambda>_. 1000) issued_db = (Inr (Some c), d')"
    "sg_payload (gc_grant c) = grant_1" "sg_representation (gc_grant c) = signed_grant grant_1" "sg_digest (gc_grant c) = replicate 32 7"
  have "\<exists>rq url conditions. rq = grant_request url c conditions
    \<and> check_conditions (sg_payload (gc_grant c)) \<lparr>ifMatch = ar_header (on_the_wire rq) ''if-match'', ifNoneMatch = ar_header (on_the_wire rq) ''if-none-match''\<rparr> = Inr ()
    \<and> (\<forall>x. fst (process_grant bob_server (\<lambda>_. 0) (\<lambda>_. grantee_db) (on_the_wire rq) (grant_id (sg_payload (gc_grant c))) grantee_db) = Inr x \<longrightarrow>
        push_grant alice_publisher c = Inr (Acknowledge (grr_status x) (expectedEtag c)))"
    by (rule received_is_acknowledged [where holder = party_document and endpoint = sender_base and dp = issued_db and locked = "\<lambda>_. False"
          and token = "lit ''t''" and ms = 30000 and now = 1 and clk = "\<lambda>_. 1000" and dp' = d' and t = 0 and g = idle_gate and s = 20])
      (use c gate_open wire_carries sender_canonical example_urls.url_parser_axioms reference.cbor_library_axioms in
        \<open>simp_all add: grant_codec_def party_document_def POC_PROTECTED_SCHEDULE_def\<close>)
  then obtain url conditions where e: "check_conditions grant_1 conditions = Inr ()"
      "\<forall>x. fst (process_grant bob_server (\<lambda>_. 0) (\<lambda>_. grantee_db) (on_the_wire (grant_request url c conditions)) message_1 grantee_db) = Inr x \<longrightarrow>
        push_grant alice_publisher c = Inr (Acknowledge (grr_status x) (expectedEtag c))"
    unfolding c(2) by (auto simp: conditions_arrive [OF wire_carries])
  have "conditions = \<lparr>ifMatch = None, ifNoneMatch = Some (lit ''*'')\<rparr>"
    using e(1) by (cases conditions) (auto simp: check_conditions_def)
  with run_process [OF _ c(3)] e(2) have "push_grant alice_publisher c = Inr (Acknowledge 201 (expectedEtag c))"
    by (simp add: newly_stored_def)
  with c show ?thesis by (auto simp: expectedEtag_def)
qed

lemma run_push:
  assumes "sg_payload (gc_grant c) = grant_1" and "sg_representation (gc_grant c) = signed_grant grant_1"
    and "sg_digest (gc_grant c) = replicate 32 7"
  shows "push_grant alice_publisher c = Inr (Acknowledge 201 (entity_tag (replicate 32 7)))"
proof -
  have u: "UUID_V7_PATTERN message_1" using grant_signable(1) by (simp add: signable_grant_def wf_grant_def)
  obtain v where v: "net_url (example_network []) (grant_url party_document c) = Some v" "validateUrl (example_network []) v = Inr ()"
      "wu_href v = sender_base @ lit ''/grants/'' @ message_1"
    using url_parser.base_url [OF example_urls.url_parser_axioms sender_canonical grants_path [OF u]] assms(1)
    by (auto simp: grant_url_def party_document_def)
  define rq where "rq = grant_request v c \<lparr>ifMatch = None, ifNoneMatch = Some (lit ''*'')\<rparr>"
  have "fst (grant_route bob_server (\<lambda>_. 0) (\<lambda>_. grantee_db) 0 (on_the_wire rq) message_1 idle_gate grantee_db)
      = grant_response sender_base message_1 (Inr (newly_stored grant_1 (replicate 32 7)))"
    using route_open [OF wire_carries [of rq, unfolded rq_def], of bob_server 0 idle_gate 20] gate_open run_process [OF rq_def assms(2)]
    by (simp add: rq_def POC_PROTECTED_SCHEDULE_def)
  moreover have "conditionHeaders c = Inr \<lparr>ifMatch = None, ifNoneMatch = Some (lit ''*'')\<rparr>"
    by (simp add: conditionHeaders_def assms)
  moreover have "decide_response dp c (sender_base @ lit ''/grants/'' @ message_1) now
      (grant_response sender_base message_1 (Inr (newly_stored grant_1 (replicate 32 7))))
    = Inr (Acknowledge (grr_status (newly_stored grant_1 (replicate 32 7))) (expectedEtag c))" for dp now
    by (rule decide_received [where p = grant_1])
      (use assms location_text [OF example_urls.url_parser_axioms sender_canonical u] in simp_all)
  ultimately show ?thesis using v
    by (simp add: push_grant_def rq_def assms newly_stored_def expectedEtag_def)
qed

theorem acknowledged_is_stored_witness:
  "\<exists>d' e. publishGrant alice_publisher issued_db = (Inr GrantAcknowledged, d')
    \<and> stored_at e message_1 1 (signed_grant grant_1)"
proof (rule run_grant_claim)
  fix c d1
  assume c: "claimDuePublication lenient_services (\<lambda>_. False) (lit ''t'') 30000 1 (\<lambda>_. 1000) issued_db = (Inr (Some c), d1)"
    "sg_payload (gc_grant c) = grant_1" "sg_representation (gc_grant c) = signed_grant grant_1" "sg_digest (gc_grant c) = replicate 32 7" "gc_lease c = lit ''t''"
    "grant_publications d1 = [((message_1, 1), (new_grant_publication 0 (lit ''s''))\<lparr>gp_lease := Some (lit ''t''),
       gp_lease_expires_at := Some 30001000, gp_attempts := 1, gp_updated_at := 1000\<rparr>)]"
  have "\<exists>d'. acknowledgePublication (gs_functions lenient_services) (\<lambda>_. 1000) (claim_result c (Some 201) None) (entity_tag (replicate 32 7)) d1 = Inr ((), d')"
    by (simp add: acknowledgePublication_def finishPublication_def claim_result_def c owns_publication_def open_publication_def
        new_grant_publication_def lenient_services_def perform_def open_functions_def Let_def)
  then obtain d' where "publishGrant alice_publisher issued_db = (Inr GrantAcknowledged, d')"
    using c run_push [OF c(2-4)] by (auto simp: publishGrant_def settle_decision_def Let_def)
  moreover from acknowledged_is_stored [OF this alice_fields(5) wire_carries] obtain n r e where
      "revisions issued_db (message_1, n) = Some r" "stored_at e message_1 n (rev_cose r)" by auto
  ultimately show ?thesis by (auto simp: issued_db_def revision_of_def Let_def split: if_splits)
qed

end
