(* ===== verification/GrantServiceProperties.thy ===== *)
theory GrantServiceProperties
  imports GrantService GrantHistory GrantExchangeExample
begin

text \<open>
  What the operations of the grant service guarantee: whatever they return is stored, their only effect is one
  permitted step of the store, a revocation is effective, and what the service proposes it accepts once signed.
\<close>

declare split_paired_All [simp del] split_paired_Ex [simp del] Status.decimal.simps [simp del]

section \<open>Every operation is one step of the store\<close>

text \<open>A revision that the service read in a state is stored there.\<close>

definition holds_revision :: "db \<Rightarrow> SignedGrantRevision \<Rightarrow> bool" where
  "holds_revision d g \<longleftrightarrow> stored_at d (grant_id (sg_payload g)) (grant_revision (sg_payload g)) (sg_representation g)"

lemma row_held:
  assumes "grantFromRow c gid n l r = Inr g" and "revisions d (gid, n) = Some r"
  shows "holds_revision d g \<and> grant_id (sg_payload g) = gid \<and> grant_revision (sg_payload g) = n"
  using grantFromRow_Inr [OF assms(1)] assms(2) by (auto simp: row_matches_def holds_revision_def stored_at_def)

lemma findCurrent_held:
  assumes "findCurrentByGrantId c d gid = Inr (Some g)"
  obtains l r where "lineages d gid = Some l" "revisions d (gid, lin_revision l) = Some r" "grantFromRow c gid (lin_revision l) l r = Inr g"
    "holds_revision d g" "grant_id (sg_payload g) = gid" "grant_revision (sg_payload g) = lin_revision l"
proof -
  from assms obtain l r where "lineages d gid = Some l" "revisions d (gid, lin_revision l) = Some r"
      "grantFromRow c gid (lin_revision l) l r = Inr g"
    by (auto simp: findCurrentByGrantId_def current_row_def joined_def split: option.splits)
  with row_held [of c gid "lin_revision l" l r g d] that show thesis by blast
qed

lemma findRevision_held:
  assumes "findRevisionByGrantId c d gid n = Inr (Some g)"
  shows "holds_revision d g"
proof -
  from assms obtain l r where "revisions d (gid, n) = Some r" "grantFromRow c gid n l r = Inr g"
    by (auto simp: findRevisionByGrantId_def joined_def split: option.splits)
  with row_held [of c gid n l r g d] show ?thesis by blast
qed

lemma findActive_held:
  assumes "findActiveAuthoritativeByDidPair c d a b = Inr (Some g)"
  shows "holds_revision d g"
  using assms by (auto simp: findActiveAuthoritativeByDidPair_def split: option.splits elim: findCurrent_held)

text \<open>
  The effect of an operation that returns \<open>g\<close>: none, and \<open>g\<close> was read in one of the states the service looked at, or
  one transaction of the store, which starts or continues the history of the grant with \<open>g\<close>.
\<close>

definition committed :: "codec \<Rightarrow> (nat \<Rightarrow> db) \<Rightarrow> db \<Rightarrow> SignedGrantRevision \<Rightarrow> db \<Rightarrow> bool" where
  "committed c seen d g d' \<longleftrightarrow> d' = d \<and> (\<exists>i. holds_revision (seen i) g)
     \<or> grant_step c d d' \<and> holds_revision d' g \<and> (\<exists>h t. sg_payload h = sg_payload g \<and> sg_representation h = sg_representation g
         \<and> (begins c h t d d' \<or> (\<exists>l r. continues c h t l r d d')))"

lemma committed_read: "holds_revision (seen i) g \<Longrightarrow> committed c seen d g d"
  by (auto simp: committed_def)

lemma as_stored_sel [simp]: "sg_payload (as_stored h n) = sg_payload h" "sg_representation (as_stored h n) = sg_representation h"
  "sg_account (as_stored h n) = sg_account h" "sg_role (as_stored h n) = sg_role h" "sg_digest (as_stored h n) = sg_digest h"
  by (simp_all add: as_stored_def SignedGrantRevisionInput.extend_def)

lemma new_revision_held:
  assumes "begins c h t d d' \<or> (\<exists>l r. continues c h t l r d d')"
  shows "holds_revision d' (as_stored h n)"
  using assms by (auto simp: holds_revision_def stored_at_def begins_def continues_def revision_key_def)

lemma committed_issue:
  assumes "insertAuthoritativeRevision1 sv clk h e destination d = Inr (u, d')" and "gs_codec sv = c"
  shows "committed c seen d (as_stored h n) d'"
proof -
  have "begins c h (clk 0) d d'" using issue_effect [OF assms(1)] assms(2) by simp
  moreover have "grant_step c d d'" by (rule grant_issue [OF assms(2,1)])
  ultimately show ?thesis using new_revision_held unfolding committed_def by (metis as_stored_sel(1,2))
qed

lemma committed_update:
  assumes "appendAuthoritativeUpdate sv clk input d = Inr (u, d')" and "gs_codec sv = c"
  shows "committed c seen d (as_stored (up_revision input) n) d'"
proof -
  have "\<exists>l r. continues c (up_revision input) (clk 0) l r d d'" using update_effect [OF assms(1)] assms(2) by blast
  moreover have "grant_step c d d'" by (rule grant_update [OF assms(2,1)])
  ultimately show ?thesis using new_revision_held unfolding committed_def by (metis as_stored_sel(1,2))
qed

lemma revocation_update:
  "appendAuthoritativeRevocation sv clk input d = Inr x \<Longrightarrow> appendAuthoritativeUpdate sv clk input d = Inr x
     \<and> grant_status_of (sg_payload (up_revision input)) = Revoked"
  by (simp add: appendAuthoritativeRevocation_def split: if_splits)

text \<open>The rules by which a property of all successful results follows the structure of an operation.\<close>

definition returns :: "('a \<Rightarrow> bool) \<Rightarrow> 'a served \<Rightarrow> bool" where
  "returns Q r \<longleftrightarrow> (\<forall>x. r = Inr x \<longrightarrow> Q x)"

named_theorems returns_intro

lemma returns_Inl [returns_intro]: "returns Q (Inl e)"
  by (simp add: returns_def)

lemma returns_Inr: "Q x \<Longrightarrow> returns Q (Inr x)"
  by (simp add: returns_def)

lemma returns_and_then [returns_intro]: "(\<And>x. m = Inr x \<Longrightarrow> returns Q (f x)) \<Longrightarrow> returns Q (and_then m f)"
  by (auto simp: returns_def)

lemma returns_if [returns_intro]: "(b \<Longrightarrow> returns Q r) \<Longrightarrow> (\<not> b \<Longrightarrow> returns Q r') \<Longrightarrow> returns Q (if b then r else r')"
  by simp

lemma returns_option [returns_intro]:
  "(x = None \<Longrightarrow> returns Q r) \<Longrightarrow> (\<And>y. x = Some y \<Longrightarrow> returns Q (f y)) \<Longrightarrow> returns Q (case x of None \<Rightarrow> r | Some y \<Rightarrow> f y)"
  by (simp split: option.split)

lemma returns_sum [returns_intro]:
  "(\<And>y. x = Inl y \<Longrightarrow> returns Q (f y)) \<Longrightarrow> (\<And>y. x = Inr y \<Longrightarrow> returns Q (h y)) \<Longrightarrow> returns Q (case x of Inl y \<Rightarrow> f y | Inr y \<Rightarrow> h y)"
  by (simp split: sum.split)

lemma returns_pair [returns_intro]: "(\<And>a b. x = (a, b) \<Longrightarrow> returns Q (f a b)) \<Longrightarrow> returns Q (case x of (a, b) \<Rightarrow> f a b)"
  by (cases x) simp

lemma find_own:
  assumes "find P (case x of None \<Rightarrow> [] | Some r \<Rightarrow> [r]) = Some y"
  shows "x = Some y"
  using assms by (auto split: option.splits if_splits)

abbreviation commits :: "grant_service \<Rightarrow> (nat \<Rightarrow> db) \<Rightarrow> db \<Rightarrow> (SignedGrantRevision \<times> db) served \<Rightarrow> bool" where
  "commits sv seen d \<equiv> returns (\<lambda>(g, d'). committed (gs_codec (gx_services sv)) seen d g d')"

lemma commits_read: "holds_revision (seen i) g \<Longrightarrow> commits sv seen d (Inr (g, d))"
  by (auto simp: returns_def intro: committed_read)

lemma commits_current:
  "findCurrentByGrantId c (seen i) gid = Inr (Some g) \<Longrightarrow> commits sv seen d (Inr (g, d))"
  by (auto elim: findCurrent_held intro: commits_read)

lemma commits_found:
  "findRevisionByGrantId c (seen i) gid n = Inr (Some g) \<Longrightarrow> commits sv seen d (Inr (g, d))"
  "findActiveAuthoritativeByDidPair c (seen i) a b = Inr (Some g) \<Longrightarrow> commits sv seen d (Inr (g, d))"
  using findRevision_held findActive_held commits_read by blast+

lemma commits_issue:
  "insertAuthoritativeRevision1 (gx_services sv) clk h e destination d = Inr (u, d') \<Longrightarrow> commits sv seen d (Inr (as_stored h n, d'))"
  using committed_issue by (auto simp: returns_def)

lemma commits_update:
  "appendAuthoritativeUpdate (gx_services sv) clk input d = Inr (u, d') \<Longrightarrow> up_revision input = h \<Longrightarrow>
     commits sv seen d (Inr (as_stored h n, d'))"
  "appendAuthoritativeRevocation (gx_services sv) clk input d = Inr (u, d') \<Longrightarrow> up_revision input = h \<Longrightarrow>
     commits sv seen d (Inr (as_stored h n, d'))"
  using committed_update [of "gx_services sv" clk input d u d'] revocation_update by (auto simp: returns_def)

lemmas commits_done = commits_current commits_found commits_issue commits_update

lemma accept_revocation_commits: "commits sv seen d (accept_revocation sv seen clk h input d)"
  unfolding accept_revocation_def Let_def served_Inr
  by (intro returns_intro) (auto intro: commits_done)

lemma accept_update_commits: "commits sv seen d (accept_update sv seen clk h retained input now d)"
  unfolding accept_update_def Let_def
  by (intro returns_intro) (auto intro: commits_done)

lemma accept_initial_commits: "commits sv seen d (accept_initial sv seen clk h retained input now d)"
  unfolding accept_initial_def Let_def
  by (intro returns_intro) (auto intro: commits_done)

lemma accept_signed_commits: "commits sv seen d (accept_signed sv seen clk h input d)"
  unfolding accept_signed_def Let_def
  by (intro returns_intro accept_revocation_commits accept_update_commits accept_initial_commits)
    (auto dest!: find_own intro: commits_done)

lemma accept_commits: "commits sv seen d (acceptUserSignedGrant sv seen clk grantorInput granteeInput cose d)"
  unfolding acceptUserSignedGrant_def Let_def
  by (intro returns_intro accept_signed_commits)

lemma create_commits: "commits sv seen d (createOrReuse sv seen clk grantorInput granteeInput input d)"
  unfolding createOrReuse_def Let_def
  by (intro returns_intro) (auto intro: commits_done)

lemma update_commits: "commits sv seen' d (updateManaged sv seen seen' clk addressInput p key d)"
  unfolding updateManaged_def
  by (intro returns_intro accept_commits)

lemma revoke_commits: "commits sv seen d (revoke sv seen clk grantorInput gid reviewed d)"
  unfolding revoke_def Let_def
  by (intro returns_intro) (auto intro: commits_done)

text \<open>What a revocation does: the grant is revoked already, or the store appends the revocation.\<close>

lemma revoke_cases:
  assumes "revoke sv seen clk grantorInput gid reviewed d = Inr (g, d')"
  obtains (was_revoked) "findCurrentByGrantId (gs_codec (gx_services sv)) (seen 1) gid = Inr (Some g)" "d' = d"
      "grant_status_of (sg_payload g) = Revoked"
    | (now_revoked) input current where "appendAuthoritativeRevocation (gx_services sv) clk input d = Inr ((), d')"
      "g = as_stored (up_revision input) (gx_now sv 3)" "findCurrentByGrantId (gs_codec (gx_services sv)) (seen 1) gid = Inr (Some current)"
      "\<exists>digest t. sg_payload g = revoked_payload (sg_payload current) digest t"
proof -
  from assms obtain current where c: "findCurrentByGrantId (gs_codec (gx_services sv)) (seen 1) gid = Inr (Some current)"
    by (auto simp: revoke_def Let_def split: option.splits)
  have payload: "signGrant sv account did key p evidence t = Inr h \<Longrightarrow> sg_payload h = p" for account did key p evidence t h
    by (auto simp: signGrant_def Let_def)
  show thesis
  proof (cases "grant_status_of (sg_payload current)")
    case Revoked
    with assms c was_revoked show thesis by (auto simp: revoke_def Let_def split: if_splits)
  next
    case Active
    with assms c obtain h account did key evidence digest t where "appendAuthoritativeRevocation (gx_services sv) clk \<lparr>up_revision = h,
        up_expectedRevision = grant_revision (sg_payload current), up_expectedDigest = sg_digest current,
        up_consent = None, up_destination = None\<rparr> d = Inr ((), d')" "g = as_stored h (gx_now sv 3)"
        "signGrant sv account did key (revoked_payload (sg_payload current) digest t) evidence (gx_now sv 2) = Inr h"
      by (auto simp: revoke_def Let_def split: if_splits)
    with now_revoked c payload show thesis by fastforce
  qed
qed

section \<open>The histories of grants\<close>

lemma grant_log_committed:
  assumes "grants_inv c d" and "grants_inv c d'" and "begins c h t d d' \<or> continues c h t l r d d'"
  shows "grant_log d' gid = (if gid = grant_id (sg_payload h) then grant_log d gid @ [revision_of t h] else grant_log d gid)"
proof (cases "gid = grant_id (sg_payload h)")
  case False
  with assms(3) have "grant_log d' gid = grant_log d gid"
    by (intro grant_log_cong) (auto simp: begins_def continues_def revision_key_def)
  with False show ?thesis by simp
next
  case True
  from assms(3) show ?thesis
  proof
    assume "begins c h t d d'"
    with True show ?thesis by (simp add: begins_def grant_log_def revision_key_def List.map_filter_def)
  next
    assume k: "continues c h t l r d d'"
    let ?l = "l\<lparr>lin_revision := grant_revision (sg_payload h), lin_digest := sg_digest h, lin_status := grant_status_of (sg_payload h)\<rparr>"
    have l: "lineages d gid = Some l" "lineages d' gid = Some ?l" "grant_revision (sg_payload h) = lin_revision l + 1"
        "revisions d' (gid, lin_revision ?l) = Some (revision_of t h)"
      using k True by (simp_all add: continues_def succeeds_row_def revision_key_def)
    have c: "chained c (revisions d) gid l" "chained c (revisions d') gid ?l"
      using assms(1,2) lineages_invD(1) l(1,2) by (simp_all add: grants_inv_def)
    have n: "1 \<le> lin_revision l" using c(1) by (simp add: chained_def)
    have "last (grant_log d' gid) = revision_of t h" using grant_log_last(2) [OF c(2) l(2)] l(4) by simp
    moreover have "length (grant_log d' gid) = Suc (length (grant_log d gid))"
      using grant_log_nth(1) [OF c(1) l(1)] grant_log_nth(1) [OF c(2) l(2)] l(3) n by simp
    moreover have "log_step (grant_log d gid) (grant_log d' gid)"
      using grant_log_continues [OF k] assms(1) by (simp add: grants_inv_def)
    ultimately show ?thesis using True by (auto elim!: log_step.cases)
  qed
qed

inductive grant_operation :: "grant_service \<Rightarrow> (nat \<Rightarrow> db) \<Rightarrow> db \<Rightarrow> SignedGrantRevision \<Rightarrow> db \<Rightarrow> bool" for sv seen d g d' where
  creates: "createOrReuse sv seen clk a b input d = Inr (g, d') \<Longrightarrow> grant_operation sv seen d g d'"
| accepts: "acceptUserSignedGrant sv seen clk a b cose d = Inr (g, d') \<Longrightarrow> grant_operation sv seen d g d'"
| changes: "updateManaged sv seen' seen clk a p key d = Inr (g, d') \<Longrightarrow> grant_operation sv seen d g d'"
| revokes: "revoke sv seen clk a gid reviewed d = Inr (g, d') \<Longrightarrow> grant_operation sv seen d g d'"

lemma operation_commits: "grant_operation sv seen d g d' \<Longrightarrow> committed (gs_codec (gx_services sv)) seen d g d'"
  by (induction rule: grant_operation.induct)
    (use accept_commits create_commits update_commits revoke_commits in \<open>fastforce simp: returns_def\<close>)+

text \<open>
  C22. What the grant service returns is in the history: every successful operation of an account holder, whether it
  creates, accepts, changes or revokes a permission, either changes nothing and returns a revision that
  was stored when the service looked it up, or appends exactly the returned signed representation to the history of its
  grant and leaves every other history as it is; the state stays reachable, so all invariants of the store hold.
\<close>

theorem operation_appends:
  assumes "grants_reachable (gs_codec (gx_services sv)) d" and "grant_operation sv seen d g d'"
  shows "grants_reachable (gs_codec (gx_services sv)) d' \<and>
    (d' = d \<and> (\<exists>i. stored_at (seen i) (grant_id (sg_payload g)) (grant_revision (sg_payload g)) (sg_representation g))
     \<or> (\<exists>r. rev_cose r = sg_representation g \<and> (\<forall>gid. grant_log d' gid =
          (if gid = grant_id (sg_payload g) then grant_log d gid @ [r] else grant_log d gid))))"
  using operation_commits [OF assms(2)] unfolding committed_def
proof (elim disjE conjE exE)
  fix i assume "d' = d" "holds_revision (seen i) g"
  with assms(1) show ?thesis by (auto simp: holds_revision_def)
next
  fix h t
  assume step: "grant_step (gs_codec (gx_services sv)) d d'" and h: "sg_payload h = sg_payload g" "sg_representation h = sg_representation g"
    and b: "begins (gs_codec (gx_services sv)) h t d d'"
  have r: "grants_reachable (gs_codec (gx_services sv)) d'"
    using assms(1) step unfolding grants_reachable_def by (rule rtranclp.rtrancl_into_rtrancl)
  from grant_log_committed [OF grants_inv_reachable [OF assms(1)] grants_inv_reachable [OF r] disjI1 [OF b]] r h
  show ?thesis by (intro conjI disjI2 exI [of _ "revision_of t h"]) simp_all
next
  fix h t l r
  assume step: "grant_step (gs_codec (gx_services sv)) d d'" and h: "sg_payload h = sg_payload g" "sg_representation h = sg_representation g"
    and b: "continues (gs_codec (gx_services sv)) h t l r d d'"
  have r: "grants_reachable (gs_codec (gx_services sv)) d'"
    using assms(1) step unfolding grants_reachable_def by (rule rtranclp.rtrancl_into_rtrancl)
  from grant_log_committed [OF grants_inv_reachable [OF assms(1)] grants_inv_reachable [OF r] disjI2 [OF b]] r h
  show ?thesis by (intro conjI disjI2 exI [of _ "revision_of t h"]) simp_all
qed

section \<open>Revocation\<close>

lemma revoked_lineage:
  assumes "revoke sv seen clk grantorInput gid reviewed d = Inr (g, d')" and "codec = gs_codec (gx_services sv)"
    and "grants_reachable codec (seen 1)" and "(grant_step codec)\<^sup>*\<^sup>* (seen 1) d"
  obtains l where "grants_reachable codec d'" "lineages d' gid = Some l" "lin_status l = Revoked" "grant_status_of (sg_payload g) = Revoked"
  using assms(1)
proof (cases rule: revoke_cases)
  case was_revoked
  from was_revoked(1) obtain l r where l: "lineages (seen 1) gid = Some l" "revisions (seen 1) (gid, lin_revision l) = Some r"
      "grantFromRow codec gid (lin_revision l) l r = Inr g"
    unfolding assms(2) by (rule findCurrent_held)
  then have "chained codec (revisions (seen 1)) gid l"
    using lineages_invD(1) grants_inv_reachable [OF assms(3)] by (simp add: grants_inv_def)
  with l grantFromRow_Inr [OF l(3)] was_revoked(3) have "lin_status l = Revoked" by (auto simp: chained_def row_matches_def)
  from revoked_forever [OF assms(4,3) l(1) this] obtain l' where "lineages d' gid = Some l'" "lin_status l' = Revoked"
    using was_revoked(2) by blast
  moreover have "grants_reachable codec d'"
    using assms(3,4) was_revoked(2) unfolding grants_reachable_def by (metis rtranclp_trans)
  ultimately show thesis using that was_revoked(3) by blast
next
  case (now_revoked input current)
  note u = revocation_update [OF now_revoked(1)]
  have gid: "grant_id (sg_payload (up_revision input)) = gid"
    using now_revoked(2,3,4) by (auto simp: revoked_payload_def elim: findCurrent_held)
  obtain l r where "continues codec (up_revision input) (clk 0) l r d d'"
    using update_effect u unfolding assms(2) by blast
  with gid u have "\<exists>l. lineages d' gid = Some l \<and> lin_status l = Revoked" by (auto simp: continues_def)
  moreover have "grant_step codec d d'" by (rule grant_update) (use u assms(2) in auto)
  then have "grants_reachable codec d'"
    using assms(3,4) unfolding grants_reachable_def by (meson rtranclp_trans rtranclp.rtrancl_into_rtrancl)
  ultimately show thesis using that now_revoked(2) u by auto
qed

text \<open>
  C23. Revoking works: if the service reports a grant as revoked, then in every later state of the store its
  history ends with the revocation and no new envelope is accepted on its strength,
  whatever else the provider does, whether the revocation was made now or earlier.
\<close>

theorem revoke_is_effective:
  assumes "revoke sv seen clk grantorInput gid reviewed d = Inr (g, d')" and "codec = gs_codec (gx_services sv)"
    and "grants_reachable codec (seen 1)" and "(grant_step codec)\<^sup>*\<^sup>* (seen 1) d" and "(grant_step codec)\<^sup>*\<^sup>* d' d''"
  shows "grant_status_of (sg_payload g) = Revoked \<and> grant_log d'' gid \<noteq> [] \<and> rev_status (last (grant_log d'' gid)) = Revoked
    \<and> acceptGrant asv fx limits clk' input gid d'' \<noteq> Inr (OutcomeAccepted, d3)"
proof -
  obtain l where l: "grants_reachable codec d'" "lineages d' gid = Some l" "lin_status l = Revoked" "grant_status_of (sg_payload g) = Revoked"
    using revoked_lineage [OF assms(1-4)] by blast
  obtain l' where l': "lineages d'' gid = Some l'" "lin_status l' = Revoked"
    using revoked_forever [OF assms(5) l(1-3)] by blast
  have "grants_reachable codec d''" using l(1) assms(5) unfolding grants_reachable_def by (rule rtranclp_trans)
  then have c: "chained codec (revisions d'') gid l'"
    using lineages_invD(1) [OF _ l'(1)] grants_inv_reachable by (simp add: grants_inv_def)
  show ?thesis using grant_log_last(1,4) [OF c l'(1)] l(4) l'(2) revoked_grant_refuses [OF l'] by auto
qed

end
