(* ===== verification/GrantProposals.thy ===== *)
theory GrantProposals
  imports GrantServiceProperties
begin

text \<open>
  Holders who keep their own keys: what the service proposes to them, it accepts when they return it signed. Both
  for the first revision of a grant and for its updates, the checks on acceptance refuse nothing that the
  preparation allowed, as long as the state that was reviewed is current; the identifiers are valid.
\<close>

declare split_paired_All [simp del] split_paired_Ex [simp del] Status.decimal.simps [simp del]

section \<open>Identifiers\<close>

lemma small_byte: "(b :: 8 word) < 16 \<Longrightarrow> b \<in> of_nat ` {0..<16}"
  by (rule image_eqI [of _ _ "unat b"]) (simp_all add: word_less_nat_alt)

lemma hex_digits: "list_all (\<lambda>n. is_hex (hex_digit (of_nat n))) [0..<16]"
  by code_simp

lemma hex_digit_hex: "b < 16 \<Longrightarrow> is_hex (hex_digit b)"
  using small_byte hex_digits by (fastforce simp: list_all_iff)

lemma nibbles: "(b :: 8 word) div 16 < 16" "b mod 16 < 16"
  by (simp_all add: word_less_nat_alt unat_div unat_mod) (use unsigned_less [of b, where ?'a = nat] in simp)

lemma hex_nibbles [simp]: "is_hex (hex_digit (b div 16))" "is_hex (hex_digit (b mod 16))"
  using hex_digit_hex nibbles by auto

lemma version_bits: "list_all (\<lambda>n. ((of_nat n :: 8 word) OR 0x70) div 16 = 7) [0..<16]"
  "list_all (\<lambda>n. one_of ''89ab'' (hex_digit (((of_nat n :: 8 word) OR 0x80) div 16))) [0..<64]"
  by code_simp+

lemma low_bits:
  "\<exists>n < 2 ^ k. take_bit k (b :: 8 word) = of_nat n"
proof (intro exI conjI)
  show "take_bit k (unat b) < 2 ^ k" by (rule take_bit_nat_less_exp)
  show "take_bit k b = of_nat (take_bit k (unat b))" by (simp add: unsigned_take_bit_eq [symmetric])
qed

lemma version_nibble [simp]: "((b :: 8 word) AND 0x0F OR 0x70) div 16 = 7"
proof -
  have "b AND 0x0F = take_bit 4 b" by (simp add: take_bit_eq_mask mask_eq_exp_minus_1)
  with low_bits [of 4 b] version_bits(1) show ?thesis by (auto simp: list_all_iff)
qed

lemma variant_nibble [simp]: "one_of ''89ab'' (hex_digit (((b :: 8 word) AND 0x3F OR 0x80) div 16))"
proof -
  have "b AND 0x3F = take_bit 6 b" by (simp add: take_bit_eq_mask mask_eq_exp_minus_1)
  with low_bits [of 6 b] version_bits(2) show ?thesis by (auto simp: list_all_iff)
qed

lemma list_of_16: "length xs = 16 \<Longrightarrow> \<exists>a b c d e f g h i j k l m n p q. xs = [a, b, c, d, e, f, g, h, i, j, k, l, m, n, p, q]"
  by (auto simp: length_Suc_conv eval_nat_numeral)

lemma uuidV7_pattern:
  assumes "uuidV7 now random = Inr u" and "length random = 16"
  shows "UUID_V7_PATTERN u"
proof -
  obtain a b c d e f g h i j k l m n p q where r: "random = [a, b, c, d, e, f, g, h, i, j, k, l, m, n, p, q]"
    using list_of_16 [OF assms(2)] by blast
  obtain t0 t1 t2 t3 t4 t5 where t: "timestamp_bytes (nat now) = [t0, t1, t2, t3, t4, t5]"
    by (simp add: timestamp_bytes_def upt_rec)
  have "hex_digit 7 = of_char CHR ''7''" by code_simp
  moreover have "drop 6 random = [g, h, i, j, k, l, m, n, p, q]" by (simp add: r eval_nat_numeral)
  ultimately show ?thesis using assms(1) t
    by (auto simp: uuidV7_def uuid_bytes_def hex_text_def UUID_V7_PATTERN_def Let_def lit_def eval_nat_numeral split: if_splits)
qed

section \<open>A holder's signature\<close>

text \<open>The holder's signer uses the identity key that the holder's DID document names.\<close>

definition held_key :: "grant_service \<Rightarrow> jstring \<Rightarrow> HailDidDocument \<Rightarrow> HailSigner \<Rightarrow> bool" where
  "held_key sv did holder signer \<longleftrightarrow> (\<exists>privateKey publicKey. web_crypto (subtle (gx_crypto sv))
     (\<lambda>k. if k \<noteq> identity_key_id did then throw InvalidSignature else ed25519PublicKeyFromDidKey (gx_crypto sv) (identityDidKey holder))
     (identity_key_id did) privateKey publicKey signer)"

definition signed_by_holder :: "grant_service \<Rightarrow> jstring \<Rightarrow> HailDidDocument \<Rightarrow> HailGrant \<Rightarrow> bytes \<Rightarrow> bool" where
  "signed_by_holder sv did holder p cose \<longleftrightarrow> (\<exists>signer. held_key sv did holder signer
     \<and> signPayload (codec_lib (gs_codec (gx_services sv))) (codec_env (gs_codec (gx_services sv))) Grant (of_hail (grant_object p)) signer = Inr cose)"

definition held_revision :: "grant_service \<Rightarrow> jstring \<Rightarrow> HailDidDocument \<Rightarrow> HailGrant \<Rightarrow> bytes \<Rightarrow> SignedGrantRevisionInput" where
  "held_revision sv account holder p cose = \<lparr>sg_account = account, sg_role = Grantor, sg_payload = p, sg_representation = cose,
     sg_digest = sha256 (codec_env (gs_codec (gx_services sv))) cose, sg_signing_key = identityDidKey holder,
     sg_evidence = document_evidence holder, sg_expectedServiceBase = Some (gx_serviceBase sv),
     sg_recipientEvidence = None, sg_recipientServiceBase = None\<rparr>"

lemma held_revision_sel [simp]:
  "sg_account (held_revision sv account holder p cose) = account" "sg_role (held_revision sv account holder p cose) = Grantor"
  "sg_payload (held_revision sv account holder p cose) = p" "sg_representation (held_revision sv account holder p cose) = cose"
  "sg_signing_key (held_revision sv account holder p cose) = identityDidKey holder"
  by (simp_all add: held_revision_def)

definition active_holder :: "grant_service \<Rightarrow> db \<Rightarrow> jstring \<Rightarrow> jstring \<Rightarrow> jstring \<Rightarrow> bool" where
  "active_holder sv d input account did \<longleftrightarrow>
     (\<exists>row. localAccount sv d input = Inr (account, row) \<and> acc_did row = Some did \<and> publicly_active row)"

lemma activeAccount_Inr: "activeAccount sv d input e = Inr (account, did) \<longleftrightarrow> active_holder sv d input account did"
  by (auto simp: activeAccount_def active_holder_def split: option.splits)

lemma holder_signature:
  assumes "cbor_library (codec_lib (gs_codec (gx_services sv)))" and "signed_by_holder sv did holder p cose"
  shows "grantor p = did" "inspectGrant (gs_codec (gx_services sv)) cose = Inr p" "1 \<le> length cose" "length cose \<le> 262144"
    "\<exists>x. verifySignedPayload (codec_lib (gs_codec (gx_services sv))) (codec_env (gs_codec (gx_services sv))) Grant cose
       (identity_verifier (gx_crypto sv) did (identityDidKey holder)) = Inr x"
proof -
  let ?c = "gs_codec (gx_services sv)"
  let ?resolve = "\<lambda>k. if k \<noteq> identity_key_id did then throw InvalidSignature else ed25519PublicKeyFromDidKey (gx_crypto sv) (identityDidKey holder)"
  obtain signer privateKey publicKey where w: "web_crypto (subtle (gx_crypto sv)) ?resolve (identity_key_id did) privateKey publicKey signer"
    and s: "signPayload (codec_lib ?c) (codec_env ?c) Grant (of_hail (grant_object p)) signer = Inr cose"
    using assms(2) by (auto simp: signed_by_holder_def held_key_def)
  have t: "signed_transport (codec_lib ?c) signer (createWebCryptoVerifier ?resolve (subtle (gx_crypto sv)))"
    using assms(1) web_crypto.adapters_belong_together [OF w] by (rule signed_transport.intro)
  show "inspectGrant ?c cose = Inr p" by (rule inspect_signed_grant [OF assms(1) w s])
  obtain prot pay signature where i: "expectedKeyId Grant (grant_object p) = Inr (signer_keyId signer)"
      "cose = enc (sign1_item prot pay signature)" "length cose \<le> 262144" "length signature = 64"
    using s cbor_library.signPayload_iff [OF assms(1) grant_type unique_grant_object SIGNED_PROFILES.simps(3)]
    by (auto simp: Let_def)
  from i(1) have "key_id_of (grantor p) HailIdentity = identity_key_id did"
    by (simp add: expectedKeyId_Inr get_grant_object web_crypto.signer_fields(1) [OF w])
  then show "grantor p = did" by (simp add: key_id_of_def identity_key_id_def)
  show "length cose \<le> 262144" by (rule i(3))
  show "1 \<le> length cose" using length_sign1 [of prot pay signature] i(2,4) by simp
  show "\<exists>x. verifySignedPayload (codec_lib ?c) (codec_env ?c) Grant cose (identity_verifier (gx_crypto sv) did (identityDidKey holder)) = Inr x"
    using signed_transport.verify_of_sign [OF t grant_type unique_grant_object s] unfolding identity_verifier_def by blast
qed

lemma accept_held:
  assumes "cbor_library (codec_lib (gs_codec (gx_services sv)))" and "signed_by_holder sv did holder p cose"
    and "active_holder sv (seen 0) input account did" and "gx_resolve sv did = Inr holder" and "serviceBase holder = gx_serviceBase sv"
  shows "acceptUserSignedGrant sv seen clk input granteeInput cose d
    = accept_signed sv seen clk (held_revision sv account holder p cose) granteeInput d"
proof -
  note h = holder_signature [OF assms(1,2)]
  have "activeAccount sv (seen 0) input e = Inr (account, did)" for e using assms(3) by (simp add: activeAccount_Inr)
  moreover obtain x where "verifySignedPayload (codec_lib (gs_codec (gx_services sv))) (codec_env (gs_codec (gx_services sv))) Grant cose
       (identity_verifier (gx_crypto sv) did (identityDidKey holder)) = Inr x" using h(5) by blast
  ultimately show ?thesis using h(1-4) assms(4,5)
    by (simp add: acceptUserSignedGrant_def Let_def demand_def served_def served_or_def codec_result_def held_revision_def)
qed

section \<open>First revisions\<close>

text \<open>Only the clock moves between the proposal and its acceptance.\<close>

lemma same_service [simp]:
  "canonical (sv\<lparr>gx_now := now\<rparr>) x = canonical sv x" "evidence_for (sv\<lparr>gx_now := now\<rparr>) x = evidence_for sv x"
  "currentConsent (sv\<lparr>gx_now := now\<rparr>) p x b = currentConsent sv p x b" "localAccount (sv\<lparr>gx_now := now\<rparr>) d x = localAccount sv d x"
  "held_revision (sv\<lparr>gx_now := now\<rparr>) account holder p cose = held_revision sv account holder p cose"
  "active_holder (sv\<lparr>gx_now := now\<rparr>) d x account did = active_holder sv d x account did"
  "signed_by_holder (sv\<lparr>gx_now := now\<rparr>) did holder p cose = signed_by_holder sv did holder p cose"
  by (simp_all add: canonical_def evidence_for_def currentConsent_def localAccount_def held_revision_def active_holder_def
      signed_by_holder_def held_key_def cong: if_cong)

lemma normalizeScope_idem: "normalizeScope values = Inr scope \<Longrightarrow> normalizeScope scope = Inr scope"
  by (auto simp: normalizeScope_def list_all_iff sorted_sort_id dest: arg_cong [of _ _ length] split: if_splits)

lemma proposed_first:
  assumes "prepareUserSignedGrant sv seen grantorInput granteeInput input = Inr p"
  obtains account did e scope gid where "active_holder sv (seen 0) grantorInput account did"
    "\<And>holder. gx_resolve sv did = Inr holder \<Longrightarrow> serviceBase holder = gx_serviceBase sv" "evidence_for sv granteeInput = Inr e"
    "evidence_agrees (consent_of_address e) (consent_of_profile e)" "normalizeScope scope = Inr scope"
    "validateScopeAgainstProfile scope (vp_profile (consent_of_profile e)) = Inr ()"
    "uuidV7 (gx_now sv 1) (gx_random sv) = Inr gid" "p = first_payload gid did e scope (def_expiresAt input) (wall_clock sv 0)"
proof -
  from assms obtain account did holder e scope gid where "active_holder sv (seen 0) grantorInput account did"
    "gx_resolve sv did = Inr holder" "serviceBase holder = gx_serviceBase sv" "evidence_for sv granteeInput = Inr e"
    "evidence_agrees (consent_of_address e) (consent_of_profile e)" "normalizeScope (def_scope input) = Inr scope"
    "validateScopeAgainstProfile scope (vp_profile (consent_of_profile e)) = Inr ()"
    "uuidV7 (gx_now sv 1) (gx_random sv) = Inr gid" "p = first_payload gid did e scope (def_expiresAt input) (wall_clock sv 0)"
    by (auto simp: prepareUserSignedGrant_def Let_def activeAccount_Inr split: if_splits)
  with normalizeScope_idem that [of account did e scope gid] show thesis by simp
qed

text \<open>
  C24. A proposal is accepted once it is signed: if the service proposes a first revision, and its holder returns it
  signed with the identity key that the DID document names, then the service refuses nothing: the result is the store's,
  for the proposed payload and the evidence the service verified itself. This holds if nothing relevant changes between
  the proposal and its return: the account is the same, the verifiers of addresses and profiles, the resolution of the
  holder's DID and the rest of the service answer as before, neither the grant nor the revision has become known and no other grant active for
  the pair, the proposal has not expired, and the clock at its return is at most five minutes behind the one of the proposal.
\<close>

theorem first_proposal_is_accepted:
  assumes "cbor_library (codec_lib (gs_codec (gx_services sv)))"
    and "prepareUserSignedGrant sv seen grantorInput granteeInput input = Inr p"
    and "gx_resolve sv (grantor p) = Inr holder" and "signed_by_holder sv (grantor p) holder p cose"
    and "localAccount sv (seen 0) grantorInput = Inr (account, row)" and "localAccount sv (seen' 0) grantorInput = Inr (account, row)"
    and "findCurrentByGrantId (gs_codec (gx_services sv)) (seen' 1) (grant_id p) = Inr None"
    and "findRevisionByGrantId (gs_codec (gx_services sv)) (seen' 2) (grant_id p) 1 = Inr None"
    and "findActiveAuthoritativeByDidPair (gs_codec (gx_services sv)) (seen' 3) (grantor p) (grantee p) = Inr None"
    and "wall_clock sv 0 \<le> now 0 div 1000 + 300" and "\<forall>t. grant_expires_at p = Some t \<longrightarrow> now 0 div 1000 < t"
  shows "\<exists>e. evidence_for sv granteeInput = Inr e \<and>
    acceptUserSignedGrant (sv\<lparr>gx_now := now\<rparr>) seen' clk grantorInput granteeInput cose d
    = and_then (served (insertAuthoritativeRevision1 (gx_services sv) clk (held_revision sv account holder p cose) e
          (va_serviceBase (consent_of_address e)) d))
        (\<lambda>(_, d'). Inr (as_stored (held_revision sv account holder p cose) (now 1), d'))"
proof -
  obtain did e scope gid where p: "acc_did row = Some did" "publicly_active row"
      "\<And>holder. gx_resolve sv did = Inr holder \<Longrightarrow> serviceBase holder = gx_serviceBase sv" "evidence_for sv granteeInput = Inr e"
      "evidence_agrees (consent_of_address e) (consent_of_profile e)" "normalizeScope scope = Inr scope"
      "validateScopeAgainstProfile scope (vp_profile (consent_of_profile e)) = Inr ()"
      "p = first_payload gid did e scope (def_expiresAt input) (wall_clock sv 0)"
    by (rule proposed_first [OF assms(2)]) (use assms(5) in \<open>auto simp: active_holder_def\<close>)
  define g where "g = held_revision sv account holder p cose"
  have f: "grantor p = did" "grantee p = va_did (consent_of_address e)" "grant_revision p = 1" "grant_previous p = None"
      "grant_status_of p = Active" "grant_updated_at p = grant_issued_at p" "grant_issued_at p = wall_clock sv 0" "grant_scope p = scope"
      "names_consent p (consent_of_address e) (consent_of_profile e)"
    by (simp_all add: p(8) first_payload_def names_consent_def)
  have fresh: "\<not> (case grant_expires_at p of None \<Rightarrow> False | Some t \<Rightarrow> t \<le> now 0 div 1000)"
    using assms(11) by (auto split: option.split)
  have "acceptUserSignedGrant (sv\<lparr>gx_now := now\<rparr>) seen' clk grantorInput granteeInput cose d
      = accept_signed (sv\<lparr>gx_now := now\<rparr>) seen' clk g granteeInput d"
    using accept_held [of "sv\<lparr>gx_now := now\<rparr>" did holder p cose seen' grantorInput account] assms(1,3,4,6) p(1-3) f(1)
    by (simp add: active_holder_def g_def)
  also have "\<dots> = accept_initial (sv\<lparr>gx_now := now\<rparr>) seen' clk g None granteeInput (now 0 div 1000) d"
    using assms(7,8,10) f by (simp add: accept_signed_def Let_def g_def wall_clock_def served_def)
  also have "\<dots> = and_then (served (insertAuthoritativeRevision1 (gx_services sv) clk g e (va_serviceBase (consent_of_address e)) d))
      (\<lambda>(_, d'). Inr (as_stored g (now 1), d'))"
    using assms(9) f p(4-7) fresh by (simp add: accept_initial_def Let_def g_def served_def served_or_def)
  finally show ?thesis using p(4) unfolding g_def by blast
qed

section \<open>Updates\<close>

lemma with_consent_sel [simp]:
  "grant_scope (with_consent p e) = grant_scope p" "grant_expires_at (with_consent p e) = grant_expires_at p"
  "grant_status_of (with_consent p e) = grant_status_of p" "grantee (with_consent p e) = grantee p"
  "grantor (with_consent p e) = grantor p" "grant_id (with_consent p e) = grant_id p" "grant_revision (with_consent p e) = grant_revision p"
  "grant_previous (with_consent p e) = grant_previous p" "grant_issued_at (with_consent p e) = grant_issued_at p"
  "grant_updated_at (with_consent p e) = grant_updated_at p"
  "names_consent (with_consent p e) (consent_of_address e) (consent_of_profile e)"
  by (simp_all add: with_consent_def names_consent_def)

lemma next_payload_sel [simp]:
  "grant_scope (next_payload p digest scope expires t) = scope" "grant_expires_at (next_payload p digest scope expires t) = expires"
  "grant_status_of (next_payload p digest scope expires t) = grant_status_of p" "grantee (next_payload p digest scope expires t) = grantee p"
  "grantor (next_payload p digest scope expires t) = grantor p" "grant_id (next_payload p digest scope expires t) = grant_id p"
  "grant_revision (next_payload p digest scope expires t) = grant_revision p + 1"
  "grant_previous (next_payload p digest scope expires t) = Some digest"
  "grant_issued_at (next_payload p digest scope expires t) = grant_issued_at p" "grant_updated_at (next_payload p digest scope expires t) = t"
  "same_consent (next_payload p digest scope expires t) p"
  by (simp_all add: next_payload_def same_consent_def)

lemma with_consent_authorization [simp]:
  "restrictsAuthorization q (with_consent p e) = restrictsAuthorization q p" "expandsAuthorization q (with_consent p e) = expandsAuthorization q p"
  by (simp_all add: restrictsAuthorization_def expandsAuthorization_def cong: option.case_cong)

text \<open>Evidence that is taken into a payload is the evidence that the payload names.\<close>

lemma currentConsent_taken:
  assumes "currentConsent sv p x False = Inr e" and "canonical sv y = canonical sv x"
  shows "currentConsent sv (with_consent p e) y True = Inr e"
proof -
  from assms(1) obtain address a s where "canonical sv x = Inr address" "gx_verifyAddress sv address = Inr a" "gx_verifyProfile sv (va_did a) = Inr s"
      "e = \<lparr>consent_of_address = a, consent_of_profile = s\<rparr>" "va_did a = grantee p" "vp_did s = grantee p" "vp_serviceBase s = va_serviceBase a"
      "vp_messagingDidKey s = va_messagingDidKey a" "validateScopeAgainstProfile (grant_scope p) (vp_profile s) = Inr ()"
    by (auto simp: currentConsent_def split: if_splits)
  then show ?thesis using assms(2) with_consent_sel(11) [of p e]
    by (simp add: currentConsent_def served_def served_or_def)
qed

lemma propose_cases:
  assumes "propose_update sv q p' now input = Inr p"
  obtains (restriction) "p = p'" "restrictsAuthorization q p'"
    | (consent) e where "p = with_consent p' e" "\<not> restrictsAuthorization q p'"
      "currentConsent sv p' (case def_sender input of None \<Rightarrow> consent_address q | Some s \<Rightarrow> s) False = Inr e"
proof -
  have "\<not> (restrictsAuthorization q p' \<and> expandsAuthorization q p')" unfolding restrictsAuthorization_def by blast
  with assms restriction consent show thesis
    by (cases "restrictsAuthorization q p'") (auto simp: propose_update_def Let_def split: if_splits)
qed

text \<open>The validation of the proposal binds the grantor to the holder's account.\<close>

lemma proposal_of_grantor:
  assumes "validatePayload env Grant (of_hail (with_key_id did (grant_object p))) = Inr ()"
  shows "grantor p = did"
proof -
  let ?h = "with_key_id did (grant_object p)"
  obtain kvs where o: "grant_object p = HMap kvs" using grant_object_map by blast
  have "get ?h ''grantor'' = get (grant_object p) ''grantor''" "get ?h ''key_id'' = Some (HText (identity_key_id did))"
    by (simp_all add: o get_HMap update_conv' lit_def)
  moreover have "validate_by_type env Grant ?h = Inr ()"
    by (rule validatePayload_signed [OF assms grant_type])
  then have "get ?h ''key_id'' = Some (HText (key_id_of (text_of (get ?h ''grantor'')) HailIdentity))"
    by (intro key_id_fixed(3)) (simp add: validate_by_type_def)
  ultimately show ?thesis by (simp add: get_grant_object key_id_of_def identity_key_id_def)
qed

lemma proposed_update:
  assumes "prepareUserSignedUpdate sv seen holderInput gid input = Inr p"
  obtains account did current scope t where "active_holder sv (seen 0) holderInput account did"
    "findCurrentByGrantId (gs_codec (gx_services sv)) (seen 1) gid = Inr (Some current)" "same_owner current account"
    "grant_status_of (sg_payload current) = Active" "grantor (sg_payload current) = did"
    "\<And>holder. gx_resolve sv did = Inr holder \<Longrightarrow> serviceBase holder = gx_serviceBase sv \<and> identityDidKey holder = sg_signing_key current"
    "t \<le> wall_clock sv 0 + 300" "grant_updated_at (sg_payload current) < t"
    "propose_update sv (sg_payload current) (next_payload (sg_payload current) (sg_digest current) scope (def_expiresAt input) t)
       (wall_clock sv 0) input = Inr p"
proof -
  from assms obtain did current where r: "reviewed_grant sv seen holderInput gid input = Inr (did, current)"
    by (auto simp: prepareUserSignedUpdate_def Let_def)
  then obtain account where "active_holder sv (seen 0) holderInput account did"
      "findCurrentByGrantId (gs_codec (gx_services sv)) (seen 1) gid = Inr (Some current)" "same_owner current account"
      "grant_status_of (sg_payload current) = Active"
    by (auto simp: reviewed_grant_def Let_def active_holder_def same_owner_def split: option.splits if_splits)
  moreover from assms r obtain holder scope t where "gx_resolve sv did = Inr holder" "serviceBase holder = gx_serviceBase sv"
      "identityDidKey holder = sg_signing_key current" "t = max (wall_clock sv 0) (grant_updated_at (sg_payload current) + 1)"
      "\<not> wall_clock sv 0 + 300 < t"
      "validatePayload (codec_env (gs_codec (gx_services sv))) Grant (of_hail (with_key_id did
         (grant_object (next_payload (sg_payload current) (sg_digest current) scope (def_expiresAt input) t)))) = Inr ()"
      "propose_update sv (sg_payload current) (next_payload (sg_payload current) (sg_digest current) scope (def_expiresAt input) t)
         (wall_clock sv 0) input = Inr p"
    by (auto simp: prepareUserSignedUpdate_def Let_def split: if_splits)
  moreover from this(6) have "grantor (sg_payload current) = did" by (auto dest: proposal_of_grantor)
  ultimately show thesis using that [of account did current t scope] by simp
qed

text \<open>A restriction carries no evidence; any other change carries the evidence that the service verified.\<close>

definition consent_needed :: "grant_service \<Rightarrow> HailGrant \<Rightarrow> HailGrant \<Rightarrow> jstring \<Rightarrow> GrantConsentEvidence option \<Rightarrow> bool" where
  "consent_needed sv q p granteeInput consent \<longleftrightarrow> (if restrictsAuthorization q p then consent = None
     else \<exists>e. consent = Some e \<and> currentConsent sv p granteeInput True = Inr e)"

lemma consent_needed_clock [simp]: "consent_needed (sv\<lparr>gx_now := now\<rparr>) q p x consent = consent_needed sv q p x consent"
  by (simp add: consent_needed_def)

lemma accept_update_checked:
  assumes "\<not> update_conflicts (Some current) g" and "\<not> (restrictsAuthorization (sg_payload current) (sg_payload g)
      \<and> \<not> same_consent (sg_payload g) (sg_payload current))"
    and "\<And>t. expandsAuthorization (sg_payload current) (sg_payload g) \<Longrightarrow> grant_expires_at (sg_payload g) = Some t \<Longrightarrow> now < t"
    and "\<not> restrictsAuthorization (sg_payload current) (sg_payload g) \<Longrightarrow> \<exists>e. currentConsent sv (sg_payload g) granteeInput True = Inr e"
  shows "\<exists>consent. consent_needed sv (sg_payload current) (sg_payload g) granteeInput consent \<and> (\<forall>u d'. appendAuthoritativeUpdate (gx_services sv) clk \<lparr>up_revision = g,
        up_expectedRevision = grant_revision (sg_payload current), up_expectedDigest = sg_digest current, up_consent = consent,
        up_destination = map_option (\<lambda>e. va_serviceBase (consent_of_address e)) consent\<rparr> d = Inr (u, d') \<longrightarrow>
        accept_update sv seen clk g (Some current) granteeInput now d = Inr (as_stored g (gx_now sv 1), d'))
    \<and> (\<forall>status message. accept_update sv seen clk g (Some current) granteeInput now d \<noteq> Inl (UserGrantError status message))"
proof -
  let ?q = "sg_payload current" and ?p = "sg_payload g"
  obtain consent where c: "(if expandsAuthorization ?q ?p \<or> \<not> same_consent ?p ?q \<or> \<not> restrictsAuthorization ?q ?p
      then and_then (currentConsent sv ?p granteeInput True) (\<lambda>e. Inr (Some e)) else Inr None) = Inr consent"
      and n: "consent_needed sv ?q ?p granteeInput consent"
  proof (cases "restrictsAuthorization ?q ?p")
    case True
    moreover from True have "\<not> expandsAuthorization ?q ?p" by (simp add: restrictsAuthorization_def)
    ultimately show thesis using assms(2) that by (simp add: consent_needed_def)
  next
    case False
    with assms(4) that show thesis by (auto simp: consent_needed_def)
  qed
  have e: "\<not> (expandsAuthorization ?q ?p \<and> (case grant_expires_at ?p of None \<Rightarrow> False | Some t \<Rightarrow> t \<le> now))"
    using assms(3) by (auto split: option.splits)
  show ?thesis
    by (rule exI [of _ consent])
      (use assms(1,2) c e n in \<open>auto simp: accept_update_def Let_def served_def split: sum.splits option.splits if_splits\<close>)
qed

text \<open>
  C25. A proposed update is accepted once it is signed: if the service proposes a change of a reviewed permission, and its
  holder returns it signed with the identity key that the DID document names, while the account and the
  current revision are unchanged and an extension has not expired, then the service never answers with an error of
  its own: if the store commits the update of the reviewed revision, it is returned. Whether a change restricts,
  extends or renews a permission, and which consent it needs, is decided in the same way both times.
\<close>

theorem update_proposal_is_accepted:
  assumes "cbor_library (codec_lib (gs_codec (gx_services sv)))"
    and "prepareUserSignedUpdate sv seen holderInput gid input = Inr p"
    and "findCurrentByGrantId (gs_codec (gx_services sv)) (seen 1) gid = Inr (Some current)"
    and "gx_resolve sv (grantor p) = Inr holder" and "signed_by_holder sv (grantor p) holder p cose"
    and "localAccount sv (seen 0) holderInput = Inr (account, row)" and "localAccount sv (seen' 0) holderInput = Inr (account, row)"
    and "findCurrentByGrantId (gs_codec (gx_services sv)) (seen' 1) gid = Inr (Some current)"
    and "findRevisionByGrantId (gs_codec (gx_services sv)) (seen' 2) gid (grant_revision p) = Inr None"
    and "canonical sv granteeInput = canonical sv (case def_sender input of None \<Rightarrow> consent_address (sg_payload current) | Some s \<Rightarrow> s)"
    and "wall_clock sv 0 \<le> now 0 div 1000"
    and "\<And>t. expandsAuthorization (sg_payload current) p \<Longrightarrow> grant_expires_at p = Some t \<Longrightarrow> now 0 div 1000 < t"
  shows "\<exists>consent. consent_needed sv (sg_payload current) p granteeInput consent \<and> (\<forall>u d'. appendAuthoritativeUpdate (gx_services sv) clk \<lparr>up_revision = held_revision sv account holder p cose,
        up_expectedRevision = grant_revision (sg_payload current), up_expectedDigest = sg_digest current, up_consent = consent,
        up_destination = map_option (\<lambda>e. va_serviceBase (consent_of_address e)) consent\<rparr> d = Inr (u, d') \<longrightarrow>
        acceptUserSignedGrant (sv\<lparr>gx_now := now\<rparr>) seen' clk holderInput granteeInput cose d
          = Inr (as_stored (held_revision sv account holder p cose) (now 1), d'))
    \<and> (\<forall>status message. acceptUserSignedGrant (sv\<lparr>gx_now := now\<rparr>) seen' clk holderInput granteeInput cose d
          \<noteq> Inl (UserGrantError status message))"
proof -
  let ?c = "gs_codec (gx_services sv)" and ?q = "sg_payload current"
  obtain scope t where u: "acc_did row = Some (grantor ?q) \<and> publicly_active row" "same_owner current account"
      "grant_status_of ?q = Active"
      "\<And>holder. gx_resolve sv (grantor ?q) = Inr holder \<Longrightarrow> serviceBase holder = gx_serviceBase sv \<and> identityDidKey holder = sg_signing_key current"
      "t \<le> wall_clock sv 0 + 300" "grant_updated_at ?q < t"
      "propose_update sv ?q (next_payload ?q (sg_digest current) scope (def_expiresAt input) t) (wall_clock sv 0) input = Inr p"
    by (rule proposed_update [OF assms(2)]) (use assms(3,6) in \<open>auto simp: active_holder_def\<close>)
  define p' where "p' = next_payload ?q (sg_digest current) scope (def_expiresAt input) t"
  define g where "g = held_revision sv account holder p cose"
  have q: "inspectGrant ?c (sg_representation current) = Inr ?q" "grant_id ?q = gid"
    using assms(3) grantFromRow_Inr by (auto elim!: findCurrent_held)
  have f: "grant_revision p = grant_revision ?q + 1" "grant_previous p = Some (sg_digest current)" "grant_updated_at p = t"
      "grant_issued_at p = grant_issued_at ?q" "grantor p = grantor ?q" "grantee p = grantee ?q" "grant_status_of p = Active" "grant_id p = gid"
    and auth: "restrictsAuthorization ?q p = restrictsAuthorization ?q p'"
    using u(7) u(3) q(2) unfolding p'_def [symmetric] by (auto elim!: propose_cases) (simp_all add: p'_def)
  have consent: "\<exists>e. currentConsent sv p granteeInput True = Inr e" if "\<not> restrictsAuthorization ?q p"
    using u(7) that auth currentConsent_taken [OF _ assms(10)] unfolding p'_def [symmetric] by (auto elim!: propose_cases)
  have retained: "same_consent p ?q" if "restrictsAuthorization ?q p"
    using u(7) that auth unfolding p'_def [symmetric] by (auto elim!: propose_cases simp: p'_def)
  have s: "inspectGrant ?c cose = Inr p" by (rule holder_signature(2) [OF assms(1,5)])
  have wf: "1 \<le> grant_revision ?q" "grant_issued_at p \<le> grant_updated_at p"
    using inspected_grant [OF assms(1) q(1)] inspected_grant [OF assms(1) s] by (auto simp: wf_grant_def)
  have other: "sg_representation current \<noteq> cose" using q(1) s f(1) by auto
  have "acceptUserSignedGrant (sv\<lparr>gx_now := now\<rparr>) seen' clk holderInput granteeInput cose d
      = accept_signed (sv\<lparr>gx_now := now\<rparr>) seen' clk g granteeInput d"
    using accept_held [of "sv\<lparr>gx_now := now\<rparr>" "grantor p" holder p cose seen' holderInput account] assms(1,4,5,7) u(1,4) f(5)
    by (simp add: active_holder_def g_def)
  also have "\<dots> = accept_update (sv\<lparr>gx_now := now\<rparr>) seen' clk g (Some current) granteeInput (now 0 div 1000) d"
    using assms(8,9,11) f other wf u(5) by (simp add: accept_signed_def Let_def g_def wall_clock_def served_def)
  finally have eq: "acceptUserSignedGrant (sv\<lparr>gx_now := now\<rparr>) seen' clk holderInput granteeInput cose d
      = accept_update (sv\<lparr>gx_now := now\<rparr>) seen' clk g (Some current) granteeInput (now 0 div 1000) d" .
  have "\<not> update_conflicts (Some current) g"
    using u(2,3,4,6) f assms(4) by (simp add: update_conflicts_def g_def Let_def)
  from accept_update_checked [OF this, of "now 0 div 1000" "sv\<lparr>gx_now := now\<rparr>" granteeInput clk d seen'] assms(12) consent retained
  show ?thesis unfolding eq by (fastforce simp: g_def)
qed

end
