(* ===== verification/GrantServiceExample.thy ===== *)
theory GrantServiceExample
  imports GrantProposals
begin

text \<open>
  The grant service on concrete data: Alice's provider proposes a permission for Bob, Alice signs it, changes it and
  revokes it; the theorems about the service are applied to these runs.
\<close>

declare split_paired_All [simp del] split_paired_Ex [simp del] Status.decimal.simps [simp del]

definition alice_row :: account_row where
  "alice_row = \<lparr>acc_did = Some alice, acc_onboarding_state = ''active'', acc_verification_mode = Some ''public'', acc_closed_at = None\<rparr>"

definition alice_service :: grant_service where
  "alice_service = \<lparr>gx_services = lenient_services, gx_crypto = example_crypto, gx_toLowerCase = (\<lambda>s. s), gx_domainToASCII = (\<lambda>s. s),
     gx_accountByAddress = (\<lambda>_ _. Inl Rejected), gx_getKey = (\<lambda>_. Inr \<lparr>key_algorithm = ''ed25519'', key_publicKey = lit ''k''\<rparr>),
     gx_privateKey = (\<lambda>_ _. Inr example_key), gx_resolve = (\<lambda>_. Inr party_document),
     gx_verifyAddress = (\<lambda>_. Inr (consent_of_address consent_to_bob)), gx_verifyProfile = (\<lambda>_. Inr (consent_of_profile consent_to_bob)),
     gx_authorityFresh = (\<lambda>_ _. True), gx_serviceBase = sender_base, gx_now = (\<lambda>i. if i = 0 then 100000 else 0x01890a5dac96),
     gx_random = [0, 0, 0, 0, 0, 0, 0x77, 0x4b, 0xbc, 0xce, 0xb3, 0x02, 0x09, 0x9a, 0x80, 0x57]\<rparr>"

abbreviation alice_at :: "int \<Rightarrow> grant_service" where
  "alice_at t \<equiv> alice_service\<lparr>gx_now := (\<lambda>_. t)\<rparr>"

lemma alice_service_sel [simp]:
  "gx_services alice_service = lenient_services" "gx_crypto alice_service = example_crypto" "gx_resolve alice_service did = Inr party_document"
  "gx_serviceBase alice_service = sender_base" "gx_verifyAddress alice_service a = Inr (consent_of_address consent_to_bob)"
  "gx_verifyProfile alice_service did = Inr (consent_of_profile consent_to_bob)"
  "gx_getKey alice_service a = Inr \<lparr>key_algorithm = ''ed25519'', key_publicKey = lit ''k''\<rparr>"
  "gx_privateKey alice_service a k = Inr example_key" "gx_authorityFresh alice_service e t"
  "gs_codec lenient_services = grant_codec" "codec_lib grant_codec = reference_cborg" "codec_env grant_codec = grant_env"
  by (simp_all add: alice_service_def lenient_services_def grant_codec_def)

lemma party_sel [simp]: "identityDidKey party_document = lit ''k''" "serviceBase party_document = sender_base"
  "document_evidence party_document = no_evidence"
  by (simp_all add: party_document_def)

lemma alice_did_text: "take 8 alice = lit ''did:plc:''" by (simp add: alice_def lit_def)

lemma alice_accounts:
  "localAccount alice_service grantor_db alice = Inr (lit ''a'', alice_row)" "localAccount alice_service issued_db alice = Inr (lit ''a'', alice_row)"
  by (simp_all add: localAccount_def alice_did_text account_with_did_def grantor_db_def issued_db_def empty_db_def alice_row_def)

lemma alice_active: "acc_did alice_row = Some alice" "publicly_active alice_row"
  by (simp_all add: alice_row_def publicly_active_def)

lemma alice_holder: "active_holder sv d alice (lit ''a'') alice" if "localAccount sv d alice = Inr (lit ''a'', alice_row)"
  using that alice_active by (auto simp: active_holder_def)

lemma alice_web_crypto:
  "web_crypto example_subtle (\<lambda>i. if i \<noteq> identity_key_id alice then throw InvalidSignature else Inr example_key)
     (identity_key_id alice) example_key example_key (signer_of alice_key_id)"
proof -
  have k: "identity_key_id alice = alice_key_id" by (simp add: identity_key_id_def alice_key_id_def key_id_of_def lit_def)
  show ?thesis
    by unfold_locales (auto simp: k example_subtle_def example_key_def signer_of_def createWebCryptoSigner_def requireEd25519Key_def
        keyed_tag_def fun_eq_iff)
qed

lemma alice_signs:
  assumes "signable_grant g"
  shows "signed_by_holder (alice_service\<lparr>gx_now := now\<rparr>) alice party_document g (signed_grant g)"
proof -
  have "held_key alice_service alice party_document (signer_of alice_key_id)"
    unfolding held_key_def by (intro exI) (use alice_web_crypto in \<open>simp add: example_crypto_def cong: if_cong\<close>)
  moreover have "wf_grant grant_env g" using assms by (simp add: wf_grant_env signable_grant_def)
  ultimately have "signed_by_holder alice_service alice party_document g (signed_grant g)"
    using sign_grant [OF assms] by (auto simp: signed_by_holder_def)
  then show ?thesis by simp
qed

section \<open>The address of the grantee\<close>

lemma canonical_address: "canonical alice_service address_1 = Inr address_1"
proof -
  have s: "js_trim address_1 = address_1" "index_of (of_char CHR ''@'') address_1 = Some 5"
      "of_char CHR ''@'' \<notin> set (drop 6 address_1)" "drop 6 address_1 \<noteq> []"
      "take 5 address_1 @ lit ''@'' @ drop 6 address_1 = address_1"
    unfolding address_1_def by code_simp+
  have a: "lit ''did:plc:aaaaaaaaaaaaaaaaaaaaaaaa'' = alice" "alice @ lit ''#hail-identity'' = key_id_of alice HailIdentity"
    by (simp_all add: alice_def key_id_of_def lit_def)
  let ?h = "HMap [(lit ''version'', HInt 2), (lit ''type'', HText (lit ''hail.address-binding'')), (lit ''address'', HText address_1),
     (lit ''did'', HText alice), (lit ''issued_at'', HInt 1), (lit ''key_id'', HText (key_id_of alice HailIdentity))]"
  have "validatePayload grant_env AddressBinding (of_hail ?h) = Inr ()"
  proof (rule validatePayload_signedI)
    show "bulk ?h \<le> 4096" "plain 33 ?h"
      by (simp_all add: address_1_def key_id_of_def alice_def HAIL_MIN_INTEGER_def HAIL_MAX_INTEGER_def lit_append [symmetric])
    show "validate_by_type grant_env AddressBinding ?h = Inr ()"
      by (simp add: hailAddress_path [of example_env "Some (HText address_1)", THEN iffD2, OF example_address] validate_by_type_def
          validateAddressBinding_def get_HMap hailAddress_env example_ids safe_bounds)
  qed (simp_all add: get_HMap signed_types_def version_exempt_def)
  then show ?thesis using s a
    by (simp add: canonical_def canonicalizeHailAddress_def alice_service_def lenient_services_def grant_codec_def Let_def)
qed

lemma bob_evidence: "evidence_for alice_service address_1 = Inr consent_to_bob"
  by (simp add: evidence_for_def canonical_address served_def)

section \<open>A first revision\<close>

definition news_request :: GrantDefinition where
  "news_request = \<lparr>def_scope = [lit ''news''], def_expiresAt = None\<rparr>"

lemma news_scope: "normalizeScope [lit ''news''] = Inr [lit ''news'']"
  by (simp add: normalizeScope_def news_category)

lemma news_offered: "validateScopeAgainstProfile [lit ''news''] profile_object = Inr ()"
  by (simp add: validateScopeAgainstProfile_def offered_categories_def profile_object_def get_HMap)

lemma consent_sel [simp]:
  "vp_profile (consent_of_profile consent_to_bob) = profile_object" "va_serviceBase (consent_of_address consent_to_bob) = lit ''s''"
  "va_address (consent_of_address consent_to_bob) = address_1" "va_did (consent_of_address consent_to_bob) = bob"
  "evidence_agrees (consent_of_address consent_to_bob) (consent_of_profile consent_to_bob)"
  "va_digest (consent_of_address consent_to_bob) = replicate 32 1" "vp_digest (consent_of_profile consent_to_bob) = replicate 32 2"
  by (simp_all add: consent_to_bob_def evidence_agrees_def)

lemma run_uuid: "uuidV7 0x01890a5dac96 [0, 0, 0, 0, 0, 0, 0x77, 0x4b, 0xbc, 0xce, 0xb3, 0x02, 0x09, 0x9a, 0x80, 0x57] = Inr message_1"
  unfolding message_1_def by code_simp

lemma no_grants: "grant_lineages grantor_db = []" "grant_revisions grantor_db = []"
  by (simp_all add: grantor_db_def empty_db_def)

lemma run_propose: "prepareUserSignedGrant alice_service (\<lambda>_. grantor_db) alice address_1 news_request = Inr grant_1"
proof -
  have "activeAccount alice_service grantor_db alice e = Inr (lit ''a'', alice)" for e
    using alice_holder [OF alice_accounts(1)] by (simp add: activeAccount_Inr)
  moreover have "gx_now alice_service 0 = 100000" "uuidV7 (gx_now alice_service 1) (gx_random alice_service) = Inr message_1"
    using run_uuid by (simp_all add: alice_service_def)
  moreover have "first_payload message_1 alice consent_to_bob [lit ''news''] None 100 = grant_1"
    by (simp add: first_payload_def grant_1_def)
  ultimately show ?thesis
    by (simp add: prepareUserSignedGrant_def Let_def bob_evidence news_scope news_offered news_request_def wall_clock_def
        served_def demand_def findActiveAuthoritativeByDidPair_def no_grants)
qed

lemma run_held_issue:
  "insertAuthoritativeRevision1 lenient_services (\<lambda>_. 0) (held_revision alice_service (lit ''a'') party_document grant_1 (signed_grant grant_1))
     consent_to_bob (lit ''s'') grantor_db = Inr ((), issued_db)"
proof -
  let ?h = "held_revision alice_service (lit ''a'') party_document grant_1 (signed_grant grant_1)"
  have h: "?h = (issued_grant grant_1)\<lparr>sg_expectedServiceBase := Some sender_base\<rparr>"
    by (simp add: held_revision_def issued_grant_def)
  have i: "checkedInput grant_codec ?h Grantor = checkedInput grant_codec (issued_grant grant_1) Grantor"
      "lineage_of ?h = lineage_of (issued_grant grant_1)" "revision_of 0 ?h = revision_of 0 (issued_grant grant_1)"
      "revision_key ?h = revision_key (issued_grant grant_1)" "sg_account ?h = lit ''a''" "sg_payload ?h = grant_1"
      "sg_digest ?h = sg_digest (issued_grant grant_1)"
    unfolding h by (simp_all add: checkedInput_def lineage_of_def revision_of_def revision_key_def Let_def)
  have "insertAuthoritativeRevision1 lenient_services (\<lambda>_. 0) ?h consent_to_bob (lit ''s'') grantor_db
      = insertAuthoritativeRevision1 lenient_services (\<lambda>_. 0) (issued_grant grant_1) consent_to_bob (lit ''s'') grantor_db"
    by (simp add: insertAuthoritativeRevision1_def lenient_services_def Let_def insert_lineage_def insertRevision_def insert_consent_def i
        cong: if_cong option.case_cong)
  with run_issue show ?thesis by simp
qed

theorem first_proposal_is_accepted_witness:
  "acceptUserSignedGrant (alice_at 150000) (\<lambda>_. grantor_db) (\<lambda>_. 0) alice address_1 (signed_grant grant_1) grantor_db
     = Inr (as_stored (held_revision alice_service (lit ''a'') party_document grant_1 (signed_grant grant_1)) 150000, issued_db)"
proof -
  have s: "signed_by_holder alice_service alice party_document grant_1 (signed_grant grant_1)"
    using alice_signs [OF grant_signable(1), of undefined] by simp
  have "gx_now alice_service 0 = 100000" "grant_expires_at grant_1 = None" by (simp_all add: alice_service_def grant_1_def)
  with first_proposal_is_accepted [OF _ run_propose, where holder = party_document and cose = "signed_grant grant_1" and account = "lit ''a''"
      and row = alice_row and seen' = "\<lambda>_. grantor_db" and now = "\<lambda>_. 150000" and clk = "\<lambda>_. 0" and d = grantor_db]
    s alice_accounts reference.cbor_library_axioms
  show ?thesis
    by (auto simp: findCurrentByGrantId_def current_row_def findRevisionByGrantId_def joined_def findActiveAuthoritativeByDidPair_def no_grants
        wall_clock_def bob_evidence run_held_issue served_def)
qed

section \<open>Changes\<close>

lemma current_issued:
  obtains current where "findCurrentByGrantId grant_codec issued_db message_1 = Inr (Some current)" "sg_payload current = grant_1"
    "sg_account current = lit ''a''" "sg_role current = Grantor" "sg_digest current = replicate 32 7" "sg_signing_key current = lit ''k''"
    "sg_representation current = signed_grant grant_1"
proof -
  obtain x where x: "grantFromRow grant_codec message_1 1 (lineage_of (issued_grant grant_1)) (revision_of 0 (issued_grant grant_1)) = Inr x"
      "sg_representation x = signed_grant grant_1"
    using read_issued_row by blast
  have "sg_signing_key x = lit ''k''" using x(1) by (auto simp: grantFromRow_def revision_of_def issued_grant_def Let_def)
  moreover have "sg_payload x = grant_1" "sg_digest x = replicate 32 7" "sg_account x = lit ''a''" "sg_role x = Grantor"
    using grantFromRow_Inr [OF x(1)] inspect_grant [OF grant_signable(1)] grant_digests(1) by (auto simp: revision_of_def Let_def)
  moreover have "findCurrentByGrantId grant_codec issued_db message_1 = Inr (Some x)"
    using x(1) by (simp add: findCurrentByGrantId_def current_row_def joined_def issued_db_def)
  ultimately show thesis using that x(2) by blast
qed

lemma unknown_revision: "findRevisionByGrantId grant_codec issued_db message_1 2 = Inr None"
  by (simp add: findRevisionByGrantId_def joined_def issued_db_def)

text \<open>A second revision that restricts the first is stored.\<close>

definition second_revision :: "HailGrant \<Rightarrow> bool" where
  "second_revision g \<longleftrightarrow> signable_grant g \<and> grant_id g = message_1 \<and> grant_revision g = 2 \<and> grant_previous g = Some (replicate 32 7)
     \<and> grantor g = alice \<and> grantee g = bob \<and> grant_issued_at g = 100 \<and> 100 < grant_updated_at g
     \<and> restrictsAuthorization grant_1 g \<and> same_consent grant_1 g"

lemma second_digest:
  assumes "second_revision g"
  shows "signed_grant g \<noteq> signed_grant grant_1" "sha256 grant_env (signed_grant g) \<noteq> replicate 32 7"
proof -
  have i: "inspectGrant grant_codec (signed_grant g) = Inr g" "inspectGrant grant_codec (signed_grant grant_1) = Inr grant_1"
    using assms inspect_grant grant_signable(1) by (simp_all add: second_revision_def)
  have "grant_1 \<noteq> g" using assms by (auto simp: second_revision_def)
  with i show "signed_grant g \<noteq> signed_grant grant_1" by auto
  then show "sha256 grant_env (signed_grant g) \<noteq> replicate 32 7" by (simp add: grant_env_def)
qed

lemma run_append:
  assumes "second_revision g" and "sg_payload h = g" "sg_representation h = signed_grant g" "sg_account h = lit ''a''" "sg_role h = Grantor"
    and "sg_digest h = sha256 grant_env (signed_grant g)" "sg_signing_key h = lit ''k''"
  shows "\<exists>d'. appendAuthoritativeUpdate lenient_services clk \<lparr>up_revision = h, up_expectedRevision = 1, up_expectedDigest = replicate 32 7,
    up_consent = None, up_destination = None\<rparr> issued_db = Inr ((), d')"
proof -
  obtain current where c: "findCurrentByGrantId grant_codec issued_db message_1 = Inr (Some current)" "sg_payload current = grant_1"
    "sg_account current = lit ''a''" "sg_role current = Grantor" "sg_digest current = replicate 32 7" "sg_signing_key current = lit ''k''"
    by (rule current_issued)
  note g = assms(1) [unfolded second_revision_def]
  have "checkedInput grant_codec h Grantor = Inr ()"
    using g assms(2-6) inspect_grant by (simp add: checkedInput_def guard_def)
  moreover have "update_conflict current h = None" using c g assms(2-7) by (simp add: update_conflict_def grant_1_def)
  moreover have "consent_for_update grant_codec current h None = Inr ()" using c g assms(2) by (simp add: consent_for_update_def)
  moreover have d: "grant_lineages issued_db = [(message_1, lineage_of (issued_grant grant_1))]"
      "grant_revisions issued_db = [((message_1, 1), revision_of 0 (issued_grant grant_1))]"
      "grant_publications issued_db = [((message_1, 1), new_grant_publication 0 (lit ''s''))]"
    by (simp_all add: issued_db_def)
  ultimately show ?thesis using c(1) g assms(2-7) second_digest(2) [OF assms(1)] grant_digests(1)
    by (simp add: appendAuthoritativeUpdate_def append_update_def Let_def lineage_expected_def advance_lineage_def insertRevision_def
        insert_fresh_consent_def publish_update_def insertPublication_def insert_new_def perform_def open_functions_def lenient_services_def
        has_row_def revision_key_def publications_of_def)
qed

definition restricted_grant :: HailGrant where
  "restricted_grant = next_payload grant_1 (replicate 32 7) [lit ''news''] (Some 5000) 200"

definition restriction :: GrantUpdateDefinition where
  "restriction = \<lparr>def_scope = [lit ''news''], def_expiresAt = Some 5000, def_expectedRevision = 1, def_expectedDigest = replicate 32 7,
     def_refreshConsent = False, def_sender = None\<rparr>"

lemma restricted_second: "second_revision restricted_grant"
proof -
  have "signable_grant restricted_grant" unfolding signable_grant_def
    by (simp_all add: wf_grant_def restricted_grant_def next_payload_def grant_1_def example_ids safe_bounds news_category example_address)
      (simp_all add: grant_object_def nullable_def digest_object_def address_1_def status_text_def
        HAIL_MIN_INTEGER_def HAIL_MAX_INTEGER_def key_id_of_def alice_def lit_append [symmetric])
  then show ?thesis
    by (simp add: second_revision_def restricted_grant_def next_payload_def grant_1_def restrictsAuthorization_def expandsAuthorization_def
        same_consent_def)
qed

lemma revocation_second: "second_revision grant_2"
  using grant_signable(2) by (simp add: second_revision_def) (simp add: grant_2_def grant_1_def restrictsAuthorization_def
    expandsAuthorization_def same_consent_def)

lemma valid_grant:
  assumes "signable_grant g"
  shows "validatePayload grant_env Grant (of_hail (grant_object g)) = Inr ()"
proof -
  have "wf_grant grant_env g" using assms by (simp add: wf_grant_env signable_grant_def)
  from sign_grant [OF assms this] show ?thesis
    by (auto simp: reference.signPayload_iff [OF grant_type unique_grant_object SIGNED_PROFILES.simps(3)] Let_def)
qed

lemma own_key_id: "grantor p = did \<Longrightarrow> with_key_id did (grant_object p) = grant_object p"
  by (simp add: grant_object_def lit_def key_id_of_def identity_key_id_def)

lemma alice_is_active: "activeAccount (alice_service\<lparr>gx_now := now\<rparr>) issued_db alice e = Inr (lit ''a'', alice)"
  using alice_holder [OF alice_accounts(2)] by (simp add: activeAccount_Inr)

lemma run_propose_update: "prepareUserSignedUpdate (alice_at 200000) (\<lambda>_. issued_db) alice message_1 restriction = Inr restricted_grant"
proof -
  obtain current where c: "findCurrentByGrantId grant_codec issued_db message_1 = Inr (Some current)" "sg_payload current = grant_1"
    "sg_account current = lit ''a''" "sg_role current = Grantor" "sg_digest current = replicate 32 7" "sg_signing_key current = lit ''k''"
    by (rule current_issued)
  then have "reviewed_grant (alice_at 200000) (\<lambda>_. issued_db) alice message_1 restriction = Inr (alice, current)"
    using alice_active by (simp add: reviewed_grant_def Let_def alice_accounts served_def restriction_def)
  moreover have "validatePayload grant_env Grant (of_hail (with_key_id alice (grant_object restricted_grant))) = Inr ()"
    using restricted_second own_key_id [of restricted_grant alice] valid_grant by (simp add: second_revision_def)
  moreover have "propose_update sv grant_1 restricted_grant now restriction = Inr restricted_grant" for sv now
    using restricted_second
    by (simp add: propose_update_def Let_def restriction_def sender_changed_def second_revision_def restrictsAuthorization_def)
  ultimately show ?thesis using c
    by (simp add: prepareUserSignedUpdate_def Let_def wall_clock_def served_def demand_def codec_result_def news_scope restriction_def
        restricted_grant_def)
qed

theorem update_proposal_is_accepted_witness:
  "\<exists>d'. acceptUserSignedGrant (alice_at 250000) (\<lambda>_. issued_db) (\<lambda>_. 0) alice address_1 (signed_grant restricted_grant) issued_db
     = Inr (as_stored (held_revision alice_service (lit ''a'') party_document restricted_grant (signed_grant restricted_grant)) 250000, d')"
proof -
  obtain current where c: "findCurrentByGrantId grant_codec issued_db message_1 = Inr (Some current)" "sg_payload current = grant_1"
    "sg_account current = lit ''a''" "sg_role current = Grantor" "sg_digest current = replicate 32 7" "sg_signing_key current = lit ''k''"
    by (rule current_issued)
  note r = restricted_second [unfolded second_revision_def]
  have s: "signed_by_holder alice_service alice party_document restricted_grant (signed_grant restricted_grant)"
    using alice_signs [of restricted_grant undefined] r by simp
  have restricts: "restrictsAuthorization grant_1 restricted_grant" "\<not> expandsAuthorization grant_1 restricted_grant"
    using r by (auto simp: restrictsAuthorization_def)
  from update_proposal_is_accepted [OF _ run_propose_update, where holder = party_document and cose = "signed_grant restricted_grant"
      and account = "lit ''a''" and row = alice_row and seen' = "\<lambda>_. issued_db" and now = "\<lambda>_. 250000" and clk = "\<lambda>_. 0" and d = issued_db
      and granteeInput = address_1 and current = current]
    s c r alice_accounts reference.cbor_library_axioms unknown_revision restricts
  obtain consent where "consent_needed alice_service grant_1 restricted_grant address_1 consent"
    "\<And>d'. appendAuthoritativeUpdate lenient_services (\<lambda>_. 0) \<lparr>up_revision = held_revision alice_service (lit ''a'') party_document restricted_grant
        (signed_grant restricted_grant), up_expectedRevision = 1, up_expectedDigest = replicate 32 7, up_consent = consent,
        up_destination = map_option (\<lambda>e. va_serviceBase (consent_of_address e)) consent\<rparr> issued_db = Inr ((), d') \<Longrightarrow>
      acceptUserSignedGrant (alice_at 250000) (\<lambda>_. issued_db) (\<lambda>_. 0) alice address_1 (signed_grant restricted_grant) issued_db
        = Inr (as_stored (held_revision alice_service (lit ''a'') party_document restricted_grant (signed_grant restricted_grant)) 250000, d')"
    by (auto simp: wall_clock_def restriction_def grant_1_def)
  with restricts run_append [OF restricted_second, of "held_revision alice_service (lit ''a'') party_document restricted_grant
      (signed_grant restricted_grant)" "\<lambda>_. 0"] show ?thesis
    by (auto simp: consent_needed_def held_revision_def)
qed

section \<open>Revocation\<close>

lemma run_sign:
  assumes "second_revision g" and "grant_status_of g = Revoked"
  shows "\<exists>h. signGrant (alice_service\<lparr>gx_now := now\<rparr>) (lit ''a'') alice \<lparr>key_algorithm = ''ed25519'', key_publicKey = lit ''k''\<rparr> g no_evidence t = Inr h
    \<and> sg_payload h = g \<and> sg_representation h = signed_grant g \<and> sg_account h = lit ''a'' \<and> sg_role h = Grantor
    \<and> sg_digest h = sha256 grant_env (signed_grant g) \<and> sg_signing_key h = lit ''k''"
proof -
  have g: "signable_grant g" "wf_grant grant_env g" using assms(1) by (simp_all add: second_revision_def signable_grant_def wf_grant_env)
  have "createWebCryptoSigner (identity_key_id alice) example_key (subtle example_crypto) = Inr (signer_of alice_key_id)"
    using alice_web_crypto by (simp add: web_crypto_def example_crypto_def)
  moreover obtain x where "verifySignedPayload reference_cborg grant_env Grant (signed_grant g) (identity_verifier example_crypto alice (lit ''k'')) = Inr x"
    using verify_alice_grant [OF g(1)] by blast
  ultimately show ?thesis using sign_grant [OF g] assms(2)
    by (simp add: signGrant_def Let_def demand_def served_def codec_result_def)
qed

lemma run_revoke:
  "\<exists>g d'. revoke (alice_at 200000) (\<lambda>_. issued_db) (\<lambda>_. 0) alice message_1 None issued_db = Inr (g, d') \<and> sg_payload g = grant_2"
proof -
  obtain current where c: "findCurrentByGrantId grant_codec issued_db message_1 = Inr (Some current)" "sg_payload current = grant_1"
    "sg_account current = lit ''a''" "sg_role current = Grantor" "sg_digest current = replicate 32 7" "sg_signing_key current = lit ''k''"
    by (rule current_issued)
  have p: "revoked_payload grant_1 (replicate 32 7) 200 = grant_2" by (simp add: revoked_payload_def grant_2_def grant_1_def)
  obtain h where h: "signGrant (alice_at 200000) (lit ''a'') alice \<lparr>key_algorithm = ''ed25519'', key_publicKey = lit ''k''\<rparr> grant_2 no_evidence 200000 = Inr h"
      "sg_payload h = grant_2" "sg_representation h = signed_grant grant_2" "sg_account h = lit ''a''" "sg_role h = Grantor"
      "sg_digest h = sha256 grant_env (signed_grant grant_2)" "sg_signing_key h = lit ''k''"
    using run_sign [OF revocation_second] by fastforce
  obtain d' where "appendAuthoritativeUpdate lenient_services (\<lambda>_. 0) \<lparr>up_revision = h, up_expectedRevision = 1, up_expectedDigest = replicate 32 7,
    up_consent = None, up_destination = None\<rparr> issued_db = Inr ((), d')"
    using run_append [OF revocation_second h(2-7)] by blast
  then show ?thesis using c h(1,2) alice_is_active
    by (simp add: revoke_def Let_def served_def demand_def wall_clock_def p appendAuthoritativeRevocation_def)
qed

theorem revoke_is_effective_witness:
  "\<exists>g d'. revoke (alice_at 200000) (\<lambda>_. issued_db) (\<lambda>_. 0) alice message_1 None issued_db = Inr (g, d')
     \<and> acceptGrant open_services open_functions ENVELOPE_ADMISSION (\<lambda>_. 0) news_decision message_1 d' \<noteq> Inr (OutcomeAccepted, d')"
proof -
  obtain g d' where r: "revoke (alice_at 200000) (\<lambda>_. issued_db) (\<lambda>_. 0) alice message_1 None issued_db = Inr (g, d')"
    using run_revoke by blast
  from revoke_is_effective [OF this, of grant_codec] issued_reachable r show ?thesis by auto
qed

theorem operation_appends_witness:
  "\<exists>g d' r. grant_operation (alice_at 200000) (\<lambda>_. issued_db) issued_db g d' \<and> rev_cose r = sg_representation g
     \<and> grant_log d' message_1 = grant_log issued_db message_1 @ [r]"
proof -
  obtain g d' where r: "revoke (alice_at 200000) (\<lambda>_. issued_db) (\<lambda>_. 0) alice message_1 None issued_db = Inr (g, d')" "sg_payload g = grant_2"
    using run_revoke by blast
  have o: "grant_operation (alice_at 200000) (\<lambda>_. issued_db) issued_db g d'" by (rule revokes [OF r(1)])
  have "\<not> stored_at issued_db message_1 2 (sg_representation g)" by (simp add: stored_at_def issued_db_def)
  with operation_appends [OF _ o] issued_reachable r(2) obtain r where "rev_cose r = sg_representation g"
      "grant_log d' message_1 = grant_log issued_db message_1 @ [r]" by auto
  with o show ?thesis by blast
qed

end
