(* ===== verification/HttpProperties.thy ===== *)
theory HttpProperties
  imports Http
begin

text \<open>
  The counters of the protected schedule and of the rate limit over whole runs. The occupancy that decides
  about admission depends on arrivals and deadlines only; the rate limit bounds what a client address gets in any minute.
\<close>

declare split_paired_All [simp del] split_paired_Ex [simp del]

section \<open>Runs of the protected schedule\<close>

text \<open>
  A request arrives, the timer of the oldest admitted request fires (not before it is due), or a
  job settles. The timers of all requests have the same length, so they fire in the order of arrival.
\<close>

datatype schedule_event = Arrives int jstring | TimerFires int | JobSettles

record schedule_world =
  wo_now :: int
  wo_schedule :: ProtectedResponseSchedule
  wo_timers :: "(int \<times> jstring) list"
  wo_jobs :: nat

definition idle_world :: schedule_world where
  "idle_world = \<lparr>wo_now = 0, wo_schedule = \<lparr>inFlight = 0, processing = 0, sources = []\<rparr>, wo_timers = [], wo_jobs = 0\<rparr>"

fun happens :: "ProtectedScheduleSettings \<Rightarrow> schedule_event \<Rightarrow> schedule_world \<Rightarrow> (bool list \<times> schedule_world) option" where
  "happens st (Arrives t source) w =
     (if t < wo_now w then None
      else (case admit st source (wo_schedule w) of
        (a, s) \<Rightarrow> Some ([a = Busy], w\<lparr>wo_now := t, wo_schedule := s,
          wo_timers := wo_timers w @ (if a = Busy then [] else [(t + processingDeadlineMs st, source)]),
          wo_jobs := wo_jobs w + (if a = Started then 1 else 0)\<rparr>)))"
| "happens st (TimerFires t) w = (case wo_timers w of
     [] \<Rightarrow> None
   | (at_time, source) # timers \<Rightarrow>
       if t < at_time \<or> t < wo_now w then None
       else Some ([], w\<lparr>wo_now := t, wo_schedule := deadline_passes source (wo_schedule w), wo_timers := timers\<rparr>))"
| "happens st JobSettles w =
     (if wo_jobs w = 0 then None else Some ([], w\<lparr>wo_schedule := job_settles (wo_schedule w), wo_jobs := wo_jobs w - 1\<rparr>))"

text \<open>A run of events, if it is possible, with the answers whether each arriving request is turned away as busy.\<close>

fun run_events :: "ProtectedScheduleSettings \<Rightarrow> schedule_event list \<Rightarrow> schedule_world \<Rightarrow> (bool list \<times> schedule_world) option" where
  "run_events st [] w = Some ([], w)"
| "run_events st (e # es) w = (case happens st e w of
     None \<Rightarrow> None
   | Some (busy, w') \<Rightarrow> map_option (\<lambda>(busy', w''). (busy @ busy', w'')) (run_events st es w'))"

text \<open>The counters count the pending timers and the running jobs, and they keep their limits.\<close>

definition well_counted :: "ProtectedScheduleSettings \<Rightarrow> schedule_world \<Rightarrow> bool" where
  "well_counted st w \<longleftrightarrow>
     (let s = wo_schedule w in
      inFlight s = int (length (wo_timers w)) \<and> inFlight s \<le> maxInFlight st
      \<and> processing s = int (wo_jobs w) \<and> processing s \<le> maxInFlight st
      \<and> distinct (map fst (sources s)) \<and> (\<forall>(source, n) \<in> set (sources s). 0 < n)
      \<and> (\<forall>source. source_count s source = int (length (filter (\<lambda>x. snd x = source) (wo_timers w)))
          \<and> source_count s source \<le> source_limit st))"

lemma source_count_update [simp]:
  "source_count (s\<lparr>sources := AList.update a n m, inFlight := i\<rparr>) b = (if b = a then n else source_count (s\<lparr>sources := m\<rparr>) b)"
  "source_count (s\<lparr>inFlight := i, sources := AList.update a n m\<rparr>) b = (if b = a then n else source_count (s\<lparr>sources := m\<rparr>) b)"
  "source_count (s\<lparr>inFlight := i, sources := AList.delete a m\<rparr>) b = (if b = a then 0 else source_count (s\<lparr>sources := m\<rparr>) b)"
  by (simp_all add: source_count_def update_conv' delete_conv')

lemma source_count_same [simp]:
  "source_count (s\<lparr>sources := sources s\<rparr>) = source_count s" "source_count (s\<lparr>processing := p\<rparr>) = source_count s"
  by (simp_all add: source_count_def fun_eq_iff)

lemma count_after_deadline:
  "source_count (deadline_passes a s) b = (if b = a then source_count s a - 1 else source_count s b)"
  by (simp add: deadline_passes_def Let_def)

lemma set_update_values: "(x, y) \<in> set (AList.update a n m) \<Longrightarrow> (x, y) = (a, n) \<or> (x, y) \<in> set m"
  by (induction m) (auto split: if_splits)

lemma happens_counted:
  assumes "well_counted st w" and "happens st e w = Some (busy, w')" and "valid_settings st"
  shows "well_counted st w'"
proof (cases e)
  case (Arrives t source)
  obtain a s where a: "admit st source (wo_schedule w) = (a, s)" by fastforce
  have pos: "\<forall>(x, n) \<in> set (AList.update source (source_count (wo_schedule w) source + 1) (sources (wo_schedule w))). 0 < n"
    using assms(1) by (fastforce simp: well_counted_def Let_def dest: set_update_values)
  show ?thesis
  proof (cases a)
    case Busy
    then have "s = wo_schedule w" using a by (auto simp: admit_def Let_def split: if_splits)
    with assms(1,2) Arrives a Busy show ?thesis by (auto simp: well_counted_def split: if_splits)
  next
    case NoWorker
    with assms(1,2) Arrives a pos show ?thesis
      by (auto simp: well_counted_def admit_def Let_def distinct_update split: if_splits)
  next
    case Started
    with assms(1,2) Arrives a pos show ?thesis
      by (auto simp: well_counted_def admit_def Let_def distinct_update split: if_splits)
  qed
next
  case (TimerFires t)
  with assms(2) obtain at_time source timers where t: "wo_timers w = (at_time, source) # timers"
      "w' = w\<lparr>wo_now := t, wo_schedule := deadline_passes source (wo_schedule w), wo_timers := timers\<rparr>"
    by (auto split: list.splits if_splits)
  let ?s = "wo_schedule w" and ?r = "source_count (wo_schedule w) source - 1"
  note c = assms(1) [unfolded well_counted_def Let_def t(1)]
  have count: "source_count (deadline_passes source ?s) x = int (length (filter (\<lambda>y. snd y = x) timers))
      \<and> source_count (deadline_passes source ?s) x \<le> source_limit st" for x
  proof -
    have "source_count ?s x = int (length (filter (\<lambda>y. snd y = x) ((at_time, source) # timers)))
        \<and> source_count ?s x \<le> source_limit st" using c by blast
    then show ?thesis by (auto simp: count_after_deadline split: if_splits)
  qed
  have "0 \<le> ?r" using count [of source] by (simp add: count_after_deadline)
  moreover have "\<forall>(x, n) \<in> set (sources ?s). 0 < n" "distinct (map fst (sources ?s))" using c by blast+
  ultimately have "\<forall>(x, n) \<in> set (sources (deadline_passes source ?s)). 0 < n" "distinct (map fst (sources (deadline_passes source ?s)))"
    by (auto simp: deadline_passes_def Let_def AList.delete_eq distinct_update distinct_map_filter dest: set_update_values)
  moreover have "inFlight (deadline_passes source ?s) = inFlight ?s - 1" "processing (deadline_passes source ?s) = processing ?s"
    by (simp_all add: deadline_passes_def Let_def)
  moreover have "\<forall>x. int (length (filter (\<lambda>y. snd y = x) timers)) \<le> source_limit st" using count by metis
  ultimately show ?thesis using count c by (simp add: well_counted_def t(2) Let_def)
next
  case JobSettles
  with assms(1,2) show ?thesis by (auto simp: well_counted_def job_settles_def Let_def of_nat_diff split: if_splits)
qed

lemma run_counted:
  "run_events st es w = Some (busy, w') \<Longrightarrow> well_counted st w \<Longrightarrow> valid_settings st \<Longrightarrow> well_counted st w'"
  by (induction es arbitrary: w busy) (auto split: option.splits prod.splits dest: happens_counted)

lemma idle_counted: "valid_settings st \<Longrightarrow> well_counted st idle_world"
  by (auto simp: well_counted_def idle_world_def valid_settings_def source_count_def source_limit_def split: option.splits)

section \<open>Admission does not depend on what is processed\<close>

text \<open>What an observer of admissions can depend on: everything but the jobs.\<close>

definition occupancy :: "schedule_world \<Rightarrow> int \<times> (int \<times> jstring) list \<times> int \<times> (jstring \<times> int) list" where
  "occupancy w = (wo_now w, wo_timers w, inFlight (wo_schedule w), sources (wo_schedule w))"

definition outside :: "schedule_event \<Rightarrow> bool" where
  "outside e \<longleftrightarrow> e \<noteq> JobSettles"

lemma admit_occupancy:
  assumes "inFlight s = inFlight s'" "sources s = sources s'" and "admit st source s = (a, r)" and "admit st source s' = (a', r')"
  shows "(a = Busy) = (a' = Busy)" "inFlight r = inFlight r'" "sources r = sources r'"
  using assms by (auto simp: admit_def Let_def source_count_def split: if_splits)

lemma happens_occupancy:
  assumes "occupancy w = occupancy v" and "outside e" and "happens st e w = Some (busy, w')" and "happens st e v = Some (busy', v')"
  shows "busy = busy' \<and> occupancy w' = occupancy v'"
proof (cases e)
  case (Arrives t source)
  obtain a s a' s' where a: "admit st source (wo_schedule w) = (a, s)" "admit st source (wo_schedule v) = (a', s')" by fastforce
  from admit_occupancy [OF _ _ a] assms(1,3,4) Arrives a show ?thesis by (auto simp: occupancy_def split: if_splits)
next
  case (TimerFires t)
  with assms(1,3,4) show ?thesis
    by (auto simp: occupancy_def deadline_passes_def Let_def source_count_def split: list.splits if_splits)
next
  case JobSettles
  with assms(2) show ?thesis by (simp add: outside_def)
qed

lemma settles_occupancy: "happens st JobSettles w = Some (busy, w') \<Longrightarrow> busy = [] \<and> occupancy w' = occupancy w"
  by (auto simp: occupancy_def job_settles_def split: if_splits)

lemma run_settling:
  assumes "run_events st es w = Some (busy, w')"
  obtains "filter outside es = []" "busy = []" "occupancy w' = occupancy w"
  | e rest v b v' busy' where "filter outside es = e # filter outside rest" "outside e" "occupancy v = occupancy w"
      "happens st e v = Some (b, v')" "run_events st rest v' = Some (busy', w')" "busy = b @ busy'" "length rest < length es"
  using assms
proof (induction es arbitrary: w busy thesis)
  case (Cons e es)
  from Cons.prems(3) obtain b v busy' where v: "happens st e w = Some (b, v)" "run_events st es v = Some (busy', w')" "busy = b @ busy'"
    by (auto split: option.splits)
  show ?case
  proof (cases "outside e")
    case True
    with Cons.prems(2) v show ?thesis by fastforce
  next
    case False
    then have e: "e = JobSettles" by (simp add: outside_def)
    with settles_occupancy v(1) have o: "b = []" "occupancy v = occupancy w" by blast+
    show ?thesis
      by (rule Cons.IH [OF _ _ v(2)]) (use Cons.prems(1,2) v(3) False o in \<open>fastforce+\<close>)
  qed
qed simp

lemma run_occupancy:
  "run_events st es w = Some (busy, w') \<Longrightarrow> run_events st es' v = Some (busy', v') \<Longrightarrow> filter outside es = filter outside es'
     \<Longrightarrow> occupancy w = occupancy v \<Longrightarrow> busy = busy' \<and> occupancy w' = occupancy v'"
proof (induction "length es" arbitrary: es es' w v busy busy' rule: less_induct)
  case less
  show ?case
  proof (cases rule: run_settling [OF less.prems(1)])
    case 1
    with less.prems show ?thesis by (cases rule: run_settling [OF less.prems(2)]) auto
  next
    case (2 e rest u b u' more)
    show ?thesis
    proof (cases rule: run_settling [OF less.prems(2)])
      case 1
      with 2(1) less.prems(3) show ?thesis by simp
    next
      case second: (2 e' rest' z b' z' more')
      have "e' = e" "filter outside rest = filter outside rest'" using 2(1) second(1) less.prems(3) by simp_all
      with happens_occupancy [OF _ 2(2,4)] second 2 less.prems(4) less.hyps [OF 2(7,5) second(5)] show ?thesis by metis
    qed
  qed
qed

text \<open>
  C31. Whether a request is admitted does not depend on what other requests are about: if two runs of
  the schedule have the same arrivals and the same deadlines, and differ only in when the
  processing of the admitted requests settles, then the same requests are turned away as busy.
\<close>

theorem admission_independent:
  assumes "run_events st es idle_world = Some (busy, w)" and "run_events st es' idle_world = Some (busy', w')"
    and "filter outside es = filter outside es'"
  shows "busy = busy'"
  using run_occupancy [OF assms] by simp

text \<open>One run in which a job settles between the arrivals and one in which it does not.\<close>

theorem admission_independent_witness:
  "\<exists>busy. map_option fst (run_events POC_PROTECTED_SCHEDULE (replicate 9 (Arrives 1 (lit ''a''))) idle_world) = Some busy
    \<and> map_option fst (run_events POC_PROTECTED_SCHEDULE (Arrives 1 (lit ''a'') # JobSettles # replicate 8 (Arrives 1 (lit ''a''))) idle_world) = Some busy
    \<and> last busy"
proof -
  define es where "es = replicate 9 (Arrives 1 (lit ''a''))"
  define es' where "es' = Arrives 1 (lit ''a'') # JobSettles # replicate 8 (Arrives 1 (lit ''a''))"
  have "map_option fst (run_events POC_PROTECTED_SCHEDULE es idle_world) = Some (replicate 8 False @ [True])"
    "map_option (\<lambda>_. ()) (run_events POC_PROTECTED_SCHEDULE es' idle_world) = Some ()"
    unfolding es_def es'_def by code_simp+
  then obtain w busy' w' where r: "run_events POC_PROTECTED_SCHEDULE es idle_world = Some (replicate 8 False @ [True], w)"
    "run_events POC_PROTECTED_SCHEDULE es' idle_world = Some (busy', w')" by fastforce
  have "filter outside es = filter outside es'" by (simp add: es_def es'_def outside_def numeral_eq_Suc)
  with admission_independent [OF r] have "busy' = replicate 8 False @ [True]" by simp
  with r have "map_option fst (run_events POC_PROTECTED_SCHEDULE es idle_world) = Some (replicate 8 False @ [True])
    \<and> map_option fst (run_events POC_PROTECTED_SCHEDULE es' idle_world) = Some (replicate 8 False @ [True])
    \<and> last (replicate 8 False @ [True])" by simp
  then show ?thesis unfolding es_def es'_def by blast
qed

section \<open>The rate limit\<close>

text \<open>A run of requests: the keys and times, and which of them pass.\<close>

fun passes :: "nat \<Rightarrow> int \<Rightarrow> (jstring \<times> int) list \<Rightarrow> buckets \<Rightarrow> bool list" where
  "passes maximumBuckets ceil [] bs = []"
| "passes maximumBuckets ceil ((key, now) # requests) bs = (case take_token maximumBuckets key ceil now bs of
     (retry, bs') \<Rightarrow> (retry = None) # passes maximumBuckets ceil requests bs')"

text \<open>The bucket of one key on its own.\<close>

definition next_bucket :: "int \<Rightarrow> bucket option \<Rightarrow> bucket" where
  "next_bucket now b = (case b of
     None \<Rightarrow> \<lparr>started = now, taken = 1\<rparr>
   | Some b \<Rightarrow> if 60000 \<le> now - started b then \<lparr>started = now, taken = 1\<rparr> else b\<lparr>taken := taken b + 1\<rparr>)"

lemma take_token_bucket:
  assumes "take_token m key ceil now bs = (retry, bs')"
  shows "map_of bs' key = Some (next_bucket now (map_of bs key))" "retry = None \<longleftrightarrow> taken (next_bucket now (map_of bs key)) \<le> ceil"
  using assms by (auto simp: take_token_def current_bucket_def next_bucket_def Let_def split: option.splits if_splits)

lemma keys_update: "fst ` set (AList.update k v al) = insert k (fst ` set al)"
  by (induction al) auto

lemma take_token_others:
  assumes "take_token m key ceil now bs = (retry, bs')" and "map_of bs key = None \<longrightarrow> length bs < m"
  shows "other \<noteq> key \<Longrightarrow> map_of bs' other = map_of bs other" "fst ` set bs' = insert key (fst ` set bs)"
    "distinct (map fst bs) \<Longrightarrow> distinct (map fst bs')"
proof -
  have "map_of bs key = None \<Longrightarrow> make_room m bs = bs" using assms(2) by (auto simp: make_room_def split: list.splits)
  then obtain b xs where "bs' = AList.update key b xs" "xs = bs \<or> xs = AList.update key \<lparr>started = now, taken = 0\<rparr> bs"
    using assms(1) by (fastforce simp: take_token_def current_bucket_def Let_def split: option.splits if_splits)
  then show "other \<noteq> key \<Longrightarrow> map_of bs' other = map_of bs other" "fst ` set bs' = insert key (fst ` set bs)"
      "distinct (map fst bs) \<Longrightarrow> distinct (map fst bs')"
    by (elim disjE; simp add: keys_update distinct_update)+
qed

text \<open>The requests of one key that pass, and how many of them arrive from \<open>lo\<close> on and before \<open>hi\<close>.\<close>

fun key_passes :: "int \<Rightarrow> int list \<Rightarrow> bucket option \<Rightarrow> (int \<times> bool) list" where
  "key_passes ceil [] b = []"
| "key_passes ceil (now # moments) b = (now, taken (next_bucket now b) \<le> ceil) # key_passes ceil moments (Some (next_bucket now b))"

definition passed_between :: "int \<Rightarrow> int \<Rightarrow> (int \<times> bool) list \<Rightarrow> nat" where
  "passed_between lo hi xs = length (filter (\<lambda>(now, pass). pass \<and> lo \<le> now \<and> now < hi) xs)"

lemma passed_simps [simp]:
  "passed_between lo hi [] = 0"
  "passed_between lo hi ((now, pass) # xs) = (if pass \<and> lo \<le> now \<and> now < hi then 1 else 0) + passed_between lo hi xs"
  by (simp_all add: passed_between_def)

lemma none_passed_late: "\<forall>now \<in> set moments. hi \<le> now \<Longrightarrow> passed_between lo hi (key_passes ceil moments b) = 0"
  by (induction moments arbitrary: b) auto

lemma passed_in_bucket:
  assumes "sorted moments" and "\<forall>now \<in> set moments. started b \<le> now" and "hi \<le> started b + 60000"
  shows "passed_between lo hi (key_passes ceil moments (Some b)) \<le> nat (ceil - taken b)"
  using assms
proof (induction moments arbitrary: b)
  case (Cons now moments)
  show ?case
  proof (cases "60000 \<le> now - started b")
    case True
    then have "\<forall>t \<in> set moments. hi \<le> t" using Cons.prems by fastforce
    with True Cons.prems(3) none_passed_late show ?thesis by simp
  next
    case False
    then have "next_bucket now (Some b) = b\<lparr>taken := taken b + 1\<rparr>" by (simp add: next_bucket_def)
    with Cons.IH [of "b\<lparr>taken := taken b + 1\<rparr>"] Cons.prems show ?thesis by (auto simp: nat_le_iff le_nat_iff)
  qed
qed simp

lemma passed_from_start:
  assumes "sorted moments" and "\<forall>now \<in> set moments. lo \<le> now" and "0 \<le> taken b"
  shows "passed_between lo (lo + 60000) (key_passes ceil moments (Some b)) \<le> nat (ceil - taken b) + nat ceil"
  using assms
proof (induction moments arbitrary: b)
  case (Cons now moments)
  show ?case
  proof (cases "60000 \<le> now - started b")
    case True
    then have n: "next_bucket now (Some b) = \<lparr>started = now, taken = 1\<rparr>" by (simp add: next_bucket_def)
    have "passed_between lo (lo + 60000) (key_passes ceil moments (Some \<lparr>started = now, taken = 1\<rparr>)) \<le> nat (ceil - 1)"
      using passed_in_bucket [of moments "\<lparr>started = now, taken = 1\<rparr>" "lo + 60000" lo ceil] Cons.prems by simp
    with n show ?thesis by auto
  next
    case False
    then have "next_bucket now (Some b) = b\<lparr>taken := taken b + 1\<rparr>" by (simp add: next_bucket_def)
    with Cons.IH [of "b\<lparr>taken := taken b + 1\<rparr>"] Cons.prems show ?thesis by auto
  qed
qed simp

lemma passed_in_minute:
  assumes "sorted moments" and "pred_option (\<lambda>b. 0 \<le> taken b) b"
  shows "passed_between lo (lo + 60000) (key_passes ceil moments b) \<le> 2 * nat ceil"
  using assms
proof (induction moments arbitrary: b)
  case (Cons now moments)
  define b' where "b' = next_bucket now b"
  have pos: "1 \<le> taken b'" using Cons.prems(2) by (auto simp: b'_def next_bucket_def split: option.splits)
  show ?case
  proof (cases "lo \<le> now")
    case True
    with Cons.prems(1) have late: "\<forall>t \<in> set moments. lo \<le> t" by auto
    have "passed_between lo (lo + 60000) (key_passes ceil moments (Some b')) \<le> nat (ceil - taken b') + nat ceil"
      using passed_from_start [OF _ late] Cons.prems(1) pos by simp
    with pos show ?thesis by (auto simp: b'_def)
  next
    case False
    with Cons.IH [of "Some b'"] Cons.prems(1) pos show ?thesis by (simp add: b'_def)
  qed
qed simp

definition of_key :: "jstring \<Rightarrow> (jstring \<times> int) list \<Rightarrow> int list" where
  "of_key key requests = map snd (filter (\<lambda>r. fst r = key) requests)"

lemma passes_of_key:
  assumes "distinct (map fst bs)" and "card (fst ` set bs \<union> fst ` set requests) \<le> m"
  shows "map (\<lambda>(r, pass). (snd r, pass)) (filter (\<lambda>(r, pass). fst r = key) (zip requests (passes m ceil requests bs)))
    = key_passes ceil (of_key key requests) (map_of bs key)"
  using assms
proof (induction requests arbitrary: bs)
  case (Cons r requests)
  obtain k now where r: "r = (k, now)" by fastforce
  obtain retry bs' where t: "take_token m k ceil now bs = (retry, bs')" by fastforce
  have "map_of bs k = None \<longrightarrow> length bs < m"
  proof
    assume "map_of bs k = None"
    then have "k \<notin> fst ` set bs" by (simp add: map_of_eq_None_iff)
    then have "card (fst ` set bs) < card (fst ` set bs \<union> fst ` set (r # requests))"
      by (intro psubset_card_mono) (auto simp: r)
    moreover have "card (fst ` set bs) = length bs" using Cons.prems(1) by (metis distinct_card length_map set_map)
    ultimately show "length bs < m" using Cons.prems(2) by simp
  qed
  note o = take_token_others [OF t this]
  have ih: "map (\<lambda>(r, pass). (snd r, pass)) (filter (\<lambda>(r, pass). fst r = key) (zip requests (passes m ceil requests bs')))
      = key_passes ceil (of_key key requests) (map_of bs' key)"
    using Cons.IH o(2) o(3) [OF Cons.prems(1)] Cons.prems(2) by (simp add: r insert_commute)
  show ?case
  proof (cases "k = key")
    case True
    with ih t take_token_bucket [OF t] show ?thesis by (simp add: r of_key_def)
  next
    case False
    with ih t o(1) show ?thesis by (simp add: r of_key_def)
  qed
qed (simp add: of_key_def)

text \<open>
  C32. The rate limit bounds what a client gets: as long as no more keys are in use than the limit has
  buckets, at most twice the ceiling of requests with one key pass in any sixty seconds.
\<close>

theorem rate_bounded:
  assumes "sorted (map snd requests)" and "card (fst ` set requests) \<le> maximumBuckets"
  shows "passed_between lo (lo + 60000) (map (\<lambda>(r, pass). (snd r, pass))
    (filter (\<lambda>(r, pass). fst r = key) (zip requests (passes maximumBuckets ceil requests [])))) \<le> 2 * nat ceil"
proof -
  have "sorted (of_key key requests)" using assms(1) by (simp add: of_key_def sorted_map sorted_wrt_filter)
  with passes_of_key [of "[]" requests maximumBuckets] assms(2) passed_in_minute show ?thesis by simp
qed

theorem rate_bounded_witness:
  "passed_between 0 60000 (map (\<lambda>(r, pass). (snd r, pass)) (filter (\<lambda>(r, pass). fst r = lit ''a'')
    (zip (replicate 5 (lit ''a'', 0)) (passes 4096 2 (replicate 5 (lit ''a'', 0)) [])))) \<le> 4"
  using rate_bounded [of "replicate 5 (lit ''a'', 0)" 4096 0 "lit ''a''" 2] by simp

text \<open>Whoever waits for the announced time is let through, since the window is over then.\<close>

lemma retry_sufficient:
  assumes "take_token m key ceil now bs = (Some seconds, bs')" and "now + 1000 * seconds \<le> now'" and "1 \<le> ceil"
  shows "1 \<le> seconds" "fst (take_token m key ceil now' bs') = None"
proof -
  define b where "b = next_bucket now (map_of bs key)"
  have b: "map_of bs' key = Some b" "seconds = max 1 (- ((now - started b - 60000) div 1000))"
    using take_token_bucket [OF assms(1)] assms(1)
    by (auto simp: b_def take_token_def current_bucket_def next_bucket_def Let_def split: option.splits if_splits)
  then show "1 \<le> seconds" by simp
  have "- ((now - started b - 60000) div 1000) \<le> seconds" using b(2) by simp
  then have "60000 \<le> now' - started b" using assms(2) by linarith
  then have "taken (next_bucket now' (map_of bs' key)) = 1" by (simp add: b(1) next_bucket_def)
  with take_token_bucket(2) [of m key ceil now' bs'] assms(3) show "fst (take_token m key ceil now' bs') = None"
    by (metis prod.collapse)
qed

section \<open>The choice among accepted media types\<close>

lemma best_item_spec:
  assumes "best_item xs b q = (B, Q)"
  defines "M \<equiv> {x. Some x \<in> accepted_item ` set xs}"
  shows "b \<le> B" "\<forall>(s, x) \<in> M. int s \<le> B" "b = B \<longrightarrow> q \<le> Q" "\<forall>(s, x) \<in> M. int s = B \<longrightarrow> x \<le> Q"
    "b = B \<and> q = Q \<or> (\<exists>s. (s, Q) \<in> M \<and> int s = B)"
proof -
  have "b \<le> B \<and> (\<forall>s x. Some (s, x) \<in> accepted_item ` set xs \<longrightarrow> int s \<le> B \<and> (int s = B \<longrightarrow> x \<le> Q))
      \<and> (b = B \<longrightarrow> q \<le> Q) \<and> (b = B \<and> q = Q \<or> (\<exists>s. Some (s, Q) \<in> accepted_item ` set xs \<and> int s = B))"
    using assms(1)
  proof (induction xs b q rule: best_item.induct)
    case (2 i xs b q)
    show ?case
    proof (cases "accepted_item i")
      case None
      with 2 show ?thesis by auto
    next
      case (Some y)
      obtain s x where y: "y = (s, x)" by fastforce
      consider "b < int s" | "int s = b" | "int s < b" by linarith
      then show ?thesis
      proof cases
        case 1
        with 2(2) [OF Some [unfolded y] refl] 2(5) Some y show ?thesis by fastforce
      next
        case second: 2
        with 2(3) [OF Some [unfolded y] refl] 2(5) Some y show ?thesis by (fastforce simp: max_def split: if_splits)
      next
        case 3
        with 2(4) [OF Some [unfolded y] refl] 2(5) Some y show ?thesis by fastforce
      qed
    qed
  qed auto
  then show "b \<le> B" "\<forall>(s, x) \<in> M. int s \<le> B" "b = B \<longrightarrow> q \<le> Q" "\<forall>(s, x) \<in> M. int s = B \<longrightarrow> x \<le> Q"
    "b = B \<and> q = Q \<or> (\<exists>s. (s, Q) \<in> M \<and> int s = B)"
    by (auto simp: M_def)
qed

text \<open>\<open>Accept\<close> permits the media type if one of its most specific matching items has a positive quality.\<close>

lemma acceptsCoseSign1_iff:
  "acceptsCoseSign1 (Some v) \<longleftrightarrow> (\<exists>s q. Some (s, q) \<in> accepted_item ` set (split_on (of_char CHR '','') v) \<and> 0 < q
     \<and> (\<forall>s' q'. Some (s', q') \<in> accepted_item ` set (split_on (of_char CHR '','') v) \<longrightarrow> s' \<le> s))"
proof -
  obtain B Q where b: "best_item (split_on (of_char CHR '','') v) (- 1) 0 = (B, Q)" by fastforce
  note spec = best_item_spec [OF b]
  have "acceptsCoseSign1 (Some v) \<longleftrightarrow> 0 \<le> B \<and> 0 < Q" unfolding acceptsCoseSign1_def option.case b prod.case ..
  also have "\<dots> \<longleftrightarrow> (\<exists>s q. Some (s, q) \<in> accepted_item ` set (split_on (of_char CHR '','') v) \<and> 0 < q
     \<and> (\<forall>s' q'. Some (s', q') \<in> accepted_item ` set (split_on (of_char CHR '','') v) \<longrightarrow> s' \<le> s))" (is "_ \<longleftrightarrow> ?best")
  proof
    assume h: "0 \<le> B \<and> 0 < Q"
    then obtain s where s: "Some (s, Q) \<in> accepted_item ` set (split_on (of_char CHR '','') v)" "int s = B" using spec(5) by auto
    have "s' \<le> s" if "Some (s', q') \<in> accepted_item ` set (split_on (of_char CHR '','') v)" for s' q'
    proof -
      have "int s' \<le> B" using spec(2) that by blast
      with s(2) show ?thesis by simp
    qed
    with h s show ?best by blast
  next
    assume ?best
    then obtain s q where s: "Some (s, q) \<in> accepted_item ` set (split_on (of_char CHR '','') v)" "0 < q"
        "\<forall>s' q'. Some (s', q') \<in> accepted_item ` set (split_on (of_char CHR '','') v) \<longrightarrow> s' \<le> s" by blast
    then have "int s \<le> B" using spec(2) by blast
    moreover from this obtain s0 where s0: "Some (s0, Q) \<in> accepted_item ` set (split_on (of_char CHR '','') v)" "int s0 = B"
      using spec(5) by auto
    moreover have "s0 \<le> s" using s(3) s0(1) by blast
    ultimately have "int s = B" "0 \<le> B" by linarith+
    with spec(4) s show "0 \<le> B \<and> 0 < Q" by fastforce
  qed
  finally show ?thesis .
qed

end
