(* ===== verification/Routes.thy ===== *)
theory Routes
  imports HttpProperties
begin

text \<open>
  The routes \<^verbatim>\<open>envelopes/routes.ts\<close> and \<^verbatim>\<open>delivery/status-routes.ts\<close>, over the receivers of
  \<open>EnvelopeStore\<close> and \<open>Status\<close>. A response comes with the time after which it is sent. The time does not
  depend on what happens to an envelope, and of an envelope that is not accepted the response shows at most
  that a budget of the recipient's provider is used up (429 with \<open>Retry-After: 30\<close>).
\<close>

declare split_paired_All [simp del] split_paired_Ex [simp del] Status.decimal.simps [simp del]

section \<open>The body of a request\<close>

datatype body_read = BodyRead bytes | BodyTooLarge | BodyFailed

fun read_arrival :: "arrival \<Rightarrow> nat \<Rightarrow> bytes list \<Rightarrow> body_read" where
  "read_arrival a len [] = (if ar_broken a then BodyFailed else BodyRead [])"
| "read_arrival a len (chunk # chunks) =
     (if 16384 < len + length chunk then (if ar_cancel_fails a then BodyFailed else BodyTooLarge)
      else (case read_arrival a (len + length chunk) chunks of
          BodyRead bs \<Rightarrow> BodyRead (chunk @ bs)
        | BodyTooLarge \<Rightarrow> BodyTooLarge
        | BodyFailed \<Rightarrow> BodyFailed))"

definition declared_too_large :: "arrival \<Rightarrow> bool" where
  "declared_too_large a = (case ar_header a ''content-length'' of
     None \<Rightarrow> False
   | Some h \<Rightarrow> \<not> decimal_digits h \<or> 16384 < decimal_value h)"

definition requestBytes :: "arrival \<Rightarrow> body_read" where
  "requestBytes a =
     (if declared_too_large a then BodyTooLarge
      else if \<not> ar_has_body a then BodyRead []
      else read_arrival a 0 (ar_chunks a))"

lemma read_arrival_bounded: "read_arrival a len chunks = BodyRead bs \<Longrightarrow> bs = concat chunks \<and> (len \<le> 16384 \<longrightarrow> len + length bs \<le> 16384)"
proof (induction chunks arbitrary: len bs)
  case (Cons chunk chunks)
  then show ?case by (fastforce split: if_splits body_read.splits)
qed (auto split: if_splits)

lemma requestBytes_bounded: "requestBytes a = BodyRead bs \<Longrightarrow> length bs \<le> 16384"
  using read_arrival_bounded [of a 0] by (fastforce simp: requestBytes_def split: if_splits)

section \<open>The route for envelopes\<close>

definition generic_received :: web_response where
  "generic_received = \<lparr>rs_status = 202, rs_header = [''content-type'' \<mapsto> ''application/json'', ''cache-control'' \<mapsto> ''no-store''],
     rs_has_body = True,
     rs_chunks = [map of_char (''{'' @ [CHR 0x22] @ ''outcome'' @ [CHR 0x22] @ '':'' @ [CHR 0x22] @ ''received'' @ [CHR 0x22] @ ''}'')],
     rs_broken = False, rs_cancel_fails = False\<rparr>"

definition status_snapshot :: "bytes \<Rightarrow> web_response" where
  "status_snapshot snapshot = \<lparr>rs_status = 200,
     rs_header = [''content-type'' \<mapsto> map (\<lambda>c. char_of (unat c)) COSE_SIGN1_MEDIA_TYPE, ''cache-control'' \<mapsto> ''no-store''],
     rs_has_body = True, rs_chunks = [snapshot], rs_broken = False, rs_cancel_fails = False\<rparr>"

text \<open>The value of the job is \<open>rate-limited\<close> or a signed status.\<close>

datatype envelope_value = RateLimited | Snapshot bytes

record envelope_server =
  ev_receiver :: receiver
  ev_signer :: "status_services option"
  ev_network :: network
  ev_settings :: ProtectedScheduleSettings
  ev_settles :: "int option"
  ev_aborted :: "nat \<Rightarrow> bool"

definition process_envelope ::
  "envelope_server \<Rightarrow> (nat \<Rightarrow> db) \<Rightarrow> (nat \<Rightarrow> db \<Rightarrow> db) \<Rightarrow> clock \<Rightarrow> bytes \<Rightarrow> db \<Rightarrow> envelope_value option \<times> db" where
  "process_envelope sv seen changes clk bs d =
     (case receive (ev_receiver sv) seen clk bs d of (outcome, d1) \<Rightarrow>
        if outcome = Some OutcomeRateLimited then (Some RateLimited, d1)
        else (case ev_signer sv of
          None \<Rightarrow> (None, d1)
        | Some sx \<Rightarrow>
            if outcome \<noteq> Some OutcomeAccepted \<and> outcome \<noteq> Some OutcomeDuplicate \<or> ev_aborted sv 0 then (None, d1)
            else (case inspectEnvelope (rx_codec (ev_receiver sv)) bs of
              Inl _ \<Rightarrow> (None, d1)
            | Inr e \<Rightarrow>
                (case signCurrent sx (\<lambda>i. changes i d1) (env_from e, env_message_id e) d1 of
                   Inl _ \<Rightarrow> (None, d1)
                 | Inr (snapshot, d2) \<Rightarrow> (if ev_aborted sv 1 then None else map_option Snapshot snapshot, d2)))))"

definition envelope_answer :: "envelope_value ProtectedResult \<Rightarrow> web_response" where
  "envelope_answer result = (case result of
     BusyResult \<Rightarrow> problem_response 429 ''Too Many Requests'' None [(''retry-after'', ''1'')]
   | Detailed RateLimited \<Rightarrow> problem_response 429 ''Too Many Requests'' None [(''retry-after'', ''30'')]
   | Detailed (Snapshot snapshot) \<Rightarrow> status_snapshot snapshot
   | Generic \<Rightarrow> generic_received)"

definition envelope_route ::
  "envelope_server \<Rightarrow> (nat \<Rightarrow> db) \<Rightarrow> (nat \<Rightarrow> db \<Rightarrow> db) \<Rightarrow> clock \<Rightarrow> int \<Rightarrow> arrival \<Rightarrow> gate_state \<Rightarrow> db \<Rightarrow>
     (web_response \<times> int) \<times> gate_state \<times> db" where
  "envelope_route sv seen changes clk now a g d =
     (case route_gate (ev_network sv) ''POST'' now a g of
        (Some refusal, g') \<Rightarrow> ((refusal, 0), g', d)
      | (None, g') \<Rightarrow>
          (case requestBytes a of
             BodyFailed \<Rightarrow> ((problem_response 400 ''Bad Request'' None [], 0), g', d)
           | BodyTooLarge \<Rightarrow> ((problem_response 413 ''Content Too Large'' None [], 0), g', d)
           | BodyRead bs \<Rightarrow>
               let (admitted, g'') = admit_request (ev_network sv) (ev_settings sv) a g';
                   (v, d') = (if admitted = Started then process_envelope sv seen changes clk bs d else (None, d));
                   (result, t) = protected_result (ev_settings sv) False admitted (ev_settles sv) v
               in ((envelope_answer result, t), g'', d')))"

section \<open>The route for statuses\<close>

definition digest_path :: "jstring \<Rightarrow> jstring option" where
  "digest_path pathname =
     (let prefix = lit ''/hail/deliveries/''; s = drop (length prefix) pathname in
      if take (length prefix) pathname = prefix \<and> length s = 43 \<and> list_all is_base64url s \<and> one_of ''AEIMQUYcgkosw048'' (last s)
      then Some s else None)"

record status_server =
  sv_receiver :: status_receiver
  sv_network :: network
  sv_settings :: ProtectedScheduleSettings
  sv_settles :: "int option"

definition status_answer :: "StatusOutcome ProtectedResult \<Rightarrow> web_response" where
  "status_answer result = (case result of
     BusyResult \<Rightarrow> problem_response 429 ''Too Many Requests'' None [(''retry-after'', ''1'')]
   | Detailed StatusAcknowledged \<Rightarrow> \<lparr>rs_status = 204, rs_header = [''cache-control'' \<mapsto> ''no-store''], rs_has_body = False,
       rs_chunks = [], rs_broken = False, rs_cancel_fails = False\<rparr>
   | Detailed StatusConflict \<Rightarrow> problem_response 409 ''Conflict'' None []
   | Detailed StatusBadRequest \<Rightarrow> problem_response 400 ''Bad Request'' None []
   | Detailed StatusUnknown \<Rightarrow> generic_received
   | Generic \<Rightarrow> generic_received)"

definition status_route ::
  "status_server \<Rightarrow> clock \<Rightarrow> (nat \<Rightarrow> db) \<Rightarrow> int \<Rightarrow> arrival \<Rightarrow> gate_state \<Rightarrow> db \<Rightarrow> (web_response \<times> int) \<times> gate_state \<times> db" where
  "status_route sv clk seen now a g d =
     (case route_gate (sv_network sv) ''PUT'' now a g of
        (Some refusal, g') \<Rightarrow> ((refusal, 0), g', d)
      | (None, g') \<Rightarrow>
          (case digest_path (ar_pathname a) of
             None \<Rightarrow> ((problem_response 400 ''Bad Request'' None [], 0), g', d)
           | Some pathDigest \<Rightarrow>
               if ar_search a \<noteq> [] then ((problem_response 400 ''Bad Request'' None [], 0), g', d)
               else (case requestBytes a of
                 BodyFailed \<Rightarrow> ((problem_response 400 ''Bad Request'' None [], 0), g', d)
               | BodyTooLarge \<Rightarrow> ((problem_response 413 ''Content Too Large'' None [], 0), g', d)
               | BodyRead bs \<Rightarrow>
                   let (admitted, g'') = admit_request (sv_network sv) (sv_settings sv) a g';
                       (v, d') = (if admitted = Started then
                           (case receive_status (sv_receiver sv) clk seen pathDigest bs d of
                              Inl _ \<Rightarrow> (None, d) | Inr (outcome, d') \<Rightarrow> (Some outcome, d'))
                         else (None, d));
                       (result, t) = protected_result (sv_settings sv) False admitted (sv_settles sv) v
                   in ((status_answer result, t), g'', d'))))"

section \<open>What a sender does not learn\<close>

text \<open>A protected result that is not awaited comes after the same time, whatever the job does.\<close>

lemma protected_time:
  "snd (protected_result st False admitted settles v) = (if admitted = Busy then 0 else minimumResponseMs st)"
  by (auto simp: protected_result_def Let_def split: admission.splits option.splits)

lemma protected_valueless:
  "protected_result st False admitted settles None = (if admitted = Busy then (BusyResult, 0) else (Generic, minimumResponseMs st))"
  by (auto simp: protected_result_def Let_def split: admission.splits option.splits)

text \<open>Accepted now or before; every other outcome is a refusal or an error.\<close>

definition taken_in :: "EnvelopeOutcome option \<Rightarrow> bool" where
  "taken_in outcome \<longleftrightarrow> outcome = Some OutcomeAccepted \<or> outcome = Some OutcomeDuplicate"

definition try_later :: web_response where
  "try_later = problem_response 429 ''Too Many Requests'' None [(''retry-after'', ''30'')]"

lemma refused_value:
  assumes "\<not> taken_in (fst (receive (ev_receiver sv) seen clk bs d))"
  shows "fst (process_envelope sv seen changes clk bs d) =
    (if fst (receive (ev_receiver sv) seen clk bs d) = Some OutcomeRateLimited then Some RateLimited else None)"
  using assms by (auto simp: process_envelope_def taken_in_def split: prod.splits option.splits)

text \<open>What the sender sees of a refusal that came to the schedule.\<close>

lemma refused_answer:
  "envelope_answer (fst (protected_result st False admitted settles (if limited then Some RateLimited else None)))
     = (case admitted of Busy \<Rightarrow> problem_response 429 ''Too Many Requests'' None [(''retry-after'', ''1'')]
        | _ \<Rightarrow> generic_received)
   \<or> limited \<and> envelope_answer (fst (protected_result st False admitted settles (if limited then Some RateLimited else None))) = try_later
     \<and> admitted = Started"
  by (auto simp: protected_result_def envelope_answer_def try_later_def Let_def split: admission.splits option.splits)

text \<open>
  C30. What happens to an envelope hardly shows. For two servers with different accounts, grants and databases,
  the same request is answered after the same time and leaves the same counters behind, whatever each
  does with the envelope. If neither takes it in, the answers are the same as well, with one exception: where
  a server refuses the envelope as rate-limited, because a budget of pending or rejected envelopes is used
  up, its answer may be 429 with \<open>Retry-After: 30\<close> in place of the generic 202. Unauthorized,
  expired, conflicting and ignored envelopes cannot be told apart.
\<close>

theorem envelope_outcome_hidden:
  assumes "ev_network sv = ev_network sv'" and "ev_settings sv = ev_settings sv'"
    and "envelope_route sv seen changes clk now a g d = (answered, gate, d1)"
    and "envelope_route sv' seen' changes' clk' now a g d' = (answered', gate', d1')"
  shows "snd answered = snd answered' \<and> gate = gate'
    \<and> ((\<forall>bs. requestBytes a = BodyRead bs \<longrightarrow> \<not> taken_in (fst (receive (ev_receiver sv) seen clk bs d))
          \<and> \<not> taken_in (fst (receive (ev_receiver sv') seen' clk' bs d'))) \<longrightarrow>
       fst answered = fst answered'
       \<or> (\<exists>bs. requestBytes a = BodyRead bs \<and>
            (fst (receive (ev_receiver sv) seen clk bs d) = Some OutcomeRateLimited
               \<and> fst answered = try_later \<and> fst answered' = generic_received
             \<or> fst (receive (ev_receiver sv') seen' clk' bs d') = Some OutcomeRateLimited
               \<and> fst answered' = try_later \<and> fst answered = generic_received)))"
proof -
  obtain refusal g1 where gate: "route_gate (ev_network sv') ''POST'' now a g = (refusal, g1)" by fastforce
  show ?thesis
  proof (cases refusal)
    case None
    show ?thesis
    proof (cases "requestBytes a")
      case (BodyRead bs)
      obtain admitted g2 where ad: "admit_request (ev_network sv') (ev_settings sv') a g1 = (admitted, g2)" by fastforce
      define v where "v = (if admitted = Started then fst (process_envelope sv seen changes clk bs d) else None)"
      define v' where "v' = (if admitted = Started then fst (process_envelope sv' seen' changes' clk' bs d') else None)"
      let ?r = "protected_result (ev_settings sv') False admitted (ev_settles sv) v"
      let ?r' = "protected_result (ev_settings sv') False admitted (ev_settles sv') v'"
      have r: "answered = (envelope_answer (fst ?r), snd ?r)" "gate = g2"
        using assms(1-3) by (auto simp: envelope_route_def gate None BodyRead ad Let_def v_def split: prod.splits if_splits)
      have r': "answered' = (envelope_answer (fst ?r'), snd ?r')" "gate' = g2"
        using assms(4) by (auto simp: envelope_route_def gate None BodyRead ad Let_def v'_def split: prod.splits if_splits)
      let ?o = "fst (receive (ev_receiver sv) seen clk bs d)" and ?o' = "fst (receive (ev_receiver sv') seen' clk' bs d')"
      have "fst answered = fst answered'
          \<or> ?o = Some OutcomeRateLimited \<and> fst answered = try_later \<and> fst answered' = generic_received
          \<or> ?o' = Some OutcomeRateLimited \<and> fst answered' = try_later \<and> fst answered = generic_received"
        if "\<not> taken_in ?o" "\<not> taken_in ?o'"
      proof -
        have "v = (if admitted = Started \<and> ?o = Some OutcomeRateLimited then Some RateLimited else None)"
          "v' = (if admitted = Started \<and> ?o' = Some OutcomeRateLimited then Some RateLimited else None)"
          using refused_value [OF that(1), of changes] refused_value [OF that(2), of changes'] by (auto simp: v_def v'_def)
        then show ?thesis
          using refused_answer [of "ev_settings sv'" admitted "ev_settles sv" "admitted = Started \<and> ?o = Some OutcomeRateLimited"]
            refused_answer [of "ev_settings sv'" admitted "ev_settles sv'" "admitted = Started \<and> ?o' = Some OutcomeRateLimited"]
          unfolding r r' fst_conv by (auto split: admission.splits)
      qed
      with r r' BodyRead show ?thesis by (auto simp: protected_time)
    qed (use assms gate None in \<open>auto simp: envelope_route_def\<close>)
  next
    case (Some r)
    with assms gate show ?thesis by (auto simp: envelope_route_def)
  qed
qed

end
