(* ===== verification/RoutesExample.thy ===== *)
theory RoutesExample
  imports Routes DeliveryExample
begin

text \<open>
  A signed reply reaches a server that knows nothing of the message it answers, and a server that does not serve
  its recipient; neither says so.
\<close>

declare split_paired_All [simp del] split_paired_Ex [simp del] Status.decimal.simps [simp del]

definition ignoring_server :: "receiver \<Rightarrow> envelope_server" where
  "ignoring_server rx = \<lparr>ev_receiver = rx, ev_signer = None,
     ev_network = \<lparr>net_url = (\<lambda>_. None), net_domainToASCII = (\<lambda>s. s), net_isIP = (\<lambda>_. 0), net_ipaddr = (\<lambda>_. None),
       net_toIPv4 = (\<lambda>_. IPv4 []), net_range = (\<lambda>_. []), net_lookup = (\<lambda>_. Inl Rejected), net_exchange = (\<lambda>_ _. Inl Rejected)\<rparr>,
     ev_settings = POC_PROTECTED_SCHEDULE, ev_settles = Some 5, ev_aborted = (\<lambda>_. False)\<rparr>"

definition reply_arrives :: arrival where
  "reply_arrives = \<lparr>ar_method = ''POST'', ar_pathname = lit ''/hail/envelopes'', ar_search = [],
     ar_header = [''content-type'' \<mapsto> COSE_SIGN1_MEDIA_TYPE], ar_has_body = True, ar_chunks = [signed_envelope answer],
     ar_broken = False, ar_cancel_fails = False\<rparr>"

lemma unknown_reply: "fst (receive example_receiver (\<lambda>_. empty_db) (\<lambda>_. 1500000000) (signed_envelope answer) empty_db) = None"
proof -
  have "authenticate example_receiver (\<lambda>_. empty_db) 1500000000 (signed_envelope answer) = Inr None"
    using run_verify inspect_run [OF signable_run(2)] sign_envelope(2) [OF signable_run(2)]
    by (auto simp: authenticate_def example_receiver_def throwIfAborted_def willing_def guard_def candidate_def empty_db_def
        example_codec_def sha256_example)
  then show ?thesis by (simp add: receive_def)
qed

definition other_receiver :: receiver where
  "other_receiver = example_receiver\<lparr>rx_serviceBase := lit ''elsewhere''\<rparr>"

lemma misdirected_reply: "fst (receive other_receiver (\<lambda>_. sent_db) (\<lambda>_. 1500000000) (signed_envelope answer) sent_db) = None"
proof -
  have "authenticate other_receiver (\<lambda>_. sent_db) 1500000000 (signed_envelope answer) = Inr None"
    using run_verify inspect_run [OF signable_run(2)] sign_envelope(2) [OF signable_run(2)]
    by (auto simp: authenticate_def other_receiver_def example_receiver_def throwIfAborted_def willing_def guard_def candidate_def sent_db_tables
        introduction_valid_def example_codec_def sha256_example)
  then show ?thesis by (simp add: receive_def)
qed

lemma reply_body: "requestBytes reply_arrives = BodyRead bs \<Longrightarrow> bs = signed_envelope answer"
  using read_arrival_bounded [of reply_arrives 0 "[signed_envelope answer]" bs]
  by (auto simp: requestBytes_def declared_too_large_def reply_arrives_def split: if_splits)

theorem envelope_outcome_hidden_witness:
  "fst (envelope_route (ignoring_server example_receiver) (\<lambda>_. empty_db) (\<lambda>_ d. d) (\<lambda>_. 1500000000) 0 reply_arrives
      \<lparr>gate_buckets = [], gate_schedule = \<lparr>inFlight = 0, processing = 0, sources = []\<rparr>\<rparr> empty_db)
    = fst (envelope_route (ignoring_server other_receiver) (\<lambda>_. sent_db) (\<lambda>_ d. d) (\<lambda>_. 1500000000) 0 reply_arrives
      \<lparr>gate_buckets = [], gate_schedule = \<lparr>inFlight = 0, processing = 0, sources = []\<rparr>\<rparr> sent_db)"
  (is "fst ?l = fst ?r")
proof -
  obtain answered g d answered' g' d' where r: "?l = (answered, g, d)" "?r = (answered', g', d')" by (metis prod_cases3)
  have "snd answered = snd answered' \<and> fst answered = fst answered'"
    using envelope_outcome_hidden [OF _ _ r] reply_body unknown_reply misdirected_reply
    by (auto simp: ignoring_server_def taken_in_def)
  with r show ?thesis by (simp add: prod_eq_iff)
qed

end
