(* ===== verification/Spec2Isabelle.thy ===== *)
theory Spec2Isabelle
  imports LifeCycle GrantHistory StatusExample RetrievalExample GrantServiceExample RoutesExample ValidationProperties Base64Url
begin

text \<open>
  A verification development of the Hail protocol implementation in TypeScript.

  \<^bold>\<open>The program.\<close> Hail is federated messaging. An account belongs to a provider; a provider signs
  payloads for its accounts, sends them to other providers and checks what it receives. The codec
  (\<^verbatim>\<open>packages/hail-codec-ts/src\<close>) encodes, decodes, validates, signs and verifies payloads. The
  server (\<^verbatim>\<open>apps/server/src\<close>) keeps its state in PostgreSQL and runs every operation as a
  transaction: it admits conversations, issues and receives grants (permissions to send), accepts
  envelopes, queues their delivery, fetches the bodies from the sender's provider, and
  reports the outcome back with a signed status.

  \<^bold>\<open>How it is modelled.\<close> A function of the source is a definition of the same name where the name is free.
  Errors are values: \<open>HailCodecError + 'a\<close> in the codec, \<open>server_error + 'a\<close> in the server. JavaScript
  strings are lists of 16-bit code units, byte arrays lists of 8-bit words, the accumulator of
  base64url a 32-bit word that wraps; integers are unbounded and every place where the source checks for safe integers does so in the model.
  A table is an association list from its key to a record; a transaction is a function from a database
  to an error (everything is rolled back) or a result and the next database. What other
  processes do while an operation waits is a function on the database (\<open>run_meanwhile\<close>,
  \<open>pr_meanwhile\<close>) or a family of states that the operation reads (\<open>seen\<close>). Times are arguments. Triggers and constraints not
  written out enter as \<open>refuses\<close>, which may reject any write.

  \<^bold>\<open>Code outside the repository\<close> is a parameter: the CBOR package (locale \<open>cbor_library\<close>, interpreted on
  the deterministic encoding of RFC 8949, which is defined and proved to be a codec in \<open>Rfc8949\<close>),
  SHA-256, Ed25519 and Web Crypto, domain lists and URL parsing (locale \<open>url_parser\<close>), DNS, HTTP, gzip, PLC resolution.

  \<^bold>\<open>The codec.\<close>
  \<^item> \<open>Prelude\<close>, \<open>Text\<close>, \<open>Errors\<close>: check combinators, strings, UTF-8, patterns, the errors of \<^verbatim>\<open>errors.ts\<close>.
  \<^item> \<open>Base64Url\<close> (\<^verbatim>\<open>base64url.ts\<close>): encoder and decoder; they are inverse and only canonical text decodes.
  \<^item> \<open>HailValue\<close>, \<open>CborScan\<close>, \<open>Rfc8949\<close>, \<open>CborCodec\<close> (\<^verbatim>\<open>types.ts\<close>, \<^verbatim>\<open>scan.ts\<close>, \<^verbatim>\<open>cbor.ts\<close>): the value checks, the resource
    scanner, deterministic encoding and decoding; round trip, one representation per value, and the
    scanner accepts exactly the grammar. The scanner's recursion is bounded by the remaining depth, that over the
    items of an array or a map by their number.
  \<^item> \<open>Schema\<close>, \<open>Assets\<close>, \<open>Bodies\<close>, \<open>Profiles\<close>, \<open>Validation\<close>, \<open>ValidationOrder\<close>, \<open>ValidationProperties\<close> (\<^verbatim>\<open>validation.ts\<close>, \<^verbatim>\<open>profiles.ts\<close>): one validator per
    payload type, PNG structure, asset manifests; member order does not matter.
  \<^item> \<open>Models\<close>, \<open>EnvelopeModel\<close>, \<open>GrantModel\<close> (\<^verbatim>\<open>models.ts\<close>): typed records for envelopes, statuses and grants; a validator accepts
    exactly the objects of well-formed records.
  \<^item> \<open>Cose\<close>, \<open>CoseProperties\<close> (\<^verbatim>\<open>payload.ts\<close>, \<^verbatim>\<open>cose.ts\<close>, \<^verbatim>\<open>webcrypto.ts\<close>, \<^verbatim>\<open>conversations.ts\<close>): signing and verification; what is signed verifies,
    what verifies was signed byte for byte, and a representation has one payload type.

  \<^bold>\<open>The server.\<close>
  \<^item> \<open>ServerBase\<close>, \<open>Database\<close>: errors, transactions, the tables and the statements that write them.
  \<^item> \<open>ImageFiles\<close>, \<open>BodyService\<close> (\<^verbatim>\<open>bodies/\<close>): JPEG and WebP structure, body profiles, attachments.
  \<^item> \<open>Conversations\<close> (\<^verbatim>\<open>accounts/conversation-memberships.ts\<close>, \<^verbatim>\<open>connection-authorization.ts\<close>): admission, leaving, revival; nobody
    who left is brought back by others.
  \<^item> \<open>Delivery\<close>, \<open>EnvelopeStore\<close> (\<^verbatim>\<open>delivery/repository.ts\<close>, \<^verbatim>\<open>delivery/worker.ts\<close>, \<^verbatim>\<open>envelopes/\<close>): the queue, the worker, acceptance and
    sending.
  \<^item> \<open>Accounts\<close> (\<^verbatim>\<open>accounts/lifecycle.ts\<close>, \<^verbatim>\<open>accounts/message-trash.ts\<close>, \<^verbatim>\<open>accounts/conversations.ts\<close>, the leases in
    \<^verbatim>\<open>accounts/custody-transition.ts\<close>): closing an account, the trash of a mailbox, and the leases that a change of custody takes back.
  \<^item> \<open>DeliverySystem\<close> and \<open>MessageLife\<close> make these and the publication of statuses a transition system, \<open>EnvelopeTransport\<close>,
    \<open>DeliveryExample\<close> and \<open>LifeCycle\<close> hold runs of it and its theorems: the tables agree, also after mailboxes were emptied and accounts
    closed, one reply per permission, an abstract life cycle of a message is refined, an end is final, bounded concurrency.
  \<^item> \<open>GrantStore\<close> (\<^verbatim>\<open>grants/repository.ts\<close>, \<^verbatim>\<open>store.ts\<close>, \<^verbatim>\<open>revision.ts\<close>): grants and the outbox that publishes them; \<open>GrantLife\<close> is its
    transition system and invariant, \<open>GrantHistory\<close> shows that it refines an append-only log, that revocation is final, one active grant
    per pair, publication in order, that every revision that waits is claimed in its turn, idempotent receipt. \<open>GrantExample\<close> holds runs.
  \<^item> \<open>Status\<close> (\<^verbatim>\<open>delivery/status.ts\<close>, \<^verbatim>\<open>status-publisher.ts\<close>, \<^verbatim>\<open>status-receiver.ts\<close>): signing, pushing and recording statuses; \<open>StatusProperties\<close> and
    \<open>StatusExample\<close> show that records only move forward, that statuses in any order converge, that a
    signed status is true, and that publication ends, with a bound on the number of its attempts.
  \<^item> \<open>Transport\<close>, \<open>Retrieval\<close> (\<^verbatim>\<open>discovery/safe-fetch.ts\<close>, \<^verbatim>\<open>delivery/retriever.ts\<close>): requests to other providers and the retrieval of bodies;
    \<open>RetrievalProperties\<close> and \<open>RetrievalExample\<close> show that requests are safe, that what is retrieved can be delivered, and
    that attachments cannot be fetched through the transport.
  \<^item> \<open>Http\<close> (\<^verbatim>\<open>http/\<close>): media types, the rate limit and the protected schedule, the latter a state machine of arrivals, timers and
    jobs; \<open>HttpProperties\<close> shows that its counters are right and bounded, that admission does not depend on what is processed,
    how many requests pass in a minute, and which item of \<open>Accept\<close> decides.
  \<^item> \<open>GrantExchange\<close> (\<^verbatim>\<open>grants/publisher.ts\<close>, \<^verbatim>\<open>grants/receiver.ts\<close>, \<^verbatim>\<open>grants/routes.ts\<close>): both ends of the publication of a grant, over the stores of
    \<open>GrantStore\<close>; \<open>GrantExchangeProperties\<close> shows that an acknowledged revision is stored at the other provider and that a stored one
    is acknowledged, \<open>GrantExchangeExample\<close> holds a run from one provider to the other.
  \<^item> \<open>GrantService\<close> (\<^verbatim>\<open>grants/service.ts\<close>, \<^verbatim>\<open>identity/address.ts\<close>, \<^verbatim>\<open>identity/uuid-v7.ts\<close>): what account holders do with permissions:
    proposals, signed revisions, managed signing, revocation. \<open>GrantServiceProperties\<close> shows that every operation is one step of the
    store, which appends what is returned, and that a revocation is effective at once and for ever; \<open>GrantProposals\<close> that what is
    proposed to a holder is accepted once it is signed, \<open>GrantServiceExample\<close> holds runs.
  \<^item> \<open>Routes\<close> (\<^verbatim>\<open>envelopes/routes.ts\<close>, \<^verbatim>\<open>delivery/status-routes.ts\<close>): the other two routes of the federation; why an envelope is
    not accepted shows neither in the response nor in its time, except that an exhausted budget is answered with 429. \<open>RoutesExample\<close> compares two servers.

  \<^bold>\<open>Witnesses.\<close> Theorems with hypotheses are applied to concrete values: payloads signed with a
  reference signature scheme over the RFC 8949 codec, and runs of the transactions on small databases.

  \<^bold>\<open>Not modelled.\<close> The web client, the monitor of the PLC directory and the command-line tools are user interfaces and
  scripts over these components. The dispatch of paths to routes, onboarding, sessions, account screens and the operator's
  tools are mostly input and output. Publications, groups of connections and the monitoring of PLC operations keep further
  tables; they enter only where the modelled components read them (the state of connections). Two parts write the tables
  of the model and are not part of its transition systems. The migration of an account between providers
  (\<^verbatim>\<open>migration/return.ts\<close>, \<^verbatim>\<open>migration/activation.ts\<close>, \<^verbatim>\<open>migration/managed-activation.ts\<close>) deletes all rows of an account from the tables of
  messages and grants, or copies them in, grants with several revisions at once; and a change of custody
  (\<^verbatim>\<open>accounts/custody-transition.ts\<close>) inserts revisions of the account's grants signed with the new key. The theorems on reachable states
  are about providers between such transactions.
\<close>

end
